(* ===== verification/Prelude.thy ===== *)
theory Prelude
  imports Main
begin

text \<open>
  The shared ground of the development: the named collections of rewrite rules the component
  proofs draw on, the reading of JavaScript strings and of the anchored character-class
  patterns of the sources, the values a caller may pass where the code says \<open>unknown\<close>, and
  the list lemmas the table model needs.

  A JavaScript string is a list of code units.  It is modelled by \<open>string\<close>, so by the code
  units U+0000 to U+00FF; every pattern of the sources accepts ASCII only, and a longer code
  unit is rejected by each of them exactly as an unlisted one is.
\<close>

named_theorems pattern_simps \<open>definitions of the anchored patterns of the sources\<close>
named_theorems row_simps \<open>what an update writes to the fields of a row\<close>

type_synonym time = int

section \<open>Options\<close>

text \<open>\<open>a ?? b\<close>: the left value unless it is null or undefined.\<close>

definition coalesce :: "'a option \<Rightarrow> 'a \<Rightarrow> 'a" where
  "coalesce x d = (case x of None \<Rightarrow> d | Some v \<Rightarrow> v)"

lemma coalesce_simps [simp]: "coalesce None d = d" "coalesce (Some v) d = v"
  by (simp_all add: coalesce_def)

text \<open>A SQL comparison with a null column is not true.\<close>

definition sql_lte :: "time option \<Rightarrow> time \<Rightarrow> bool" where
  "sql_lte c t = (case c of None \<Rightarrow> False | Some v \<Rightarrow> v \<le> t)"

lemma sql_lte_simps [simp]: "\<not> sql_lte None t" "sql_lte (Some v) t \<longleftrightarrow> v \<le> t"
  by (simp_all add: sql_lte_def)

lemma sql_lte_iff: "sql_lte c t \<longleftrightarrow> (\<exists>v. c = Some v \<and> v \<le> t)"
  by (cases c) simp_all

section \<open>Characters and anchored patterns\<close>

definition code_in :: "nat \<Rightarrow> nat \<Rightarrow> char \<Rightarrow> bool" where
  "code_in lo hi c \<longleftrightarrow> lo \<le> of_char c \<and> (of_char c :: nat) \<le> hi"

definition is_digit :: "char \<Rightarrow> bool" where
  "is_digit c \<longleftrightarrow> code_in 48 57 c"

definition is_upper :: "char \<Rightarrow> bool" where
  "is_upper c \<longleftrightarrow> code_in 65 90 c"

definition is_lower :: "char \<Rightarrow> bool" where
  "is_lower c \<longleftrightarrow> code_in 97 122 c"

text \<open>\<open>[0-9a-f]\<close> under the \<open>i\<close> flag.\<close>

definition is_hex :: "char \<Rightarrow> bool" where
  "is_hex c \<longleftrightarrow> is_digit c \<or> code_in 97 102 c \<or> code_in 65 70 c"

text \<open>\<open>/^[H][T]{0,n}$/u\<close>: a head class and at most \<open>n\<close> characters of a tail class.\<close>

fun head_tail :: "(char \<Rightarrow> bool) \<Rightarrow> (char \<Rightarrow> bool) \<Rightarrow> nat \<Rightarrow> string \<Rightarrow> bool" where
  "head_tail H T n [] = False"
| "head_tail H T n (c # cs) = (H c \<and> list_all T cs \<and> length cs \<le> n)"

text \<open>\<open>/^[A-Z][A-Z0-9_]{0,63}$/u\<close>\<close>

definition safe_code :: "string \<Rightarrow> bool" where
  [pattern_simps]: "safe_code =
     head_tail is_upper (\<lambda>c. is_upper c \<or> is_digit c \<or> c = CHR ''_'') 63"

text \<open>\<open>/^[a-z][a-z0-9_]{0,63}$/u\<close>\<close>

definition safe_lower_name :: "string \<Rightarrow> bool" where
  [pattern_simps]: "safe_lower_name =
     head_tail is_lower (\<lambda>c. is_lower c \<or> is_digit c \<or> c = CHR ''_'') 63"

text \<open>\<open>/^[A-Za-z0-9][A-Za-z0-9._:-]{0,n}$/u\<close>\<close>

definition is_alnum :: "char \<Rightarrow> bool" where
  "is_alnum c \<longleftrightarrow> is_upper c \<or> is_lower c \<or> is_digit c"

definition safe_key :: "nat \<Rightarrow> string \<Rightarrow> bool" where
  [pattern_simps]: "safe_key n =
     head_tail is_alnum (\<lambda>c. is_alnum c \<or> c \<in> set ''._:-'') n"

text \<open>
  \<open>/^[0-9a-f]{8}-[0-9a-f]{4}-[1-8][0-9a-f]{3}-[89ab][0-9a-f]{3}-[0-9a-f]{12}$/iu\<close>: one class
  per position.
\<close>

definition is_dash :: "char \<Rightarrow> bool" where
  "is_dash c \<longleftrightarrow> code_in 45 45 c"

definition is_variant :: "char \<Rightarrow> bool" where
  "is_variant c \<longleftrightarrow> code_in 56 57 c \<or> code_in 97 98 c \<or> code_in 65 66 c"

definition uuid_classes :: "(char \<Rightarrow> bool) list" where
  "uuid_classes =
     replicate 8 is_hex @ [is_dash] @ replicate 4 is_hex @ [is_dash] @
     [code_in 49 56] @ replicate 3 is_hex @ [is_dash] @
     [is_variant] @ replicate 3 is_hex @ [is_dash] @ replicate 12 is_hex"

definition uuid_pattern :: "string \<Rightarrow> bool" where
  [pattern_simps]: "uuid_pattern s \<longleftrightarrow> list_all2 (\<lambda>P c. P c) uuid_classes s"

lemma uuid_pattern_length: "uuid_pattern s \<Longrightarrow> length s = 36"
  by (auto simp: uuid_pattern_def uuid_classes_def dest!: list_all2_lengthD)

text \<open>\<open>String.prototype.trim\<close> on the code units below U+0100.\<close>

definition is_space :: "char \<Rightarrow> bool" where
  "is_space c \<longleftrightarrow> code_in 9 13 c \<or> of_char c = (32 :: nat) \<or> of_char c = (160 :: nat)"

definition trim :: "string \<Rightarrow> string" where
  "trim s = rev (dropWhile is_space (rev (dropWhile is_space s)))"

text \<open>\<open>toLowerCase\<close> on an ASCII code unit.\<close>

definition lower_char :: "char \<Rightarrow> char" where
  "lower_char c = (if is_upper c then char_of (of_char c + 32 :: nat) else c)"

lemma dropWhile_hd: "\<not> P (hd s) \<Longrightarrow> dropWhile P s = s"
  by (cases s) simp_all

lemma trim_id: "\<not> is_space (hd s) \<Longrightarrow> \<not> is_space (last s) \<Longrightarrow> trim s = s"
  by (simp add: trim_def dropWhile_hd hd_rev)

section \<open>Values of unknown shape\<close>

text \<open>The values a parser receives: JSON, with numbers kept in a type of their own.\<close>

datatype 'n js_value =
    JUndefined
  | JNull
  | JBool bool
  | JNum 'n
  | JStr string
  | JArr "'n js_value list"
  | JObj "(string \<times> 'n js_value) list"

text \<open>\<open>o.k\<close> on an object; a missing property reads as undefined.\<close>

definition js_field :: "(string \<times> 'n js_value) list \<Rightarrow> string \<Rightarrow> 'n js_value" where
  "js_field fs k = coalesce (map_of fs k) JUndefined"

text \<open>\<open>Object.keys(o).length\<close>: own keys are distinct.\<close>

definition js_key_count :: "(string \<times> 'n js_value) list \<Rightarrow> nat" where
  "js_key_count fs = length (remdups (map fst fs))"

section \<open>Lists\<close>

lemma find_Some_iff2: "find P xs = Some x \<Longrightarrow> x \<in> set xs \<and> P x"
  by (auto simp: find_Some_iff)

lemma find_None_iff2: "find P xs = None \<longleftrightarrow> (\<forall>x \<in> set xs. \<not> P x)"
  by (auto simp: find_None_iff)

lemma distinct_map_inj:
  "distinct (map f xs) \<Longrightarrow> x \<in> set xs \<Longrightarrow> y \<in> set xs \<Longrightarrow> f x = f y \<Longrightarrow> x = y"
  by (auto simp: distinct_map dest: inj_onD)

lemma filter_unique_key:
  assumes "distinct (map key xs)" "x \<in> set xs" "P x"
    and "\<And>y. y \<in> set xs \<Longrightarrow> P y \<Longrightarrow> key y = key x"
  shows "filter P xs = [x]"
proof -
  have d: "distinct (filter P xs)" using assms(1) by (simp add: distinct_map)
  have "set (filter P xs) = {x}"
    using assms(2-4) distinct_map_inj [OF assms(1)] by auto
  with d show ?thesis by (cases "filter P xs") (auto simp: subset_singleton_iff)
qed

end
