(* ===== verification/JS_Number.thy ===== *)
theory JS_Number
  imports Prelude Complex_Main "HOL-Library.Log_Nat"
begin

text \<open>
  JavaScript numbers: IEEE 754 binary64.  A finite value is the rational it denotes, an
  operation computes the exact result and rounds it to the nearest representable value, ties
  to even, with gradual underflow to multiples of \<open>2 ^ (-1074)\<close> and overflow to an infinity.
  \<open>Num 0\<close> stands for both zeros: no modelled code observes the sign of a zero.

  What the clients rely on is stated as the interface \<open>rounding\<close> (monotone, odd, exact on what
  is already representable); the clients' bounds are proved in it and hold for binary64 by the
  interpretation \<open>b64\<close>.
\<close>

section \<open>Rounding\<close>

text \<open>Round half to even.\<close>

definition rne :: "rat \<Rightarrow> int" where
  "rne x = (let k = \<lfloor>x\<rfloor>; d = x - of_int k in
     if d < 1/2 then k else if d > 1/2 then k + 1 else if even k then k else k + 1)"

lemma rne_cases: "rne x = \<lfloor>x\<rfloor> \<or> rne x = \<lfloor>x\<rfloor> + 1"
  by (simp add: rne_def Let_def)

lemma rne_of_int [simp]: "rne (of_int n) = n"
  by (simp add: rne_def)

lemma rne_mono: "x \<le> y \<Longrightarrow> rne x \<le> rne y"
proof -
  assume le: "x \<le> y"
  then have f: "\<lfloor>x\<rfloor> \<le> \<lfloor>y\<rfloor>" by (rule floor_mono)
  show ?thesis
  proof (cases "\<lfloor>x\<rfloor> = \<lfloor>y\<rfloor>")
    case True
    with le show ?thesis by (auto simp: rne_def Let_def)
  next
    case False
    with f have "\<lfloor>x\<rfloor> + 1 \<le> \<lfloor>y\<rfloor>" by simp
    with rne_cases [of x] rne_cases [of y] show ?thesis by linarith
  qed
qed

lemma rne_error: "\<bar>of_int (rne x) - x\<bar> \<le> 1/2"
proof -
  have "of_int \<lfloor>x\<rfloor> \<le> x" "x < of_int \<lfloor>x\<rfloor> + 1" by linarith+
  then show ?thesis by (auto simp: rne_def Let_def abs_le_iff)
qed

text \<open>The exponent of the leading bit of a positive rational.\<close>

definition flog2 :: "rat \<Rightarrow> int" where
  "flog2 r = (case quotient_of r of (p, q) \<Rightarrow>
     let e = int (floorlog 2 (nat p)) - int (floorlog 2 (nat q)) in
     if 2 powi e \<le> r then e else e - 1)"

definition ulp_exp :: "rat \<Rightarrow> int" where
  "ulp_exp r = max (- 1074) (flog2 r - 52)"

definition round_pos :: "rat \<Rightarrow> rat" where
  "round_pos r = of_int (rne (r / 2 powi ulp_exp r)) * 2 powi ulp_exp r"

definition round64 :: "rat \<Rightarrow> rat" where
  "round64 x = (if x = 0 then 0 else if x > 0 then round_pos x else - round_pos (- x))"

lemma powi_pos [simp]: "0 < (2 :: rat) powi e"
  by (simp add: zero_less_power_int)

lemma powi_nonzero [simp]: "(2 :: rat) powi e \<noteq> 0"
  using powi_pos [of e] by linarith

lemma powi_mono: "e \<le> f \<Longrightarrow> (2 :: rat) powi e \<le> 2 powi f"
  by (simp add: power_int_increasing)

lemma powi_split: "(2 :: rat) powi (e + f) = 2 powi e * 2 powi f"
  by (simp add: power_int_add)

lemma powi_nat: "0 \<le> e \<Longrightarrow> (2 :: rat) powi e = of_int (2 ^ nat e)"
  by (simp add: power_int_def)

lemma floorlog2_bounds:
  assumes "0 < n"
  shows "(2 :: rat) powi (int (floorlog 2 n) - 1) \<le> of_nat n"
    and "of_nat n < (2 :: rat) powi int (floorlog 2 n)"
proof -
  have f: "floorlog 2 n > 0" using assms by (simp add: floorlog_def)
  from floorlog_bounds [of n 2] assms
  have lo: "2 ^ (floorlog 2 n - 1) \<le> n" and hi: "n < 2 ^ floorlog 2 n" by simp_all
  have "(2 :: rat) powi (int (floorlog 2 n) - 1) = of_nat (2 ^ (floorlog 2 n - 1))"
    using f by (simp add: power_int_def nat_diff_distrib)
  with lo show "(2 :: rat) powi (int (floorlog 2 n) - 1) \<le> of_nat n"
    by (simp only: of_nat_le_iff)
  have "(2 :: rat) powi int (floorlog 2 n) = of_nat (2 ^ floorlog 2 n)"
    by (simp add: power_int_def)
  with hi show "of_nat n < (2 :: rat) powi int (floorlog 2 n)"
    by (simp only: of_nat_less_iff)
qed

lemma flog2_bounds:
  assumes "0 < r"
  shows "2 powi flog2 r \<le> r" and "r < 2 powi (flog2 r + 1)"
proof -
  obtain p q where pq: "quotient_of r = (p, q)" by force
  from quotient_of_denom_pos [OF pq] have q: "0 < q" .
  from quotient_of_div [OF pq] have r: "r = of_int p / of_int q" .
  with assms q have p: "0 < p" by (simp add: zero_less_divide_iff)
  let ?a = "int (floorlog 2 (nat p))" and ?b = "int (floorlog 2 (nat q))"
  have P: "2 powi (?a - 1) \<le> (of_int p :: rat)" "(of_int p :: rat) < 2 powi ?a"
    using floorlog2_bounds [of "nat p"] p by (simp_all add: of_nat_nat)
  have Q: "2 powi (?b - 1) \<le> (of_int q :: rat)" "(of_int q :: rat) < 2 powi ?b"
    using floorlog2_bounds [of "nat q"] q by (simp_all add: of_nat_nat)
  have "2 powi (?a - ?b - 1) * of_int q \<le> (2 powi (?a - ?b - 1) * 2 powi ?b :: rat)"
    using Q(2) by (intro mult_left_mono) (auto simp: less_imp_le)
  also have "\<dots> = 2 powi (?a - 1)" using powi_split [of "?a - ?b - 1" ?b] by simp
  also note P(1)
  finally have lo: "2 powi (?a - ?b - 1) \<le> r" using q by (simp add: r field_simps)
  have "(of_int p :: rat) < 2 powi ?a" by (rule P(2))
  also have "\<dots> = (2 powi (?a - ?b + 1) * 2 powi (?b - 1))"
    using powi_split [of "?a - ?b + 1" "?b - 1"] by simp
  also have "\<dots> \<le> 2 powi (?a - ?b + 1) * of_int q"
    using Q(1) by (intro mult_left_mono) (auto simp: less_imp_le)
  finally have hi: "r < 2 powi (?a - ?b + 1)" using q by (simp add: r field_simps)
  from lo hi pq show "2 powi flog2 r \<le> r" "r < 2 powi (flog2 r + 1)"
    by (auto simp: flog2_def Let_def not_le split: if_splits)
qed

lemma flog2_mono: "0 < x \<Longrightarrow> x \<le> y \<Longrightarrow> flog2 x \<le> flog2 y"
proof (rule ccontr)
  assume "0 < x" "x \<le> y" and "\<not> flog2 x \<le> flog2 y"
  then have "flog2 y + 1 \<le> flog2 x" and y: "0 < y" by simp_all
  then have "(2 :: rat) powi (flog2 y + 1) \<le> 2 powi flog2 x" by (intro powi_mono)
  with flog2_bounds [OF \<open>0 < x\<close>] flog2_bounds [OF y] \<open>x \<le> y\<close> show False by linarith
qed

lemma ulp_exp_mono: "0 < x \<Longrightarrow> x \<le> y \<Longrightarrow> ulp_exp x \<le> ulp_exp y"
  using flog2_mono [of x y] by (simp add: ulp_exp_def)

text \<open>A multiple of a power of two at or above the grid of \<open>r\<close> bounds the rounded value.\<close>

lemma round_pos_le:
  assumes "0 < r" "r \<le> of_int m * 2 powi f" "ulp_exp r \<le> f"
  shows "round_pos r \<le> of_int m * 2 powi f"
proof -
  let ?e = "ulp_exp r"
  have split: "(2 :: rat) powi f = of_int (2 ^ nat (f - ?e)) * 2 powi ?e"
    using powi_split [of "f - ?e" ?e] powi_nat [of "f - ?e"] assms(3) by simp
  from assms(2) have "r / 2 powi ?e \<le> of_int (m * 2 ^ nat (f - ?e))"
    by (simp add: split pos_divide_le_eq mult.assoc)
  from rne_mono [OF this] have "rne (r / 2 powi ?e) \<le> m * 2 ^ nat (f - ?e)"
    by (simp only: rne_of_int)
  then have "(of_int (rne (r / 2 powi ?e)) :: rat) \<le> of_int (m * 2 ^ nat (f - ?e))"
    by (simp only: of_int_le_iff)
  from mult_right_mono [OF this, of "2 powi ?e"]
  show ?thesis by (simp add: round_pos_def split mult.assoc less_imp_le)
qed

lemma round_pos_ge:
  assumes "of_int m * 2 powi f \<le> r" "ulp_exp r \<le> f"
  shows "of_int m * 2 powi f \<le> round_pos r"
proof -
  let ?e = "ulp_exp r"
  have split: "(2 :: rat) powi f = of_int (2 ^ nat (f - ?e)) * 2 powi ?e"
    using powi_split [of "f - ?e" ?e] powi_nat [of "f - ?e"] assms(2) by simp
  from assms(1) have "of_int (m * 2 ^ nat (f - ?e)) \<le> r / 2 powi ?e"
    by (simp add: split pos_le_divide_eq mult.assoc)
  from rne_mono [OF this] have "m * 2 ^ nat (f - ?e) \<le> rne (r / 2 powi ?e)"
    by (simp only: rne_of_int)
  then have "(of_int (m * 2 ^ nat (f - ?e)) :: rat) \<le> of_int (rne (r / 2 powi ?e))"
    by (simp only: of_int_le_iff)
  from mult_right_mono [OF this, of "2 powi ?e"]
  show ?thesis by (simp add: round_pos_def split mult.assoc less_imp_le)
qed

lemma round_pos_mono:
  assumes "0 < x" "x \<le> y"
  shows "round_pos x \<le> round_pos y"
proof (cases "ulp_exp x = ulp_exp y")
  case True
  have "rne (x / 2 powi ulp_exp y) \<le> rne (y / 2 powi ulp_exp y)"
    using assms by (intro rne_mono divide_right_mono) (auto simp: less_imp_le)
  with True show ?thesis
    by (simp add: round_pos_def mult_right_mono less_imp_le)
next
  case False
  with ulp_exp_mono [OF assms] have lt: "ulp_exp x < ulp_exp y" by simp
  then have e: "ulp_exp y = flog2 y - 52" and f: "flog2 x + 1 \<le> flog2 y"
    by (auto simp: ulp_exp_def split: if_splits)
  have "x \<le> of_int 1 * 2 powi flog2 y"
    using flog2_bounds(2) [OF assms(1)] powi_mono [OF f] by simp
  then have "round_pos x \<le> of_int 1 * 2 powi flog2 y"
    using lt e by (intro round_pos_le assms(1)) simp_all
  also have "\<dots> \<le> round_pos y"
    using flog2_bounds(1) [of y] assms e by (intro round_pos_ge) simp_all
  finally show ?thesis .
qed

lemma round_pos_nonneg: "0 < r \<Longrightarrow> 0 \<le> round_pos r"
  using round_pos_ge [of 0 "ulp_exp r" r] by simp

lemma round64_mono: "x \<le> y \<Longrightarrow> round64 x \<le> round64 y"
proof -
  assume le: "x \<le> y"
  consider "0 < x" | "x = 0" | "x < 0" by linarith
  then show ?thesis
  proof cases
    case 1 with le show ?thesis by (simp add: round64_def round_pos_mono)
  next
    case 2 with le show ?thesis by (simp add: round64_def round_pos_nonneg)
  next
    case 3
    with le round_pos_nonneg [of "- x"] round_pos_nonneg [of y] round_pos_mono [of "- y" "- x"]
    show ?thesis by (auto simp: round64_def)
  qed
qed

lemma round64_minus: "round64 (- x) = - round64 x"
  by (simp add: round64_def)

text \<open>
  The representable values: at most 53 significant bits on the grid of \<open>2 ^ (-1074)\<close>, below
  the overflow threshold.
\<close>

definition representable :: "rat \<Rightarrow> bool" where
  "representable x \<longleftrightarrow> round64 x = x \<and> \<bar>x\<bar> < 2 ^ 1024"

lemma round_pos_exact:
  assumes "0 < r" "r = of_int m * 2 powi f" "ulp_exp r \<le> f"
  shows "round_pos r = r"
  using round_pos_le [of r m f] round_pos_ge [of m f r] assms by (simp add: order_antisym)

lemma flog2_less:
  assumes "0 < r" "r < 2 powi k"
  shows "flog2 r < k"
proof (rule ccontr)
  assume "\<not> flog2 r < k"
  then have "(2 :: rat) powi k \<le> 2 powi flog2 r" by (intro powi_mono) simp
  with flog2_bounds(1) [OF assms(1)] assms(2) show False by linarith
qed

lemma round_pos_int:
  assumes "0 < n" "n \<le> 2 ^ 53"
  shows "round_pos (of_int n) = of_int n"
proof (cases "n = 2 ^ 53")
  case True
  have "flog2 (of_int n) < 54" using True by (intro flog2_less) simp_all
  then have "ulp_exp (of_int n) \<le> 53" by (simp add: ulp_exp_def)
  with True show ?thesis by (intro round_pos_exact [where m = 1 and f = 53]) simp_all
next
  case False
  with assms(2) have "n < 2 ^ 53" by simp
  then have "(of_int n :: rat) < of_int (2 ^ 53)" by (simp only: of_int_less_iff)
  then have "flog2 (of_int n) < 53" using assms(1) by (intro flog2_less) simp_all
  then have "ulp_exp (of_int n) \<le> 0" by (simp add: ulp_exp_def)
  with assms(1) show ?thesis by (intro round_pos_exact [where m = n and f = 0]) simp_all
qed

lemma round64_int: "\<bar>n\<bar> \<le> 2 ^ 53 \<Longrightarrow> round64 (of_int n) = of_int n"
proof -
  assume "\<bar>n\<bar> \<le> 2 ^ 53"
  then have "n \<le> 2 ^ 53" "- n \<le> 2 ^ 53" by simp_all
  with round_pos_int [of n] round_pos_int [of "- n"] show ?thesis by (simp add: round64_def)
qed

lemma representable_int: "\<bar>n\<bar> \<le> 2 ^ 53 \<Longrightarrow> representable (of_int n)"
proof -
  assume n: "\<bar>n\<bar> \<le> 2 ^ 53"
  then have "of_int \<bar>n\<bar> \<le> (of_int (2 ^ 53) :: rat)" by (simp only: of_int_le_iff)
  also have "\<dots> < 2 ^ 1024" by simp
  finally show ?thesis using round64_int [OF n] by (simp add: representable_def)
qed

section \<open>The interface of a rounding\<close>

locale rounding =
  fixes rd :: "rat \<Rightarrow> rat" and rep :: "rat \<Rightarrow> bool"
  assumes rd_mono: "x \<le> y \<Longrightarrow> rd x \<le> rd y"
    and rd_minus: "rd (- x) = - rd x"
    and rd_exact: "rep x \<Longrightarrow> rd x = x"
    and rep_one: "rep 1"
begin

lemma rd_zero [simp]: "rd 0 = 0"
  using rd_minus [of 0] by simp

lemma rd_nonneg: "0 \<le> x \<Longrightarrow> 0 \<le> rd x"
  using rd_mono [of 0 x] by simp

lemma rd_le: "x \<le> y \<Longrightarrow> rep y \<Longrightarrow> rd x \<le> y"
  using rd_mono [of x y] by (simp add: rd_exact)

lemma rd_ge: "x \<le> y \<Longrightarrow> rep x \<Longrightarrow> x \<le> rd y"
  using rd_mono [of x y] by (simp add: rd_exact)

text \<open>Scaling a representable bound by a factor of the unit interval stays under the bound.\<close>

lemma scale_bounded:
  assumes "rep c" "0 \<le> c" "0 \<le> r" "r \<le> 1"
  shows "0 \<le> rd (c * r) \<and> rd (c * r) \<le> c"
  using assms by (auto intro!: rd_nonneg rd_le simp: mult_left_le)

text \<open>A ratio of a part to its whole is rounded into the unit interval.\<close>

lemma ratio_bounded:
  assumes "0 \<le> n" "n \<le> d" "0 < d"
  shows "0 \<le> rd (n / d) \<and> rd (n / d) \<le> 1"
  using assms by (auto intro!: rd_nonneg rd_le [OF _ rep_one])

end

interpretation b64: rounding round64 representable
proof
  show "representable 1" using representable_int [of 1] by simp
qed (simp_all add: round64_mono round64_minus representable_def)

section \<open>Numbers and their operations\<close>

datatype js_num = NaN | PosInf | NegInf | Num rat

definition fl :: "rat \<Rightarrow> js_num" where
  "fl x = (let y = round64 x in
     if y \<ge> 2 ^ 1024 then PosInf else if y \<le> - (2 ^ 1024) then NegInf else Num y)"

definition jint :: "int \<Rightarrow> js_num" where
  "jint n = Num (of_int n)"

text \<open>\<open>Number.isFinite\<close>, \<open>Number.isInteger\<close>, \<open>Number.isSafeInteger\<close>.\<close>

fun isFinite :: "js_num \<Rightarrow> bool" where
  "isFinite (Num _) = True"
| "isFinite _ = False"

fun isInteger :: "js_num \<Rightarrow> bool" where
  "isInteger (Num x) = (of_int \<lfloor>x\<rfloor> = x)"
| "isInteger _ = False"

definition maxSafe :: int where
  "maxSafe = 9007199254740991"

fun isSafeInteger :: "js_num \<Rightarrow> bool" where
  "isSafeInteger (Num x) = (of_int \<lfloor>x\<rfloor> = x \<and> \<bar>\<lfloor>x\<rfloor>\<bar> \<le> maxSafe)"
| "isSafeInteger _ = False"

text \<open>The integer a safe integer is.\<close>

fun num_int :: "js_num \<Rightarrow> int" where
  "num_int (Num x) = \<lfloor>x\<rfloor>"
| "num_int _ = 0"

text \<open>Comparisons: false as soon as one side is NaN.\<close>

fun jlt :: "js_num \<Rightarrow> js_num \<Rightarrow> bool" where
  "jlt NaN _ = False"
| "jlt _ NaN = False"
| "jlt (Num x) (Num y) = (x < y)"
| "jlt NegInf y = (y \<noteq> NegInf)"
| "jlt _ NegInf = False"
| "jlt PosInf _ = False"
| "jlt _ PosInf = True"

definition jgt :: "js_num \<Rightarrow> js_num \<Rightarrow> bool" where
  "jgt x y = jlt y x"

definition jeq :: "js_num \<Rightarrow> js_num \<Rightarrow> bool" where
  "jeq x y \<longleftrightarrow> x \<noteq> NaN \<and> x = y"

definition jle :: "js_num \<Rightarrow> js_num \<Rightarrow> bool" where
  "jle x y \<longleftrightarrow> jlt x y \<or> jeq x y"

definition jge :: "js_num \<Rightarrow> js_num \<Rightarrow> bool" where
  "jge x y = jle y x"

text \<open>\<open>Math.min\<close>, \<open>Math.max\<close>, \<open>Math.floor\<close>, \<open>Math.abs\<close>.\<close>

definition jmin :: "js_num \<Rightarrow> js_num \<Rightarrow> js_num" where
  "jmin x y = (if x = NaN \<or> y = NaN then NaN else if jlt y x then y else x)"

definition jmax :: "js_num \<Rightarrow> js_num \<Rightarrow> js_num" where
  "jmax x y = (if x = NaN \<or> y = NaN then NaN else if jlt x y then y else x)"

fun jfloor :: "js_num \<Rightarrow> js_num" where
  "jfloor (Num x) = Num (of_int \<lfloor>x\<rfloor>)"
| "jfloor v = v"

fun jceil :: "js_num \<Rightarrow> js_num" where
  "jceil (Num x) = Num (of_int \<lceil>x\<rceil>)"
| "jceil v = v"

fun jneg :: "js_num \<Rightarrow> js_num" where
  "jneg NaN = NaN"
| "jneg PosInf = NegInf"
| "jneg NegInf = PosInf"
| "jneg (Num x) = Num (- x)"

fun jabs :: "js_num \<Rightarrow> js_num" where
  "jabs NaN = NaN"
| "jabs (Num x) = Num \<bar>x\<bar>"
| "jabs _ = PosInf"

text \<open>\<open>Math.sign\<close>.\<close>

fun jsign :: "js_num \<Rightarrow> js_num" where
  "jsign NaN = NaN"
| "jsign PosInf = Num 1"
| "jsign NegInf = Num (- 1)"
| "jsign (Num x) = Num (sgn x)"

fun jadd :: "js_num \<Rightarrow> js_num \<Rightarrow> js_num" where
  "jadd (Num x) (Num y) = fl (x + y)"
| "jadd NaN _ = NaN"
| "jadd _ NaN = NaN"
| "jadd PosInf NegInf = NaN"
| "jadd NegInf PosInf = NaN"
| "jadd PosInf _ = PosInf"
| "jadd _ PosInf = PosInf"
| "jadd NegInf _ = NegInf"
| "jadd _ NegInf = NegInf"

definition jsub :: "js_num \<Rightarrow> js_num \<Rightarrow> js_num" where
  "jsub x y = jadd x (jneg y)"

definition jsgn_inf :: "rat \<Rightarrow> js_num" where
  "jsgn_inf s = (if s > 0 then PosInf else if s < 0 then NegInf else NaN)"

fun jmul :: "js_num \<Rightarrow> js_num \<Rightarrow> js_num" where
  "jmul (Num x) (Num y) = fl (x * y)"
| "jmul NaN _ = NaN"
| "jmul _ NaN = NaN"
| "jmul (Num x) PosInf = jsgn_inf x"
| "jmul (Num x) NegInf = jsgn_inf (- x)"
| "jmul PosInf (Num y) = jsgn_inf y"
| "jmul NegInf (Num y) = jsgn_inf (- y)"
| "jmul PosInf PosInf = PosInf"
| "jmul NegInf NegInf = PosInf"
| "jmul PosInf NegInf = NegInf"
| "jmul NegInf PosInf = NegInf"

fun jdiv :: "js_num \<Rightarrow> js_num \<Rightarrow> js_num" where
  "jdiv (Num x) (Num y) = (if y = 0 then jsgn_inf x else fl (x / y))"
| "jdiv NaN _ = NaN"
| "jdiv _ NaN = NaN"
| "jdiv (Num x) _ = Num 0"
| "jdiv PosInf (Num y) = (if y \<ge> 0 then PosInf else NegInf)"
| "jdiv NegInf (Num y) = (if y \<ge> 0 then NegInf else PosInf)"
| "jdiv _ _ = NaN"

text \<open>A value the language can hold.\<close>

fun js_wf :: "js_num \<Rightarrow> bool" where
  "js_wf (Num x) = representable x"
| "js_wf _ = True"

section \<open>Laws of the operations\<close>

lemma fl_cases:
  "fl x = PosInf \<or> fl x = NegInf \<or> fl x = Num (round64 x)"
  by (simp add: fl_def Let_def)

lemma fl_not_NaN [simp]: "fl x \<noteq> NaN"
  using fl_cases [of x] by auto

lemma fl_between:
  assumes "representable a" "representable b" "a \<le> x" "x \<le> b"
  shows "fl x = Num (round64 x)" and "a \<le> round64 x" and "round64 x \<le> b"
proof -
  show lo: "a \<le> round64 x" and hi: "round64 x \<le> b"
    using assms by (auto intro: b64.rd_ge b64.rd_le)
  have "- (2 ^ 1024) < a" "b < 2 ^ 1024"
    using assms(1,2) by (auto simp: representable_def abs_less_iff)
  with lo hi have "- (2 ^ 1024) < round64 x" "round64 x < 2 ^ 1024" by linarith+
  then show "fl x = Num (round64 x)" by (simp add: fl_def Let_def del: of_int_power)
qed

lemma fl_representable: "representable x \<Longrightarrow> fl x = Num x"
  using fl_between(1) [of x x x] by (simp add: b64.rd_exact)

lemma fl_int: "\<bar>n\<bar> \<le> 2 ^ 53 \<Longrightarrow> fl (of_int n) = jint n"
  by (simp add: fl_representable representable_int jint_def)

lemma isSafeInteger_iff: "isSafeInteger v \<longleftrightarrow> (\<exists>n. v = jint n \<and> \<bar>n\<bar> \<le> maxSafe)"
proof (cases v)
  case (Num x)
  then show ?thesis by (auto simp: jint_def)
qed (auto simp: jint_def)

lemma isSafeInteger_jint [simp]: "isSafeInteger (jint n) \<longleftrightarrow> \<bar>n\<bar> \<le> maxSafe"
  by (simp add: jint_def)

lemma num_int_jint [simp]: "num_int (jint n) = n"
  by (simp add: jint_def)

lemma jint_compare [simp]:
  "jlt (jint a) (jint b) \<longleftrightarrow> a < b"
  "jle (jint a) (jint b) \<longleftrightarrow> a \<le> b"
  "jge (jint a) (jint b) \<longleftrightarrow> b \<le> a"
  "jgt (jint a) (jint b) \<longleftrightarrow> b < a"
  "jint a = jint b \<longleftrightarrow> a = b"
  by (auto simp: jint_def jle_def jge_def jgt_def jeq_def)

lemma jint_minmax [simp]:
  "jmin (jint a) (jint b) = jint (min a b)"
  "jmax (jint a) (jint b) = jint (max a b)"
  by (auto simp: jmin_def jmax_def jint_def min_def max_def)

text \<open>Addition of integers is exact while the sum stays within \<open>2 ^ 53\<close>.\<close>

lemma jadd_int: "\<bar>a + b\<bar> \<le> 2 ^ 53 \<Longrightarrow> jadd (jint a) (jint b) = jint (a + b)"
  using fl_int [of "a + b"] by (simp add: jint_def)

text \<open>Scaling a safe non-negative integer by a factor of the unit interval.\<close>

lemma jmul_scale:
  assumes "0 \<le> c" "c \<le> 2 ^ 53" "0 \<le> r" "r \<le> 1"
  shows "\<exists>y. jmul (jint c) (Num r) = Num y \<and> 0 \<le> y \<and> y \<le> of_int c"
proof -
  have c: "representable (of_int c)" using assms by (intro representable_int) simp
  have z: "representable 0" using representable_int [of 0] by simp
  have "0 \<le> of_int c * r" "of_int c * r \<le> of_int c"
    using assms by (auto simp: mult_left_le)
  from fl_between [OF z c this] show ?thesis by (simp add: jint_def)
qed

lemma jfloor_bounded:
  assumes "0 \<le> y" "y \<le> of_int c"
  shows "\<exists>n. jfloor (Num y) = jint n \<and> 0 \<le> n \<and> n \<le> c"
  using assms by (intro exI [of _ "\<lfloor>y\<rfloor>"]) (auto simp: jint_def floor_le_iff)

end
