(* ===== verification/Observability.thy ===== *)
theory Observability
  imports JS_Number
begin

text \<open>
  \<open>packages/observability/src/errors.ts\<close> and \<open>correlation.ts\<close>: operational errors with their
  normalised codes, the classification of anything that was thrown, correlation identifiers and
  the request, command and worker contexts that carry them.
\<close>

section \<open>Operational errors\<close>

datatype operational_error_class =
    Validation | Authorisation | Not_found | Conflict | Rate_limit | Dependency | Internal

record operational_error =
  oe_name :: string
  oe_code :: string
  oe_class :: operational_error_class
  oe_expected :: bool
  oe_retryable :: bool
  oe_statusCode :: int

definition normaliseCode :: "string \<Rightarrow> string" where
  "normaliseCode v = (if safe_code v then v else ''OPERATION_FAILED'')"

definition normaliseName :: "string \<Rightarrow> string" where
  "normaliseName v = (if safe_key 127 v then v else ''unknown'')"

definition normaliseStatusCode :: "js_num \<Rightarrow> int" where
  "normaliseStatusCode v =
     (if isInteger v \<and> jge v (jint 400) \<and> jle v (jint 599) then num_int v else 500)"

text \<open>The constructor of \<open>OperationalError\<close>.\<close>

definition OperationalError ::
  "string \<Rightarrow> operational_error_class \<Rightarrow> bool option \<Rightarrow> js_num \<Rightarrow> operational_error" where
  "OperationalError code cls retryable status =
     \<lparr>oe_name = ''OperationalError'', oe_code = normaliseCode code, oe_class = cls,
      oe_expected = (cls \<notin> {Dependency, Internal}), oe_retryable = coalesce retryable False,
      oe_statusCode = normaliseStatusCode status\<rparr>"

text \<open>What can be thrown at the boundary the classifier guards.\<close>

datatype thrown = Thrown_operational operational_error | Thrown_error string | Thrown_other

record safe_error_details =
  sd_class :: "operational_error_class option"  \<comment> \<open>\<open>None\<close> is the class "unexpected"\<close>
  sd_code :: string
  sd_name :: string
  sd_expected :: bool
  sd_retryable :: bool
  sd_statusCode :: int

fun classifyError :: "thrown \<Rightarrow> safe_error_details" where
  "classifyError (Thrown_operational e) =
     \<lparr>sd_class = Some (oe_class e), sd_code = oe_code e, sd_name = oe_name e,
      sd_expected = oe_expected e, sd_retryable = oe_retryable e, sd_statusCode = oe_statusCode e\<rparr>"
| "classifyError t =
     \<lparr>sd_class = None, sd_code = ''UNEXPECTED_ERROR'',
      sd_name = normaliseName (case t of Thrown_error n \<Rightarrow> n | _ \<Rightarrow> ''UnknownError''),
      sd_expected = False, sd_retryable = False, sd_statusCode = 500\<rparr>"

section \<open>Correlation identifiers and safe resource identifiers\<close>

definition parseCorrelationId :: "string option \<Rightarrow> string option" where
  "parseCorrelationId v = (case map_option trim v of
       None \<Rightarrow> None
     | Some candidate \<Rightarrow>
         if candidate \<noteq> [] \<and> uuid_pattern candidate then Some (map lower_char candidate) else None)"

text \<open>\<open>createCorrelationId\<close> throws (\<open>Inl\<close>) when the generator is broken.\<close>

definition createCorrelationId :: "string \<Rightarrow> string + string" where
  "createCorrelationId generated = (case parseCorrelationId (Some generated) of
       None \<Rightarrow> Inl ''Correlation ID generator returned an invalid identifier''
     | Some c \<Rightarrow> Inr c)"

definition normaliseSafeResourceId :: "'n js_value \<Rightarrow> string option" where
  "normaliseSafeResourceId v =
     (case v of JStr s \<Rightarrow> if safe_key 127 s then Some s else None | _ \<Rightarrow> None)"

record safe_resource_ids =
  ri_accountId :: "string option"
  ri_actorId :: "string option"
  ri_jobId :: "string option"
  ri_postId :: "string option"
  ri_workspaceId :: "string option"

definition normalise_id :: "string option \<Rightarrow> string option" where
  "normalise_id v = (case v of None \<Rightarrow> None | Some s \<Rightarrow> normaliseSafeResourceId (JStr s :: js_num js_value))"

definition normaliseResourceIds :: "safe_resource_ids \<Rightarrow> safe_resource_ids" where
  "normaliseResourceIds r =
     \<lparr>ri_accountId = normalise_id (ri_accountId r), ri_actorId = normalise_id (ri_actorId r),
      ri_jobId = normalise_id (ri_jobId r), ri_postId = normalise_id (ri_postId r),
      ri_workspaceId = normalise_id (ri_workspaceId r)\<rparr>"

text \<open>Header values are a string or a list of strings, read by name or through a reader.\<close>

datatype header_value = HStr string | HList "string list"

datatype header_source =
    Header_reader "string \<Rightarrow> string option"
  | Header_record "string \<Rightarrow> header_value option"

definition readHeader :: "header_source \<Rightarrow> string \<Rightarrow> string option" where
  "readHeader h name = (case h of
       Header_reader get \<Rightarrow> get name
     | Header_record m \<Rightarrow>
         (case (case m name of None \<Rightarrow> m (map lower_char name) | Some v \<Rightarrow> Some v) of
            None \<Rightarrow> None
          | Some (HStr s) \<Rightarrow> Some s
          | Some (HList vs) \<Rightarrow> (case vs of [] \<Rightarrow> None | v # _ \<Rightarrow> Some v)))"

definition createWebRequestContext :: "header_source \<Rightarrow> string \<Rightarrow> string + string" where
  "createWebRequestContext h generated =
     (case parseCorrelationId (readHeader h ''x-correlation-id'') of
        Some c \<Rightarrow> Inr c
      | None \<Rightarrow> createCorrelationId generated)"

record worker_event_context =
  we_correlationId :: string
  we_ids :: safe_resource_ids
  we_attempt :: "js_num option"

text \<open>The event's job identifier replaces the command's when it is a non-empty string.\<close>

definition createWorkerEventContext ::
  "string \<Rightarrow> safe_resource_ids \<Rightarrow> js_num option \<Rightarrow> string option \<Rightarrow> worker_event_context" where
  "createWorkerEventContext correlationId ids attempt jobId =
     \<lparr>we_correlationId = correlationId,
      we_ids = normaliseResourceIds
        (case jobId of Some j \<Rightarrow> if j \<noteq> [] then ids\<lparr>ri_jobId := Some j\<rparr> else ids | None \<Rightarrow> ids),
      we_attempt = (case attempt of
          Some a \<Rightarrow> if isSafeInteger a \<and> jge a (jint 0) then Some a else None
        | None \<Rightarrow> None)\<rparr>"

section \<open>Laws\<close>

lemma safe_code_normaliseCode [simp]: "safe_code (normaliseCode v)"
  by (simp add: normaliseCode_def pattern_simps is_upper_def is_digit_def code_in_def)

lemma normaliseCode_safe: "safe_code v \<Longrightarrow> normaliseCode v = v"
  by (simp add: normaliseCode_def)

lemma lower_char_classes:
  "is_hex c \<Longrightarrow> is_hex (lower_char c)"
  "code_in 49 56 c \<Longrightarrow> code_in 49 56 (lower_char c)"
  "is_dash c \<Longrightarrow> is_dash (lower_char c)"
  "is_variant c \<Longrightarrow> is_variant (lower_char c)"
  by (auto simp: lower_char_def is_upper_def is_hex_def is_digit_def is_dash_def is_variant_def
      code_in_def)

lemma lower_char_idem: "lower_char (lower_char c) = lower_char c"
  by (auto simp: lower_char_def is_upper_def code_in_def)

lemma uuid_pattern_lower:
  assumes "uuid_pattern s"
  shows "uuid_pattern (map lower_char s)"
proof -
  have "list_all2 (\<lambda>P c. P c \<and> P \<in> set uuid_classes) uuid_classes s"
    using assms by (simp add: uuid_pattern_def list_all2_conv_all_nth)
  then have "list_all2 (\<lambda>P c. P (lower_char c)) uuid_classes s"
    by (rule list_all2_mono)
      (auto simp: uuid_classes_def intro: lower_char_classes)
  then show ?thesis by (simp add: uuid_pattern_def list_all2_map2)
qed

lemma uuid_pattern_ends:
  assumes "uuid_pattern s"
  shows "is_hex (hd s)" and "is_hex (last s)"
proof -
  have len: "length s = 36" using assms by (rule uuid_pattern_length)
  have nth: "(uuid_classes ! i) (s ! i)" if "i < 36" for i
    using assms that len by (simp add: uuid_pattern_def list_all2_conv_all_nth)
  have "uuid_classes ! 0 = is_hex" "uuid_classes ! 35 = is_hex"
    by (simp_all add: uuid_classes_def nth_append)
  with nth [of 0] nth [of 35] len show "is_hex (hd s)" "is_hex (last s)"
    by (simp_all add: hd_conv_nth last_conv_nth flip: length_greater_0_conv)
qed

lemma hex_not_space: "is_hex c \<Longrightarrow> \<not> is_space c"
  by (auto simp: is_hex_def is_space_def is_digit_def code_in_def)

lemma trim_uuid: "uuid_pattern s \<Longrightarrow> trim s = s"
  by (intro trim_id hex_not_space uuid_pattern_ends)

lemma parseCorrelationId_Some:
  "parseCorrelationId v = Some c \<Longrightarrow> uuid_pattern c \<and> map lower_char c = c"
  by (auto simp: parseCorrelationId_def uuid_pattern_lower lower_char_idem
      split: option.splits if_splits)

lemma parseCorrelationId_fixed:
  "uuid_pattern c \<Longrightarrow> map lower_char c = c \<Longrightarrow> parseCorrelationId (Some c) = Some c"
  using uuid_pattern_length [of c] by (auto simp: parseCorrelationId_def trim_uuid)

section \<open>Properties\<close>

text \<open>
  The correlation identifier a web request is given is canonical: it has the shape of an
  identifier in lower case, and every later layer that parses it gets the same one.
\<close>

theorem request_correlation_canonical:
  assumes "createWebRequestContext src gen = Inr c"
  shows "uuid_pattern c \<and> map lower_char c = c \<and> parseCorrelationId (Some c) = Some c"
proof -
  from assms obtain v where "parseCorrelationId v = Some c"
    by (auto simp: createWebRequestContext_def createCorrelationId_def split: option.splits)
  then show ?thesis using parseCorrelationId_Some parseCorrelationId_fixed by blast
qed

theorem request_correlation_canonical_witness:
  "parseCorrelationId (Some ''01890a5d-ac96-774b-bcce-b302099a8057'') = Some ''01890a5d-ac96-774b-bcce-b302099a8057''"
proof -
  have "createWebRequestContext (Header_record (\<lambda>n. if n = ''x-correlation-id''
      then Some (HStr '' 01890A5D-ac96-774b-bcce-b302099a8057'') else None)) []
    = Inr ''01890a5d-ac96-774b-bcce-b302099a8057''" by code_simp
  from request_correlation_canonical [OF this] show ?thesis by simp
qed

end
