(* ===== verification/Job_Lifecycle.thy ===== *)
theory Job_Lifecycle
  imports Observability
begin

text \<open>
  \<open>packages/domain/src/job-lifecycle.ts\<close> and \<open>background-jobs.ts\<close>: the states a background job
  moves through and the table of transitions, the queues with their versioned keys, and the
  envelope a delivery carries.
\<close>

section \<open>States and transitions\<close>

datatype job_state = QUEUED | PROCESSING | RETRY_SCHEDULED | SUCCEEDED | FAILED_ATTENTION | CANCELLED

datatype attempt_state =
    A_ACTIVE | A_SUCCEEDED | A_RETRY_SCHEDULED | A_FAILED_ATTENTION | A_LEASE_EXPIRED | A_CANCELLED

definition terminalBackgroundJobStates :: "job_state list" where
  "terminalBackgroundJobStates = [SUCCEEDED, FAILED_ATTENTION, CANCELLED]"

fun allowedTransitions :: "job_state \<Rightarrow> job_state list" where
  "allowedTransitions CANCELLED = []"
| "allowedTransitions FAILED_ATTENTION = [QUEUED]"
| "allowedTransitions PROCESSING =
     [QUEUED, RETRY_SCHEDULED, SUCCEEDED, FAILED_ATTENTION, CANCELLED]"
| "allowedTransitions QUEUED = [PROCESSING, CANCELLED]"
| "allowedTransitions RETRY_SCHEDULED = [QUEUED, CANCELLED]"
| "allowedTransitions SUCCEEDED = []"

definition canTransitionJob :: "job_state \<Rightarrow> job_state \<Rightarrow> bool" where
  "canTransitionJob from to \<longleftrightarrow> to \<in> set (allowedTransitions from)"

text \<open>\<open>assertJobTransition\<close> throws \<open>InvalidJobTransitionError\<close> with both states.\<close>

definition assertJobTransition :: "job_state \<Rightarrow> job_state \<Rightarrow> (job_state \<times> job_state) option" where
  "assertJobTransition from to = (if canTransitionJob from to then None else Some (from, to))"

definition isTerminalJobState :: "job_state \<Rightarrow> bool" where
  "isTerminalJobState s \<longleftrightarrow> s \<in> set terminalBackgroundJobStates"

definition isSafeJobStage :: "string \<Rightarrow> bool" where
  "isSafeJobStage stage = safe_lower_name stage"

section \<open>Queues\<close>

definition queueDefinitions :: "(string \<times> int) list" where
  "queueDefinitions =
     [(''instagram.sync.account'', 1), (''instagram.snapshot.post'', 1),
      (''instagram.token.maintain'', 1), (''instagram.media.import'', 1),
      (''instagram.comments.post'', 1), (''asset.validate'', 1), (''asset.cleanup'', 1),
      (''analysis.run'', 1), (''analytics.recalculate'', 1), (''strategy.generate'', 1),
      (''system.reconcile'', 1)]"

definition queueDeliveryExpirySeconds :: int where
  "queueDeliveryExpirySeconds = 900"

definition isQueueName :: "string \<Rightarrow> bool" where
  "isQueueName v \<longleftrightarrow> v \<in> set (map fst queueDefinitions)"

text \<open>The decimal rendering of a number in a template literal, for safe integers.\<close>

definition digit_char :: "nat \<Rightarrow> char" where
  "digit_char d = char_of (48 + d)"

fun dec_nat :: "nat \<Rightarrow> string" where
  "dec_nat n = (if n < 10 then [digit_char n] else dec_nat (n div 10) @ [digit_char (n mod 10)])"

definition dec_int :: "int \<Rightarrow> string" where
  "dec_int n = (if n < 0 then CHR ''-'' # dec_nat (nat (- n)) else dec_nat (nat n))"

definition queueVersionKey :: "string \<Rightarrow> int \<Rightarrow> string" where
  "queueVersionKey name version = name @ ''.v'' @ dec_int version"

section \<open>Envelopes\<close>

record envelope =
  en_correlationId :: string
  en_domainJobId :: string
  en_handlerVersion :: int
  en_queueName :: string
  en_workspaceId :: string

definition parseQueueJobEnvelope :: "js_num js_value \<Rightarrow> envelope option" where
  "parseQueueJobEnvelope v = (case v of
     JObj fs \<Rightarrow>
       if js_key_count fs \<noteq> 5 then None
       else (case (js_field fs ''correlationId'', js_field fs ''domainJobId'',
                   js_field fs ''handlerVersion'', js_field fs ''queueName'',
                   js_field fs ''workspaceId'') of
           (JStr correlationId, JStr domainJobId, JNum handlerVersion, JStr queueName, JStr workspaceId) \<Rightarrow>
             if \<not> uuid_pattern correlationId \<or> \<not> uuid_pattern domainJobId \<or>
                \<not> isSafeInteger handlerVersion \<or> jlt handlerVersion (jint 1) \<or>
                \<not> isQueueName queueName \<or> \<not> uuid_pattern workspaceId
             then None
             else Some \<lparr>en_correlationId = correlationId, en_domainJobId = domainJobId,
                        en_handlerVersion = num_int handlerVersion, en_queueName = queueName,
                        en_workspaceId = workspaceId\<rparr>
         | _ \<Rightarrow> None)
   | _ \<Rightarrow> None)"

text \<open>The object an envelope is sent as.\<close>

definition envelope_value :: "envelope \<Rightarrow> js_num js_value" where
  "envelope_value e = JObj
     [(''correlationId'', JStr (en_correlationId e)), (''domainJobId'', JStr (en_domainJobId e)),
      (''handlerVersion'', JNum (jint (en_handlerVersion e))),
      (''queueName'', JStr (en_queueName e)), (''workspaceId'', JStr (en_workspaceId e))]"

definition envelope_ok :: "envelope \<Rightarrow> bool" where
  "envelope_ok e \<longleftrightarrow>
     uuid_pattern (en_correlationId e) \<and> uuid_pattern (en_domainJobId e) \<and>
     1 \<le> en_handlerVersion e \<and> en_handlerVersion e \<le> maxSafe \<and>
     isQueueName (en_queueName e) \<and> uuid_pattern (en_workspaceId e)"

section \<open>Laws\<close>

lemma canTransitionJob_simps [simp]:
  "canTransitionJob QUEUED PROCESSING" "canTransitionJob RETRY_SCHEDULED QUEUED"
  "canTransitionJob PROCESSING QUEUED" "canTransitionJob PROCESSING RETRY_SCHEDULED"
  "canTransitionJob PROCESSING SUCCEEDED" "canTransitionJob PROCESSING FAILED_ATTENTION"
  "canTransitionJob PROCESSING CANCELLED" "canTransitionJob QUEUED CANCELLED"
  "canTransitionJob RETRY_SCHEDULED CANCELLED" "canTransitionJob FAILED_ATTENTION QUEUED"
  by (simp_all add: canTransitionJob_def)

lemma assertJobTransition_None [simp]:
  "assertJobTransition a b = None \<longleftrightarrow> canTransitionJob a b"
  by (simp add: assertJobTransition_def)

lemma assertJobTransition_ok [simp]: "canTransitionJob a b \<Longrightarrow> assertJobTransition a b = None"
  by simp

lemma isTerminalJobState_simps [simp]:
  "isTerminalJobState SUCCEEDED" "isTerminalJobState FAILED_ATTENTION"
  "isTerminalJobState CANCELLED" "\<not> isTerminalJobState QUEUED"
  "\<not> isTerminalJobState PROCESSING" "\<not> isTerminalJobState RETRY_SCHEDULED"
  by (simp_all add: isTerminalJobState_def terminalBackgroundJobStates_def)

declare dec_nat.simps [simp del]

definition undec :: "string \<Rightarrow> nat" where
  "undec = foldl (\<lambda>a c. 10 * a + (of_char c - 48)) 0"

lemma is_digit_digit_char: "d < 10 \<Longrightarrow> is_digit (digit_char d)"
  by (simp add: is_digit_def digit_char_def code_in_def)

lemma undec_dec_nat: "undec (dec_nat n) = n"
proof (induction n rule: dec_nat.induct)
  case (1 n)
  then show ?case by (subst dec_nat.simps) (auto simp: undec_def digit_char_def)
qed

lemma dec_nat_digits: "list_all is_digit (dec_nat n)"
proof (induction n rule: dec_nat.induct)
  case (1 n)
  then show ?case by (subst dec_nat.simps) (auto simp: is_digit_digit_char)
qed

lemma dec_nat_inj: "dec_nat m = dec_nat n \<Longrightarrow> m = n"
  by (metis undec_dec_nat)

lemma takeWhile_digits:
  assumes "list_all is_digit ds" "\<not> is_digit c"
  shows "takeWhile is_digit (rev (xs @ [c] @ ds)) = rev ds"
  using takeWhile_append2 [of "rev ds" is_digit "c # rev xs"] assms by (simp add: list_all_iff)

lemma key_split:
  assumes "a @ ''.v'' @ d = b @ ''.v'' @ e" "list_all is_digit d" "list_all is_digit e"
  shows "a = b \<and> d = e"
proof -
  have v: "\<not> is_digit (CHR ''v'')" by (simp add: is_digit_def code_in_def)
  have "takeWhile is_digit (rev ((a @ ''.'') @ [CHR ''v''] @ d)) =
        takeWhile is_digit (rev ((b @ ''.'') @ [CHR ''v''] @ e))"
    using assms(1) by simp
  then have "d = e" using takeWhile_digits [OF _ v] assms(2,3) by (metis rev_rev_ident)
  with assms(1) show ?thesis by simp
qed

lemma queueVersionKey_inject:
  assumes "0 \<le> v" "0 \<le> w" "queueVersionKey a v = queueVersionKey b w"
  shows "a = b \<and> v = w"
proof -
  from assms have "a @ ''.v'' @ dec_nat (nat v) = b @ ''.v'' @ dec_nat (nat w)"
    by (simp add: queueVersionKey_def dec_int_def)
  from key_split [OF this dec_nat_digits dec_nat_digits] assms(1,2)
  show ?thesis by (auto dest: dec_nat_inj)
qed

lemma parse_envelope_ok: "parseQueueJobEnvelope v = Some e \<Longrightarrow> envelope_ok e"
  by (auto simp: parseQueueJobEnvelope_def envelope_ok_def isSafeInteger_iff not_less
      split: js_value.splits if_splits)

lemma parse_envelope_value: "envelope_ok e \<Longrightarrow> parseQueueJobEnvelope (envelope_value e) = Some e"
  by (simp add: parseQueueJobEnvelope_def envelope_value_def envelope_ok_def js_key_count_def
      js_field_def not_less)

section \<open>Properties\<close>

text \<open>
  C33: the envelope of a delivery survives the queue.  What is sent parses back to itself exactly
  when it is well formed, and whatever parses is well formed.
\<close>

theorem envelope_round_trip:
  "(parseQueueJobEnvelope (envelope_value e) = Some e \<longleftrightarrow> envelope_ok e) \<and>
   (case parseQueueJobEnvelope v of None \<Rightarrow> True | Some e' \<Rightarrow> envelope_ok e')"
  using parse_envelope_ok parse_envelope_value by (auto split: option.splits)

text \<open>Two queue versions share a key only if they are the same queue at the same version.\<close>

theorem queueVersionKey_injective:
  assumes "0 \<le> v" "0 \<le> w"
  shows "queueVersionKey a v = queueVersionKey b w \<longleftrightarrow> a = b \<and> v = w"
  using queueVersionKey_inject [OF assms] by blast

theorem queueVersionKey_injective_witness:
  "queueVersionKey ''analysis.run'' 1 \<noteq> queueVersionKey ''analysis.run'' 11"
  using queueVersionKey_injective [of 1 11] by simp

end
