(* ===== verification/Job_Retry.thy ===== *)
theory Job_Retry
  imports Job_Lifecycle
begin

text \<open>
  \<open>packages/domain/src/job-retry.ts\<close>: the failure classes a handler reports, and the decision
  whether and when a failed attempt is retried.  Delays are JavaScript numbers with their
  rounding; instants are integral milliseconds, the range in which \<open>Date\<close> is exact.
\<close>

datatype failure_class =
    TRANSIENT | RATE_LIMIT | CREDENTIAL | INVALID_INPUT | SEMANTIC_OUTPUT | DATABASE | UNKNOWN

datatype next_action =
    RETRY_AUTOMATIC | RECONNECT_ACCOUNT | REPLACE_INPUT | REVIEW_OUTPUT | CONTACT_SUPPORT

record job_failure =
  jf_credentialRecoverable :: "bool option"
  jf_errorClass :: failure_class
  jf_errorCode :: string
  jf_providerRetryAfterMs :: "js_num option"

datatype retry_decision =
    Retry (delayMs: js_num) (nextAttemptAt: time)  \<comment> \<open>with next action \<open>RETRY_AUTOMATIC\<close>\<close>
  | Failed_attention next_action

definition retryHorizonMs :: int where
  "retryHorizonMs = 86400000"

fun maximumAttemptsByClass :: "failure_class \<Rightarrow> int" where
  "maximumAttemptsByClass CREDENTIAL = 2"
| "maximumAttemptsByClass DATABASE = 3"
| "maximumAttemptsByClass INVALID_INPUT = 1"
| "maximumAttemptsByClass RATE_LIMIT = 8"
| "maximumAttemptsByClass SEMANTIC_OUTPUT = 2"
| "maximumAttemptsByClass TRANSIENT = 5"
| "maximumAttemptsByClass UNKNOWN = 1"

fun retryCaps :: "failure_class \<Rightarrow> int list" where
  "retryCaps CREDENTIAL = [1000]"
| "retryCaps DATABASE = [1000, 5000]"
| "retryCaps INVALID_INPUT = []"
| "retryCaps RATE_LIMIT = [30000, 120000, 600000, 1800000, 7200000, 21600000, 43200000]"
| "retryCaps SEMANTIC_OUTPUT = [1000]"
| "retryCaps TRANSIENT = [30000, 120000, 600000, 1800000, 7200000]"
| "retryCaps UNKNOWN = []"

definition normaliseErrorCode :: "string \<Rightarrow> string" where
  "normaliseErrorCode v = (if safe_code v then v else ''JOB_HANDLER_FAILED'')"

definition isPositiveFinite :: "js_num option \<Rightarrow> bool" where
  "isPositiveFinite v = (case v of None \<Rightarrow> False | Some n \<Rightarrow> isFinite n \<and> jgt n (jint 0))"

definition clampRandom :: "js_num \<Rightarrow> js_num" where
  "clampRandom v = (if \<not> isFinite v then Num (1/2) else jmin (jmax v (jint 0)) (jint 1))"

text \<open>The constructor of \<open>JobHandlerFailure\<close>: what \<open>error.failure\<close> holds.\<close>

definition JobHandlerFailure :: "job_failure \<Rightarrow> job_failure" where
  "JobHandlerFailure f = f\<lparr>jf_errorCode := normaliseErrorCode (jf_errorCode f),
     jf_providerRetryAfterMs :=
       (if isPositiveFinite (jf_providerRetryAfterMs f)
        then map_option jfloor (jf_providerRetryAfterMs f) else jf_providerRetryAfterMs f)\<rparr>"

definition normaliseFailure :: "job_failure \<Rightarrow> job_failure" where
  "normaliseFailure f = f\<lparr>jf_errorCode := normaliseErrorCode (jf_errorCode f)\<rparr>"

definition terminalNextAction :: "job_failure \<Rightarrow> next_action option" where
  "terminalNextAction f = (case jf_errorClass f of
       CREDENTIAL \<Rightarrow>
         if jf_credentialRecoverable f = Some True then None else Some RECONNECT_ACCOUNT
     | INVALID_INPUT \<Rightarrow> Some REPLACE_INPUT
     | UNKNOWN \<Rightarrow> Some CONTACT_SUPPORT
     | _ \<Rightarrow> None)"

definition fallbackTerminalAction :: "failure_class \<Rightarrow> next_action" where
  "fallbackTerminalAction c = (case c of
       CREDENTIAL \<Rightarrow> RECONNECT_ACCOUNT
     | INVALID_INPUT \<Rightarrow> REPLACE_INPUT
     | SEMANTIC_OUTPUT \<Rightarrow> REVIEW_OUTPUT
     | _ \<Rightarrow> CONTACT_SUPPORT)"

record retry_input =
  ri_attemptNumber :: js_num
  ri_failure :: job_failure
  ri_jobCreatedAt :: time
  ri_maxAttempts :: js_num
  ri_now :: time
  ri_random :: js_num  \<comment> \<open>the value of \<open>input.random?.() ?? Math.random()\<close>\<close>

definition retry_allowed_attempts :: "retry_input \<Rightarrow> js_num" where
  "retry_allowed_attempts i =
     jmin (ri_maxAttempts i) (jint (maximumAttemptsByClass (jf_errorClass (ri_failure i))))"

definition retry_refused :: "retry_input \<Rightarrow> bool" where
  "retry_refused i \<longleftrightarrow>
     terminalNextAction (normaliseFailure (ri_failure i)) \<noteq> None \<or>
     \<not> isSafeInteger (ri_attemptNumber i) \<or> jlt (ri_attemptNumber i) (jint 1) \<or>
     \<not> isSafeInteger (ri_maxAttempts i) \<or> jlt (ri_maxAttempts i) (jint 1) \<or>
     jge (ri_attemptNumber i) (retry_allowed_attempts i)"

text \<open>The delay once a cap is chosen: jittered, at least a second, at least what the provider asked.\<close>

definition retry_delay :: "int \<Rightarrow> js_num \<Rightarrow> js_num option \<Rightarrow> js_num" where
  "retry_delay cap random provider =
     (let jittered = jmax (jint 1000) (jfloor (jmul (jint cap) (clampRandom random)));
          providerDelay = (case provider of
              Some p \<Rightarrow> if isPositiveFinite provider then jfloor p else jint 0
            | None \<Rightarrow> jint 0)
      in jmax jittered providerDelay)"

definition decideJobRetry :: "retry_input \<Rightarrow> retry_decision" where
  "decideJobRetry i =
     (let failure = normaliseFailure (ri_failure i);
          fallback = fallbackTerminalAction (jf_errorClass failure);
          caps = retryCaps (jf_errorClass failure)
      in if retry_refused i then Failed_attention (coalesce (terminalNextAction failure) fallback)
         else let index = nat (num_int (ri_attemptNumber i) - 1)
         in if length caps \<le> index then Failed_attention fallback
         else let delay = retry_delay (caps ! index) (ri_random i) (jf_providerRetryAfterMs failure);
                  next = ri_now i + num_int delay
         in if jgt delay (jint retryHorizonMs) \<or> next > ri_jobCreatedAt i + retryHorizonMs
            then Failed_attention fallback
            else Retry delay next)"

section \<open>Laws\<close>

lemma normaliseFailure_simps [simp]:
  "jf_errorClass (normaliseFailure f) = jf_errorClass f"
  "jf_credentialRecoverable (normaliseFailure f) = jf_credentialRecoverable f"
  "jf_providerRetryAfterMs (normaliseFailure f) = jf_providerRetryAfterMs f"
  "terminalNextAction (normaliseFailure f) = terminalNextAction f"
  by (simp_all add: normaliseFailure_def terminalNextAction_def)

lemma clampRandom_unit: "\<exists>r. clampRandom v = Num r \<and> 0 \<le> r \<and> r \<le> 1"
  by (cases v) (auto simp: clampRandom_def jmin_def jmax_def jint_def intro: exI [of _ "1/2"])

text \<open>There is a cap for every attempt below the maximum of a class.\<close>

lemma caps_cover:
  "1 \<le> n \<Longrightarrow> n < maximumAttemptsByClass c \<Longrightarrow> nat (n - 1) < length (retryCaps c)"
  by (cases c) auto

lemma caps_range: "cap \<in> set (retryCaps c) \<Longrightarrow> 1000 \<le> cap \<and> cap \<le> 43200000"
  by (cases c) auto

lemma retry_not_refused:
  assumes "\<not> retry_refused i"
  obtains n m where "ri_attemptNumber i = jint n" "ri_maxAttempts i = jint m"
    "1 \<le> n" "n < m" "n < maximumAttemptsByClass (jf_errorClass (ri_failure i))"
    "terminalNextAction (ri_failure i) = None"
  using assms by (auto simp: retry_refused_def retry_allowed_attempts_def isSafeInteger_iff not_le)

lemma jitter_bounds:
  assumes "1000 \<le> cap" "cap \<le> 43200000"
  shows "\<exists>n. jmax (jint 1000) (jfloor (jmul (jint cap) (clampRandom v))) = jint n \<and>
    1000 \<le> n \<and> n \<le> cap"
proof -
  obtain r where r: "clampRandom v = Num r" "0 \<le> r" "r \<le> 1" using clampRandom_unit by blast
  obtain y where y: "jmul (jint cap) (Num r) = Num y" "0 \<le> y" "y \<le> of_int cap"
    using jmul_scale [of cap r] r assms by auto
  obtain n where "jfloor (Num y) = jint n" "n \<le> cap" using jfloor_bounded [of y cap] y by blast
  with r y assms show ?thesis by (intro exI [of _ "max 1000 n"]) auto
qed

lemma provider_delay_int:
  "\<exists>p. (case provider of Some p \<Rightarrow> if isPositiveFinite provider then jfloor p else jint 0
      | None \<Rightarrow> jint 0) = jint p \<and> 0 \<le> p \<and>
    (\<forall>x. provider = Some (Num x) \<and> 0 < x \<longrightarrow> p = \<lfloor>x\<rfloor>)"
proof (cases provider)
  case (Some q)
  show ?thesis
  proof (cases "isPositiveFinite provider")
    case True
    with Some obtain x where "q = Num x" "0 < x"
      by (cases q) (auto simp: isPositiveFinite_def jgt_def jint_def)
    with True Some show ?thesis by (intro exI [of _ "\<lfloor>x\<rfloor>"]) (auto simp: jint_def)
  next
    case False
    with Some show ?thesis
      by (intro exI [of _ 0]) (auto simp: isPositiveFinite_def jgt_def jint_def)
  qed
qed (auto intro: exI [of _ 0])

lemma retry_delay_bounds:
  assumes "1000 \<le> cap" "cap \<le> 43200000"
  shows "\<exists>n p. retry_delay cap v provider = jint n \<and> 1000 \<le> n \<and> p \<le> n \<and> n \<le> max cap p \<and>
    (\<forall>x. provider = Some (Num x) \<and> 0 < x \<longrightarrow> p = \<lfloor>x\<rfloor>)"
proof -
  obtain j where "jmax (jint 1000) (jfloor (jmul (jint cap) (clampRandom v))) = jint j"
    "1000 \<le> j" "j \<le> cap" using jitter_bounds [OF assms] by blast
  moreover obtain p where
    "(case provider of Some p \<Rightarrow> if isPositiveFinite provider then jfloor p else jint 0
      | None \<Rightarrow> jint 0) = jint p" "\<forall>x. provider = Some (Num x) \<and> 0 < x \<longrightarrow> p = \<lfloor>x\<rfloor>"
    using provider_delay_int by blast
  ultimately show ?thesis
    by (intro exI [of _ "max j p"] exI [of _ p]) (auto simp: retry_delay_def Let_def)
qed

text \<open>Everything a retry decision promises at once; the properties quote it.\<close>

lemma decideJobRetry_Retry:
  assumes "decideJobRetry i = Retry d t"
  obtains n a m where "d = jint n" "1000 \<le> n" "n \<le> retryHorizonMs" "t = ri_now i + n"
    "t \<le> ri_jobCreatedAt i + retryHorizonMs"
    "ri_attemptNumber i = jint a" "ri_maxAttempts i = jint m" "1 \<le> a" "a < m"
    "a < maximumAttemptsByClass (jf_errorClass (ri_failure i))"
    "terminalNextAction (ri_failure i) = None"
    "\<And>x. jf_providerRetryAfterMs (ri_failure i) = Some (Num x) \<Longrightarrow> 0 < x \<Longrightarrow> \<lfloor>x\<rfloor> \<le> n"
proof -
  let ?c = "jf_errorClass (ri_failure i)"
  from assms have nr: "\<not> retry_refused i" by (auto simp: decideJobRetry_def Let_def split: if_splits)
  then obtain a m where am: "ri_attemptNumber i = jint a" "ri_maxAttempts i = jint m" "1 \<le> a"
    "a < m" "a < maximumAttemptsByClass ?c" "terminalNextAction (ri_failure i) = None"
    by (rule retry_not_refused)
  define cap where "cap = retryCaps ?c ! nat (a - 1)"
  have "cap \<in> set (retryCaps ?c)" using caps_cover [OF am(3,5)] by (simp add: cap_def)
  then have cap: "1000 \<le> cap" "cap \<le> 43200000" using caps_range by blast+
  from retry_delay_bounds [OF cap] obtain n p where
    n: "retry_delay cap (ri_random i) (jf_providerRetryAfterMs (ri_failure i)) = jint n"
    "1000 \<le> n" "p \<le> n"
    "\<forall>x. jf_providerRetryAfterMs (ri_failure i) = Some (Num x) \<and> 0 < x \<longrightarrow> p = \<lfloor>x\<rfloor>" by blast
  from assms nr n(1) am have "d = jint n" "n \<le> retryHorizonMs" "t = ri_now i + n"
    "t \<le> ri_jobCreatedAt i + retryHorizonMs"
    by (auto simp: decideJobRetry_def Let_def cap_def split: if_splits)
  with n am show thesis by (intro that [of n a m]) auto
qed

section \<open>Properties\<close>

text \<open>
  C32: a granted retry waits at least a second and at least as long as the provider asked, falls
  within the retry horizon of the job's creation, and is granted only below both the job's
  attempt budget and the maximum of the failure class.
\<close>

theorem granted_retry_bounded:
  assumes "decideJobRetry i = Retry d t"
  shows "\<exists>n a m. d = jint n \<and> 1000 \<le> n \<and> t = ri_now i + n \<and> t \<le> ri_jobCreatedAt i + retryHorizonMs \<and>
    (\<forall>x. jf_providerRetryAfterMs (ri_failure i) = Some (Num x) \<and> 0 < x \<longrightarrow> \<lfloor>x\<rfloor> \<le> n) \<and>
    ri_attemptNumber i = jint a \<and> ri_maxAttempts i = jint m \<and> 1 \<le> a \<and> a < m \<and>
    a < maximumAttemptsByClass (jf_errorClass (ri_failure i))"
  using assms
proof (rule decideJobRetry_Retry)
  fix n a m
  assume "d = jint n" "1000 \<le> n" "t = ri_now i + n" "t \<le> ri_jobCreatedAt i + retryHorizonMs"
    "ri_attemptNumber i = jint a" "ri_maxAttempts i = jint m" "1 \<le> a" "a < m"
    "a < maximumAttemptsByClass (jf_errorClass (ri_failure i))"
    "\<And>x. jf_providerRetryAfterMs (ri_failure i) = Some (Num x) \<Longrightarrow> 0 < x \<Longrightarrow> \<lfloor>x\<rfloor> \<le> n"
  then show ?thesis by (intro exI [of _ n] exI [of _ a] exI [of _ m]) auto
qed

definition transient_input :: retry_input where
  "transient_input = \<lparr>ri_attemptNumber = jint 1,
     ri_failure = \<lparr>jf_credentialRecoverable = None, jf_errorClass = TRANSIENT,
       jf_errorCode = ''PROVIDER_UNAVAILABLE'', jf_providerRetryAfterMs = Some (Num (9000 / 2))\<rparr>,
     ri_jobCreatedAt = 0, ri_maxAttempts = jint 8, ri_now = 60000, ri_random = Num 0\<rparr>"

theorem granted_retry_bounded_witness:
  "\<exists>n. decideJobRetry transient_input = Retry (jint n) (60000 + n) \<and> 4500 \<le> n"
proof -
  have run: "decideJobRetry transient_input = Retry (jint 4500) 64500" by code_simp
  from granted_retry_bounded [OF run] obtain n where "jint 4500 = jint n" "64500 = ri_now transient_input + n" "4500 \<le> n"
    by (auto simp: transient_input_def)
  with run show ?thesis by (intro exI [of _ n]) (simp add: transient_input_def)
qed

text \<open>
  A retry is granted whenever it can be: a failure that is not terminal, on an attempt below
  the budget and the class maximum, without a delay asked by the provider and with the longest
  delay still inside the horizon, is retried; a failure with a terminal action never is.
\<close>

theorem retry_granted_or_terminal:
  assumes "ri_attemptNumber i = jint a" "ri_maxAttempts i = jint m" "1 \<le> a" "a < m" "m \<le> maxSafe"
    "a < maximumAttemptsByClass (jf_errorClass (ri_failure i))"
    "jf_providerRetryAfterMs (ri_failure i) = None"
    "ri_now i + 43200000 \<le> ri_jobCreatedAt i + retryHorizonMs"
  shows "case terminalNextAction (ri_failure i) of
      Some act \<Rightarrow> decideJobRetry i = Failed_attention act
    | None \<Rightarrow> \<exists>d t. decideJobRetry i = Retry d t"
proof (cases "terminalNextAction (ri_failure i)")
  case (Some act)
  then show ?thesis by (simp add: decideJobRetry_def retry_refused_def Let_def)
next
  case None
  let ?c = "jf_errorClass (ri_failure i)"
  define cap where "cap = retryCaps ?c ! nat (a - 1)"
  have index: "nat (a - 1) < length (retryCaps ?c)" using caps_cover assms(3,6) by blast
  then have "cap \<in> set (retryCaps ?c)" by (simp add: cap_def)
  then have cap: "1000 \<le> cap" "cap \<le> 43200000" using caps_range by blast+
  obtain n where n: "retry_delay cap (ri_random i) None = jint n" "n \<le> cap"
    using jitter_bounds [OF cap, of "ri_random i"] by (auto simp: retry_delay_def Let_def)
  have "\<not> retry_refused i"
    using assms None by (auto simp: retry_refused_def retry_allowed_attempts_def isSafeInteger_iff)
  with assms index n cap None show ?thesis
    by (simp add: decideJobRetry_def Let_def cap_def [symmetric] retryHorizonMs_def)
qed

theorem retry_granted_or_terminal_witness:
  "\<exists>d t. decideJobRetry (transient_input\<lparr>ri_failure := (ri_failure transient_input)\<lparr>jf_providerRetryAfterMs := None\<rparr>\<rparr>) = Retry d t"
proof -
  let ?i = "transient_input\<lparr>ri_failure := (ri_failure transient_input)\<lparr>jf_providerRetryAfterMs := None\<rparr>\<rparr>"
  have "terminalNextAction (ri_failure ?i) = None" by code_simp
  with retry_granted_or_terminal [of ?i 1 8] show ?thesis
    by (simp add: transient_input_def retryHorizonMs_def maxSafe_def)
qed

end
