(* ===== verification/Job_Store.thy ===== *)
theory Job_Store
  imports Job_Retry
begin

text \<open>
  The relational store the job engine runs on (\<open>packages/db/prisma/schema.prisma\<close>): one record
  per row, one list per table, the Prisma calls the sources make of them, and what a transaction
  does with an exception.

  A transaction of the sources reads a row and then writes it under a \<open>where\<close> clause that
  repeats what was read.  Under the isolation the database gives (each statement sees what was
  committed before it), other transactions may commit between the two.  Every such transaction
  is therefore a function of two databases: \<open>snap\<close>, the one its first read saw, and \<open>db\<close>, the
  one its guarded write meets.  Run alone, the two are the same.

  Instants are milliseconds.  The \<open>updatedAt\<close> columns are written by the database client and
  read by nothing, so they are left out.
\<close>

section \<open>Exceptions\<close>

datatype exn =
    Exn_operational operational_error
  | Exn_transition job_state job_state  \<comment> \<open>\<open>InvalidJobTransitionError\<close>\<close>
  | Exn_cancellation                     \<comment> \<open>\<open>JobCancellationRequestedError\<close>\<close>
  | Exn_crash                            \<comment> \<open>\<open>InjectedJobCrash\<close>\<close>
  | Exn_handler job_failure              \<comment> \<open>\<open>JobHandlerFailure\<close>\<close>
  | Exn_other string                     \<comment> \<open>anything else, the database client's errors included\<close>

definition jobDatabaseError :: "string \<Rightarrow> exn" where
  "jobDatabaseError code =
     Exn_operational (OperationalError code Dependency (Some True) (jint 503))"

definition validationError :: "string \<Rightarrow> exn" where
  "validationError code = Exn_operational (OperationalError code Validation None (jint 400))"

definition JobLeaseLostError :: exn where
  "JobLeaseLostError = Exn_operational
     ((OperationalError ''JOB_LEASE_LOST'' Conflict None (jint 409))\<lparr>oe_name := ''JobLeaseLostError''\<rparr>)"

definition validatePositiveInteger :: "js_num \<Rightarrow> string \<Rightarrow> exn option" where
  "validatePositiveInteger v code =
     (if \<not> isSafeInteger v \<or> jlt v (jint 1) then Some (validationError code) else None)"

section \<open>Rows\<close>

datatype dispatch_status = D_PENDING | D_DISPATCHED | D_CANCELLED

record job =
  j_id :: string
  j_workspaceId :: string
  j_queueName :: string
  j_handlerVersion :: int
  j_idempotencyKey :: string
  j_correlationId :: string
  j_dispatchStatus :: dispatch_status
  j_state :: job_state
  j_stage :: string
  j_priority :: int
  j_attemptCount :: int
  j_maxAttempts :: int
  j_version :: int
  j_resourceType :: "string option"
  j_resourceId :: "string option"
  j_inputVersion :: "string option"
  j_queuedAt :: time
  j_startedAt :: "time option"
  j_heartbeatAt :: "time option"
  j_leaseId :: "string option"
  j_leaseExpiresAt :: "time option"
  j_nextAttemptAt :: "time option"
  j_completedAt :: "time option"
  j_lastErrorClass :: "failure_class option"
  j_lastErrorCode :: "string option"
  j_nextAction :: "next_action option"
  j_cancellationRequestedAt :: "time option"
  j_cancellationReasonCode :: "string option"
  j_reconciliationRequiredAt :: "time option"
  j_reconciliationCode :: "string option"
  j_createdAt :: time

record attempt =
  at_id :: string
  at_workspaceId :: string
  at_backgroundJobId :: string
  at_attemptNumber :: int
  at_handlerVersion :: int
  at_state :: attempt_state
  at_stage :: string
  at_leaseId :: string
  at_correlationId :: string
  at_startedAt :: time
  at_heartbeatAt :: time
  at_completedAt :: "time option"
  at_nextAttemptAt :: "time option"
  at_errorClass :: "failure_class option"
  at_errorCode :: "string option"
  at_nextAction :: "next_action option"

record outbox =
  ob_id :: string
  ob_workspaceId :: string
  ob_backgroundJobId :: string
  ob_queueName :: string
  ob_handlerVersion :: int
  ob_correlationId :: string
  ob_dispatchAttemptCount :: int
  ob_nextAttemptAt :: time
  ob_leaseId :: "string option"
  ob_leaseExpiresAt :: "time option"
  ob_queueDeliveryId :: "string option"
  ob_lastErrorCode :: "string option"
  ob_dispatchedAt :: "time option"
  ob_cancelledAt :: "time option"
  ob_createdAt :: time

datatype actor = Actor_service string | Actor_user string

record audit_event =
  ae_action :: string
  ae_actor :: actor
  ae_correlationId :: string
  ae_occurredAt :: time
  ae_outcome :: string
  ae_reasonCode :: string
  ae_resourceId :: "string option"
  ae_resourceType :: string
  ae_workspaceId :: string

record internal_user =
  iu_id :: string
  iu_workspaceId :: string
  iu_active :: bool  \<comment> \<open>\<open>status = ACTIVE\<close>\<close>
  iu_workspaceActive :: bool  \<comment> \<open>the workspace's \<open>status = ACTIVE\<close>\<close>
  iu_admin :: bool  \<comment> \<open>\<open>role = ADMIN\<close>\<close>
  iu_sessionVersion :: int

record analysis_job =
  aj_backgroundJobId :: string
  aj_workspaceId :: string
  aj_repairAttempted :: bool

text \<open>\<open>db_results\<close> is whatever the handlers' results are written to; \<open>db_online\<close> whether a call reaches it.\<close>

record 'r database =
  db_online :: bool
  db_jobs :: "job list"
  db_attempts :: "attempt list"
  db_outbox :: "outbox list"
  db_audit :: "audit_event list"
  db_users :: "internal_user list"
  db_analysisJobs :: "analysis_job list"
  db_results :: 'r

section \<open>The Prisma calls\<close>

text \<open>\<open>updateMany\<close> and its \<open>count\<close>.\<close>

definition update_many :: "('a \<Rightarrow> bool) \<Rightarrow> ('a \<Rightarrow> 'a) \<Rightarrow> 'a list \<Rightarrow> 'a list" where
  "update_many P f rows = map (\<lambda>r. if P r then f r else r) rows"

definition count_many :: "('a \<Rightarrow> bool) \<Rightarrow> 'a list \<Rightarrow> nat" where
  "count_many P rows = length (filter P rows)"

text \<open>\<open>findFirst\<close> by identifier and workspace.\<close>

definition find_job :: "string \<Rightarrow> string \<Rightarrow> job list \<Rightarrow> job option" where
  "find_job ws i rows = find (\<lambda>j. j_id j = i \<and> j_workspaceId j = ws) rows"

text \<open>\<open>jobAttempt.create\<close> under its three unique constraints; \<open>None\<close> is the violation.\<close>

definition create_attempt :: "attempt \<Rightarrow> attempt list \<Rightarrow> attempt list option" where
  "create_attempt a rows =
     (if \<exists>b \<in> set rows. at_id b = at_id a \<or> at_leaseId b = at_leaseId a \<or>
         (at_backgroundJobId b = at_backgroundJobId a \<and> at_attemptNumber b = at_attemptNumber a)
      then None else Some (rows @ [a]))"

text \<open>
  A transaction inside \<open>try ... catch\<close>: an exception rolls it back; an operational error passes
  through and anything else becomes the given database error.
\<close>

definition transaction ::
  "string \<Rightarrow> 'r database \<Rightarrow> (exn + 'r database \<times> 'a) \<Rightarrow> (exn + 'a) \<times> 'r database" where
  "transaction code db body =
     (if \<not> db_online db then (Inl (jobDatabaseError code), db)
      else case body of
          Inr (db', a) \<Rightarrow> (Inr a, db')
        | Inl (Exn_operational e) \<Rightarrow> (Inl (Exn_operational e), db)
        | Inl _ \<Rightarrow> (Inl (jobDatabaseError code), db))"

text \<open>A transaction whose exceptions the caller sees as they are.\<close>

definition bare_transaction ::
  "'r database \<Rightarrow> (exn + 'r database \<times> 'a) \<Rightarrow> (exn + 'a) \<times> 'r database" where
  "bare_transaction db body =
     (if \<not> db_online db then (Inl (Exn_other ''database unreachable''), db)
      else case body of Inr (db', a) \<Rightarrow> (Inr a, db') | Inl e \<Rightarrow> (Inl e, db))"

section \<open>Laws of tables\<close>

lemma set_update_many:
  "x \<in> set (update_many P f rows) \<longleftrightarrow> (\<exists>y \<in> set rows. x = (if P y then f y else y))"
  by (auto simp: update_many_def)

lemma update_many_id: "count_many P rows = 0 \<Longrightarrow> update_many P f rows = rows"
  by (auto simp: update_many_def count_many_def filter_empty_conv intro!: map_idI)

lemma ball_update_many:
  "(\<forall>x \<in> set (update_many P f rows). Q x) \<longleftrightarrow>
   (\<forall>y \<in> set rows. (P y \<longrightarrow> Q (f y)) \<and> (\<not> P y \<longrightarrow> Q y))"
  by (auto simp: update_many_def)

lemma count_many_one: "count_many P rows = 1 \<Longrightarrow> \<exists>x \<in> set rows. P x"
  by (auto simp: count_many_def length_Suc_conv filter_eq_Cons_iff)

lemma count_many_unique:
  assumes "distinct (map key rows)" "x \<in> set rows" "P x"
    and "\<And>y. y \<in> set rows \<Longrightarrow> P y \<Longrightarrow> key y = key x"
  shows "count_many P rows = 1"
proof -
  have "filter P rows = [x]" using assms by (rule filter_unique_key)
  then show ?thesis by (simp add: count_many_def)
qed

text \<open>A write that keeps the key of a row keeps the key column of the table.\<close>

locale keyed_write =
  fixes key :: "'row \<Rightarrow> 'k" and f :: "'row \<Rightarrow> 'row"
  assumes key_kept: "key (f r) = key r"
begin

lemma keys_kept: "map key (update_many P f rows) = map key rows"
  by (simp add: update_many_def key_kept)

text \<open>Reading back a row by its key.\<close>

lemma find_update_many:
  "find (\<lambda>r. key r = k) (update_many P f rows) =
   map_option (\<lambda>r. if P r then f r else r) (find (\<lambda>r. key r = k) rows)"
  by (induction rows) (auto simp: update_many_def key_kept)

end

lemma find_job_SomeD:
  "find_job ws i rows = Some j \<Longrightarrow> j \<in> set rows \<and> j_id j = i \<and> j_workspaceId j = ws"
  by (auto simp: find_job_def dest: find_Some_iff2)

lemma find_job_None: "find_job ws i rows = None \<longleftrightarrow> (\<forall>j \<in> set rows. \<not> (j_id j = i \<and> j_workspaceId j = ws))"
  by (simp add: find_job_def find_None_iff2)

lemma find_job_Some:
  assumes "distinct (map j_id rows)" "j \<in> set rows"
  shows "find_job (j_workspaceId j) (j_id j) rows = Some j"
proof (cases "find_job (j_workspaceId j) (j_id j) rows")
  case None
  with assms(2) show ?thesis by (auto simp: find_job_None)
next
  case (Some k)
  with find_job_SomeD [OF Some] distinct_map_inj [OF assms(1)] assms(2) show ?thesis by auto
qed

lemma create_attempt_Some:
  "create_attempt a rows = Some rows' \<Longrightarrow> rows' = rows @ [a] \<and>
   (\<forall>b \<in> set rows. at_leaseId b \<noteq> at_leaseId a \<and>
     \<not> (at_backgroundJobId b = at_backgroundJobId a \<and> at_attemptNumber b = at_attemptNumber a))"
  by (auto simp: create_attempt_def split: if_splits)

lemma transaction_Inr:
  "transaction code db body = (Inr a, db') \<longleftrightarrow> db_online db \<and> body = Inr (db', a)"
  by (auto simp: transaction_def split: sum.splits exn.splits)

lemma bare_transaction_Inr:
  "bare_transaction db body = (Inr a, db') \<longleftrightarrow> db_online db \<and> body = Inr (db', a)"
  by (auto simp: bare_transaction_def split: sum.splits)

text \<open>An exception leaves the database as it was.\<close>

lemma transaction_Inl: "transaction code db body = (Inl e, db') \<Longrightarrow> db' = db"
  by (auto simp: transaction_def split: sum.splits exn.splits if_splits)

lemma bare_transaction_Inl: "bare_transaction db body = (Inl e, db') \<Longrightarrow> db' = db"
  by (auto simp: bare_transaction_def split: sum.splits if_splits)

end
