(* ===== verification/Job_Outbox.thy ===== *)
theory Job_Outbox
  imports Job_Store "HOL-Library.Char_ord" "HOL-Library.List_Lexorder" "HOL-Library.Product_Lexorder"
begin

text \<open>
  \<open>packages/db/src/background-jobs.ts\<close>: enqueueing a logical job with its outbox record under an
  idempotency key, and the dispatcher that leases pending outbox records, publishes them and
  marks them dispatched.

  The identifiers come from the \<open>uuid\<close> package and the publisher from the queue adapter, so both
  are arguments; \<open>locked\<close> says which rows another transaction holds under \<open>SKIP LOCKED\<close>.
\<close>

section \<open>Enqueueing\<close>

record uuid_lib =
  ul_validate :: "string \<Rightarrow> bool"
  ul_version :: "string \<Rightarrow> int"

definition isUuidV7 :: "uuid_lib \<Rightarrow> string \<Rightarrow> bool" where
  "isUuidV7 lib v \<longleftrightarrow> ul_validate lib v \<and> ul_version lib v = 7"

record enqueue_input =
  ei_correlationId :: string
  ei_handlerVersion :: js_num
  ei_idempotencyKey :: string
  ei_inputVersion :: "string option"
  ei_maxAttempts :: "js_num option"
  ei_priority :: "js_num option"
  ei_queueName :: string
  ei_resourceId :: "string option"
  ei_resourceType :: "string option"

record enqueue_result =
  er_created :: bool
  er_correlationId :: string
  er_handlerVersion :: int
  er_jobId :: string
  er_queueName :: string
  er_workspaceId :: string

definition queueDatabaseError :: "string \<Rightarrow> exn" where
  "queueDatabaseError code =
     Exn_operational (OperationalError code Dependency (Some True) (jint 503))"

text \<open>The checks, in the order of the source; the first that fails is thrown.\<close>

definition validateEnqueue :: "uuid_lib \<Rightarrow> enqueue_input \<Rightarrow> exn option" where
  "validateEnqueue lib i =
     (let idempotencyKey = trim (ei_idempotencyKey i);
          maxAttempts = coalesce (ei_maxAttempts i) (jint 8);
          priority = coalesce (ei_priority i) (jint 0);
          resourceType = map_option trim (ei_resourceType i);
          inputVersion = map_option trim (ei_inputVersion i)
      in if \<not> safe_key 254 idempotencyKey
         then Some (validationError ''JOB_IDEMPOTENCY_KEY_INVALID'')
         else if \<not> isSafeInteger (ei_handlerVersion i) \<or> jlt (ei_handlerVersion i) (jint 1)
         then Some (validationError ''JOB_HANDLER_VERSION_INVALID'')
         else if \<not> isQueueName (ei_queueName i)
         then Some (validationError ''JOB_QUEUE_INVALID'')
         else if parseCorrelationId (Some (ei_correlationId i)) = None
         then Some (validationError ''JOB_CORRELATION_INVALID'')
         else if \<not> isSafeInteger maxAttempts \<or> jlt maxAttempts (jint 1) \<or> jgt maxAttempts (jint 100)
         then Some (validationError ''JOB_MAX_ATTEMPTS_INVALID'')
         else if \<not> isSafeInteger priority \<or> jlt priority (jint (- 1000)) \<or> jgt priority (jint 1000)
         then Some (validationError ''JOB_PRIORITY_INVALID'')
         else if (resourceType = None) \<noteq> (ei_resourceId i = None)
         then Some (validationError ''JOB_RESOURCE_INVALID'')
         else if (case resourceType of None \<Rightarrow> False | Some t \<Rightarrow> \<not> safe_lower_name t)
         then Some (validationError ''JOB_RESOURCE_INVALID'')
         else if (case ei_resourceId i of None \<Rightarrow> False | Some r \<Rightarrow> \<not> isUuidV7 lib r)
         then Some (validationError ''JOB_RESOURCE_INVALID'')
         else if (case inputVersion of None \<Rightarrow> False | Some v \<Rightarrow> \<not> safe_key 127 v)
         then Some (validationError ''JOB_INPUT_VERSION_INVALID'')
         else None)"

text \<open>
  The row \<open>createMany\<close> inserts, with the column defaults of the schema.  The columns of the correlation and
  of the resource are \<open>uuid\<close>s: they read back in lower case, and a text that is not one is a database error.
\<close>

definition new_job :: "string \<Rightarrow> enqueue_input \<Rightarrow> string \<Rightarrow> time \<Rightarrow> job" where
  "new_job ws i jobId dbNow =
     \<lparr>j_id = jobId, j_workspaceId = ws, j_queueName = ei_queueName i,
      j_handlerVersion = num_int (ei_handlerVersion i),
      j_idempotencyKey = trim (ei_idempotencyKey i),
      j_correlationId = map lower_char (ei_correlationId i),
      j_dispatchStatus = D_PENDING, j_state = QUEUED, j_stage = ''queued'',
      j_priority = num_int (coalesce (ei_priority i) (jint 0)), j_attemptCount = 0,
      j_maxAttempts = num_int (coalesce (ei_maxAttempts i) (jint 8)), j_version = 1,
      j_resourceType = map_option trim (ei_resourceType i), j_resourceId = map_option (map lower_char) (ei_resourceId i),
      j_inputVersion = map_option trim (ei_inputVersion i), j_queuedAt = dbNow,
      j_startedAt = None, j_heartbeatAt = None, j_leaseId = None, j_leaseExpiresAt = None,
      j_nextAttemptAt = None, j_completedAt = None, j_lastErrorClass = None,
      j_lastErrorCode = None, j_nextAction = None, j_cancellationRequestedAt = None,
      j_cancellationReasonCode = None, j_reconciliationRequiredAt = None,
      j_reconciliationCode = None, j_createdAt = dbNow\<rparr>"

definition same_job_key :: "job \<Rightarrow> job \<Rightarrow> bool" where
  "same_job_key a b \<longleftrightarrow> j_workspaceId a = j_workspaceId b \<and> j_queueName a = j_queueName b \<and>
     j_handlerVersion a = j_handlerVersion b \<and> j_idempotencyKey a = j_idempotencyKey b"

text \<open>\<open>createMany\<close> with \<open>skipDuplicates\<close>: a row that meets a unique constraint is not inserted.\<close>

definition insert_job :: "job \<Rightarrow> job list \<Rightarrow> job list" where
  "insert_job j rows = (if \<exists>r \<in> set rows. j_id r = j_id j \<or> same_job_key r j then rows else rows @ [j])"

definition insert_outbox :: "outbox \<Rightarrow> outbox list \<Rightarrow> outbox list" where
  "insert_outbox ob rows =
     (if \<exists>r \<in> set rows. ob_id r = ob_id ob \<or> ob_backgroundJobId r = ob_backgroundJobId ob
      then rows else rows @ [ob])"

text \<open>A fresh outbox row of a job, due at \<open>due\<close>.\<close>

definition new_outbox :: "job \<Rightarrow> string \<Rightarrow> time \<Rightarrow> time \<Rightarrow> outbox" where
  "new_outbox j outboxId due dbNow =
     \<lparr>ob_id = outboxId, ob_workspaceId = j_workspaceId j, ob_backgroundJobId = j_id j,
      ob_queueName = j_queueName j, ob_handlerVersion = j_handlerVersion j,
      ob_correlationId = j_correlationId j, ob_dispatchAttemptCount = 0, ob_nextAttemptAt = due,
      ob_leaseId = None, ob_leaseExpiresAt = None, ob_queueDeliveryId = None,
      ob_lastErrorCode = None, ob_dispatchedAt = None, ob_cancelledAt = None,
      ob_createdAt = dbNow\<rparr>"

text \<open>The row the key resolved to is compared with the input as it was given.\<close>

definition idempotency_conflict :: "enqueue_input \<Rightarrow> string \<Rightarrow> job \<Rightarrow> bool" where
  "idempotency_conflict i jobId found \<longleftrightarrow> j_id found \<noteq> jobId \<and>
     (j_inputVersion found \<noteq> map_option trim (ei_inputVersion i) \<or> j_priority found \<noteq> num_int (coalesce (ei_priority i) (jint 0)) \<or>
      j_resourceId found \<noteq> ei_resourceId i \<or> j_resourceType found \<noteq> map_option trim (ei_resourceType i))"

definition enqueueBackgroundJobInTransaction ::
  "uuid_lib \<Rightarrow> 'r database \<Rightarrow> string \<Rightarrow> enqueue_input \<Rightarrow> string \<Rightarrow> string \<Rightarrow> time \<Rightarrow>
   exn + 'r database \<times> enqueue_result" where
  "enqueueBackgroundJobInTransaction lib db ws i jobId outboxId dbNow =
     (case validateEnqueue lib i of
        Some e \<Rightarrow> Inl e
      | None \<Rightarrow>
          if \<not> db_online db \<or> \<not> uuid_pattern (ei_correlationId i)
          then Inl (queueDatabaseError ''JOB_ENQUEUE_FAILED'')
          else let new = new_job ws i jobId dbNow; jobs = insert_job new (db_jobs db) in
            case find (same_job_key new) jobs of
              None \<Rightarrow> Inl (queueDatabaseError ''JOB_ENQUEUE_FAILED'')  \<comment> \<open>\<open>findUniqueOrThrow\<close>\<close>
            | Some job \<Rightarrow>
                if idempotency_conflict i jobId job
                then Inl (Exn_operational
                       (OperationalError ''JOB_IDEMPOTENCY_CONFLICT'' Conflict None (jint 409)))
                else Inr (db\<lparr>db_jobs := jobs,
                        db_outbox := insert_outbox (new_outbox job outboxId dbNow dbNow) (db_outbox db)\<rparr>,
                      \<lparr>er_created = (j_id job = jobId), er_correlationId = j_correlationId job,
                       er_handlerVersion = j_handlerVersion job, er_jobId = j_id job,
                       er_queueName = j_queueName job, er_workspaceId = j_workspaceId job\<rparr>))"

definition enqueueBackgroundJob ::
  "uuid_lib \<Rightarrow> 'r database \<Rightarrow> string \<Rightarrow> enqueue_input \<Rightarrow> string \<Rightarrow> string \<Rightarrow> time \<Rightarrow>
   (exn + enqueue_result) \<times> 'r database" where
  "enqueueBackgroundJob lib db ws i jobId outboxId dbNow =
     transaction ''JOB_ENQUEUE_FAILED'' db
       (enqueueBackgroundJobInTransaction lib db ws i jobId outboxId dbNow)"

section \<open>Leasing pending records\<close>

definition outbox_pending :: "time \<Rightarrow> outbox \<Rightarrow> bool" where
  "outbox_pending now ob \<longleftrightarrow> ob_dispatchedAt ob = None \<and> ob_cancelledAt ob = None \<and>
     ob_nextAttemptAt ob \<le> now \<and> (ob_leaseExpiresAt ob = None \<or> sql_lte (ob_leaseExpiresAt ob) now)"

definition outbox_candidates :: "(outbox \<Rightarrow> bool) \<Rightarrow> time \<Rightarrow> nat \<Rightarrow> outbox list \<Rightarrow> outbox list" where
  "outbox_candidates locked now batchSize rows =
     take batchSize (filter (\<lambda>ob. outbox_pending now ob \<and> \<not> locked ob)
       (sort_key (\<lambda>ob. (ob_createdAt ob, ob_id ob)) rows))"

definition lease_outbox_data :: "string \<Rightarrow> time \<Rightarrow> outbox \<Rightarrow> outbox" where
  "lease_outbox_data leaseId leaseExpiresAt ob = ob\<lparr>ob_leaseId := Some leaseId,
     ob_leaseExpiresAt := Some leaseExpiresAt,
     ob_dispatchAttemptCount := ob_dispatchAttemptCount ob + 1\<rparr>"

definition leasePendingOutbox ::
  "(outbox \<Rightarrow> bool) \<Rightarrow> 'r database \<Rightarrow> time \<Rightarrow> int \<Rightarrow> nat \<Rightarrow> string \<Rightarrow> outbox list \<times> 'r database" where
  "leasePendingOutbox locked db now leaseDurationMs batchSize leaseId =
     (let ids = map ob_id (outbox_candidates locked now batchSize (db_outbox db));
          P = (\<lambda>ob. ob_id ob \<in> set ids);
          f = lease_outbox_data leaseId (now + leaseDurationMs)
      in (map f (filter P (db_outbox db)), db\<lparr>db_outbox := update_many P f (db_outbox db)\<rparr>))"

section \<open>Dispatching\<close>

definition exn_thrown :: "exn \<Rightarrow> thrown" where
  "exn_thrown e = (case e of Exn_operational op \<Rightarrow> Thrown_operational op | _ \<Rightarrow> Thrown_error ''Error'')"

definition toDispatchError :: "exn \<Rightarrow> operational_error" where
  "toDispatchError e =
     (let details = classifyError (exn_thrown e) in
      if sd_code details \<noteq> ''UNEXPECTED_ERROR''
      then OperationalError (sd_code details) (coalesce (sd_class details) Dependency)
             (Some (sd_retryable details)) (jint (sd_statusCode details))
      else OperationalError ''QUEUE_PUBLISH_FAILED'' Dependency (Some True) (jint 503))"

definition outbox_held :: "outbox \<Rightarrow> outbox \<Rightarrow> bool" where
  "outbox_held r ob \<longleftrightarrow> ob_dispatchedAt ob = None \<and> ob_cancelledAt ob = None \<and>
     ob_id ob = ob_id r \<and> ob_leaseId ob = ob_leaseId r"

definition dispatched_data :: "string \<Rightarrow> time \<Rightarrow> outbox \<Rightarrow> outbox" where
  "dispatched_data deliveryId dispatchedAt ob = ob\<lparr>ob_dispatchedAt := Some dispatchedAt,
     ob_lastErrorCode := None, ob_leaseExpiresAt := None, ob_leaseId := None,
     ob_queueDeliveryId := Some deliveryId\<rparr>"

text \<open>\<open>backgroundJob.update\<close> throws when the row is missing, which rolls the mark back.\<close>

definition markOutboxDispatched ::
  "'r database \<Rightarrow> outbox \<Rightarrow> string \<Rightarrow> time \<Rightarrow> (exn + unit) \<times> 'r database" where
  "markOutboxDispatched db r deliveryId dispatchedAt =
     transaction ''JOB_DISPATCH_MARK_FAILED'' db
       (let P = outbox_held r; PJ = (\<lambda>j. j_id j = ob_backgroundJobId r);
            db1 = db\<lparr>db_outbox := update_many P (dispatched_data deliveryId dispatchedAt) (db_outbox db)\<rparr>
        in if count_many P (db_outbox db) \<noteq> 1 then Inr (db1, ())
           else if count_many PJ (db_jobs db) \<noteq> 1 then Inl (Exn_other ''record to update not found'')
           else Inr (db1\<lparr>db_jobs :=
                  update_many PJ (\<lambda>j. j\<lparr>j_dispatchStatus := D_DISPATCHED\<rparr>) (db_jobs db)\<rparr>, ()))"

definition release_outbox_data :: "string \<Rightarrow> time \<Rightarrow> outbox \<Rightarrow> outbox" where
  "release_outbox_data code nextAttempt ob = ob\<lparr>ob_lastErrorCode := Some code,
     ob_leaseExpiresAt := None, ob_leaseId := None, ob_nextAttemptAt := nextAttempt\<rparr>"

definition releaseOutbox ::
  "'r database \<Rightarrow> outbox \<Rightarrow> exn \<Rightarrow> time \<Rightarrow> int \<Rightarrow> 'r database" where
  "releaseOutbox db r e now failureDelayMs =
     (if \<not> db_online db then db
      else db\<lparr>db_outbox := update_many (outbox_held r)
        (release_outbox_data (oe_code (toDispatchError e)) (now + failureDelayMs)) (db_outbox db)\<rparr>)"

type_synonym publisher = "envelope \<Rightarrow> exn + bool \<times> string"

definition outbox_envelope :: "string \<Rightarrow> outbox \<Rightarrow> envelope" where
  "outbox_envelope correlationId r =
     \<lparr>en_correlationId = correlationId, en_domainJobId = ob_backgroundJobId r,
      en_handlerVersion = ob_handlerVersion r, en_queueName = ob_queueName r,
      en_workspaceId = ob_workspaceId r\<rparr>"

definition dispatchOutboxRecord ::
  "publisher \<Rightarrow> 'r database \<Rightarrow> outbox \<Rightarrow> time \<Rightarrow> int \<Rightarrow> (exn + bool) \<times> 'r database" where
  "dispatchOutboxRecord publish db r now failureDelayMs =
     (case parseCorrelationId (Some (ob_correlationId r)) of
        None \<Rightarrow> (Inl (queueDatabaseError ''JOB_CORRELATION_INVALID''), db)
      | Some correlationId \<Rightarrow>
          (case publish (outbox_envelope correlationId r) of
             Inl e \<Rightarrow> (Inr False, releaseOutbox db r e now failureDelayMs)
           | Inr (created, deliveryId) \<Rightarrow>
               (case markOutboxDispatched db r deliveryId now of
                  (Inr _, db1) \<Rightarrow> (Inr True, db1)
                | (Inl e, db1) \<Rightarrow> (Inr False, releaseOutbox db1 r e now failureDelayMs))))"

fun dispatch_all ::
  "publisher \<Rightarrow> 'r database \<Rightarrow> outbox list \<Rightarrow> time \<Rightarrow> int \<Rightarrow> (exn + bool) list \<times> 'r database" where
  "dispatch_all publish db [] now delay = ([], db)"
| "dispatch_all publish db (r # rs) now delay =
     (case dispatchOutboxRecord publish db r now delay of
        (x, db1) \<Rightarrow> (case dispatch_all publish db1 rs now delay of (xs, db2) \<Rightarrow> (x # xs, db2)))"

record dispatch_counts =
  dc_claimed :: nat
  dc_dispatched :: nat
  dc_failed :: nat

text \<open>\<open>Promise.all\<close>: every record is dispatched; the first rejection is the rejection of the whole.\<close>

definition reconcileJobOutbox ::
  "publisher \<Rightarrow> (outbox \<Rightarrow> bool) \<Rightarrow> 'r database \<Rightarrow> js_num option \<Rightarrow> js_num option \<Rightarrow> js_num option \<Rightarrow>
   time \<Rightarrow> string \<Rightarrow> (exn + dispatch_counts) \<times> 'r database" where
  "reconcileJobOutbox publish locked db batchSize failureDelayMs leaseDurationMs now leaseId =
     (let b = coalesce batchSize (jint 20); f = coalesce failureDelayMs (jint 5000);
          l = coalesce leaseDurationMs (jint 30000)
      in case validatePositiveInteger b ''JOB_DISPATCH_BATCH_INVALID'' of Some e \<Rightarrow> (Inl e, db)
      | None \<Rightarrow> (case validatePositiveInteger f ''JOB_DISPATCH_DELAY_INVALID'' of Some e \<Rightarrow> (Inl e, db)
      | None \<Rightarrow> (case validatePositiveInteger l ''JOB_DISPATCH_LEASE_INVALID'' of Some e \<Rightarrow> (Inl e, db)
      | None \<Rightarrow>
          if \<not> db_online db then (Inl (queueDatabaseError ''JOB_OUTBOX_LEASE_FAILED''), db)
          else (case leasePendingOutbox locked db now (num_int l) (nat (num_int b)) leaseId of
            (records, db1) \<Rightarrow>
              (case dispatch_all publish db1 records now (num_int f) of
                 (outcomes, db2) \<Rightarrow>
                   (case find isl outcomes of
                      Some (Inl e) \<Rightarrow> (Inl e, db2)
                    | _ \<Rightarrow>
                      let dispatched = length (filter (\<lambda>x. x = Inr True) outcomes) in
                      (Inr \<lparr>dc_claimed = length records, dc_dispatched = dispatched,
                            dc_failed = length records - dispatched\<rparr>, db2)))))))"

section \<open>Properties\<close>

lemma candidate_pending: "x \<in> set (outbox_candidates locked now b rows) \<Longrightarrow> x \<in> set rows \<and> outbox_pending now x"
  by (auto simp: outbox_candidates_def dest: in_set_takeD)

lemma lease_keeps_id [simp]: "ob_id (lease_outbox_data k t ob) = ob_id ob"
  by (simp add: lease_outbox_data_def)

lemma lease_within_batch:
  assumes "leasePendingOutbox locked db now d b l = (records, db')" "distinct (map ob_id (db_outbox db))"
  shows "length records \<le> b"
proof -
  let ?ids = "map ob_id (outbox_candidates locked now b (db_outbox db))"
  have records: "records = map (lease_outbox_data l (now + d)) (filter (\<lambda>ob. ob_id ob \<in> set ?ids) (db_outbox db))"
    using assms(1) by (auto simp: leasePendingOutbox_def Let_def)
  have "length records = length (filter (\<lambda>i. i \<in> set ?ids) (map ob_id (db_outbox db)))"
    by (simp add: records filter_map comp_def)
  also have "\<dots> = card (set (filter (\<lambda>i. i \<in> set ?ids) (map ob_id (db_outbox db))))"
    using assms(2) by (simp only: distinct_card distinct_filter)
  also have "\<dots> \<le> card (set ?ids)" by (intro card_mono) auto
  also have "\<dots> \<le> length ?ids" by (rule card_length)
  also have "\<dots> \<le> b" by (simp add: outbox_candidates_def)
  finally show ?thesis .
qed

lemma dispatch_all_length: "length (fst (dispatch_all publish db rs now delay)) = length rs"
proof (induction rs arbitrary: db)
  case (Cons r rs)
  obtain x db1 where "dispatchOutboxRecord publish db r now delay = (x, db1)" by (meson surj_pair)
  with Cons.IH [of db1] show ?case by (auto split: prod.splits)
qed simp

text \<open>
  A pass leases at most its batch, and a pass that follows it directly, while its leases run, is given none of
  the records it leased.
\<close>

theorem outbox_lease_exclusive:
  assumes first: "leasePendingOutbox locked db now d b l = (records, db')" and dist: "distinct (map ob_id (db_outbox db))"
    and second: "leasePendingOutbox locked' db' now' d' b' l' = (records', db'')" and before: "now' < now + d"
  shows "length records \<le> b \<and> ob_id ` set records \<inter> ob_id ` set records' = {}"
proof -
  let ?ids = "map ob_id (outbox_candidates locked now b (db_outbox db))"
  have records: "records = map (lease_outbox_data l (now + d)) (filter (\<lambda>ob. ob_id ob \<in> set ?ids) (db_outbox db))"
    and db': "db_outbox db' = update_many (\<lambda>ob. ob_id ob \<in> set ?ids) (lease_outbox_data l (now + d)) (db_outbox db)"
    using first by (auto simp: leasePendingOutbox_def Let_def)
  have "False" if i: "i \<in> ob_id ` set records" "i \<in> ob_id ` set records'" for i
  proof -
    from i(1) have mine: "i \<in> set ?ids" by (auto simp: records)
    from i(2) second obtain ob where "ob_id ob = i" "ob \<in> set (outbox_candidates locked' now' b' (db_outbox db'))"
      by (auto simp: leasePendingOutbox_def Let_def)
    then have ob: "ob_id ob = i" "ob \<in> set (db_outbox db')" "outbox_pending now' ob" using candidate_pending by blast+
    from ob(2) obtain q where q: "ob = (if ob_id q \<in> set ?ids then lease_outbox_data l (now + d) q else q)"
      by (auto simp: db' set_update_many)
    with ob(1) mine have "ob = lease_outbox_data l (now + d) q" by (auto split: if_splits)
    with ob(3) before show False by (simp add: outbox_pending_def lease_outbox_data_def)
  qed
  with lease_within_batch [OF first dist] show ?thesis by blast
qed

definition two_rows :: "nat database" where
  "two_rows = \<lparr>db_online = True, db_jobs = [], db_attempts = [],
     db_outbox = map (\<lambda>k. \<lparr>ob_id = k, ob_workspaceId = ''w'', ob_backgroundJobId = k,
       ob_queueName = ''analysis.run'', ob_handlerVersion = 1,
       ob_correlationId = ''01890a5d-ac96-774b-bcce-b302099a8057'', ob_dispatchAttemptCount = 0,
       ob_nextAttemptAt = 0, ob_leaseId = None, ob_leaseExpiresAt = None, ob_queueDeliveryId = None,
       ob_lastErrorCode = None, ob_dispatchedAt = None, ob_cancelledAt = None, ob_createdAt = 0\<rparr>)
       [''b'', ''a''],
     db_audit = [], db_users = [], db_analysisJobs = [], db_results = 0\<rparr>"

theorem outbox_lease_exclusive_witness:
  "ob_id ` set (fst (leasePendingOutbox (\<lambda>_. False) two_rows 5 30000 1 ''L'')) \<inter>
   ob_id ` set (fst (leasePendingOutbox (\<lambda>_. False)
     (snd (leasePendingOutbox (\<lambda>_. False) two_rows 5 30000 1 ''L'')) 6 30000 2 ''M'')) = {}"
proof -
  let ?first = "leasePendingOutbox (\<lambda>_. False) two_rows 5 30000 1 ''L''"
  have "distinct (map ob_id (db_outbox two_rows))" by code_simp
  from outbox_lease_exclusive [OF prod.collapse [symmetric] this prod.collapse [symmetric], where now' = 6]
  show ?thesis by simp
qed

text \<open>
  A dispatch pass accounts for every record it leased: each was dispatched or failed, and
  no more than the batch were leased.
\<close>

theorem dispatch_pass_accounts:
  assumes run: "reconcileJobOutbox publish locked db b f l now lid = (Inr n, db')"
    and dist: "distinct (map ob_id (db_outbox db))"
  shows "dc_claimed n = dc_dispatched n + dc_failed n \<and> int (dc_claimed n) \<le> num_int (coalesce b (jint 20))"
proof -
  let ?b = "coalesce b (jint 20)" and ?f = "coalesce f (jint 5000)" and ?l = "coalesce l (jint 30000)"
  obtain records db1 where lease: "leasePendingOutbox locked db now (num_int ?l) (nat (num_int ?b)) lid = (records, db1)"
    by (meson surj_pair)
  obtain outcomes db2 where sent: "dispatch_all publish db1 records now (num_int ?f) = (outcomes, db2)"
    by (meson surj_pair)
  let ?k = "length (filter (\<lambda>x. x = Inr True) outcomes)"
  from run lease sent have n: "n = \<lparr>dc_claimed = length records, dc_dispatched = ?k, dc_failed = length records - ?k\<rparr>"
    and v: "validatePositiveInteger ?b ''JOB_DISPATCH_BATCH_INVALID'' = None"
    by (auto simp: reconcileJobOutbox_def Let_def split: option.splits if_splits sum.splits)
  have "length outcomes = length records" using dispatch_all_length [of publish db1 records] sent by (metis fst_conv)
  then have "?k \<le> length records" using length_filter_le [of "\<lambda>x. x = Inr True" outcomes] by simp
  moreover have "length records \<le> nat (num_int ?b)" by (rule lease_within_batch [OF lease dist])
  moreover have "0 \<le> num_int ?b"
    using v by (auto simp: validatePositiveInteger_def isSafeInteger_iff split: if_splits)
  ultimately show ?thesis by (auto simp: n)
qed

theorem dispatch_pass_accounts_witness:
  "\<exists>n db'. reconcileJobOutbox (\<lambda>e. Inr (True, ''d'')) (\<lambda>_. False) two_rows (Some (jint 1)) None None 5 ''L'' = (Inr n, db') \<and>
     dc_claimed n = dc_dispatched n + dc_failed n \<and> dc_claimed n \<le> 1"
proof -
  let ?run = "reconcileJobOutbox (\<lambda>e. Inr (True, ''d'')) (\<lambda>_. False) two_rows (Some (jint 1)) None None 5 ''L''"
  have "case fst ?run of Inl _ \<Rightarrow> False | Inr _ \<Rightarrow> True" by code_simp
  then obtain n where run: "?run = (Inr n, snd ?run)" by (cases "fst ?run") (auto simp: prod_eq_iff)
  have "distinct (map ob_id (db_outbox two_rows))" by code_simp
  from dispatch_pass_accounts [OF run this] run show ?thesis by (metis coalesce_simps(2) num_int_jint of_nat_1 of_nat_le_iff)
qed

end
