(* ===== verification/Job_Execution.thy ===== *)
theory Job_Execution
  imports Job_Store
begin

text \<open>
  \<open>packages/db/src/job-execution.ts\<close>: claiming a job under a lease, heartbeats and stages, the
  release of a due retry, the recovery of an expired lease, cooperative cancellation, the two
  ways an attempt is settled, and the idempotent run of a handler that composes them.

  Identifiers from \<open>createId\<close> are arguments.  Each \<open>updateMany\<close> has its \<open>data\<close> as a definition
  named \<open>..._data\<close> and its \<open>where\<close> written ts the call.
\<close>

section \<open>Claiming\<close>

record claim =
  cl_attemptNumber :: int
  cl_correlationId :: string
  cl_handlerVersion :: int
  cl_jobCreatedAt :: time
  cl_leaseExpiresAt :: time
  cl_leaseId :: string
  cl_maxAttempts :: int
  cl_queueName :: string
  cl_version :: int
  cl_workspaceId :: string

datatype claim_refusal =
  CR_ATTEMPTS_EXHAUSTED | CR_MISSING | CR_STATE job_state | CR_VERSION_CONFLICT

datatype claim_result = Not_claimed claim_refusal | Claimed claim

definition defaultLeaseDurationMs :: int where
  "defaultLeaseDurationMs = 120000"

definition claim_data :: "job \<Rightarrow> string \<Rightarrow> time \<Rightarrow> time \<Rightarrow> job \<Rightarrow> job" where
  "claim_data job leaseId leaseExpiresAt now r = r\<lparr>
     j_attemptCount := j_attemptCount r + 1, j_heartbeatAt := Some now,
     j_lastErrorClass := None, j_lastErrorCode := None,
     j_leaseExpiresAt := Some leaseExpiresAt, j_leaseId := Some leaseId, j_nextAction := None,
     j_stage := ''starting'', j_startedAt := Some (coalesce (j_startedAt job) now),
     j_state := PROCESSING, j_version := j_version r + 1\<rparr>"

definition claim_attempt :: "job \<Rightarrow> string \<Rightarrow> string \<Rightarrow> time \<Rightarrow> attempt" where
  "claim_attempt job leaseId attemptId now =
     \<lparr>at_id = attemptId, at_workspaceId = j_workspaceId job, at_backgroundJobId = j_id job,
      at_attemptNumber = j_attemptCount job + 1, at_handlerVersion = j_handlerVersion job,
      at_state = A_ACTIVE, at_stage = ''starting'', at_leaseId = leaseId,
      at_correlationId = j_correlationId job, at_startedAt = now, at_heartbeatAt = now,
      at_completedAt = None, at_nextAttemptAt = None, at_errorClass = None, at_errorCode = None,
      at_nextAction = None\<rparr>"

definition claim_value :: "job \<Rightarrow> string \<Rightarrow> time \<Rightarrow> claim" where
  "claim_value job leaseId leaseExpiresAt =
     \<lparr>cl_attemptNumber = j_attemptCount job + 1, cl_correlationId = j_correlationId job,
      cl_handlerVersion = j_handlerVersion job, cl_jobCreatedAt = j_createdAt job,
      cl_leaseExpiresAt = leaseExpiresAt, cl_leaseId = leaseId, cl_maxAttempts = j_maxAttempts job,
      cl_queueName = j_queueName job, cl_version = j_version job + 1,
      cl_workspaceId = j_workspaceId job\<rparr>"

definition claim_where :: "job \<Rightarrow> string \<Rightarrow> job \<Rightarrow> bool" where
  "claim_where job ws r \<longleftrightarrow> j_attemptCount r < j_maxAttempts job \<and> j_id r = j_id job \<and>
     j_state r = QUEUED \<and> j_version r = j_version job \<and> j_workspaceId r = ws"

definition claim_body ::
  "'r database \<Rightarrow> 'r database \<Rightarrow> string \<Rightarrow> string \<Rightarrow> time \<Rightarrow> time \<Rightarrow> string \<Rightarrow> string \<Rightarrow>
   exn + 'r database \<times> claim_result" where
  "claim_body snap db ws jobId leaseExpiresAt now leaseId attemptId =
     (case find_job ws jobId (db_jobs snap) of
        None \<Rightarrow> Inr (db, Not_claimed CR_MISSING)
      | Some job \<Rightarrow>
          if j_state job \<noteq> QUEUED then Inr (db, Not_claimed (CR_STATE (j_state job)))
          else if j_attemptCount job \<ge> j_maxAttempts job then Inr (db, Not_claimed CR_ATTEMPTS_EXHAUSTED)
          else case assertJobTransition QUEUED PROCESSING of
            Some (a, b) \<Rightarrow> Inl (Exn_transition a b)
          | None \<Rightarrow>
              let P = claim_where job ws;
                  db1 = db\<lparr>db_jobs :=
                    update_many P (claim_data job leaseId leaseExpiresAt now) (db_jobs db)\<rparr>
              in if count_many P (db_jobs db) \<noteq> 1 then Inr (db1, Not_claimed CR_VERSION_CONFLICT)
                 else case create_attempt (claim_attempt job leaseId attemptId now) (db_attempts db1) of
                   None \<Rightarrow> Inl (Exn_other ''unique constraint'')
                 | Some as \<Rightarrow> Inr (db1\<lparr>db_attempts := as\<rparr>,
                     Claimed (claim_value job leaseId leaseExpiresAt)))"

definition claimBackgroundJob ::
  "'r database \<Rightarrow> 'r database \<Rightarrow> string \<Rightarrow> string \<Rightarrow> js_num option \<Rightarrow> time \<Rightarrow> string \<Rightarrow> string \<Rightarrow>
   (exn + claim_result) \<times> 'r database" where
  "claimBackgroundJob snap db ws jobId leaseDurationMs now leaseId attemptId =
     (let d = coalesce leaseDurationMs (jint defaultLeaseDurationMs) in
      case validatePositiveInteger d ''JOB_LEASE_DURATION_INVALID'' of
        Some e \<Rightarrow> (Inl e, db)
      | None \<Rightarrow> transaction ''JOB_CLAIM_FAILED'' db
          (claim_body snap db ws jobId (now + num_int d) now leaseId attemptId))"

section \<open>Heartbeats and stages\<close>

definition lease_where :: "string \<Rightarrow> string \<Rightarrow> string \<Rightarrow> job \<Rightarrow> bool" where
  "lease_where ws jobId leaseId r \<longleftrightarrow> j_id r = jobId \<and> j_leaseId r = Some leaseId \<and>
     j_state r = PROCESSING \<and> j_workspaceId r = ws"

definition updateActiveAttempt ::
  "'r database \<Rightarrow> string \<Rightarrow> string \<Rightarrow> string \<Rightarrow> (job \<Rightarrow> job) \<Rightarrow> (attempt \<Rightarrow> attempt) \<Rightarrow>
   (exn + unit) \<times> 'r database" where
  "updateActiveAttempt db ws jobId leaseId jobData attemptData =
     transaction ''JOB_HEARTBEAT_FAILED'' db
       (let PJ = lease_where ws jobId leaseId;
            PA = (\<lambda>a. at_leaseId a = leaseId \<and> at_state a = A_ACTIVE \<and> at_workspaceId a = ws);
            db' = db\<lparr>db_jobs := update_many PJ jobData (db_jobs db),
                     db_attempts := update_many PA attemptData (db_attempts db)\<rparr>
        in if count_many PJ (db_jobs db) \<noteq> 1 \<or> count_many PA (db_attempts db) \<noteq> 1
           then Inl JobLeaseLostError else Inr (db', ()))"

definition heartbeat_data :: "time \<Rightarrow> int \<Rightarrow> job \<Rightarrow> job" where
  "heartbeat_data ts d r = r\<lparr>j_heartbeatAt := Some ts, j_leaseExpiresAt := Some (ts + d),
     j_version := j_version r + 1\<rparr>"

definition heartbeatBackgroundJob ::
  "'r database \<Rightarrow> string \<Rightarrow> string \<Rightarrow> string \<Rightarrow> time \<Rightarrow> js_num option \<Rightarrow> (exn + unit) \<times> 'r database" where
  "heartbeatBackgroundJob db ws jobId leaseId ts leaseDurationMs =
     (let d = coalesce leaseDurationMs (jint defaultLeaseDurationMs) in
      case validatePositiveInteger d ''JOB_LEASE_DURATION_INVALID'' of
        Some e \<Rightarrow> (Inl e, db)
      | None \<Rightarrow> updateActiveAttempt db ws jobId leaseId (heartbeat_data ts (num_int d))
          (\<lambda>a. a\<lparr>at_heartbeatAt := ts\<rparr>))"

definition stage_data :: "string \<Rightarrow> time \<Rightarrow> job \<Rightarrow> job" where
  "stage_data stage ts r = r\<lparr>j_heartbeatAt := Some ts, j_stage := stage, j_version := j_version r + 1\<rparr>"

definition recordBackgroundJobStage ::
  "'r database \<Rightarrow> string \<Rightarrow> string \<Rightarrow> string \<Rightarrow> string \<Rightarrow> time \<Rightarrow> (exn + unit) \<times> 'r database" where
  "recordBackgroundJobStage db ws jobId leaseId stage ts =
     (if \<not> isSafeJobStage stage then (Inl (validationError ''JOB_STAGE_INVALID''), db)
      else updateActiveAttempt db ws jobId leaseId (stage_data stage ts)
        (\<lambda>a. a\<lparr>at_heartbeatAt := ts, at_stage := stage\<rparr>))"

section \<open>The release of a due retry\<close>

definition retry_due_data :: "time \<Rightarrow> job \<Rightarrow> job" where
  "retry_due_data now r = r\<lparr>j_nextAttemptAt := None, j_queuedAt := now, j_stage := ''queued'',
     j_state := QUEUED, j_version := j_version r + 1\<rparr>"

definition makeBackgroundJobRetryDue ::
  "'r database \<Rightarrow> string \<Rightarrow> string \<Rightarrow> time \<Rightarrow> (exn + bool) \<times> 'r database" where
  "makeBackgroundJobRetryDue db ws jobId now =
     (case assertJobTransition RETRY_SCHEDULED QUEUED of
        Some (a, b) \<Rightarrow> (Inl (Exn_transition a b), db)
      | None \<Rightarrow> transaction ''JOB_RETRY_RELEASE_FAILED'' db
          (let P = (\<lambda>r. j_id r = jobId \<and> sql_lte (j_nextAttemptAt r) now \<and>
                        j_state r = RETRY_SCHEDULED \<and> j_workspaceId r = ws)
           in Inr (db\<lparr>db_jobs := update_many P (retry_due_data now) (db_jobs db)\<rparr>,
                   count_many P (db_jobs db) = 1)))"

section \<open>Recovery of an expired lease\<close>

definition recover_next_state :: "job \<Rightarrow> job_state" where
  "recover_next_state job =
     (if j_cancellationRequestedAt job \<noteq> None then CANCELLED
      else if j_attemptCount job \<ge> j_maxAttempts job then FAILED_ATTENTION else QUEUED)"

definition recover_next_action :: "job \<Rightarrow> next_action option" where
  "recover_next_action job =
     (if j_cancellationRequestedAt job \<noteq> None then None
      else if j_attemptCount job \<ge> j_maxAttempts job then Some CONTACT_SUPPORT
      else Some RETRY_AUTOMATIC)"

definition recover_data :: "job \<Rightarrow> time \<Rightarrow> job \<Rightarrow> job" where
  "recover_data job now r =
     (let cancelled = j_cancellationRequestedAt job \<noteq> None;
          exhausted = j_attemptCount job \<ge> j_maxAttempts job;
          nextState = recover_next_state job
      in r\<lparr>j_completedAt := (if exhausted \<or> cancelled then Some now else None),
           j_dispatchStatus := (if cancelled then D_CANCELLED
             else if nextState = QUEUED then D_PENDING else j_dispatchStatus job),
           j_lastErrorClass := (if cancelled then None else Some TRANSIENT),
           j_lastErrorCode := (if cancelled then None else Some ''JOB_LEASE_EXPIRED''),
           j_leaseExpiresAt := None, j_leaseId := None,
           j_nextAction := recover_next_action job,
           j_queuedAt := (if exhausted \<or> cancelled then j_queuedAt job else now),
           j_stage := (if cancelled then ''cancelled'' else if exhausted then ''failed_attention''
             else ''queued''),
           j_state := nextState, j_version := j_version r + 1\<rparr>)"

definition recover_attempt_data :: "job \<Rightarrow> time \<Rightarrow> attempt \<Rightarrow> attempt" where
  "recover_attempt_data job now a =
     (if j_cancellationRequestedAt job \<noteq> None
      then a\<lparr>at_completedAt := Some now, at_state := A_CANCELLED\<rparr>
      else a\<lparr>at_completedAt := Some now, at_errorClass := Some TRANSIENT,
             at_errorCode := Some ''JOB_LEASE_EXPIRED'',
             at_nextAction := recover_next_action job, at_state := A_LEASE_EXPIRED\<rparr>)"

definition cancel_outbox_data :: "time \<Rightarrow> outbox \<Rightarrow> outbox" where
  "cancel_outbox_data ts ob = ob\<lparr>ob_cancelledAt := Some ts, ob_leaseExpiresAt := None, ob_leaseId := None\<rparr>"

definition redeliver_outbox_data :: "time \<Rightarrow> outbox \<Rightarrow> outbox" where
  "redeliver_outbox_data now ob = ob\<lparr>ob_dispatchedAt := None, ob_leaseExpiresAt := None,
     ob_leaseId := None, ob_nextAttemptAt := now, ob_queueDeliveryId := None\<rparr>"

definition recover_outbox :: "job \<Rightarrow> time \<Rightarrow> outbox list \<Rightarrow> outbox list" where
  "recover_outbox job now rows =
     (if j_cancellationRequestedAt job \<noteq> None
      then update_many (\<lambda>ob. ob_backgroundJobId ob = j_id job) (cancel_outbox_data now) rows
      else if recover_next_state job = QUEUED
      then update_many (\<lambda>ob. ob_backgroundJobId ob = j_id job \<and> ob_cancelledAt ob = None)
             (redeliver_outbox_data now) rows
      else rows)"

definition recover_audit :: "job \<Rightarrow> time \<Rightarrow> string \<Rightarrow> audit_event" where
  "recover_audit job now correlationId =
     \<lparr>ae_action = ''job.reconcile'', ae_actor = Actor_service ''job-reconciler'',
      ae_correlationId = correlationId, ae_occurredAt = now, ae_outcome = ''REPAIRED'',
      ae_reasonCode = (if j_cancellationRequestedAt job \<noteq> None
        then ''CANCELLATION_REQUEST_RECOVERED'' else ''EXPIRED_LEASE_RECOVERED''),
      ae_resourceId = Some (j_id job), ae_resourceType = ''background_job'',
      ae_workspaceId = j_workspaceId job\<rparr>"

definition expired_where :: "time \<Rightarrow> job \<Rightarrow> bool" where
  "expired_where now r \<longleftrightarrow> sql_lte (j_leaseExpiresAt r) now \<and> j_state r = PROCESSING"

definition recover_body ::
  "'r database \<Rightarrow> 'r database \<Rightarrow> string \<Rightarrow> string \<Rightarrow> time \<Rightarrow> string option \<Rightarrow>
   exn + 'r database \<times> bool" where
  "recover_body snap db ws jobId now audit =
     (case find (\<lambda>r. j_id r = jobId \<and> expired_where now r \<and> j_workspaceId r = ws) (db_jobs snap) of
        None \<Rightarrow> Inr (db, False)
      | Some job \<Rightarrow>
        (case j_leaseId job of
           None \<Rightarrow> Inr (db, False)
         | Some leaseId \<Rightarrow>
           if leaseId = [] then Inr (db, False)
           else case assertJobTransition PROCESSING (recover_next_state job) of
             Some (a, b) \<Rightarrow> Inl (Exn_transition a b)
           | None \<Rightarrow>
             let P = (\<lambda>r. j_id r = j_id job \<and> expired_where now r \<and> j_leaseId r = Some leaseId \<and>
                          j_version r = j_version job \<and> j_workspaceId r = ws);
                 PA = (\<lambda>a. at_leaseId a = leaseId \<and> at_state a = A_ACTIVE);
                 db1 = db\<lparr>db_jobs := update_many P (recover_data job now) (db_jobs db)\<rparr>
             in if count_many P (db_jobs db) \<noteq> 1 then Inr (db1, False)
                else if count_many PA (db_attempts db) \<noteq> 1 then Inl JobLeaseLostError
                else Inr (db1\<lparr>
                    db_attempts := update_many PA (recover_attempt_data job now) (db_attempts db),
                    db_outbox := recover_outbox job now (db_outbox db),
                    db_audit := db_audit db @
                      (case audit of None \<Rightarrow> [] | Some c \<Rightarrow> [recover_audit job now c])\<rparr>, True)))"

definition recoverExpiredBackgroundJobLease ::
  "'r database \<Rightarrow> 'r database \<Rightarrow> string \<Rightarrow> string \<Rightarrow> time \<Rightarrow> string option \<Rightarrow>
   (exn + bool) \<times> 'r database" where
  "recoverExpiredBackgroundJobLease snap db ws jobId now audit =
     (let auditCorrelationId = parseCorrelationId audit in
      if audit \<noteq> None \<and> auditCorrelationId = None
      then (Inl (validationError ''JOB_RECONCILIATION_CORRELATION_INVALID''), db)
      else transaction ''JOB_LEASE_RECOVERY_FAILED'' db
             (recover_body snap db ws jobId now auditCorrelationId))"

section \<open>Cooperative cancellation\<close>

definition cancelled_data :: "time \<Rightarrow> job \<Rightarrow> job" where
  "cancelled_data ts r = r\<lparr>j_completedAt := Some ts, j_dispatchStatus := D_CANCELLED,
     j_heartbeatAt := Some ts, j_lastErrorClass := None, j_lastErrorCode := None,
     j_leaseExpiresAt := None, j_leaseId := None, j_nextAction := None, j_nextAttemptAt := None,
     j_reconciliationCode := None, j_reconciliationRequiredAt := None, j_stage := ''cancelled'',
     j_state := CANCELLED, j_version := j_version r + 1\<rparr>"

definition cancelled_attempt_data :: "time \<Rightarrow> attempt \<Rightarrow> attempt" where
  "cancelled_attempt_data ts a = a\<lparr>at_completedAt := Some ts, at_heartbeatAt := ts,
     at_stage := ''cancelled'', at_state := A_CANCELLED\<rparr>"

definition cancel_check_body ::
  "'r database \<Rightarrow> 'r database \<Rightarrow> string \<Rightarrow> string \<Rightarrow> string \<Rightarrow> time \<Rightarrow> exn + 'r database \<times> bool" where
  "cancel_check_body snap db ws jobId leaseId ts =
     (case find (lease_where ws jobId leaseId) (db_jobs snap) of
        None \<Rightarrow> Inl JobLeaseLostError
      | Some job \<Rightarrow>
          if j_cancellationRequestedAt job = None then Inr (db, False)
          else case assertJobTransition PROCESSING CANCELLED of
            Some (a, b) \<Rightarrow> Inl (Exn_transition a b)
          | None \<Rightarrow>
            let P = (\<lambda>r. j_cancellationRequestedAt r \<noteq> None \<and> lease_where ws (j_id job) leaseId r \<and>
                         j_version r = j_version job);
                PA = (\<lambda>a. at_leaseId a = leaseId \<and> at_state a = A_ACTIVE \<and> at_workspaceId a = ws)
            in if count_many P (db_jobs db) \<noteq> 1 then Inl JobLeaseLostError
               else if count_many PA (db_attempts db) \<noteq> 1 then Inl JobLeaseLostError
               else Inr (db\<lparr>
                 db_jobs := update_many P (cancelled_data ts) (db_jobs db),
                 db_attempts := update_many PA (cancelled_attempt_data ts) (db_attempts db),
                 db_outbox := update_many (\<lambda>ob. ob_backgroundJobId ob = j_id job)
                   (cancel_outbox_data ts) (db_outbox db)\<rparr>, True))"

text \<open>The exception is thrown after the transaction has committed.\<close>

definition throwIfBackgroundJobCancellationRequested ::
  "'r database \<Rightarrow> 'r database \<Rightarrow> string \<Rightarrow> string \<Rightarrow> string \<Rightarrow> time \<Rightarrow> (exn + unit) \<times> 'r database" where
  "throwIfBackgroundJobCancellationRequested snap db ws jobId leaseId ts =
     (case transaction ''JOB_CANCELLATION_CHECK_FAILED'' db
             (cancel_check_body snap db ws jobId leaseId ts) of
        (Inl e, db') \<Rightarrow> (Inl e, db')
      | (Inr cancelled, db') \<Rightarrow> (if cancelled then Inl Exn_cancellation else Inr (), db'))"

section \<open>Settling an attempt\<close>

definition settle_where :: "string \<Rightarrow> string \<Rightarrow> string \<Rightarrow> job \<Rightarrow> bool" where
  "settle_where ws jobId leaseId r \<longleftrightarrow>
     lease_where ws jobId leaseId r \<and> j_cancellationRequestedAt r = None"

definition success_data :: "time \<Rightarrow> job \<Rightarrow> job" where
  "success_data ts r = r\<lparr>j_completedAt := Some ts, j_heartbeatAt := Some ts,
     j_leaseExpiresAt := None, j_leaseId := None, j_stage := ''completed'', j_state := SUCCEEDED,
     j_version := j_version r + 1\<rparr>"

definition success_attempt_data :: "time \<Rightarrow> attempt \<Rightarrow> attempt" where
  "success_attempt_data ts a = a\<lparr>at_completedAt := Some ts, at_heartbeatAt := ts,
     at_stage := ''completed'', at_state := A_SUCCEEDED\<rparr>"

definition commitJobSuccess ::
  "'r database \<Rightarrow> string \<Rightarrow> string \<Rightarrow> string \<Rightarrow> ('r \<Rightarrow> exn + 'r) \<Rightarrow> time \<Rightarrow> (exn + unit) \<times> 'r database" where
  "commitJobSuccess db ws jobId leaseId commit ts =
     (case assertJobTransition PROCESSING SUCCEEDED of
        Some (a, b) \<Rightarrow> (Inl (Exn_transition a b), db)
      | None \<Rightarrow> transaction ''JOB_RESULT_COMMIT_FAILED'' db
          (let P = settle_where ws jobId leaseId;
               PA = (\<lambda>a. at_leaseId a = leaseId \<and> at_state a = A_ACTIVE)
           in if count_many P (db_jobs db) \<noteq> 1 then Inl JobLeaseLostError
              else case commit (db_results db) of
                  Inl e \<Rightarrow> Inl e
                | Inr results \<Rightarrow>
                    if count_many PA (db_attempts db) \<noteq> 1 then Inl JobLeaseLostError
                    else Inr (db\<lparr>db_jobs := update_many P (success_data ts) (db_jobs db),
                        db_attempts := update_many PA (success_attempt_data ts) (db_attempts db),
                        db_results := results\<rparr>, ())))"

definition decision_state :: "retry_decision \<Rightarrow> job_state" where
  "decision_state d = (case d of Retry _ _ \<Rightarrow> RETRY_SCHEDULED | Failed_attention _ \<Rightarrow> FAILED_ATTENTION)"

definition decision_action :: "retry_decision \<Rightarrow> next_action" where
  "decision_action d = (case d of Retry _ _ \<Rightarrow> RETRY_AUTOMATIC | Failed_attention a \<Rightarrow> a)"

definition decision_next :: "retry_decision \<Rightarrow> time option" where
  "decision_next d = (case d of Retry _ t \<Rightarrow> Some t | Failed_attention _ \<Rightarrow> None)"

definition decision_stage :: "retry_decision \<Rightarrow> string" where
  "decision_stage d = (case d of Retry _ _ \<Rightarrow> ''retry_scheduled'' | Failed_attention _ \<Rightarrow> ''failed_attention'')"

definition failure_data :: "job_failure \<Rightarrow> retry_decision \<Rightarrow> time \<Rightarrow> job \<Rightarrow> job" where
  "failure_data f d ts r = r\<lparr>
     j_completedAt := (case d of Retry _ _ \<Rightarrow> None | Failed_attention _ \<Rightarrow> Some ts),
     j_heartbeatAt := Some ts, j_lastErrorClass := Some (jf_errorClass f),
     j_lastErrorCode := Some (jf_errorCode f), j_leaseExpiresAt := None, j_leaseId := None,
     j_nextAction := Some (decision_action d), j_nextAttemptAt := decision_next d,
     j_stage := decision_stage d, j_state := decision_state d, j_version := j_version r + 1\<rparr>"

definition failure_attempt_data :: "job_failure \<Rightarrow> retry_decision \<Rightarrow> time \<Rightarrow> attempt \<Rightarrow> attempt" where
  "failure_attempt_data f d ts a = a\<lparr>at_completedAt := Some ts,
     at_errorClass := Some (jf_errorClass f), at_errorCode := Some (jf_errorCode f),
     at_heartbeatAt := ts, at_nextAction := Some (decision_action d),
     at_nextAttemptAt := decision_next d, at_stage := decision_stage d,
     at_state := (case d of Retry _ _ \<Rightarrow> A_RETRY_SCHEDULED | Failed_attention _ \<Rightarrow> A_FAILED_ATTENTION)\<rparr>"

definition commitJobFailure ::
  "'r database \<Rightarrow> string \<Rightarrow> string \<Rightarrow> string \<Rightarrow> job_failure \<Rightarrow> retry_decision \<Rightarrow> time \<Rightarrow>
   (exn + unit) \<times> 'r database" where
  "commitJobFailure db ws jobId leaseId failure decision ts =
     (case assertJobTransition PROCESSING (decision_state decision) of
        Some (a, b) \<Rightarrow> (Inl (Exn_transition a b), db)
      | None \<Rightarrow> transaction ''JOB_FAILURE_COMMIT_FAILED'' db
          (let P = settle_where ws jobId leaseId;
               PA = (\<lambda>a. at_leaseId a = leaseId \<and> at_state a = A_ACTIVE)
           in if count_many P (db_jobs db) \<noteq> 1 then Inl JobLeaseLostError
              else if count_many PA (db_attempts db) \<noteq> 1 then Inl JobLeaseLostError
              else Inr (db\<lparr>db_jobs := update_many P (failure_data failure decision ts) (db_jobs db),
                  db_attempts := update_many PA (failure_attempt_data failure decision ts)
                    (db_attempts db)\<rparr>, ())))"

section \<open>The idempotent run of a handler\<close>

datatype ignore_reason =
    IG_ATTEMPTS_EXHAUSTED | IG_CANCELLED | IG_FAILED_ATTENTION | IG_LEASED | IG_MISSING | IG_NOT_DUE

datatype run_result =
    Already_succeeded
  | Run_succeeded
  | Run_cancelled
  | Retry_scheduled time
  | Run_failed_attention next_action
  | Ignored ignore_reason
  | Lease_abandoned

datatype crash_point = AFTER_HANDLER | AFTER_RESULT_COMMIT | BEFORE_RESULT_COMMIT

text \<open>
  A handler touches the job tables through its context only, so one execution of it is the list
  of the context calls it makes, in order, and how it ends: by returning the function that
  writes its result in the committing transaction, or by throwing.  \<open>H_others\<close> stands for what
  other processes commit in between.
\<close>

datatype 'r handler_action =
    H_heartbeat time
  | H_recordStage string time
  | H_throwIfCancellationRequested time
  | H_others "'r database \<Rightarrow> 'r database"

record 'r run_options =
  ro_workspaceId :: string
  ro_envelope :: envelope
  ro_actions :: "'r handler_action list"
  ro_finish :: "exn + ('r \<Rightarrow> exn + 'r)"
  ro_resultExists :: "'r \<Rightarrow> exn + bool"
  ro_leaseDurationMs :: "js_num option"
  ro_now :: "nat \<Rightarrow> time"  \<comment> \<open>the clock at the successive calls of \<open>now\<close>\<close>
  ro_random :: js_num
  ro_acquire :: "exn option"  \<comment> \<open>the rejection of \<open>acquireConcurrency\<close>, if any\<close>
  ro_aborted :: bool  \<comment> \<open>\<open>signal.aborted\<close> when a handler exception is caught\<close>
  ro_crash :: "crash_point \<Rightarrow> exn option"
  ro_leaseId :: string
  ro_attemptId :: string
  ro_others :: "nat \<Rightarrow> 'r database \<Rightarrow> 'r database"  \<comment> \<open>commits of others before the \<open>k\<close>-th call\<close>

definition classifyJobHandlerError :: "exn \<Rightarrow> job_failure" where
  "classifyJobHandlerError e = (case e of
       Exn_handler f \<Rightarrow> JobHandlerFailure f
     | _ \<Rightarrow> \<lparr>jf_credentialRecoverable = None, jf_errorClass = UNKNOWN,
             jf_errorCode = ''JOB_HANDLER_FAILED'', jf_providerRetryAfterMs = None\<rparr>)"

definition validateDeliveryContext :: "string \<Rightarrow> envelope \<Rightarrow> exn option" where
  "validateDeliveryContext ws en =
     (if ws \<noteq> en_workspaceId en
      then Some (Exn_operational (OperationalError ''JOB_DELIVERY_NOT_FOUND'' Not_found None (jint 404)))
      else None)"

definition validateDeliveryJob :: "job \<Rightarrow> envelope \<Rightarrow> exn option" where
  "validateDeliveryJob job en =
     (if j_correlationId job \<noteq> en_correlationId en \<or> j_handlerVersion job \<noteq> en_handlerVersion en \<or>
         j_queueName job \<noteq> en_queueName en \<or> j_workspaceId job \<noteq> en_workspaceId en
      then Some (validationError ''JOB_DELIVERY_MISMATCH'') else None)"

definition loadOwnedJob :: "'r database \<Rightarrow> string \<Rightarrow> string \<Rightarrow> exn + job option" where
  "loadOwnedJob db ws jobId =
     (if \<not> db_online db then Inl (jobDatabaseError ''JOB_LOAD_FAILED'')
      else Inr (find_job ws jobId (db_jobs db)))"

definition safeResultExists :: "('r \<Rightarrow> exn + bool) \<Rightarrow> 'r database \<Rightarrow> exn + bool" where
  "safeResultExists f db =
     (if \<not> db_online db then Inl (jobDatabaseError ''JOB_RESULT_CHECK_FAILED'')
      else case f (db_results db) of
          Inl _ \<Rightarrow> Inl (jobDatabaseError ''JOB_RESULT_CHECK_FAILED'')
        | Inr b \<Rightarrow> Inr b)"

fun claimToIgnored :: "claim_refusal \<Rightarrow> run_result" where
  "claimToIgnored CR_ATTEMPTS_EXHAUSTED = Ignored IG_ATTEMPTS_EXHAUSTED"
| "claimToIgnored CR_MISSING = Ignored IG_MISSING"
| "claimToIgnored (CR_STATE _) = Ignored IG_LEASED"
| "claimToIgnored CR_VERSION_CONFLICT = Ignored IG_LEASED"

text \<open>What the run does of a job it has just loaded, before any retry is released.\<close>

definition deliveryDisposition :: "job \<Rightarrow> bool \<Rightarrow> (exn + run_result) option" where
  "deliveryDisposition job existing =
     (if j_state job = SUCCEEDED then
        Some (if \<not> existing then Inl (jobDatabaseError ''JOB_RESULT_INCONSISTENT'')
              else Inr Already_succeeded)
      else if j_state job = CANCELLED then Some (Inr (Ignored IG_CANCELLED))
      else if j_state job = FAILED_ATTENTION then Some (Inr (Ignored IG_FAILED_ATTENTION))
      else if existing then Some (Inl (jobDatabaseError ''JOB_RESULT_STATE_INCONSISTENT''))
      else None)"

definition run_action ::
  "'r run_options \<Rightarrow> string \<Rightarrow> string \<Rightarrow> 'r handler_action \<Rightarrow> 'r database \<Rightarrow> (exn + unit) \<times> 'r database" where
  "run_action opts jobId leaseId act db =
     (let ws = ro_workspaceId opts;
          check = (\<lambda>d ts. throwIfBackgroundJobCancellationRequested d d ws jobId leaseId ts)
      in case act of
          H_throwIfCancellationRequested ts \<Rightarrow> check db ts
        | H_heartbeat ts \<Rightarrow>
            (case check db ts of
               (Inl e, db1) \<Rightarrow> (Inl e, db1)
             | (Inr _, db1) \<Rightarrow> heartbeatBackgroundJob db1 ws jobId leaseId ts (ro_leaseDurationMs opts))
        | H_recordStage stage ts \<Rightarrow>
            (case check db ts of
               (Inl e, db1) \<Rightarrow> (Inl e, db1)
             | (Inr _, db1) \<Rightarrow> recordBackgroundJobStage db1 ws jobId leaseId stage ts)
        | H_others f \<Rightarrow> (Inr (), f db))"

fun run_actions ::
  "'r run_options \<Rightarrow> string \<Rightarrow> string \<Rightarrow> 'r handler_action list \<Rightarrow> 'r database \<Rightarrow> (exn + unit) \<times> 'r database" where
  "run_actions opts jobId leaseId [] db = (Inr (), db)"
| "run_actions opts jobId leaseId (a # as) db =
     (case run_action opts jobId leaseId a db of
        (Inl e, db1) \<Rightarrow> (Inl e, db1)
      | (Inr _, db1) \<Rightarrow> run_actions opts jobId leaseId as db1)"

text \<open>The body of the inner \<open>try\<close>: the first cancellation check, the handler, two crash points.\<close>

definition handlerExecution ::
  "'r run_options \<Rightarrow> string \<Rightarrow> string \<Rightarrow> 'r database \<Rightarrow> (exn + ('r \<Rightarrow> exn + 'r)) \<times> 'r database" where
  "handlerExecution opts jobId leaseId db =
     (case throwIfBackgroundJobCancellationRequested db db (ro_workspaceId opts) jobId leaseId
             (ro_now opts 3) of
        (Inl e, db1) \<Rightarrow> (Inl e, db1)
      | (Inr _, db1) \<Rightarrow>
          (case run_actions opts jobId leaseId (ro_actions opts) db1 of
             (Inl e, db2) \<Rightarrow> (Inl e, db2)
           | (Inr _, db2) \<Rightarrow>
               (case ro_finish opts of
                  Inl e \<Rightarrow> (Inl e, db2)
                | Inr commit \<Rightarrow>
                    (case ro_crash opts AFTER_HANDLER of
                       Some e \<Rightarrow> (Inl e, db2)
                     | None \<Rightarrow>
                         (case ro_crash opts BEFORE_RESULT_COMMIT of
                            Some e \<Rightarrow> (Inl e, db2)
                          | None \<Rightarrow> (Inr commit, db2))))))"

definition retry_input_of :: "claim \<Rightarrow> job_failure \<Rightarrow> time \<Rightarrow> js_num \<Rightarrow> retry_input" where
  "retry_input_of cl failure now random =
     \<lparr>ri_attemptNumber = jint (cl_attemptNumber cl), ri_failure = failure,
      ri_jobCreatedAt = cl_jobCreatedAt cl, ri_maxAttempts = jint (cl_maxAttempts cl),
      ri_now = now, ri_random = random\<rparr>"

definition settleHandlerFailure ::
  "'r database \<Rightarrow> string \<Rightarrow> string \<Rightarrow> claim \<Rightarrow> job_failure \<Rightarrow> time \<Rightarrow> js_num \<Rightarrow>
   (exn + run_result) \<times> 'r database" where
  "settleHandlerFailure db ws jobId cl failure now random =
     (let decision = decideJobRetry (retry_input_of cl failure now random) in
      case commitJobFailure db ws jobId (cl_leaseId cl) failure decision now of
        (Inl e, db1) \<Rightarrow> (Inl e, db1)
      | (Inr _, db1) \<Rightarrow>
          (case parseCorrelationId (Some (cl_correlationId cl)) of
             None \<Rightarrow> (Inl (jobDatabaseError ''JOB_CORRELATION_INVALID''), db1)
           | Some _ \<Rightarrow> (Inr (case decision of
                 Retry _ t \<Rightarrow> Retry_scheduled t
               | Failed_attention a \<Rightarrow> Run_failed_attention a), db1)))"

text \<open>From the claim on.\<close>

definition runClaimedJob ::
  "'r run_options \<Rightarrow> string \<Rightarrow> claim \<Rightarrow> 'r database \<Rightarrow> (exn + run_result) \<times> 'r database" where
  "runClaimedJob opts jobId cl db =
     (case parseCorrelationId (Some (cl_correlationId cl)) of
        None \<Rightarrow> (Inl (jobDatabaseError ''JOB_CORRELATION_INVALID''), db)
      | Some _ \<Rightarrow>
          (case handlerExecution opts jobId (cl_leaseId cl) db of
             (Inl e, db1) \<Rightarrow>
               if e = Exn_crash then (Inl e, db1)
               else if e = Exn_cancellation then (Inr Run_cancelled, db1)
               else if ro_aborted opts then (Inr Lease_abandoned, db1)
               else settleHandlerFailure (ro_others opts 4 db1) (ro_workspaceId opts) jobId cl
                      (classifyJobHandlerError e) (ro_now opts 4) (ro_random opts)
           | (Inr commit, db1) \<Rightarrow>
               (case commitJobSuccess (ro_others opts 4 db1) (ro_workspaceId opts) jobId
                       (cl_leaseId cl) commit (ro_now opts 4) of
                  (Inl e, db2) \<Rightarrow> (Inl e, db2)
                | (Inr _, db2) \<Rightarrow>
                    (case ro_crash opts AFTER_RESULT_COMMIT of
                       Some e \<Rightarrow> (Inl e, db2)
                     | None \<Rightarrow> (Inr Run_succeeded, db2)))))"

definition claimAndRun ::
  "'r run_options \<Rightarrow> job \<Rightarrow> 'r database \<Rightarrow> (exn + run_result) \<times> 'r database" where
  "claimAndRun opts job db =
     (if j_state job = PROCESSING then (Inr (Ignored IG_LEASED), db)
      else case ro_acquire opts of
        Some e \<Rightarrow> (Inl e, db)
      | None \<Rightarrow>
          (let db1 = ro_others opts 3 db in
           case claimBackgroundJob db1 db1 (ro_workspaceId opts) (j_id job) (ro_leaseDurationMs opts)
                  (ro_now opts 2) (ro_leaseId opts) (ro_attemptId opts) of
             (Inl e, db2) \<Rightarrow> (Inl e, db2)
           | (Inr (Not_claimed r), db2) \<Rightarrow> (Inr (claimToIgnored r), db2)
           | (Inr (Claimed cl), db2) \<Rightarrow> runClaimedJob opts (j_id job) cl db2))"

definition runIdempotentJobHandler ::
  "'r run_options \<Rightarrow> 'r database \<Rightarrow> (exn + run_result) \<times> 'r database" where
  "runIdempotentJobHandler opts db =
     (let ws = ro_workspaceId opts; en = ro_envelope opts in
      case validateDeliveryContext ws en of
        Some e \<Rightarrow> (Inl e, db)
      | None \<Rightarrow>
        (case loadOwnedJob db ws (en_domainJobId en) of
           Inl e \<Rightarrow> (Inl e, db)
         | Inr None \<Rightarrow> (Inr (Ignored IG_MISSING), db)
         | Inr (Some job) \<Rightarrow>
           (case validateDeliveryJob job en of
              Some e \<Rightarrow> (Inl e, db)
            | None \<Rightarrow>
              (let db1 = ro_others opts 0 db in
               case safeResultExists (ro_resultExists opts) db1 of
                 Inl e \<Rightarrow> (Inl e, db1)
               | Inr existing \<Rightarrow>
                 (case deliveryDisposition job existing of
                    Some r \<Rightarrow> (r, db1)
                  | None \<Rightarrow>
                    if j_state job \<noteq> RETRY_SCHEDULED then claimAndRun opts job db1
                    else if \<not> sql_lte (j_nextAttemptAt job) (ro_now opts 0)
                    then (Inr (Ignored IG_NOT_DUE), db1)
                    else (case makeBackgroundJobRetryDue (ro_others opts 1 db1) ws (j_id job)
                                 (ro_now opts 1) of
                       (Inl e, db2) \<Rightarrow> (Inl e, db2)
                     | (Inr _, db2) \<Rightarrow>
                         (let db3 = ro_others opts 2 db2 in
                          case loadOwnedJob db3 ws (j_id job) of
                            Inl e \<Rightarrow> (Inl e, db3)
                          | Inr None \<Rightarrow> (Inr (Ignored IG_MISSING), db3)
                          | Inr (Some job') \<Rightarrow> claimAndRun opts job' db3)))))))"

end
