(* ===== verification/Job_Operations.thy ===== *)
theory Job_Operations
  imports Job_Outbox Job_Execution
begin

text \<open>
  \<open>packages/db/src/job-operations.ts\<close>: what an operator may do to a job, cancel it or retry it
  by hand, with the authorisation, the rate limit and the audit trail every request leaves.
  Neither transaction is wrapped in a \<open>catch\<close>, so their exceptions are the caller's.
\<close>

definition safeProcessingCancellationStages :: "string list" where
  "safeProcessingCancellationStages = [''starting'', ''loading_inputs'', ''validating_inputs'']"

definition isSafeProcessingCancellationStage :: "string \<Rightarrow> bool" where
  "isSafeProcessingCancellationStage stage \<longleftrightarrow> stage \<in> set safeProcessingCancellationStages"

datatype operation_outcome =
    OP_ALREADY_APPLIED | OP_CANCELLATION_REQUESTED | OP_CANCELLED | OP_NOT_FOUND | OP_RATE_LIMITED
  | OP_REFUSED | OP_RETRY_QUEUED

fun outcome_name :: "operation_outcome \<Rightarrow> string" where
  "outcome_name OP_ALREADY_APPLIED = ''ALREADY_APPLIED''"
| "outcome_name OP_CANCELLATION_REQUESTED = ''CANCELLATION_REQUESTED''"
| "outcome_name OP_CANCELLED = ''CANCELLED''"
| "outcome_name OP_NOT_FOUND = ''NOT_FOUND''"
| "outcome_name OP_RATE_LIMITED = ''RATE_LIMITED''"
| "outcome_name OP_REFUSED = ''REFUSED''"
| "outcome_name OP_RETRY_QUEUED = ''RETRY_QUEUED''"

type_synonym operation_result = "operation_outcome \<times> string"

datatype operation = Job_cancel | Job_retry

fun operation_action :: "operation \<Rightarrow> string" where
  "operation_action Job_cancel = ''job.cancel''"
| "operation_action Job_retry = ''job.retry''"

definition operationWindowMs :: int where
  "operationWindowMs = 60000"

fun operationLimits :: "operation \<Rightarrow> nat" where
  "operationLimits Job_cancel = 10"
| "operationLimits Job_retry = 5"

record principal =
  pr_internalUserId :: string
  pr_workspaceId :: string
  pr_sessionVersion :: int

record prepared =
  pp_correlationId :: string
  pp_jobId :: string
  pp_operationAt :: time
  pp_principal :: principal
  pp_reasonCode :: string
  pp_validJobId :: bool

definition prepareOperation ::
  "uuid_lib \<Rightarrow> string \<Rightarrow> principal \<Rightarrow> string \<Rightarrow> string \<Rightarrow> time \<Rightarrow> exn + prepared" where
  "prepareOperation lib correlationId who jobId reasonCode operationAt =
     (case parseCorrelationId (Some correlationId) of
        None \<Rightarrow> Inl (validationError ''JOB_OPERATION_CORRELATION_INVALID'')
      | Some c \<Rightarrow>
          if \<not> safe_code reasonCode then Inl (validationError ''JOB_OPERATION_REASON_INVALID'')
          else Inr \<lparr>pp_correlationId = c, pp_jobId = jobId, pp_operationAt = operationAt,
                    pp_principal = who, pp_reasonCode = reasonCode,
                    pp_validJobId = isUuidV7 lib jobId\<rparr>)"

definition operation_audit ::
  "internal_user \<Rightarrow> prepared \<Rightarrow> operation \<Rightarrow> operation_result \<Rightarrow> audit_event" where
  "operation_audit actor p opn r =
     \<lparr>ae_action = operation_action opn, ae_actor = Actor_user (iu_id actor),
      ae_correlationId = pp_correlationId p, ae_occurredAt = pp_operationAt p,
      ae_outcome = outcome_name (fst r), ae_reasonCode = snd r,
      ae_resourceId = (if pp_validJobId p then Some (pp_jobId p) else None),
      ae_resourceType = ''background_job'', ae_workspaceId = iu_workspaceId actor\<rparr>"

definition auditAndReturn ::
  "internal_user \<Rightarrow> prepared \<Rightarrow> operation \<Rightarrow> operation_result \<Rightarrow> 'r database \<Rightarrow>
   exn + 'r database \<times> operation_result" where
  "auditAndReturn actor p opn r db =
     Inr (db\<lparr>db_audit := db_audit db @ [operation_audit actor p opn r]\<rparr>, r)"

definition operation_recent :: "operation \<Rightarrow> internal_user \<Rightarrow> time \<Rightarrow> audit_event \<Rightarrow> bool" where
  "operation_recent opn actor now e \<longleftrightarrow> ae_action e = operation_action opn \<and>
     ae_actor e = Actor_user (iu_id actor) \<and> now - operationWindowMs \<le> ae_occurredAt e \<and>
     ae_workspaceId e = iu_workspaceId actor"

datatype operation_guard =
  Guard_allowed internal_user | Guard_denied "internal_user option" operation_result

text \<open>A denial without an actor leaves no audit event.\<close>

definition authoriseOperation ::
  "'r database \<Rightarrow> prepared \<Rightarrow> operation \<Rightarrow> time \<Rightarrow> operation_guard" where
  "authoriseOperation db p opn now =
     (case find (\<lambda>u. iu_id u = pr_internalUserId (pp_principal p) \<and>
                     iu_sessionVersion u = pr_sessionVersion (pp_principal p) \<and> iu_active u \<and>
                     iu_workspaceActive u \<and> iu_workspaceId u = pr_workspaceId (pp_principal p))
             (db_users db) of
        None \<Rightarrow> Guard_denied None (OP_REFUSED, ''OPERATOR_NOT_AUTHORISED'')
      | Some actor \<Rightarrow>
          if \<not> iu_admin actor then Guard_denied (Some actor) (OP_REFUSED, ''ADMIN_REQUIRED'')
          else if count_many (operation_recent opn actor now) (db_audit db) \<ge> operationLimits opn
          then Guard_denied (Some actor) (OP_RATE_LIMITED, ''OPERATOR_RATE_LIMITED'')
          else Guard_allowed actor)"

definition guarded_operation ::
  "'r database \<Rightarrow> 'r database \<Rightarrow> prepared \<Rightarrow> operation \<Rightarrow> time \<Rightarrow>
   (internal_user \<Rightarrow> job \<Rightarrow> exn + 'r database \<times> operation_result) \<Rightarrow>
   exn + 'r database \<times> operation_result" where
  "guarded_operation snap db p opn now act =
     (case authoriseOperation snap p opn now of
        Guard_denied None r \<Rightarrow> Inr (db, r)
      | Guard_denied (Some actor) r \<Rightarrow> auditAndReturn actor p opn r db
      | Guard_allowed actor \<Rightarrow>
          (case (if pp_validJobId p then find_job (iu_workspaceId actor) (pp_jobId p) (db_jobs snap)
                 else None) of
             None \<Rightarrow> auditAndReturn actor p opn (OP_NOT_FOUND, ''JOB_NOT_FOUND'') db
           | Some job \<Rightarrow> act actor job))"

section \<open>Cancelling\<close>

definition cancel_data :: "string \<Rightarrow> time \<Rightarrow> job \<Rightarrow> job" where
  "cancel_data reasonCode now r = r\<lparr>j_cancellationReasonCode := Some reasonCode,
     j_cancellationRequestedAt := Some now, j_completedAt := Some now,
     j_dispatchStatus := D_CANCELLED, j_lastErrorClass := None, j_lastErrorCode := None,
     j_nextAction := None, j_nextAttemptAt := None, j_reconciliationCode := None,
     j_reconciliationRequiredAt := None, j_stage := ''cancelled'', j_state := CANCELLED,
     j_version := j_version r + 1\<rparr>"

definition cancel_request_data :: "string \<Rightarrow> time \<Rightarrow> job \<Rightarrow> job" where
  "cancel_request_data reasonCode now r = r\<lparr>j_cancellationReasonCode := Some reasonCode,
     j_cancellationRequestedAt := Some now, j_dispatchStatus := D_CANCELLED,
     j_version := j_version r + 1\<rparr>"

definition cancelOutbox :: "string \<Rightarrow> time \<Rightarrow> outbox list \<Rightarrow> outbox list" where
  "cancelOutbox jobId now rows =
     update_many (\<lambda>ob. ob_backgroundJobId ob = jobId) (cancel_outbox_data now) rows"

text \<open>
  A guarded write of the job that cancels its outbox, and what it is reported as.  A write whose
  \<open>where\<close> matches nothing is refused.
\<close>

definition cancel_write ::
  "(job \<Rightarrow> bool) \<Rightarrow> (job \<Rightarrow> job) \<Rightarrow> job \<Rightarrow> operation_result \<Rightarrow> time \<Rightarrow> 'r database \<Rightarrow>
   'r database \<times> operation_result" where
  "cancel_write P f job ok now db =
     (let db1 = db\<lparr>db_jobs := update_many P f (db_jobs db)\<rparr> in
      if count_many P (db_jobs db) \<noteq> 1 then (db1, (OP_REFUSED, ''JOB_STATE_CHANGED''))
      else (db1\<lparr>db_outbox := cancelOutbox (j_id job) now (db_outbox db)\<rparr>, ok))"

definition cancel_job :: "'r database \<Rightarrow> prepared \<Rightarrow> time \<Rightarrow> job \<Rightarrow> exn + 'r database \<times> operation_result" where
  "cancel_job db p now job =
     (if j_state job = CANCELLED \<or> j_cancellationRequestedAt job \<noteq> None
      then Inr (db, (OP_ALREADY_APPLIED, ''CANCELLATION_ALREADY_APPLIED''))
      else if j_state job = QUEUED \<or> j_state job = RETRY_SCHEDULED then
        (case assertJobTransition (j_state job) CANCELLED of
           Some (a, b) \<Rightarrow> Inl (Exn_transition a b)
         | None \<Rightarrow> Inr (cancel_write
             (\<lambda>r. j_id r = j_id job \<and> j_state r = j_state job \<and> j_version r = j_version job)
             (cancel_data (pp_reasonCode p) now) job (OP_CANCELLED, pp_reasonCode p) now db))
      else if j_state job = PROCESSING then
        (if \<not> isSafeProcessingCancellationStage (j_stage job)
         then Inr (db, (OP_REFUSED, ''PROCESSING_STAGE_NOT_CANCELLABLE''))
         else Inr (cancel_write
             (\<lambda>r. j_cancellationRequestedAt r = None \<and> j_id r = j_id job \<and>
                  j_leaseId r = j_leaseId job \<and> j_stage r = j_stage job \<and>
                  j_state r = PROCESSING \<and> j_version r = j_version job)
             (cancel_request_data (pp_reasonCode p) now) job
             (OP_CANCELLATION_REQUESTED, pp_reasonCode p) now db))
      else Inr (db, (OP_REFUSED, ''JOB_TERMINAL'')))"

definition cancelBackgroundJob ::
  "uuid_lib \<Rightarrow> 'r database \<Rightarrow> 'r database \<Rightarrow> string \<Rightarrow> principal \<Rightarrow> string \<Rightarrow> string \<Rightarrow> time \<Rightarrow>
   (exn + operation_result) \<times> 'r database" where
  "cancelBackgroundJob lib snap db correlationId who jobId reasonCode now =
     (case prepareOperation lib correlationId who jobId reasonCode now of
        Inl e \<Rightarrow> (Inl e, db)
      | Inr p \<Rightarrow> bare_transaction db
          (guarded_operation snap db p Job_cancel now (\<lambda>actor job.
             case cancel_job db p now job of
               Inl e \<Rightarrow> Inl e
             | Inr (db1, r) \<Rightarrow> auditAndReturn actor p Job_cancel r db1)))"

section \<open>Retrying by hand\<close>

definition manual_retry_data :: "int \<Rightarrow> time \<Rightarrow> job \<Rightarrow> job" where
  "manual_retry_data maxAttempts now r = r\<lparr>j_cancellationReasonCode := None,
     j_cancellationRequestedAt := None, j_completedAt := None, j_dispatchStatus := D_PENDING,
     j_lastErrorClass := None, j_lastErrorCode := None, j_maxAttempts := maxAttempts,
     j_nextAction := None, j_queuedAt := now, j_reconciliationCode := None,
     j_reconciliationRequiredAt := None, j_stage := ''queued'', j_state := QUEUED,
     j_version := j_version r + 1\<rparr>"

definition reset_outbox_data :: "time \<Rightarrow> outbox \<Rightarrow> outbox" where
  "reset_outbox_data now ob = ob\<lparr>ob_cancelledAt := None, ob_dispatchedAt := None,
     ob_lastErrorCode := None, ob_leaseExpiresAt := None, ob_leaseId := None,
     ob_nextAttemptAt := now, ob_queueDeliveryId := None\<rparr>"

text \<open>\<open>jobOutbox.upsert\<close> by job: reset the row there is, or create one due at \<open>due\<close>.\<close>

definition upsert_outbox :: "job \<Rightarrow> time \<Rightarrow> string \<Rightarrow> time \<Rightarrow> time \<Rightarrow> outbox list \<Rightarrow> outbox list" where
  "upsert_outbox job now outboxId due dbNow rows =
     (if \<exists>ob \<in> set rows. ob_backgroundJobId ob = j_id job
      then update_many (\<lambda>ob. ob_backgroundJobId ob = j_id job) (reset_outbox_data now) rows
      else rows @ [new_outbox job outboxId due dbNow])"

text \<open>The prerequisite check of the caller: eligible, or refused with an optional code.\<close>

type_synonym retry_prerequisite = "bool \<times> string option"

definition retry_job ::
  "('r \<Rightarrow> job \<Rightarrow> bool) \<Rightarrow> ('r \<Rightarrow> job \<Rightarrow> retry_prerequisite) \<Rightarrow> 'r database \<Rightarrow> 'r database \<Rightarrow>
   prepared \<Rightarrow> time \<Rightarrow> string \<Rightarrow> time \<Rightarrow> job \<Rightarrow> exn + 'r database \<times> operation_result" where
  "retry_job resultExists checkPrerequisites snap db p now outboxId dbNow job =
     (if j_state job = QUEUED then
        Inr (db, if \<exists>e \<in> set (db_audit snap). ae_action e = ''job.retry'' \<and>
                      ae_outcome e = ''RETRY_QUEUED'' \<and> ae_resourceId e = Some (j_id job) \<and>
                      ae_workspaceId e = j_workspaceId job
                 then (OP_ALREADY_APPLIED, ''RETRY_ALREADY_QUEUED'')
                 else (OP_REFUSED, ''JOB_NOT_FAILED_ATTENTION''))
      else if j_state job \<noteq> FAILED_ATTENTION then Inr (db, (OP_REFUSED, ''JOB_NOT_FAILED_ATTENTION''))
      else if j_reconciliationRequiredAt job \<noteq> None \<or>
              (j_reconciliationCode job \<noteq> None \<and> j_reconciliationCode job \<noteq> Some [])
      then Inr (db, (OP_REFUSED, ''JOB_RECONCILIATION_REQUIRED''))
      else if resultExists (db_results snap) job
      then Inr (db, (OP_REFUSED, ''JOB_RESULT_ALREADY_EXISTS''))
      else case checkPrerequisites (db_results snap) job of
        (False, reason) \<Rightarrow>
          (let r = coalesce reason ''JOB_PREREQUISITE_MISSING'' in
           if \<not> safe_code r then Inl (validationError ''JOB_OPERATION_REASON_INVALID'')
           else Inr (db, (OP_REFUSED, r)))
      | (True, _) \<Rightarrow>
          (let maxAttempts = max (j_maxAttempts job) (j_attemptCount job + 1) in
           if maxAttempts > 100 then Inr (db, (OP_REFUSED, ''JOB_ATTEMPT_LIMIT_REACHED''))
           else case assertJobTransition FAILED_ATTENTION QUEUED of
             Some (a, b) \<Rightarrow> Inl (Exn_transition a b)
           | None \<Rightarrow>
             let P = (\<lambda>r. j_id r = j_id job \<and> j_state r = FAILED_ATTENTION \<and> j_version r = j_version job);
                 db1 = db\<lparr>db_jobs := update_many P (manual_retry_data maxAttempts now) (db_jobs db)\<rparr>
             in if count_many P (db_jobs db) \<noteq> 1 then Inr (db1, (OP_REFUSED, ''JOB_STATE_CHANGED''))
                else Inr (db1\<lparr>
                  db_analysisJobs := update_many
                    (\<lambda>a. aj_backgroundJobId a = j_id job \<and> aj_workspaceId a = j_workspaceId job)
                    (\<lambda>a. a\<lparr>aj_repairAttempted := False\<rparr>) (db_analysisJobs db),
                  db_outbox := upsert_outbox job now outboxId dbNow dbNow (db_outbox db)\<rparr>,
                  (OP_RETRY_QUEUED, pp_reasonCode p))))"

definition retryBackgroundJob ::
  "uuid_lib \<Rightarrow> ('r \<Rightarrow> job \<Rightarrow> bool) \<Rightarrow> ('r \<Rightarrow> job \<Rightarrow> retry_prerequisite) \<Rightarrow> 'r database \<Rightarrow>
   'r database \<Rightarrow> string \<Rightarrow> principal \<Rightarrow> string \<Rightarrow> string \<Rightarrow> time \<Rightarrow> string \<Rightarrow> time \<Rightarrow>
   (exn + operation_result) \<times> 'r database" where
  "retryBackgroundJob lib resultExists checkPrerequisites snap db correlationId who jobId
     reasonCode now outboxId dbNow =
     (case prepareOperation lib correlationId who jobId reasonCode now of
        Inl e \<Rightarrow> (Inl e, db)
      | Inr p \<Rightarrow> bare_transaction db
          (guarded_operation snap db p Job_retry now (\<lambda>actor job.
             case retry_job resultExists checkPrerequisites snap db p now outboxId dbNow job of
               Inl e \<Rightarrow> Inl e
             | Inr (db1, r) \<Rightarrow> auditAndReturn actor p Job_retry r db1)))"

end
