(* ===== verification/Job_Reconciliation.thy ===== *)
theory Job_Reconciliation
  imports Job_Operations
begin

text \<open>
  \<open>packages/db/src/job-reconciliation.ts\<close>: the periodic pass that repairs jobs no one else will
  move: expired leases, due retries, deliveries that were lost, missing outbox rows, results that
  were committed without their state, and the cleanup debt hooks.

  The queries of the pass have no \<open>orderBy\<close>; \<open>scan\<close> is the order the database returns rows in.
  Each repair is a transaction of a snapshot and the database it commits to; within one pass the
  two are the same.
\<close>

datatype inspection = ABSENT | PRESENT | UNSUPPORTED

datatype repair_outcome = FLAGGED | REPAIRED

fun repair_outcome_name :: "repair_outcome \<Rightarrow> string" where
  "repair_outcome_name FLAGGED = ''FLAGGED''"
| "repair_outcome_name REPAIRED = ''REPAIRED''"

definition serviceAuditData ::
  "string \<Rightarrow> string \<Rightarrow> string \<Rightarrow> string option \<Rightarrow> repair_outcome \<Rightarrow> string \<Rightarrow> time \<Rightarrow> audit_event" where
  "serviceAuditData correlationId ws resourceType resourceId outcome reasonCode now =
     \<lparr>ae_action = ''job.reconcile'', ae_actor = Actor_service ''job-reconciler'',
      ae_correlationId = correlationId, ae_occurredAt = now,
      ae_outcome = repair_outcome_name outcome, ae_reasonCode = reasonCode,
      ae_resourceId = resourceId, ae_resourceType = resourceType, ae_workspaceId = ws\<rparr>"

definition add_audit :: "audit_event \<Rightarrow> 'r database \<Rightarrow> 'r database" where
  "add_audit e db = db\<lparr>db_audit := db_audit db @ [e]\<rparr>"

definition job_audit ::
  "string \<Rightarrow> string \<Rightarrow> string \<Rightarrow> repair_outcome \<Rightarrow> string \<Rightarrow> time \<Rightarrow> 'r database \<Rightarrow> 'r database" where
  "job_audit correlationId ws jobId outcome reasonCode now db =
     add_audit (serviceAuditData correlationId ws ''background_job'' (Some jobId) outcome reasonCode now) db"

definition outbox_of :: "string \<Rightarrow> outbox list \<Rightarrow> outbox option" where
  "outbox_of jobId rows = find (\<lambda>ob. ob_backgroundJobId ob = jobId) rows"

definition resetOutbox :: "job \<Rightarrow> time \<Rightarrow> string \<Rightarrow> time \<Rightarrow> outbox list \<Rightarrow> outbox list" where
  "resetOutbox job now outboxId dbNow rows = upsert_outbox job now outboxId now dbNow rows"

section \<open>The repairs\<close>

definition requeue_data :: "time \<Rightarrow> job \<Rightarrow> job" where
  "requeue_data now r = r\<lparr>j_dispatchStatus := D_PENDING, j_nextAttemptAt := None,
     j_queuedAt := now, j_stage := ''queued'', j_state := QUEUED, j_version := j_version r + 1\<rparr>"

definition due_retry_where :: "time \<Rightarrow> job \<Rightarrow> bool" where
  "due_retry_where now r \<longleftrightarrow> sql_lte (j_nextAttemptAt r) now \<and> j_state r = RETRY_SCHEDULED"

definition requeueDueRetry ::
  "'r database \<Rightarrow> 'r database \<Rightarrow> string \<Rightarrow> string \<Rightarrow> string \<Rightarrow> time \<Rightarrow> string \<Rightarrow> time \<Rightarrow>
   (exn + bool) \<times> 'r database" where
  "requeueDueRetry snap db jobId ws correlationId now outboxId dbNow = bare_transaction db
     (case find (\<lambda>r. j_id r = jobId \<and> due_retry_where now r \<and> j_workspaceId r = ws) (db_jobs snap) of
        None \<Rightarrow> Inr (db, False)
      | Some job \<Rightarrow>
          (case assertJobTransition RETRY_SCHEDULED QUEUED of
             Some (a, b) \<Rightarrow> Inl (Exn_transition a b)
           | None \<Rightarrow>
             let P = (\<lambda>r. j_id r = j_id job \<and> due_retry_where now r \<and> j_version r = j_version job);
                 db1 = db\<lparr>db_jobs := update_many P (requeue_data now) (db_jobs db)\<rparr>
             in if count_many P (db_jobs db) \<noteq> 1 then Inr (db1, False)
                else Inr (job_audit correlationId ws (j_id job) REPAIRED ''RETRY_DUE_REQUEUED'' now
                  (db1\<lparr>db_outbox := resetOutbox job now outboxId dbNow (db_outbox db)\<rparr>), True)))"

definition redispatch_data :: "job \<Rightarrow> job" where
  "redispatch_data r = r\<lparr>j_dispatchStatus := D_PENDING, j_version := j_version r + 1\<rparr>"

definition requeueStrandedDelivery ::
  "'r database \<Rightarrow> 'r database \<Rightarrow> string \<Rightarrow> string \<Rightarrow> string \<Rightarrow> time \<Rightarrow> string \<Rightarrow> time \<Rightarrow>
   (exn + bool) \<times> 'r database" where
  "requeueStrandedDelivery snap db jobId ws correlationId now outboxId dbNow = bare_transaction db
     (case find (\<lambda>r. j_id r = jobId \<and> j_leaseId r = None \<and>
                     (case outbox_of (j_id r) (db_outbox snap) of
                        None \<Rightarrow> False
                      | Some ob \<Rightarrow> ob_cancelledAt ob = None \<and> ob_dispatchedAt ob \<noteq> None) \<and>
                     j_state r = QUEUED \<and> j_workspaceId r = ws) (db_jobs snap) of
        None \<Rightarrow> Inr (db, False)
      | Some job \<Rightarrow>
          let P = (\<lambda>r. j_id r = j_id job \<and> j_version r = j_version job \<and> j_workspaceId r = ws);
              db1 = db\<lparr>db_jobs := update_many P redispatch_data (db_jobs db)\<rparr>
          in if count_many P (db_jobs db) \<noteq> 1 then Inr (db1, False)
             else Inr (job_audit correlationId ws (j_id job) REPAIRED ''STRANDED_DELIVERY_REQUEUED'' now
               (db1\<lparr>db_outbox := resetOutbox job now outboxId dbNow (db_outbox db)\<rparr>), True))"

definition repairMissingOutbox ::
  "'r database \<Rightarrow> 'r database \<Rightarrow> string \<Rightarrow> string \<Rightarrow> string \<Rightarrow> time \<Rightarrow> string \<Rightarrow> time \<Rightarrow>
   (exn + bool) \<times> 'r database" where
  "repairMissingOutbox snap db jobId ws correlationId now outboxId dbNow = bare_transaction db
     (case find (\<lambda>r. j_id r = jobId \<and> outbox_of (j_id r) (db_outbox snap) = None \<and>
                     j_state r = QUEUED \<and> j_workspaceId r = ws) (db_jobs snap) of
        None \<Rightarrow> Inr (db, False)
      | Some job \<Rightarrow>
          let new = new_outbox job outboxId now dbNow in
          if \<exists>ob \<in> set (db_outbox db). ob_id ob = outboxId \<or> ob_backgroundJobId ob = j_id job
          then Inl (Exn_other ''unique constraint'')
          else Inr (job_audit correlationId ws (j_id job) REPAIRED ''MISSING_OUTBOX_RECREATED'' now
            (db\<lparr>db_outbox := db_outbox db @ [new]\<rparr>), True))"

definition result_repair_data :: "time \<Rightarrow> job \<Rightarrow> job" where
  "result_repair_data now r = r\<lparr>j_completedAt := Some now, j_heartbeatAt := Some now,
     j_lastErrorClass := None, j_lastErrorCode := None, j_leaseExpiresAt := None,
     j_leaseId := None, j_nextAction := None, j_nextAttemptAt := None,
     j_reconciliationCode := None, j_reconciliationRequiredAt := None, j_stage := ''completed'',
     j_state := SUCCEEDED, j_version := j_version r + 1\<rparr>"

definition reconciliationError :: "string \<Rightarrow> exn" where
  "reconciliationError code = Exn_operational (OperationalError code Conflict None (jint 409))"

definition repairCommittedResult ::
  "'r database \<Rightarrow> 'r database \<Rightarrow> string \<Rightarrow> string \<Rightarrow> string \<Rightarrow> time \<Rightarrow> (exn + bool) \<times> 'r database" where
  "repairCommittedResult snap db jobId ws correlationId now = bare_transaction db
     (case find (\<lambda>r. j_cancellationRequestedAt r = None \<and> j_id r = jobId \<and>
                     j_state r \<in> {QUEUED, PROCESSING, RETRY_SCHEDULED} \<and> j_workspaceId r = ws)
             (db_jobs snap) of
        None \<Rightarrow> Inr (db, False)
      | Some job \<Rightarrow>
          let P = (\<lambda>r. j_id r = j_id job \<and> j_state r = j_state job \<and> j_version r = j_version job \<and>
                       j_workspaceId r = ws);
              PA = (\<lambda>a. Some (at_leaseId a) = j_leaseId job \<and> at_state a = A_ACTIVE \<and>
                        at_workspaceId a = ws);
              leased = (j_leaseId job \<noteq> None \<and> j_leaseId job \<noteq> Some []);
              db1 = db\<lparr>db_jobs := update_many P (result_repair_data now) (db_jobs db)\<rparr>
          in if count_many P (db_jobs db) \<noteq> 1 then Inr (db1, False)
             else if leased \<and> count_many PA (db_attempts db) \<noteq> 1
             then Inl (reconciliationError ''JOB_RECONCILIATION_ATTEMPT_MISSING'')
             else Inr (job_audit correlationId ws (j_id job) REPAIRED
                 ''COMMITTED_RESULT_STATE_REPAIRED'' now
                 (db1\<lparr>db_attempts := (if leased
                       then update_many PA (success_attempt_data now) (db_attempts db)
                       else db_attempts db),
                     db_outbox := cancelOutbox (j_id job) now (db_outbox db)\<rparr>), True))"

definition flag_data :: "string \<Rightarrow> time \<Rightarrow> job \<Rightarrow> job" where
  "flag_data reasonCode now r = r\<lparr>j_reconciliationCode := Some reasonCode,
     j_reconciliationRequiredAt := Some now, j_version := j_version r + 1\<rparr>"

definition flagAmbiguousJob ::
  "'r database \<Rightarrow> string \<Rightarrow> string \<Rightarrow> string \<Rightarrow> string \<Rightarrow> time \<Rightarrow> (exn + bool) \<times> 'r database" where
  "flagAmbiguousJob db jobId ws correlationId reasonCode now = bare_transaction db
     (let P = (\<lambda>r. j_id r = jobId \<and> j_reconciliationCode r \<noteq> Some reasonCode \<and> j_workspaceId r = ws);
          db1 = db\<lparr>db_jobs := update_many P (flag_data reasonCode now) (db_jobs db)\<rparr>
      in if count_many P (db_jobs db) \<noteq> 1 then Inr (db1, False)
         else Inr (job_audit correlationId ws jobId FLAGGED reasonCode now db1, True))"

section \<open>The pass\<close>

text \<open>One loop of the pass: the number of rows the action changed, or the exception that ends it.\<close>

fun repair_each ::
  "(job \<Rightarrow> 'r database \<Rightarrow> (exn + bool) \<times> 'r database) \<Rightarrow> job list \<Rightarrow> 'r database \<Rightarrow>
   (exn + nat) \<times> 'r database" where
  "repair_each act [] db = (Inr 0, db)"
| "repair_each act (j # js) db =
     (case act j db of
        (Inl e, db1) \<Rightarrow> (Inl e, db1)
      | (Inr b, db1) \<Rightarrow>
          (case repair_each act js db1 of
             (Inl e, db2) \<Rightarrow> (Inl e, db2)
           | (Inr n, db2) \<Rightarrow> (Inr (of_bool b + n), db2)))"

text \<open>What the inspection of a job's result calls for.\<close>

datatype result_verdict = Leave | Flag string | Repair_result

definition judgeResult :: "inspection \<Rightarrow> job \<Rightarrow> result_verdict" where
  "judgeResult i job =
     (if i = UNSUPPORTED then Leave
      else if i = ABSENT \<and> j_state job = SUCCEEDED then Flag ''SUCCEEDED_RESULT_MISSING''
      else if i \<noteq> PRESENT \<or> j_state job = SUCCEEDED then Leave
      else if j_state job = FAILED_ATTENTION \<or> j_cancellationRequestedAt job \<noteq> None
      then Flag ''TERMINAL_RESULT_CONFLICT''
      else Repair_result)"

record cleanup_outcome =
  co_outcome :: repair_outcome
  co_reasonCode :: string
  co_resourceId :: "string option"
  co_resourceType :: string
  co_workspaceId :: string

definition validateCleanupDebtOutcome :: "cleanup_outcome \<Rightarrow> exn option" where
  "validateCleanupDebtOutcome c =
     (if \<not> safe_code (co_reasonCode c) \<or> \<not> safe_lower_name (co_resourceType c) \<or> co_workspaceId c = []
      then Some (validationError ''JOB_CLEANUP_HOOK_RESULT_INVALID'') else None)"

definition cleanup_key :: "cleanup_outcome \<Rightarrow> string" where
  "cleanup_key c = co_workspaceId c @ '':'' @ co_resourceType c @ '':'' @
     coalesce (co_resourceId c) [] @ '':'' @ co_reasonCode c @ '':'' @
     repair_outcome_name (co_outcome c)"

record reconcile_counts =
  rc_flagged :: nat
  rc_inspected :: nat
  rc_repaired :: nat

definition tally :: "repair_outcome \<Rightarrow> reconcile_counts \<Rightarrow> reconcile_counts" where
  "tally r c = (case r of
       REPAIRED \<Rightarrow> c\<lparr>rc_inspected := rc_inspected c + 1, rc_repaired := rc_repaired c + 1\<rparr>
     | FLAGGED \<Rightarrow> c\<lparr>rc_inspected := rc_inspected c + 1, rc_flagged := rc_flagged c + 1\<rparr>)"

fun cleanup_outcomes ::
  "string \<Rightarrow> time \<Rightarrow> string list \<Rightarrow> cleanup_outcome list \<Rightarrow> reconcile_counts \<Rightarrow> 'r database \<Rightarrow>
   (exn + reconcile_counts) \<times> 'r database" where
  "cleanup_outcomes correlationId now seen [] c db = (Inr c, db)"
| "cleanup_outcomes correlationId now seen (x # xs) c db =
     (case validateCleanupDebtOutcome x of
        Some e \<Rightarrow> (Inl e, db)
      | None \<Rightarrow>
          if cleanup_key x \<in> set seen then cleanup_outcomes correlationId now seen xs c db
          else if \<not> db_online db then (Inl (Exn_other ''database unreachable''), db)
          else cleanup_outcomes correlationId now (cleanup_key x # seen) xs (tally (co_outcome x) c)
            (add_audit (serviceAuditData correlationId (co_workspaceId x) (co_resourceType x)
               (co_resourceId x) (co_outcome x) (co_reasonCode x) now) db))"

text \<open>A hook may reject, after whatever it wrote.\<close>

type_synonym 'r cleanup_hook = "nat \<Rightarrow> time \<Rightarrow> 'r database \<Rightarrow> (exn + cleanup_outcome list) \<times> 'r database"

fun cleanup_hooks ::
  "string \<Rightarrow> time \<Rightarrow> nat \<Rightarrow> 'r cleanup_hook list \<Rightarrow> reconcile_counts \<Rightarrow> 'r database \<Rightarrow>
   (exn + reconcile_counts) \<times> 'r database" where
  "cleanup_hooks correlationId now batch [] c db = (Inr c, db)"
| "cleanup_hooks correlationId now batch (h # hs) c db =
     (case h batch now db of
        (Inl e, db1) \<Rightarrow> (Inl e, db1)
      | (Inr outcomes, db1) \<Rightarrow>
        if length outcomes > batch then (Inl (validationError ''JOB_CLEANUP_HOOK_LIMIT_EXCEEDED''), db1)
        else (case cleanup_outcomes correlationId now [] outcomes c db1 of
            (Inl e, db2) \<Rightarrow> (Inl e, db2)
          | (Inr c', db2) \<Rightarrow> cleanup_hooks correlationId now batch hs c' db2))"

text \<open>\<open>findMany\<close>: the first \<open>batch\<close> rows that match, in the order of the scan.\<close>

definition find_many :: "(job list \<Rightarrow> job list) \<Rightarrow> nat \<Rightarrow> (job \<Rightarrow> bool) \<Rightarrow> 'r database \<Rightarrow> job list" where
  "find_many scan batch P db = take batch (filter P (scan (db_jobs db)))"

definition stranded_where :: "time \<Rightarrow> 'r database \<Rightarrow> job \<Rightarrow> bool" where
  "stranded_where now db r \<longleftrightarrow> j_leaseId r = None \<and> j_state r = QUEUED \<and>
     (case outbox_of (j_id r) (db_outbox db) of
        None \<Rightarrow> False
      | Some ob \<Rightarrow> ob_cancelledAt ob = None \<and>
          sql_lte (ob_dispatchedAt ob) (now - queueDeliveryExpirySeconds * 1000))"

record 'r reconcile_env =
  re_scan :: "job list \<Rightarrow> job list"
  re_inspect :: "'r \<Rightarrow> job \<Rightarrow> exn + inspection"  \<comment> \<open>\<open>inspectResult\<close>, which may reject\<close>
  re_hooks :: "'r cleanup_hook list"
  re_lib :: uuid_lib
  re_correlationId :: string
  re_now :: time
  re_dbNow :: time
  re_newId :: "job \<Rightarrow> string"  \<comment> \<open>the identifier generated for a job's new outbox row\<close>

text \<open>The five kinds of repair, as the action of a loop on one scanned row.\<close>

definition act_expired :: "'r reconcile_env \<Rightarrow> string \<Rightarrow> job \<Rightarrow> 'r database \<Rightarrow> (exn + bool) \<times> 'r database" where
  "act_expired env c job db =
     (if \<not> ul_validate (re_lib env) (j_workspaceId job)
      then (Inl (Exn_other ''workspaceId must be a valid UUID''), db)
      else recoverExpiredBackgroundJobLease db db (j_workspaceId job) (j_id job) (re_now env) (Some c))"

definition act_due :: "'r reconcile_env \<Rightarrow> string \<Rightarrow> job \<Rightarrow> 'r database \<Rightarrow> (exn + bool) \<times> 'r database" where
  "act_due env c job db = requeueDueRetry db db (j_id job) (j_workspaceId job) c (re_now env)
     (re_newId env job) (re_dbNow env)"

definition act_stranded :: "'r reconcile_env \<Rightarrow> string \<Rightarrow> job \<Rightarrow> 'r database \<Rightarrow> (exn + bool) \<times> 'r database" where
  "act_stranded env c job db = requeueStrandedDelivery db db (j_id job) (j_workspaceId job) c
     (re_now env) (re_newId env job) (re_dbNow env)"

definition act_missing :: "'r reconcile_env \<Rightarrow> string \<Rightarrow> job \<Rightarrow> 'r database \<Rightarrow> (exn + bool) \<times> 'r database" where
  "act_missing env c job db = repairMissingOutbox db db (j_id job) (j_workspaceId job) c
     (re_now env) (re_newId env job) (re_dbNow env)"

fun inspect_each ::
  "'r reconcile_env \<Rightarrow> string \<Rightarrow> job list \<Rightarrow> reconcile_counts \<Rightarrow> 'r database \<Rightarrow>
   (exn + reconcile_counts) \<times> 'r database" where
  "inspect_each env c [] n db = (Inr n, db)"
| "inspect_each env c (j # js) n db =
     (case re_inspect env (db_results db) j of
        Inl e \<Rightarrow> (Inl e, db)
      | Inr found \<Rightarrow>
          (case judgeResult found j of
             Leave \<Rightarrow> inspect_each env c js n db
           | Flag reason \<Rightarrow>
               (case flagAmbiguousJob db (j_id j) (j_workspaceId j) c reason (re_now env) of
                  (Inl e, db1) \<Rightarrow> (Inl e, db1)
                | (Inr b, db1) \<Rightarrow> inspect_each env c js (n\<lparr>rc_flagged := rc_flagged n + of_bool b\<rparr>) db1)
           | Repair_result \<Rightarrow>
               (case repairCommittedResult db db (j_id j) (j_workspaceId j) c (re_now env) of
                  (Inl e, db1) \<Rightarrow> (Inl e, db1)
                | (Inr b, db1) \<Rightarrow> inspect_each env c js (n\<lparr>rc_repaired := rc_repaired n + of_bool b\<rparr>) db1)))"

text \<open>One scan and its loop; the counts go on from \<open>n\<close>.\<close>

definition repair_stage ::
  "'r reconcile_env \<Rightarrow> nat \<Rightarrow> ('r database \<Rightarrow> job \<Rightarrow> bool) \<Rightarrow>
   (job \<Rightarrow> 'r database \<Rightarrow> (exn + bool) \<times> 'r database) \<Rightarrow> reconcile_counts \<Rightarrow> 'r database \<Rightarrow>
   (exn + reconcile_counts) \<times> 'r database" where
  "repair_stage env batch Q act n db =
     (if \<not> db_online db then (Inl (Exn_other ''database unreachable''), db)
      else let rows = find_many (re_scan env) batch (Q db) db in
        case repair_each act rows db of
          (Inl e, db1) \<Rightarrow> (Inl e, db1)
        | (Inr k, db1) \<Rightarrow> (Inr (n\<lparr>rc_inspected := rc_inspected n + length rows,
                               rc_repaired := rc_repaired n + k\<rparr>), db1))"

definition then_stage ::
  "(exn + reconcile_counts) \<times> 'r database \<Rightarrow>
   (reconcile_counts \<Rightarrow> 'r database \<Rightarrow> (exn + reconcile_counts) \<times> 'r database) \<Rightarrow>
   (exn + reconcile_counts) \<times> 'r database" where
  "then_stage r f = (case r of (Inl e, db) \<Rightarrow> (Inl e, db) | (Inr n, db) \<Rightarrow> f n db)"

definition inspect_stage ::
  "'r reconcile_env \<Rightarrow> string \<Rightarrow> nat \<Rightarrow> reconcile_counts \<Rightarrow> 'r database \<Rightarrow>
   (exn + reconcile_counts) \<times> 'r database" where
  "inspect_stage env c batch n db =
     (if \<not> db_online db then (Inl (Exn_other ''database unreachable''), db)
      else let rows = find_many (re_scan env) batch (\<lambda>_. True) db in
        inspect_each env c rows (n\<lparr>rc_inspected := rc_inspected n + length rows\<rparr>) db)"

definition reconcileBackgroundJobs ::
  "'r reconcile_env \<Rightarrow> js_num option \<Rightarrow> 'r database \<Rightarrow> (exn + reconcile_counts) \<times> 'r database" where
  "reconcileBackgroundJobs env batchSize db =
     (case parseCorrelationId (Some (re_correlationId env)) of
        None \<Rightarrow> (Inl (validationError ''JOB_RECONCILIATION_CORRELATION_INVALID''), db)
      | Some c \<Rightarrow>
          (let b = coalesce batchSize (jint 50); batch = nat (num_int b); now = re_now env in
           if \<not> isSafeInteger b \<or> jlt b (jint 1) \<or> jgt b (jint 100)
           then (Inl (validationError ''JOB_RECONCILIATION_BATCH_INVALID''), db)
           else
             then_stage (then_stage (then_stage (then_stage (then_stage
               (repair_stage env batch (\<lambda>_. expired_where now) (act_expired env c)
                  \<lparr>rc_flagged = 0, rc_inspected = 0, rc_repaired = 0\<rparr> db)
               (repair_stage env batch (\<lambda>_. due_retry_where now) (act_due env c)))
               (repair_stage env batch (stranded_where now) (act_stranded env c)))
               (repair_stage env batch
                  (\<lambda>d r. outbox_of (j_id r) (db_outbox d) = None \<and> j_state r = QUEUED)
                  (act_missing env c)))
               (inspect_stage env c batch))
               (cleanup_hooks c now batch (re_hooks env))))"

end
