(* ===== verification/Job_Invariant.thy ===== *)
theory Job_Invariant
  imports Job_Reconciliation
begin

text \<open>
  What the job tables keep true of each other, and the general shapes of the writes that keep it:
  a write of one row that leaves its lease alone, the release of a lease, the claim of one, the
  insertion of a job, and the three ways an outbox row changes.  The operations of the sources
  are instances of these shapes.
\<close>

section \<open>The invariant\<close>

text \<open>What a job's delivery carries: a queue that exists, a version and a canonical correlation.\<close>

definition deliverable :: "string \<Rightarrow> int \<Rightarrow> string \<Rightarrow> bool" where
  "deliverable queue version correlation \<longleftrightarrow> isQueueName queue \<and> 1 \<le> version \<and> version \<le> maxSafe \<and>
     uuid_pattern correlation \<and> parseCorrelationId (Some correlation) = Some correlation"

definition job_ok :: "job \<Rightarrow> bool" where
  "job_ok j \<longleftrightarrow> deliverable (j_queueName j) (j_handlerVersion j) (j_correlationId j) \<and>
     (j_state j = PROCESSING \<longleftrightarrow> j_leaseId j \<noteq> None) \<and>
     (j_leaseId j = None \<longleftrightarrow> j_leaseExpiresAt j = None) \<and> j_leaseId j \<noteq> Some [] \<and>
     0 \<le> j_attemptCount j \<and> j_attemptCount j \<le> j_maxAttempts j \<and>
     1 \<le> j_maxAttempts j \<and> j_maxAttempts j \<le> 100 \<and>
     (j_state j \<in> {QUEUED, RETRY_SCHEDULED} \<longrightarrow> j_attemptCount j < j_maxAttempts j) \<and>
     (j_completedAt j \<noteq> None \<longleftrightarrow> isTerminalJobState (j_state j)) \<and>
     (j_nextAttemptAt j \<noteq> None \<longleftrightarrow> j_state j = RETRY_SCHEDULED) \<and>
     (j_cancellationRequestedAt j \<noteq> None \<longrightarrow> j_state j \<in> {PROCESSING, CANCELLED}) \<and>
     (j_state j = CANCELLED \<longrightarrow> j_cancellationRequestedAt j \<noteq> None)"

text \<open>An attempt belongs to its job, and an active one is the holder of the job's lease.\<close>

definition owns :: "job \<Rightarrow> attempt \<Rightarrow> bool" where
  "owns j a \<longleftrightarrow> j_id j = at_backgroundJobId a \<and> j_workspaceId j = at_workspaceId a \<and>
     1 \<le> at_attemptNumber a \<and> at_attemptNumber a \<le> j_attemptCount j \<and>
     (at_state a = A_ACTIVE \<longrightarrow> j_state j = PROCESSING \<and> j_leaseId j = Some (at_leaseId a) \<and>
        at_attemptNumber a = j_attemptCount j)"

definition holds :: "job \<Rightarrow> attempt \<Rightarrow> bool" where
  "holds j a \<longleftrightarrow> j_leaseId j = Some (at_leaseId a) \<and> at_state a = A_ACTIVE \<and>
     at_backgroundJobId a = j_id j"

definition attempt_slot :: "attempt \<Rightarrow> string \<times> int" where
  "attempt_slot a = (at_backgroundJobId a, at_attemptNumber a)"

definition leases_ok :: "job list \<Rightarrow> attempt list \<Rightarrow> bool" where
  "leases_ok jobs atts \<longleftrightarrow> distinct (map j_id jobs) \<and> distinct (map at_leaseId atts) \<and>
     distinct (map attempt_slot atts) \<and>
     (\<forall>a \<in> set atts. \<exists>j \<in> set jobs. owns j a) \<and>
     (\<forall>j \<in> set jobs. j_state j = PROCESSING \<longrightarrow> (\<exists>a \<in> set atts. holds j a))"

text \<open>When a job's outbox row may, and when it must, be cancelled.\<close>

definition may_cancel :: "job \<Rightarrow> bool" where
  "may_cancel j \<longleftrightarrow> j_state j \<in> {CANCELLED, SUCCEEDED} \<or> j_cancellationRequestedAt j \<noteq> None"

definition must_cancel :: "job \<Rightarrow> bool" where
  "must_cancel j \<longleftrightarrow> j_cancellationRequestedAt j \<noteq> None"

definition delivers :: "job \<Rightarrow> outbox \<Rightarrow> bool" where
  "delivers j ob \<longleftrightarrow> ob_backgroundJobId ob = j_id j \<and> ob_workspaceId ob = j_workspaceId j \<and>
     ob_queueName ob = j_queueName j \<and> ob_handlerVersion ob = j_handlerVersion j \<and>
     ob_correlationId ob = j_correlationId j \<and>
     (ob_cancelledAt ob \<noteq> None \<longrightarrow> may_cancel j) \<and> (must_cancel j \<longrightarrow> ob_cancelledAt ob \<noteq> None)"

definition outbox_ok :: "job list \<Rightarrow> outbox list \<Rightarrow> bool" where
  "outbox_ok jobs obs \<longleftrightarrow> distinct (map ob_backgroundJobId obs) \<and> distinct (map ob_id obs) \<and>
     (\<forall>ob \<in> set obs. \<exists>j \<in> set jobs. delivers j ob) \<and>
     (\<forall>j \<in> set jobs. \<exists>ob \<in> set obs. delivers j ob)"

definition db_inv :: "'r database \<Rightarrow> bool" where
  "db_inv db \<longleftrightarrow> (\<forall>j \<in> set (db_jobs db). job_ok j) \<and>
     leases_ok (db_jobs db) (db_attempts db) \<and> outbox_ok (db_jobs db) (db_outbox db)"

section \<open>Progress of rows\<close>

definition same_identity :: "job \<Rightarrow> job \<Rightarrow> bool" where
  "same_identity r r' \<longleftrightarrow> j_id r' = j_id r \<and> j_workspaceId r' = j_workspaceId r \<and>
     j_queueName r' = j_queueName r \<and> j_handlerVersion r' = j_handlerVersion r \<and>
     j_idempotencyKey r' = j_idempotencyKey r \<and> j_correlationId r' = j_correlationId r \<and>
     j_createdAt r' = j_createdAt r"

text \<open>The moves of the state column: the transition table, and the repair of a committed result.\<close>

inductive lifecycle_move :: "job_state \<Rightarrow> job_state \<Rightarrow> bool" where
  stay: "lifecycle_move s s"
| transition: "canTransitionJob s t \<Longrightarrow> lifecycle_move s t"
| result_repair: "s \<in> {QUEUED, RETRY_SCHEDULED} \<Longrightarrow> lifecycle_move s SUCCEEDED"

inductive_simps lifecycle_from_succeeded: "lifecycle_move SUCCEEDED t"
inductive_simps lifecycle_from_cancelled: "lifecycle_move CANCELLED t"

text \<open>
  One committed step of a row, where \<open>L\<close> are the leases issued so far: what identifies it stays,
  its version grows unless only the dispatch status changed, its state moves along the lifecycle,
  and a lease it holds is the one it held, with the same attempt budget, or a new one.
\<close>

definition newer :: "job \<Rightarrow> job \<Rightarrow> bool" where
  "newer r r' \<longleftrightarrow> j_version r < j_version r' \<or> (\<exists>d. r' = r\<lparr>j_dispatchStatus := d\<rparr>)"

definition row_step :: "string set \<Rightarrow> job \<Rightarrow> job \<Rightarrow> bool" where
  "row_step L r r' \<longleftrightarrow> same_identity r r' \<and>
     newer r r' \<and> lifecycle_move (j_state r) (j_state r') \<and>
     (\<forall>x \<in> L. j_leaseId r' = Some x \<longrightarrow> j_leaseId r = Some x \<and> j_maxAttempts r' = j_maxAttempts r)"

definition same_attempt :: "attempt \<Rightarrow> attempt \<Rightarrow> bool" where
  "same_attempt a a' \<longleftrightarrow> at_leaseId a' = at_leaseId a \<and> at_backgroundJobId a' = at_backgroundJobId a \<and>
     at_attemptNumber a' = at_attemptNumber a \<and> at_workspaceId a' = at_workspaceId a"

definition leases :: "'r database \<Rightarrow> string set" where
  "leases db = at_leaseId ` set (db_attempts db)"

definition progress :: "'r database \<Rightarrow> 'r database \<Rightarrow> bool" where
  "progress db db' \<longleftrightarrow>
     (\<forall>r \<in> set (db_jobs db). \<exists>r' \<in> set (db_jobs db'). row_step (leases db) r r') \<and>
     (\<forall>a \<in> set (db_attempts db). \<exists>a' \<in> set (db_attempts db'). same_attempt a a')"

text \<open>A snapshot a transaction may still be holding: every row has since advanced or is unchanged.\<close>

definition advanced :: "'r database \<Rightarrow> 'r database \<Rightarrow> bool" where
  "advanced snap db \<longleftrightarrow> (\<forall>r \<in> set (db_jobs snap). \<exists>r' \<in> set (db_jobs db). same_identity r r' \<and>
     newer r r')"

lemma same_identity_refl [simp]: "same_identity r r"
  by (simp add: same_identity_def)

lemma same_identity_trans: "same_identity a b \<Longrightarrow> same_identity b c \<Longrightarrow> same_identity a c"
  by (simp add: same_identity_def)

lemma newer_refl [simp]: "newer r r"
  unfolding newer_def by (rule disjI2, rule exI [of _ "j_dispatchStatus r"]) simp

lemma newer_trans: "newer a b \<Longrightarrow> newer b c \<Longrightarrow> newer a c"
  by (auto simp: newer_def)

text \<open>A row whose version has not moved is the row that was read, up to its dispatch status.\<close>

lemma newer_same_version: "newer r r' \<Longrightarrow> j_version r' = j_version r \<Longrightarrow> \<exists>d. r' = r\<lparr>j_dispatchStatus := d\<rparr>"
  by (auto simp: newer_def)

lemma row_step_refl [simp]: "row_step L r r"
  by (simp add: row_step_def lifecycle_move.stay)

lemma same_attempt_refl [simp]: "same_attempt a a"
  by (simp add: same_attempt_def)

lemma progress_refl [simp]: "progress db db"
  unfolding progress_def using row_step_refl same_attempt_refl by blast

lemma progress_same_tables:
  "db_jobs db' = db_jobs db \<Longrightarrow> db_attempts db' = db_attempts db \<Longrightarrow> progress db db'"
  unfolding progress_def using row_step_refl same_attempt_refl by metis

lemma advanced_refl [simp]: "advanced db db"
  unfolding advanced_def using newer_refl same_identity_refl by blast

lemma advanced_trans: "advanced a b \<Longrightarrow> advanced b c \<Longrightarrow> advanced a c"
  unfolding advanced_def by (meson newer_trans same_identity_trans)

lemma progress_advanced: "progress db db' \<Longrightarrow> advanced db db'"
  unfolding progress_def advanced_def row_step_def by blast

text \<open>What an unchanged version tells a transaction about the row it read.\<close>

lemma advanced_row:
  assumes "advanced snap db" "distinct (map j_id (db_jobs db))" "r \<in> set (db_jobs snap)"
    "r' \<in> set (db_jobs db)" "j_id r' = j_id r" "j_version r' = j_version r"
  obtains d where "r' = r\<lparr>j_dispatchStatus := d\<rparr>"
proof -
  from assms(1,3) obtain q where q: "q \<in> set (db_jobs db)" "same_identity r q" "newer r q"
    unfolding advanced_def by blast
  with assms have "q = r'" by (auto simp: same_identity_def dest: distinct_map_inj)
  with q(3) assms(6) that show thesis by (auto dest: newer_same_version)
qed

section \<open>Writes of a row\<close>

text \<open>
  The interface of the \<open>data\<close> of a job write: it keeps what identifies the row and increments the
  version.  The clients' lemma is that such a write, restricted to rows on which it respects the
  lifecycle and the leases, is progress.
\<close>

locale job_write =
  fixes f :: "job \<Rightarrow> job"
  assumes identity: "same_identity r (f r)"
    and version: "j_version (f r) = j_version r + 1"
begin

lemma keeps_id: "j_id (f r) = j_id r"
  using identity [of r] by (simp add: same_identity_def)

lemma step:
  assumes "lifecycle_move (j_state r) (j_state (f r))"
    and "\<forall>x \<in> L. j_leaseId (f r) = Some x \<longrightarrow> j_leaseId r = Some x \<and> j_maxAttempts (f r) = j_maxAttempts r"
  shows "row_step L r (f r)"
  using assms identity version by (simp add: row_step_def newer_def)

text \<open>The rows of a guarded write.\<close>

lemma rows_step:
  assumes "\<And>r. r \<in> set rows \<Longrightarrow> P r \<Longrightarrow> lifecycle_move (j_state r) (j_state (f r))"
    and "\<And>r x. r \<in> set rows \<Longrightarrow> P r \<Longrightarrow> x \<in> L \<Longrightarrow> j_leaseId (f r) = Some x \<Longrightarrow>
      j_leaseId r = Some x \<and> j_maxAttempts (f r) = j_maxAttempts r"
  shows "\<forall>r \<in> set rows. \<exists>r' \<in> set (update_many P f rows). row_step L r r'"
proof
  fix r assume r: "r \<in> set rows"
  let ?r' = "if P r then f r else r"
  have "row_step L r ?r'" using step [of r L] assms r by auto
  moreover have "?r' \<in> set (update_many P f rows)" using r by (auto simp: set_update_many)
  ultimately show "\<exists>r' \<in> set (update_many P f rows). row_step L r r'" by blast
qed

end

sublocale job_write \<subseteq> by_id: keyed_write j_id f
  by unfold_locales (rule keeps_id)

lemmas write_defs = claim_data_def heartbeat_data_def stage_data_def retry_due_data_def
  recover_data_def cancelled_data_def success_data_def failure_data_def cancel_data_def
  cancel_request_data_def manual_retry_data_def requeue_data_def redispatch_data_def
  result_repair_data_def flag_data_def

interpretation claim_w: job_write "claim_data job l t now" for job l t now
  by unfold_locales (simp_all add: same_identity_def write_defs)
interpretation heartbeat_w: job_write "heartbeat_data ts d" for ts d
  by unfold_locales (simp_all add: same_identity_def write_defs)
interpretation stage_w: job_write "stage_data s ts" for s ts
  by unfold_locales (simp_all add: same_identity_def write_defs)
interpretation retry_due_w: job_write "retry_due_data now" for now
  by unfold_locales (simp_all add: same_identity_def write_defs)
interpretation recover_w: job_write "recover_data job now" for job now
  by unfold_locales (simp_all add: same_identity_def write_defs Let_def)
interpretation cancelled_w: job_write "cancelled_data ts" for ts
  by unfold_locales (simp_all add: same_identity_def write_defs)
interpretation success_w: job_write "success_data ts" for ts
  by unfold_locales (simp_all add: same_identity_def write_defs)
interpretation failure_w: job_write "failure_data fl d ts" for fl d ts
  by unfold_locales (simp_all add: same_identity_def write_defs)
interpretation cancel_w: job_write "cancel_data c now" for c now
  by unfold_locales (simp_all add: same_identity_def write_defs)
interpretation cancel_request_w: job_write "cancel_request_data c now" for c now
  by unfold_locales (simp_all add: same_identity_def write_defs)
interpretation manual_retry_w: job_write "manual_retry_data m now" for m now
  by unfold_locales (simp_all add: same_identity_def write_defs)
interpretation requeue_w: job_write "requeue_data now" for now
  by unfold_locales (simp_all add: same_identity_def write_defs)
interpretation redispatch_w: job_write redispatch_data
  by unfold_locales (simp_all add: same_identity_def write_defs)
interpretation result_repair_w: job_write "result_repair_data now" for now
  by unfold_locales (simp_all add: same_identity_def write_defs)
interpretation flag_w: job_write "flag_data c now" for c now
  by unfold_locales (simp_all add: same_identity_def write_defs)

section \<open>Leases\<close>

text \<open>Writes that leave every lease as it is.\<close>

definition lease_view :: "job \<Rightarrow> string \<times> string \<times> bool \<times> string option \<times> int" where
  "lease_view j = (j_id j, j_workspaceId j, j_state j = PROCESSING, j_leaseId j, j_attemptCount j)"

definition attempt_view :: "attempt \<Rightarrow> string \<times> string \<times> int \<times> string \<times> bool" where
  "attempt_view a = (at_leaseId a, at_backgroundJobId a, at_attemptNumber a, at_workspaceId a,
     at_state a = A_ACTIVE)"

lemma owns_view:
  "lease_view j' = lease_view j \<Longrightarrow> attempt_view a' = attempt_view a \<Longrightarrow> owns j' a' = owns j a"
  by (auto simp: lease_view_def attempt_view_def owns_def)

lemma holds_view:
  "lease_view j' = lease_view j \<Longrightarrow> attempt_view a' = attempt_view a \<Longrightarrow> holds j' a' = holds j a"
  by (auto simp: lease_view_def attempt_view_def holds_def)

lemma leases_ok_transfer:
  assumes "leases_ok jobs atts" "map j_id jobs' = map j_id jobs"
    "map at_leaseId atts' = map at_leaseId atts" "map attempt_slot atts' = map attempt_slot atts"
    "\<And>a'. a' \<in> set atts' \<Longrightarrow> \<exists>j' \<in> set jobs'. owns j' a'"
    "\<And>j'. j' \<in> set jobs' \<Longrightarrow> j_state j' = PROCESSING \<Longrightarrow> \<exists>a' \<in> set atts'. holds j' a'"
  shows "leases_ok jobs' atts'"
  using assms by (simp add: leases_ok_def)

lemma leases_ok_views:
  assumes ok: "leases_ok jobs atts"
    and g: "\<And>j. j \<in> set jobs \<Longrightarrow> lease_view (g j) = lease_view j"
    and h: "\<And>a. a \<in> set atts \<Longrightarrow> attempt_view (h a) = attempt_view a"
  shows "leases_ok (map g jobs) (map h atts)"
proof (rule leases_ok_transfer [OF ok])
  show "map j_id (map g jobs) = map j_id jobs" using g by (simp add: lease_view_def)
  show "map at_leaseId (map h atts) = map at_leaseId atts" using h by (simp add: attempt_view_def)
  show "map attempt_slot (map h atts) = map attempt_slot atts"
    using h by (simp add: attempt_view_def attempt_slot_def)
  show "\<exists>j' \<in> set (map g jobs). owns j' a'" if "a' \<in> set (map h atts)" for a'
    using that ok owns_view [OF g h] by (fastforce simp: leases_ok_def)
  show "\<exists>a' \<in> set (map h atts). holds j' a'"
    if "j' \<in> set (map g jobs)" "j_state j' = PROCESSING" for j'
  proof -
    from that obtain j where j: "j \<in> set jobs" "j' = g j" by auto
    with that g have "j_state j = PROCESSING" by (simp add: lease_view_def)
    with ok j obtain a where "a \<in> set atts" "holds j a" by (auto simp: leases_ok_def)
    with j holds_view [OF g h] show ?thesis by auto
  qed
qed

text \<open>The lease of a job names one active attempt, and that attempt names the job.\<close>

lemma lease_unique:
  assumes "leases_ok jobs atts" "a \<in> set atts" "at_state a = A_ACTIVE" "j \<in> set jobs"
    "j_leaseId j = Some (at_leaseId a)" "j_state j = PROCESSING"
  shows "at_backgroundJobId a = j_id j" and "at_attemptNumber a = j_attemptCount j"
proof -
  from assms obtain b where b: "b \<in> set atts" "holds j b" by (auto simp: leases_ok_def)
  with assms have ba: "b = a"
    by (auto simp: leases_ok_def holds_def intro: distinct_map_inj)
  with b show id: "at_backgroundJobId a = j_id j" by (simp add: holds_def)
  from assms(1,2) obtain k where "k \<in> set jobs" "owns k a" by (auto simp: leases_ok_def)
  with id assms(1,3,4) show "at_attemptNumber a = j_attemptCount j"
    by (auto simp: owns_def leases_ok_def dest: distinct_map_inj)
qed

text \<open>The release of the lease \<open>l\<close> of the job \<open>i\<close>.\<close>

lemma leases_ok_release:
  assumes ok: "leases_ok jobs atts"
    and row: "j0 \<in> set jobs" "j_id j0 = i" "j_leaseId j0 = Some l" "j_state j0 = PROCESSING"
    and g: "\<And>j. j \<in> set jobs \<Longrightarrow> j_id j \<noteq> i \<Longrightarrow> g j = j"
    and gi: "\<And>j. j \<in> set jobs \<Longrightarrow> j_id j = i \<Longrightarrow> j_id (g j) = i \<and>
      j_workspaceId (g j) = j_workspaceId j \<and> j_attemptCount (g j) = j_attemptCount j \<and>
      j_state (g j) \<noteq> PROCESSING"
    and h: "\<And>a. a \<in> set atts \<Longrightarrow> \<not> (at_leaseId a = l \<and> at_state a = A_ACTIVE) \<Longrightarrow> h a = a"
    and hl: "\<And>a. a \<in> set atts \<Longrightarrow> same_attempt a (h a) \<and>
      (at_leaseId a = l \<longrightarrow> at_state (h a) \<noteq> A_ACTIVE)"
  shows "leases_ok (map g jobs) (map h atts)"
proof (rule leases_ok_transfer [OF ok])
  have dist: "distinct (map j_id jobs)" using ok by (simp add: leases_ok_def)
  have "j_id (g j) = j_id j" if "j \<in> set jobs" for j
    using g [OF that] gi [OF that] by (cases "j_id j = i") simp_all
  then show "map j_id (map g jobs) = map j_id jobs" by simp
  show "map at_leaseId (map h atts) = map at_leaseId atts"
    "map attempt_slot (map h atts) = map attempt_slot atts"
    using hl by (auto simp: same_attempt_def attempt_slot_def)
  show "\<exists>j' \<in> set (map g jobs). owns j' a'" if "a' \<in> set (map h atts)" for a'
  proof -
    from that obtain a where a: "a \<in> set atts" "a' = h a" by auto
    with ok obtain j where j: "j \<in> set jobs" "owns j a" by (auto simp: leases_ok_def)
    have "owns (g j) (h a)"
    proof (cases "j_id j = i")
      case True
      with j row dist have "j = j0" by (auto dest: distinct_map_inj)
      with j row have "at_state a = A_ACTIVE \<longrightarrow> at_leaseId a = l" by (auto simp: owns_def)
      with hl [OF a(1)] h [OF a(1)] have "at_state (h a) \<noteq> A_ACTIVE" by metis
      with True j gi [OF j(1)] hl [OF a(1)] show ?thesis by (auto simp: owns_def same_attempt_def)
    next
      case False
      have "\<not> (at_leaseId a = l \<and> at_state a = A_ACTIVE)"
        using lease_unique(1) [OF ok a(1) _ row(1)] row j False by (auto simp: owns_def)
      with h [OF a(1)] g [OF j(1) False] j show ?thesis by simp
    qed
    with j a show ?thesis by auto
  qed
  show "\<exists>a' \<in> set (map h atts). holds j' a'"
    if "j' \<in> set (map g jobs)" "j_state j' = PROCESSING" for j'
  proof -
    from that obtain j where j: "j \<in> set jobs" "j' = g j" by auto
    with that gi have ne: "j_id j \<noteq> i" by auto
    with g j that have jp: "j' = j" "j_state j = PROCESSING" by auto
    with ok j obtain a where a: "a \<in> set atts" "holds j a" by (auto simp: leases_ok_def)
    have "at_leaseId a \<noteq> l"
      using lease_unique(1) [OF ok a(1) _ row(1)] row a(2) ne by (auto simp: holds_def)
    with h [OF a(1)] a jp show ?thesis by (auto intro!: bexI [of _ a])
  qed
qed

text \<open>The claim of the job \<open>i\<close> under a lease no attempt has had.\<close>

lemma leases_ok_claim:
  assumes ok: "leases_ok jobs atts"
    and row: "j0 \<in> set jobs" "j_id j0 = i" "j_state j0 \<noteq> PROCESSING" "0 \<le> j_attemptCount j0"
    and g: "\<And>j. j \<in> set jobs \<Longrightarrow> j_id j \<noteq> i \<Longrightarrow> g j = j"
    and gi: "j_id (g j0) = i" "j_workspaceId (g j0) = j_workspaceId j0"
      "j_attemptCount (g j0) = j_attemptCount j0 + 1" "j_state (g j0) = PROCESSING"
      "j_leaseId (g j0) = Some (at_leaseId b)"
    and b: "at_backgroundJobId b = i" "at_workspaceId b = j_workspaceId j0" "at_state b = A_ACTIVE"
      "at_attemptNumber b = j_attemptCount j0 + 1"
    and fresh: "at_leaseId b \<notin> at_leaseId ` set atts"
  shows "leases_ok (map g jobs) (atts @ [b])"
  unfolding leases_ok_def
proof (intro conjI ballI impI)
  have dist: "distinct (map j_id jobs)" using ok by (simp add: leases_ok_def)
  have only: "j = j0" if "j \<in> set jobs" "j_id j = i" for j
    using that row dist by (auto dest: distinct_map_inj)
  have "j_id (g j) = j_id j" if "j \<in> set jobs" for j
    using g [OF that] only [OF that] gi by (cases "j_id j = i") auto
  then have "map j_id (map g jobs) = map j_id jobs" by simp
  with dist show "distinct (map j_id (map g jobs))" by (simp only:)
  show "distinct (map at_leaseId (atts @ [b]))" using ok fresh by (auto simp: leases_ok_def)
  have "attempt_slot a \<noteq> attempt_slot b" if a: "a \<in> set atts" for a
  proof
    assume "attempt_slot a = attempt_slot b"
    then have eq: "at_backgroundJobId a = i" "at_attemptNumber a = j_attemptCount j0 + 1"
      using b by (simp_all add: attempt_slot_def)
    from ok a obtain j where "j \<in> set jobs" "owns j a" by (auto simp: leases_ok_def)
    with eq only have "owns j0 a" by (auto simp: owns_def)
    with eq show False by (simp add: owns_def)
  qed
  then have "attempt_slot b \<notin> attempt_slot ` set atts" by (metis imageE)
  moreover have "distinct (map attempt_slot atts)" using ok by (simp add: leases_ok_def)
  ultimately show "distinct (map attempt_slot (atts @ [b]))" by simp
  show "\<exists>j' \<in> set (map g jobs). owns j' a" if "a \<in> set (atts @ [b])" for a
  proof (cases "a \<in> set atts")
    case True
    with ok obtain j where j: "j \<in> set jobs" "owns j a" by (auto simp: leases_ok_def)
    have "owns (g j) a"
    proof (cases "j_id j = i")
      case True
      with only j have "j = j0" by simp
      with j gi row show ?thesis by (simp add: owns_def)
    next
      case False
      with g j show ?thesis by simp
    qed
    with j show ?thesis by auto
  next
    case False
    with that have "a = b" by simp
    then have "owns (g j0) a" using gi b row by (simp add: owns_def)
    with row(1) show ?thesis by auto
  qed
  show "\<exists>a \<in> set (atts @ [b]). holds j' a" if "j' \<in> set (map g jobs)" "j_state j' = PROCESSING" for j'
  proof -
    from that obtain j where j: "j \<in> set jobs" "j' = g j" by auto
    show ?thesis
    proof (cases "j_id j = i")
      case True
      with only j have "holds j' b" using gi b by (simp add: holds_def)
      then show ?thesis by simp
    next
      case False
      with g j that have "j' = j" "j_state j = PROCESSING" by auto
      with ok j show ?thesis by (auto simp: leases_ok_def)
    qed
  qed
qed

text \<open>A new job has no attempt.\<close>

lemma leases_ok_insert:
  assumes "leases_ok jobs atts" "j_id j \<notin> j_id ` set jobs" "j_state j \<noteq> PROCESSING"
  shows "leases_ok (jobs @ [j]) atts"
  using assms by (auto simp: leases_ok_def)

section \<open>Outbox rows\<close>

definition same_delivery :: "outbox \<Rightarrow> outbox \<Rightarrow> bool" where
  "same_delivery ob ob' \<longleftrightarrow> ob_id ob' = ob_id ob \<and> ob_backgroundJobId ob' = ob_backgroundJobId ob \<and>
     ob_workspaceId ob' = ob_workspaceId ob \<and> ob_queueName ob' = ob_queueName ob \<and>
     ob_handlerVersion ob' = ob_handlerVersion ob \<and> ob_correlationId ob' = ob_correlationId ob"

lemma same_delivery_refl [simp]: "same_delivery ob ob"
  by (simp add: same_delivery_def)

lemma delivers_step:
  assumes "delivers j ob" "same_identity j j'" "same_delivery ob ob'"
    "ob_cancelledAt ob' \<noteq> None \<longrightarrow> may_cancel j'" "must_cancel j' \<longrightarrow> ob_cancelledAt ob' \<noteq> None"
  shows "delivers j' ob'"
  using assms by (auto simp: delivers_def same_identity_def same_delivery_def)

text \<open>
  A write of both tables keeps the outbox in step when it does so for each job and its row.
\<close>

lemma outbox_ok_step:
  assumes ok: "outbox_ok jobs obs"
    and g: "\<And>j. j \<in> set jobs \<Longrightarrow> same_identity j (g j)"
    and h: "\<And>ob. ob \<in> set obs \<Longrightarrow> same_delivery ob (h ob)"
    and gh: "\<And>j ob. j \<in> set jobs \<Longrightarrow> ob \<in> set obs \<Longrightarrow> delivers j ob \<Longrightarrow>
      (ob_cancelledAt (h ob) \<noteq> None \<longrightarrow> may_cancel (g j)) \<and>
      (must_cancel (g j) \<longrightarrow> ob_cancelledAt (h ob) \<noteq> None)"
  shows "outbox_ok (map g jobs) (map h obs)"
proof -
  have ids: "map ob_backgroundJobId (map h obs) = map ob_backgroundJobId obs"
    "map ob_id (map h obs) = map ob_id obs"
    using h by (auto simp: same_delivery_def)
  have dist: "distinct (map ob_backgroundJobId obs)" "distinct (map ob_id obs)"
    and obs: "\<And>ob. ob \<in> set obs \<Longrightarrow> \<exists>j \<in> set jobs. delivers j ob"
    and jobs: "\<And>j. j \<in> set jobs \<Longrightarrow> \<exists>ob \<in> set obs. delivers j ob"
    using ok by (simp_all add: outbox_ok_def)
  have d: "delivers (g j) (h ob)" if "j \<in> set jobs" "ob \<in> set obs" "delivers j ob" for j ob
    using delivers_step [OF that(3) g h] gh that by blast
  have "\<forall>ob' \<in> set (map h obs). \<exists>j' \<in> set (map g jobs). delivers j' ob'"
    unfolding set_map ball_simps bex_simps using obs d by blast
  moreover have "\<forall>j' \<in> set (map g jobs). \<exists>ob' \<in> set (map h obs). delivers j' ob'"
    unfolding set_map ball_simps bex_simps using jobs d by blast
  ultimately show ?thesis unfolding outbox_ok_def ids using dist by (intro conjI)
qed

text \<open>Neither side of the bargain changes.\<close>

lemma outbox_ok_keep:
  assumes "outbox_ok jobs obs"
    and "\<And>j. j \<in> set jobs \<Longrightarrow> same_identity j (g j) \<and> (may_cancel j \<longrightarrow> may_cancel (g j)) \<and>
      (must_cancel (g j) \<longrightarrow> must_cancel j)"
    and "\<And>ob. ob \<in> set obs \<Longrightarrow> same_delivery ob (h ob) \<and>
      (ob_cancelledAt (h ob) = None \<longleftrightarrow> ob_cancelledAt ob = None)"
  shows "outbox_ok (map g jobs) (map h obs)"
  using assms(1) by (rule outbox_ok_step) (use assms(2,3) in \<open>auto simp: delivers_def\<close>)

text \<open>The row of the job \<open>i\<close> alone changes with its job.\<close>

lemma outbox_ok_one:
  assumes "outbox_ok jobs obs"
    and "\<And>j. j \<in> set jobs \<Longrightarrow> same_identity j (g j) \<and> (j_id j \<noteq> i \<longrightarrow> g j = j)"
    and "\<And>ob. ob \<in> set obs \<Longrightarrow> same_delivery ob (h ob) \<and> (ob_backgroundJobId ob \<noteq> i \<longrightarrow> h ob = ob)"
    and "\<And>j ob. j \<in> set jobs \<Longrightarrow> ob \<in> set obs \<Longrightarrow> j_id j = i \<Longrightarrow> ob_backgroundJobId ob = i \<Longrightarrow>
      (ob_cancelledAt (h ob) \<noteq> None \<longrightarrow> may_cancel (g j)) \<and>
      (must_cancel (g j) \<longrightarrow> ob_cancelledAt (h ob) \<noteq> None)"
  shows "outbox_ok (map g jobs) (map h obs)"
  using assms(1) assms(2) [THEN conjunct1] assms(3) [THEN conjunct1]
proof (rule outbox_ok_step)
  fix j ob assume j: "j \<in> set jobs" "ob \<in> set obs" "delivers j ob"
  show "(ob_cancelledAt (h ob) \<noteq> None \<longrightarrow> may_cancel (g j)) \<and>
      (must_cancel (g j) \<longrightarrow> ob_cancelledAt (h ob) \<noteq> None)"
  proof (cases "j_id j = i")
    case True
    with j assms(4) show ?thesis by (simp add: delivers_def)
  next
    case False
    with j assms(2,3) show ?thesis by (auto simp: delivers_def)
  qed
qed

text \<open>A new job with its new row.\<close>

lemma outbox_ok_insert:
  assumes "outbox_ok jobs obs" "j_id j \<notin> j_id ` set jobs" "delivers j ob"
    "ob_id ob \<notin> ob_id ` set obs"
  shows "outbox_ok (jobs @ [j]) (obs @ [ob])"
proof -
  have "ob_backgroundJobId x \<noteq> ob_backgroundJobId ob" if x: "x \<in> set obs" for x
  proof -
    from assms(1) x obtain k where k: "k \<in> set jobs" "delivers k x" by (auto simp: outbox_ok_def)
    from k(1) assms(2) have "j_id k \<noteq> j_id j" by (metis imageI)
    with k assms(3) show ?thesis by (simp add: delivers_def)
  qed
  then have "ob_backgroundJobId ob \<notin> ob_backgroundJobId ` set obs" by (metis imageE)
  with assms show ?thesis unfolding outbox_ok_def by (simp add: ball_Un)
qed

end
