(* ===== verification/Job_Writes.thy ===== *)
theory Job_Writes
  imports Job_Invariant
begin

text \<open>
  The shapes of \<open>Job_Invariant\<close> at the level of the whole database: each is a lemma of the write
  interface, so that a transaction of the sources keeps the invariant as soon as its \<open>where\<close> and
  its \<open>data\<close> meet the premises of the shape.
\<close>

abbreviation sound_step :: "'r database \<Rightarrow> 'r database \<Rightarrow> bool" where
  "sound_step db db' \<equiv> db_inv db' \<and> progress db db'"

lemma db_inv_ids: "db_inv db \<Longrightarrow> distinct (map j_id (db_jobs db))"
  by (simp add: db_inv_def leases_ok_def)

lemma db_inv_job: "db_inv db \<Longrightarrow> r \<in> set (db_jobs db) \<Longrightarrow> job_ok r"
  by (simp add: db_inv_def)

lemma sound_same_tables:
  assumes "db_inv db" "db_jobs db' = db_jobs db" "db_attempts db' = db_attempts db"
    "db_outbox db' = db_outbox db"
  shows "sound_step db db'"
  using assms progress_same_tables by (auto simp: db_inv_def)

lemma transaction_keeps:
  assumes "transaction code db body = (res, db')" "sound_step db db"
    "\<And>db1 a. body = Inr (db1, a) \<Longrightarrow> sound_step db db1"
  shows "sound_step db db'"
  using assms by (auto simp: transaction_def split: sum.splits exn.splits if_splits)

lemma bare_transaction_keeps:
  assumes "bare_transaction db body = (res, db')" "sound_step db db"
    "\<And>db1 a. body = Inr (db1, a) \<Longrightarrow> sound_step db db1"
  shows "sound_step db db'"
  using assms by (auto simp: bare_transaction_def split: sum.splits if_splits)

section \<open>Writes that name one row\<close>

text \<open>A \<open>where\<close> that fixes the key matches one row or none.\<close>

lemma one_row:
  assumes "distinct (map key rows)" "\<And>r. r \<in> set rows \<Longrightarrow> P r \<Longrightarrow> key r = i" "count_many P rows = 1"
    "r \<in> set rows" "key r = i"
  shows "P r"
proof -
  obtain q where "q \<in> set rows" "P q" using count_many_one [OF assms(3)] by blast
  with assms have "q = r" by (auto dest: distinct_map_inj)
  with \<open>P q\<close> show ?thesis by simp
qed

lemma missed_row:
  assumes "distinct (map key rows)" "\<And>r. r \<in> set rows \<Longrightarrow> P r \<Longrightarrow> key r = i" "count_many P rows \<noteq> 1"
  shows "update_many P f rows = rows"
proof -
  have "\<not> P r" if "r \<in> set rows" for r
    using count_many_unique [OF assms(1) that] assms(2,3) that by metis
  then show ?thesis by (simp add: update_many_def map_idI)
qed

text \<open>Two writes of a table that agree on its rows.\<close>

lemma update_many_map: "update_many P f rows = map (\<lambda>r. if P r then f r else r) rows"
  by (simp add: update_many_def)

lemma attempts_progress:
  assumes "\<And>a. same_attempt a (h a)"
  shows "\<forall>a \<in> set atts. \<exists>a' \<in> set (update_many PA h atts). same_attempt a a'"
proof
  fix a assume a: "a \<in> set atts"
  then have "(if PA a then h a else a) \<in> set (update_many PA h atts)" by (auto simp: set_update_many)
  moreover have "same_attempt a (if PA a then h a else a)" using assms by simp
  ultimately show "\<exists>a' \<in> set (update_many PA h atts). same_attempt a a'" by blast
qed

context job_write
begin

text \<open>The combination of the three parts.\<close>

lemma write_sound:
  assumes inv: "db_inv db" and jobs: "db_jobs db' = update_many P f (db_jobs db)"
    and row: "\<And>r. r \<in> set (db_jobs db) \<Longrightarrow> P r \<Longrightarrow>
      job_ok (f r) \<and> lifecycle_move (j_state r) (j_state (f r))"
    and fresh: "\<And>r x. r \<in> set (db_jobs db) \<Longrightarrow> P r \<Longrightarrow> x \<in> leases db \<Longrightarrow> j_leaseId (f r) = Some x \<Longrightarrow>
      j_leaseId r = Some x \<and> j_maxAttempts (f r) = j_maxAttempts r"
    and atts: "\<forall>a \<in> set (db_attempts db). \<exists>a' \<in> set (db_attempts db'). same_attempt a a'"
    and leases: "leases_ok (db_jobs db') (db_attempts db')"
    and outbox: "outbox_ok (db_jobs db') (db_outbox db')"
  shows "sound_step db db'"
proof
  have "\<forall>r \<in> set (db_jobs db'). job_ok r"
    unfolding jobs ball_update_many using inv row by (auto simp: db_inv_def)
  then show "db_inv db'" using leases outbox by (simp add: db_inv_def)
  show "progress db db'"
    unfolding progress_def jobs using rows_step [OF _ fresh] row atts by blast
qed

text \<open>A write that leaves the lease of its row alone.\<close>

lemma plain_write:
  assumes inv: "db_inv db" and jobs: "db_jobs db' = update_many P f (db_jobs db)"
    and row: "\<And>r. r \<in> set (db_jobs db) \<Longrightarrow> P r \<Longrightarrow> job_ok (f r) \<and>
      lifecycle_move (j_state r) (j_state (f r)) \<and> lease_view (f r) = lease_view r \<and>
      (j_leaseId r \<noteq> None \<longrightarrow> j_maxAttempts (f r) = j_maxAttempts r)"
    and atts: "db_attempts db' = update_many PA h (db_attempts db)"
      "\<And>a. attempt_view (h a) = attempt_view a"
    and outbox: "outbox_ok (db_jobs db') (db_outbox db')"
  shows "sound_step db db'"
proof (rule write_sound [OF inv jobs _ _ _ _ outbox])
  show "leases_ok (db_jobs db') (db_attempts db')"
    unfolding jobs atts update_many_def
    by (rule leases_ok_views) (use inv row atts(2) in \<open>auto simp: db_inv_def\<close>)
  show "\<forall>a \<in> set (db_attempts db). \<exists>a' \<in> set (db_attempts db'). same_attempt a a'"
    unfolding atts(1) using atts(2)
    by (intro attempts_progress) (simp add: attempt_view_def same_attempt_def)
qed (use row in \<open>auto simp: lease_view_def\<close>)

lemma row_write:
  assumes "db_inv db" "db_jobs db' = update_many P f (db_jobs db)" "db_attempts db' = db_attempts db"
    and "\<And>r. r \<in> set (db_jobs db) \<Longrightarrow> P r \<Longrightarrow> job_ok (f r) \<and>
      lifecycle_move (j_state r) (j_state (f r)) \<and> lease_view (f r) = lease_view r \<and>
      (j_leaseId r \<noteq> None \<longrightarrow> j_maxAttempts (f r) = j_maxAttempts r)"
    and "outbox_ok (update_many P f (db_jobs db)) (db_outbox db')"
  shows "sound_step db db'"
  using assms(1,2)
proof (rule plain_write [where PA = "\<lambda>_. False" and h = "\<lambda>a. a"])
  show "db_attempts db' = update_many (\<lambda>_. False) (\<lambda>a. a) (db_attempts db)"
    using assms(3) by (simp add: update_many_def)
qed (use assms in simp_all)

text \<open>The release of the lease of the one row it matches.\<close>

lemma release_write:
  assumes inv: "db_inv db" and jobs: "db_jobs db' = update_many P f (db_jobs db)"
    and row: "\<And>r. r \<in> set (db_jobs db) \<Longrightarrow> P r \<Longrightarrow> j_id r = i \<and> j_leaseId r = Some l \<and>
      j_state r = PROCESSING \<and> job_ok (f r) \<and> lifecycle_move PROCESSING (j_state (f r)) \<and>
      j_state (f r) \<noteq> PROCESSING \<and> j_attemptCount (f r) = j_attemptCount r"
    and one: "count_many P (db_jobs db) = 1" "count_many PA (db_attempts db) = 1"
    and atts: "db_attempts db' = update_many PA h (db_attempts db)"
      "\<And>a. PA a \<Longrightarrow> at_leaseId a = l \<and> at_state a = A_ACTIVE"
      "\<And>a. same_attempt a (h a) \<and> at_state (h a) \<noteq> A_ACTIVE"
    and outbox: "outbox_ok (db_jobs db') (db_outbox db')"
  shows "sound_step db db'"
proof (rule write_sound [OF inv jobs _ _ _ _ outbox])
  have ok: "leases_ok (db_jobs db) (db_attempts db)" using inv by (simp add: db_inv_def)
  obtain j0 where j0: "j0 \<in> set (db_jobs db)" "P j0" using count_many_one [OF one(1)] by blast
  have P: "P j" if "j \<in> set (db_jobs db)" "j_id j = i" for j
    using one_row [OF db_inv_ids [OF inv] _ one(1) that] row by blast
  have PA: "PA a" if "a \<in> set (db_attempts db)" "at_leaseId a = l" for a
    using ok one_row [of at_leaseId, OF _ _ one(2) that] atts(2) by (auto simp: leases_ok_def)
  have f: "j_workspaceId (f j) = j_workspaceId j" for j
    using identity [of j] by (simp add: same_identity_def)
  show "leases_ok (db_jobs db') (db_attempts db')"
    unfolding jobs atts(1) update_many_def
  proof (rule leases_ok_release [OF ok j0(1), of i l])
    fix j assume j: "j \<in> set (db_jobs db)" "j_id j = i"
    let ?j = "if P j then f j else j"
    show "j_id ?j = i \<and> j_workspaceId ?j = j_workspaceId j \<and>
      j_attemptCount ?j = j_attemptCount j \<and> j_state ?j \<noteq> PROCESSING"
      using P [OF j] row [OF j(1)] keeps_id f j(2) by simp
  next
    fix a assume a: "a \<in> set (db_attempts db)"
    let ?a = "if PA a then h a else a"
    show "same_attempt a ?a \<and> (at_leaseId a = l \<longrightarrow> at_state ?a \<noteq> A_ACTIVE)"
      using PA [OF a] atts(3) by simp
  next
    fix a assume a: "a \<in> set (db_attempts db)" "\<not> (at_leaseId a = l \<and> at_state a = A_ACTIVE)"
    then show "(if PA a then h a else a) = a" using atts(2) by auto
  next
    fix j assume j: "j \<in> set (db_jobs db)" "j_id j \<noteq> i"
    then show "(if P j then f j else j) = j" using row by auto
  qed (use row [OF j0] in auto)
  show "\<forall>a \<in> set (db_attempts db). \<exists>a' \<in> set (db_attempts db'). same_attempt a a'"
    unfolding atts(1) using atts(3) by (intro attempts_progress) simp
next
  fix r x assume r: "r \<in> set (db_jobs db)" "P r" "j_leaseId (f r) = Some x"
  with row [OF r(1,2)] show "j_leaseId r = Some x \<and> j_maxAttempts (f r) = j_maxAttempts r"
    by (auto simp: job_ok_def)
qed (use row in auto)

text \<open>The outbox of a write that keeps what its row owes, or that ends or restarts its delivery.\<close>

lemma outbox_kept:
  assumes "db_inv db"
    and "\<And>r. r \<in> set (db_jobs db) \<Longrightarrow> P r \<Longrightarrow> (may_cancel r \<longrightarrow> may_cancel (f r)) \<and>
      (must_cancel (f r) \<longrightarrow> must_cancel r)"
    and "\<And>ob. same_delivery ob (h ob) \<and> (ob_cancelledAt (h ob) = None \<longleftrightarrow> ob_cancelledAt ob = None)"
  shows "outbox_ok (update_many P f (db_jobs db)) (update_many Q h (db_outbox db))"
  unfolding update_many_def
  by (rule outbox_ok_keep) (use assms identity in \<open>auto simp: db_inv_def\<close>)

lemma outbox_same:
  assumes "db_inv db"
    and "\<And>r. r \<in> set (db_jobs db) \<Longrightarrow> P r \<Longrightarrow> (may_cancel r \<longrightarrow> may_cancel (f r)) \<and>
      (must_cancel (f r) \<longrightarrow> must_cancel r)"
  shows "outbox_ok (update_many P f (db_jobs db)) (db_outbox db)"
  using outbox_kept [OF assms, where h = "\<lambda>ob. ob" and Q = "\<lambda>_. False"] by (simp add: update_many_def)

lemma outbox_rewritten:
  assumes inv: "db_inv db" and one: "count_many P (db_jobs db) = 1"
    and row: "\<And>r. r \<in> set (db_jobs db) \<Longrightarrow> P r \<Longrightarrow> j_id r = i"
    and h: "\<And>ob. same_delivery ob (h ob)"
    and bargain: "\<And>r ob. r \<in> set (db_jobs db) \<Longrightarrow> P r \<Longrightarrow>
      (ob_cancelledAt (h ob) \<noteq> None \<longrightarrow> may_cancel (f r)) \<and> (must_cancel (f r) \<longrightarrow> ob_cancelledAt (h ob) \<noteq> None)"
  shows "outbox_ok (update_many P f (db_jobs db))
    (update_many (\<lambda>ob. ob_backgroundJobId ob = i) h (db_outbox db))"
  unfolding update_many_def
proof (rule outbox_ok_one [of _ _ _ i])
  show "outbox_ok (db_jobs db) (db_outbox db)" using inv by (simp add: db_inv_def)
  fix j assume j: "j \<in> set (db_jobs db)"
  show "same_identity j (if P j then f j else j) \<and> (j_id j \<noteq> i \<longrightarrow> (if P j then f j else j) = j)"
    using identity row [OF j] by simp
  fix ob :: outbox
  assume "j_id j = i" "ob_backgroundJobId ob = i"
  moreover from this have "P j" using one_row [OF db_inv_ids [OF inv] _ one j] row by blast
  ultimately show "(ob_cancelledAt (if ob_backgroundJobId ob = i then h ob else ob) \<noteq> None \<longrightarrow>
      may_cancel (if P j then f j else j)) \<and>
    (must_cancel (if P j then f j else j) \<longrightarrow>
      ob_cancelledAt (if ob_backgroundJobId ob = i then h ob else ob) \<noteq> None)"
    using bargain [OF j] by simp
qed (use h in simp)

lemma outbox_ended:
  assumes "db_inv db" "count_many P (db_jobs db) = 1"
    and "\<And>r. r \<in> set (db_jobs db) \<Longrightarrow> P r \<Longrightarrow> j_id r = i \<and> may_cancel (f r)"
  shows "outbox_ok (update_many P f (db_jobs db))
    (update_many (\<lambda>ob. ob_backgroundJobId ob = i) (cancel_outbox_data now) (db_outbox db))"
  using assms(1,2) by (rule outbox_rewritten)
    (use assms(3) in \<open>auto simp: same_delivery_def cancel_outbox_data_def\<close>)

lemma outbox_restarted:
  assumes inv: "db_inv db" and "count_many P (db_jobs db) = 1"
    and row: "\<And>r. r \<in> set (db_jobs db) \<Longrightarrow> P r \<Longrightarrow> j_id r = j_id job \<and> \<not> must_cancel (f r)"
  shows "outbox_ok (update_many P f (db_jobs db)) (upsert_outbox job now oid due dbNow (db_outbox db))"
proof -
  obtain q where q: "q \<in> set (db_jobs db)" "P q" using count_many_one [OF assms(2)] by blast
  with inv obtain ob where "ob \<in> set (db_outbox db)" "delivers q ob"
    by (auto simp: db_inv_def outbox_ok_def)
  with row [OF q] have "\<exists>ob \<in> set (db_outbox db). ob_backgroundJobId ob = j_id job"
    by (auto simp: delivers_def)
  moreover have "outbox_ok (update_many P f (db_jobs db))
    (update_many (\<lambda>ob. ob_backgroundJobId ob = j_id job) (reset_outbox_data now) (db_outbox db))"
    using assms(1,2) by (rule outbox_rewritten)
      (use row in \<open>auto simp: same_delivery_def reset_outbox_data_def\<close>)
  ultimately show ?thesis by (simp add: upsert_outbox_def)
qed

end

end
