(* ===== verification/Job_Soundness.thy ===== *)
theory Job_Soundness
  imports Job_Writes
begin

text \<open>
  Every transaction of the job engine keeps the invariant of the tables and is a step of
  progress, whatever other transactions committed between its read and its write.
\<close>

lemmas state_rules = job_ok_def may_cancel_def must_cancel_def lease_view_def

section \<open>Heartbeats and stages\<close>

context job_write
begin

lemma active_update_sound:
  assumes run: "updateActiveAttempt db ws jobId leaseId f h = (res, db')" and inv: "db_inv db"
    and f: "\<And>r. job_ok r \<Longrightarrow> j_state r = PROCESSING \<Longrightarrow> job_ok (f r) \<and> j_state (f r) = PROCESSING \<and>
      lease_view (f r) = lease_view r \<and> j_maxAttempts (f r) = j_maxAttempts r \<and>
      j_cancellationRequestedAt (f r) = j_cancellationRequestedAt r"
    and h: "\<And>a. attempt_view (h a) = attempt_view a"
  shows "sound_step db db'"
  using run unfolding updateActiveAttempt_def
proof (rule transaction_keeps)
  let ?P = "lease_where ws jobId leaseId"
  let ?PA = "\<lambda>a. at_leaseId a = leaseId \<and> at_state a = A_ACTIVE \<and> at_workspaceId a = ws"
  fix db1 u
  assume body: "(let PJ = ?P; PA = ?PA; db' = db\<lparr>db_jobs := update_many PJ f (db_jobs db),
                     db_attempts := update_many PA h (db_attempts db)\<rparr>
        in if count_many PJ (db_jobs db) \<noteq> 1 \<or> count_many PA (db_attempts db) \<noteq> 1
           then Inl JobLeaseLostError else Inr (db', ())) = Inr (db1, u)"
  have row: "job_ok r \<and> j_state r = PROCESSING" if "r \<in> set (db_jobs db)" "?P r" for r
    using that db_inv_job [OF inv] by (simp add: lease_where_def)
  have "outbox_ok (update_many ?P f (db_jobs db)) (db_outbox db)"
    using inv by (rule outbox_same) (use f row in \<open>simp add: may_cancel_def must_cancel_def\<close>)
  then show "sound_step db db1"
    using body inv f row h
    by (intro plain_write [of db db1 ?P ?PA h])
      (auto simp: Let_def lifecycle_move.stay split: if_splits)
qed (use inv in simp)

end

lemma heartbeat_sound:
  assumes "heartbeatBackgroundJob db ws jobId leaseId ts d = (res, db')" "db_inv db"
  shows "sound_step db db'"
proof (cases "validatePositiveInteger (coalesce d (jint defaultLeaseDurationMs)) ''JOB_LEASE_DURATION_INVALID''")
  case None
  with assms(1) have "updateActiveAttempt db ws jobId leaseId
    (heartbeat_data ts (num_int (coalesce d (jint defaultLeaseDurationMs))))
    (\<lambda>a. a\<lparr>at_heartbeatAt := ts\<rparr>) = (res, db')"
    by (simp add: heartbeatBackgroundJob_def Let_def)
  then show ?thesis using assms(2)
    by (rule heartbeat_w.active_update_sound)
      (auto simp: heartbeat_data_def state_rules attempt_view_def)
qed (use assms in \<open>auto simp: heartbeatBackgroundJob_def Let_def\<close>)

lemma stage_sound:
  assumes "recordBackgroundJobStage db ws jobId leaseId stage ts = (res, db')" "db_inv db"
  shows "sound_step db db'"
proof (cases "isSafeJobStage stage")
  case True
  with assms(1) have "updateActiveAttempt db ws jobId leaseId (stage_data stage ts)
    (\<lambda>a. a\<lparr>at_heartbeatAt := ts, at_stage := stage\<rparr>) = (res, db')"
    by (simp add: recordBackgroundJobStage_def)
  then show ?thesis using assms(2)
    by (rule stage_w.active_update_sound) (auto simp: stage_data_def state_rules attempt_view_def)
qed (use assms in \<open>auto simp: recordBackgroundJobStage_def\<close>)

section \<open>The release of a due retry\<close>

lemma retry_due_sound:
  assumes "makeBackgroundJobRetryDue db ws jobId now = (res, db')" and inv: "db_inv db"
  shows "sound_step db db'"
proof -
  let ?P = "\<lambda>r. j_id r = jobId \<and> sql_lte (j_nextAttemptAt r) now \<and>
    j_state r = RETRY_SCHEDULED \<and> j_workspaceId r = ws"
  have row: "job_ok (retry_due_data now r) \<and> lease_view (retry_due_data now r) = lease_view r \<and>
      j_leaseId r = None \<and> \<not> may_cancel r \<and> \<not> must_cancel (retry_due_data now r) \<and>
      lifecycle_move (j_state r) (j_state (retry_due_data now r))"
    if "r \<in> set (db_jobs db)" "?P r" for r
    using that db_inv_job [OF inv that(1)] by (auto simp: state_rules retry_due_data_def intro: lifecycle_move.transition)
  have out: "outbox_ok (update_many ?P (retry_due_data now) (db_jobs db)) (db_outbox db)"
    using inv by (rule retry_due_w.outbox_same) (use row in simp)
  have "sound_step db (db\<lparr>db_jobs := update_many ?P (retry_due_data now) (db_jobs db)\<rparr>)"
    by (rule retry_due_w.row_write [OF inv]) (use row out in simp_all)
  with assms(1) inv show ?thesis
    unfolding makeBackgroundJobRetryDue_def
    by (auto simp: Let_def elim!: transaction_keeps split: option.splits)
qed

section \<open>Claims\<close>

text \<open>The row a guarded write finds is the row its transaction read, up to the dispatch status.\<close>

lemma snapshot_row:
  assumes "db_inv db" "advanced snap db" "job \<in> set (db_jobs snap)"
    "r \<in> set (db_jobs db)" "j_id r = j_id job" "j_version r = j_version job"
  shows "\<exists>d. r = job\<lparr>j_dispatchStatus := d\<rparr>"
  using advanced_row [OF assms(2) db_inv_ids [OF assms(1)] assms(3-6)] by blast

lemma claim_row_sound:
  assumes inv: "db_inv db" and adv: "advanced snap db" and l: "leaseId \<noteq> []"
    and job: "job \<in> set (db_jobs snap)"
    and one: "count_many (claim_where job ws) (db_jobs db) = 1"
    and create: "create_attempt (claim_attempt job leaseId attemptId now) (db_attempts db) = Some as"
  shows "sound_step db (db\<lparr>db_jobs := update_many (claim_where job ws) (claim_data job leaseId ex now) (db_jobs db),
    db_attempts := as\<rparr>)"
proof -
  let ?P = "claim_where job ws" and ?f = "claim_data job leaseId ex now"
  let ?b = "claim_attempt job leaseId attemptId now"
  have as: "as = db_attempts db @ [?b]" and fresh: "leaseId \<notin> leases db"
    using create_attempt_Some [OF create] by (auto simp: leases_def claim_attempt_def)
  have row: "job_ok r \<and> j_state r = QUEUED \<and> j_id r = j_id job \<and> j_attemptCount r = j_attemptCount job \<and>
    j_workspaceId r = j_workspaceId job \<and> j_attemptCount r < j_maxAttempts r"
    if "r \<in> set (db_jobs db)" "?P r" for r
    using that snapshot_row [OF inv adv job that(1)] db_inv_job [OF inv that(1)]
    by (auto simp: claim_where_def)
  have P: "?P j" if "j \<in> set (db_jobs db)" "j_id j = j_id job" for j
    using one_row [OF db_inv_ids [OF inv] _ one that] by (auto simp: claim_where_def)
  obtain j0 where j0: "j0 \<in> set (db_jobs db)" "?P j0" using count_many_one [OF one] by blast
  have ok: "leases_ok (db_jobs db) (db_attempts db)" using inv by (simp add: db_inv_def)
  have "leases_ok (update_many ?P ?f (db_jobs db)) (db_attempts db @ [?b])"
    unfolding update_many_def
  proof (rule leases_ok_claim [OF ok j0(1), of "j_id job"])
    show "at_leaseId ?b \<notin> at_leaseId ` set (db_attempts db)"
      using fresh by (simp add: leases_def claim_attempt_def)
  next
    fix j :: job assume "j_id j \<noteq> j_id job"
    then show "(if ?P j then ?f j else j) = j" by (simp add: claim_where_def)
  qed (use j0 row [OF j0] in \<open>simp_all add: claim_data_def claim_attempt_def job_ok_def\<close>)
  moreover have "outbox_ok (update_many ?P ?f (db_jobs db)) (db_outbox db)"
    using inv by (rule claim_w.outbox_same) (use row in \<open>auto simp: state_rules claim_data_def\<close>)
  ultimately show ?thesis
    using fresh as
  proof (intro claim_w.write_sound [OF inv])
    fix r assume "r \<in> set (db_jobs db)" "?P r"
    from row [OF this] l
    show "job_ok (?f r) \<and> lifecycle_move (j_state r) (j_state (?f r))"
      by (auto simp: claim_data_def job_ok_def intro: lifecycle_move.transition)
  next
    have "\<exists>a' \<in> set (db_attempts db @ [?b]). same_attempt a a'" if "a \<in> set (db_attempts db)" for a
      using that by (intro bexI [of _ a]) simp_all
    with as show "\<forall>a \<in> set (db_attempts db). \<exists>a' \<in> set (db_attempts (db\<lparr>db_jobs :=
      update_many ?P ?f (db_jobs db), db_attempts := as\<rparr>)). same_attempt a a'" by simp
  qed (auto simp: claim_data_def leases_def)
qed

lemma claim_body_sound:
  assumes body: "claim_body snap db ws jobId ex now leaseId attemptId = Inr (db1, r)"
    and inv: "db_inv db" "advanced snap db" "leaseId \<noteq> []"
  shows "sound_step db db1"
proof (cases "find_job ws jobId (db_jobs snap)")
  case None
  with body inv show ?thesis by (simp add: claim_body_def)
next
  case (Some job)
  let ?P = "claim_where job ws"
  have job: "job \<in> set (db_jobs snap)" using find_job_SomeD [OF Some] by simp
  have missed: "update_many ?P f (db_jobs db) = db_jobs db" if "count_many ?P (db_jobs db) \<noteq> 1" for f
    using missed_row [OF db_inv_ids [OF inv(1)] _ that] by (auto simp: claim_where_def)
  show ?thesis
    using body Some inv(1) missed claim_row_sound [OF inv job]
    by (auto simp: claim_body_def Let_def split: if_splits option.splits)
qed

lemma claim_sound:
  assumes "claimBackgroundJob snap db ws jobId d now leaseId attemptId = (res, db')"
    and inv: "db_inv db" "advanced snap db" "leaseId \<noteq> []"
  shows "sound_step db db'"
  using assms(1) inv(1) claim_body_sound [OF _ inv]
  by (auto simp: claimBackgroundJob_def Let_def elim!: transaction_keeps split: option.splits)

section \<open>Recovery\<close>

text \<open>The four ways an attempt ends.\<close>

definition settles :: "(attempt \<Rightarrow> attempt) \<Rightarrow> bool" where
  "settles h \<longleftrightarrow> (\<forall>a. same_attempt a (h a) \<and> at_state (h a) \<noteq> A_ACTIVE)"

lemma settles_attempt_data [simp]:
  "settles (recover_attempt_data job now)" "settles (cancelled_attempt_data now)"
  "settles (success_attempt_data now)" "settles (failure_attempt_data f d now)"
  by (auto simp: settles_def recover_attempt_data_def cancelled_attempt_data_def
      success_attempt_data_def failure_attempt_data_def same_attempt_def split: retry_decision.splits)

lemma recover_outbox_sound:
  assumes inv: "db_inv db" and one: "count_many P (db_jobs db) = 1"
    and row: "\<And>r. r \<in> set (db_jobs db) \<Longrightarrow> P r \<Longrightarrow> j_state r = PROCESSING \<and> (\<exists>d. r = job\<lparr>j_dispatchStatus := d\<rparr>)"
  shows "outbox_ok (update_many P (recover_data job now) (db_jobs db)) (recover_outbox job now (db_outbox db))"
proof (cases "j_cancellationRequestedAt job = None")
  case False
  have "j_id r = j_id job \<and> may_cancel (recover_data job now r)" if "r \<in> set (db_jobs db)" "P r" for r
    using row [OF that] False by (auto simp: recover_data_def Let_def recover_next_state_def may_cancel_def)
  with False show ?thesis
    using recover_w.outbox_ended [OF inv one] by (simp add: recover_outbox_def)
next
  case True
  have bargain: "(may_cancel r \<longrightarrow> may_cancel (recover_data job now r)) \<and>
      (must_cancel (recover_data job now r) \<longrightarrow> must_cancel r)" if "r \<in> set (db_jobs db)" "P r" for r
    using row [OF that] True by (auto simp: recover_data_def Let_def recover_next_state_def
        may_cancel_def must_cancel_def)
  show ?thesis
    using True recover_w.outbox_same [OF inv bargain]
      recover_w.outbox_kept [OF inv bargain, where h = "redeliver_outbox_data now"]
    by (auto simp: recover_outbox_def same_delivery_def redeliver_outbox_data_def)
qed

lemma recover_data_sound:
  assumes "job_ok job" "j_state job = PROCESSING"
  shows "job_ok (recover_data job now (job\<lparr>j_dispatchStatus := d\<rparr>)) \<and>
    lifecycle_move PROCESSING (recover_next_state job) \<and> recover_next_state job \<noteq> PROCESSING"
  using assms by (auto simp: job_ok_def recover_data_def recover_next_state_def Let_def
      intro: lifecycle_move.transition)

lemma recover_body_sound:
  assumes body: "recover_body snap db ws jobId now audit = Inr (db1, b)"
    and inv: "db_inv db" and adv: "advanced snap db"
  shows "sound_step db db1"
proof (cases "find (\<lambda>r. j_id r = jobId \<and> expired_where now r \<and> j_workspaceId r = ws) (db_jobs snap)")
  case None
  with body inv show ?thesis by (simp add: recover_body_def)
next
  case (Some job)
  then have job: "job \<in> set (db_jobs snap)" by (blast dest: find_Some_iff2)
  show ?thesis
  proof (cases "j_leaseId job")
    case None
    with body Some inv show ?thesis by (simp add: recover_body_def)
  next
    case l: (Some l)
    let ?P = "\<lambda>r. j_id r = j_id job \<and> expired_where now r \<and> j_leaseId r = Some l \<and>
      j_version r = j_version job \<and> j_workspaceId r = ws"
    let ?PA = "\<lambda>a. at_leaseId a = l \<and> at_state a = A_ACTIVE"
    let ?jobs = "update_many ?P (recover_data job now) (db_jobs db)"
    have missed: "?jobs = db_jobs db" if "count_many ?P (db_jobs db) \<noteq> 1"
      using missed_row [OF db_inv_ids [OF inv] _ that] by blast
    have row: "j_state r = PROCESSING \<and> (\<exists>d. r = job\<lparr>j_dispatchStatus := d\<rparr>) \<and> job_ok job"
      if "r \<in> set (db_jobs db)" "?P r" for r
      using snapshot_row [OF inv adv job that(1)] that db_inv_job [OF inv that(1)]
      by (auto simp: expired_where_def job_ok_def)
    have written: "sound_step db db1"
      if one: "count_many ?P (db_jobs db) = 1" "count_many ?PA (db_attempts db) = 1"
        and db1: "db_jobs db1 = ?jobs"
          "db_attempts db1 = update_many ?PA (recover_attempt_data job now) (db_attempts db)"
          "db_outbox db1 = recover_outbox job now (db_outbox db)"
    proof (rule recover_w.release_write [OF inv db1(1) _ one db1(2), where i = "j_id job" and l = l])
      fix r assume r: "r \<in> set (db_jobs db)" "?P r"
      with row obtain d where d: "r = job\<lparr>j_dispatchStatus := d\<rparr>" "j_state job = PROCESSING" "job_ok job"
        by fastforce
      with r recover_data_sound [OF d(3,2)] show "j_id r = j_id job \<and> j_leaseId r = Some l \<and>
        j_state r = PROCESSING \<and> job_ok (recover_data job now r) \<and>
        lifecycle_move PROCESSING (j_state (recover_data job now r)) \<and>
        j_state (recover_data job now r) \<noteq> PROCESSING \<and>
        j_attemptCount (recover_data job now r) = j_attemptCount r"
        by (simp add: recover_data_def Let_def)
    next
      show "same_attempt a (recover_attempt_data job now a) \<and>
        at_state (recover_attempt_data job now a) \<noteq> A_ACTIVE" for a
        using settles_attempt_data(1) by (simp add: settles_def)
    qed (use recover_outbox_sound [OF inv one(1), of job] row db1 in simp_all)
    show ?thesis
    proof (cases "l = [] \<or> count_many ?P (db_jobs db) \<noteq> 1")
      case True
      with body Some l missed have "db1 = db"
        by (auto simp: recover_body_def Let_def split: if_splits option.splits)
      with inv show ?thesis by simp
    next
      case False
      with body Some l have "count_many ?PA (db_attempts db) = 1" "db_jobs db1 = ?jobs"
          "db_attempts db1 = update_many ?PA (recover_attempt_data job now) (db_attempts db)"
          "db_outbox db1 = recover_outbox job now (db_outbox db)"
        by (auto simp: recover_body_def Let_def split: if_splits option.splits)
      with False written show ?thesis by blast
    qed
  qed
qed

lemma recover_sound:
  assumes "recoverExpiredBackgroundJobLease snap db ws jobId now audit = (res, db')"
    and inv: "db_inv db" "advanced snap db"
  shows "sound_step db db'"
  using assms(1) inv(1) recover_body_sound [OF _ inv]
  by (auto simp: recoverExpiredBackgroundJobLease_def Let_def elim!: transaction_keeps split: if_splits)

section \<open>Settling an attempt\<close>

context job_write
begin

text \<open>A settlement: the lease named by the \<open>where\<close> of both writes ends.\<close>

lemma settle_sound:
  assumes inv: "db_inv db" and one: "count_many P (db_jobs db) = 1" "count_many PA (db_attempts db) = 1"
    and P: "\<And>r. r \<in> set (db_jobs db) \<Longrightarrow> P r \<Longrightarrow> j_id r = i \<and> j_leaseId r = Some l \<and> j_state r = PROCESSING"
    and PA: "\<And>a. PA a \<Longrightarrow> at_leaseId a = l \<and> at_state a = A_ACTIVE"
    and row: "\<And>r. r \<in> set (db_jobs db) \<Longrightarrow> P r \<Longrightarrow> job_ok r \<Longrightarrow> job_ok (f r) \<and>
      canTransitionJob PROCESSING (j_state (f r)) \<and> j_state (f r) \<noteq> PROCESSING \<and>
      j_attemptCount (f r) = j_attemptCount r"
    and db1: "db_jobs db1 = update_many P f (db_jobs db)"
      "db_attempts db1 = update_many PA h (db_attempts db)"
      "outbox_ok (update_many P f (db_jobs db)) (db_outbox db1)"
    and h: "settles h"
  shows "sound_step db db1"
proof (rule release_write [OF inv db1(1) _ one db1(2), where i = i and l = l])
  fix r assume r: "r \<in> set (db_jobs db)" "P r"
  with P [OF r] row [OF r] db_inv_job [OF inv r(1)]
  show "j_id r = i \<and> j_leaseId r = Some l \<and> j_state r = PROCESSING \<and> job_ok (f r) \<and>
    lifecycle_move PROCESSING (j_state (f r)) \<and> j_state (f r) \<noteq> PROCESSING \<and>
    j_attemptCount (f r) = j_attemptCount r"
    by (simp add: lifecycle_move.transition)
qed (use PA h db1 in \<open>auto simp: settles_def\<close>)

end

lemma cancel_check_sound:
  assumes body: "cancel_check_body snap db ws jobId l ts = Inr (db1, b)"
    and inv: "db_inv db"
  shows "sound_step db db1"
proof (cases "find (lease_where ws jobId l) (db_jobs snap)")
  case None
  with body show ?thesis by (simp add: cancel_check_body_def)
next
  case (Some job)
  let ?P = "\<lambda>r. j_cancellationRequestedAt r \<noteq> None \<and> lease_where ws (j_id job) l r \<and>
    j_version r = j_version job"
  let ?PA = "\<lambda>a. at_leaseId a = l \<and> at_state a = A_ACTIVE \<and> at_workspaceId a = ws"
  show ?thesis
  proof (cases "j_cancellationRequestedAt job = None")
    case True
    with body Some inv show ?thesis by (simp add: cancel_check_body_def)
  next
    case False
    with body Some have one: "count_many ?P (db_jobs db) = 1" "count_many ?PA (db_attempts db) = 1"
      and db1: "db_jobs db1 = update_many ?P (cancelled_data ts) (db_jobs db)"
        "db_attempts db1 = update_many ?PA (cancelled_attempt_data ts) (db_attempts db)"
        "db_outbox db1 = update_many (\<lambda>ob. ob_backgroundJobId ob = j_id job)
           (cancel_outbox_data ts) (db_outbox db)"
      by (auto simp: cancel_check_body_def Let_def simp del: not_None_eq split: if_splits)
    show ?thesis
    proof (rule cancelled_w.settle_sound [OF inv one _ _ _ db1(1,2), where i = "j_id job" and l = l])
      show "outbox_ok (update_many ?P (cancelled_data ts) (db_jobs db)) (db_outbox db1)"
        unfolding db1(3) using inv one(1) by (rule cancelled_w.outbox_ended)
          (auto simp: lease_where_def may_cancel_def cancelled_data_def)
    qed (auto simp: lease_where_def cancelled_data_def job_ok_def)
  qed
qed

lemma cancellation_sound:
  assumes "throwIfBackgroundJobCancellationRequested snap db ws jobId l ts = (res, db')"
    and inv: "db_inv db"
  shows "sound_step db db'"
proof -
  obtain x where "transaction ''JOB_CANCELLATION_CHECK_FAILED'' db (cancel_check_body snap db ws jobId l ts) = (x, db')"
    using assms(1) by (auto simp: throwIfBackgroundJobCancellationRequested_def
        split: prod.splits sum.splits)
  then show ?thesis by (rule transaction_keeps) (use inv cancel_check_sound [OF _ inv] in auto)
qed

lemma success_sound:
  assumes run: "commitJobSuccess db ws jobId l commit ts = (res, db')" and inv: "db_inv db"
  shows "sound_step db db'"
proof (cases res)
  case (Inl e)
  with run have "db' = db" by (auto simp: commitJobSuccess_def dest: transaction_Inl split: option.splits)
  with inv show ?thesis by simp
next
  case (Inr u)
  let ?P = "settle_where ws jobId l" and ?PA = "\<lambda>a. at_leaseId a = l \<and> at_state a = A_ACTIVE"
  from run Inr have one: "count_many ?P (db_jobs db) = 1" "count_many ?PA (db_attempts db) = 1"
    and db1: "db_jobs db' = update_many ?P (success_data ts) (db_jobs db)"
      "db_attempts db' = update_many ?PA (success_attempt_data ts) (db_attempts db)"
      "db_outbox db' = db_outbox db"
    by (auto simp: commitJobSuccess_def transaction_Inr Let_def split: option.splits sum.splits if_splits)
  show ?thesis
  proof (rule success_w.settle_sound [OF inv one _ _ _ db1(1,2), where i = jobId and l = l])
    show "outbox_ok (update_many ?P (success_data ts) (db_jobs db)) (db_outbox db')"
      unfolding db1(3) using inv by (rule success_w.outbox_same)
        (auto simp: settle_where_def may_cancel_def must_cancel_def success_data_def)
  qed (auto simp: settle_where_def lease_where_def success_data_def job_ok_def)
qed

text \<open>The settlement of a failure is sound when a retry leaves an attempt to make.\<close>

lemma failure_sound:
  assumes run: "commitJobFailure db ws jobId l f d ts = (res, db')" and inv: "db_inv db"
    and budget: "\<And>r x t. r \<in> set (db_jobs db) \<Longrightarrow> lease_where ws jobId l r \<Longrightarrow> d = Retry x t \<Longrightarrow>
      j_attemptCount r < j_maxAttempts r"
  shows "sound_step db db'"
proof (cases res)
  case (Inl e)
  with run have "db' = db" by (auto simp: commitJobFailure_def dest: transaction_Inl split: option.splits)
  with inv show ?thesis by simp
next
  case (Inr u)
  let ?P = "settle_where ws jobId l" and ?PA = "\<lambda>a. at_leaseId a = l \<and> at_state a = A_ACTIVE"
  from run Inr have one: "count_many ?P (db_jobs db) = 1" "count_many ?PA (db_attempts db) = 1"
    and db1: "db_jobs db' = update_many ?P (failure_data f d ts) (db_jobs db)"
      "db_attempts db' = update_many ?PA (failure_attempt_data f d ts) (db_attempts db)"
      "db_outbox db' = db_outbox db"
    by (auto simp: commitJobFailure_def transaction_Inr Let_def split: option.splits if_splits)
  show ?thesis
  proof (rule failure_w.settle_sound [OF inv one _ _ _ db1(1,2), where i = jobId and l = l])
    show "outbox_ok (update_many ?P (failure_data f d ts) (db_jobs db)) (db_outbox db')"
      unfolding db1(3) using inv by (rule failure_w.outbox_same)
        (auto simp: settle_where_def lease_where_def may_cancel_def must_cancel_def failure_data_def)
    fix r assume "r \<in> set (db_jobs db)" "?P r" "job_ok r"
    with budget [of r] show "job_ok (failure_data f d ts r) \<and>
      canTransitionJob PROCESSING (j_state (failure_data f d ts r)) \<and>
      j_state (failure_data f d ts r) \<noteq> PROCESSING \<and>
      j_attemptCount (failure_data f d ts r) = j_attemptCount r"
      by (cases d) (auto simp: settle_where_def lease_where_def failure_data_def job_ok_def
          decision_state_def decision_next_def)
  qed (auto simp: settle_where_def lease_where_def)
qed

section \<open>Enqueueing\<close>

lemma validateEnqueue_ok:
  assumes "validateEnqueue lib i = None"
  shows "1 \<le> num_int (coalesce (ei_maxAttempts i) (jint 8)) \<and> num_int (coalesce (ei_maxAttempts i) (jint 8)) \<le> 100"
    and "1 \<le> num_int (ei_handlerVersion i) \<and> num_int (ei_handlerVersion i) \<le> maxSafe"
    and "isQueueName (ei_queueName i)"
  using assms
  by (auto simp: validateEnqueue_def Let_def isSafeInteger_iff not_less split: if_splits)

lemma new_job_ok:
  assumes "validateEnqueue lib i = None" "uuid_pattern (ei_correlationId i)"
  shows "job_ok (new_job ws i jobId dbNow)"
proof -
  have "uuid_pattern (map lower_char (ei_correlationId i))" using assms(2) uuid_pattern_lower by blast
  moreover have "map lower_char (map lower_char s) = map lower_char s" for s
    by (simp add: lower_char_idem)
  ultimately have "deliverable (ei_queueName i) (num_int (ei_handlerVersion i)) (map lower_char (ei_correlationId i))"
    using validateEnqueue_ok(2,3) [OF assms(1)] parseCorrelationId_fixed unfolding deliverable_def by metis
  then show ?thesis using validateEnqueue_ok(1) [OF assms(1)] by (simp add: job_ok_def new_job_def)
qed

lemma new_outbox_delivers: "\<not> may_cancel j \<Longrightarrow> delivers j (new_outbox j oid due dbNow)"
  by (auto simp: delivers_def new_outbox_def may_cancel_def must_cancel_def)

lemma outbox_row: "db_inv db \<Longrightarrow> r \<in> set (db_jobs db) \<Longrightarrow> \<exists>ob \<in> set (db_outbox db). delivers r ob"
  by (simp add: db_inv_def outbox_ok_def)

lemma progress_grow:
  "set (db_jobs db) \<subseteq> set (db_jobs db') \<Longrightarrow> set (db_attempts db) \<subseteq> set (db_attempts db') \<Longrightarrow> progress db db'"
  unfolding progress_def using row_step_refl same_attempt_refl by blast

lemma enqueue_body_cases:
  assumes "enqueueBackgroundJobInTransaction lib db ws i jobId outboxId dbNow = Inr (db1, r)"
    and inv: "db_inv db"
  obtains (existing) job where "job \<in> set (db_jobs db)" "same_job_key (new_job ws i jobId dbNow) job"
      "\<not> idempotency_conflict i jobId job" "db1 = db"
      "er_jobId r = j_id job" "er_created r = (j_id job = jobId)"
    | (created) "job_ok (new_job ws i jobId dbNow)" "jobId \<notin> j_id ` set (db_jobs db)"
      "\<forall>j \<in> set (db_jobs db). \<not> same_job_key j (new_job ws i jobId dbNow)"
      "er_jobId r = jobId" "er_created r"
      "db1 = db\<lparr>db_jobs := db_jobs db @ [new_job ws i jobId dbNow],
         db_outbox := insert_outbox (new_outbox (new_job ws i jobId dbNow) outboxId dbNow dbNow) (db_outbox db)\<rparr>"
proof -
  let ?new = "new_job ws i jobId dbNow"
  have id: "j_id ?new = jobId" by (simp add: new_job_def)
  from assms(1) obtain job where job: "find (same_job_key ?new) (insert_job ?new (db_jobs db)) = Some job"
      "\<not> idempotency_conflict i jobId job"
    and v: "validateEnqueue lib i = None" "uuid_pattern (ei_correlationId i)"
    and db1: "db1 = db\<lparr>db_jobs := insert_job ?new (db_jobs db),
      db_outbox := insert_outbox (new_outbox job outboxId dbNow dbNow) (db_outbox db)\<rparr>"
    and r: "er_jobId r = j_id job" "er_created r = (j_id job = jobId)"
    by (auto simp: enqueueBackgroundJobInTransaction_def Let_def split: option.splits if_splits)
  from find_Some_iff2 [OF job(1)] have key: "job \<in> set (insert_job ?new (db_jobs db))" "same_job_key ?new job"
    by auto
  show thesis
  proof (cases "\<exists>q \<in> set (db_jobs db). j_id q = jobId \<or> same_job_key q ?new")
    case True
    then have same: "insert_job ?new (db_jobs db) = db_jobs db" by (auto simp: insert_job_def id)
    with key outbox_row [OF inv] have "\<exists>ob \<in> set (db_outbox db). ob_backgroundJobId ob = j_id job"
      by (auto simp: delivers_def)
    then have "insert_outbox (new_outbox job outboxId dbNow dbNow) (db_outbox db) = db_outbox db"
      by (auto simp: insert_outbox_def new_outbox_def)
    with same db1 key job(2) r show thesis by (intro existing [of job]) auto
  next
    case False
    then have ins: "insert_job ?new (db_jobs db) = db_jobs db @ [?new]" by (auto simp: insert_job_def id)
    with False key have "job = ?new" by (auto simp: same_job_key_def)
    with ins db1 False new_job_ok [OF v] r id show thesis by (intro created) auto
  qed
qed

lemma enqueue_body_sound:
  assumes body: "enqueueBackgroundJobInTransaction lib db ws i jobId outboxId dbNow = Inr (db1, r)"
    and inv: "db_inv db" and fresh: "outboxId \<notin> ob_id ` set (db_outbox db)"
  shows "sound_step db db1"
  using body inv
proof (cases rule: enqueue_body_cases)
  case existing
  with inv show ?thesis by simp
next
  case created
  let ?new = "new_job ws i jobId dbNow"
  let ?ob = "new_outbox ?new outboxId dbNow dbNow"
  have new: "j_id ?new = jobId" "j_state ?new = QUEUED" "\<not> may_cancel ?new"
    by (simp_all add: new_job_def may_cancel_def)
  have none: "j_id ?new \<notin> j_id ` set (db_jobs db)" using created new by simp
  have "ob_backgroundJobId x \<noteq> jobId" if "x \<in> set (db_outbox db)" for x
  proof -
    from inv that obtain k where "k \<in> set (db_jobs db)" "delivers k x" by (auto simp: db_inv_def outbox_ok_def)
    with created(2) show ?thesis by (metis delivers_def imageI)
  qed
  then have ins: "insert_outbox ?ob (db_outbox db) = db_outbox db @ [?ob]"
    using fresh new by (auto simp: insert_outbox_def new_outbox_def)
  have "leases_ok (db_jobs db @ [?new]) (db_attempts db)"
    by (rule leases_ok_insert) (use inv none new in \<open>simp_all add: db_inv_def\<close>)
  moreover have "outbox_ok (db_jobs db @ [?new]) (db_outbox db @ [?ob])"
    by (rule outbox_ok_insert) (use inv none fresh new_outbox_delivers [OF new(3)] in
        \<open>simp_all add: db_inv_def new_outbox_def\<close>)
  moreover have "\<forall>j \<in> set (db_jobs db @ [?new]). job_ok j"
    using inv created(1) by (simp add: db_inv_def)
  ultimately have "db_inv db1" using created(6) ins by (simp add: db_inv_def)
  moreover have "progress db db1"
    by (rule progress_grow) (auto simp: created(6))
  ultimately show ?thesis by simp
qed

lemma enqueue_sound:
  assumes "enqueueBackgroundJob lib db ws i jobId outboxId dbNow = (res, db')"
    and inv: "db_inv db" "outboxId \<notin> ob_id ` set (db_outbox db)"
  shows "sound_step db db'"
  using assms(1) inv(1) enqueue_body_sound [OF _ inv]
  unfolding enqueueBackgroundJob_def by (auto elim!: transaction_keeps)

section \<open>The dispatcher\<close>

text \<open>Writes of the outbox alone that neither cancel nor revive a row.\<close>

definition keeps_delivery :: "(outbox \<Rightarrow> outbox) \<Rightarrow> bool" where
  "keeps_delivery h \<longleftrightarrow> (\<forall>ob. same_delivery ob (h ob) \<and>
     (ob_cancelledAt (h ob) = None \<longleftrightarrow> ob_cancelledAt ob = None))"

lemma keeps_delivery_data [simp]:
  "keeps_delivery (lease_outbox_data l t)" "keeps_delivery (release_outbox_data c t)"
  "keeps_delivery (dispatched_data did t)"
  by (simp_all add: keeps_delivery_def same_delivery_def lease_outbox_data_def
      release_outbox_data_def dispatched_data_def)

lemma outbox_write_sound:
  assumes "db_inv db" "keeps_delivery h" "db_outbox db' = update_many Q h (db_outbox db)"
    "db_jobs db' = db_jobs db" "db_attempts db' = db_attempts db"
  shows "sound_step db db'"
proof -
  have "outbox_ok (map (\<lambda>j. j) (db_jobs db)) (update_many Q h (db_outbox db))"
    unfolding update_many_def by (rule outbox_ok_keep) (use assms in \<open>simp_all add: db_inv_def keeps_delivery_def\<close>)
  with assms show ?thesis using progress_same_tables by (auto simp: db_inv_def)
qed

lemma lease_outbox_sound:
  assumes "leasePendingOutbox locked db now d batch l = (records, db')" "db_inv db"
  shows "sound_step db db'"
proof -
  from assms(1) obtain Q where Q:
    "db_outbox db' = update_many Q (lease_outbox_data l (now + d)) (db_outbox db)"
    "db_jobs db' = db_jobs db" "db_attempts db' = db_attempts db"
    by (auto simp: leasePendingOutbox_def Let_def)
  show ?thesis using assms(2) keeps_delivery_data(1) Q by (rule outbox_write_sound)
qed

lemma release_outbox_sound: "db_inv db \<Longrightarrow> sound_step db (releaseOutbox db r e now delay)"
  using outbox_write_sound [of db, OF _ keeps_delivery_data(2)] by (simp add: releaseOutbox_def)

text \<open>Only the dispatch status of a job changes, so its version need not.\<close>

lemma job_ok_dispatch [simp]: "job_ok (j\<lparr>j_dispatchStatus := s\<rparr>) = job_ok j"
  by (simp add: job_ok_def)

lemma dispatch_status_sound:
  assumes inv: "db_inv db" and h: "keeps_delivery h"
    and db': "db_outbox db' = update_many Q h (db_outbox db)"
      "db_jobs db' = update_many PJ (\<lambda>j. j\<lparr>j_dispatchStatus := s\<rparr>) (db_jobs db)"
      "db_attempts db' = db_attempts db"
  shows "sound_step db db'"
proof -
  let ?g = "\<lambda>j. if PJ j then j\<lparr>j_dispatchStatus := s\<rparr> else j"
  have jobs: "db_jobs db' = map ?g (db_jobs db)" using db' by (simp add: update_many_def)
  have ok: "\<forall>j \<in> set (db_jobs db). job_ok j" "leases_ok (db_jobs db) (db_attempts db)"
    "outbox_ok (db_jobs db) (db_outbox db)" using inv by (simp_all add: db_inv_def)
  have "\<forall>j \<in> set (db_jobs db'). job_ok j"
    unfolding db'(2) ball_update_many using ok(1) by simp
  moreover have "leases_ok (map ?g (db_jobs db)) (map (\<lambda>a. a) (db_attempts db))"
    using ok(2) by (rule leases_ok_views) (simp_all add: lease_view_def)
  moreover have "outbox_ok (map ?g (db_jobs db)) (update_many Q h (db_outbox db))"
    unfolding update_many_def using ok(3) by (rule outbox_ok_keep)
      (use h in \<open>simp_all add: keeps_delivery_def same_identity_def may_cancel_def must_cancel_def\<close>)
  ultimately have "db_inv db'" using db' jobs by (simp add: db_inv_def)
  moreover have "row_step (leases db) r (r\<lparr>j_dispatchStatus := s\<rparr>)" for r
    by (auto simp: row_step_def same_identity_def newer_def lifecycle_move.stay)
  then have "row_step (leases db) r (?g r)" for r by simp
  then have "\<forall>r \<in> set (db_jobs db). \<exists>r' \<in> set (db_jobs db'). row_step (leases db) r r'"
    unfolding jobs set_map by blast
  then have "progress db db'" unfolding progress_def db'(3) using same_attempt_refl by blast
  ultimately show ?thesis by simp
qed

lemma mark_dispatched_sound:
  assumes "markOutboxDispatched db r did now = (res, db')" and inv: "db_inv db"
  shows "sound_step db db'"
proof (cases res)
  case (Inl e)
  with assms have "db' = db" unfolding markOutboxDispatched_def by (metis transaction_Inl)
  with inv show ?thesis by simp
next
  case (Inr u)
  let ?PJ = "\<lambda>j. j_id j = ob_backgroundJobId r"
  from assms(1) Inr have out: "db_outbox db' = update_many (outbox_held r) (dispatched_data did now) (db_outbox db)"
    and att: "db_attempts db' = db_attempts db"
    and jobs: "db_jobs db' = db_jobs db \<or>
      db_jobs db' = update_many ?PJ (\<lambda>j. j\<lparr>j_dispatchStatus := D_DISPATCHED\<rparr>) (db_jobs db)"
    by (auto simp: markOutboxDispatched_def transaction_Inr Let_def split: if_splits)
  from jobs show ?thesis
    using outbox_write_sound [OF inv keeps_delivery_data(3) out _ att]
      dispatch_status_sound [OF inv keeps_delivery_data(3) out _ att] by blast
qed

section \<open>Operator requests\<close>

lemma unleased: "job_ok r \<Longrightarrow> j_state r \<noteq> PROCESSING \<Longrightarrow> j_leaseId r = None"
  by (simp add: job_ok_def)

lemma uncancelled: "job_ok r \<Longrightarrow> j_state r \<notin> {PROCESSING, CANCELLED} \<Longrightarrow> j_cancellationRequestedAt r = None"
  by (auto simp: job_ok_def)

text \<open>A request that only leaves an audit event.\<close>

lemma audit_after:
  assumes "auditAndReturn actor p opn r db1 = Inr (db2, x)" "sound_step db db1"
  shows "sound_step db db2"
  using assms by (auto simp: auditAndReturn_def db_inv_def progress_def)

lemma audited_act:
  assumes "(case act of Inl e \<Rightarrow> Inl e | Inr (db1, r) \<Rightarrow> auditAndReturn actor p opn r db1) = Inr (db2, x)"
    and "\<And>db1 r. act = Inr (db1, r) \<Longrightarrow> sound_step db db1"
  shows "sound_step db db2"
proof -
  from assms(1) obtain db1 r where "act = Inr (db1, r)" "auditAndReturn actor p opn r db1 = Inr (db2, x)"
    by (auto split: sum.splits prod.splits)
  with assms(2) audit_after show ?thesis by blast
qed

lemma guarded_sound:
  assumes body: "guarded_operation snap db p opn now act = Inr (db1, r)" and inv: "db_inv db"
    and act: "\<And>actor job db1 r. job \<in> set (db_jobs snap) \<Longrightarrow> act actor job = Inr (db1, r) \<Longrightarrow> sound_step db db1"
  shows "sound_step db db1"
proof -
  have audit: "sound_step db db1" if "auditAndReturn actor p opn x db = Inr (db1, r)" for actor x
    using audit_after [OF that, of db] inv by simp
  consider "db1 = db" | actor x where "auditAndReturn actor p opn x db = Inr (db1, r)"
    | actor job where "job \<in> set (db_jobs snap)" "act actor job = Inr (db1, r)"
    using body by (auto simp: guarded_operation_def dest!: find_job_SomeD
        split: operation_guard.splits option.splits if_splits)
  then show ?thesis
  proof cases
    case 1
    with inv show ?thesis by simp
  qed (fact audit, fact act)
qed

context job_write
begin

lemma cancel_write_sound:
  assumes run: "cancel_write P f job ok now db = (db1, r)" and inv: "db_inv db"
    and P: "\<And>r. r \<in> set (db_jobs db) \<Longrightarrow> P r \<Longrightarrow> j_id r = j_id job \<and> job_ok (f r) \<and>
      lifecycle_move (j_state r) (j_state (f r)) \<and> lease_view (f r) = lease_view r \<and>
      (j_leaseId r \<noteq> None \<longrightarrow> j_maxAttempts (f r) = j_maxAttempts r) \<and> may_cancel (f r)"
  shows "sound_step db db1"
proof (cases "count_many P (db_jobs db) = 1")
  case False
  have "update_many P f (db_jobs db) = db_jobs db"
    using missed_row [OF db_inv_ids [OF inv] _ False] P by blast
  with run False inv show ?thesis by (auto simp: cancel_write_def Let_def)
next
  case True
  with run have db1: "db_jobs db1 = update_many P f (db_jobs db)" "db_attempts db1 = db_attempts db"
    "db_outbox db1 = cancelOutbox (j_id job) now (db_outbox db)"
    by (auto simp: cancel_write_def Let_def)
  have "outbox_ok (update_many P f (db_jobs db)) (db_outbox db1)"
    unfolding db1(3) cancelOutbox_def using outbox_ended [OF inv True] P by blast
  then show ?thesis using P by (intro row_write [OF inv db1(1,2)]) blast+
qed

end

lemma cancel_job_sound:
  assumes body: "cancel_job db p now job = Inr (db1, r)" and inv: "db_inv db"
    and adv: "advanced snap db" and job: "job \<in> set (db_jobs snap)"
  shows "sound_step db db1"
proof -
  have ok: "job_ok x" if "x \<in> set (db_jobs db)" for x using db_inv_job [OF inv that] .
  consider "db1 = db"
    | (waiting) "j_state job = QUEUED \<or> j_state job = RETRY_SCHEDULED" "cancel_write
        (\<lambda>r. j_id r = j_id job \<and> j_state r = j_state job \<and> j_version r = j_version job)
        (cancel_data (pp_reasonCode p) now) job (OP_CANCELLED, pp_reasonCode p) now db = (db1, r)"
    | (processing) "cancel_write (\<lambda>r. j_cancellationRequestedAt r = None \<and> j_id r = j_id job \<and>
        j_leaseId r = j_leaseId job \<and> j_stage r = j_stage job \<and> j_state r = PROCESSING \<and>
        j_version r = j_version job) (cancel_request_data (pp_reasonCode p) now) job
        (OP_CANCELLATION_REQUESTED, pp_reasonCode p) now db = (db1, r)"
    using body by (auto simp: cancel_job_def split: if_splits option.splits)
  then show ?thesis
  proof cases
    case waiting
    show ?thesis
      by (rule cancel_w.cancel_write_sound [OF waiting(2) inv], insert waiting(1), drule ok)
        (auto simp: state_rules cancel_data_def intro: lifecycle_move.transition)
  next
    case processing
    show ?thesis
      by (rule cancel_request_w.cancel_write_sound [OF processing inv], drule ok)
        (auto simp: state_rules cancel_request_data_def intro: lifecycle_move.stay)
  qed (use inv in simp)
qed

lemma cancel_sound:
  assumes run: "cancelBackgroundJob lib snap db c who jobId reason now = (res, db')"
    and inv: "db_inv db" and adv: "advanced snap db"
  shows "sound_step db db'"
proof (cases "prepareOperation lib c who jobId reason now")
  case (Inl e)
  with run inv show ?thesis by (simp add: cancelBackgroundJob_def)
next
  case (Inr p)
  let ?act = "\<lambda>actor job. case cancel_job db p now job of Inl e \<Rightarrow> Inl e
    | Inr (db1, r) \<Rightarrow> auditAndReturn actor p Job_cancel r db1"
  have act: "sound_step db db1" if "job \<in> set (db_jobs snap)" "?act actor job = Inr (db1, r)"
    for actor job db1 r
    using that(2) cancel_job_sound [OF _ inv adv that(1)] by (rule audited_act)
  have "bare_transaction db (guarded_operation snap db p Job_cancel now ?act) = (res, db')"
    using run Inr by (simp add: cancelBackgroundJob_def)
  then show ?thesis
  proof (rule bare_transaction_keeps)
    fix db1 x assume "guarded_operation snap db p Job_cancel now ?act = Inr (db1, x)"
    then show "sound_step db db1" using inv act by (rule guarded_sound)
  qed (use inv in simp)
qed

context job_write
begin

text \<open>A guarded write of a waiting job whose delivery starts again.\<close>

lemma restart_sound:
  assumes inv: "db_inv db" and one: "count_many P (db_jobs db) = 1"
    and P: "\<And>r. r \<in> set (db_jobs db) \<Longrightarrow> P r \<Longrightarrow> job_ok r \<Longrightarrow> j_id r = j_id job \<and>
      j_state r \<noteq> PROCESSING \<and> job_ok (f r) \<and> j_state (f r) = QUEUED \<and> lifecycle_move (j_state r) QUEUED"
    and f: "\<And>r. j_attemptCount (f r) = j_attemptCount r"
    and db1: "db_jobs db1 = update_many P f (db_jobs db)" "db_attempts db1 = db_attempts db"
      "db_outbox db1 = upsert_outbox job now oid due dbNow (db_outbox db)"
  shows "sound_step db db1"
proof (rule row_write [OF inv db1(1,2)])
  fix r assume r: "r \<in> set (db_jobs db)" "P r"
  have ok: "job_ok r" using db_inv_job [OF inv r(1)] .
  note pr = P [OF r ok]
  have "j_leaseId r = None" "j_leaseId (f r) = None" using pr ok unleased by auto
  with pr f [of r] identity [of r]
  show "job_ok (f r) \<and> lifecycle_move (j_state r) (j_state (f r)) \<and> lease_view (f r) = lease_view r \<and>
      (j_leaseId r \<noteq> None \<longrightarrow> j_maxAttempts (f r) = j_maxAttempts r)"
    by (simp add: lease_view_def same_identity_def)
next
  have "j_id r = j_id job \<and> \<not> must_cancel (f r)" if "r \<in> set (db_jobs db)" "P r" for r
    using P [OF that db_inv_job [OF inv that(1)]] uncancelled [of "f r"] by (simp add: must_cancel_def)
  then show "outbox_ok (update_many P f (db_jobs db)) (db_outbox db1)"
    unfolding db1(3) by (rule outbox_restarted [OF inv one])
qed

end

lemma retry_job_cases:
  assumes "retry_job re ck snap db p now oid dbNow job = Inr (db1, r)"
    and P: "P = (\<lambda>r. j_id r = j_id job \<and> j_state r = FAILED_ATTENTION \<and> j_version r = j_version job)"
    and m: "m = max (j_maxAttempts job) (j_attemptCount job + 1)"
  obtains "db1 = db"
    | "db1 = db\<lparr>db_jobs := update_many P (manual_retry_data m now) (db_jobs db)\<rparr>" "count_many P (db_jobs db) \<noteq> 1"
    | (queued) "m \<le> 100" "count_many P (db_jobs db) = 1"
      "db_jobs db1 = update_many P (manual_retry_data m now) (db_jobs db)"
      "db_attempts db1 = db_attempts db"
      "db_outbox db1 = upsert_outbox job now oid dbNow dbNow (db_outbox db)"
proof -
  let ?done = "db1 = db \<or> (db1 = db\<lparr>db_jobs := update_many P (manual_retry_data m now) (db_jobs db)\<rparr> \<and>
      count_many P (db_jobs db) \<noteq> 1) \<or>
    (m \<le> 100 \<and> count_many P (db_jobs db) = 1 \<and>
      db_jobs db1 = update_many P (manual_retry_data m now) (db_jobs db) \<and>
      db_attempts db1 = db_attempts db \<and>
      db_outbox db1 = upsert_outbox job now oid dbNow dbNow (db_outbox db))"
  obtain ok reason where ck: "ck (db_results snap) job = (ok, reason)" by (cases "ck (db_results snap) job")
  have ?done
    using assms(1) unfolding retry_job_def Let_def P [symmetric] m [symmetric] ck
    by (cases ok) (simp_all split: if_split_asm, auto)
  with that show thesis by blast
qed

lemma retry_job_sound:
  assumes body: "retry_job re ck snap db p now oid dbNow job = Inr (db1, r)" and inv: "db_inv db"
    and adv: "advanced snap db" and job: "job \<in> set (db_jobs snap)"
  shows "sound_step db db1"
proof -
  let ?P = "\<lambda>r. j_id r = j_id job \<and> j_state r = FAILED_ATTENTION \<and> j_version r = j_version job"
  let ?m = "max (j_maxAttempts job) (j_attemptCount job + 1)"
  have missed: "update_many ?P f (db_jobs db) = db_jobs db" if "count_many ?P (db_jobs db) \<noteq> 1" for f
    using missed_row [OF db_inv_ids [OF inv] _ that] by blast
  show ?thesis
    using body refl refl
  proof (cases rule: retry_job_cases)
    case queued
    show ?thesis
    proof (rule manual_retry_w.restart_sound [OF inv queued(2) _ _ queued(3-5)])
      fix r assume r: "r \<in> set (db_jobs db)" "?P r" "job_ok r"
      with snapshot_row [OF inv adv job r(1)] obtain d where "r = job\<lparr>j_dispatchStatus := d\<rparr>" by blast
      with r queued(1)
      show "j_id r = j_id job \<and> j_state r \<noteq> PROCESSING \<and> job_ok (manual_retry_data ?m now r) \<and>
        j_state (manual_retry_data ?m now r) = QUEUED \<and> lifecycle_move (j_state r) QUEUED"
        by (auto simp: job_ok_def manual_retry_data_def intro: lifecycle_move.transition)
    qed (simp add: manual_retry_data_def)
  qed (use inv missed in simp_all)
qed

lemma retry_sound:
  assumes run: "retryBackgroundJob lib re ck snap db c who jobId reason now oid dbNow = (res, db')"
    and inv: "db_inv db" and adv: "advanced snap db"
  shows "sound_step db db'"
proof (cases "prepareOperation lib c who jobId reason now")
  case (Inl e)
  with run inv show ?thesis by (simp add: retryBackgroundJob_def)
next
  case (Inr p)
  let ?act = "\<lambda>actor job. case retry_job re ck snap db p now oid dbNow job of Inl e \<Rightarrow> Inl e
    | Inr (db1, r) \<Rightarrow> auditAndReturn actor p Job_retry r db1"
  have act: "sound_step db db1" if "job \<in> set (db_jobs snap)" "?act actor job = Inr (db1, r)"
    for actor job db1 r
    using that(2) retry_job_sound [OF _ inv adv that(1)] by (rule audited_act)
  have "bare_transaction db (guarded_operation snap db p Job_retry now ?act) = (res, db')"
    using run Inr by (simp add: retryBackgroundJob_def)
  then show ?thesis
  proof (rule bare_transaction_keeps)
    fix db1 x assume "guarded_operation snap db p Job_retry now ?act = Inr (db1, x)"
    then show "sound_step db db1" using inv act by (rule guarded_sound)
  qed (use inv in simp)
qed

section \<open>Repairs\<close>

lemma job_audit_sound: "sound_step db db1 \<Longrightarrow> sound_step db (job_audit c ws i x y now db1)"
  by (auto simp: job_audit_def add_audit_def db_inv_def progress_def)

lemma due_retry_sound:
  assumes run: "requeueDueRetry snap db jobId ws c now oid dbNow = (res, db')" and inv: "db_inv db"
  shows "sound_step db db'"
proof (cases "find (\<lambda>r. j_id r = jobId \<and> due_retry_where now r \<and> j_workspaceId r = ws) (db_jobs snap)")
  case None
  with run inv show ?thesis by (auto simp: requeueDueRetry_def bare_transaction_def split: if_splits)
next
  case (Some job)
  let ?P = "\<lambda>r. j_id r = j_id job \<and> due_retry_where now r \<and> j_version r = j_version job"
  let ?db = "db\<lparr>db_jobs := update_many ?P (requeue_data now) (db_jobs db),
    db_outbox := resetOutbox job now oid dbNow (db_outbox db)\<rparr>"
  show ?thesis
  proof (cases "count_many ?P (db_jobs db) = 1")
    case False
    have "update_many ?P (requeue_data now) (db_jobs db) = db_jobs db"
      using missed_row [OF db_inv_ids [OF inv] _ False] by blast
    with run Some False inv show ?thesis
      by (auto simp: requeueDueRetry_def bare_transaction_def Let_def split: if_splits)
  next
    case True
    have "sound_step db ?db"
    proof (rule requeue_w.restart_sound [OF inv True])
      fix r assume "r \<in> set (db_jobs db)" "?P r" "job_ok r"
      then show "j_id r = j_id job \<and> j_state r \<noteq> PROCESSING \<and> job_ok (requeue_data now r) \<and>
        j_state (requeue_data now r) = QUEUED \<and> lifecycle_move (j_state r) QUEUED"
        by (auto simp: job_ok_def requeue_data_def due_retry_where_def intro: lifecycle_move.transition)
    qed (simp_all add: requeue_data_def resetOutbox_def)
    then have "sound_step db (job_audit c ws (j_id job) REPAIRED ''RETRY_DUE_REQUEUED'' now ?db)"
      by (rule job_audit_sound)
    with run Some True inv show ?thesis
      by (simp add: requeueDueRetry_def bare_transaction_def split: if_splits)
  qed
qed

lemma stranded_sound:
  assumes run: "requeueStrandedDelivery snap db jobId ws c now oid dbNow = (res, db')"
    and inv: "db_inv db" and adv: "advanced snap db"
  shows "sound_step db db'"
proof (cases "find (\<lambda>r. j_id r = jobId \<and> j_leaseId r = None \<and>
                     (case outbox_of (j_id r) (db_outbox snap) of
                        None \<Rightarrow> False
                      | Some ob \<Rightarrow> ob_cancelledAt ob = None \<and> ob_dispatchedAt ob \<noteq> None) \<and>
                     j_state r = QUEUED \<and> j_workspaceId r = ws) (db_jobs snap)")
  case None
  with run inv show ?thesis
    by (auto simp: requeueStrandedDelivery_def bare_transaction_def split: if_splits)
next
  case (Some job)
  let ?P = "\<lambda>r. j_id r = j_id job \<and> j_version r = j_version job \<and> j_workspaceId r = ws"
  let ?db = "db\<lparr>db_jobs := update_many ?P redispatch_data (db_jobs db),
    db_outbox := resetOutbox job now oid dbNow (db_outbox db)\<rparr>"
  have job: "job \<in> set (db_jobs snap)" "j_state job = QUEUED" using find_Some_iff2 [OF Some] by auto
  show ?thesis
  proof (cases "count_many ?P (db_jobs db) = 1")
    case False
    have "update_many ?P redispatch_data (db_jobs db) = db_jobs db"
      using missed_row [OF db_inv_ids [OF inv] _ False] by blast
    with run Some False inv show ?thesis
      by (auto simp: requeueStrandedDelivery_def bare_transaction_def Let_def split: if_splits)
  next
    case True
    have "sound_step db ?db"
    proof (rule redispatch_w.restart_sound [OF inv True])
      fix r assume r: "r \<in> set (db_jobs db)" "?P r" "job_ok r"
      with snapshot_row [OF inv adv job(1) r(1)] obtain d where "r = job\<lparr>j_dispatchStatus := d\<rparr>" by blast
      with r job(2) show "j_id r = j_id job \<and> j_state r \<noteq> PROCESSING \<and> job_ok (redispatch_data r) \<and>
        j_state (redispatch_data r) = QUEUED \<and> lifecycle_move (j_state r) QUEUED"
        by (auto simp: job_ok_def redispatch_data_def intro: lifecycle_move.stay)
    qed (simp_all add: redispatch_data_def resetOutbox_def)
    then have "sound_step db (job_audit c ws (j_id job) REPAIRED ''STRANDED_DELIVERY_REQUEUED'' now ?db)"
      by (rule job_audit_sound)
    with run Some True inv show ?thesis
      by (simp add: requeueStrandedDelivery_def bare_transaction_def split: if_splits)
  qed
qed

text \<open>Under the invariant no outbox row is missing, and the repair of one finds nothing to do.\<close>

lemma missing_outbox_sound:
  assumes run: "repairMissingOutbox snap db jobId ws c now oid dbNow = (res, db')"
    and inv: "db_inv db" and adv: "advanced snap db"
  shows "db' = db"
proof (cases "find (\<lambda>r. j_id r = jobId \<and> outbox_of (j_id r) (db_outbox snap) = None \<and>
                     j_state r = QUEUED \<and> j_workspaceId r = ws) (db_jobs snap)")
  case None
  with run show ?thesis by (auto simp: repairMissingOutbox_def bare_transaction_def split: if_splits)
next
  case (Some job)
  with adv find_Some_iff2 [OF Some] obtain r where "r \<in> set (db_jobs db)" "j_id r = j_id job"
    by (auto simp: advanced_def same_identity_def)
  with outbox_row [OF inv] have "\<exists>ob \<in> set (db_outbox db). ob_id ob = oid \<or> ob_backgroundJobId ob = j_id job"
    unfolding delivers_def by metis
  with run Some show ?thesis
    by (auto simp: repairMissingOutbox_def bare_transaction_def Let_def split: if_splits)
qed

lemma flag_sound:
  assumes run: "flagAmbiguousJob db jobId ws c reason now = (res, db')" and inv: "db_inv db"
  shows "sound_step db db'"
proof -
  let ?P = "\<lambda>r. j_id r = jobId \<and> j_reconciliationCode r \<noteq> Some reason \<and> j_workspaceId r = ws"
  let ?db = "db\<lparr>db_jobs := update_many ?P (flag_data reason now) (db_jobs db)\<rparr>"
  have "outbox_ok (update_many ?P (flag_data reason now) (db_jobs db)) (db_outbox db)"
    using inv by (rule flag_w.outbox_same) (simp add: may_cancel_def must_cancel_def flag_data_def)
  moreover have "job_ok (flag_data reason now r) \<longleftrightarrow> job_ok r" for r
    by (simp add: job_ok_def flag_data_def)
  ultimately have step: "sound_step db ?db"
    using db_inv_job [OF inv]
    by (intro flag_w.row_write [OF inv]) (simp_all add: flag_data_def lease_view_def lifecycle_move.stay)
  have "db' = db \<or> db' = ?db \<or> db' = job_audit c ws jobId FLAGGED reason now ?db"
    using run unfolding flagAmbiguousJob_def bare_transaction_def Let_def by (auto split: if_splits)
  then show ?thesis using inv step job_audit_sound [OF step] by (elim disjE) simp_all
qed

lemma result_repair_row:
  assumes "job_ok r" "j_cancellationRequestedAt r = None" "j_state r \<in> {QUEUED, PROCESSING, RETRY_SCHEDULED}"
  shows "job_ok (result_repair_data now r) \<and> lifecycle_move (j_state r) SUCCEEDED"
  using assms by (auto simp: job_ok_def result_repair_data_def intro: lifecycle_move.intros)

lemma result_repair_write:
  assumes inv: "db_inv db" and one: "count_many P (db_jobs db) = 1"
    and row: "\<And>r. r \<in> set (db_jobs db) \<Longrightarrow> P r \<Longrightarrow> j_id r = j_id job \<and> j_state r = j_state job \<and>
      j_leaseId r = j_leaseId job \<and> j_cancellationRequestedAt r = None"
    and state: "j_state job \<in> {QUEUED, PROCESSING, RETRY_SCHEDULED}"
    and leased: "leased = (j_leaseId job \<noteq> None \<and> j_leaseId job \<noteq> Some [])"
    and PA: "PA = (\<lambda>a. Some (at_leaseId a) = j_leaseId job \<and> at_state a = A_ACTIVE \<and> at_workspaceId a = ws)"
    and settled: "leased \<Longrightarrow> count_many PA (db_attempts db) = 1"
    and db1: "db_jobs db1 = update_many P (result_repair_data now) (db_jobs db)"
      "db_attempts db1 = (if leased then update_many PA (success_attempt_data now) (db_attempts db) else db_attempts db)"
      "db_outbox db1 = cancelOutbox (j_id job) now (db_outbox db)"
  shows "sound_step db db1"
proof -
  have out: "outbox_ok (update_many P (result_repair_data now) (db_jobs db)) (db_outbox db1)"
    unfolding db1(3) cancelOutbox_def
    by (rule result_repair_w.outbox_ended [OF inv one]) (use row in \<open>simp add: may_cancel_def result_repair_data_def\<close>)
  obtain q where q: "q \<in> set (db_jobs db)" "P q" using count_many_one [OF one] by blast
  have ok: "job_ok r" if "r \<in> set (db_jobs db)" for r using db_inv_job [OF inv that] .
  have row_ok: "job_ok (result_repair_data now r) \<and> lifecycle_move (j_state r) SUCCEEDED"
    if "r \<in> set (db_jobs db)" "P r" for r
    using result_repair_row [OF ok [OF that(1)]] row [OF that] state by simp
  show ?thesis
  proof (cases "j_state job = PROCESSING")
    case True
    with row [OF q] ok [OF q(1)] obtain l where l: "j_leaseId job = Some l" "leased"
      by (auto simp: leased job_ok_def)
    show ?thesis
    proof (rule result_repair_w.settle_sound [OF inv one settled [OF l(2)], where i = "j_id job" and l = l])
      fix r assume r: "r \<in> set (db_jobs db)" "P r"
      then show "job_ok (result_repair_data now r) \<and>
        canTransitionJob PROCESSING (j_state (result_repair_data now r)) \<and>
        j_state (result_repair_data now r) \<noteq> PROCESSING \<and>
        j_attemptCount (result_repair_data now r) = j_attemptCount r"
        using row_ok [OF r] by (simp add: result_repair_data_def)
    qed (use db1 l out row True in \<open>auto simp: PA\<close>)
  next
    case False
    with row [OF q] ok [OF q(1)] unleased have "j_leaseId job = None" by fastforce
    then have atts: "db_attempts db1 = db_attempts db" using db1(2) by (simp add: leased)
    show ?thesis
    proof (rule result_repair_w.row_write [OF inv db1(1) atts _ out])
      fix r assume r: "r \<in> set (db_jobs db)" "P r"
      with row_ok [OF r] row [OF r] False \<open>j_leaseId job = None\<close>
      show "job_ok (result_repair_data now r) \<and> lifecycle_move (j_state r) (j_state (result_repair_data now r)) \<and>
        lease_view (result_repair_data now r) = lease_view r \<and>
        (j_leaseId r \<noteq> None \<longrightarrow> j_maxAttempts (result_repair_data now r) = j_maxAttempts r)"
        by (simp add: lease_view_def result_repair_data_def)
    qed
  qed
qed

lemma result_repair_sound:
  assumes run: "repairCommittedResult snap db jobId ws c now = (res, db')"
    and inv: "db_inv db" and adv: "advanced snap db"
  shows "sound_step db db'"
proof (cases "find (\<lambda>r. j_cancellationRequestedAt r = None \<and> j_id r = jobId \<and>
    j_state r \<in> {QUEUED, PROCESSING, RETRY_SCHEDULED} \<and> j_workspaceId r = ws) (db_jobs snap)")
  case None
  with run inv show ?thesis
    unfolding repairCommittedResult_def bare_transaction_def by (simp split: if_split_asm)
next
  case (Some job)
  note job = find_Some_iff2 [OF Some]
  define P where "P = (\<lambda>r :: job. j_id r = j_id job \<and> j_state r = j_state job \<and> j_version r = j_version job \<and>
    j_workspaceId r = ws)"
  define PA where "PA = (\<lambda>a :: attempt. Some (at_leaseId a) = j_leaseId job \<and> at_state a = A_ACTIVE \<and> at_workspaceId a = ws)"
  define leased where "leased = (j_leaseId job \<noteq> None \<and> j_leaseId job \<noteq> Some [])"
  let ?jobs = "update_many P (result_repair_data now) (db_jobs db)"
  let ?db = "db\<lparr>db_jobs := ?jobs, db_attempts := (if leased
    then update_many PA (success_attempt_data now) (db_attempts db) else db_attempts db),
    db_outbox := cancelOutbox (j_id job) now (db_outbox db)\<rparr>"
  note run' = run [unfolded repairCommittedResult_def bare_transaction_def Some Let_def option.case
    P_def [symmetric] PA_def [symmetric] leased_def [symmetric]]
  show ?thesis
  proof (cases "count_many P (db_jobs db) = 1")
    case False
    have "?jobs = db_jobs db" using missed_row [OF db_inv_ids [OF inv] _ False] by (simp add: P_def)
    with run' False inv show ?thesis by (simp split: if_split_asm)
  next
    case one: True
    show ?thesis
    proof (cases "leased \<and> count_many PA (db_attempts db) \<noteq> 1")
      case True
      with run' one inv show ?thesis by (simp split: if_split_asm)
    next
      case False
      have "sound_step db ?db"
      proof (rule result_repair_write [OF inv one _ _ leased_def PA_def])
        fix r assume r: "r \<in> set (db_jobs db)" "P r"
        with snapshot_row [OF inv adv conjunct1 [OF job] r(1)] obtain d where "r = job\<lparr>j_dispatchStatus := d\<rparr>"
          by (auto simp: P_def)
        with job show "j_id r = j_id job \<and> j_state r = j_state job \<and> j_leaseId r = j_leaseId job \<and>
          j_cancellationRequestedAt r = None" by simp
      qed (use False job in simp_all)
      then have "sound_step db (job_audit c ws (j_id job) REPAIRED ''COMMITTED_RESULT_STATE_REPAIRED'' now ?db)"
        by (rule job_audit_sound)
      with run' one False inv show ?thesis by (simp split: if_split_asm)
    qed
  qed
qed

end
