(* ===== verification/Job_Runs.thy ===== *)
theory Job_Runs
  imports Job_Soundness
begin

text \<open>
  Whole runs: the claim a worker holds, what it still means after other transactions have
  committed, and the soundness of the handler run and of the reconciliation pass, which are
  sequences of transactions.
\<close>

definition claim_ok :: "'r database \<Rightarrow> string \<Rightarrow> claim \<Rightarrow> bool" where
  "claim_ok db jobId cl \<longleftrightarrow>
     (\<exists>a \<in> set (db_attempts db). at_leaseId a = cl_leaseId cl \<and> at_backgroundJobId a = jobId \<and>
        at_attemptNumber a = cl_attemptNumber cl) \<and>
     (\<forall>r \<in> set (db_jobs db). j_leaseId r = Some (cl_leaseId cl) \<longrightarrow> j_maxAttempts r = cl_maxAttempts cl)"

abbreviation sound_run :: "'r database \<Rightarrow> 'r database \<Rightarrow> bool" where
  "sound_run \<equiv> (\<lambda>db db'. sound_step db db')\<^sup>*\<^sup>*"

section \<open>Leases over time\<close>

lemma lease_issued:
  assumes "db_inv db" "r \<in> set (db_jobs db)" "j_leaseId r = Some l"
  obtains a where "a \<in> set (db_attempts db)" "holds r a" "at_leaseId a = l"
proof -
  from assms have "j_state r = PROCESSING" using db_inv_job [OF assms(1,2)] by (simp add: job_ok_def)
  with assms that show thesis by (auto simp: db_inv_def leases_ok_def holds_def)
qed

lemma same_lease_same_attempt:
  assumes "db_inv db" "a \<in> set (db_attempts db)" "b \<in> set (db_attempts db)" "at_leaseId a = at_leaseId b"
  shows "a = b"
  using assms distinct_map_inj [of at_leaseId "db_attempts db" a b] by (simp add: db_inv_def leases_ok_def)

lemma same_id_same_job:
  assumes "db_inv db" "a \<in> set (db_jobs db)" "b \<in> set (db_jobs db)" "j_id a = j_id b"
  shows "a = b"
  using assms distinct_map_inj [OF db_inv_ids, of db a b] by simp

text \<open>
  A lease that was issued before a step is held after it only by the job that held it, under the
  same attempt budget.
\<close>

lemma lease_kept:
  assumes step: "sound_step db db'" and inv: "db_inv db" and l: "l \<in> leases db"
    and r': "r' \<in> set (db_jobs db')" "j_leaseId r' = Some l"
  obtains r where "r \<in> set (db_jobs db)" "j_id r = j_id r'" "j_leaseId r = Some l"
    "j_maxAttempts r = j_maxAttempts r'"
proof -
  from l obtain a where a: "a \<in> set (db_attempts db)" "at_leaseId a = l" by (auto simp: leases_def)
  with step obtain a' where a': "a' \<in> set (db_attempts db')" "same_attempt a a'"
    by (auto simp: progress_def)
  from inv a obtain r where r: "r \<in> set (db_jobs db)" "owns r a" by (auto simp: db_inv_def leases_ok_def)
  with step obtain q where q: "q \<in> set (db_jobs db')" "row_step (leases db) r q" by (auto simp: progress_def)
  obtain b where b: "b \<in> set (db_attempts db')" "holds r' b" "at_leaseId b = l"
    using lease_issued [of db' r' l] step r' by metis
  have "b = a'" using same_lease_same_attempt [of db' b a'] step b a' a by (simp add: same_attempt_def)
  with b a' r q have "j_id q = j_id r'"
    by (simp add: holds_def same_attempt_def owns_def row_step_def same_identity_def)
  with step q r' have "q = r'" using same_id_same_job [of db' q r'] by simp
  with q l r' have "j_leaseId r = Some l \<and> j_maxAttempts r' = j_maxAttempts r" "j_id r = j_id r'"
    by (auto simp: row_step_def same_identity_def)
  with r that show thesis by simp
qed

lemma leases_mono: "progress db db' \<Longrightarrow> leases db \<subseteq> leases db'"
  unfolding progress_def leases_def same_attempt_def by (metis image_subsetI imageI)

lemma claim_ok_step:
  assumes ok: "claim_ok db jobId cl" and step: "sound_step db db'" and inv: "db_inv db"
  shows "claim_ok db' jobId cl"
proof -
  from ok obtain a where a: "a \<in> set (db_attempts db)" "at_leaseId a = cl_leaseId cl"
    "at_backgroundJobId a = jobId" "at_attemptNumber a = cl_attemptNumber cl"
    by (auto simp: claim_ok_def)
  with step obtain a' where "a' \<in> set (db_attempts db')" "same_attempt a a'" by (auto simp: progress_def)
  moreover have "j_maxAttempts r' = cl_maxAttempts cl"
    if "r' \<in> set (db_jobs db')" "j_leaseId r' = Some (cl_leaseId cl)" for r'
  proof -
    have "cl_leaseId cl \<in> leases db" using a(1,2) by (metis leases_def imageI)
    with step inv that ok show ?thesis by (metis claim_ok_def lease_kept)
  qed
  ultimately show ?thesis using a by (auto simp: claim_ok_def same_attempt_def)
qed

lemma sound_run_inv: "sound_run db db' \<Longrightarrow> db_inv db \<Longrightarrow> db_inv db'"
  by (induction rule: rtranclp_induct) auto

lemma claim_ok_run: "sound_run db db' \<Longrightarrow> db_inv db \<Longrightarrow> claim_ok db jobId cl \<Longrightarrow> claim_ok db' jobId cl"
  by (induction rule: rtranclp_induct) (auto dest: sound_run_inv intro: claim_ok_step)

section \<open>The claim a worker is given\<close>

lemma claimed_cases:
  assumes "claimBackgroundJob snap db ws jobId d now leaseId attemptId = (Inr (Claimed cl), db')"
  obtains job ex as where "find_job ws jobId (db_jobs snap) = Some job"
    "job \<in> set (db_jobs snap)" "j_id job = jobId" "j_workspaceId job = ws"
    "j_state job = QUEUED" "j_attemptCount job < j_maxAttempts job"
    "count_many (claim_where job ws) (db_jobs db) = 1"
    "create_attempt (claim_attempt job leaseId attemptId now) (db_attempts db) = Some as"
    "cl = claim_value job leaseId ex"
    "db' = db\<lparr>db_jobs := update_many (claim_where job ws) (claim_data job leaseId ex now) (db_jobs db),
       db_attempts := as\<rparr>"
proof -
  from assms obtain ex where body: "claim_body snap db ws jobId ex now leaseId attemptId = Inr (db', Claimed cl)"
    by (auto simp: claimBackgroundJob_def Let_def transaction_Inr split: option.splits)
  then obtain job where "find_job ws jobId (db_jobs snap) = Some job"
    by (auto simp: claim_body_def split: option.splits)
  with body that find_job_SomeD [OF this] show thesis
    by (auto simp: claim_body_def Let_def split: if_splits option.splits)
qed

lemma claimed_ok:
  assumes run: "claimBackgroundJob snap db ws jobId d now leaseId attemptId = (Inr (Claimed cl), db')"
    and inv: "db_inv db" and adv: "advanced snap db"
  shows "claim_ok db' jobId cl" and "cl_leaseId cl = leaseId" and "leaseId \<notin> leases db"
    and "cl_workspaceId cl = ws"
proof -
  from run obtain job ex as where job: "job \<in> set (db_jobs snap)" "j_id job = jobId" "j_workspaceId job = ws"
    and create: "create_attempt (claim_attempt job leaseId attemptId now) (db_attempts db) = Some as"
    and cl: "cl = claim_value job leaseId ex"
    and db': "db' = db\<lparr>db_jobs := update_many (claim_where job ws) (claim_data job leaseId ex now) (db_jobs db),
       db_attempts := as\<rparr>"
    by (rule claimed_cases)
  show "cl_leaseId cl = leaseId" "cl_workspaceId cl = ws" using cl job by (simp_all add: claim_value_def)
  have as: "as = db_attempts db @ [claim_attempt job leaseId attemptId now]" and fresh: "leaseId \<notin> leases db"
    using create_attempt_Some [OF create] by (auto simp: leases_def claim_attempt_def)
  show "leaseId \<notin> leases db" by (rule fresh)
  have "j_maxAttempts r = cl_maxAttempts cl" if r: "r \<in> set (db_jobs db')" "j_leaseId r = Some leaseId" for r
  proof -
    from r db' obtain q where q: "q \<in> set (db_jobs db)"
      "r = (if claim_where job ws q then claim_data job leaseId ex now q else q)"
      by (auto simp: set_update_many)
    have "claim_where job ws q"
    proof (rule ccontr)
      assume "\<not> ?thesis"
      with q r have "j_leaseId q = Some leaseId" by simp
      with lease_issued [OF inv q(1)] fresh show False by (metis leases_def imageI)
    qed
    with q snapshot_row [OF inv adv job(1) q(1)] cl show ?thesis
      by (auto simp: claim_where_def claim_data_def claim_value_def)
  qed
  with as db' cl job show "claim_ok db' jobId cl"
    by (auto simp: claim_ok_def claim_attempt_def claim_value_def)
qed

text \<open>A worker that still holds its lease knows the attempt count and the budget of the row.\<close>

lemma claim_ok_row:
  assumes inv: "db_inv db" and ok: "claim_ok db jobId cl"
    and r: "r \<in> set (db_jobs db)" "lease_where ws jobId (cl_leaseId cl) r"
  shows "j_attemptCount r = cl_attemptNumber cl" and "j_maxAttempts r = cl_maxAttempts cl"
proof -
  from r have l: "j_leaseId r = Some (cl_leaseId cl)" "j_state r = PROCESSING" by (simp_all add: lease_where_def)
  with ok r show "j_maxAttempts r = cl_maxAttempts cl" by (simp add: claim_ok_def)
  from ok obtain a where a: "a \<in> set (db_attempts db)" "at_leaseId a = cl_leaseId cl"
    "at_attemptNumber a = cl_attemptNumber cl" by (auto simp: claim_ok_def)
  obtain b where b: "b \<in> set (db_attempts db)" "holds r b" "at_leaseId b = cl_leaseId cl"
    using lease_issued [OF inv r(1) l(1)] by metis
  with a same_lease_same_attempt [OF inv] have "b = a" by simp
  with b a l r inv show "j_attemptCount r = cl_attemptNumber cl"
    using lease_unique(2) [of "db_jobs db" "db_attempts db" a r] by (simp add: db_inv_def holds_def)
qed

lemma settle_failure_sound:
  assumes run: "settleHandlerFailure db ws jobId cl f now rnd = (res, db')" and inv: "db_inv db"
    and ok: "claim_ok db jobId cl"
  shows "sound_step db db'"
proof -
  let ?d = "decideJobRetry (retry_input_of cl f now rnd)"
  obtain x where "commitJobFailure db ws jobId (cl_leaseId cl) f ?d now = (x, db')"
    using run by (auto simp: settleHandlerFailure_def Let_def split: prod.splits sum.splits option.splits)
  then show ?thesis using inv
  proof (rule failure_sound)
    fix r y t
    assume r: "r \<in> set (db_jobs db)" "lease_where ws jobId (cl_leaseId cl) r" "?d = Retry y t"
    then have "cl_attemptNumber cl < cl_maxAttempts cl"
      by (auto elim!: decideJobRetry_Retry simp: retry_input_of_def)
    with claim_ok_row [OF inv ok r(1,2)] show "j_attemptCount r < j_maxAttempts r" by simp
  qed
qed

section \<open>The run of a handler\<close>

text \<open>
  The other processes of a run commit sound steps, and the lease identifier it generates is not
  the empty string.
\<close>

definition action_ok :: "'r handler_action \<Rightarrow> bool" where
  "action_ok a \<longleftrightarrow> (case a of H_others f \<Rightarrow> \<forall>d. db_inv d \<longrightarrow> sound_run d (f d) | _ \<Rightarrow> True)"

definition run_ok :: "'r run_options \<Rightarrow> bool" where
  "run_ok opts \<longleftrightarrow> (\<forall>a \<in> set (ro_actions opts). action_ok a) \<and>
     (\<forall>k d. db_inv d \<longrightarrow> sound_run d (ro_others opts k d)) \<and> ro_leaseId opts \<noteq> []"

lemma run_step: "sound_step db db1 \<Longrightarrow> sound_run db1 db2 \<Longrightarrow> sound_run db db2"
  by (rule converse_rtranclp_into_rtranclp)

lemma run_action_sound:
  assumes run: "run_action opts jobId l a db = (res, db')" and inv: "db_inv db" and ok: "action_ok a"
  shows "sound_run db db'"
proof -
  note check = cancellation_sound
  show ?thesis
  proof (cases a)
    case (H_others f)
    with run ok inv show ?thesis by (auto simp: run_action_def action_ok_def)
  next
    case (H_throwIfCancellationRequested ts)
    with run have "throwIfBackgroundJobCancellationRequested db db (ro_workspaceId opts) jobId l ts = (res, db')"
      by (simp add: run_action_def)
    from check [OF this inv] show ?thesis by (simp add: r_into_rtranclp)
  next
    case (H_heartbeat ts)
    obtain x db1 where c: "throwIfBackgroundJobCancellationRequested db db (ro_workspaceId opts) jobId l ts = (x, db1)"
      by (meson surj_pair)
    note s = check [OF c inv]
    from run H_heartbeat c have "db' = db1 \<or>
      heartbeatBackgroundJob db1 (ro_workspaceId opts) jobId l ts (ro_leaseDurationMs opts) = (res, db')"
      by (auto simp: run_action_def split: sum.splits)
    then have "db' = db1 \<or> sound_step db1 db'" using heartbeat_sound [OF _ conjunct1 [OF s]] by blast
    with s show ?thesis using run_step [OF s] by (metis (mono_tags, lifting) r_into_rtranclp)
  next
    case (H_recordStage stage ts)
    obtain x db1 where c: "throwIfBackgroundJobCancellationRequested db db (ro_workspaceId opts) jobId l ts = (x, db1)"
      by (meson surj_pair)
    note s = check [OF c inv]
    from run H_recordStage c have "db' = db1 \<or>
      recordBackgroundJobStage db1 (ro_workspaceId opts) jobId l stage ts = (res, db')"
      by (auto simp: run_action_def split: sum.splits)
    then have "db' = db1 \<or> sound_step db1 db'" using stage_sound [OF _ conjunct1 [OF s]] by blast
    with s show ?thesis using run_step [OF s] by (metis (mono_tags, lifting) r_into_rtranclp)
  qed
qed

lemma run_actions_sound:
  assumes "run_actions opts jobId l as db = (res, db')" "db_inv db" "\<forall>a \<in> set as. action_ok a"
  shows "sound_run db db'"
  using assms
proof (induction as arbitrary: db)
  case (Cons a as)
  obtain x db1 where a: "run_action opts jobId l a db = (x, db1)" by (meson surj_pair)
  have s: "sound_run db db1" using a Cons.prems by (intro run_action_sound) auto
  from Cons.prems a have "db' = db1 \<or> run_actions opts jobId l as db1 = (res, db')"
    by (auto split: sum.splits)
  then show ?case
    using s Cons.IH [of db1] Cons.prems sound_run_inv [OF s] by (auto intro: rtranclp_trans)
qed simp

lemma execute_sound:
  assumes run: "handlerExecution opts jobId l db = (res, db')" and inv: "db_inv db" and ok: "run_ok opts"
  shows "sound_run db db'"
proof -
  obtain x db1 where c: "throwIfBackgroundJobCancellationRequested db db (ro_workspaceId opts) jobId l
    (ro_now opts 3) = (x, db1)" by (meson surj_pair)
  note s = cancellation_sound [OF c inv]
  obtain y db2 where a: "run_actions opts jobId l (ro_actions opts) db1 = (y, db2)" by (meson surj_pair)
  have "sound_run db1 db2" using run_actions_sound [OF a] s ok by (simp add: run_ok_def)
  with s have "sound_run db db2" by (rule run_step)
  moreover have "db' = db1 \<or> db' = db2"
    using run c a by (auto simp: handlerExecution_def split: sum.splits option.splits)
  ultimately show ?thesis using s by (auto intro: r_into_rtranclp)
qed

text \<open>From the claim on.\<close>

lemma claimed_run_sound:
  assumes run: "runClaimedJob opts jobId cl db = (res, db')" and inv: "db_inv db"
    and cl: "claim_ok db jobId cl" and ok: "run_ok opts"
  shows "sound_run db db'"
proof (cases "parseCorrelationId (Some (cl_correlationId cl))")
  case None
  with run show ?thesis by (simp add: runClaimedJob_def)
next
  case (Some c)
  obtain x db1 where e: "handlerExecution opts jobId (cl_leaseId cl) db = (x, db1)" by (meson surj_pair)
  let ?db = "ro_others opts 4 db1"
  have s1: "sound_run db db1" by (rule execute_sound [OF e inv ok])
  moreover have "sound_run db1 ?db" using ok sound_run_inv [OF s1 inv] by (simp add: run_ok_def)
  ultimately have s2: "sound_run db ?db" by (rule rtranclp_trans)
  note inv2 = sound_run_inv [OF s2 inv] and cl2 = claim_ok_run [OF s2 inv cl]
  consider "db' = db1"
    | y f where "settleHandlerFailure ?db (ro_workspaceId opts) jobId cl f (ro_now opts 4) (ro_random opts) = (y, db')"
    | y commit where "commitJobSuccess ?db (ro_workspaceId opts) jobId (cl_leaseId cl) commit (ro_now opts 4) = (y, db')"
    using run Some e by (auto simp: runClaimedJob_def split: sum.splits prod.splits option.splits if_splits)
  then show ?thesis
  proof cases
    case 1
    with s1 show ?thesis by simp
  next
    case 2
    show ?thesis using s2 settle_failure_sound [OF 2 inv2 cl2] by (rule rtranclp.rtrancl_into_rtrancl)
  next
    case 3
    show ?thesis using s2 success_sound [OF 3 inv2] by (rule rtranclp.rtrancl_into_rtrancl)
  qed
qed

lemma claim_and_run_sound:
  assumes run: "claimAndRun opts job db = (res, db')" and inv: "db_inv db" and ok: "run_ok opts"
  shows "sound_run db db'"
proof (cases "j_state job = PROCESSING \<or> ro_acquire opts \<noteq> None")
  case True
  with run show ?thesis by (auto simp: claimAndRun_def split: if_splits option.splits)
next
  case False
  let ?db = "ro_others opts 3 db"
  have s1: "sound_run db ?db" using ok inv by (simp add: run_ok_def)
  note inv1 = sound_run_inv [OF s1 inv]
  obtain x db2 where c: "claimBackgroundJob ?db ?db (ro_workspaceId opts) (j_id job) (ro_leaseDurationMs opts)
    (ro_now opts 2) (ro_leaseId opts) (ro_attemptId opts) = (x, db2)" by (meson surj_pair)
  have s: "sound_step ?db db2" using claim_sound [OF c inv1] ok by (simp add: run_ok_def)
  have s2: "sound_run db db2" using s1 s by (rule rtranclp.rtrancl_into_rtrancl)
  show ?thesis
  proof (cases "\<exists>cl. x = Inr (Claimed cl)")
    case True
    then obtain cl where cl: "x = Inr (Claimed cl)" by blast
    with run False c have r: "runClaimedJob opts (j_id job) cl db2 = (res, db')"
      by (auto simp: claimAndRun_def Let_def)
    have "claim_ok db2 (j_id job) cl" using claimed_ok(1) [OF c [unfolded cl] inv1] by simp
    with claimed_run_sound [OF r _ _ ok] s s2 show ?thesis by (auto intro: rtranclp_trans)
  next
    case no: False
    with run False c have "db' = db2"
      by (auto simp: claimAndRun_def Let_def split: sum.splits claim_result.splits)
    with s2 show ?thesis by simp
  qed
qed

text \<open>The whole delivery.\<close>

lemma idempotent_run_sound:
  assumes run: "runIdempotentJobHandler opts db = (res, db')" and inv: "db_inv db" and ok: "run_ok opts"
  shows "sound_run db db'"
proof -
  let ?db1 = "ro_others opts 0 db"
  let ?db2 = "ro_others opts 1 ?db1"
  have others: "sound_run d (ro_others opts k d)" if "db_inv d" for d k using ok that by (simp add: run_ok_def)
  note s1 = others [OF inv, of 0]
  note i1 = sound_run_inv [OF s1 inv]
  have s2: "sound_run db ?db2" using s1 others [OF i1, of 1] by (rule rtranclp_trans)
  note i2 = sound_run_inv [OF s2 inv]
  consider "db' = db" | "db' = ?db1" | job where "claimAndRun opts job ?db1 = (res, db')"
    | jobId x db3 where "makeBackgroundJobRetryDue ?db2 (ro_workspaceId opts) jobId (ro_now opts 1) = (x, db3)"
        "db' = db3 \<or> db' = ro_others opts 2 db3 \<or> (\<exists>job. claimAndRun opts job (ro_others opts 2 db3) = (res, db'))"
    using run unfolding runIdempotentJobHandler_def Let_def
    by (auto split: option.splits sum.splits if_splits prod.splits) blast+
  then show ?thesis
  proof cases
    case 1
    then show ?thesis by simp
  next
    case 2
    with s1 show ?thesis by simp
  next
    case 3
    from claim_and_run_sound [OF 3 i1 ok] s1 show ?thesis by (rule rtranclp_trans [rotated])
  next
    case 4
    have s3: "sound_run db db3"
      using s2 retry_due_sound [OF 4(1) i2] by (rule rtranclp.rtrancl_into_rtrancl)
    note i3 = sound_run_inv [OF s3 inv]
    have s4: "sound_run db (ro_others opts 2 db3)" using s3 others [OF i3, of 2] by (rule rtranclp_trans)
    note i4 = sound_run_inv [OF s4 inv]
    from 4(2) show ?thesis
      using s3 s4 claim_and_run_sound [OF _ i4 ok] rtranclp_trans [OF s4] by blast
  qed
qed

section \<open>The reconciliation pass\<close>

lemma repair_each_sound:
  assumes "repair_each act js db = (res, db')" "db_inv db"
    and act: "\<And>j d x d'. db_inv d \<Longrightarrow> act j d = (x, d') \<Longrightarrow> sound_step d d'"
  shows "sound_run db db'"
  using assms(1,2)
proof (induction js arbitrary: db res)
  case (Cons j js)
  obtain x db1 where a: "act j db = (x, db1)" by (meson surj_pair)
  have s: "sound_step db db1" using act [OF Cons.prems(2) a] .
  from Cons.prems(1) a have "db' = db1 \<or> (\<exists>y. repair_each act js db1 = (y, db'))"
    by (auto split: sum.splits prod.splits)
  then have "sound_run db1 db'" using Cons.IH s by auto
  with s show ?case by (rule run_step)
qed simp

lemma stage_pass_sound:
  assumes run: "repair_stage env batch Q act n db = (res, db')" and inv: "db_inv db"
    and act: "\<And>j d x d'. db_inv d \<Longrightarrow> act j d = (x, d') \<Longrightarrow> sound_step d d'"
  shows "sound_run db db'"
proof -
  let ?rows = "find_many (re_scan env) batch (Q db) db"
  have "db' = db \<or> (\<exists>x. repair_each act ?rows db = (x, db'))"
    using run by (auto simp: repair_stage_def Let_def split: if_splits sum.splits prod.splits)
  then show ?thesis
  proof
    assume "\<exists>x. repair_each act ?rows db = (x, db')"
    then obtain x where "repair_each act ?rows db = (x, db')" ..
    then show ?thesis using inv act by (rule repair_each_sound)
  qed simp
qed

lemma act_sound:
  assumes "db_inv d"
  shows "act_expired env c j d = (x, d') \<Longrightarrow> sound_step d d'"
    and "act_due env c j d = (x, d') \<Longrightarrow> sound_step d d'"
    and "act_stranded env c j d = (x, d') \<Longrightarrow> sound_step d d'"
    and "act_missing env c j d = (x, d') \<Longrightarrow> sound_step d d'"
proof -
  show "act_expired env c j d = (x, d') \<Longrightarrow> sound_step d d'"
    using recover_sound [OF _ assms advanced_refl] assms by (auto simp: act_expired_def split: if_splits)
  show "act_due env c j d = (x, d') \<Longrightarrow> sound_step d d'"
    unfolding act_due_def using due_retry_sound [OF _ assms] by blast
  show "act_stranded env c j d = (x, d') \<Longrightarrow> sound_step d d'"
    unfolding act_stranded_def using stranded_sound [OF _ assms advanced_refl] by blast
  show "act_missing env c j d = (x, d') \<Longrightarrow> sound_step d d'"
    unfolding act_missing_def using missing_outbox_sound [OF _ assms advanced_refl] assms
    by (metis progress_refl)
qed

lemma inspect_each_sound:
  assumes "inspect_each env c js n db = (res, db')" "db_inv db"
  shows "sound_run db db'"
  using assms
proof (induction js arbitrary: db n)
  case (Cons j js)
  show ?case
  proof (cases "re_inspect env (db_results db) j")
    case (Inl e)
    with Cons.prems(1) show ?thesis by simp
  next
    case (Inr found)
    show ?thesis
    proof (cases "judgeResult found j")
      case Leave
      with Cons Inr show ?thesis by simp
    next
      case (Flag reason)
      obtain x db1 where f: "flagAmbiguousJob db (j_id j) (j_workspaceId j) c reason (re_now env) = (x, db1)"
        by (meson surj_pair)
      note s = flag_sound [OF f Cons.prems(2)]
      from Cons.prems(1) Inr Flag f have "db' = db1 \<or> (\<exists>m. inspect_each env c js m db1 = (res, db'))"
        by (auto split: sum.splits)
      then have "sound_run db1 db'" using Cons.IH s by auto
      with s show ?thesis by (rule run_step)
    next
      case Repair_result
      obtain x db1 where f: "repairCommittedResult db db (j_id j) (j_workspaceId j) c (re_now env) = (x, db1)"
        by (meson surj_pair)
      note s = result_repair_sound [OF f Cons.prems(2) advanced_refl]
      from Cons.prems(1) Inr Repair_result f have "db' = db1 \<or> (\<exists>m. inspect_each env c js m db1 = (res, db'))"
        by (auto split: sum.splits)
      then have "sound_run db1 db'" using Cons.IH s by auto
      with s show ?thesis by (rule run_step)
    qed
  qed
qed simp

text \<open>A cleanup hook is code of the caller; what the pass relies on is that it is itself sound.\<close>

definition hook_ok :: "'r cleanup_hook \<Rightarrow> bool" where
  "hook_ok h \<longleftrightarrow> (\<forall>batch now d. db_inv d \<longrightarrow> sound_run d (snd (h batch now d)))"

lemma cleanup_outcomes_tables:
  "cleanup_outcomes c now seen xs n db = (res, db') \<Longrightarrow>
   db_jobs db' = db_jobs db \<and> db_attempts db' = db_attempts db \<and> db_outbox db' = db_outbox db"
proof (induction xs arbitrary: seen n db)
  case (Cons x xs)
  from Cons.prems show ?case
    by (auto simp: add_audit_def split: option.splits if_splits dest!: Cons.IH)
qed simp

lemma cleanup_hooks_sound:
  assumes "cleanup_hooks c now batch hs n db = (res, db')" "db_inv db" "\<forall>h \<in> set hs. hook_ok h"
  shows "sound_run db db'"
  using assms
proof (induction hs arbitrary: n db)
  case (Cons h hs)
  obtain outs db1 where h: "h batch now db = (outs, db1)" by (meson surj_pair)
  have "sound_run db (snd (h batch now db))" using Cons.prems by (simp add: hook_ok_def)
  then have s1: "sound_run db db1" by (simp add: h)
  show ?case
  proof (cases outs)
    case (Inl e)
    with Cons.prems(1) h s1 show ?thesis by simp
  next
    case (Inr found)
    obtain y db2 where o: "cleanup_outcomes c now [] found n db1 = (y, db2)" by (meson surj_pair)
    have step: "sound_step db1 db2"
      using cleanup_outcomes_tables [OF o] sound_run_inv [OF s1 Cons.prems(2)] by (intro sound_same_tables) auto
    have s2: "sound_run db db2" using s1 step by (rule rtranclp.rtrancl_into_rtrancl)
    from Cons.prems(1) h Inr o have "db' = db1 \<or> db' = db2 \<or> (\<exists>m. cleanup_hooks c now batch hs m db2 = (res, db'))"
      by (auto split: if_splits sum.splits)
    moreover have "sound_run db2 db'" if "cleanup_hooks c now batch hs m db2 = (res, db')" for m
      using Cons.IH [OF that] step Cons.prems(3) by simp
    ultimately show ?thesis using s1 s2 rtranclp_trans [OF s2] by blast
  qed
qed simp

lemma then_stage_sound:
  assumes "then_stage r f = (res, db')" "r = (x, db1)" "sound_run db db1"
    and "\<And>n res db'. f n db1 = (res, db') \<Longrightarrow> sound_run db1 db'"
  shows "sound_run db db'"
  using assms rtranclp_trans [OF assms(3)] by (auto simp: then_stage_def split: sum.splits)

lemma reconcile_sound:
  assumes run: "reconcileBackgroundJobs env batchSize db = (res, db')" and inv: "db_inv db"
    and hooks: "\<forall>h \<in> set (re_hooks env). hook_ok h"
  shows "sound_run db db'"
proof -
  have chain: "sound_run db d2"
    if "then_stage r f = (res, d2)" "\<And>x d1. r = (x, d1) \<Longrightarrow> sound_run db d1"
      "\<And>n d1 x d2. db_inv d1 \<Longrightarrow> f n d1 = (x, d2) \<Longrightarrow> sound_run d1 d2" for r f res d2
  proof -
    obtain x d1 where r: "r = (x, d1)" by (meson surj_pair)
    note s = that(2) [OF r]
    show ?thesis using that(1) r s that(3) [OF sound_run_inv [OF s inv]] by (rule then_stage_sound)
  qed
  have stage: "sound_run d1 d2"
    if "repair_stage env batch Q act n d1 = (x, d2)" "db_inv d1"
      "act = act_expired env c \<or> act = act_due env c \<or> act = act_stranded env c \<or> act = act_missing env c"
    for batch Q act n x d1 d2 c
    using that(1,2) by (rule stage_pass_sound) (use that(3) act_sound [where env = env and c = c] in metis)
  have inspect: "sound_run d1 d2" if "inspect_stage env c batch n d1 = (x, d2)" "db_inv d1" for c batch n x d1 d2
    using that inspect_each_sound [of env c] by (auto simp: inspect_stage_def Let_def split: if_splits)
  note hooks' = cleanup_hooks_sound [OF _ _ hooks]
  show ?thesis
  proof (cases "parseCorrelationId (Some (re_correlationId env))")
    case None
    with run show ?thesis by (simp add: reconcileBackgroundJobs_def)
  next
    case (Some c)
    let ?b = "coalesce batchSize (jint 50)"
    show ?thesis
    proof (cases "\<not> isSafeInteger ?b \<or> jlt ?b (jint 1) \<or> jgt ?b (jint 100)")
      case True
      with run Some show ?thesis by (simp add: reconcileBackgroundJobs_def Let_def)
    next
      case False
      note run' = run [unfolded reconcileBackgroundJobs_def Let_def Some option.case if_not_P [OF False]]
      show ?thesis
        by (rule chain [OF run'], (rule chain, assumption)+)
          (((erule stage, (assumption | rule inv), blast) | (erule inspect, assumption) |
            (erule hooks', assumption))+)
    qed
  qed
qed

end
