(* ===== verification/Job_System.thy ===== *)
theory Job_System
  imports Job_Runs
begin

text \<open>
  The job engine as a transition system: any number of web requests, workers, dispatchers and
  reconcilers, each step one committed transaction of one of them.  A transaction may have taken
  its snapshot at any earlier state, so the states passed so far are kept; the claims handed to
  workers are kept because a worker settles with the values it was given, and \<open>sy_commits\<close> records
  the jobs whose result was committed.
\<close>

record 'r job_system =
  sy_db :: "'r database"
  sy_past :: "'r database list"
  sy_claims :: "(string \<times> claim) list"
  sy_commits :: "string list"

definition snapshots :: "'r job_system \<Rightarrow> 'r database set" where
  "snapshots s = set (sy_db s # sy_past s)"

definition moved :: "'r job_system \<Rightarrow> 'r database \<Rightarrow> 'r job_system" where
  "moved s db = s\<lparr>sy_db := db, sy_past := sy_db s # sy_past s\<rparr>"

definition with_claim :: "string \<Rightarrow> exn + claim_result \<Rightarrow> 'r job_system \<Rightarrow> 'r job_system" where
  "with_claim jobId res s = (case res of
       Inr (Claimed cl) \<Rightarrow> s\<lparr>sy_claims := (jobId, cl) # sy_claims s\<rparr> | _ \<Rightarrow> s)"

definition with_commit :: "string \<Rightarrow> exn + unit \<Rightarrow> 'r job_system \<Rightarrow> 'r job_system" where
  "with_commit jobId res s = (case res of
       Inr _ \<Rightarrow> s\<lparr>sy_commits := jobId # sy_commits s\<rparr> | Inl _ \<Rightarrow> s)"

inductive sys_step :: "'r job_system \<Rightarrow> 'r job_system \<Rightarrow> bool" where
  enqueue: "enqueueBackgroundJob lib (sy_db s) ws i jobId outboxId dbNow = (r, db') \<Longrightarrow>
     outboxId \<notin> ob_id ` set (db_outbox (sy_db s)) \<Longrightarrow> sys_step s (moved s db')"
| claim: "snap \<in> snapshots s \<Longrightarrow> leaseId \<noteq> [] \<Longrightarrow>
     claimBackgroundJob snap (sy_db s) ws jobId d now leaseId attemptId = (cr, db') \<Longrightarrow>
     sys_step s (with_claim jobId cr (moved s db'))"
| heartbeat: "heartbeatBackgroundJob (sy_db s) ws jobId l ts d = (u, db') \<Longrightarrow> sys_step s (moved s db')"
| stage: "recordBackgroundJobStage (sy_db s) ws jobId l stage ts = (u, db') \<Longrightarrow> sys_step s (moved s db')"
| cancellation_check: "snap \<in> snapshots s \<Longrightarrow>
     throwIfBackgroundJobCancellationRequested snap (sy_db s) ws jobId l ts = (u, db') \<Longrightarrow>
     sys_step s (moved s db')"
| success: "commitJobSuccess (sy_db s) ws jobId l commit ts = (u, db') \<Longrightarrow>
     sys_step s (with_commit jobId u (moved s db'))"
| failure: "(jobId, cl) \<in> set (sy_claims s) \<Longrightarrow>
     settleHandlerFailure (sy_db s) ws jobId cl f now rnd = (x, db') \<Longrightarrow> sys_step s (moved s db')"
| retry_due: "makeBackgroundJobRetryDue (sy_db s) ws jobId now = (b, db') \<Longrightarrow> sys_step s (moved s db')"
| recover: "snap \<in> snapshots s \<Longrightarrow>
     recoverExpiredBackgroundJobLease snap (sy_db s) ws jobId now audit = (b, db') \<Longrightarrow> sys_step s (moved s db')"
| lease_outbox: "leasePendingOutbox locked (sy_db s) now d' batch l = (records, db') \<Longrightarrow> sys_step s (moved s db')"
| mark_dispatched: "markOutboxDispatched (sy_db s) rec did now = (u, db') \<Longrightarrow> sys_step s (moved s db')"
| release_outbox: "sys_step s (moved s (releaseOutbox (sy_db s) rec e now delay))"
| cancel: "snap \<in> snapshots s \<Longrightarrow>
     cancelBackgroundJob lib snap (sy_db s) c who jobId reason now = (y, db') \<Longrightarrow> sys_step s (moved s db')"
| retry: "snap \<in> snapshots s \<Longrightarrow>
     retryBackgroundJob lib re ck snap (sy_db s) c who jobId reason now oid dbNow = (y, db') \<Longrightarrow>
     sys_step s (moved s db')"
| due: "snap \<in> snapshots s \<Longrightarrow>
     requeueDueRetry snap (sy_db s) jobId ws c now oid dbNow = (b, db') \<Longrightarrow> sys_step s (moved s db')"
| stranded: "snap \<in> snapshots s \<Longrightarrow>
     requeueStrandedDelivery snap (sy_db s) jobId ws c now oid dbNow = (b, db') \<Longrightarrow> sys_step s (moved s db')"
| missing: "snap \<in> snapshots s \<Longrightarrow>
     repairMissingOutbox snap (sy_db s) jobId ws c now oid dbNow = (b, db') \<Longrightarrow> sys_step s (moved s db')"
| result_repair: "snap \<in> snapshots s \<Longrightarrow>
     repairCommittedResult snap (sy_db s) jobId ws c now = (b, db') \<Longrightarrow> sys_step s (moved s db')"
| flag: "flagAmbiguousJob (sy_db s) jobId ws c reason now = (b, db') \<Longrightarrow> sys_step s (moved s db')"
| environment: "db_jobs db' = db_jobs (sy_db s) \<Longrightarrow> db_attempts db' = db_attempts (sy_db s) \<Longrightarrow>
     db_outbox db' = db_outbox (sy_db s) \<Longrightarrow> sys_step s (moved s db')"

text \<open>The engine starts with empty job tables.\<close>

definition sys_init :: "'r job_system \<Rightarrow> bool" where
  "sys_init s \<longleftrightarrow> db_jobs (sy_db s) = [] \<and> db_attempts (sy_db s) = [] \<and> db_outbox (sy_db s) = [] \<and>
     sy_past s = [] \<and> sy_claims s = [] \<and> sy_commits s = []"

inductive sys_reachable :: "'r job_system \<Rightarrow> bool" where
  init: "sys_init s \<Longrightarrow> sys_reachable s"
| step: "sys_reachable s \<Longrightarrow> sys_step s s' \<Longrightarrow> sys_reachable s'"

definition sys_inv :: "'r job_system \<Rightarrow> bool" where
  "sys_inv s \<longleftrightarrow> db_inv (sy_db s) \<and> (\<forall>snap \<in> set (sy_past s). advanced snap (sy_db s)) \<and>
     (\<forall>(jobId, cl) \<in> set (sy_claims s). claim_ok (sy_db s) jobId cl) \<and>
     distinct (map (cl_leaseId \<circ> snd) (sy_claims s)) \<and>
     distinct (sy_commits s) \<and>
     (\<forall>i \<in> set (sy_commits s). \<exists>r \<in> set (db_jobs (sy_db s)). j_id r = i \<and> j_state r = SUCCEEDED)"

lemma moved_simps [simp]:
  "sy_db (moved s db) = db" "sy_past (moved s db) = sy_db s # sy_past s"
  "sy_claims (moved s db) = sy_claims s" "sy_commits (moved s db) = sy_commits s"
  by (simp_all add: moved_def)

lemma with_commit_simps [simp]:
  "sy_db (with_commit i u s) = sy_db s" "sy_past (with_commit i u s) = sy_past s"
  "sy_claims (with_commit i u s) = sy_claims s"
  by (simp_all add: with_commit_def split: sum.splits)

lemma with_claim_simps [simp]:
  "sy_db (with_claim i u s) = sy_db s" "sy_past (with_claim i u s) = sy_past s"
  "sy_commits (with_claim i u s) = sy_commits s"
  by (simp_all add: with_claim_def split: sum.splits claim_result.splits)

lemma snapshot_advanced: "sys_inv s \<Longrightarrow> snap \<in> snapshots s \<Longrightarrow> advanced snap (sy_db s)"
  by (auto simp: snapshots_def sys_inv_def)

lemma succeeded_stays:
  assumes "progress db db'" "r \<in> set (db_jobs db)" "j_state r = SUCCEEDED"
  shows "\<exists>r' \<in> set (db_jobs db'). j_id r' = j_id r \<and> j_state r' = SUCCEEDED"
proof -
  from assms obtain r' where r': "r' \<in> set (db_jobs db')" "row_step (leases db) r r'"
    by (auto simp: progress_def)
  with assms(3) have "lifecycle_move SUCCEEDED (j_state r')" by (simp add: row_step_def)
  then have "j_state r' = SUCCEEDED" by (auto simp: lifecycle_from_succeeded canTransitionJob_def)
  with r' show ?thesis by (auto simp: row_step_def same_identity_def)
qed

lemma sys_inv_moved:
  assumes inv: "sys_inv s" and step: "sound_step (sy_db s) db'"
  shows "sys_inv (moved s db')"
proof -
  let ?db = "sy_db s"
  have adv: "advanced ?db db'" using step progress_advanced by blast
  have "advanced snap db'" if "snap \<in> set (sy_past s)" for snap
    using inv that adv advanced_trans by (auto simp: sys_inv_def)
  moreover have "claim_ok db' i cl" if "(i, cl) \<in> set (sy_claims s)" for i cl
    using inv that step claim_ok_step [of ?db i cl db'] by (auto simp: sys_inv_def)
  moreover have "\<exists>r \<in> set (db_jobs db'). j_id r = i \<and> j_state r = SUCCEEDED" if "i \<in> set (sy_commits s)" for i
    using inv that step succeeded_stays [of ?db db'] by (fastforce simp: sys_inv_def)
  ultimately show ?thesis using inv step adv by (auto simp: sys_inv_def)
qed

text \<open>A committed result: the job was processing under the lease, and has succeeded.\<close>

lemma success_cases:
  assumes "commitJobSuccess db ws jobId l commit ts = (Inr u, db')"
  obtains r results where "r \<in> set (db_jobs db)" "settle_where ws jobId l r"
    "success_data ts r \<in> set (db_jobs db')" "commit (db_results db) = Inr results" "db_results db' = results"
proof -
  let ?P = "settle_where ws jobId l"
  from assms obtain results where one: "count_many ?P (db_jobs db) = 1"
    and db': "db_jobs db' = update_many ?P (success_data ts) (db_jobs db)"
    and c: "commit (db_results db) = Inr results" "db_results db' = results"
    by (auto simp: commitJobSuccess_def transaction_Inr Let_def split: option.splits sum.splits if_splits)
  from count_many_one [OF one] obtain r where r: "r \<in> set (db_jobs db)" "?P r" by blast
  then have "success_data ts r \<in> set (db_jobs db')" unfolding db' set_update_many by force
  with that r c show thesis by blast
qed

lemma sys_inv_commit:
  assumes inv: "sys_inv s" and run: "commitJobSuccess (sy_db s) ws jobId l commit ts = (u, db')"
  shows "sys_inv (with_commit jobId u (moved s db'))"
proof (cases u)
  case (Inl e)
  have "sound_step (sy_db s) db'" using success_sound [OF run] inv by (simp add: sys_inv_def)
  with sys_inv_moved [OF inv] Inl show ?thesis by (simp add: with_commit_def)
next
  case (Inr v)
  have dbi: "db_inv (sy_db s)" using inv by (simp add: sys_inv_def)
  have step: "sound_step (sy_db s) db'" using success_sound [OF run dbi] .
  from run Inr obtain r where r: "r \<in> set (db_jobs (sy_db s))" "settle_where ws jobId l r"
    "success_data ts r \<in> set (db_jobs db')" by (metis success_cases)
  then have "j_state r = PROCESSING" "j_id r = jobId" by (simp_all add: settle_where_def lease_where_def)
  then have "jobId \<notin> set (sy_commits s)"
    using inv same_id_same_job [OF dbi r(1)] by (force simp: sys_inv_def)
  moreover have "\<exists>q \<in> set (db_jobs db'). j_id q = jobId \<and> j_state q = SUCCEEDED"
    using r(3) \<open>j_id r = jobId\<close> by (auto simp: success_data_def intro!: bexI [OF _ r(3)])
  ultimately show ?thesis using sys_inv_moved [OF inv step] Inr by (simp add: sys_inv_def with_commit_def)
qed

lemma sys_inv_claim:
  assumes inv: "sys_inv s" and snap: "snap \<in> snapshots s" and l: "leaseId \<noteq> []"
    and run: "claimBackgroundJob snap (sy_db s) ws jobId d now leaseId attemptId = (cr, db')"
  shows "sys_inv (with_claim jobId cr (moved s db'))"
proof -
  have dbi: "db_inv (sy_db s)" using inv by (simp add: sys_inv_def)
  note adv = snapshot_advanced [OF inv snap]
  have moved: "sys_inv (moved s db')" using sys_inv_moved [OF inv claim_sound [OF run dbi adv l]] .
  show ?thesis
  proof (cases "\<exists>cl. cr = Inr (Claimed cl)")
    case True
    then obtain cl where cl: "cr = Inr (Claimed cl)" by blast
    note ok = claimed_ok [OF run [unfolded cl] dbi adv]
    have "cl_leaseId b \<in> leases (sy_db s)" if "(i, b) \<in> set (sy_claims s)" for i b
    proof -
      from inv that have "claim_ok (sy_db s) i b" by (auto simp: sys_inv_def)
      then show ?thesis unfolding claim_ok_def leases_def by (metis imageI)
    qed
    with ok(2,3) have "cl_leaseId cl \<notin> (cl_leaseId \<circ> snd) ` set (sy_claims s)" by auto
    with moved ok(1) show ?thesis by (simp add: sys_inv_def with_claim_def cl)
  next
    case False
    then have "with_claim jobId cr (moved s db') = moved s db'"
      by (auto simp: with_claim_def split: sum.splits claim_result.splits)
    with moved show ?thesis by simp
  qed
qed

text \<open>Each step is a sound step of the database.\<close>

lemma sys_step_sound: "sys_step s s' \<Longrightarrow> sys_inv s \<Longrightarrow> sound_step (sy_db s) (sy_db s')"
proof (induction rule: sys_step.induct)
  case (failure jobId cl s ws f now rnd x db')
  then have "sound_step (sy_db s) db'" by (intro settle_failure_sound) (auto simp: sys_inv_def)
  then show ?case by simp
next
  case (missing snap s jobId ws c now oid dbNow b db')
  then have "db' = sy_db s" by (intro missing_outbox_sound snapshot_advanced) (auto simp: sys_inv_def)
  with missing show ?case by (simp add: sys_inv_def)
qed (unfold moved_simps with_claim_simps with_commit_simps,
  (rule enqueue_sound claim_sound heartbeat_sound stage_sound cancellation_sound success_sound
    retry_due_sound recover_sound lease_outbox_sound mark_dispatched_sound release_outbox_sound
    cancel_sound retry_sound due_retry_sound stranded_sound result_repair_sound flag_sound sound_same_tables;
   (assumption | erule (1) snapshot_advanced | simp add: sys_inv_def)?)+)

lemma sys_step_inv: "sys_step s s' \<Longrightarrow> sys_inv s \<Longrightarrow> sys_inv s'"
proof (cases rule: sys_step.cases, assumption)
  fix snap leaseId ws jobId d now attemptId cr db'
  assume "sys_inv s" "s' = with_claim jobId cr (moved s db')" "snap \<in> snapshots s" "leaseId \<noteq> []"
    "claimBackgroundJob snap (sy_db s) ws jobId d now leaseId attemptId = (cr, db')"
  then show ?thesis using sys_inv_claim by blast
next
  fix ws jobId l commit ts u db'
  assume "sys_inv s" "s' = with_commit jobId u (moved s db')"
    "commitJobSuccess (sy_db s) ws jobId l commit ts = (u, db')"
  then show ?thesis using sys_inv_commit by blast
qed (metis sys_inv_moved sys_step_sound moved_simps(1))+

lemma reachable_inv: "sys_reachable s \<Longrightarrow> sys_inv s"
proof (induction rule: sys_reachable.induct)
  case (init s)
  then show ?case
    by (simp add: sys_init_def sys_inv_def db_inv_def leases_ok_def outbox_ok_def)
qed (rule sys_step_inv)

lemma reachable_db: "sys_reachable s \<Longrightarrow> db_inv (sy_db s)"
  using reachable_inv by (auto simp: sys_inv_def)

lemma reachable_step: "sys_reachable s \<Longrightarrow> sys_step s s' \<Longrightarrow> sound_step (sy_db s) (sy_db s')"
  using sys_step_sound reachable_inv by blast

lemma reachable_steps: "sys_step\<^sup>*\<^sup>* s s' \<Longrightarrow> sys_reachable s \<Longrightarrow> sys_reachable s'"
  by (induction rule: rtranclp_induct) (auto intro: sys_reachable.step)

text \<open>Rule induction over the steps from a reachable state.\<close>

lemma steps_induct:
  assumes "sys_step\<^sup>*\<^sup>* s s'" "sys_reachable s" "Q (sy_db s)"
    and "\<And>db db'. db_inv db \<Longrightarrow> sound_step db db' \<Longrightarrow> Q db \<Longrightarrow> Q db'"
  shows "Q (sy_db s')"
  using assms(1)
proof (induction rule: rtranclp_induct)
  case (step t u)
  have "sys_reachable t" using reachable_steps step.hyps(1) assms(2) by blast
  with step.IH step.hyps(2) show ?case using assms(4) reachable_db reachable_step by blast
qed (fact assms(3))

end
