(* ===== verification/Job_Guarantees.thy ===== *)
theory Job_Guarantees
  imports Job_System
begin

text \<open>
  What the job engine guarantees in every reachable state, with a concrete deployment of one job
  for the witnesses.
\<close>

section \<open>A deployment with one job\<close>

definition demo_lib :: uuid_lib where
  "demo_lib = \<lparr>ul_validate = (\<lambda>_. True), ul_version = (\<lambda>_. 7)\<rparr>"

definition demo_input :: enqueue_input where
  "demo_input = \<lparr>ei_correlationId = ''01890A5D-ac96-774b-bcce-b302099a8057'',
     ei_handlerVersion = jint 1, ei_idempotencyKey = ''post:42'', ei_inputVersion = None,
     ei_maxAttempts = Some (jint 3), ei_priority = None, ei_queueName = ''analysis.run'',
     ei_resourceId = None, ei_resourceType = None\<rparr>"

definition demo_job :: job where
  "demo_job = \<lparr>j_id = ''j1'', j_workspaceId = ''w'', j_queueName = ''analysis.run'',
     j_handlerVersion = 1, j_idempotencyKey = ''post:42'',
     j_correlationId = ''01890a5d-ac96-774b-bcce-b302099a8057'', j_dispatchStatus = D_PENDING,
     j_state = QUEUED, j_stage = ''queued'', j_priority = 0, j_attemptCount = 0, j_maxAttempts = 3,
     j_version = 1, j_resourceType = None, j_resourceId = None, j_inputVersion = None,
     j_queuedAt = 0, j_startedAt = None, j_heartbeatAt = None, j_leaseId = None,
     j_leaseExpiresAt = None, j_nextAttemptAt = None, j_completedAt = None,
     j_lastErrorClass = None, j_lastErrorCode = None, j_nextAction = None,
     j_cancellationRequestedAt = None, j_cancellationReasonCode = None,
     j_reconciliationRequiredAt = None, j_reconciliationCode = None, j_createdAt = 0\<rparr>"

definition demo_outbox :: outbox where
  "demo_outbox = new_outbox demo_job ''o1'' 0 0"

definition demo_admin :: internal_user where
  "demo_admin = \<lparr>iu_id = ''u1'', iu_workspaceId = ''w'', iu_active = True,
     iu_workspaceActive = True, iu_admin = True, iu_sessionVersion = 1\<rparr>"

text \<open>The database before the job, with it queued, under a lease, and with its result committed.\<close>

definition demo_empty :: "nat database" where
  "demo_empty = \<lparr>db_online = True, db_jobs = [], db_attempts = [], db_outbox = [], db_audit = [],
     db_users = [demo_admin], db_analysisJobs = [], db_results = 0\<rparr>"

definition demo_queued :: "nat database" where
  "demo_queued = demo_empty\<lparr>db_jobs := [demo_job], db_outbox := [demo_outbox]\<rparr>"

definition demo_running_job :: job where
  "demo_running_job = claim_data demo_job ''L1'' 120005 5 demo_job"

definition demo_attempt :: attempt where
  "demo_attempt = claim_attempt demo_job ''L1'' ''a1'' 5"

definition demo_claim :: claim where
  "demo_claim = claim_value demo_job ''L1'' 120005"

definition demo_running :: "nat database" where
  "demo_running = demo_queued\<lparr>db_jobs := [demo_running_job], db_attempts := [demo_attempt]\<rparr>"

definition demo_done :: "nat database" where
  "demo_done = demo_running\<lparr>db_jobs := [success_data 9 demo_running_job],
     db_attempts := [success_attempt_data 9 demo_attempt], db_results := 7\<rparr>"

lemmas demo_dbs = demo_empty_def demo_queued_def demo_running_def demo_done_def

lemma demo_enqueue:
  "enqueueBackgroundJob demo_lib demo_empty ''w'' demo_input ''j1'' ''o1'' 0 =
   (Inr \<lparr>er_created = True, er_correlationId = ''01890a5d-ac96-774b-bcce-b302099a8057'',
      er_handlerVersion = 1, er_jobId = ''j1'', er_queueName = ''analysis.run'',
      er_workspaceId = ''w''\<rparr>, demo_queued)"
  by code_simp

lemma demo_claimed:
  "claimBackgroundJob demo_queued demo_queued ''w'' ''j1'' None 5 ''L1'' ''a1'' =
   (Inr (Claimed demo_claim), demo_running)"
  by code_simp

lemma demo_success:
  "commitJobSuccess demo_running ''w'' ''j1'' ''L1'' (\<lambda>n. Inr (n + 7)) 9 = (Inr (), demo_done)"
  by code_simp

definition demo_sys0 :: "nat job_system" where
  "demo_sys0 = \<lparr>sy_db = demo_empty, sy_past = [], sy_claims = [], sy_commits = []\<rparr>"

definition demo_sys1 :: "nat job_system" where
  "demo_sys1 = \<lparr>sy_db = demo_queued, sy_past = [demo_empty], sy_claims = [], sy_commits = []\<rparr>"

definition demo_sys2 :: "nat job_system" where
  "demo_sys2 = \<lparr>sy_db = demo_running, sy_past = [demo_queued, demo_empty],
     sy_claims = [(''j1'', demo_claim)], sy_commits = []\<rparr>"

definition demo_sys3 :: "nat job_system" where
  "demo_sys3 = \<lparr>sy_db = demo_done, sy_past = [demo_running, demo_queued, demo_empty],
     sy_claims = [(''j1'', demo_claim)], sy_commits = [''j1'']\<rparr>"

lemmas demo_systems = demo_sys0_def demo_sys1_def demo_sys2_def demo_sys3_def

lemma demo_step1: "sys_step demo_sys0 demo_sys1"
  using sys_step.enqueue [of demo_lib demo_sys0, OF _ ] demo_enqueue
  by (fastforce simp: demo_systems moved_def demo_dbs)

lemma demo_step2: "sys_step demo_sys1 demo_sys2"
  using sys_step.claim [of demo_queued demo_sys1 "''L1''", OF _ _ ] demo_claimed
  by (fastforce simp: demo_systems moved_def with_claim_def snapshots_def)

lemma demo_step3: "sys_step demo_sys2 demo_sys3"
  using sys_step.success [of demo_sys2] demo_success
  by (fastforce simp: demo_systems moved_def with_commit_def)

lemma demo_reachable:
  "sys_reachable demo_sys0" "sys_reachable demo_sys1" "sys_reachable demo_sys2" "sys_reachable demo_sys3"
proof -
  show 0: "sys_reachable demo_sys0"
    by (rule sys_reachable.init) (simp add: sys_init_def demo_systems demo_dbs)
  show 1: "sys_reachable demo_sys1" using 0 demo_step1 by (rule sys_reachable.step)
  show 2: "sys_reachable demo_sys2" using 1 demo_step2 by (rule sys_reachable.step)
  show "sys_reachable demo_sys3" using 2 demo_step3 by (rule sys_reachable.step)
qed

section \<open>The tables\<close>

text \<open>
  C1: in every reachable state of the engine, under any interleaving of its transactions and any
  age of the snapshots they read, the job tables agree with each other: every row is well formed
  for its state, active attempts and leases correspond one to one, and every job has its one
  outbox row.
\<close>

theorem job_tables_consistent: "sys_reachable s \<Longrightarrow> db_inv (sy_db s)"
  by (rule reachable_db)

theorem job_tables_consistent_witness: "db_inv demo_done \<and> sys_reachable demo_sys3"
  using job_tables_consistent [OF demo_reachable(4)] demo_reachable(4) by (simp add: demo_sys3_def)

text \<open>
  C2: the result of a job is committed at most once, and a job whose result was committed has
  succeeded ever since.
\<close>

theorem result_committed_once:
  "sys_reachable s \<Longrightarrow> distinct (sy_commits s) \<and>
   (\<forall>i. i \<in> set (sy_commits s) \<longrightarrow> (\<exists>r \<in> set (db_jobs (sy_db s)). j_id r = i \<and> j_state r = SUCCEEDED))"
  using reachable_inv [of s] by (simp add: sys_inv_def)

theorem result_committed_once_witness:
  "sy_commits demo_sys3 = [''j1''] \<and> (\<exists>r \<in> set (db_jobs demo_done). j_id r = ''j1'' \<and> j_state r = SUCCEEDED)"
  using result_committed_once [OF demo_reachable(4)] by (simp add: demo_sys3_def)

text \<open>
  C3: a job has at most one active attempt, however many workers received its delivery.
\<close>

theorem one_active_attempt:
  assumes "sys_reachable s" "a \<in> set (db_attempts (sy_db s))" "b \<in> set (db_attempts (sy_db s))"
    "at_state a = A_ACTIVE" "at_state b = A_ACTIVE" "at_backgroundJobId a = at_backgroundJobId b"
  shows "a = b"
proof -
  note inv = reachable_db [OF assms(1)]
  from inv assms(2,3) obtain j k where j: "j \<in> set (db_jobs (sy_db s))" "owns j a"
    and k: "k \<in> set (db_jobs (sy_db s))" "owns k b" unfolding db_inv_def leases_ok_def by blast
  with assms(6) same_id_same_job [OF inv] have "j = k" by (simp add: owns_def)
  with j k assms(4,5) have "at_leaseId a = at_leaseId b" by (simp add: owns_def)
  with same_lease_same_attempt [OF inv assms(2,3)] show ?thesis .
qed

theorem one_active_attempt_witness:
  "hd (db_attempts demo_running) = demo_attempt \<and> at_state demo_attempt = A_ACTIVE"
  using one_active_attempt [OF demo_reachable(3), of "hd (db_attempts demo_running)" demo_attempt]
  by (simp add: demo_sys2_def demo_running_def demo_attempt_def claim_attempt_def)

section \<open>Leases\<close>

text \<open>A lease nobody holds is refused by every write that names it.\<close>

lemma unheld_lease:
  assumes "\<forall>r \<in> set (db_jobs db). j_leaseId r \<noteq> Some l"
  shows "count_many (settle_where ws i l) (db_jobs db) = 0" "count_many (lease_where ws i l) (db_jobs db) = 0"
  using assms by (auto simp: count_many_def filter_empty_conv settle_where_def lease_where_def)

lemma lost_lease_refused:
  assumes "\<forall>r \<in> set (db_jobs db). j_leaseId r \<noteq> Some l"
  shows "\<exists>e. commitJobSuccess db ws i l c ts = (Inl e, db)"
    and "\<exists>e. commitJobFailure db ws i l f d ts = (Inl e, db)"
    and "\<exists>e. heartbeatBackgroundJob db ws i l ts ms = (Inl e, db)"
    and "\<exists>e. recordBackgroundJobStage db ws i l stage ts = (Inl e, db)"
proof -
  have tx: "\<exists>e. transaction code db (Inl JobLeaseLostError) = (Inl e, db)" for code
    by (simp add: transaction_def JobLeaseLostError_def)
  note none = unheld_lease [OF assms]
  show "\<exists>e. commitJobSuccess db ws i l c ts = (Inl e, db)" "\<exists>e. commitJobFailure db ws i l f d ts = (Inl e, db)"
    using none tx by (auto simp: commitJobSuccess_def commitJobFailure_def Let_def split: option.splits)
  have "\<exists>e. updateActiveAttempt db ws i l g h = (Inl e, db)" for g h
    using none tx by (simp add: updateActiveAttempt_def Let_def)
  then show "\<exists>e. heartbeatBackgroundJob db ws i l ts ms = (Inl e, db)"
    "\<exists>e. recordBackgroundJobStage db ws i l stage ts = (Inl e, db)"
    by (auto simp: heartbeatBackgroundJob_def recordBackgroundJobStage_def Let_def split: option.splits)
qed

lemma lost_lease_stays_lost:
  assumes "db_inv db" "sound_step db db'" "l \<in> leases db \<and> (\<forall>r \<in> set (db_jobs db). j_leaseId r \<noteq> Some l)"
  shows "l \<in> leases db' \<and> (\<forall>r \<in> set (db_jobs db'). j_leaseId r \<noteq> Some l)"
  using assms leases_mono lease_kept [OF assms(2,1)] by (metis subsetD)

text \<open>
  C4: a worker that has lost its lease is fenced off for good.  Once an issued lease is held by
  no job, then in every later state each of the writes a worker makes under it (the commit of a
  result, the settlement of a failure, a heartbeat, a stage) is refused and changes nothing.
\<close>

theorem lost_lease_is_fenced:
  assumes "sys_reachable s" "sys_step\<^sup>*\<^sup>* s s'" "l \<in> leases (sy_db s)"
    "\<forall>r \<in> set (db_jobs (sy_db s)). j_leaseId r \<noteq> Some l"
  shows "(\<exists>e. commitJobSuccess (sy_db s') ws i l c ts = (Inl e, sy_db s')) \<and>
    (\<exists>e. commitJobFailure (sy_db s') ws i l f d ts = (Inl e, sy_db s')) \<and>
    (\<exists>e. heartbeatBackgroundJob (sy_db s') ws i l ts ms = (Inl e, sy_db s')) \<and>
    (\<exists>e. recordBackgroundJobStage (sy_db s') ws i l stage ts = (Inl e, sy_db s'))"
proof -
  let ?Q = "\<lambda>db. l \<in> leases db \<and> (\<forall>r \<in> set (db_jobs db). j_leaseId r \<noteq> Some l)"
  have "?Q (sy_db s')"
    using assms(2,1) by (rule steps_induct) (use assms(3,4) lost_lease_stays_lost in blast)+
  then have "\<forall>r \<in> set (db_jobs (sy_db s')). j_leaseId r \<noteq> Some l" by blast
  from lost_lease_refused [OF this] show ?thesis by simp
qed

theorem lost_lease_is_fenced_witness:
  "\<exists>e. commitJobSuccess demo_done ''w'' ''j1'' ''L1'' (\<lambda>n. Inr (n + 7)) 11 = (Inl e, demo_done)"
  using lost_lease_is_fenced [OF demo_reachable(4), of demo_sys3 "''L1''" "''w''" "''j1''"]
  by (simp add: demo_sys3_def demo_done_def leases_def success_attempt_data_def demo_attempt_def
      claim_attempt_def success_data_def)

text \<open>
  C19: a claim is exclusive.  After one worker has claimed a job, a worker that read the job from
  the same snapshot is told of the version conflict, a worker that reads it now is told it is
  being processed, and neither changes anything.
\<close>

theorem claim_is_exclusive:
  assumes "claimBackgroundJob snap db ws i d now l a = (Inr (Claimed cl), db1)" "db_inv db"
    "advanced snap db" "l \<noteq> []"
  shows "claimBackgroundJob snap db1 ws i d now' l' a' = (Inr (Not_claimed CR_VERSION_CONFLICT), db1) \<and>
    claimBackgroundJob db1 db1 ws i d now' l' a' = (Inr (Not_claimed (CR_STATE PROCESSING)), db1)"
proof -
  let ?d = "coalesce d (jint defaultLeaseDurationMs)"
  from assms(1) obtain job ex as where found: "find_job ws i (db_jobs snap) = Some job"
    and job: "j_id job = i" "j_workspaceId job = ws" "j_state job = QUEUED" "j_attemptCount job < j_maxAttempts job"
    and one: "count_many (claim_where job ws) (db_jobs db) = 1"
    and db1: "db1 = db\<lparr>db_jobs := update_many (claim_where job ws) (claim_data job l ex now) (db_jobs db),
       db_attempts := as\<rparr>" by (rule claimed_cases)
  let ?P = "claim_where job ws"
  from assms(1) db1 have ok: "validatePositiveInteger ?d ''JOB_LEASE_DURATION_INVALID'' = None" "db_online db1"
    by (auto simp: claimBackgroundJob_def Let_def transaction_Inr split: option.splits)
  have inv1: "db_inv db1" using claim_sound [OF assms] by simp
  have taken: "\<not> ?P r" if "r \<in> set (db_jobs db1)" for r
  proof -
    have "\<not> ?P (claim_data job l ex now y)" for y by (simp add: claim_where_def claim_data_def)
    moreover from that db1 obtain y where "r = (if ?P y then claim_data job l ex now y else y)"
      by (auto simp: set_update_many)
    ultimately show ?thesis by metis
  qed
  then have none: "count_many ?P (db_jobs db1) = 0" by (simp add: count_many_def filter_empty_conv)
  obtain q where "q \<in> set (db_jobs db)" "?P q" using count_many_one [OF one] by blast
  then have "claim_data job l ex now q \<in> set (db_jobs db1)" "j_id (claim_data job l ex now q) = i"
    "j_workspaceId (claim_data job l ex now q) = ws"
    using db1 job by (force simp: set_update_many, simp_all add: claim_where_def claim_data_def)
  then have now: "find_job ws i (db_jobs db1) = Some (claim_data job l ex now q)"
    using find_job_Some [OF db_inv_ids [OF inv1]] by metis
  have "claimBackgroundJob snap db1 ws i d now' l' a' = (Inr (Not_claimed CR_VERSION_CONFLICT), db1)"
    using ok found job none update_many_id [OF none]
    by (simp add: claimBackgroundJob_def claim_body_def Let_def transaction_Inr)
  moreover have "claimBackgroundJob db1 db1 ws i d now' l' a' = (Inr (Not_claimed (CR_STATE PROCESSING)), db1)"
    using ok now by (simp add: claimBackgroundJob_def claim_body_def Let_def transaction_Inr claim_data_def)
  ultimately show ?thesis by simp
qed

theorem claim_is_exclusive_witness:
  "claimBackgroundJob demo_queued demo_running ''w'' ''j1'' None 6 ''L2'' ''a2'' =
     (Inr (Not_claimed CR_VERSION_CONFLICT), demo_running) \<and>
   claimBackgroundJob demo_running demo_running ''w'' ''j1'' None 6 ''L2'' ''a2'' =
     (Inr (Not_claimed (CR_STATE PROCESSING)), demo_running)"
  using claim_is_exclusive [OF demo_claimed] reachable_db [OF demo_reachable(2)]
  by (simp add: demo_sys1_def)

section \<open>The lifecycle\<close>

text \<open>
  C20: a succeeded or a cancelled job stays so, whatever happens afterwards.
\<close>

theorem terminal_states_absorbing:
  assumes "sys_reachable s" "sys_step\<^sup>*\<^sup>* s s'" "r \<in> set (db_jobs (sy_db s))"
    "j_state r \<in> {SUCCEEDED, CANCELLED}"
  shows "\<exists>r' \<in> set (db_jobs (sy_db s')). j_id r' = j_id r \<and> j_state r' = j_state r"
proof -
  let ?Q = "\<lambda>db. \<exists>q \<in> set (db_jobs db). j_id q = j_id r \<and> j_state q = j_state r"
  have "?Q db'" if "sound_step db db'" "?Q db" for db db'
  proof -
    from that obtain q where q: "q \<in> set (db_jobs db)" "j_id q = j_id r" "j_state q = j_state r" by blast
    with that obtain q' where q': "q' \<in> set (db_jobs db')" "row_step (leases db) q q'"
      unfolding progress_def by blast
    then have "lifecycle_move (j_state r) (j_state q')" "j_id q' = j_id r"
      using q by (simp_all add: row_step_def same_identity_def)
    with assms(4) have "j_state q' = j_state r"
      by (auto simp: lifecycle_from_succeeded lifecycle_from_cancelled canTransitionJob_def)
    with q' \<open>j_id q' = j_id r\<close> show ?thesis by blast
  qed
  moreover have "?Q (sy_db s)" using assms(3) by blast
  ultimately show ?thesis using steps_induct [OF assms(2,1), of ?Q] by blast
qed

theorem terminal_states_absorbing_witness:
  "\<exists>r' \<in> set (db_jobs demo_done). j_id r' = ''j1'' \<and> j_state r' = SUCCEEDED"
  using terminal_states_absorbing [OF demo_reachable(4), of demo_sys3 "success_data 9 demo_running_job"]
  by (simp add: demo_sys3_def demo_done_def success_data_def demo_running_job_def claim_data_def demo_job_def)

text \<open>
  C21: every step keeps every job row, with its identity, and moves its state along the table of
  transitions; the one move outside the table is the repair of a committed result, which takes a
  waiting job to succeeded.  A row changes without a new version only in its dispatch status.
\<close>

theorem lifecycle_followed:
  assumes "sys_reachable s" "sys_step s s'" "r \<in> set (db_jobs (sy_db s))"
  shows "\<exists>r' \<in> set (db_jobs (sy_db s')). same_identity r r' \<and>
    (j_version r < j_version r' \<or> (\<exists>d. r' = r\<lparr>j_dispatchStatus := d\<rparr>)) \<and>
    (j_state r' = j_state r \<or> canTransitionJob (j_state r) (j_state r') \<or>
     j_state r \<in> {QUEUED, RETRY_SCHEDULED} \<and> j_state r' = SUCCEEDED)"
proof -
  from reachable_step [OF assms(1,2)] assms(3) obtain r' where
    "r' \<in> set (db_jobs (sy_db s'))" "row_step (leases (sy_db s)) r r'" unfolding progress_def by blast
  then show ?thesis
    by (intro bexI [of _ r']) (auto simp: row_step_def newer_def elim!: lifecycle_move.cases)
qed

theorem lifecycle_followed_witness:
  "\<exists>r' \<in> set (db_jobs demo_running). same_identity demo_job r' \<and> canTransitionJob QUEUED (j_state r')"
  using lifecycle_followed [OF demo_reachable(2) demo_step2, of demo_job]
  by (auto simp: demo_sys1_def demo_sys2_def demo_queued_def demo_running_def demo_running_job_def claim_data_def)

section \<open>The attempt budget\<close>

lemma job_attempts_numbered:
  assumes inv: "db_inv db" and r: "r \<in> set (db_jobs db)"
  shows "int (length (filter (\<lambda>a. at_backgroundJobId a = j_id r) (db_attempts db))) \<le> j_attemptCount r"
proof -
  let ?as = "filter (\<lambda>a. at_backgroundJobId a = j_id r) (db_attempts db)"
  have "distinct (map attempt_slot ?as)"
    using inv by (simp add: db_inv_def leases_ok_def distinct_map_filter)
  moreover have "inj_on (\<lambda>n. (j_id r, n)) A" for A :: "int set" by (auto intro: inj_onI)
  moreover have "map attempt_slot ?as = map (\<lambda>n. (j_id r, n)) (map at_attemptNumber ?as)"
    by (auto simp: attempt_slot_def)
  ultimately have dist: "distinct (map at_attemptNumber ?as)" by (metis distinct_map)
  have "at_attemptNumber a \<in> {1 .. j_attemptCount r}" if a: "a \<in> set ?as" for a
  proof -
    from inv a obtain j where j: "j \<in> set (db_jobs db)" "owns j a"
      unfolding db_inv_def leases_ok_def by auto
    with a r same_id_same_job [OF inv] have "j = r" by (simp add: owns_def)
    with j show ?thesis by (simp add: owns_def)
  qed
  then have "set (map at_attemptNumber ?as) \<subseteq> {1 .. j_attemptCount r}" by auto
  then have "card (set (map at_attemptNumber ?as)) \<le> card {1 .. j_attemptCount r}"
    by (intro card_mono) auto
  then have "length ?as \<le> nat (j_attemptCount r)" using distinct_card [OF dist] by simp
  moreover have "0 \<le> j_attemptCount r" using db_inv_job [OF inv r] by (simp add: job_ok_def)
  ultimately show ?thesis by simp
qed

text \<open>
  C22: the attempts recorded for a job never exceed its attempt count, the count never exceeds the
  budget, the budget never exceeds 100, and a job that waits always has an attempt left.
\<close>

theorem attempts_within_budget:
  assumes "sys_reachable s" "r \<in> set (db_jobs (sy_db s))"
  shows "int (length (filter (\<lambda>a. at_backgroundJobId a = j_id r) (db_attempts (sy_db s)))) \<le> j_attemptCount r \<and>
    j_attemptCount r \<le> j_maxAttempts r \<and> j_maxAttempts r \<le> 100 \<and>
    (j_state r \<in> {QUEUED, RETRY_SCHEDULED} \<longrightarrow> j_attemptCount r < j_maxAttempts r)"
  using job_attempts_numbered [OF reachable_db [OF assms(1)] assms(2)]
    db_inv_job [OF reachable_db [OF assms(1)] assms(2)] by (simp add: job_ok_def)

theorem attempts_within_budget_witness:
  "int (length (filter (\<lambda>a. at_backgroundJobId a = ''j1'') (db_attempts demo_running))) \<le> 1"
  using attempts_within_budget [OF demo_reachable(3), of demo_running_job]
  by (simp add: demo_sys2_def demo_running_def demo_running_job_def claim_data_def demo_job_def)

text \<open>
  C23: a queued job can always be claimed.  In every reachable state in which the database answers,
  a claim of a queued job under identifiers not used before succeeds, for the next attempt
  number; the refusal for exhausted attempts is never the answer.
\<close>

theorem queued_job_claimable:
  assumes s: "sys_reachable s" and on: "db_online (sy_db s)" and r: "r \<in> set (db_jobs (sy_db s))"
    "j_state r = QUEUED" and fresh: "l \<notin> leases (sy_db s)" "a \<notin> at_id ` set (db_attempts (sy_db s))"
  shows "\<exists>cl db'. claimBackgroundJob (sy_db s) (sy_db s) (j_workspaceId r) (j_id r) None now l a =
      (Inr (Claimed cl), db') \<and> cl_attemptNumber cl = j_attemptCount r + 1 \<and> cl_leaseId cl = l \<and>
    (\<exists>r' \<in> set (db_jobs db'). j_id r' = j_id r \<and> j_state r' = PROCESSING \<and> j_leaseId r' = Some l)"
proof -
  let ?db = "sy_db s" and ?P = "claim_where r (j_workspaceId r)"
  note inv = reachable_db [OF s]
  have ok: "job_ok r" using db_inv_job [OF inv r(1)] .
  then have left: "j_attemptCount r < j_maxAttempts r" using r(2) by (simp add: job_ok_def)
  have found: "find_job (j_workspaceId r) (j_id r) (db_jobs ?db) = Some r"
    using find_job_Some [OF db_inv_ids [OF inv] r(1)] .
  have P: "?P r" using r left by (simp add: claim_where_def)
  have one: "count_many ?P (db_jobs ?db) = 1"
    by (rule count_many_unique [where x = r, OF db_inv_ids [OF inv] r(1)]) (use P in \<open>auto simp: claim_where_def\<close>)
  have none: "\<not> (\<exists>b \<in> set (db_attempts ?db). at_id b = a \<or> at_leaseId b = l \<or>
      at_backgroundJobId b = j_id r \<and> at_attemptNumber b = j_attemptCount r + 1)"
  proof
    assume "\<exists>b \<in> set (db_attempts ?db). at_id b = a \<or> at_leaseId b = l \<or>
      at_backgroundJobId b = j_id r \<and> at_attemptNumber b = j_attemptCount r + 1"
    with fresh obtain b where b: "b \<in> set (db_attempts ?db)" "at_backgroundJobId b = j_id r"
      "at_attemptNumber b = j_attemptCount r + 1" by (auto simp: leases_def)
    from inv b(1) obtain j where j: "j \<in> set (db_jobs ?db)" "owns j b" unfolding db_inv_def leases_ok_def by blast
    with b r same_id_same_job [OF inv] have "j = r" by (simp add: owns_def)
    with j b show False by (simp add: owns_def)
  qed
  let ?ex = "now + num_int (jint defaultLeaseDurationMs)"
  let ?db' = "?db\<lparr>db_jobs := update_many ?P (claim_data r l ?ex now) (db_jobs ?db),
    db_attempts := db_attempts ?db @ [claim_attempt r l a now]\<rparr>"
  have "validatePositiveInteger (jint defaultLeaseDurationMs) ''JOB_LEASE_DURATION_INVALID'' = None" by code_simp
  then have "claimBackgroundJob ?db ?db (j_workspaceId r) (j_id r) None now l a =
    (Inr (Claimed (claim_value r l ?ex)), ?db')"
    using on found r left one none
    by (simp add: claimBackgroundJob_def claim_body_def Let_def transaction_Inr create_attempt_def claim_attempt_def)
  moreover have "claim_data r l ?ex now r \<in> set (db_jobs ?db')" using r P by (force simp: set_update_many)
  ultimately show ?thesis
    by (intro exI [of _ "claim_value r l ?ex"] exI [of _ ?db'])
      (auto simp: claim_value_def claim_data_def intro!: bexI [of _ "claim_data r l ?ex now r"])
qed

theorem queued_job_claimable_witness:
  "\<exists>cl db'. claimBackgroundJob demo_queued demo_queued ''w'' ''j1'' None 5 ''L1'' ''a1'' =
     (Inr (Claimed cl), db') \<and> cl_attemptNumber cl = 1"
  using queued_job_claimable [OF demo_reachable(2), of demo_job "''L1''" "''a1''" 5]
  by (auto simp: demo_sys1_def demo_queued_def demo_empty_def demo_job_def leases_def)

section \<open>Runs\<close>

lemma succeeded_run_kept:
  assumes "sound_run db db'" "\<exists>r \<in> set (db_jobs db). j_id r = i \<and> j_state r = SUCCEEDED"
  shows "\<exists>r \<in> set (db_jobs db'). j_id r = i \<and> j_state r = SUCCEEDED"
  using assms by (induction rule: rtranclp_induct) (use succeeded_stays in blast)+

lemma execute_finish: "handlerExecution opts i l db = (Inr commit, db') \<Longrightarrow> ro_finish opts = Inr commit"
  by (auto simp: handlerExecution_def split: option.splits sum.splits prod.splits)

lemma settle_not_succeeded: "settleHandlerFailure db ws i cl f now rnd \<noteq> (Inr Run_succeeded, db')"
  by (auto simp: settleHandlerFailure_def Let_def
      split: option.splits sum.splits prod.splits retry_decision.splits)

lemma run_succeeded_cases:
  assumes "runIdempotentJobHandler opts db = (Inr Run_succeeded, db')"
  obtains l db1 commit where
    "commitJobSuccess db1 (ro_workspaceId opts) (en_domainJobId (ro_envelope opts)) l commit
       (ro_now opts 4) = (Inr (), db')" "ro_finish opts = Inr commit"
proof -
  have fin: "\<exists>l db1 commit. commitJobSuccess db1 (ro_workspaceId opts) i l commit
      (ro_now opts 4) = (Inr (), db') \<and> ro_finish opts = Inr commit"
    if "claimAndRun opts job d = (Inr Run_succeeded, db')" "j_id job = i" for job d i
  proof -
    from that obtain cl d1 where "runClaimedJob opts i cl d1 = (Inr Run_succeeded, db')"
      by (auto simp: claimAndRun_def Let_def elim: claimToIgnored.elims
          split: if_splits option.splits sum.splits prod.splits claim_result.splits)
    then obtain commit d2 u where "handlerExecution opts i (cl_leaseId cl) d1 = (Inr commit, d2)"
      "commitJobSuccess (ro_others opts 4 d2) (ro_workspaceId opts) i (cl_leaseId cl) commit (ro_now opts 4) = (Inr u, db')"
      by (auto simp: runClaimedJob_def settle_not_succeeded split: option.splits sum.splits prod.splits if_splits)
    then show ?thesis using execute_finish by fastforce
  qed
  obtain job d where "claimAndRun opts job d = (Inr Run_succeeded, db')" "j_id job = en_domainJobId (ro_envelope opts)"
    using assms unfolding runIdempotentJobHandler_def Let_def
    by (auto simp: loadOwnedJob_def deliveryDisposition_def dest!: find_job_SomeD
        split: option.splits sum.splits if_splits prod.splits)
  with fin that show thesis by blast
qed

text \<open>
  A delivery that reports success has committed the handler's result and the state of the
  job together, and leaves the tables consistent, whatever the other processes committed during
  the run.
\<close>

theorem handler_run_commits:
  assumes "runIdempotentJobHandler opts db = (res, db')" "db_inv db" "run_ok opts"
  shows "db_inv db' \<and> (res = Inr Run_succeeded \<longrightarrow>
    (\<exists>r \<in> set (db_jobs db'). j_id r = en_domainJobId (ro_envelope opts) \<and> j_state r = SUCCEEDED) \<and>
    (\<exists>commit before. ro_finish opts = Inr commit \<and> commit before = Inr (db_results db')))"
proof -
  have "db_inv db'" using idempotent_run_sound [OF assms] assms(2) by (rule sound_run_inv)
  moreover have "(\<exists>r \<in> set (db_jobs db'). j_id r = en_domainJobId (ro_envelope opts) \<and> j_state r = SUCCEEDED) \<and>
    (\<exists>commit before. ro_finish opts = Inr commit \<and> commit before = Inr (db_results db'))"
    if "res = Inr Run_succeeded"
  proof -
    from assms(1) that obtain l db1 commit where c: "commitJobSuccess db1 (ro_workspaceId opts)
        (en_domainJobId (ro_envelope opts)) l commit (ro_now opts 4) = (Inr (), db')"
      and f: "ro_finish opts = Inr commit" by (metis run_succeeded_cases)
    from c obtain r results where r: "settle_where (ro_workspaceId opts) (en_domainJobId (ro_envelope opts)) l r"
      "success_data (ro_now opts 4) r \<in> set (db_jobs db')" "commit (db_results db1) = Inr results" "db_results db' = results"
      by (rule success_cases)
    have "j_id (success_data (ro_now opts 4) r) = en_domainJobId (ro_envelope opts)"
      "j_state (success_data (ro_now opts 4) r) = SUCCEEDED"
      using r(1) by (simp_all add: settle_where_def lease_where_def success_data_def)
    with r f show ?thesis by blast
  qed
  ultimately show ?thesis by blast
qed

definition demo_envelope :: envelope where
  "demo_envelope = \<lparr>en_correlationId = ''01890a5d-ac96-774b-bcce-b302099a8057'',
     en_domainJobId = ''j1'', en_handlerVersion = 1, en_queueName = ''analysis.run'',
     en_workspaceId = ''w''\<rparr>"

definition demo_run :: "nat run_options" where
  "demo_run = \<lparr>ro_workspaceId = ''w'', ro_envelope = demo_envelope,
     ro_actions = [H_heartbeat 6, H_recordStage ''loading_inputs'' 7], ro_finish = Inr (\<lambda>n. Inr (n + 7)),
     ro_resultExists = (\<lambda>n. Inr (0 < n)), ro_leaseDurationMs = None, ro_now = (\<lambda>k. 5),
     ro_random = jint 0, ro_acquire = None, ro_aborted = False, ro_crash = (\<lambda>_. None),
     ro_leaseId = ''L1'', ro_attemptId = ''a1'', ro_others = (\<lambda>_ d. d)\<rparr>"

lemma demo_run_ok: "run_ok demo_run"
  by (simp add: run_ok_def demo_run_def action_ok_def)

lemma demo_run_succeeds: "fst (runIdempotentJobHandler demo_run demo_queued) = Inr Run_succeeded"
  by code_simp

theorem handler_run_commits_witness:
  "\<exists>db'. runIdempotentJobHandler demo_run demo_queued = (Inr Run_succeeded, db') \<and> db_inv db' \<and>
     db_results db' = 7 + 0"
proof -
  obtain db' where run: "runIdempotentJobHandler demo_run demo_queued = (Inr Run_succeeded, db')"
    using demo_run_succeeds by (metis prod.collapse)
  have "db_results (snd (runIdempotentJobHandler demo_run demo_queued)) = 7" by code_simp
  with handler_run_commits [OF run _ demo_run_ok] reachable_db [OF demo_reachable(2)] run
  show ?thesis by (auto simp: demo_sys1_def)
qed

text \<open>
  A delivery of a job that has succeeded does no work: when the job it names has succeeded
  and its result is there, the run answers so and leaves the tables alone.
\<close>

theorem redelivery_does_nothing:
  assumes "find_job (ro_workspaceId opts) (en_domainJobId (ro_envelope opts)) (db_jobs db) = Some r"
    "j_state r = SUCCEEDED" "db_online db" "validateDeliveryContext (ro_workspaceId opts) (ro_envelope opts) = None"
    "validateDeliveryJob r (ro_envelope opts) = None"
    "safeResultExists (ro_resultExists opts) (ro_others opts 0 db) = Inr True"
  shows "runIdempotentJobHandler opts db = (Inr Already_succeeded, ro_others opts 0 db)"
  using assms by (simp add: runIdempotentJobHandler_def loadOwnedJob_def deliveryDisposition_def Let_def)

theorem redelivery_does_nothing_witness:
  "runIdempotentJobHandler demo_run demo_done = (Inr Already_succeeded, demo_done)"
proof -
  have "find_job ''w'' ''j1'' (db_jobs demo_done) = Some (success_data 9 demo_running_job)" by code_simp
  moreover have "validateDeliveryContext ''w'' demo_envelope = None"
    "validateDeliveryJob (success_data 9 demo_running_job) demo_envelope = None" by code_simp+
  ultimately show ?thesis
    using redelivery_does_nothing [of demo_run demo_done "success_data 9 demo_running_job"]
    by (simp add: demo_run_def demo_envelope_def safeResultExists_def demo_done_def demo_running_def
        demo_queued_def demo_empty_def success_data_def)
qed

end
