(* ===== verification/Job_Recovery.thy ===== *)
theory Job_Recovery
  imports Job_Guarantees
begin

text \<open>
  That jobs move again: the recovery of an expired lease, the release of a due retry, the
  redelivery of a stranded job and the whole reconciliation pass, and that what the dispatcher
  publishes is what the worker accepts.
\<close>

section \<open>Reading reread what was written\<close>

lemma outbox_of_row:
  assumes inv: "db_inv db" and r: "r \<in> set (db_jobs db)"
  obtains ob where "ob \<in> set (db_outbox db)" "outbox_of (j_id r) (db_outbox db) = Some ob" "delivers r ob"
proof -
  obtain ob where ob: "ob \<in> set (db_outbox db)" "delivers r ob" using outbox_row [OF inv r] by blast
  then have id: "ob_backgroundJobId ob = j_id r" by (simp add: delivers_def)
  then obtain x where x: "outbox_of (j_id r) (db_outbox db) = Some x" unfolding outbox_of_def
    using ob(1) find_None_iff2 [of "\<lambda>ob. ob_backgroundJobId ob = j_id r" "db_outbox db"] by fastforce
  then have "x \<in> set (db_outbox db)" "ob_backgroundJobId x = j_id r"
    unfolding outbox_of_def by (auto dest: find_Some_iff2)
  moreover have "distinct (map ob_backgroundJobId (db_outbox db))"
    using inv by (simp add: db_inv_def outbox_ok_def)
  ultimately have "x = ob" using ob(1) id distinct_map_inj [of ob_backgroundJobId] by metis
  with ob x that show thesis by blast
qed

text \<open>A query that names one row finds it.\<close>

lemma find_row:
  assumes "distinct (map j_id rows)" "r \<in> set rows" "P r" "\<And>q. P q \<Longrightarrow> j_id q = j_id r"
  shows "find P rows = Some r"
proof (cases "find P rows")
  case None
  with assms(2,3) show ?thesis by (simp add: find_None_iff2)
next
  case (Some q)
  with find_Some_iff2 [OF Some] assms distinct_map_inj [OF assms(1)] show ?thesis by metis
qed

lemma count_row:
  assumes "distinct (map j_id rows)" "r \<in> set rows" "P r" "\<And>q. P q \<Longrightarrow> j_id q = j_id r"
  shows "count_many P rows = 1"
  using assms(1,2) by (rule count_many_unique) (fact assms(3), metis assms(4))

lemma holder_count:
  assumes "db_inv db" "r \<in> set (db_jobs db)" "j_leaseId r = Some l"
  shows "count_many (\<lambda>a. at_leaseId a = l \<and> at_state a = A_ACTIVE) (db_attempts db) = 1"
proof -
  obtain a where a: "a \<in> set (db_attempts db)" "holds r a" "at_leaseId a = l"
    using lease_issued [OF assms] .
  have "distinct (map at_leaseId (db_attempts db))" using assms(1) by (simp add: db_inv_def leases_ok_def)
  then show ?thesis using a(1) by (rule count_many_unique) (use a in \<open>auto simp: holds_def\<close>)
qed

text \<open>The row of the job is due for dispatch.\<close>

definition delivery_pending :: "'r database \<Rightarrow> string \<Rightarrow> time \<Rightarrow> bool" where
  "delivery_pending db jobId now \<longleftrightarrow>
     (\<exists>ob \<in> set (db_outbox db). ob_backgroundJobId ob = jobId \<and> outbox_pending now ob)"

lemma upsert_pending:
  assumes "db_outbox db' = upsert_outbox job now oid due dbNow (db_outbox db)"
    "ob \<in> set (db_outbox db)" "ob_backgroundJobId ob = j_id job"
  shows "delivery_pending db' (j_id job) now"
proof -
  have "reset_outbox_data now ob \<in> set (db_outbox db')"
    using assms by (auto simp: upsert_outbox_def set_update_many)
  then show ?thesis using assms(3)
    by (auto simp: delivery_pending_def outbox_pending_def reset_outbox_data_def
        intro!: bexI [of _ "reset_outbox_data now ob"])
qed

section \<open>Recovery of an expired lease\<close>

text \<open>
  C24: when the lease of a job has expired, its recovery succeeds.  The job loses the lease and
  becomes cancelled, a failure for attention or queued again, as the cancellation request and the
  attempt budget say, and a queued job is due for dispatch at once.
\<close>

theorem expired_lease_recovered:
  assumes inv: "db_inv db" and on: "db_online db" and r: "r \<in> set (db_jobs db)"
    and exp: "j_state r = PROCESSING" "j_leaseExpiresAt r = Some e" "e \<le> now"
  shows "\<exists>db' r'. recoverExpiredBackgroundJobLease db db (j_workspaceId r) (j_id r) now None = (Inr True, db') \<and>
    find_job (j_workspaceId r) (j_id r) (db_jobs db') = Some r' \<and> j_leaseId r' = None \<and>
    j_state r' = (if j_cancellationRequestedAt r \<noteq> None then CANCELLED
      else if j_attemptCount r \<ge> j_maxAttempts r then FAILED_ATTENTION else QUEUED) \<and>
    (j_state r' = QUEUED \<longrightarrow> delivery_pending db' (j_id r) now)"
proof -
  note ids = db_inv_ids [OF inv] and ok = db_inv_job [OF inv r]
  from ok exp(1) obtain l where l: "j_leaseId r = Some l" "l \<noteq> []" by (auto simp: job_ok_def)
  let ?Q = "\<lambda>q. j_id q = j_id r \<and> expired_where now q \<and> j_workspaceId q = j_workspaceId r"
  let ?P = "\<lambda>q. j_id q = j_id r \<and> expired_where now q \<and> j_leaseId q = Some l \<and>
    j_version q = j_version r \<and> j_workspaceId q = j_workspaceId r"
  let ?PA = "\<lambda>a. at_leaseId a = l \<and> at_state a = A_ACTIVE"
  have ew: "expired_where now r" using exp by (simp add: expired_where_def)
  have found: "find ?Q (db_jobs db) = Some r" by (rule find_row [OF ids r]) (use ew in auto)
  have one: "count_many ?P (db_jobs db) = 1" by (rule count_row [OF ids r]) (use ew l in auto)
  let ?db' = "db\<lparr>db_jobs := update_many ?P (recover_data r now) (db_jobs db),
    db_attempts := update_many ?PA (recover_attempt_data r now) (db_attempts db),
    db_outbox := recover_outbox r now (db_outbox db)\<rparr>"
  have tr: "assertJobTransition PROCESSING (recover_next_state r) = None"
    by (simp add: recover_next_state_def)
  have run: "recoverExpiredBackgroundJobLease db db (j_workspaceId r) (j_id r) now None = (Inr True, ?db')"
    using on found one l holder_count [OF inv r l(1)] tr
    by (simp add: recoverExpiredBackgroundJobLease_def parseCorrelationId_def recover_body_def Let_def transaction_Inr)
  let ?r' = "recover_data r now r"
  have "?r' \<in> set (db_jobs ?db')" using r ew l by (force simp: set_update_many)
  then have reread: "find_job (j_workspaceId r) (j_id r) (db_jobs ?db') = Some ?r'"
    using find_job_Some [OF db_inv_ids, of ?db' ?r'] recover_sound [OF run inv advanced_refl]
    by (simp add: recover_data_def Let_def)
  have "delivery_pending ?db' (j_id r) now" if q: "recover_next_state r = QUEUED"
  proof -
    have nc: "j_cancellationRequestedAt r = None" using q by (auto simp: recover_next_state_def split: if_splits)
    obtain ob where ob: "ob \<in> set (db_outbox db)" "delivers r ob" using outbox_row [OF inv r] by blast
    then have "ob_cancelledAt ob = None" "ob_backgroundJobId ob = j_id r"
      using nc exp(1) by (auto simp: delivers_def may_cancel_def)
    then have "redeliver_outbox_data now ob \<in> set (db_outbox ?db')"
      using ob(1) q nc by (force simp: recover_outbox_def set_update_many)
    then show ?thesis using \<open>ob_cancelledAt ob = None\<close> \<open>ob_backgroundJobId ob = j_id r\<close>
      by (auto simp: delivery_pending_def outbox_pending_def redeliver_outbox_data_def
          intro!: bexI [of _ "redeliver_outbox_data now ob"])
  qed
  with run reread show ?thesis
    by (intro exI [of _ ?db'] exI [of _ ?r']) (auto simp: recover_data_def recover_next_state_def Let_def)
qed

theorem expired_lease_recovered_witness:
  "\<exists>db' r'. recoverExpiredBackgroundJobLease demo_running demo_running ''w'' ''j1'' 200000 None = (Inr True, db') \<and>
     find_job ''w'' ''j1'' (db_jobs db') = Some r' \<and> j_state r' = QUEUED \<and> delivery_pending db' ''j1'' 200000"
  using expired_lease_recovered [of demo_running demo_running_job 120005 200000] reachable_db [OF demo_reachable(3)]
  by (auto simp: demo_sys2_def demo_running_def demo_queued_def demo_empty_def demo_running_job_def
      claim_data_def demo_job_def)

section \<open>Due retries and stranded deliveries\<close>

text \<open>
  A scheduled retry whose time has come is queued again by the reconciler and is due for
  dispatch at once.
\<close>

theorem due_retry_requeued:
  assumes inv: "db_inv db" and on: "db_online db" and r: "r \<in> set (db_jobs db)" and due: "due_retry_where now r"
  shows "\<exists>db' r'. requeueDueRetry db db (j_id r) (j_workspaceId r) c now oid dbNow = (Inr True, db') \<and>
    find_job (j_workspaceId r) (j_id r) (db_jobs db') = Some r' \<and> j_state r' = QUEUED \<and>
    delivery_pending db' (j_id r) now"
proof -
  note ids = db_inv_ids [OF inv]
  let ?Q = "\<lambda>q. j_id q = j_id r \<and> due_retry_where now q \<and> j_workspaceId q = j_workspaceId r"
  let ?P = "\<lambda>q. j_id q = j_id r \<and> due_retry_where now q \<and> j_version q = j_version r"
  have found: "find ?Q (db_jobs db) = Some r" by (rule find_row [OF ids r]) (use due in auto)
  have one: "count_many ?P (db_jobs db) = 1" by (rule count_row [OF ids r]) (use due in auto)
  let ?db' = "job_audit c (j_workspaceId r) (j_id r) REPAIRED ''RETRY_DUE_REQUEUED'' now
    (db\<lparr>db_jobs := update_many ?P (requeue_data now) (db_jobs db),
        db_outbox := resetOutbox r now oid dbNow (db_outbox db)\<rparr>)"
  have run: "requeueDueRetry db db (j_id r) (j_workspaceId r) c now oid dbNow = (Inr True, ?db')"
    using on found one by (simp add: requeueDueRetry_def bare_transaction_Inr Let_def)
  have jobs: "db_jobs ?db' = update_many ?P (requeue_data now) (db_jobs db)"
    and out: "db_outbox ?db' = upsert_outbox r now oid now dbNow (db_outbox db)"
    by (simp_all add: job_audit_def add_audit_def resetOutbox_def)
  have "requeue_data now r \<in> set (db_jobs ?db')" unfolding jobs using r due by (force simp: set_update_many)
  then have reread: "find_job (j_workspaceId r) (j_id r) (db_jobs ?db') = Some (requeue_data now r)"
    using find_job_Some [OF db_inv_ids, of ?db' "requeue_data now r"] due_retry_sound [OF run inv]
    by (simp add: requeue_data_def)
  obtain ob where "ob \<in> set (db_outbox db)" "ob_backgroundJobId ob = j_id r"
    using outbox_row [OF inv r] by (auto simp: delivers_def)
  from upsert_pending [OF out this] run reread show ?thesis
    by (intro exI [of _ ?db'] exI [of _ "requeue_data now r"]) (simp add: requeue_data_def)
qed

definition demo_failure :: job_failure where
  "demo_failure = \<lparr>jf_credentialRecoverable = None, jf_errorClass = TRANSIENT,
     jf_errorCode = ''PROVIDER_UNAVAILABLE'', jf_providerRetryAfterMs = None\<rparr>"

definition demo_retry_job :: job where
  "demo_retry_job = failure_data demo_failure (Retry (jint 1000) 1009) 9 demo_running_job"

definition demo_retry :: "nat database" where
  "demo_retry = demo_running\<lparr>db_jobs := [demo_retry_job],
     db_attempts := [failure_attempt_data demo_failure (Retry (jint 1000) 1009) 9 demo_attempt]\<rparr>"

lemma demo_retry_inv: "db_inv demo_retry"
  by code_simp

theorem due_retry_requeued_witness:
  "\<exists>db' r'. requeueDueRetry demo_retry demo_retry ''j1'' ''w'' ''c'' 1009 ''o2'' 1009 = (Inr True, db') \<and>
     find_job ''w'' ''j1'' (db_jobs db') = Some r' \<and> j_state r' = QUEUED \<and> delivery_pending db' ''j1'' 1009"
  using due_retry_requeued [OF demo_retry_inv, of demo_retry_job 1009 "''c''" "''o2''" 1009]
  by (auto simp: demo_retry_def demo_retry_job_def demo_running_def demo_queued_def demo_empty_def
      demo_running_job_def demo_job_def claim_data_def failure_data_def due_retry_where_def
      decision_next_def decision_state_def)

text \<open>
  A queued job whose delivery was handed to the queue longer ago than a delivery can live is
  sent again.
\<close>

theorem stranded_delivery_requeued:
  assumes inv: "db_inv db" and on: "db_online db" and r: "r \<in> set (db_jobs db)" and st: "stranded_where now db r"
  shows "\<exists>db' r'. requeueStrandedDelivery db db (j_id r) (j_workspaceId r) c now oid dbNow = (Inr True, db') \<and>
    find_job (j_workspaceId r) (j_id r) (db_jobs db') = Some r' \<and> j_state r' = QUEUED \<and>
    delivery_pending db' (j_id r) now"
proof -
  note ids = db_inv_ids [OF inv]
  let ?Q = "\<lambda>q. j_id q = j_id r \<and> j_leaseId q = None \<and>
    (case outbox_of (j_id q) (db_outbox db) of None \<Rightarrow> False
     | Some ob \<Rightarrow> ob_cancelledAt ob = None \<and> ob_dispatchedAt ob \<noteq> None) \<and>
    j_state q = QUEUED \<and> j_workspaceId q = j_workspaceId r"
  let ?P = "\<lambda>q. j_id q = j_id r \<and> j_version q = j_version r \<and> j_workspaceId q = j_workspaceId r"
  have Q: "?Q r" using st by (auto simp: stranded_where_def sql_lte_iff split: option.splits)
  have found: "find ?Q (db_jobs db) = Some r" by (rule find_row [OF ids r]) (use Q in auto)
  have one: "count_many ?P (db_jobs db) = 1" by (rule count_row [OF ids r]) auto
  let ?db' = "job_audit c (j_workspaceId r) (j_id r) REPAIRED ''STRANDED_DELIVERY_REQUEUED'' now
    (db\<lparr>db_jobs := update_many ?P redispatch_data (db_jobs db),
        db_outbox := resetOutbox r now oid dbNow (db_outbox db)\<rparr>)"
  have run: "requeueStrandedDelivery db db (j_id r) (j_workspaceId r) c now oid dbNow = (Inr True, ?db')"
    unfolding requeueStrandedDelivery_def found using on one by (simp add: bare_transaction_Inr Let_def)
  have jobs: "db_jobs ?db' = update_many ?P redispatch_data (db_jobs db)"
    and out: "db_outbox ?db' = upsert_outbox r now oid now dbNow (db_outbox db)"
    by (simp_all add: job_audit_def add_audit_def resetOutbox_def)
  have "redispatch_data r \<in> set (db_jobs ?db')" unfolding jobs using r by (force simp: set_update_many)
  then have reread: "find_job (j_workspaceId r) (j_id r) (db_jobs ?db') = Some (redispatch_data r)"
    using find_job_Some [OF db_inv_ids, of ?db' "redispatch_data r"] stranded_sound [OF run inv advanced_refl]
    by (simp add: redispatch_data_def)
  obtain ob where "ob \<in> set (db_outbox db)" "ob_backgroundJobId ob = j_id r"
    using outbox_row [OF inv r] by (auto simp: delivers_def)
  from upsert_pending [OF out this] run reread Q show ?thesis
    by (intro exI [of _ ?db'] exI [of _ "redispatch_data r"]) (simp add: redispatch_data_def)
qed

definition demo_stranded :: "nat database" where
  "demo_stranded = demo_queued\<lparr>db_jobs := [demo_job\<lparr>j_dispatchStatus := D_DISPATCHED\<rparr>],
     db_outbox := [dispatched_data ''d1'' 3 demo_outbox]\<rparr>"

lemma demo_stranded_inv: "db_inv demo_stranded"
  by code_simp

theorem stranded_delivery_requeued_witness:
  "\<exists>db' r'. requeueStrandedDelivery demo_stranded demo_stranded ''j1'' ''w'' ''c'' 100000003 ''o2'' 9 = (Inr True, db') \<and>
     find_job ''w'' ''j1'' (db_jobs db') = Some r' \<and> j_state r' = QUEUED \<and> delivery_pending db' ''j1'' 100000003"
  using stranded_delivery_requeued [OF demo_stranded_inv, of "demo_job\<lparr>j_dispatchStatus := D_DISPATCHED\<rparr>"
    100000003 "''c''" "''o2''" 9]
  by (auto simp: demo_stranded_def demo_queued_def demo_empty_def demo_job_def stranded_where_def
      outbox_of_def demo_outbox_def new_outbox_def dispatched_data_def queueDeliveryExpirySeconds_def)

section \<open>No job is stuck\<close>

text \<open>
  C25: in every reachable state, every job that is not finished will be picked up.  From some
  instant on, either its delivery is due for dispatch, or the reconciliation pass finds it, with
  an expired lease, a retry that is due or a delivery that was lost.
\<close>

theorem no_job_is_stuck:
  assumes "sys_reachable s" and r: "r \<in> set (db_jobs (sy_db s))" and unfinished: "\<not> isTerminalJobState (j_state r)"
  shows "\<exists>t. \<forall>now \<ge> t. expired_where now r \<or> due_retry_where now r \<or> stranded_where now (sy_db s) r \<or>
    delivery_pending (sy_db s) (j_id r) now"
proof -
  note inv = reachable_db [OF assms(1)]
  note ok = db_inv_job [OF inv r]
  show ?thesis
  proof (cases "j_state r")
    case PROCESSING
    with ok obtain e where "j_leaseExpiresAt r = Some e" by (auto simp: job_ok_def)
    with PROCESSING show ?thesis by (intro exI [of _ e]) (simp add: expired_where_def)
  next
    case RETRY_SCHEDULED
    with ok obtain t where "j_nextAttemptAt r = Some t" by (auto simp: job_ok_def)
    with RETRY_SCHEDULED show ?thesis by (intro exI [of _ t]) (simp add: due_retry_where_def)
  next
    case QUEUED
    obtain ob where ob: "ob \<in> set (db_outbox (sy_db s))" "outbox_of (j_id r) (db_outbox (sy_db s)) = Some ob"
      "delivers r ob" using outbox_of_row [OF inv r] .
    have nc: "ob_cancelledAt ob = None" "ob_backgroundJobId ob = j_id r"
      using ob(3) ok QUEUED by (auto simp: delivers_def may_cancel_def job_ok_def)
    show ?thesis
    proof (cases "ob_dispatchedAt ob")
      case None
      have "outbox_pending now ob"
        if "max (ob_nextAttemptAt ob) (coalesce (ob_leaseExpiresAt ob) 0) \<le> now" for now
        using None nc that by (cases "ob_leaseExpiresAt ob") (auto simp: outbox_pending_def)
      with ob(1) nc(2) show ?thesis unfolding delivery_pending_def by blast
    next
      case (Some d)
      have "j_leaseId r = None" using unleased [OF ok] QUEUED by simp
      with Some QUEUED ob(2) nc(1) show ?thesis
        by (intro exI [of _ "d + queueDeliveryExpirySeconds * 1000"]) (simp add: stranded_where_def)
    qed
  qed (use unfinished in simp_all)
qed

theorem no_job_is_stuck_witness:
  "\<exists>now. expired_where now demo_job \<or> due_retry_where now demo_job \<or>
     stranded_where now demo_queued demo_job \<or> delivery_pending demo_queued ''j1'' now"
proof -
  have "demo_job \<in> set (db_jobs (sy_db demo_sys1))" "\<not> isTerminalJobState (j_state demo_job)"
    "sy_db demo_sys1 = demo_queued" "j_id demo_job = ''j1''"
    by (simp_all add: demo_sys1_def demo_queued_def demo_job_def)
  with no_job_is_stuck [OF demo_reachable(2), of demo_job] show ?thesis by (metis order_refl)
qed

section \<open>From the dispatcher to the worker\<close>

text \<open>
  Whatever the dispatcher publishes, the worker accepts: the correlation of an outbox row
  always parses to itself, and the envelope made of the row passes both delivery checks of the
  run against the job it names.
\<close>

theorem published_envelope_accepted:
  assumes inv: "db_inv db" and ob: "ob \<in> set (db_outbox db)"
  shows "parseCorrelationId (Some (ob_correlationId ob)) = Some (ob_correlationId ob) \<and>
    (let en = outbox_envelope (ob_correlationId ob) ob in
     validateDeliveryContext (ob_workspaceId ob) en = None \<and>
     (\<exists>r. find_job (ob_workspaceId ob) (en_domainJobId en) (db_jobs db) = Some r \<and> validateDeliveryJob r en = None))"
proof -
  from inv ob obtain r where r: "r \<in> set (db_jobs db)" "delivers r ob" by (auto simp: db_inv_def outbox_ok_def)
  then have eq: "ob_workspaceId ob = j_workspaceId r" "ob_backgroundJobId ob = j_id r"
    "ob_correlationId ob = j_correlationId r" "ob_queueName ob = j_queueName r"
    "ob_handlerVersion ob = j_handlerVersion r" by (simp_all add: delivers_def)
  have "deliverable (j_queueName r) (j_handlerVersion r) (j_correlationId r)"
    using db_inv_job [OF inv r(1)] by (simp add: job_ok_def)
  with eq find_job_Some [OF db_inv_ids [OF inv] r(1)] show ?thesis
    by (simp add: outbox_envelope_def validateDeliveryContext_def validateDeliveryJob_def deliverable_def Let_def)
qed

theorem published_envelope_accepted_witness:
  "parseCorrelationId (Some (ob_correlationId demo_outbox)) = Some (ob_correlationId demo_outbox) \<and>
   validateDeliveryJob demo_job (outbox_envelope (ob_correlationId demo_outbox) demo_outbox) = None"
  using published_envelope_accepted [of demo_queued demo_outbox] reachable_db [OF demo_reachable(2)]
  by (auto simp: demo_sys1_def demo_queued_def Let_def find_job_def outbox_envelope_def demo_outbox_def
      new_outbox_def split: if_splits)

section \<open>The reconciliation pass\<close>

text \<open>
  C26: a reconciliation pass, whichever of its repairs it makes and wherever an exception ends it
  (a repair that fails, an unreachable database, an inspector or a cleanup hook that rejects), leaves
  the tables consistent and every succeeded job succeeded, provided its cleanup hooks do, also when
  they reject.
\<close>

theorem reconciliation_pass_safe:
  assumes "reconcileBackgroundJobs env batch db = (res, db')" "db_inv db" "\<forall>h \<in> set (re_hooks env). hook_ok h"
  shows "db_inv db' \<and> (\<forall>r \<in> set (db_jobs db). j_state r = SUCCEEDED \<longrightarrow>
    (\<exists>r' \<in> set (db_jobs db'). j_id r' = j_id r \<and> j_state r' = SUCCEEDED))"
proof -
  have run: "sound_run db db'" by (rule reconcile_sound [OF assms])
  then show ?thesis using sound_run_inv [OF run assms(2)] succeeded_run_kept [OF run] by blast
qed

definition demo_env :: "nat reconcile_env" where
  "demo_env = \<lparr>re_scan = (\<lambda>rows. rows), re_inspect = (\<lambda>n j. Inr (if 0 < n then PRESENT else ABSENT)),
     re_hooks = [(\<lambda>batch now d. (Inl (Exn_other ''hook''), d))], re_lib = demo_lib,
     re_correlationId = ''01890a5d-ac96-774b-bcce-b302099a8057'', re_now = 200000, re_dbNow = 200000,
     re_newId = (\<lambda>j. ''o2'')\<rparr>"

text \<open>The pass repairs a job, and ends with the exception of its hook.\<close>

theorem reconciliation_pass_safe_witness:
  "\<exists>db'. reconcileBackgroundJobs demo_env None demo_running = (Inl (Exn_other ''hook''), db') \<and>
     map j_state (db_jobs db') \<noteq> map j_state (db_jobs demo_running) \<and> db_inv db'"
proof -
  let ?run = "reconcileBackgroundJobs demo_env None demo_running"
  have "isl (fst ?run) \<and> projl (fst ?run) = Exn_other ''hook''" by code_simp
  then have run: "?run = (Inl (Exn_other ''hook''), snd ?run)" by (metis prod.collapse sum.collapse(1))
  have moved: "map j_state (db_jobs (snd ?run)) \<noteq> map j_state (db_jobs demo_running)" by code_simp
  have "\<forall>h \<in> set (re_hooks demo_env). hook_ok h" by (simp add: demo_env_def hook_ok_def)
  with reconciliation_pass_safe [OF run] reachable_db [OF demo_reachable(3)] have "db_inv (snd ?run)"
    by (simp add: demo_sys2_def)
  with run moved show ?thesis by blast
qed

end
