(* ===== verification/Job_Requests.thy ===== *)
theory Job_Requests
  imports Job_Recovery
begin

text \<open>
  What the callers of the engine may rely on: enqueueing under an idempotency key, cancelling,
  retrying by hand, and the limits an operator works under.
\<close>

section \<open>Enqueueing\<close>

lemma enqueue_cases:
  assumes "enqueueBackgroundJob lib db ws i jobId oid t = (Inr res, db1)"
  obtains job where "validateEnqueue lib i = None" "uuid_pattern (ei_correlationId i)" "db_online db"
    "find (same_job_key (new_job ws i jobId t)) (db_jobs db1) = Some job"
    "db_jobs db1 = insert_job (new_job ws i jobId t) (db_jobs db)"
    "\<not> idempotency_conflict i jobId job" "er_jobId res = j_id job" "er_created res \<longleftrightarrow> j_id job = jobId" "db_online db1"
  using assms
  by (auto simp: enqueueBackgroundJob_def transaction_Inr enqueueBackgroundJobInTransaction_def Let_def
      split: option.splits if_splits)

text \<open>
  C27: enqueueing is idempotent.  A second request with the same input, whatever identifiers it
  brings, answers with the job of the first and changes nothing.  The exception is a resource given in
  another spelling than the column returns it in, with an upper-case digit: the request that creates the job is
  accepted, and the second is refused as a conflict with it.
\<close>

theorem enqueue_idempotent:
  assumes first: "enqueueBackgroundJob lib db ws i jobId oid t = (Inr res, db1)" and inv: "db_inv db"
    and fresh: "jobId \<notin> j_id ` set (db_jobs db)" "oid \<notin> ob_id ` set (db_outbox db)"
  shows "if er_created res \<and> map_option (map lower_char) (ei_resourceId i) \<noteq> ei_resourceId i \<and> jobId' \<noteq> er_jobId res
    then enqueueBackgroundJob lib db1 ws i jobId' oid' t' =
      (Inl (Exn_operational (OperationalError ''JOB_IDEMPOTENCY_CONFLICT'' Conflict None (jint 409))), db1)
    else \<exists>res'. enqueueBackgroundJob lib db1 ws i jobId' oid' t' = (Inr res', db1) \<and>
      er_jobId res' = er_jobId res \<and> (er_created res' \<longleftrightarrow> er_jobId res = jobId')"
proof -
  let ?new = "new_job ws i jobId t" and ?new' = "new_job ws i jobId' t'"
  from first obtain job where v: "validateEnqueue lib i = None" "uuid_pattern (ei_correlationId i)" "db_online db"
    and job: "find (same_job_key ?new) (db_jobs db1) = Some job" "db_jobs db1 = insert_job ?new (db_jobs db)"
      "\<not> idempotency_conflict i jobId job" and res: "er_jobId res = j_id job" "er_created res \<longleftrightarrow> j_id job = jobId" and on: "db_online db1"
    by (rule enqueue_cases)
  have key: "same_job_key ?new = same_job_key ?new'" by (rule ext) (simp add: same_job_key_def new_job_def)
  note found = find_Some_iff2 [OF job(1)]
  have inv1: "db_inv db1" using enqueue_sound [OF first inv fresh(2)] by simp
  have same: "insert_job ?new' (db_jobs db1) = db_jobs db1"
    using found unfolding key by (auto simp: insert_job_def same_job_key_def)
  have agree: "idempotency_conflict i jobId' job \<longleftrightarrow> er_created res \<and> map_option (map lower_char) (ei_resourceId i) \<noteq> ei_resourceId i \<and>
      jobId' \<noteq> er_jobId res"
  proof (cases "j_id job = jobId")
    case True
    with found job(2) fresh(1) have "job = ?new" by (auto simp: insert_job_def new_job_def split: if_splits)
    with True res show ?thesis by (auto simp: idempotency_conflict_def new_job_def)
  next
    case False
    with job(3) res show ?thesis by (simp add: idempotency_conflict_def)
  qed
  obtain ob where "ob \<in> set (db_outbox db1)" "ob_backgroundJobId ob = j_id job"
    using outbox_row [OF inv1] found by (auto simp: delivers_def)
  then have out: "insert_outbox (new_outbox job oid' t' t') (db_outbox db1) = db_outbox db1"
    by (auto simp: insert_outbox_def new_outbox_def)
  show ?thesis
    using v on job(1) same agree out res unfolding key
    by (auto simp: enqueueBackgroundJob_def transaction_def enqueueBackgroundJobInTransaction_def Let_def)
qed

theorem enqueue_idempotent_witness:
  "\<exists>res'. enqueueBackgroundJob demo_lib demo_queued ''w'' demo_input ''j2'' ''o2'' 50 = (Inr res', demo_queued) \<and>
     er_jobId res' = ''j1'' \<and> \<not> er_created res'"
  using enqueue_idempotent [OF demo_enqueue, of "''j2''" "''o2''" 50] reachable_db [OF demo_reachable(1)]
  by (auto simp: demo_sys0_def demo_empty_def demo_input_def)

text \<open>
  The key of a job cannot be reused for other work.  A request whose key is taken by a job
  with another input version, priority or resource is refused as a conflict, and nothing is
  written.
\<close>

theorem enqueue_conflict_refused:
  assumes "validateEnqueue lib i = None" "uuid_pattern (ei_correlationId i)" "db_online db"
    "find (same_job_key (new_job ws i jobId t)) (db_jobs db) = Some job" "j_id job \<noteq> jobId"
    "j_priority job \<noteq> num_int (coalesce (ei_priority i) (jint 0)) \<or>
     j_inputVersion job \<noteq> map_option trim (ei_inputVersion i) \<or>
     j_resourceId job \<noteq> ei_resourceId i \<or> j_resourceType job \<noteq> map_option trim (ei_resourceType i)"
  shows "enqueueBackgroundJob lib db ws i jobId oid t =
    (Inl (Exn_operational (OperationalError ''JOB_IDEMPOTENCY_CONFLICT'' Conflict None (jint 409))), db)"
proof -
  let ?new = "new_job ws i jobId t"
  note found = find_Some_iff2 [OF assms(4)]
  then have "insert_job ?new (db_jobs db) = db_jobs db" by (auto simp: insert_job_def same_job_key_def)
  moreover have "idempotency_conflict i jobId job"
    using assms(5,6) by (auto simp: idempotency_conflict_def)
  ultimately show ?thesis using assms(1-4)
    by (simp add: enqueueBackgroundJob_def transaction_def enqueueBackgroundJobInTransaction_def Let_def)
qed

theorem enqueue_conflict_refused_witness:
  "enqueueBackgroundJob demo_lib demo_queued ''w'' (demo_input\<lparr>ei_priority := Some (jint 5)\<rparr>) ''j2'' ''o2'' 50 =
   (Inl (Exn_operational (OperationalError ''JOB_IDEMPOTENCY_CONFLICT'' Conflict None (jint 409))), demo_queued)"
proof -
  let ?i = "demo_input\<lparr>ei_priority := Some (jint 5)\<rparr>"
  have "validateEnqueue demo_lib ?i = None" "uuid_pattern (ei_correlationId ?i)" "db_online demo_queued"
    "find (same_job_key (new_job ''w'' ?i ''j2'' 50)) (db_jobs demo_queued) = Some demo_job" by code_simp+
  then show ?thesis
    by (rule enqueue_conflict_refused) (simp_all add: demo_job_def demo_input_def)
qed

section \<open>Operator requests\<close>

text \<open>A request of an authorised operator for a job of the workspace.\<close>

definition may_operate ::
  "uuid_lib \<Rightarrow> 'r database \<Rightarrow> string \<Rightarrow> principal \<Rightarrow> job \<Rightarrow> string \<Rightarrow> time \<Rightarrow> operation \<Rightarrow> prepared \<Rightarrow>
   internal_user \<Rightarrow> bool" where
  "may_operate lib db c who r reason now opn p actor \<longleftrightarrow>
     prepareOperation lib c who (j_id r) reason now = Inr p \<and> pp_validJobId p \<and>
     authoriseOperation db p opn now = Guard_allowed actor \<and> iu_workspaceId actor = j_workspaceId r"

lemma prepared_fields:
  "prepareOperation lib c who i reason now = Inr p \<Longrightarrow> pp_jobId p = i \<and> pp_reasonCode p = reason"
  by (auto simp: prepareOperation_def split: option.splits if_splits)

text \<open>
  Cancelling a job that waits cancels it at once, with its delivery, and leaves an audit
  event of the operator.
\<close>

theorem waiting_job_cancelled:
  assumes inv: "db_inv db" and on: "db_online db" and r: "r \<in> set (db_jobs db)" "j_state r \<in> {QUEUED, RETRY_SCHEDULED}"
    and ok: "may_operate lib db c who r reason now Job_cancel p actor"
  shows "\<exists>db' r' e. cancelBackgroundJob lib db db c who (j_id r) reason now = (Inr (OP_CANCELLED, reason), db') \<and>
    find_job (j_workspaceId r) (j_id r) (db_jobs db') = Some r' \<and> j_state r' = CANCELLED \<and>
    (\<forall>ob \<in> set (db_outbox db'). ob_backgroundJobId ob = j_id r \<longrightarrow> ob_cancelledAt ob = Some now) \<and>
    db_audit db' = db_audit db @ [e] \<and> ae_actor e = Actor_user (iu_id actor) \<and> ae_outcome e = ''CANCELLED''"
proof -
  let ?P = "\<lambda>q. j_id q = j_id r \<and> j_state q = j_state r \<and> j_version q = j_version r"
  let ?r' = "cancel_data reason now r"
  let ?e = "operation_audit actor p Job_cancel (OP_CANCELLED, reason)"
  let ?db' = "db\<lparr>db_jobs := update_many ?P (cancel_data reason now) (db_jobs db),
    db_outbox := cancelOutbox (j_id r) now (db_outbox db), db_audit := db_audit db @ [?e]\<rparr>"
  from ok have prep: "prepareOperation lib c who (j_id r) reason now = Inr p" "pp_validJobId p"
    "authoriseOperation db p Job_cancel now = Guard_allowed actor" "iu_workspaceId actor = j_workspaceId r"
    by (simp_all add: may_operate_def)
  note fields = prepared_fields [OF prep(1)]
  have one: "count_many ?P (db_jobs db) = 1" by (rule count_row [OF db_inv_ids [OF inv] r(1)]) auto
  have nc: "j_cancellationRequestedAt r = None" using uncancelled [OF db_inv_job [OF inv r(1)]] r(2) by auto
  have "canTransitionJob (j_state r) CANCELLED" "j_state r = QUEUED \<or> j_state r = RETRY_SCHEDULED" using r(2) by auto
  then have "cancel_job db p now r = Inr (cancel_write ?P (cancel_data reason now) r (OP_CANCELLED, reason) now db)"
    using nc fields r(2) by (auto simp: cancel_job_def)
  then have run: "cancelBackgroundJob lib db db c who (j_id r) reason now = (Inr (OP_CANCELLED, reason), ?db')"
    using prep fields on one find_job_Some [OF db_inv_ids [OF inv] r(1)]
    by (simp add: cancelBackgroundJob_def guarded_operation_def cancel_write_def Let_def auditAndReturn_def
        bare_transaction_Inr)
  have "?r' \<in> set (db_jobs ?db')" using r by (force simp: set_update_many)
  then have "find_job (j_workspaceId r) (j_id r) (db_jobs ?db') = Some ?r'"
    using find_job_Some [OF db_inv_ids, of ?db' ?r'] cancel_sound [OF run inv advanced_refl]
    by (simp add: cancel_data_def)
  moreover have "\<forall>ob \<in> set (db_outbox ?db'). ob_backgroundJobId ob = j_id r \<longrightarrow> ob_cancelledAt ob = Some now"
    by (simp add: cancelOutbox_def ball_update_many cancel_outbox_data_def)
  ultimately show ?thesis using run
    by (intro exI [of _ ?db'] exI [of _ ?r'] exI [of _ ?e]) (simp add: cancel_data_def operation_audit_def)
qed

definition demo_principal :: principal where
  "demo_principal = \<lparr>pr_internalUserId = ''u1'', pr_workspaceId = ''w'', pr_sessionVersion = 1\<rparr>"

definition demo_prepared :: prepared where
  "demo_prepared = \<lparr>pp_correlationId = ''01890a5d-ac96-774b-bcce-b302099a8057'', pp_jobId = ''j1'',
     pp_operationAt = 9, pp_principal = demo_principal, pp_reasonCode = ''NOT_NEEDED'', pp_validJobId = True\<rparr>"

lemma demo_may_cancel:
  "may_operate demo_lib demo_queued ''01890a5d-ac96-774b-bcce-b302099a8057'' demo_principal demo_job
     ''NOT_NEEDED'' 9 Job_cancel demo_prepared demo_admin"
  unfolding may_operate_def by (intro conjI; code_simp)

theorem waiting_job_cancelled_witness:
  "\<exists>db' r'. cancelBackgroundJob demo_lib demo_queued demo_queued ''01890a5d-ac96-774b-bcce-b302099a8057''
       demo_principal ''j1'' ''NOT_NEEDED'' 9 = (Inr (OP_CANCELLED, ''NOT_NEEDED''), db') \<and>
     find_job ''w'' ''j1'' (db_jobs db') = Some r' \<and> j_state r' = CANCELLED"
  using waiting_job_cancelled [OF _ _ _ _ demo_may_cancel] reachable_db [OF demo_reachable(2)]
  by (auto simp: demo_sys1_def demo_queued_def demo_empty_def demo_job_def)

text \<open>
  C31: once the cancellation of a running job is requested, it wins.  The worker can no longer
  commit a result nor settle a failure, and its next cancellation check ends the attempt and
  cancels the job.
\<close>

theorem requested_cancellation_wins:
  assumes inv: "db_inv db" and on: "db_online db" and r: "r \<in> set (db_jobs db)" "j_leaseId r = Some l"
    and req: "j_cancellationRequestedAt r \<noteq> None"
  shows "commitJobSuccess db (j_workspaceId r) (j_id r) l commit ts = (Inl JobLeaseLostError, db) \<and>
    (\<exists>e. commitJobFailure db (j_workspaceId r) (j_id r) l f d ts = (Inl e, db)) \<and>
    (\<exists>db' r'. throwIfBackgroundJobCancellationRequested db db (j_workspaceId r) (j_id r) l ts = (Inl Exn_cancellation, db') \<and>
      find_job (j_workspaceId r) (j_id r) (db_jobs db') = Some r' \<and> j_state r' = CANCELLED \<and> j_leaseId r' = None)"
proof -
  note ids = db_inv_ids [OF inv]
  have st: "j_state r = PROCESSING" using db_inv_job [OF inv r(1)] r(2) by (simp add: job_ok_def)
  then have lw: "lease_where (j_workspaceId r) (j_id r) l r" using r(2) by (simp add: lease_where_def)
  have "\<not> settle_where (j_workspaceId r) (j_id r) l q" if "q \<in> set (db_jobs db)" for q
    using that same_id_same_job [OF inv that r(1)] req by (auto simp: settle_where_def lease_where_def)
  then have none: "count_many (settle_where (j_workspaceId r) (j_id r) l) (db_jobs db) = 0"
    by (simp add: count_many_def filter_empty_conv)
  have refused: "commitJobSuccess db (j_workspaceId r) (j_id r) l commit ts = (Inl JobLeaseLostError, db)"
    using none on by (simp add: commitJobSuccess_def transaction_def Let_def JobLeaseLostError_def)
  have failed: "\<exists>e. commitJobFailure db (j_workspaceId r) (j_id r) l f d ts = (Inl e, db)"
    using none on by (auto simp: commitJobFailure_def transaction_def Let_def JobLeaseLostError_def split: option.splits)
  let ?P = "\<lambda>q. j_cancellationRequestedAt q \<noteq> None \<and> lease_where (j_workspaceId r) (j_id r) l q \<and>
    j_version q = j_version r"
  let ?PA = "\<lambda>a. at_leaseId a = l \<and> at_state a = A_ACTIVE \<and> at_workspaceId a = j_workspaceId r"
  have found: "find (lease_where (j_workspaceId r) (j_id r) l) (db_jobs db) = Some r"
    by (rule find_row [OF ids r(1)]) (use lw in \<open>auto simp: lease_where_def\<close>)
  have one: "count_many ?P (db_jobs db) = 1"
    by (rule count_row [OF ids r(1)]) (use lw req in \<open>auto simp: lease_where_def\<close>)
  have "at_workspaceId a = j_workspaceId r" if a: "a \<in> set (db_attempts db)" "at_leaseId a = l" "at_state a = A_ACTIVE" for a
  proof -
    from inv a(1) obtain k where k: "k \<in> set (db_jobs db)" "owns k a" unfolding db_inv_def leases_ok_def by blast
    have "at_backgroundJobId a = j_id r"
      using lease_unique(1) [of "db_jobs db" "db_attempts db" a r] inv a r st by (simp add: db_inv_def)
    with k r same_id_same_job [OF inv] have "k = r" by (simp add: owns_def)
    with k show ?thesis by (simp add: owns_def)
  qed
  then have "filter ?PA (db_attempts db) = filter (\<lambda>a. at_leaseId a = l \<and> at_state a = A_ACTIVE) (db_attempts db)"
    by (intro filter_cong) auto
  then have oneA: "count_many ?PA (db_attempts db) = 1" using holder_count [OF inv r] by (simp add: count_many_def)
  let ?db' = "db\<lparr>db_jobs := update_many ?P (cancelled_data ts) (db_jobs db),
    db_attempts := update_many ?PA (cancelled_attempt_data ts) (db_attempts db),
    db_outbox := update_many (\<lambda>ob. ob_backgroundJobId ob = j_id r) (cancel_outbox_data ts) (db_outbox db)\<rparr>"
  have "cancel_check_body db db (j_workspaceId r) (j_id r) l ts = Inr (?db', True)"
    unfolding cancel_check_body_def found using req one oneA by (simp add: Let_def)
  then have run: "throwIfBackgroundJobCancellationRequested db db (j_workspaceId r) (j_id r) l ts = (Inl Exn_cancellation, ?db')"
    using on by (simp add: throwIfBackgroundJobCancellationRequested_def transaction_def)
  have "cancelled_data ts r \<in> set (db_jobs ?db')" using r lw req by (force simp: set_update_many)
  then have "find_job (j_workspaceId r) (j_id r) (db_jobs ?db') = Some (cancelled_data ts r)"
    using find_job_Some [OF db_inv_ids, of ?db' "cancelled_data ts r"] cancellation_sound [OF run inv]
    by (simp add: cancelled_data_def)
  with refused failed run show ?thesis by (auto simp: cancelled_data_def)
qed

definition demo_cancelling :: "nat database" where
  "demo_cancelling = demo_running\<lparr>db_jobs := [cancel_request_data ''NOT_NEEDED'' 7 demo_running_job],
     db_outbox := [cancel_outbox_data 7 demo_outbox]\<rparr>"

lemma demo_cancelling_inv: "db_inv demo_cancelling"
  by code_simp

theorem requested_cancellation_wins_witness:
  "commitJobSuccess demo_cancelling ''w'' ''j1'' ''L1'' (\<lambda>n. Inr (n + 7)) 9 = (Inl JobLeaseLostError, demo_cancelling)"
  using requested_cancellation_wins [OF demo_cancelling_inv, of "cancel_request_data ''NOT_NEEDED'' 7 demo_running_job" "''L1''"]
  by (simp add: demo_cancelling_def demo_running_def demo_queued_def demo_empty_def demo_running_job_def
      cancel_request_data_def claim_data_def demo_job_def)

text \<open>
  A retry by hand is accepted only for a job that failed for attention, carries no
  reconciliation mark and has no result; it leaves the job queued with at least one attempt in a
  budget of at most 100, and its delivery due.
\<close>

theorem manual_retry_sound:
  assumes run: "retryBackgroundJob lib re ck db db c who i reason now oid dbNow = (Inr (OP_RETRY_QUEUED, x), db')"
    and inv: "db_inv db"
  shows "\<exists>r r'. r \<in> set (db_jobs db) \<and> j_id r = i \<and> j_state r = FAILED_ATTENTION \<and>
    j_reconciliationRequiredAt r = None \<and> \<not> re (db_results db) r \<and> fst (ck (db_results db) r) \<and>
    find_job (j_workspaceId r) i (db_jobs db') = Some r' \<and> j_state r' = QUEUED \<and>
    j_attemptCount r' < j_maxAttempts r' \<and> j_maxAttempts r' \<le> 100 \<and> delivery_pending db' i now"
proof -
  from run obtain p where p: "prepareOperation lib c who i reason now = Inr p"
    by (auto simp: retryBackgroundJob_def split: sum.splits)
  note fields = prepared_fields [OF p]
  from run p obtain actor job db1 where job: "find_job (iu_workspaceId actor) i (db_jobs db) = Some job"
    and retried: "retry_job re ck db db p now oid dbNow job = Inr (db1, (OP_RETRY_QUEUED, x))"
    and audit: "auditAndReturn actor p Job_retry (OP_RETRY_QUEUED, x) db1 = Inr (db', (OP_RETRY_QUEUED, x))"
    by (auto simp: retryBackgroundJob_def guarded_operation_def authoriseOperation_def bare_transaction_Inr auditAndReturn_def fields
        split: option.splits if_splits sum.splits)
  let ?P = "\<lambda>r. j_id r = j_id job \<and> j_state r = FAILED_ATTENTION \<and> j_version r = j_version job"
  let ?m = "max (j_maxAttempts job) (j_attemptCount job + 1)"
  note jr = find_job_SomeD [OF job]
  obtain ok why where ck: "ck (db_results db) job = (ok, why)" by (cases "ck (db_results db) job")
  have g: "j_state job = FAILED_ATTENTION \<and> j_reconciliationRequiredAt job = None \<and> \<not> re (db_results db) job \<and> ok \<and>
    db_jobs db1 = update_many ?P (manual_retry_data ?m now) (db_jobs db) \<and>
    db_outbox db1 = upsert_outbox job now oid dbNow dbNow (db_outbox db)"
    using retried unfolding retry_job_def Let_def ck
    by (cases ok) (simp_all split: if_split_asm, auto)
  then have st: "j_state job = FAILED_ATTENTION"
    and db': "db_jobs db' = update_many ?P (manual_retry_data ?m now) (db_jobs db)"
      "db_outbox db' = upsert_outbox job now oid dbNow dbNow (db_outbox db)"
    using audit by (auto simp: auditAndReturn_def)
  let ?r' = "manual_retry_data ?m now job"
  have inv': "db_inv db'" using retry_sound [OF run inv advanced_refl] by simp
  have mem: "?r' \<in> set (db_jobs db')" unfolding db'(1) using jr st by (force simp: set_update_many)
  then have ok': "job_ok ?r'" using db_inv_job [OF inv'] by blast
  have "find_job (j_workspaceId job) i (db_jobs db') = Some ?r'"
    using find_job_Some [OF db_inv_ids [OF inv'] mem] jr by (simp add: manual_retry_data_def)
  moreover obtain ob where "ob \<in> set (db_outbox db)" "ob_backgroundJobId ob = j_id job"
    using outbox_row [OF inv] jr by (auto simp: delivers_def)
  with upsert_pending [OF db'(2)] jr have "delivery_pending db' i now" by blast
  moreover have "j_state ?r' = QUEUED" "j_attemptCount ?r' < j_maxAttempts ?r'" "j_maxAttempts ?r' \<le> 100"
    using ok' by (auto simp: job_ok_def manual_retry_data_def)
  ultimately show ?thesis using jr g ck by (intro exI [of _ job] exI [of _ ?r']) simp
qed

definition demo_failed_job :: job where
  "demo_failed_job = failure_data demo_failure (Failed_attention CONTACT_SUPPORT) 9 demo_running_job"

definition demo_failed :: "nat database" where
  "demo_failed = demo_running\<lparr>db_jobs := [demo_failed_job],
     db_attempts := [failure_attempt_data demo_failure (Failed_attention CONTACT_SUPPORT) 9 demo_attempt]\<rparr>"

lemma demo_failed_inv: "db_inv demo_failed"
  by code_simp

theorem manual_retry_sound_witness:
  "\<exists>db'. retryBackgroundJob demo_lib (\<lambda>n j. 0 < n) (\<lambda>n j. (True, None)) demo_failed demo_failed
       ''01890a5d-ac96-774b-bcce-b302099a8057'' demo_principal ''j1'' ''FIXED'' 20 ''o2'' 20 =
       (Inr (OP_RETRY_QUEUED, ''FIXED''), db') \<and> delivery_pending db' ''j1'' 20"
proof -
  let ?run = "retryBackgroundJob demo_lib (\<lambda>n j. 0 < n) (\<lambda>n j. (True, None)) demo_failed demo_failed
       ''01890a5d-ac96-774b-bcce-b302099a8057'' demo_principal ''j1'' ''FIXED'' 20 ''o2'' 20"
  have "fst ?run = Inr (OP_RETRY_QUEUED, ''FIXED'')" by code_simp
  then have run: "?run = (Inr (OP_RETRY_QUEUED, ''FIXED''), snd ?run)" by (metis prod.collapse)
  from manual_retry_sound [OF run demo_failed_inv] run show ?thesis by metis
qed

text \<open>
  An operator who has made as many requests of a kind within the last minute as the limit
  allows is refused as rate limited: the job tables are left alone and the refusal itself is
  audited.
\<close>

theorem operator_rate_limited:
  assumes "prepareOperation lib c who i reason now = Inr p" "db_online db"
    "find (\<lambda>u. iu_id u = pr_internalUserId who \<and> iu_sessionVersion u = pr_sessionVersion who \<and> iu_active u \<and>
       iu_workspaceActive u \<and> iu_workspaceId u = pr_workspaceId who) (db_users snap) = Some actor" "iu_admin actor"
    "operationLimits Job_cancel \<le> count_many (operation_recent Job_cancel actor now) (db_audit snap)"
  shows "\<exists>e. cancelBackgroundJob lib snap db c who i reason now =
    (Inr (OP_RATE_LIMITED, ''OPERATOR_RATE_LIMITED''), db\<lparr>db_audit := db_audit db @ [e]\<rparr>) \<and>
    ae_outcome e = ''RATE_LIMITED'' \<and> ae_occurredAt e = now"
proof -
  have "pp_principal p = who" "pp_operationAt p = now"
    using assms(1) by (auto simp: prepareOperation_def split: option.splits if_splits)
  then have "authoriseOperation snap p Job_cancel now = Guard_denied (Some actor) (OP_RATE_LIMITED, ''OPERATOR_RATE_LIMITED'')"
    using assms(3-5) by (simp add: authoriseOperation_def)
  with assms(1,2) \<open>pp_operationAt p = now\<close> show ?thesis
    by (intro exI [of _ "operation_audit actor p Job_cancel (OP_RATE_LIMITED, ''OPERATOR_RATE_LIMITED'')"])
      (simp add: cancelBackgroundJob_def guarded_operation_def auditAndReturn_def bare_transaction_Inr operation_audit_def)
qed

definition demo_busy :: "nat database" where
  "demo_busy = demo_queued\<lparr>db_audit := replicate 10
     (operation_audit demo_admin demo_prepared Job_cancel (OP_NOT_FOUND, ''JOB_NOT_FOUND''))\<rparr>"

theorem operator_rate_limited_witness:
  "\<exists>e. cancelBackgroundJob demo_lib demo_busy demo_busy ''01890a5d-ac96-774b-bcce-b302099a8057'' demo_principal
      ''j1'' ''NOT_NEEDED'' 9 = (Inr (OP_RATE_LIMITED, ''OPERATOR_RATE_LIMITED''), demo_busy\<lparr>db_audit := db_audit demo_busy @ [e]\<rparr>) \<and>
     ae_outcome e = ''RATE_LIMITED'' \<and> ae_occurredAt e = 9"
proof (rule operator_rate_limited)
  show "prepareOperation demo_lib ''01890a5d-ac96-774b-bcce-b302099a8057'' demo_principal ''j1'' ''NOT_NEEDED'' 9 = Inr demo_prepared"
    by code_simp
  show "find (\<lambda>u. iu_id u = pr_internalUserId demo_principal \<and> iu_sessionVersion u = pr_sessionVersion demo_principal \<and>
    iu_active u \<and> iu_workspaceActive u \<and> iu_workspaceId u = pr_workspaceId demo_principal) (db_users demo_busy) = Some demo_admin"
    by code_simp
  show "operationLimits Job_cancel \<le> count_many (operation_recent Job_cancel demo_admin 9) (db_audit demo_busy)"
    by code_simp
qed (simp_all add: demo_busy_def demo_queued_def demo_empty_def demo_admin_def)

end
