(* ===== verification/Concurrency_Gate.thy ===== *)
theory Concurrency_Gate
  imports Job_Store "HOL-Library.AList"
begin

text \<open>
  \<open>packages/queue/src/concurrency.ts\<close>: the gate that bounds how many provider calls run at once,
  overall and per provider.  A request is named by a number; its promise is the event the gate
  emits for it.  A permit is the closure with the flag \<open>released\<close>: the gate keeps the permits
  whose flag is still false.
\<close>

section \<open>The gate\<close>

datatype gate_event = Granted nat | Refused nat string

record request =
  rq_id :: nat
  rq_provider :: string

record gate =
  ga_globalLimit :: int
  ga_providerLimits :: "(string \<times> int) list"
  ga_activeByProvider :: "(string \<times> int) list"
  ga_pending :: "request list"
  ga_activeGlobal :: int
  ga_permits :: "request list"  \<comment> \<open>granted and not released\<close>
  ga_aborted :: "nat list"  \<comment> \<open>requests whose signal has aborted\<close>
  ga_events :: "gate_event list"

definition concurrencyError :: "string \<Rightarrow> exn" where
  "concurrencyError code = Exn_operational (OperationalError code Conflict None (jint 409))"

definition validateLimit :: "js_num \<Rightarrow> exn option" where
  "validateLimit v =
     (if \<not> isSafeInteger v \<or> jlt v (jint 1) \<or> jgt v (jint 1000)
      then Some (concurrencyError ''JOB_CONCURRENCY_LIMIT_INVALID'') else None)"

text \<open>\<open>safeProviderPattern\<close>.\<close>

definition safeProvider :: "string \<Rightarrow> bool" where
  "safeProvider p = safe_lower_name p"

fun checkProviders :: "(string \<times> js_num) list \<Rightarrow> exn option" where
  "checkProviders [] = None"
| "checkProviders ((p, l) # ps) =
     (if \<not> safeProvider p then Some (concurrencyError ''JOB_PROVIDER_INVALID'')
      else case validateLimit l of Some e \<Rightarrow> Some e | None \<Rightarrow> checkProviders ps)"

definition createProviderConcurrencyGate :: "js_num \<Rightarrow> (string \<times> js_num) list \<Rightarrow> exn + gate" where
  "createProviderConcurrencyGate globalLimit limits =
     (case validateLimit globalLimit of Some e \<Rightarrow> Inl e
      | None \<Rightarrow> (case checkProviders limits of Some e \<Rightarrow> Inl e
        | None \<Rightarrow> Inr \<lparr>ga_globalLimit = num_int globalLimit,
            ga_providerLimits = map (\<lambda>(p, l). (p, num_int l)) limits, ga_activeByProvider = [],
            ga_pending = [], ga_activeGlobal = 0, ga_permits = [], ga_aborted = [], ga_events = []\<rparr>))"

definition provider_active :: "gate \<Rightarrow> string \<Rightarrow> int" where
  "provider_active g p = coalesce (map_of (ga_activeByProvider g) p) 0"

definition grant :: "request \<Rightarrow> gate \<Rightarrow> gate" where
  "grant r g = g\<lparr>ga_activeGlobal := ga_activeGlobal g + 1,
     ga_activeByProvider := AList.update (rq_provider r) (provider_active g (rq_provider r) + 1)
       (ga_activeByProvider g),
     ga_permits := ga_permits g @ [r], ga_events := ga_events g @ [Granted (rq_id r)]\<rparr>"

definition refuse :: "nat \<Rightarrow> string \<Rightarrow> gate \<Rightarrow> gate" where
  "refuse i code g = g\<lparr>ga_events := ga_events g @ [Refused i code]\<rparr>"

text \<open>The loop of \<open>drain\<close>: \<open>skipped\<close> are the requests before \<open>index\<close>, in reverse.\<close>

fun drain_loop :: "request list \<Rightarrow> request list \<Rightarrow> gate \<Rightarrow> gate" where
  "drain_loop skipped [] g = g\<lparr>ga_pending := rev skipped\<rparr>"
| "drain_loop skipped (r # rs) g =
     (if \<not> ga_activeGlobal g < ga_globalLimit g then g\<lparr>ga_pending := rev skipped @ r # rs\<rparr>
      else if rq_id r \<in> set (ga_aborted g)
      then drain_loop skipped rs (refuse (rq_id r) ''JOB_CONCURRENCY_ABORTED'' g)
      else case map_of (ga_providerLimits g) (rq_provider r) of
          None \<Rightarrow> drain_loop (r # skipped) rs g
        | Some limit \<Rightarrow>
            if provider_active g (rq_provider r) \<ge> limit then drain_loop (r # skipped) rs g
            else drain_loop skipped rs (grant r g))"

definition drain :: "gate \<Rightarrow> gate" where
  "drain g = (if ga_activeGlobal g \<ge> ga_globalLimit g then g else drain_loop [] (ga_pending g) g)"

text \<open>\<open>acquire\<close>; \<open>aborted\<close> is the state of the signal when it is called.\<close>

definition acquire :: "nat \<Rightarrow> string \<Rightarrow> bool \<Rightarrow> gate \<Rightarrow> gate" where
  "acquire i provider aborted g =
     (if map_of (ga_providerLimits g) provider = None then refuse i ''JOB_PROVIDER_UNCONFIGURED'' g
      else if aborted then refuse i ''JOB_CONCURRENCY_ABORTED'' g
      else drain (g\<lparr>ga_pending := ga_pending g @ [\<lparr>rq_id = i, rq_provider = provider\<rparr>]\<rparr>))"

text \<open>The \<open>abort\<close> listener of a request, which a grant removes.\<close>

definition abort :: "nat \<Rightarrow> gate \<Rightarrow> gate" where
  "abort i g =
     (let g1 = g\<lparr>ga_aborted := i # ga_aborted g\<rparr> in
      if i \<notin> rq_id ` set (ga_pending g) then g1
      else refuse i ''JOB_CONCURRENCY_ABORTED''
        (g1\<lparr>ga_pending := filter (\<lambda>r. rq_id r \<noteq> i) (ga_pending g)\<rparr>))"

text \<open>The permit of a request: the first call releases it, every later call does nothing.\<close>

definition release :: "nat \<Rightarrow> gate \<Rightarrow> gate" where
  "release i g =
     (case find (\<lambda>r. rq_id r = i) (ga_permits g) of
        None \<Rightarrow> g
      | Some r \<Rightarrow>
          (let remaining = coalesce (map_of (ga_activeByProvider g) (rq_provider r)) 1 - 1
           in drain (g\<lparr>ga_activeGlobal := ga_activeGlobal g - 1,
                ga_activeByProvider := (if remaining = 0
                  then AList.delete (rq_provider r) (ga_activeByProvider g)
                  else AList.update (rq_provider r) remaining (ga_activeByProvider g)),
                ga_permits := filter (\<lambda>q. rq_id q \<noteq> i) (ga_permits g)\<rparr>)))"

section \<open>The invariant\<close>

definition running :: "gate \<Rightarrow> string \<Rightarrow> int" where
  "running g p = int (length (filter (\<lambda>r. rq_provider r = p) (ga_permits g)))"

text \<open>The counters count the permits, and every limit is respected.\<close>

definition counts_ok :: "gate \<Rightarrow> bool" where
  "counts_ok g \<longleftrightarrow> ga_activeGlobal g = int (length (ga_permits g)) \<and> ga_activeGlobal g \<le> ga_globalLimit g \<and>
     (\<forall>p. map_of (ga_activeByProvider g) p = (if running g p = 0 then None else Some (running g p))) \<and>
     (\<forall>r \<in> set (ga_permits g). \<exists>l. map_of (ga_providerLimits g) (rq_provider r) = Some l \<and>
        running g (rq_provider r) \<le> l)"

definition at_limit :: "gate \<Rightarrow> request \<Rightarrow> bool" where
  "at_limit g r \<longleftrightarrow> (\<exists>l. map_of (ga_providerLimits g) (rq_provider r) = Some l \<and> l \<le> running g (rq_provider r))"

definition configured :: "gate \<Rightarrow> request \<Rightarrow> bool" where
  "configured g r \<longleftrightarrow> map_of (ga_providerLimits g) (rq_provider r) \<noteq> None"

text \<open>No request waits while there is room for it.\<close>

definition no_idle_room :: "gate \<Rightarrow> bool" where
  "no_idle_room g \<longleftrightarrow> (\<forall>r \<in> set (ga_pending g). ga_globalLimit g \<le> ga_activeGlobal g \<or> at_limit g r)"

definition gate_inv :: "gate \<Rightarrow> bool" where
  "gate_inv g \<longleftrightarrow> counts_ok g \<and> distinct (map rq_id (ga_permits g @ ga_pending g)) \<and>
     (\<forall>r \<in> set (ga_pending g). configured g r) \<and> no_idle_room g"

lemma provider_active_running: "counts_ok g \<Longrightarrow> provider_active g p = running g p"
  by (simp add: counts_ok_def provider_active_def)

lemma running_grant: "running (grant r g) p = running g p + of_bool (rq_provider r = p)"
  by (simp add: running_def grant_def)

lemma running_refuse [simp]: "running (refuse i c g) p = running g p"
  by (simp add: running_def refuse_def)

lemma running_pending [simp]: "running (g\<lparr>ga_pending := q\<rparr>) p = running g p"
  by (simp add: running_def)

lemma running_aborted [simp]: "running (g\<lparr>ga_aborted := x\<rparr>) p = running g p"
  by (simp add: running_def)

lemma counts_aborted [simp]: "counts_ok (g\<lparr>ga_aborted := x\<rparr>) \<longleftrightarrow> counts_ok g"
  by (simp add: counts_ok_def)

lemma counts_refuse [simp]: "counts_ok (refuse i c g) \<longleftrightarrow> counts_ok g"
  by (simp add: counts_ok_def) (simp add: refuse_def)

lemma counts_pending [simp]: "counts_ok (g\<lparr>ga_pending := q\<rparr>) \<longleftrightarrow> counts_ok g"
  by (simp add: counts_ok_def)

lemma gate_frame [simp]:
  "ga_globalLimit (grant r g) = ga_globalLimit g" "ga_providerLimits (grant r g) = ga_providerLimits g"
  "ga_permits (grant r g) = ga_permits g @ [r]" "ga_activeGlobal (grant r g) = ga_activeGlobal g + 1"
  "ga_globalLimit (refuse i c g) = ga_globalLimit g" "ga_providerLimits (refuse i c g) = ga_providerLimits g"
  "ga_permits (refuse i c g) = ga_permits g" "ga_activeGlobal (refuse i c g) = ga_activeGlobal g"
  "ga_pending (refuse i c g) = ga_pending g"
  by (simp_all add: grant_def refuse_def)

lemma counts_grant:
  assumes ok: "counts_ok g" and room: "ga_activeGlobal g < ga_globalLimit g"
    "map_of (ga_providerLimits g) (rq_provider r) = Some l" "provider_active g (rq_provider r) < l"
  shows "counts_ok (grant r g)"
proof -
  have nn: "0 \<le> running g p" for p by (simp add: running_def)
  have "map_of (ga_activeByProvider (grant r g)) p =
      (if running (grant r g) p = 0 then None else Some (running (grant r g) p))" for p
    using ok nn [of "rq_provider r"] provider_active_running [OF ok]
    by (auto simp: grant_def [of r g] update_conv running_grant counts_ok_def running_def)
  moreover have "\<exists>l. map_of (ga_providerLimits g) (rq_provider q) = Some l \<and> running (grant r g) (rq_provider q) \<le> l"
    if "q \<in> set (ga_permits g) \<or> q = r" for q
    using that ok room provider_active_running [OF ok]
    by (cases "rq_provider q = rq_provider r") (auto simp: running_grant counts_ok_def)
  then have "\<forall>q \<in> set (ga_permits (grant r g)). \<exists>l. map_of (ga_providerLimits (grant r g)) (rq_provider q) = Some l \<and>
      running (grant r g) (rq_provider q) \<le> l" by simp
  ultimately show ?thesis using ok room unfolding counts_ok_def by (intro conjI) simp_all
qed

lemma at_limit_grant: "at_limit g q \<Longrightarrow> at_limit (grant r g) q"
  by (auto simp: at_limit_def running_grant)

lemma at_limit_refuse [simp]: "at_limit (refuse i c g) q = at_limit g q"
  by (simp add: at_limit_def)

text \<open>What the loop of \<open>drain\<close> keeps, and that it leaves no room idle.\<close>

lemma drain_loop_inv:
  assumes "counts_ok g" "distinct (map rq_id (ga_permits g @ rev skipped @ rest))"
    "\<forall>r \<in> set skipped. at_limit g r" "\<forall>r \<in> set (skipped @ rest). configured g r"
  shows "gate_inv (drain_loop skipped rest g)"
  using assms
proof (induction skipped rest g rule: drain_loop.induct)
  case (1 skipped g)
  then show ?case by (simp add: gate_inv_def no_idle_room_def at_limit_def configured_def)
next
  case (2 skipped r rs g)
  have conf: "configured g r" using "2.prems"(4) by simp
  then obtain l where l: "map_of (ga_providerLimits g) (rq_provider r) = Some l" by (auto simp: configured_def)
  consider (full) "\<not> ga_activeGlobal g < ga_globalLimit g"
    | (aborted) "ga_activeGlobal g < ga_globalLimit g" "rq_id r \<in> set (ga_aborted g)"
    | (wait) "ga_activeGlobal g < ga_globalLimit g" "rq_id r \<notin> set (ga_aborted g)" "provider_active g (rq_provider r) \<ge> l"
    | (go) "ga_activeGlobal g < ga_globalLimit g" "rq_id r \<notin> set (ga_aborted g)" "provider_active g (rq_provider r) < l"
    by linarith
  then show ?case
  proof cases
    case full
    with "2.prems" show ?thesis by (simp add: gate_inv_def no_idle_room_def configured_def)
  next
    case aborted
    with 2 show ?thesis by (auto simp: configured_def)
  next
    case wait
    then have "at_limit g r" using l provider_active_running [OF "2.prems"(1)] by (auto simp: at_limit_def)
    with wait 2 l show ?thesis by auto
  next
    case go
    note ok = counts_grant [OF "2.prems"(1) go(1) l go(3)]
    have "gate_inv (drain_loop skipped rs (grant r g))"
      by (rule "2.IH"(4) [OF _ _ l]) (use go "2.prems" ok at_limit_grant in \<open>auto simp: configured_def\<close>)
    with go l show ?thesis by simp
  qed
qed

lemma drain_inv:
  assumes "counts_ok g" "distinct (map rq_id (ga_permits g @ ga_pending g))" "\<forall>r \<in> set (ga_pending g). configured g r"
  shows "gate_inv (drain g)"
proof (cases "ga_activeGlobal g \<ge> ga_globalLimit g")
  case True
  with assms show ?thesis by (simp add: drain_def gate_inv_def no_idle_room_def)
next
  case False
  then show ?thesis using drain_loop_inv [of g "[]"] assms by (simp add: drain_def)
qed

section \<open>The operations\<close>

text \<open>
  The interface of what a caller of the gate can do: an operation keeps the invariant and the
  configuration.  Everything reachable through such operations is bounded, which is proved once.
\<close>

locale gate_operation =
  fixes f :: "gate \<Rightarrow> gate" and ready :: "gate \<Rightarrow> bool"
  assumes keeps: "gate_inv g \<Longrightarrow> ready g \<Longrightarrow> gate_inv (f g)"
    and limits: "ga_globalLimit (f g) = ga_globalLimit g \<and> ga_providerLimits (f g) = ga_providerLimits g"
begin

lemma bounded:
  assumes "gate_inv g" "ready g" "r \<in> set (ga_permits (f g))"
  shows "int (length (ga_permits (f g))) \<le> ga_globalLimit g \<and>
    (\<exists>l. map_of (ga_providerLimits g) (rq_provider r) = Some l \<and> running (f g) (rq_provider r) \<le> l)"
  using keeps [OF assms(1,2)] assms(3) limits [of g] by (auto simp: gate_inv_def counts_ok_def)

end

lemma drain_loop_limits [simp]:
  "ga_globalLimit (drain_loop skipped rest g) = ga_globalLimit g"
  "ga_providerLimits (drain_loop skipped rest g) = ga_providerLimits g"
  by (induction skipped rest g rule: drain_loop.induct) (auto split: option.splits)

lemma drain_limits [simp]:
  "ga_globalLimit (drain g) = ga_globalLimit g" "ga_providerLimits (drain g) = ga_providerLimits g"
  by (simp_all add: drain_def)

definition fresh_request :: "nat \<Rightarrow> gate \<Rightarrow> bool" where
  "fresh_request i g \<longleftrightarrow> i \<notin> rq_id ` set (ga_permits g @ ga_pending g)"

lemma gate_inv_refuse: "gate_inv (refuse i c g) \<longleftrightarrow> gate_inv g"
  by (simp add: gate_inv_def no_idle_room_def configured_def)

interpretation acquire_op: gate_operation "acquire i p a" "fresh_request i" for i p a
proof
  fix g assume inv: "gate_inv g" and new: "fresh_request i g"
  let ?r = "\<lparr>rq_id = i, rq_provider = p\<rparr>"
  have "gate_inv (drain (g\<lparr>ga_pending := ga_pending g @ [?r]\<rparr>))" if "map_of (ga_providerLimits g) p \<noteq> None"
  proof (rule drain_inv)
    show "distinct (map rq_id (ga_permits (g\<lparr>ga_pending := ga_pending g @ [?r]\<rparr>) @
        ga_pending (g\<lparr>ga_pending := ga_pending g @ [?r]\<rparr>)))"
      using inv new by (auto simp: gate_inv_def fresh_request_def)
  qed (use inv that in \<open>auto simp: gate_inv_def configured_def\<close>)
  then show "gate_inv (acquire i p a g)" using inv by (auto simp: acquire_def gate_inv_refuse)
qed (simp add: acquire_def)

interpretation abort_op: gate_operation "abort i" "\<lambda>_. True" for i
proof
  fix g assume inv: "gate_inv g"
  have "distinct (map rq_id (ga_permits g @ filter P (ga_pending g)))" for P
    using inv by (auto simp: gate_inv_def distinct_map_filter)
  moreover have "no_idle_room (g\<lparr>ga_aborted := x, ga_pending := filter P (ga_pending g)\<rparr>)" for x P
    using inv by (fastforce simp: gate_inv_def no_idle_room_def at_limit_def)
  ultimately have shrink: "gate_inv (g\<lparr>ga_aborted := x, ga_pending := filter P (ga_pending g)\<rparr>)" for x P
    using inv by (simp add: gate_inv_def configured_def)
  show "gate_inv (abort i g)"
    using shrink [of "\<lambda>r. rq_id r \<noteq> i"] shrink [of "\<lambda>_. True"]
    by (simp add: abort_def Let_def gate_inv_refuse)
qed (simp add: abort_def Let_def)

lemma filter_drop_key:
  assumes "distinct (map key xs)" "r \<in> set xs"
  shows "length (filter P xs) = length (filter P (filter (\<lambda>q. key q \<noteq> key r) xs)) + of_bool (P r)"
  using assms
proof (induction xs)
  case (Cons x xs)
  show ?case
  proof (cases "x = r")
    case True
    with Cons.prems have "key r \<notin> key ` set xs" by simp
    then have "filter (\<lambda>q. key q \<noteq> key r) xs = xs" by (intro filter_True) (metis imageI)
    with True show ?thesis by simp
  next
    case False
    with Cons.prems have "key x \<noteq> key r" "r \<in> set xs" by auto
    with Cons show ?thesis by simp
  qed
qed simp

lemma release_counts:
  assumes inv: "gate_inv g" and r: "find (\<lambda>r. rq_id r = i) (ga_permits g) = Some r"
    and g': "g' = g\<lparr>ga_activeGlobal := ga_activeGlobal g - 1,
      ga_activeByProvider := (if n = 0 then AList.delete (rq_provider r) (ga_activeByProvider g)
        else AList.update (rq_provider r) n (ga_activeByProvider g)),
      ga_permits := filter (\<lambda>q. rq_id q \<noteq> i) (ga_permits g)\<rparr>"
    and n: "n = coalesce (map_of (ga_activeByProvider g) (rq_provider r)) 1 - 1"
  shows "counts_ok g'"
proof -
  have mem: "r \<in> set (ga_permits g)" "rq_id r = i" using find_Some_iff2 [OF r] by auto
  have dist: "distinct (map rq_id (ga_permits g))" using inv by (simp add: gate_inv_def)
  have ok: "counts_ok g" using inv by (simp add: gate_inv_def)
  have run: "running g p = running g' p + of_bool (rq_provider r = p)" for p
    using filter_drop_key [OF dist mem(1), of "\<lambda>q. rq_provider q = p"] mem(2) by (simp add: running_def g')
  have len: "length (ga_permits g) = length (ga_permits g') + 1"
    using filter_drop_key [OF dist mem(1), of "\<lambda>_. True"] mem(2) by (simp add: g')
  have nn: "0 \<le> running g' p" for p by (simp add: running_def)
  have pos: "n = running g' (rq_provider r)"
    using ok run [of "rq_provider r"] nn [of "rq_provider r"] n by (simp add: counts_ok_def)
  have amap: "map_of (ga_activeByProvider g) p = (if running g p = 0 then None else Some (running g p))" for p
    using ok by (simp add: counts_ok_def)
  have act: "ga_activeByProvider g' = (if n = 0 then AList.delete (rq_provider r) (ga_activeByProvider g)
      else AList.update (rq_provider r) n (ga_activeByProvider g))" by (simp add: g')
  have "map_of (ga_activeByProvider g') p = (if running g' p = 0 then None else Some (running g' p))" for p
  proof (cases "rq_provider r = p")
    case True
    then show ?thesis using pos by (simp add: act delete_conv update_conv)
  next
    case False
    then show ?thesis using amap [of p] run [of p] by (simp add: act delete_conv update_conv)
  qed
  moreover have "\<exists>l. map_of (ga_providerLimits g') (rq_provider q) = Some l \<and> running g' (rq_provider q) \<le> l"
    if "q \<in> set (ga_permits g')" for q
  proof -
    from that have "q \<in> set (ga_permits g)" by (simp add: g')
    with ok obtain l where "map_of (ga_providerLimits g) (rq_provider q) = Some l" "running g (rq_provider q) \<le> l"
      by (auto simp: counts_ok_def)
    moreover have "running g' (rq_provider q) \<le> running g (rq_provider q)" using run [of "rq_provider q"] by simp
    moreover have "ga_providerLimits g' = ga_providerLimits g" by (simp add: g')
    ultimately show ?thesis by auto
  qed
  moreover have "ga_activeGlobal g' = ga_activeGlobal g - 1" "ga_globalLimit g' = ga_globalLimit g"
    by (simp_all add: g')
  ultimately show ?thesis using ok len unfolding counts_ok_def by simp
qed

interpretation release_op: gate_operation "release i" "\<lambda>_. True" for i
proof
  fix g assume inv: "gate_inv g"
  show "gate_inv (release i g)"
  proof (cases "find (\<lambda>r. rq_id r = i) (ga_permits g)")
    case None
    with inv show ?thesis by (simp add: release_def)
  next
    case (Some r)
    let ?n = "coalesce (map_of (ga_activeByProvider g) (rq_provider r)) 1 - 1"
    let ?g = "g\<lparr>ga_activeGlobal := ga_activeGlobal g - 1,
      ga_activeByProvider := (if ?n = 0 then AList.delete (rq_provider r) (ga_activeByProvider g)
        else AList.update (rq_provider r) ?n (ga_activeByProvider g)),
      ga_permits := filter (\<lambda>q. rq_id q \<noteq> i) (ga_permits g)\<rparr>"
    have "gate_inv (drain ?g)"
    proof (rule drain_inv)
      show "counts_ok ?g" by (rule release_counts [OF inv Some refl refl])
      show "distinct (map rq_id (ga_permits ?g @ ga_pending ?g))"
        using inv by (auto simp: gate_inv_def distinct_map_filter)
      show "\<forall>q \<in> set (ga_pending ?g). configured ?g q" using inv by (simp add: gate_inv_def configured_def)
    qed
    with Some show ?thesis by (simp add: release_def Let_def)
  qed
qed (simp add: release_def Let_def split: option.splits)

section \<open>What a caller may rely on\<close>

text \<open>
  Every state of a gate: created from its options, then any interleaving of calls to \<open>acquire\<close>,
  aborted signals and calls to permits.
\<close>

inductive gate_reachable :: "js_num \<Rightarrow> (string \<times> js_num) list \<Rightarrow> gate \<Rightarrow> bool"
  for globalLimit providerLimits where
  created: "createProviderConcurrencyGate globalLimit providerLimits = Inr g \<Longrightarrow>
    gate_reachable globalLimit providerLimits g"
| acquired: "gate_reachable globalLimit providerLimits g \<Longrightarrow> fresh_request i g \<Longrightarrow>
    gate_reachable globalLimit providerLimits (acquire i provider aborted g)"
| aborts: "gate_reachable globalLimit providerLimits g \<Longrightarrow>
    gate_reachable globalLimit providerLimits (abort i g)"
| released: "gate_reachable globalLimit providerLimits g \<Longrightarrow>
    gate_reachable globalLimit providerLimits (release i g)"

lemma validateLimit_None: "validateLimit v = None \<Longrightarrow> 1 \<le> num_int v"
  by (auto simp: validateLimit_def isSafeInteger_iff not_less split: if_splits)

lemma created_inv:
  assumes "createProviderConcurrencyGate G L = Inr g"
  shows "gate_inv g \<and> ga_globalLimit g = num_int G \<and> ga_providerLimits g = map (\<lambda>(p, l). (p, num_int l)) L"
proof -
  have "validateLimit G = None" and g: "g = \<lparr>ga_globalLimit = num_int G,
      ga_providerLimits = map (\<lambda>(p, l). (p, num_int l)) L, ga_activeByProvider = [],
      ga_pending = [], ga_activeGlobal = 0, ga_permits = [], ga_aborted = [], ga_events = []\<rparr>"
    using assms by (auto simp: createProviderConcurrencyGate_def split: option.splits)
  then have "1 \<le> num_int G" by (simp add: validateLimit_None)
  then show ?thesis
    by (simp add: g gate_inv_def counts_ok_def no_idle_room_def running_def)
qed

lemma checked_limit:
  assumes "checkProviders L = None" "map_of L p = Some l"
  shows "1 \<le> num_int l"
  using assms
  by (induction L rule: checkProviders.induct)
    (auto split: if_splits option.splits dest: validateLimit_None)

lemma map_of_limits: "map_of (map (\<lambda>(p, l). (p, num_int l)) L) p = map_option num_int (map_of L p)"
  by (induction L) auto

lemma reachable_gate:
  assumes "gate_reachable G L g"
  shows "gate_inv g \<and> ga_globalLimit g = num_int G \<and> ga_providerLimits g = map (\<lambda>(p, l). (p, num_int l)) L"
  using assms
proof induction
  case (created g)
  then show ?case by (rule created_inv)
next
  case (acquired g i provider aborted)
  then show ?case using acquire_op.keeps acquire_op.limits by simp
next
  case (aborts g i)
  then show ?case using abort_op.keeps abort_op.limits by simp
next
  case (released g i)
  then show ?case using release_op.keeps release_op.limits by simp
qed

lemma reachable_checked: "gate_reachable G L g \<Longrightarrow> checkProviders L = None"
  by (induction rule: gate_reachable.induct) (auto simp: createProviderConcurrencyGate_def split: option.splits)

lemma drain_loop_permits:
  "set (ga_permits (drain_loop skipped rest g)) \<subseteq> set (ga_permits g) \<union> set rest"
proof (induction skipped rest g rule: drain_loop.induct)
  case (2 skipped r rs g)
  then show ?case by (auto split: option.splits)
qed simp

lemma drain_permits: "set (ga_permits (drain g)) \<subseteq> set (ga_permits g) \<union> set (ga_pending g)"
  using drain_loop_permits [of "[]" "ga_pending g" g] by (simp add: drain_def)

text \<open>
  A gate with two slots, one of them for \<open>gemini\<close>: the first request is granted, the second waits for
  its provider, the third is granted before it.
\<close>

definition demo_limits :: "(string \<times> js_num) list" where
  "demo_limits = [(''gemini'', jint 1), (''meta'', jint 2)]"

definition demo_gate :: "gate" where
  "demo_gate = \<lparr>ga_globalLimit = 3, ga_providerLimits = [(''gemini'', 1), (''meta'', 2)],
     ga_activeByProvider = [(''gemini'', 1), (''meta'', 1)],
     ga_pending = [\<lparr>rq_id = 1, rq_provider = ''gemini''\<rparr>], ga_activeGlobal = 2,
     ga_permits = [\<lparr>rq_id = 0, rq_provider = ''gemini''\<rparr>, \<lparr>rq_id = 2, rq_provider = ''meta''\<rparr>],
     ga_aborted = [], ga_events = [Granted 0, Granted 2]\<rparr>"

lemma demo_gate_reachable: "gate_reachable (jint 3) demo_limits demo_gate"
proof -
  let ?new = "\<lparr>ga_globalLimit = 3, ga_providerLimits = [(''gemini'', 1), (''meta'', 2)], ga_activeByProvider = [],
      ga_pending = [], ga_activeGlobal = 0, ga_permits = [], ga_aborted = [], ga_events = []\<rparr>"
  have "createProviderConcurrencyGate (jint 3) demo_limits = Inr ?new"
    by (simp add: createProviderConcurrencyGate_def validateLimit_def demo_limits_def safeProvider_def
        pattern_simps is_lower_def is_digit_def code_in_def maxSafe_def)
  then have "gate_reachable (jint 3) demo_limits ?new" by (rule gate_reachable.created)
  then have "gate_reachable (jint 3) demo_limits (acquire 0 ''gemini'' False ?new)"
    by (rule gate_reachable.acquired) (simp add: fresh_request_def)
  then have "gate_reachable (jint 3) demo_limits (acquire 1 ''gemini'' False (acquire 0 ''gemini'' False ?new))"
    by (rule gate_reachable.acquired) (simp add: fresh_request_def acquire_def drain_def grant_def provider_active_def)
  then have "gate_reachable (jint 3) demo_limits
      (acquire 2 ''meta'' False (acquire 1 ''gemini'' False (acquire 0 ''gemini'' False ?new)))"
    by (rule gate_reachable.acquired) (simp add: fresh_request_def acquire_def drain_def grant_def provider_active_def)
  then show ?thesis by (simp add: demo_gate_def acquire_def drain_def grant_def provider_active_def)
qed

text \<open>
  C34: the gate never exceeds a limit.  In every reachable state the number of permits granted and
  not yet released is what the gate has counted, at most the global limit, and for each provider at
  most that provider's limit (none for a provider that has no limit configured).
\<close>

theorem gate_limits_hold:
  assumes "gate_reachable globalLimit providerLimits g"
  shows "ga_activeGlobal g = int (length (ga_permits g)) \<and> ga_activeGlobal g \<le> num_int globalLimit \<and>
    running g p \<le> (case map_of providerLimits p of None \<Rightarrow> 0 | Some l \<Rightarrow> num_int l)"
proof (intro conjI)
  note inv = reachable_gate [OF assms]
  show "ga_activeGlobal g = int (length (ga_permits g))" "ga_activeGlobal g \<le> num_int globalLimit"
    using inv by (auto simp: gate_inv_def counts_ok_def)
  show "running g p \<le> (case map_of providerLimits p of None \<Rightarrow> 0 | Some l \<Rightarrow> num_int l)"
  proof (cases "\<exists>r \<in> set (ga_permits g). rq_provider r = p")
    case True
    then obtain l where "map_option num_int (map_of providerLimits p) = Some l" "running g p \<le> l"
      using inv by (auto simp: gate_inv_def counts_ok_def map_of_limits)
    then show ?thesis by auto
  next
    case False
    then have "running g p = 0" by (auto simp: running_def filter_empty_conv)
    then show ?thesis using checked_limit [OF reachable_checked [OF assms], of p]
      by (auto split: option.splits)
  qed
qed

theorem gate_limits_hold_witness:
  "gate_reachable (jint 3) demo_limits demo_gate \<and> ga_activeGlobal demo_gate \<le> 3 \<and>
   running demo_gate ''gemini'' \<le> 1 \<and> running demo_gate ''meta'' \<le> 2"
  using demo_gate_reachable gate_limits_hold [OF demo_gate_reachable, of "''gemini''"]
    gate_limits_hold [OF demo_gate_reachable, of "''meta''"] by (simp add: demo_limits_def)

text \<open>
  The gate leaves no capacity idle.  In every reachable state a request that still waits is one
  for which either the global limit or the limit of its own provider is exhausted.
\<close>

theorem gate_work_conserving:
  assumes "gate_reachable globalLimit providerLimits g" "r \<in> set (ga_pending g)"
    and "ga_activeGlobal g < num_int globalLimit"
  shows "\<exists>l. map_of providerLimits (rq_provider r) = Some l \<and> running g (rq_provider r) = num_int l"
proof -
  note inv = reachable_gate [OF assms(1)]
  have "at_limit g r" using inv assms(2,3) by (fastforce simp: gate_inv_def no_idle_room_def)
  then obtain l where l: "map_of providerLimits (rq_provider r) = Some l" "num_int l \<le> running g (rq_provider r)"
    using inv by (auto simp: at_limit_def map_of_limits)
  moreover have "running g (rq_provider r) \<le> num_int l"
  proof (cases "\<exists>q \<in> set (ga_permits g). rq_provider q = rq_provider r")
    case True
    with inv l show ?thesis by (auto simp: gate_inv_def counts_ok_def map_of_limits)
  next
    case False
    then have "running g (rq_provider r) = 0" by (auto simp: running_def filter_empty_conv)
    with checked_limit [OF reachable_checked [OF assms(1)] l(1)] l(2) show ?thesis by simp
  qed
  ultimately show ?thesis by auto
qed

theorem gate_work_conserving_witness:
  "gate_reachable (jint 3) demo_limits demo_gate \<and> map rq_id (ga_pending demo_gate) = [1] \<and>
   ga_activeGlobal demo_gate < 3 \<and> (\<exists>l. map_of demo_limits ''gemini'' = Some l \<and> running demo_gate ''gemini'' = num_int l)"
  using demo_gate_reachable
    gate_work_conserving [OF demo_gate_reachable, of "\<lparr>rq_id = 1, rq_provider = ''gemini''\<rparr>"]
  by (simp add: demo_gate_def)

text \<open>
  A permit gives back its slot once.  Calling the permit of a request a second time, in any
  reachable state, changes nothing.
\<close>

theorem permit_released_once:
  assumes "gate_reachable globalLimit providerLimits g"
  shows "release i (release i g) = release i g"
proof (cases "find (\<lambda>r. rq_id r = i) (ga_permits g)")
  case None
  then show ?thesis by (simp add: release_def)
next
  case (Some r)
  then have mem: "r \<in> set (ga_permits g)" "rq_id r = i" using find_Some_iff2 [OF Some] by auto
  have "i \<notin> rq_id ` set (ga_pending g)" using reachable_gate [OF assms] mem by (auto simp: gate_inv_def)
  moreover have "set (ga_permits (release i g)) \<subseteq> {q \<in> set (ga_permits g). rq_id q \<noteq> i} \<union> set (ga_pending g)"
    using Some by (auto simp: release_def Let_def dest!: subsetD [OF drain_permits])
  ultimately have "find (\<lambda>r. rq_id r = i) (ga_permits (release i g)) = None"
    by (fastforce simp: find_None_iff)
  then show ?thesis by (simp add: release_def [of i "release i g"])
qed

theorem permit_released_once_witness:
  "gate_reachable (jint 3) demo_limits demo_gate \<and> map rq_id (ga_permits demo_gate) = [0, 2] \<and>
   map rq_id (ga_permits (release 0 demo_gate)) = [2, 1] \<and> release 0 (release 0 demo_gate) = release 0 demo_gate"
proof -
  have "release 0 (release 0 demo_gate) = release 0 demo_gate"
    by (rule permit_released_once [OF demo_gate_reachable])
  then show ?thesis using demo_gate_reachable
    by (simp add: demo_gate_def release_def drain_def grant_def provider_active_def)
qed

end
