(* ===== verification/Queue_Transport.thy ===== *)
theory Queue_Transport
  imports Job_Store "HOL-Library.Multiset"
begin

text \<open>
  \<open>packages/queue/src/queue.ts\<close> and \<open>worker.ts\<close>: the client of the queue service, the registry of
  handlers, the runtime that attaches them, and the in-process queue.

  The queue service itself, pg-boss, is a package the sources only call.  It is the parameter
  \<open>pg_boss\<close>: a record of the operations the client uses over a state the client never sees, each
  of which may reject.  What one property relies on of it is the predicate \<open>boss_provisions\<close>.
\<close>

section \<open>Errors and policies\<close>

definition queueError :: "string \<Rightarrow> bool \<Rightarrow> operational_error_class \<Rightarrow> int \<Rightarrow> exn" where
  "queueError code retryable errorClass statusCode =
     Exn_operational (OperationalError code errorClass (Some retryable) (jint statusCode))"

text \<open>\<open>queueError\<close> with its two default arguments.\<close>

definition dependencyError :: "string \<Rightarrow> bool \<Rightarrow> exn" where
  "dependencyError code retryable = queueError code retryable Dependency 503"

record queue_settings =
  qs_deleteAfterSeconds :: "int option"
  qs_expireInSeconds :: "int option"
  qs_heartbeatSeconds :: "int option"
  qs_retentionSeconds :: "int option"
  qs_retryLimit :: "int option"

record queue_row = queue_settings +
  qs_policy :: "string option"

definition mutableQueuePolicy :: queue_settings where
  "mutableQueuePolicy = \<lparr>qs_deleteAfterSeconds = Some 1209600,
     qs_expireInSeconds = Some queueDeliveryExpirySeconds, qs_heartbeatSeconds = Some 60,
     qs_retentionSeconds = Some 1209600, qs_retryLimit = Some 0\<rparr>"

definition queuePolicy :: queue_row where
  "queuePolicy = \<lparr>qs_deleteAfterSeconds = Some 1209600,
     qs_expireInSeconds = Some queueDeliveryExpirySeconds, qs_heartbeatSeconds = Some 60,
     qs_retentionSeconds = Some 1209600, qs_retryLimit = Some 0, qs_policy = Some ''exclusive''\<rparr>"

datatype delivery_state = DS_active | DS_cancelled | DS_completed | DS_created | DS_failed | DS_retry

text \<open>A registration; the handler is a function value, named by a number.\<close>

record registration =
  rg_name :: string
  rg_version :: int
  rg_handler :: nat

definition registration_key :: "registration \<Rightarrow> string" where
  "registration_key r = queueVersionKey (rg_name r) (rg_version r)"

definition envelopeQueueKey :: "envelope \<Rightarrow> string" where
  "envelopeQueueKey e = queueVersionKey (en_queueName e) (en_handlerVersion e)"

record stop_options =
  so_graceful :: "bool option"
  so_timeoutMs :: "int option"

section \<open>The client of the queue service\<close>

text \<open>A rejection is \<open>None\<close> or \<open>False\<close>; \<open>stop\<close> receives \<open>graceful\<close> and \<open>timeout\<close>, \<open>send\<close> the singleton key.\<close>

record 'b pg_boss =
  pb_start :: "'b \<Rightarrow> bool \<times> 'b"
  pb_stop :: "bool \<Rightarrow> int \<Rightarrow> 'b \<Rightarrow> bool \<times> 'b"
  pb_send :: "string \<Rightarrow> js_num js_value \<Rightarrow> string \<Rightarrow> 'b \<Rightarrow> string option option \<times> 'b"
  pb_findJobs :: "string \<Rightarrow> string \<Rightarrow> 'b \<Rightarrow> (string \<times> delivery_state) list option"
  pb_getQueue :: "string \<Rightarrow> 'b \<Rightarrow> queue_row option option"
  pb_updateQueue :: "string \<Rightarrow> queue_settings \<Rightarrow> 'b \<Rightarrow> bool \<times> 'b"
  pb_createQueue :: "string \<Rightarrow> queue_row \<Rightarrow> 'b \<Rightarrow> bool \<times> 'b"
  pb_work :: "string \<Rightarrow> registration \<Rightarrow> 'b \<Rightarrow> string option \<times> 'b"
  pb_schemaVersion :: "'b \<Rightarrow> int option option"
  pb_detectSchemaDrift :: "'b \<Rightarrow> bool option"

record 'b pg_queue =
  pq_boss :: 'b
  pq_started :: bool

definition pg_start :: "'b pg_boss \<Rightarrow> 'b pg_queue \<Rightarrow> exn option \<times> 'b pg_queue" where
  "pg_start B q = (case pb_start B (pq_boss q) of
       (True, b) \<Rightarrow> (None, q\<lparr>pq_boss := b, pq_started := True\<rparr>)
     | (False, b) \<Rightarrow> (Some (dependencyError ''QUEUE_START_FAILED'' True),
         q\<lparr>pq_boss := snd (pb_stop B False 1000 b)\<rparr>))"

definition pg_stop :: "'b pg_boss \<Rightarrow> stop_options \<Rightarrow> 'b pg_queue \<Rightarrow> exn option \<times> 'b pg_queue" where
  "pg_stop B so q =
     (if \<not> pq_started q then (None, q)
      else case pb_stop B (coalesce (so_graceful so) True) (coalesce (so_timeoutMs so) 30000) (pq_boss q) of
          (True, b) \<Rightarrow> (None, q\<lparr>pq_boss := b, pq_started := False\<rparr>)
        | (False, b) \<Rightarrow> (Some (dependencyError ''QUEUE_STOP_FAILED'' True), q\<lparr>pq_boss := b\<rparr>))"

record publish_result =
  pr_created :: bool
  pr_deliveryId :: string

definition supported :: "envelope \<Rightarrow> bool" where
  "supported e \<longleftrightarrow> (en_queueName e, en_handlerVersion e) \<in> set queueDefinitions"

definition pg_publish :: "'b pg_boss \<Rightarrow> js_num js_value \<Rightarrow> 'b pg_queue \<Rightarrow> (exn + publish_result) \<times> 'b pg_queue" where
  "pg_publish B v q =
     (if \<not> pq_started q then (Inl (dependencyError ''QUEUE_NOT_STARTED'' True), q)
      else case parseQueueJobEnvelope v of
          None \<Rightarrow> (Inl (queueError ''QUEUE_ENVELOPE_INVALID'' False Validation 400), q)
        | Some e \<Rightarrow>
            if \<not> supported e then (Inl (queueError ''QUEUE_ENVELOPE_INVALID'' False Validation 400), q)
            else case pb_send B (envelopeQueueKey e) (envelope_value e) (en_domainJobId e) (pq_boss q) of
                (None, b) \<Rightarrow> (Inl (dependencyError ''QUEUE_PUBLISH_FAILED'' True), q\<lparr>pq_boss := b\<rparr>)
              | (Some d, b) \<Rightarrow> (Inr \<lparr>pr_created = (d \<noteq> None), pr_deliveryId = coalesce d (en_domainJobId e)\<rparr>,
                  q\<lparr>pq_boss := b\<rparr>))"

definition pg_findDelivery ::
    "'b pg_boss \<Rightarrow> string \<times> int \<Rightarrow> string \<Rightarrow> 'b pg_queue \<Rightarrow> exn + (string \<times> delivery_state) option" where
  "pg_findDelivery B k deliveryId q =
     (if \<not> pq_started q then Inl (dependencyError ''QUEUE_NOT_STARTED'' True)
      else case pb_findJobs B (queueVersionKey (fst k) (snd k)) deliveryId (pq_boss q) of
          None \<Rightarrow> Inl (dependencyError ''QUEUE_INSPECTION_FAILED'' True)
        | Some [] \<Rightarrow> Inr None
        | Some (d # _) \<Rightarrow> Inr (Some d))"

definition policy_differs :: "queue_row \<Rightarrow> bool" where
  "policy_differs r \<longleftrightarrow> qs_policy r \<noteq> qs_policy queuePolicy \<or>
     qs_expireInSeconds r \<noteq> qs_expireInSeconds queuePolicy \<or>
     qs_heartbeatSeconds r \<noteq> qs_heartbeatSeconds queuePolicy \<or>
     qs_deleteAfterSeconds r \<noteq> qs_deleteAfterSeconds queuePolicy \<or>
     qs_retentionSeconds r \<noteq> qs_retentionSeconds queuePolicy \<or>
     qs_retryLimit r \<noteq> qs_retryLimit queuePolicy"

fun pg_verify_loop :: "'b pg_boss \<Rightarrow> (string \<times> int) list \<Rightarrow> 'b \<Rightarrow> exn option" where
  "pg_verify_loop B [] b = None"
| "pg_verify_loop B (k # ks) b = (case pb_getQueue B (queueVersionKey (fst k) (snd k)) b of
       None \<Rightarrow> Some (dependencyError ''QUEUE_COMPATIBILITY_CHECK_FAILED'' True)
     | Some None \<Rightarrow> Some (dependencyError ''QUEUE_DEFINITION_MISSING'' False)
     | Some (Some r) \<Rightarrow>
         if policy_differs r then Some (dependencyError ''QUEUE_DEFINITION_INCOMPATIBLE'' False)
         else pg_verify_loop B ks b)"

definition pg_verifyQueues :: "'b pg_boss \<Rightarrow> (string \<times> int) list \<Rightarrow> 'b pg_queue \<Rightarrow> exn option" where
  "pg_verifyQueues B ks q =
     (if \<not> pq_started q then Some (dependencyError ''QUEUE_NOT_STARTED'' True)
      else pg_verify_loop B ks (pq_boss q))"

definition pg_work :: "'b pg_boss \<Rightarrow> registration \<Rightarrow> 'b pg_queue \<Rightarrow> (exn + string) \<times> 'b pg_queue" where
  "pg_work B r q =
     (if \<not> pq_started q then (Inl (dependencyError ''QUEUE_NOT_STARTED'' True), q)
      else case pb_work B (registration_key r) r (pq_boss q) of
          (None, b) \<Rightarrow> (Inl (dependencyError ''QUEUE_WORKER_REGISTRATION_FAILED'' True), q\<lparr>pq_boss := b\<rparr>)
        | (Some w, b) \<Rightarrow> (Inr w, q\<lparr>pq_boss := b\<rparr>))"

fun pg_provision_loop :: "'b pg_boss \<Rightarrow> (string \<times> int) list \<Rightarrow> 'b \<Rightarrow> exn option \<times> 'b" where
  "pg_provision_loop B [] b = (None, b)"
| "pg_provision_loop B (k # ks) b =
     (let name = queueVersionKey (fst k) (snd k) in
      case pb_getQueue B name b of
        None \<Rightarrow> (Some (dependencyError ''QUEUE_PROVISION_FAILED'' True), b)
      | Some (Some existing) \<Rightarrow>
          if qs_policy existing \<noteq> qs_policy queuePolicy
          then (Some (dependencyError ''QUEUE_DEFINITION_INCOMPATIBLE'' False), b)
          else (case pb_updateQueue B name mutableQueuePolicy b of
              (False, b1) \<Rightarrow> (Some (dependencyError ''QUEUE_PROVISION_FAILED'' True), b1)
            | (True, b1) \<Rightarrow> pg_provision_loop B ks b1)
      | Some None \<Rightarrow> (case pb_createQueue B name queuePolicy b of
              (False, b1) \<Rightarrow> (Some (dependencyError ''QUEUE_PROVISION_FAILED'' True), b1)
            | (True, b1) \<Rightarrow> pg_provision_loop B ks b1))"

definition pg_provisionQueues ::
    "'b pg_boss \<Rightarrow> (string \<times> int) list \<Rightarrow> 'b pg_queue \<Rightarrow> exn option \<times> 'b pg_queue" where
  "pg_provisionQueues B ks q = (case pg_provision_loop B ks (pq_boss q) of
       (Some e, b) \<Rightarrow> (Some e, q\<lparr>pq_boss := b\<rparr>)
     | (None, b) \<Rightarrow> (pg_verifyQueues B ks (q\<lparr>pq_boss := b\<rparr>), q\<lparr>pq_boss := b\<rparr>))"

text \<open>
  \<open>migrateQueueSchema\<close>: the answer and the service afterwards.  A rejection that is not already an
  operational error becomes \<open>QUEUE_MIGRATION_FAILED\<close>; the queue is stopped on every path.
\<close>

definition pg_schema_status :: "'b pg_boss \<Rightarrow> 'b \<Rightarrow> exn + int" where
  "pg_schema_status B b = (case (pb_schemaVersion B b, pb_detectSchemaDrift B b) of
       (Some version, Some driftFree) \<Rightarrow>
         (case version of
            None \<Rightarrow> Inl (dependencyError ''QUEUE_SCHEMA_INCOMPATIBLE'' False)
          | Some n \<Rightarrow> if \<not> driftFree then Inl (dependencyError ''QUEUE_SCHEMA_INCOMPATIBLE'' False) else Inr n)
     | _ \<Rightarrow> Inl (dependencyError ''QUEUE_MIGRATION_FAILED'' True))"

definition migrateQueueSchema :: "'b pg_boss \<Rightarrow> (string \<times> int) list \<Rightarrow> 'b \<Rightarrow> (exn + int) \<times> 'b pg_queue" where
  "migrateQueueSchema B ks b0 =
     (let finally = (\<lambda>q. snd (pg_stop B \<lparr>so_graceful = None, so_timeoutMs = None\<rparr> q)) in
      case pg_start B \<lparr>pq_boss = b0, pq_started = False\<rparr> of
        (Some e, q) \<Rightarrow> (Inl e, finally q)
      | (None, q) \<Rightarrow> (case pg_provisionQueues B ks q of
            (Some e, q1) \<Rightarrow> (Inl e, finally q1)
          | (None, q1) \<Rightarrow> (pg_schema_status B (pq_boss q1), finally q1)))"

text \<open>\<open>executeHandler\<close>: the handler call a delivery leads to, or the rejection.\<close>

definition executeHandler :: "registration \<Rightarrow> js_num js_value \<Rightarrow> exn + (nat \<times> envelope)" where
  "executeHandler r data = (case parseQueueJobEnvelope data of
       None \<Rightarrow> Inl (queueError ''QUEUE_DELIVERY_INVALID'' False Validation 422)
     | Some e \<Rightarrow>
         if envelopeQueueKey e \<noteq> registration_key r
         then Inl (queueError ''QUEUE_DELIVERY_INVALID'' False Validation 422)
         else Inr (rg_handler r, e))"

section \<open>The registry\<close>

text \<open>The map \<open>byKey\<close>, in insertion order; \<open>Inl\<close> is the refusal of a second registration of a key.\<close>

fun register_all :: "(string \<times> registration) list \<Rightarrow> registration list \<Rightarrow> exn + (string \<times> registration) list" where
  "register_all byKey [] = Inr byKey"
| "register_all byKey (r # rs) =
     (if map_of byKey (registration_key r) \<noteq> None
      then Inl (queueError ''QUEUE_HANDLER_DUPLICATE'' False Validation 400)
      else register_all (byKey @ [(registration_key r, r)]) rs)"

definition createQueueHandlerRegistry :: "registration list \<Rightarrow> exn + (string \<times> registration) list" where
  "createQueueHandlerRegistry rs = register_all [] rs"

definition registry_supports :: "(string \<times> registration) list \<Rightarrow> string \<times> int \<Rightarrow> bool" where
  "registry_supports reg k \<longleftrightarrow> map_of reg (queueVersionKey (fst k) (snd k)) \<noteq> None"

definition registry_registrations :: "(string \<times> registration) list \<Rightarrow> registration list" where
  "registry_registrations reg = map snd reg"

definition assertWorkerCompatibility :: "(string \<times> registration) list \<Rightarrow> (string \<times> int) list \<Rightarrow> exn option" where
  "assertWorkerCompatibility reg required =
     (if list_ex (\<lambda>k. \<not> registry_supports reg k) required
      then Some (dependencyError ''QUEUE_HANDLER_VERSION_UNSUPPORTED'' False) else None)"

section \<open>The worker runtime\<close>

text \<open>
  What the runtime calls on its client.  Both clients of the sources provide it: the client of the
  queue service and the in-process queue.
\<close>

record 's worker_client =
  wc_start :: "'s \<Rightarrow> exn option \<times> 's"
  wc_stop :: "stop_options \<Rightarrow> 's \<Rightarrow> exn option \<times> 's"
  wc_verifyQueues :: "(string \<times> int) list \<Rightarrow> 's \<Rightarrow> exn option"
  wc_work :: "registration \<Rightarrow> 's \<Rightarrow> (exn + string) \<times> 's"

record 's runtime =
  rt_client :: 's
  rt_started :: bool

fun work_all :: "'s worker_client \<Rightarrow> registration list \<Rightarrow> 's \<Rightarrow> exn option \<times> 's" where
  "work_all C [] s = (None, s)"
| "work_all C (r # rs) s = (case wc_work C r s of
       (Inl e, s1) \<Rightarrow> (Some e, s1)
     | (Inr _, s1) \<Rightarrow> work_all C rs s1)"

definition runtime_attach :: "'s worker_client \<Rightarrow> registration list \<Rightarrow> 's \<Rightarrow> exn option \<times> 's" where
  "runtime_attach C rs s = (case wc_verifyQueues C (map (\<lambda>r. (rg_name r, rg_version r)) rs) s of
       Some e \<Rightarrow> (Some e, s)
     | None \<Rightarrow> work_all C rs s)"

definition runtime_start ::
    "'s worker_client \<Rightarrow> (string \<times> registration) list \<Rightarrow> (string \<times> int) list \<Rightarrow> 's runtime \<Rightarrow> exn option \<times> 's runtime" where
  "runtime_start C reg required rt = (case assertWorkerCompatibility reg required of
       Some e \<Rightarrow> (Some e, rt)
     | None \<Rightarrow> (case wc_start C (rt_client rt) of
         (Some e, s) \<Rightarrow> (Some e, rt\<lparr>rt_client := s\<rparr>)
       | (None, s) \<Rightarrow> (case runtime_attach C (registry_registrations reg) s of
           (None, s1) \<Rightarrow> (None, rt\<lparr>rt_client := s1, rt_started := True\<rparr>)
         | (Some e, s1) \<Rightarrow> (Some e, rt\<lparr>rt_client :=
             snd (wc_stop C \<lparr>so_graceful = Some True, so_timeoutMs = None\<rparr> s1)\<rparr>))))"

definition runtime_stop :: "'s worker_client \<Rightarrow> stop_options \<Rightarrow> 's runtime \<Rightarrow> exn option \<times> 's runtime" where
  "runtime_stop C so rt =
     (if \<not> rt_started rt then (None, rt)
      else case wc_stop C so (rt_client rt) of
          (Some e, s) \<Rightarrow> (Some e, rt\<lparr>rt_client := s\<rparr>)
        | (None, s) \<Rightarrow> (None, rt\<lparr>rt_client := s, rt_started := False\<rparr>))"

section \<open>The in-process queue\<close>

text \<open>
  A delivery, the handlers by key, and the handler calls made so far in order; \<open>ip_active\<close> holds
  the positions in that order of the calls whose promise has not settled.  A handler runs after the
  call that started it returns.
\<close>

record delivery =
  dv_envelope :: envelope
  dv_processed :: bool

record in_process =
  ip_deliveries :: "(string \<times> delivery) list"
  ip_handlers :: "(string \<times> registration) list"
  ip_calls :: "(nat \<times> envelope) list"
  ip_active :: "nat list"
  ip_accepting :: bool

definition createInProcessQueue :: in_process where
  "createInProcessQueue = \<lparr>ip_deliveries = [], ip_handlers = [], ip_calls = [], ip_active = [],
     ip_accepting = False\<rparr>"

fun ip_drain_loop ::
    "(string \<times> registration) list \<Rightarrow> (string \<times> delivery) list \<Rightarrow> (string \<times> delivery) list \<times> (nat \<times> envelope) list" where
  "ip_drain_loop hs [] = ([], [])"
| "ip_drain_loop hs ((i, d) # ds) = (case ip_drain_loop hs ds of (ds', calls) \<Rightarrow>
     if dv_processed d then ((i, d) # ds', calls)
     else case map_of hs (envelopeQueueKey (dv_envelope d)) of
         None \<Rightarrow> ((i, d) # ds', calls)
       | Some r \<Rightarrow> ((i, d\<lparr>dv_processed := True\<rparr>) # ds', (rg_handler r, dv_envelope d) # calls))"

definition ip_drain :: "in_process \<Rightarrow> in_process" where
  "ip_drain s =
     (if \<not> ip_accepting s then s
      else case ip_drain_loop (ip_handlers s) (ip_deliveries s) of (ds, calls) \<Rightarrow>
        s\<lparr>ip_deliveries := ds, ip_calls := ip_calls s @ calls,
          ip_active := ip_active s @ [length (ip_calls s) ..< length (ip_calls s) + length calls]\<rparr>)"

definition ip_findDelivery :: "string \<Rightarrow> in_process \<Rightarrow> (string \<times> delivery_state) option" where
  "ip_findDelivery i s =
     map_option (\<lambda>d. (i, if dv_processed d then DS_completed else DS_created)) (map_of (ip_deliveries s) i)"

definition ip_publish :: "envelope \<Rightarrow> in_process \<Rightarrow> (exn + publish_result) \<times> in_process" where
  "ip_publish e s =
     (if \<not> ip_accepting s then (Inl (dependencyError ''QUEUE_NOT_STARTED'' True), s)
      else let existing = map_of (ip_deliveries s) (en_domainJobId e);
               s1 = (if existing = None
                     then s\<lparr>ip_deliveries := ip_deliveries s @
                            [(en_domainJobId e, \<lparr>dv_envelope = e, dv_processed = False\<rparr>)]\<rparr>
                     else s)
           in (Inr \<lparr>pr_created = (existing = None), pr_deliveryId = en_domainJobId e\<rparr>, ip_drain s1))"

definition ip_start :: "in_process \<Rightarrow> exn option \<times> in_process" where
  "ip_start s = (None, ip_drain (s\<lparr>ip_accepting := True\<rparr>))"

text \<open>\<open>stop\<close> returns once the calls of \<open>ip_active\<close> have settled; \<open>ip_settle\<close> is one of them settling.\<close>

definition ip_stop :: "stop_options \<Rightarrow> in_process \<Rightarrow> exn option \<times> in_process" where
  "ip_stop so s = (None, s\<lparr>ip_accepting := False\<rparr>)"

definition ip_settle :: "nat \<Rightarrow> in_process \<Rightarrow> in_process" where
  "ip_settle n s = s\<lparr>ip_active := filter (\<lambda>m. m \<noteq> n) (ip_active s)\<rparr>"

definition ip_verifyQueues :: "(string \<times> int) list \<Rightarrow> in_process \<Rightarrow> exn option" where
  "ip_verifyQueues ks s = None"

definition ip_work :: "registration \<Rightarrow> in_process \<Rightarrow> (exn + string) \<times> in_process" where
  "ip_work r s =
     (if map_of (ip_handlers s) (registration_key r) \<noteq> None
      then (Inl (Exn_operational (OperationalError ''QUEUE_HANDLER_DUPLICATE'' Validation None (jint 400))), s)
      else (Inr (registration_key r), ip_drain (s\<lparr>ip_handlers := ip_handlers s @ [(registration_key r, r)]\<rparr>)))"

definition pg_client :: "'b pg_boss \<Rightarrow> 'b pg_queue worker_client" where
  "pg_client B = \<lparr>wc_start = pg_start B, wc_stop = pg_stop B, wc_verifyQueues = pg_verifyQueues B, wc_work = pg_work B\<rparr>"

definition ip_client :: "in_process worker_client" where
  "ip_client = \<lparr>wc_start = ip_start, wc_stop = ip_stop, wc_verifyQueues = ip_verifyQueues, wc_work = ip_work\<rparr>"

section \<open>What a client promises\<close>

text \<open>
  The contract of \<open>WorkerQueueClient\<close> the runtime and the publishers rely on: it is up after a
  successful start and until a successful stop, and while it is down nothing can be published.
\<close>

locale queue_client =
  fixes C :: "'s worker_client" and up :: "'s \<Rightarrow> bool" and publish :: "'e \<Rightarrow> 's \<Rightarrow> (exn + publish_result) \<times> 's"
  assumes started: "wc_start C s = (None, s') \<Longrightarrow> up s'"
    and worked: "wc_work C r s = (res, s') \<Longrightarrow> up s' = up s"
    and stopped: "wc_stop C so s = (None, s') \<Longrightarrow> \<not> up s'"
    and refuses: "\<not> up s \<Longrightarrow> publish e s = (Inl (dependencyError ''QUEUE_NOT_STARTED'' True), s)"
begin

lemma work_all_up: "work_all C rs s = (res, s') \<Longrightarrow> up s' = up s"
proof (induction rs arbitrary: s)
  case (Cons r rs)
  then show ?case by (auto split: prod.splits sum.splits dest: worked)
qed simp

lemma attach_up: "runtime_attach C rs s = (res, s') \<Longrightarrow> up s' = up s"
  by (auto simp: runtime_attach_def split: option.splits dest: work_all_up)

lemma start_outcome:
  assumes "runtime_start C reg required rt = (None, rt')"
  shows "up (rt_client rt') \<and> rt_started rt' \<and> (\<forall>k \<in> set required. registry_supports reg k)"
  using assms
  by (auto simp: runtime_start_def assertWorkerCompatibility_def list_ex_iff
      split: option.splits prod.splits if_splits dest!: attach_up started)

lemma stop_outcome:
  assumes "runtime_stop C so rt = (None, rt')" "rt_started rt"
  shows "\<not> up (rt_client rt') \<and> \<not> rt_started rt' \<and>
    publish e (rt_client rt') = (Inl (dependencyError ''QUEUE_NOT_STARTED'' True), rt_client rt')"
proof -
  obtain s where "wc_stop C so (rt_client rt) = (None, s)" "rt' = rt\<lparr>rt_client := s, rt_started := False\<rparr>"
    using assms by (auto simp: runtime_stop_def split: option.splits prod.splits)
  then show ?thesis using stopped refuses by simp
qed

end

interpretation pg: queue_client "pg_client B" pq_started "pg_publish B" for B
proof
  fix s s' assume "wc_start (pg_client B) s = (None, s')"
  then show "pq_started s'" by (auto simp: pg_client_def pg_start_def split: prod.splits bool.splits)
next
  fix r s res s' assume "wc_work (pg_client B) r s = (res, s')"
  then show "pq_started s' = pq_started s"
    by (auto simp: pg_client_def pg_work_def split: prod.splits option.splits if_splits)
next
  fix so s s' assume "wc_stop (pg_client B) so s = (None, s')"
  then show "\<not> pq_started s'" by (auto simp: pg_client_def pg_stop_def split: prod.splits bool.splits if_splits)
qed (simp add: pg_publish_def)

lemma ip_drain_accepting [simp]: "ip_accepting (ip_drain s) = ip_accepting s"
  by (simp add: ip_drain_def split: prod.splits)

interpretation ip: queue_client ip_client ip_accepting ip_publish
  by unfold_locales
    (auto simp: ip_client_def ip_start_def ip_stop_def ip_work_def ip_publish_def split: if_splits)

section \<open>The in-process queue delivers once\<close>

definition processed_envelopes :: "(string \<times> delivery) list \<Rightarrow> envelope list" where
  "processed_envelopes ds = map (dv_envelope \<circ> snd) (filter (dv_processed \<circ> snd) ds)"

text \<open>The calls made are those of the processed deliveries, each to the handler of its queue.\<close>

definition ip_inv :: "in_process \<Rightarrow> bool" where
  "ip_inv s \<longleftrightarrow> distinct (map fst (ip_deliveries s)) \<and>
     (\<forall>(i, d) \<in> set (ip_deliveries s). i = en_domainJobId (dv_envelope d)) \<and>
     mset (map snd (ip_calls s)) = mset (processed_envelopes (ip_deliveries s)) \<and>
     (\<forall>(h, e) \<in> set (ip_calls s). \<exists>r. map_of (ip_handlers s) (envelopeQueueKey e) = Some r \<and> rg_handler r = h)"

definition ip_caught_up :: "in_process \<Rightarrow> bool" where
  "ip_caught_up s \<longleftrightarrow> (ip_accepting s \<longrightarrow> (\<forall>(i, d) \<in> set (ip_deliveries s).
     dv_processed d \<or> map_of (ip_handlers s) (envelopeQueueKey (dv_envelope d)) = None))"

lemma drain_loop_facts:
  assumes "ip_drain_loop hs ds = (ds', calls)"
  shows "map fst ds' = map fst ds" "map (dv_envelope \<circ> snd) ds' = map (dv_envelope \<circ> snd) ds"
    "mset (processed_envelopes ds') = mset (map snd calls) + mset (processed_envelopes ds)"
    "\<forall>(i, d) \<in> set ds'. dv_processed d \<or> map_of hs (envelopeQueueKey (dv_envelope d)) = None"
    "\<forall>(h, e) \<in> set calls. \<exists>r. map_of hs (envelopeQueueKey e) = Some r \<and> rg_handler r = h"
  using assms
  by (induction hs ds arbitrary: ds' calls rule: ip_drain_loop.induct)
    ((auto simp: processed_envelopes_def split: prod.splits if_splits option.splits; fastforce)+)

lemma keyed_by_envelope:
  "(\<forall>(i, d) \<in> set ds. i = en_domainJobId (dv_envelope d)) \<longleftrightarrow>
   map fst ds = map en_domainJobId (map (dv_envelope \<circ> snd) ds)"
  by (induction ds) auto

lemma ip_drain_ok:
  assumes "ip_inv s"
  shows "ip_inv (ip_drain s) \<and> ip_caught_up (ip_drain s)"
proof (cases "ip_accepting s")
  case True
  obtain ds calls where l: "ip_drain_loop (ip_handlers s) (ip_deliveries s) = (ds, calls)" by force
  note f = drain_loop_facts [OF l]
  show ?thesis using assms True f(3,4,5) unfolding ip_inv_def ip_caught_up_def keyed_by_envelope
    by (auto simp: ip_drain_def l f(1,2))
next
  case False
  with assms show ?thesis by (simp add: ip_drain_def ip_caught_up_def)
qed

text \<open>Every state of an in-process queue, whatever the order of calls and of settling handlers.\<close>

inductive ip_reachable :: "in_process \<Rightarrow> bool" where
  created: "ip_reachable createInProcessQueue"
| starts: "ip_reachable s \<Longrightarrow> ip_reachable (snd (ip_start s))"
| stops: "ip_reachable s \<Longrightarrow> ip_reachable (snd (ip_stop so s))"
| settles: "ip_reachable s \<Longrightarrow> ip_reachable (ip_settle n s)"
| publishes: "ip_reachable s \<Longrightarrow> ip_reachable (snd (ip_publish e s))"
| works: "ip_reachable s \<Longrightarrow> ip_reachable (snd (ip_work r s))"

lemma ip_inv_published:
  assumes "ip_inv s" "map_of (ip_deliveries s) (en_domainJobId e) = None"
  shows "ip_inv (s\<lparr>ip_deliveries := ip_deliveries s @ [(en_domainJobId e, \<lparr>dv_envelope = e, dv_processed = False\<rparr>)]\<rparr>)"
  using assms by (auto simp: ip_inv_def processed_envelopes_def map_of_eq_None_iff)

lemma ip_inv_worked:
  assumes "ip_inv s" "map_of (ip_handlers s) k = None"
  shows "ip_inv (s\<lparr>ip_handlers := ip_handlers s @ [(k, r)]\<rparr>)"
  using assms by (fastforce simp: ip_inv_def map_add_def)

lemma ip_reachable_ok: "ip_reachable s \<Longrightarrow> ip_inv s \<and> ip_caught_up s"
proof (induction rule: ip_reachable.induct)
  case created
  show ?case by (simp add: createInProcessQueue_def ip_inv_def ip_caught_up_def processed_envelopes_def)
next
  case (starts s)
  then have "ip_inv (s\<lparr>ip_accepting := True\<rparr>)" by (simp add: ip_inv_def)
  then show ?case by (simp add: ip_start_def ip_drain_ok)
next
  case (stops s so)
  then show ?case by (simp add: ip_stop_def ip_inv_def ip_caught_up_def)
next
  case (settles s n)
  then show ?case by (simp add: ip_settle_def ip_inv_def ip_caught_up_def)
next
  case (publishes s e)
  then show ?case by (auto simp: ip_publish_def Let_def ip_drain_ok ip_inv_published)
next
  case (works s r)
  then show ?case by (auto simp: ip_work_def ip_drain_ok ip_inv_worked)
qed

lemma delivery_count:
  assumes "distinct (map fst ds)" "\<forall>(i, d) \<in> set ds. i = en_domainJobId (dv_envelope d)"
  shows "length (filter (\<lambda>e. en_domainJobId e = i) (processed_envelopes ds)) =
    (case map_of ds i of None \<Rightarrow> 0 | Some d \<Rightarrow> of_bool (dv_processed d))"
  using assms
proof (induction ds)
  case (Cons x ds)
  obtain k d where x: "x = (k, d)" by force
  have "map_of ds k = None" using Cons.prems(1) x by (simp add: map_of_eq_None_iff)
  with Cons x show ?case by (auto simp: processed_envelopes_def split: option.splits)
qed (simp add: processed_envelopes_def)

lemma calls_of_job:
  assumes "ip_inv s"
  shows "length (filter (\<lambda>c. en_domainJobId (snd c) = i) (ip_calls s)) =
    (case map_of (ip_deliveries s) i of None \<Rightarrow> 0 | Some d \<Rightarrow> of_bool (dv_processed d))"
proof -
  let ?k = "\<lambda>e. en_domainJobId e = i"
  have "length (filter (\<lambda>c. ?k (snd c)) (ip_calls s)) = length (filter ?k (map snd (ip_calls s)))"
    by (simp add: filter_map comp_def)
  also have "\<dots> = length (filter ?k (processed_envelopes (ip_deliveries s)))"
    using assms by (metis ip_inv_def mset_filter size_mset)
  also have "\<dots> = (case map_of (ip_deliveries s) i of None \<Rightarrow> 0 | Some d \<Rightarrow> of_bool (dv_processed d))"
    using assms unfolding ip_inv_def by (intro delivery_count) auto
  finally show ?thesis .
qed

text \<open>
  C35: the in-process queue runs every published job exactly once.  In every reachable state the
  number of handler calls for a job is one if its delivery is processed and zero otherwise, every call
  went to the handler registered for the queue of its envelope, and while the queue accepts work a
  delivery whose queue has a handler is processed.
\<close>

theorem in_process_exactly_once:
  assumes "ip_reachable s"
  shows "length (filter (\<lambda>c. en_domainJobId (snd c) = i) (ip_calls s)) =
      (case map_of (ip_deliveries s) i of None \<Rightarrow> 0 | Some d \<Rightarrow> of_bool (dv_processed d)) \<and>
    (\<forall>(h, e) \<in> set (ip_calls s). \<exists>r. map_of (ip_handlers s) (envelopeQueueKey e) = Some r \<and> rg_handler r = h) \<and>
    (ip_accepting s \<and> map_of (ip_deliveries s) i = Some d \<and>
       map_of (ip_handlers s) (envelopeQueueKey (dv_envelope d)) \<noteq> None \<longrightarrow> dv_processed d)"
proof -
  have ok: "ip_inv s" "ip_caught_up s" using ip_reachable_ok [OF assms] by simp_all
  have "dv_processed d" if "ip_accepting s" "map_of (ip_deliveries s) i = Some d"
      "map_of (ip_handlers s) (envelopeQueueKey (dv_envelope d)) \<noteq> None"
    using ok(2) that map_of_SomeD [OF that(2)] by (fastforce simp: ip_caught_up_def)
  moreover have "\<forall>(h, e) \<in> set (ip_calls s). \<exists>r. map_of (ip_handlers s) (envelopeQueueKey e) = Some r \<and> rg_handler r = h"
    using ok(1) by (simp add: ip_inv_def)
  ultimately show ?thesis using calls_of_job [OF ok(1)] by blast
qed

definition demo_registration :: registration where
  "demo_registration = \<lparr>rg_name = ''analysis.run'', rg_version = 1, rg_handler = 7\<rparr>"

definition sample_envelope :: envelope where
  "sample_envelope = \<lparr>en_correlationId = ''01990000-0000-7000-8000-000000000003'',
     en_domainJobId = ''01990000-0000-7000-8000-000000000002'', en_handlerVersion = 1,
     en_queueName = ''analysis.run'', en_workspaceId = ''01990000-0000-7000-8000-000000000001''\<rparr>"

text \<open>A job published twice before its handler is registered.\<close>

definition demo_in_process :: in_process where
  "demo_in_process = snd (ip_work demo_registration (snd (ip_publish sample_envelope
     (snd (ip_publish sample_envelope (snd (ip_start createInProcessQueue)))))))"

theorem in_process_exactly_once_witness:
  "ip_reachable demo_in_process \<and> ip_calls demo_in_process = [(7, sample_envelope)] \<and>
   length (filter (\<lambda>c. en_domainJobId (snd c) = en_domainJobId sample_envelope) (ip_calls demo_in_process)) = 1"
proof -
  have r: "ip_reachable demo_in_process" unfolding demo_in_process_def by (intro ip_reachable.intros)
  have c: "ip_calls demo_in_process = [(7, sample_envelope)]"
    "map_of (ip_deliveries demo_in_process) (en_domainJobId sample_envelope) =
       Some \<lparr>dv_envelope = sample_envelope, dv_processed = True\<rparr>" by code_simp+
  show ?thesis using r c(1) in_process_exactly_once [OF r, of "en_domainJobId sample_envelope"]
    unfolding c(2) by simp
qed

section \<open>The worker runtime\<close>

lemma register_all_Inr:
  "register_all byKey rs = Inr reg \<Longrightarrow> distinct (map fst byKey) \<Longrightarrow>
   reg = byKey @ map (\<lambda>r. (registration_key r, r)) rs \<and> distinct (map fst reg)"
proof (induction byKey rs rule: register_all.induct)
  case (2 byKey r rs)
  from "2.prems" have new: "map_of byKey (registration_key r) = None"
    and rest: "register_all (byKey @ [(registration_key r, r)]) rs = Inr reg"
    by (cases "map_of byKey (registration_key r)", simp_all)+
  have "distinct (map fst (byKey @ [(registration_key r, r)]))"
    using new "2.prems"(2) by (simp add: map_of_eq_None_iff)
  with "2.IH" rest new
  have "reg = (byKey @ [(registration_key r, r)]) @ map (\<lambda>r. (registration_key r, r)) rs \<and> distinct (map fst reg)"
    by blast
  then show ?case by force
qed auto

lemma registry_Inr:
  assumes "createQueueHandlerRegistry rs = Inr reg"
  shows "registry_registrations reg = rs" "distinct (map registration_key rs)"
    "registry_supports reg k \<longleftrightarrow> (\<exists>r \<in> set rs. registration_key r = queueVersionKey (fst k) (snd k))"
proof -
  have reg: "reg = map (\<lambda>r. (registration_key r, r)) rs" and d: "distinct (map fst reg)"
    using register_all_Inr [of "[]" rs reg] assms unfolding createQueueHandlerRegistry_def by auto
  show "registry_registrations reg = rs" by (simp add: reg registry_registrations_def comp_def)
  show "distinct (map registration_key rs)" using d by (simp add: reg comp_def)
  show "registry_supports reg k \<longleftrightarrow> (\<exists>r \<in> set rs. registration_key r = queueVersionKey (fst k) (snd k))"
    by (auto simp: reg registry_supports_def map_of_eq_None_iff image_image intro: rev_image_eqI)
qed

text \<open>
  A worker runs with one handler per queue version and only with every handler it needs.  A
  registry exists only for registrations with distinct keys and keeps them in order; a runtime that
  starts has its client started and a handler for every required queue; once it has stopped,
  publishing is refused.
\<close>

theorem worker_runtime_contract:
  assumes "createQueueHandlerRegistry rs = Inr reg"
    and "runtime_start (pg_client B) reg required rt = (None, rt1)"
    and "runtime_stop (pg_client B) so rt1 = (None, rt2)"
  shows "distinct (map registration_key rs) \<and> registry_registrations reg = rs \<and>
    pq_started (rt_client rt1) \<and>
    (\<forall>k \<in> set required. \<exists>r \<in> set rs. registration_key r = queueVersionKey (fst k) (snd k)) \<and>
    pg_publish B e (rt_client rt2) = (Inl (dependencyError ''QUEUE_NOT_STARTED'' True), rt_client rt2)"
  using registry_Inr [OF assms(1)] pg.start_outcome [OF assms(2)] pg.stop_outcome [OF assms(3)] by blast

section \<open>Publishing and delivering\<close>

lemma supported_ok: "supported e \<Longrightarrow> 0 \<le> en_handlerVersion e"
  by (auto simp: supported_def queueDefinitions_def)

lemma delivered_iff:
  assumes "envelope_ok e" "0 \<le> rg_version r"
  shows "executeHandler r (envelope_value e) = Inr c \<longleftrightarrow>
    c = (rg_handler r, e) \<and> rg_name r = en_queueName e \<and> rg_version r = en_handlerVersion e"
proof -
  have "0 \<le> en_handlerVersion e" using assms(1) by (simp add: envelope_ok_def)
  then have "envelopeQueueKey e = registration_key r \<longleftrightarrow>
      en_queueName e = rg_name r \<and> en_handlerVersion e = rg_version r"
    using queueVersionKey_inject [of "en_handlerVersion e" "rg_version r"] assms(2)
    by (auto simp: envelopeQueueKey_def registration_key_def)
  then show ?thesis using parse_envelope_value [OF assms(1)] by (auto simp: executeHandler_def)
qed

text \<open>
  What is published is what a handler receives.  A publish that answers has sent, under the key
  of the envelope's own queue and version and with the job as singleton key, a payload that the
  workers of that queue version hand to their handler unchanged and that every other worker rejects.
\<close>

theorem publish_reaches_its_handler:
  assumes "pg_publish B v q = (Inr res, q')"
  shows "\<exists>e d. pq_started q \<and> parseQueueJobEnvelope v = Some e \<and>
    (en_queueName e, en_handlerVersion e) \<in> set queueDefinitions \<and>
    pb_send B (queueVersionKey (en_queueName e) (en_handlerVersion e)) (envelope_value e) (en_domainJobId e)
      (pq_boss q) = (Some d, pq_boss q') \<and>
    (pr_created res \<longleftrightarrow> d \<noteq> None) \<and> pr_deliveryId res = coalesce d (en_domainJobId e) \<and>
    (\<forall>r. 0 \<le> rg_version r \<longrightarrow>
       (executeHandler r (envelope_value e) = Inr (rg_handler r, e) \<longleftrightarrow>
          rg_name r = en_queueName e \<and> rg_version r = en_handlerVersion e) \<and>
       ((rg_name r, rg_version r) \<noteq> (en_queueName e, en_handlerVersion e) \<longrightarrow>
          executeHandler r (envelope_value e) = Inl (queueError ''QUEUE_DELIVERY_INVALID'' False Validation 422)))"
proof -
  from assms obtain e d where e: "pq_started q" "parseQueueJobEnvelope v = Some e" "supported e"
      "pb_send B (envelopeQueueKey e) (envelope_value e) (en_domainJobId e) (pq_boss q) = (Some d, pq_boss q')"
      "res = \<lparr>pr_created = (d \<noteq> None), pr_deliveryId = coalesce d (en_domainJobId e)\<rparr>"
    by (auto simp: pg_publish_def split: if_splits option.splits prod.splits)
  have ok: "envelope_ok e" by (rule parse_envelope_ok [OF e(2)])
  have "executeHandler r (envelope_value e) = Inl (queueError ''QUEUE_DELIVERY_INVALID'' False Validation 422)"
    if "0 \<le> rg_version r" "(rg_name r, rg_version r) \<noteq> (en_queueName e, en_handlerVersion e)" for r
    using delivered_iff [OF ok that(1), of "(rg_handler r, e)"] that(2) parse_envelope_value [OF ok]
    by (auto simp: executeHandler_def split: if_splits)
  with e delivered_iff [OF ok] show ?thesis
    by (intro exI [of _ e] exI [of _ d]) (auto simp: supported_def envelopeQueueKey_def)
qed

section \<open>Provisioning\<close>

text \<open>
  What provisioning relies on of the queue service: a queue that does not exist can be created and
  then has the given settings; one that exists can be updated, which replaces its settings and keeps
  its policy; and neither touches another queue.
\<close>

definition boss_creates :: "'b pg_boss \<Rightarrow> bool" where
  "boss_creates B \<longleftrightarrow> (\<forall>n p b. pb_getQueue B n b = Some None \<longrightarrow>
     (\<exists>b'. pb_createQueue B n p b = (True, b') \<and> pb_getQueue B n b' = Some (Some p) \<and>
        (\<forall>m. m \<noteq> n \<longrightarrow> pb_getQueue B m b' = pb_getQueue B m b)))"

definition boss_updates :: "'b pg_boss \<Rightarrow> bool" where
  "boss_updates B \<longleftrightarrow> (\<forall>n u r b. pb_getQueue B n b = Some (Some r) \<longrightarrow>
     (\<exists>b'. pb_updateQueue B n u b = (True, b') \<and>
        pb_getQueue B n b' = Some (Some (queue_settings.extend u \<lparr>qs_policy = qs_policy r\<rparr>)) \<and>
        (\<forall>m. m \<noteq> n \<longrightarrow> pb_getQueue B m b' = pb_getQueue B m b)))"

text \<open>A queue that provisioning may meet: missing, or present with the policy of the sources.\<close>

definition provisionable :: "'b pg_boss \<Rightarrow> 'b \<Rightarrow> string \<times> int \<Rightarrow> bool" where
  "provisionable B b k \<longleftrightarrow> (case pb_getQueue B (queueVersionKey (fst k) (snd k)) b of
       None \<Rightarrow> False | Some None \<Rightarrow> True | Some (Some r) \<Rightarrow> qs_policy r = qs_policy queuePolicy)"

abbreviation queue_key :: "string \<times> int \<Rightarrow> string" where
  "queue_key k \<equiv> queueVersionKey (fst k) (snd k)"

lemma provision_step:
  assumes "boss_creates B" "boss_updates B" "provisionable B b k"
  shows "\<exists>b'. pg_provision_loop B (k # ks) b = pg_provision_loop B ks b' \<and>
    pb_getQueue B (queue_key k) b' = Some (Some queuePolicy) \<and>
    (\<forall>m. m \<noteq> queue_key k \<longrightarrow> pb_getQueue B m b' = pb_getQueue B m b)"
proof (cases "pb_getQueue B (queue_key k) b")
  case None
  with assms(3) show ?thesis by (simp add: provisionable_def)
next
  case (Some found)
  show ?thesis
  proof (cases found)
    case None
    with Some assms(1) obtain b' where "pb_createQueue B (queue_key k) queuePolicy b = (True, b')"
      "pb_getQueue B (queue_key k) b' = Some (Some queuePolicy)"
      "\<forall>m. m \<noteq> queue_key k \<longrightarrow> pb_getQueue B m b' = pb_getQueue B m b" unfolding boss_creates_def by blast
    with Some None show ?thesis by (intro exI [of _ b']) simp
  next
    case (Some r)
    with \<open>pb_getQueue B (queue_key k) b = Some found\<close> assms(2) obtain b' where
      "pb_updateQueue B (queue_key k) mutableQueuePolicy b = (True, b')"
      "pb_getQueue B (queue_key k) b' =
         Some (Some (queue_settings.extend mutableQueuePolicy \<lparr>qs_policy = qs_policy r\<rparr>))"
      "\<forall>m. m \<noteq> queue_key k \<longrightarrow> pb_getQueue B m b' = pb_getQueue B m b" unfolding boss_updates_def by blast
    moreover have pol: "qs_policy r = qs_policy queuePolicy"
      using assms(3) Some \<open>pb_getQueue B (queue_key k) b = Some found\<close> by (simp add: provisionable_def)
    moreover have "queue_settings.extend mutableQueuePolicy \<lparr>qs_policy = qs_policy queuePolicy\<rparr> = queuePolicy"
      by (simp add: mutableQueuePolicy_def queuePolicy_def queue_settings.defs queue_row.defs)
    ultimately show ?thesis using Some \<open>pb_getQueue B (queue_key k) b = Some found\<close>
      by (intro exI [of _ b']) simp
  qed
qed

lemma provision_loop_converges:
  assumes "boss_creates B" "boss_updates B" "\<forall>k \<in> set ks. provisionable B b k"
  shows "\<exists>b'. pg_provision_loop B ks b = (None, b') \<and>
    (\<forall>m. pb_getQueue B m b' = (if m \<in> queue_key ` set ks then Some (Some queuePolicy) else pb_getQueue B m b))"
  using assms(3)
proof (induction ks arbitrary: b)
  case (Cons k ks)
  then obtain b1 where b1: "pg_provision_loop B (k # ks) b = pg_provision_loop B ks b1"
      "pb_getQueue B (queue_key k) b1 = Some (Some queuePolicy)"
      "\<forall>m. m \<noteq> queue_key k \<longrightarrow> pb_getQueue B m b1 = pb_getQueue B m b"
    using provision_step [OF assms(1,2), of b k ks] by auto
  have "provisionable B b1 k'" if "k' \<in> set ks" for k'
    using Cons.prems that b1(2,3) by (cases "queue_key k' = queue_key k") (auto simp: provisionable_def)
  then obtain b' where "pg_provision_loop B ks b1 = (None, b')"
      "\<forall>m. pb_getQueue B m b' = (if m \<in> queue_key ` set ks then Some (Some queuePolicy) else pb_getQueue B m b1)"
    using Cons.IH by blast
  with b1 show ?case by (intro exI [of _ b']) auto
qed simp

lemma verify_provisioned:
  "\<forall>k \<in> set ks. pb_getQueue B (queue_key k) b = Some (Some queuePolicy) \<Longrightarrow> pg_verify_loop B ks b = None"
  by (induction ks) (auto simp: policy_differs_def)

lemma provision_converges_once:
  assumes "boss_creates B" "boss_updates B" "pq_started q" "\<forall>k \<in> set ks. provisionable B (pq_boss q) k"
  shows "\<exists>q'. pg_provisionQueues B ks q = (None, q') \<and> pq_started q' \<and> pg_verifyQueues B ks q' = None \<and>
    (\<forall>m. pb_getQueue B m (pq_boss q') =
       (if m \<in> queue_key ` set ks then Some (Some queuePolicy) else pb_getQueue B m (pq_boss q)))"
proof -
  from provision_loop_converges [OF assms(1,2,4)] obtain b' where b': "pg_provision_loop B ks (pq_boss q) = (None, b')"
    "\<forall>m. pb_getQueue B m b' = (if m \<in> queue_key ` set ks then Some (Some queuePolicy) else pb_getQueue B m (pq_boss q))"
    by blast
  then have "pg_verify_loop B ks b' = None" by (intro verify_provisioned) auto
  with b' assms(3) show ?thesis
    by (intro exI [of _ "q\<lparr>pq_boss := b'\<rparr>"]) (simp add: pg_provisionQueues_def pg_verifyQueues_def)
qed

text \<open>
  Provisioning converges and can be repeated.  If the queue service creates and updates queues
  as documented and no existing queue has another policy, provisioning succeeds, leaves exactly the
  named queues with exactly the policy of the sources and every other queue as it was, passes the
  verification a worker makes at startup, and run again succeeds and changes no queue.
\<close>

theorem provisioning_converges:
  assumes "boss_creates B" "boss_updates B" "pq_started q" "\<forall>k \<in> set ks. provisionable B (pq_boss q) k"
  shows "\<exists>q' q''. pg_provisionQueues B ks q = (None, q') \<and> pg_verifyQueues B ks q' = None \<and>
    (\<forall>m. pb_getQueue B m (pq_boss q') =
       (if m \<in> queue_key ` set ks then Some (Some queuePolicy) else pb_getQueue B m (pq_boss q))) \<and>
    pg_provisionQueues B ks q' = (None, q'') \<and>
    (\<forall>m. pb_getQueue B m (pq_boss q'') = pb_getQueue B m (pq_boss q'))"
proof -
  from provision_converges_once [OF assms] obtain q' where q': "pg_provisionQueues B ks q = (None, q')" "pq_started q'"
    "pg_verifyQueues B ks q' = None"
    "\<forall>m. pb_getQueue B m (pq_boss q') =
       (if m \<in> queue_key ` set ks then Some (Some queuePolicy) else pb_getQueue B m (pq_boss q))" by blast
  have "\<forall>k \<in> set ks. provisionable B (pq_boss q') k" using q'(4) by (simp add: provisionable_def)
  from provision_converges_once [OF assms(1,2) q'(2) this] q'(4) obtain q'' where
    "pg_provisionQueues B ks q' = (None, q'')" "\<forall>m. pb_getQueue B m (pq_boss q'') = pb_getQueue B m (pq_boss q')"
    by (metis (mono_tags, lifting))
  with q' show ?thesis by blast
qed

text \<open>A queue service in memory: its queues and the payloads sent.\<close>

definition demo_boss :: "((string \<times> queue_row) list \<times> (string \<times> js_num js_value \<times> string) list) pg_boss" where
  "demo_boss = \<lparr>pb_start = \<lambda>b. (True, b), pb_stop = \<lambda>_ _ b. (True, b),
     pb_send = \<lambda>n v k (qs, sent). (Some (Some ''delivery''), (qs, (n, v, k) # sent)),
     pb_findJobs = \<lambda>_ _ _. Some [],
     pb_getQueue = \<lambda>n b. Some (map_of (fst b) n),
     pb_updateQueue = \<lambda>n u b. (True, (case map_of (fst b) n of None \<Rightarrow> b
       | Some r \<Rightarrow> ((n, queue_settings.extend u \<lparr>qs_policy = qs_policy r\<rparr>) # fst b, snd b))),
     pb_createQueue = \<lambda>n p b. (True, ((n, p) # fst b, snd b)),
     pb_work = \<lambda>n _ b. (Some n, b), pb_schemaVersion = \<lambda>_. Some (Some 24), pb_detectSchemaDrift = \<lambda>_. Some True\<rparr>"

lemma demo_boss_laws: "boss_creates demo_boss" "boss_updates demo_boss"
  by (simp_all add: boss_creates_def boss_updates_def demo_boss_def)

theorem publish_reaches_its_handler_witness:
  "\<exists>res q'. pg_publish demo_boss (envelope_value sample_envelope) \<lparr>pq_boss = ([], []), pq_started = True\<rparr> = (Inr res, q') \<and>
     pr_created res \<and> executeHandler demo_registration (envelope_value sample_envelope) = Inr (7, sample_envelope)"
proof -
  let ?q = "\<lparr>pq_boss = ([], []), pq_started = True\<rparr>"
  have parse: "parseQueueJobEnvelope (envelope_value sample_envelope) = Some sample_envelope" by code_simp
  have sup: "supported sample_envelope" by code_simp
  have demo: "0 \<le> rg_version demo_registration" "rg_handler demo_registration = 7"
    "rg_name demo_registration = en_queueName sample_envelope"
    "rg_version demo_registration = en_handlerVersion sample_envelope"
    by (simp_all add: demo_registration_def sample_envelope_def)
  obtain res q' where p: "pg_publish demo_boss (envelope_value sample_envelope) ?q = (Inr res, q')" and c: "pr_created res"
    by (simp add: pg_publish_def parse sup demo_boss_def)
  have all: "\<forall>r. 0 \<le> rg_version r \<longrightarrow>
      (executeHandler r (envelope_value sample_envelope) = Inr (rg_handler r, sample_envelope) \<longleftrightarrow>
       rg_name r = en_queueName sample_envelope \<and> rg_version r = en_handlerVersion sample_envelope)"
    using publish_reaches_its_handler [OF p] parse by auto
  have "executeHandler demo_registration (envelope_value sample_envelope) = Inr (7, sample_envelope)"
    using spec [OF all, of demo_registration] demo by simp
  with p c show ?thesis by blast
qed

theorem provisioning_converges_witness:
  "\<exists>q'. pg_provisionQueues demo_boss queueDefinitions
      \<lparr>pq_boss = ([(queueVersionKey ''analysis.run'' 1, queuePolicy\<lparr>qs_retryLimit := Some 2\<rparr>)], []), pq_started = True\<rparr> = (None, q') \<and>
     pg_verifyQueues demo_boss queueDefinitions q' = None"
proof -
  let ?q = "\<lparr>pq_boss = ([(queueVersionKey ''analysis.run'' 1, queuePolicy\<lparr>qs_retryLimit := Some 2\<rparr>)], []), pq_started = True\<rparr>"
  have "\<forall>k \<in> set queueDefinitions. provisionable demo_boss (pq_boss ?q) k"
    by (simp add: provisionable_def demo_boss_def)
  from provisioning_converges [OF demo_boss_laws _ this] show ?thesis by auto
qed

definition demo_runtime :: "((string \<times> queue_row) list \<times> (string \<times> js_num js_value \<times> string) list) pg_queue runtime" where
  "demo_runtime = \<lparr>rt_client = \<lparr>pq_boss = ([(''analysis.run.v1'', queuePolicy)], []), pq_started = False\<rparr>,
     rt_started = False\<rparr>"

theorem worker_runtime_contract_witness:
  "\<exists>reg rt1 rt2. createQueueHandlerRegistry [demo_registration] = Inr reg \<and>
     runtime_start (pg_client demo_boss) reg [(''analysis.run'', 1)] demo_runtime = (None, rt1) \<and>
     pq_started (rt_client rt1) \<and>
     runtime_stop (pg_client demo_boss) \<lparr>so_graceful = None, so_timeoutMs = None\<rparr> rt1 = (None, rt2) \<and>
     pg_publish demo_boss (envelope_value sample_envelope) (rt_client rt2) =
       (Inl (dependencyError ''QUEUE_NOT_STARTED'' True), rt_client rt2)"
proof -
  let ?reg = "[(''analysis.run.v1'', demo_registration)]"
  let ?rt1 = "\<lparr>rt_client = \<lparr>pq_boss = ([(''analysis.run.v1'', queuePolicy)], []), pq_started = True\<rparr>, rt_started = True\<rparr>"
  have "createQueueHandlerRegistry [demo_registration] = Inr ?reg"
    "runtime_start (pg_client demo_boss) ?reg [(''analysis.run'', 1)] demo_runtime = (None, ?rt1)"
    "runtime_stop (pg_client demo_boss) \<lparr>so_graceful = None, so_timeoutMs = None\<rparr> ?rt1 = (None, demo_runtime)"
    by code_simp+
  from worker_runtime_contract [OF this] this show ?thesis by blast
qed

end
