(* ===== verification/JS_Sort.thy ===== *)
theory JS_Sort
  imports JS_Number "HOL-Library.Multiset"
begin

text \<open>
  \<open>Array.prototype.sort\<close> with a comparator, and what a comparator written with \<open>-\<close> and \<open>||\<close>
  decides.  A comparator is a function to numbers; the sort is stable, so whenever the comparator
  agrees with a linear order on keys the result is the stable sort by that key: the interface
  \<open>keyed_comparator\<close>, which each comparator of the sources interprets.

  The subtraction of two binary64 numbers has the sign of their order: both lie on the grid of
  \<open>2 ^ (-1074)\<close>, so a difference that is not zero is not rounded to zero.
\<close>

section \<open>The sign of a difference\<close>

definition grid :: rat where
  "grid = 2 powi (- 1074)"

lemma grid_pos: "0 < grid"
  by (simp add: grid_def)

lemma powi_grid: "- 1074 \<le> e \<Longrightarrow> 2 powi e = of_int (2 ^ nat (e + 1074)) * grid"
  using powi_split [of "e + 1074" "- 1074"] powi_nat [of "e + 1074"] by (simp add: grid_def)

lemma round_pos_grid: "\<exists>m. round_pos y = of_int m * grid"
proof -
  have "- 1074 \<le> ulp_exp y" by (simp add: ulp_exp_def)
  from powi_grid [OF this]
  have "round_pos y = of_int (rne (y / 2 powi ulp_exp y)) * (of_int (2 ^ nat (ulp_exp y + 1074)) * grid)"
    unfolding round_pos_def by simp
  then have "round_pos y = of_int (rne (y / 2 powi ulp_exp y) * 2 ^ nat (ulp_exp y + 1074)) * grid"
    by (simp only: of_int_mult mult.assoc)
  then show ?thesis by blast
qed

lemma representable_grid:
  assumes "representable x"
  shows "\<exists>m. x = of_int m * grid"
proof -
  have x: "x = round64 x" using assms by (simp add: representable_def)
  consider "0 < x" | "x = 0" | "0 < - x" by linarith
  then show ?thesis
  proof cases
    case 1
    with x round_pos_grid [of x] show ?thesis by (simp add: round64_def)
  next
    case 2
    then show ?thesis by (intro exI [of _ 0]) simp
  next
    case 3
    obtain m where "round_pos (- x) = of_int m * grid" using round_pos_grid by blast
    moreover have "x = - round_pos (- x)" using 3 x by (simp add: round64_def)
    ultimately have "x = of_int (- m) * grid" by simp
    then show ?thesis by blast
  qed
qed

lemma grid_representable: "representable grid"
proof -
  have lt: "grid < 2 powi (- 1073)" unfolding grid_def by (rule power_int_strict_increasing) simp_all
  then have "flog2 grid < - 1073" by (intro flog2_less grid_pos)
  then have "ulp_exp grid \<le> - 1074" by (simp add: ulp_exp_def)
  then have "round_pos grid = grid"
    by (intro round_pos_exact [where m = 1 and f = "- 1074"] grid_pos) (simp_all add: grid_def)
  moreover have "(2 :: rat) powi (- 1073) \<le> 2 powi 0" by (rule powi_mono) simp
  ultimately show ?thesis using lt grid_pos by (simp add: representable_def round64_def)
qed

lemma round64_diff_pos:
  assumes "representable x" "representable y" "y < x"
  shows "0 < round64 (x - y)"
proof -
  obtain m n where mn: "x = of_int m * grid" "y = of_int n * grid"
    using representable_grid assms(1,2) by metis
  with assms(3) grid_pos have "n < m" by simp
  then have "1 \<le> (of_int (m - n) :: rat)" by simp
  from mult_right_mono [OF this, of grid] grid_pos
  have "grid \<le> x - y" by (simp add: mn left_diff_distrib)
  from b64.rd_ge [OF this grid_representable] grid_pos show ?thesis by linarith
qed

lemma fl_sign:
  "jgt (fl x) (jint 0) \<longleftrightarrow> 0 < round64 x" "fl x = Num 0 \<longleftrightarrow> round64 x = 0"
  by (auto simp: fl_def Let_def jgt_def jint_def)

lemma jsub_Num: "jsub (Num x) (Num y) = fl (x - y)"
  by (simp add: jsub_def)

lemma jsub_sign:
  assumes "representable x" "representable y"
  shows "jgt (jsub (Num x) (Num y)) (jint 0) \<longleftrightarrow> y < x"
    and "jsub (Num x) (Num y) = Num 0 \<longleftrightarrow> x = y"
proof -
  have lt: "round64 (x - y) < 0" if "x < y"
    using round64_diff_pos [OF assms(2,1) that] round64_minus [of "y - x"] by simp
  show "jgt (jsub (Num x) (Num y)) (jint 0) \<longleftrightarrow> y < x" "jsub (Num x) (Num y) = Num 0 \<longleftrightarrow> x = y"
    using round64_diff_pos [OF assms] lt by (cases x y rule: linorder_cases; simp add: jsub_Num fl_sign)+
qed

section \<open>Halving a distance\<close>

lemma round_pos_dyadic:
  assumes "0 < m" "m < 2 ^ 53" "- 1074 \<le> f"
  shows "round_pos (of_int m * 2 powi f) = of_int m * 2 powi f"
proof -
  have "(of_int m :: rat) < of_int (2 ^ 53)" using assms(2) by (simp only: of_int_less_iff)
  then have "of_int m * 2 powi f < 2 powi 53 * (2 :: rat) powi f" by (intro mult_strict_right_mono) simp_all
  then have "flog2 (of_int m * 2 powi f) < f + 53"
    using assms(1) by (intro flog2_less) (simp_all add: powi_split)
  then have "ulp_exp (of_int m * 2 powi f) \<le> f" using assms(3) by (simp add: ulp_exp_def)
  then show ?thesis using assms(1) by (intro round_pos_exact [where m = m and f = f]) simp_all
qed

lemma round64_powi: "- 1074 \<le> k \<Longrightarrow> round64 (2 powi k) = 2 powi k"
  using round_pos_dyadic [of 1 k] by (simp add: round64_def)

lemma round_pos_idem:
  assumes "0 < r"
  shows "round64 (round_pos r) = round_pos r"
proof -
  let ?e = "ulp_exp r" and ?k = "rne (r / 2 powi ulp_exp r)"
  have e: "- 1074 \<le> ?e" "flog2 r - 52 \<le> ?e" by (simp_all add: ulp_exp_def)
  have "r < 2 powi (flog2 r + 1)" by (rule flog2_bounds(2) [OF assms])
  also have "\<dots> \<le> 2 powi (53 + ?e)" using e(2) by (intro powi_mono) simp
  also have "\<dots> = of_int (2 ^ 53) * 2 powi ?e" by (simp add: powi_split)
  finally have "r / 2 powi ?e \<le> of_int (2 ^ 53)" by (simp add: pos_divide_le_eq)
  from rne_mono [OF this] have hi: "?k \<le> 2 ^ 53" by (simp only: rne_of_int)
  have lo: "0 \<le> ?k" using rne_mono [of 0 "r / 2 powi ?e"] rne_of_int [of 0] assms by (simp add: less_imp_le)
  consider "?k = 0" | "0 < ?k" "?k < 2 ^ 53" | "?k = 2 ^ 53" using lo hi by linarith
  then show ?thesis
  proof cases
    case 1
    then show ?thesis by (simp add: round_pos_def round64_def)
  next
    case 2
    then show ?thesis using round_pos_dyadic [OF 2 e(1)] by (simp add: round_pos_def round64_def)
  next
    case 3
    then have "round_pos r = 2 powi (53 + ?e)" by (simp add: round_pos_def powi_split)
    then show ?thesis using round64_powi [of "53 + ?e"] e(1) by simp
  qed
qed

lemma round64_idem: "round64 (round64 x) = round64 x"
proof -
  consider "0 < x" | "x = 0" | "0 < - x" by linarith
  then show ?thesis
  proof cases
    case 1
    then show ?thesis using round_pos_idem by (simp add: round64_def [of x])
  next
    case 2
    then show ?thesis by (simp add: round64_def)
  next
    case 3
    then show ?thesis using round_pos_idem [OF 3] round64_minus by (simp add: round64_def [of x])
  qed
qed

text \<open>A rounded value between representable ones is representable.\<close>

lemma representable_between:
  assumes "representable a" "representable b" "a \<le> x" "x \<le> b"
  shows "representable (round64 x)"
proof -
  have "a \<le> round64 x" "round64 x \<le> b" using fl_between(2,3) [OF assms] by simp_all
  then have "\<bar>round64 x\<bar> < 2 ^ 1024" using assms(1,2) unfolding representable_def by linarith
  then show ?thesis by (simp add: representable_def round64_idem)
qed

lemma representable_minus: "representable x \<Longrightarrow> representable (- x)"
  by (simp add: representable_def round64_minus)

lemma representable_half:
  assumes "0 \<le> m" "m < 2 ^ 53"
  shows "representable (of_int m / 2)"
proof (cases "m = 0")
  case True
  then show ?thesis using representable_int [of 0] by simp
next
  case False
  have half: "(2 :: rat) powi (- 1) = 1 / 2" by (simp add: power_int_minus)
  have "round_pos (of_int m / 2) = of_int m / 2"
    using round_pos_dyadic [of m "- 1"] assms False by (simp add: half)
  moreover have "\<bar>of_int m / 2\<bar> < (2 :: rat) ^ 1024"
    using representable_int [of m] assms by (simp add: representable_def)
  ultimately show ?thesis using assms False by (simp add: representable_def round64_def)
qed

text \<open>Half of a rounded distance stays within the distance: a power of two lies between them.\<close>

lemma half_rounded_distance:
  assumes "representable lo" "representable hi" "lo < hi"
  shows "round64 (round64 (hi - lo) / 2) \<le> hi - lo"
proof -
  let ?d = "hi - lo"
  have d: "0 < ?d" using assms(3) by simp
  obtain m n where "hi = of_int m * grid" "lo = of_int n * grid"
    using representable_grid assms(1,2) by metis
  then have dm: "?d = of_int (m - n) * grid" by (simp add: left_diff_distrib)
  with d grid_pos have "1 \<le> m - n" by (simp add: zero_less_mult_iff)
  then have "1 \<le> (of_int (m - n) :: rat)" by linarith
  from mult_right_mono [OF this, of grid] grid_pos have "grid \<le> ?d" by (simp add: dm)
  then have k: "- 1074 \<le> flog2 ?d"
    using flog2_bounds(2) [OF d] powi_mono [of "flog2 ?d + 1" "- 1074"] by (fastforce simp: grid_def)
  have "round64 ?d \<le> round64 (2 powi (flog2 ?d + 1))"
    using flog2_bounds(2) [OF d] by (intro round64_mono) simp
  also have "\<dots> = 2 * 2 powi flog2 ?d" using round64_powi [of "flog2 ?d + 1"] k by (simp add: powi_split)
  finally have "round64 ?d / 2 \<le> 2 powi flog2 ?d" by simp
  then have "round64 (round64 ?d / 2) \<le> 2 powi flog2 ?d"
    using round64_mono [of "round64 ?d / 2" "2 powi flog2 ?d"] round64_powi [OF k] by simp
  with flog2_bounds(1) [OF d] show ?thesis by linarith
qed

lemma midpoint_between:
  assumes "representable lo" "representable hi" "0 \<le> lo" "lo \<le> hi"
  shows "\<exists>y. jadd (Num lo) (jmul (jsub (Num hi) (Num lo)) (Num (1/2))) = Num y \<and> lo \<le> y \<and> y \<le> hi"
proof -
  let ?d = "round64 (hi - lo)" and ?h = "round64 (round64 (hi - lo) * (1/2))"
  have zero: "representable 0" using representable_int [of 0] by simp
  have d: "fl (hi - lo) = Num ?d" "0 \<le> ?d" "?d \<le> hi"
    using fl_between [OF zero assms(2), of "hi - lo"] assms(3,4) by simp_all
  then have h: "fl (?d * (1/2)) = Num ?h" "0 \<le> ?h"
    using fl_between [OF zero assms(2), of "?d * (1/2)"] by simp_all
  have "?h \<le> hi - lo"
  proof (cases "lo = hi")
    case True
    then show ?thesis by simp
  next
    case False
    then show ?thesis using half_rounded_distance [OF assms(1,2)] assms(4) by simp
  qed
  then have "fl (lo + ?h) = Num (round64 (lo + ?h))" "lo \<le> round64 (lo + ?h)" "round64 (lo + ?h) \<le> hi"
    using fl_between [OF assms(1,2), of "lo + ?h"] h(2) by simp_all
  then show ?thesis using d(1) h(1) by (simp add: jsub_Num)
qed

section \<open>Comparators\<close>

text \<open>\<open>a || b\<close> on numbers.\<close>

definition jor :: "js_num \<Rightarrow> js_num \<Rightarrow> js_num" where
  "jor a b = (if a = Num 0 \<or> a = NaN then b else a)"

fun js_insert :: "('a \<Rightarrow> 'a \<Rightarrow> js_num) \<Rightarrow> 'a \<Rightarrow> 'a list \<Rightarrow> 'a list" where
  "js_insert cmp x [] = [x]"
| "js_insert cmp x (y # ys) = (if jgt (cmp x y) (jint 0) then y # js_insert cmp x ys else x # y # ys)"

definition js_sort :: "('a \<Rightarrow> 'a \<Rightarrow> js_num) \<Rightarrow> 'a list \<Rightarrow> 'a list" where
  "js_sort cmp xs = foldr (js_insert cmp) xs []"

lemma js_insert_mset [simp]: "mset (js_insert cmp x ys) = add_mset x (mset ys)"
  by (induction ys) simp_all

lemma js_sort_mset [simp]: "mset (js_sort cmp xs) = mset xs"
  by (induction xs) (simp_all add: js_sort_def)

lemma js_sort_set [simp]: "set (js_sort cmp xs) = set xs"
  by (metis js_sort_mset set_mset_mset)

lemma js_sort_length [simp]: "length (js_sort cmp xs) = length xs"
  by (metis js_sort_mset size_mset)

text \<open>A comparator that orders the elements of \<open>S\<close> as their keys are ordered.\<close>

locale keyed_comparator =
  fixes cmp :: "'a \<Rightarrow> 'a \<Rightarrow> js_num" and key :: "'a \<Rightarrow> 'k :: linorder" and S :: "'a set"
  assumes sign: "x \<in> S \<Longrightarrow> y \<in> S \<Longrightarrow> jgt (cmp x y) (jint 0) \<longleftrightarrow> key y < key x"
begin

lemma insert_key: "x \<in> S \<Longrightarrow> set ys \<subseteq> S \<Longrightarrow> js_insert cmp x ys = insort_key key x ys"
  by (induction ys) (auto simp: sign not_le)

lemma sort_eq: "set xs \<subseteq> S \<Longrightarrow> js_sort cmp xs = sort_key key xs"
proof (induction xs)
  case (Cons x xs)
  then have "js_sort cmp (x # xs) = js_insert cmp x (sort_key key xs)" by (simp add: js_sort_def)
  also have "\<dots> = insort_key key x (sort_key key xs)" using Cons.prems by (intro insert_key) simp_all
  finally show ?case by simp
qed (simp add: js_sort_def)

text \<open>With distinct keys the result depends on the elements only, not on the order they came in.\<close>

lemma sort_perm:
  assumes "set xs \<subseteq> S" "inj_on key S" "mset xs = mset ys"
  shows "js_sort cmp xs = js_sort cmp ys"
proof -
  have ys: "set ys \<subseteq> S" using assms by (metis set_mset_mset)
  have sorted_keys: "map key (sort_key key zs) = sort (map key zs)" for zs
    by (rule sym, rule properties_for_sort) simp_all
  have "mset (map key xs) = mset (map key ys)" using assms(3) by (simp only: mset_map)
  then have "sort (map key xs) = sort (map key ys)" by (intro properties_for_sort) simp_all
  then have "map key (sort_key key xs) = map key (sort_key key ys)" by (simp only: sorted_keys)
  then have "sort_key key xs = sort_key key ys"
    by (rule map_inj_on) (use assms(1,2) ys in \<open>simp add: inj_on_subset\<close>)
  then show ?thesis using sort_eq assms(1) ys by simp
qed

text \<open>The first element of the result has the least key.\<close>

lemma first_least:
  assumes "set xs \<subseteq> S" "xs \<noteq> []"
  shows "hd (js_sort cmp xs) \<in> set xs" "\<forall>y \<in> set xs. key (hd (js_sort cmp xs)) \<le> key y"
proof -
  have ne: "sort_key key xs \<noteq> []" using assms(2) by (metis length_0_conv length_sort)
  show "hd (js_sort cmp xs) \<in> set xs" using ne hd_in_set [OF ne] by (simp add: sort_eq [OF assms(1)])
  show "\<forall>y \<in> set xs. key (hd (js_sort cmp xs)) \<le> key y"
  proof
    fix y assume "y \<in> set xs"
    then have "y \<in> set (sort_key key xs)" by simp
    then show "key (hd (js_sort cmp xs)) \<le> key y"
      using sorted_sort_key [of key xs] ne unfolding sort_eq [OF assms(1)]
      by (cases "sort_key key xs") auto
  qed
qed

end

lemma keyed_comparator_subset: "keyed_comparator cmp key S \<Longrightarrow> T \<subseteq> S \<Longrightarrow> keyed_comparator cmp key T"
  unfolding keyed_comparator_def by blast

text \<open>\<open>(left, right) => left - right\<close> orders finite numbers by value.\<close>

definition num_value :: "js_num \<Rightarrow> rat" where
  "num_value v = (case v of Num x \<Rightarrow> x | _ \<Rightarrow> 0)"

definition finite_nums :: "js_num set" where
  "finite_nums = {v. js_wf v \<and> isFinite v}"

lemma finite_nums_iff: "v \<in> finite_nums \<longleftrightarrow> (\<exists>x. v = Num x \<and> representable x)"
  by (cases v) (auto simp: finite_nums_def)

lemma num_value_inj: "inj_on num_value finite_nums"
  by (auto simp: inj_on_def finite_nums_iff num_value_def)

interpretation ascending_numbers: keyed_comparator jsub num_value finite_nums
  by unfold_locales (auto simp: finite_nums_iff num_value_def jsub_sign(1))

text \<open>In a sorted list a downward closed condition holds of exactly the first elements.\<close>

lemma sorted_rank:
  assumes "\<And>a b. a \<le> b \<Longrightarrow> P b \<Longrightarrow> P a"
  shows "sorted V \<Longrightarrow> r < length V \<Longrightarrow> P (V ! r) \<longleftrightarrow> r < length (filter P V)"
proof (induction V arbitrary: r)
  case (Cons y V)
  show ?case
  proof (cases "P y")
    case True
    then show ?thesis using Cons by (cases r) simp_all
  next
    case False
    then have "\<forall>z \<in> set (y # V). \<not> P z" using Cons.prems(1) assms by auto
    moreover from this have "filter P (y # V) = []" by (simp add: filter_empty_conv)
    ultimately show ?thesis using nth_mem [OF Cons.prems(2)] by (metis list.size(3) not_less_zero)
  qed
qed simp

lemma sorted_rank_key:
  assumes "\<And>a b. a \<le> b \<Longrightarrow> P b \<Longrightarrow> P a" "mset xs = mset ys" "sorted (map key ys)" "r < length ys"
  shows "P (key (ys ! r)) \<longleftrightarrow> r < length (filter (\<lambda>x. P (key x)) xs)"
proof -
  have "length (filter (\<lambda>x. P (key x)) xs) = length (filter (\<lambda>x. P (key x)) ys)"
    by (simp only: size_mset [symmetric] mset_filter assms(2))
  then show ?thesis using sorted_rank [where P = P and r = r, OF assms(1) assms(3)] assms(4) by (simp add: filter_map comp_def)
qed

end
