(* ===== verification/Analytics_Metrics.thy ===== *)
theory Analytics_Metrics
  imports JS_Number
begin

text \<open>
  \<open>packages/domain/src/analytics-metrics.ts\<close>: the derived metrics of a post, computed from the
  observations of one snapshot in binary64 arithmetic, each with its denominator, or with the
  reason it has no value.

  A limitation whose text quotes a number keeps the number: \<open>Lim_discarded_source\<close>,
  \<open>Lim_discarded_provider\<close> and \<open>Lim_mismatch\<close> are the three template literals of the source before
  the numbers in them are printed.  Of an observation, the fields no formula reads are left out.
\<close>

section \<open>The vocabulary\<close>

datatype canonical_metric =
    M_views | M_plays | M_reach | M_likes | M_comments | M_shares | M_saves | M_total_interactions
  | M_total_watch_time_ms | M_average_watch_time_ms | M_skip_rate | M_follows | M_profile_visits
  | M_profile_activity

definition instagramCanonicalMetrics :: "canonical_metric list" where
  "instagramCanonicalMetrics =
     [M_views, M_plays, M_reach, M_likes, M_comments, M_shares, M_saves, M_total_interactions,
      M_total_watch_time_ms, M_average_watch_time_ms, M_skip_rate, M_follows, M_profile_visits,
      M_profile_activity]"

datatype metric_unit = U_count | U_milliseconds | U_ratio

datatype derived_metric =
    engagement_count | engagement_rate_reach | like_rate_reach | comment_rate_reach
  | share_rate_reach | save_rate_reach | profile_visit_rate_reach | follow_conversion_rate
  | follow_rate_reach | average_watch_percentage | completion_proxy

definition derivedMetrics :: "derived_metric list" where
  "derivedMetrics =
     [engagement_count, engagement_rate_reach, like_rate_reach, comment_rate_reach,
      share_rate_reach, save_rate_reach, profile_visit_rate_reach, follow_conversion_rate,
      follow_rate_reach, average_watch_percentage, completion_proxy]"

datatype derived_unit = DU_count | DU_ratio

datatype value_source = Src_insight | Src_metadata

datatype duration_source = Validated_source_video | Provider_metadata

datatype unavailability_reason =
    component_unavailable | denominator_unavailable | denominator_not_positive
  | duration_unavailable | duration_not_positive | incompatible_source | incompatible_unit
  | value_rejected | not_representable

definition metricInputKeys :: "canonical_metric list" where
  "metricInputKeys = [M_likes, M_comments, M_shares, M_saves, M_reach, M_follows, M_profile_visits,
     M_average_watch_time_ms]"

datatype input_state = Input_available value_source metric_unit js_num | Input_unavailable unavailability_reason

datatype limitation =
    Lim_text string
  | Lim_discarded_source js_num
  | Lim_discarded_provider js_num
  | Lim_mismatch js_num js_num js_num

record duration_resolution =
  dr_seconds :: "js_num option"
  dr_source :: "duration_source option"
  dr_mismatch :: bool
  dr_rejected :: bool
  dr_limitations :: "limitation list"

record input_set =
  is_duration :: duration_resolution
  is_snapshotId :: string
  is_values :: "canonical_metric \<Rightarrow> input_state"

datatype denominator = Den_none | Den_metric canonical_metric string | Den_duration string

record metric_definition =
  md_bounded :: bool
  md_denominator :: denominator
  md_formula :: string
  md_limitations :: "limitation list"
  md_metric :: derived_metric
  md_numerator :: "canonical_metric list"
  md_numeratorUnit :: metric_unit
  md_unit :: derived_unit

record metric_result =
  mr_available :: bool
  mr_denominator :: "string option"
  mr_durationSource :: "duration_source option"
  mr_formula :: string
  mr_limitations :: "limitation list"
  mr_metric :: derived_metric
  mr_missing :: "canonical_metric list"
  mr_reason :: "unavailability_reason option"
  mr_snapshotId :: string
  mr_unit :: derived_unit
  mr_value :: "js_num option"

section \<open>The formula dictionary\<close>

definition reachDenominator :: denominator where
  "reachDenominator = Den_metric M_reach ''reach''"

definition durationDenominator :: denominator where
  "durationDenominator = Den_duration ''duration_seconds''"

definition engagementComponents :: "canonical_metric list" where
  "engagementComponents = [M_likes, M_comments, M_shares, M_saves]"

definition watchLimitation :: string where
  "watchLimitation = ''Average watch time is a provider-defined mean; replays and provider counting rules can push it above the video duration.''"

definition rate :: "derived_metric \<Rightarrow> canonical_metric list \<Rightarrow> string \<Rightarrow> limitation list \<Rightarrow> metric_definition" where
  "rate metric numerator formula limitations =
     \<lparr>md_bounded = False, md_denominator = reachDenominator, md_formula = formula,
      md_limitations = limitations, md_metric = metric, md_numerator = numerator,
      md_numeratorUnit = U_count, md_unit = DU_ratio\<rparr>"

fun derivedMetricDefinitions :: "derived_metric \<Rightarrow> metric_definition" where
  "derivedMetricDefinitions engagement_count =
     \<lparr>md_bounded = False, md_denominator = Den_none, md_formula = ''likes + comments + shares + saves'',
      md_limitations = [], md_metric = engagement_count, md_numerator = engagementComponents,
      md_numeratorUnit = U_count, md_unit = DU_count\<rparr>"
| "derivedMetricDefinitions engagement_rate_reach = rate engagement_rate_reach engagementComponents
     ''(likes + comments + shares + saves) / reach'' []"
| "derivedMetricDefinitions like_rate_reach = rate like_rate_reach [M_likes] ''likes / reach'' []"
| "derivedMetricDefinitions comment_rate_reach =
     rate comment_rate_reach [M_comments] ''comments / reach'' []"
| "derivedMetricDefinitions share_rate_reach = rate share_rate_reach [M_shares] ''shares / reach'' []"
| "derivedMetricDefinitions save_rate_reach = rate save_rate_reach [M_saves] ''saves / reach'' []"
| "derivedMetricDefinitions profile_visit_rate_reach =
     rate profile_visit_rate_reach [M_profile_visits] ''profile_visits / reach''
       [Lim_text ''Valid only where the provider attributes profile visits to this media under a definition compatible with reach.'']"
| "derivedMetricDefinitions follow_conversion_rate =
     \<lparr>md_bounded = False, md_denominator = Den_metric M_profile_visits ''profile_visits'',
      md_formula = ''follows / profile_visits'',
      md_limitations = [Lim_text ''Conversion after a profile visit, not follows per account reached.''],
      md_metric = follow_conversion_rate, md_numerator = [M_follows], md_numeratorUnit = U_count,
      md_unit = DU_ratio\<rparr>"
| "derivedMetricDefinitions follow_rate_reach = rate follow_rate_reach [M_follows] ''follows / reach'' []"
| "derivedMetricDefinitions average_watch_percentage =
     \<lparr>md_bounded = False, md_denominator = durationDenominator,
      md_formula = ''(average_watch_time_ms / 1000) / duration_seconds'',
      md_limitations = [Lim_text watchLimitation, Lim_text ''Stored unclamped; may exceed 1.''],
      md_metric = average_watch_percentage, md_numerator = [M_average_watch_time_ms],
      md_numeratorUnit = U_milliseconds, md_unit = DU_ratio\<rparr>"
| "derivedMetricDefinitions completion_proxy =
     \<lparr>md_bounded = True, md_denominator = durationDenominator,
      md_formula = ''min(1, average_watch_time_ms / (duration_seconds * 1000))'',
      md_limitations = [Lim_text watchLimitation, Lim_text ''A coarse bounded proxy, not a measured completion rate; always present it beside the unclamped average watch percentage.''],
      md_metric = completion_proxy, md_numerator = [M_average_watch_time_ms],
      md_numeratorUnit = U_milliseconds, md_unit = DU_ratio\<rparr>"

section \<open>The duration\<close>

definition metricDurationToleranceSeconds :: js_num where
  "metricDurationToleranceSeconds = jint 1"

definition isUsableDuration :: "js_num option \<Rightarrow> bool" where
  "isUsableDuration s = (case s of None \<Rightarrow> False | Some v \<Rightarrow> isFinite v \<and> jgt v (jint 0))"

definition discarded_durations :: "js_num option \<Rightarrow> js_num option \<Rightarrow> limitation list" where
  "discarded_durations validatedSourceSeconds providerSeconds =
     (case validatedSourceSeconds of None \<Rightarrow> []
        | Some v \<Rightarrow> if isUsableDuration (Some v) then [] else [Lim_discarded_source v]) @
     (case providerSeconds of None \<Rightarrow> []
        | Some v \<Rightarrow> if isUsableDuration (Some v) then [] else [Lim_discarded_provider v])"

definition resolveMetricDuration :: "js_num option \<Rightarrow> js_num option \<Rightarrow> js_num option \<Rightarrow> duration_resolution" where
  "resolveMetricDuration providerSeconds toleranceSeconds validatedSourceSeconds =
     (let tolerance = coalesce toleranceSeconds metricDurationToleranceSeconds;
          validated = (if isUsableDuration validatedSourceSeconds then validatedSourceSeconds else None);
          provider = (if isUsableDuration providerSeconds then providerSeconds else None);
          discarded = discarded_durations validatedSourceSeconds providerSeconds;
          resolve = (\<lambda>seconds source mismatch limitations.
            \<lparr>dr_seconds = seconds, dr_source = source, dr_mismatch = mismatch,
             dr_rejected = (seconds = None \<and> discarded \<noteq> []),
             dr_limitations = discarded @ limitations\<rparr>)
      in case (validated, provider) of
           (Some v, Some p) \<Rightarrow>
             (let mismatch = jgt (jabs (jsub v p)) tolerance in
              resolve (Some (if mismatch then p else v))
                (Some (if mismatch then Provider_metadata else Validated_source_video)) mismatch
                (if mismatch then [Lim_mismatch v p tolerance] else []))
         | (Some v, None) \<Rightarrow> resolve (Some v) (Some Validated_source_video) False []
         | (None, Some p) \<Rightarrow> resolve (Some p) (Some Provider_metadata) False []
         | (None, None) \<Rightarrow> resolve None None False [])"

section \<open>Reading a snapshot\<close>

record observation =
  ov_available :: bool
  ov_canonical :: canonical_metric
  ov_unit :: "metric_unit option"
  ov_value :: "js_num option"

definition readInputValue :: "observation \<Rightarrow> input_state" where
  "readInputValue ov = (case ov_value ov of
       None \<Rightarrow> Input_unavailable component_unavailable
     | Some v \<Rightarrow>
         if \<not> ov_available ov then Input_unavailable component_unavailable
         else if \<not> isFinite v \<or> jlt v (jint 0) then Input_unavailable value_rejected
         else if \<not> isSafeInteger v \<and> ov_unit ov \<noteq> Some U_ratio
         then (if \<not> isInteger v then Input_unavailable value_rejected
               else Input_unavailable not_representable)
         else Input_available Src_insight (coalesce (ov_unit ov) U_count) v)"

definition emptyDuration :: duration_resolution where
  "emptyDuration = \<lparr>dr_seconds = None, dr_source = None, dr_mismatch = False, dr_rejected = False,
     dr_limitations = []\<rparr>"

text \<open>The map \<open>byMetric\<close> keeps the last observation of a metric.\<close>

definition byMetric :: "observation list \<Rightarrow> canonical_metric \<Rightarrow> observation option" where
  "byMetric observations key =
     find (\<lambda>ov. ov_canonical ov = key)
       (rev (filter (\<lambda>ov. ov_canonical ov \<in> set instagramCanonicalMetrics) observations))"

definition createMetricInputs :: "duration_resolution option \<Rightarrow> observation list \<Rightarrow> string \<Rightarrow> input_set" where
  "createMetricInputs duration observations snapshotId =
     \<lparr>is_duration = coalesce duration emptyDuration, is_snapshotId = snapshotId,
      is_values = (\<lambda>key. case byMetric observations key of
         Some ov \<Rightarrow> readInputValue ov
       | None \<Rightarrow> Input_unavailable component_unavailable)\<rparr>"

section \<open>Calculating\<close>

definition denominator_label :: "denominator \<Rightarrow> string option" where
  "denominator_label d = (case d of Den_none \<Rightarrow> None | Den_metric _ l \<Rightarrow> Some l | Den_duration l \<Rightarrow> Some l)"

definition is_duration_denominator :: "denominator \<Rightarrow> bool" where
  "is_duration_denominator d = (case d of Den_duration _ \<Rightarrow> True | _ \<Rightarrow> False)"

definition unavailable ::
    "metric_definition \<Rightarrow> input_set \<Rightarrow> unavailability_reason \<Rightarrow> canonical_metric list \<Rightarrow> metric_result" where
  "unavailable def inputs reason missing =
     \<lparr>mr_available = False, mr_denominator = denominator_label (md_denominator def),
      mr_durationSource = (if is_duration_denominator (md_denominator def)
        then dr_source (is_duration inputs) else None),
      mr_formula = md_formula def, mr_limitations = md_limitations def, mr_metric = md_metric def,
      mr_missing = missing, mr_reason = Some reason, mr_snapshotId = is_snapshotId inputs,
      mr_unit = md_unit def, mr_value = None\<rparr>"

definition available :: "metric_definition \<Rightarrow> input_set \<Rightarrow> js_num \<Rightarrow> metric_result" where
  "available def inputs value =
     \<lparr>mr_available = True, mr_denominator = denominator_label (md_denominator def),
      mr_durationSource = (if is_duration_denominator (md_denominator def)
        then dr_source (is_duration inputs) else None),
      mr_formula = md_formula def,
      mr_limitations = md_limitations def @ (if is_duration_denominator (md_denominator def)
        then dr_limitations (is_duration inputs) else []),
      mr_metric = md_metric def, mr_missing = [], mr_reason = None,
      mr_snapshotId = is_snapshotId inputs, mr_unit = md_unit def, mr_value = Some value\<rparr>"

text \<open>The loop over the numerator: the incompatibility it stops at, or the missing keys and the components.\<close>

fun numerator_loop ::
    "input_set \<Rightarrow> metric_unit \<Rightarrow> canonical_metric list \<Rightarrow>
     (unavailability_reason \<times> canonical_metric) + (canonical_metric list \<times> js_num list)" where
  "numerator_loop inputs unit [] = Inr ([], [])"
| "numerator_loop inputs unit (key # keys) = (case is_values inputs key of
       Input_unavailable _ \<Rightarrow> (case numerator_loop inputs unit keys of
           Inl e \<Rightarrow> Inl e | Inr (missing, components) \<Rightarrow> Inr (key # missing, components))
     | Input_available source u value \<Rightarrow>
         if source \<noteq> Src_insight then Inl (incompatible_source, key)
         else if u \<noteq> unit then Inl (incompatible_unit, key)
         else (case numerator_loop inputs unit keys of
           Inl e \<Rightarrow> Inl e | Inr (missing, components) \<Rightarrow> Inr (missing, value # components)))"

definition missing_reason :: "input_set \<Rightarrow> canonical_metric list \<Rightarrow> unavailability_reason" where
  "missing_reason inputs missing =
     (case find (\<lambda>s. case s of Input_unavailable r \<Rightarrow> r \<noteq> component_unavailable | _ \<Rightarrow> False)
             (map (is_values inputs) missing) of
        Some (Input_unavailable r) \<Rightarrow> r
      | _ \<Rightarrow> component_unavailable)"

definition metric_denominator ::
    "metric_definition \<Rightarrow> input_set \<Rightarrow> denominator \<Rightarrow> metric_result + js_num" where
  "metric_denominator def inputs d = (case d of
       Den_none \<Rightarrow> Inr (jint 0)
     | Den_duration _ \<Rightarrow> (case dr_seconds (is_duration inputs) of
           None \<Rightarrow> Inl (unavailable def inputs
             (if dr_rejected (is_duration inputs) then duration_not_positive else duration_unavailable) [])
         | Some seconds \<Rightarrow>
             if \<not> jgt seconds (jint 0) then Inl (unavailable def inputs duration_not_positive [])
             else Inr (jmul seconds (jint 1000)))
     | Den_metric key _ \<Rightarrow> (case is_values inputs key of
           Input_unavailable reason \<Rightarrow> Inl (unavailable def inputs
             (if reason = component_unavailable then denominator_unavailable else reason) [key])
         | Input_available source u value \<Rightarrow>
             if source \<noteq> Src_insight then Inl (unavailable def inputs incompatible_source [key])
             else if u \<noteq> U_count then Inl (unavailable def inputs incompatible_unit [key])
             else Inr value))"

definition calculateDerivedMetric :: "derived_metric \<Rightarrow> input_set \<Rightarrow> metric_result" where
  "calculateDerivedMetric metric inputs =
     (let def = derivedMetricDefinitions metric in
      case numerator_loop inputs (md_numeratorUnit def) (md_numerator def) of
        Inl (reason, key) \<Rightarrow> unavailable def inputs reason [key]
      | Inr (missing, components) \<Rightarrow>
          if missing \<noteq> [] then unavailable def inputs (missing_reason inputs missing) missing
          else let numerator = foldl jadd (jint 0) components in
            if \<not> isFinite numerator then unavailable def inputs not_representable []
            else if md_numeratorUnit def \<noteq> U_ratio \<and> \<not> isSafeInteger numerator
            then unavailable def inputs not_representable []
            else if md_denominator def = Den_none then available def inputs numerator
            else (case metric_denominator def inputs (md_denominator def) of
                Inl r \<Rightarrow> r
              | Inr denominator \<Rightarrow>
                  if \<not> jgt denominator (jint 0)
                  then unavailable def inputs (if is_duration_denominator (md_denominator def)
                    then duration_not_positive else denominator_not_positive) []
                  else let ratio = jdiv numerator denominator in
                    if \<not> isFinite ratio then unavailable def inputs not_representable []
                    else available def inputs (if md_bounded def then jmin (jint 1) ratio else ratio)))"

definition calculateDerivedMetrics :: "input_set \<Rightarrow> metric_result list" where
  "calculateDerivedMetrics inputs = map (\<lambda>metric. calculateDerivedMetric metric inputs) derivedMetrics"

section \<open>Sums of counts are exact or refused\<close>

text \<open>A running total that has left the exact range never returns to it.\<close>

definition beyond_exact :: "js_num \<Rightarrow> bool" where
  "beyond_exact v \<longleftrightarrow> (case v of PosInf \<Rightarrow> True | Num y \<Rightarrow> 2 ^ 53 \<le> y | _ \<Rightarrow> False)"

lemma beyond_exact_unsafe: "beyond_exact v \<Longrightarrow> \<not> isSafeInteger v"
  by (cases v) (auto simp: beyond_exact_def maxSafe_def le_floor_iff)

lemma fl_beyond: "2 ^ 53 \<le> x \<Longrightarrow> beyond_exact (fl x)"
proof -
  assume "2 ^ 53 \<le> x"
  moreover have "representable (2 ^ 53)" using representable_int [of "2 ^ 53"] by simp
  ultimately have "2 ^ 53 \<le> round64 x" by (rule b64.rd_ge)
  then show ?thesis by (auto simp: fl_def Let_def beyond_exact_def)
qed

lemma jadd_beyond:
  assumes "beyond_exact v" "0 \<le> n"
  shows "beyond_exact (jadd v (jint n))"
proof (cases v)
  case (Num y)
  with assms have "2 ^ 53 \<le> y + of_int n" by (auto simp: beyond_exact_def add_increasing2)
  then show ?thesis using fl_beyond by (simp add: Num jint_def)
qed (use assms in \<open>auto simp: beyond_exact_def jint_def\<close>)

lemma foldl_beyond:
  "beyond_exact v \<Longrightarrow> \<forall>n \<in> set ns. 0 \<le> n \<Longrightarrow> beyond_exact (foldl jadd v (map jint ns))"
  by (induction ns arbitrary: v) (simp_all add: jadd_beyond)

lemma sum_exact_or_beyond:
  assumes "\<forall>n \<in> set ns. 0 \<le> n" "0 \<le> a"
  shows "foldl jadd (jint a) (map jint ns) = jint (a + sum_list ns) \<or>
    beyond_exact (foldl jadd (jint a) (map jint ns))"
  using assms
proof (induction ns arbitrary: a)
  case (Cons n ns)
  show ?case
  proof (cases "a + n \<le> 2 ^ 53")
    case True
    with Cons.prems have "jadd (jint a) (jint n) = jint (a + n)" by (intro jadd_int) simp
    with Cons.IH [of "a + n"] Cons.prems show ?thesis by (simp add: add.assoc)
  next
    case False
    then have "(2 :: int) ^ 53 \<le> a + n" by simp
    then have "(of_int (2 ^ 53) :: rat) \<le> of_int (a + n)" by (simp only: of_int_le_iff)
    then have "beyond_exact (jadd (jint a) (jint n))"
      using fl_beyond [of "of_int a + of_int n"] by (simp add: jint_def)
    then show ?thesis using foldl_beyond Cons.prems by simp
  qed
qed simp

lemma sum_exact:
  assumes "\<forall>n \<in> set ns. 0 \<le> n" "0 \<le> a" "a + sum_list ns \<le> 2 ^ 53"
  shows "foldl jadd (jint a) (map jint ns) = jint (a + sum_list ns)"
  using assms
proof (induction ns arbitrary: a)
  case (Cons n ns)
  have "0 \<le> sum_list ns" using Cons.prems(1) by (intro sum_list_nonneg) simp
  with Cons.prems have "jadd (jint a) (jint n) = jint (a + n)" by (intro jadd_int) simp
  with Cons.IH [of "a + n"] Cons.prems show ?case by (simp add: add.assoc)
qed simp

lemma safe_sum_exact:
  assumes "\<forall>n \<in> set ns. 0 \<le> n" "isSafeInteger (foldl jadd (jint 0) (map jint ns))"
  shows "foldl jadd (jint 0) (map jint ns) = jint (sum_list ns) \<and> sum_list ns \<le> maxSafe"
  using sum_exact_or_beyond [OF assms(1), of 0] beyond_exact_unsafe assms(2) by auto

section \<open>What the inputs of a snapshot are\<close>

text \<open>An available input is finite and not negative, and a safe count unless it is a ratio.\<close>

definition input_ok :: "input_state \<Rightarrow> bool" where
  "input_ok s = (case s of Input_unavailable _ \<Rightarrow> True
     | Input_available source u v \<Rightarrow> source = Src_insight \<and> isFinite v \<and> \<not> jlt v (jint 0) \<and>
         (u = U_ratio \<or> isSafeInteger v))"

lemma readInputValue_ok: "input_ok (readInputValue ov)"
  by (auto simp: readInputValue_def input_ok_def split: option.splits)

definition inputs_ok :: "input_set \<Rightarrow> bool" where
  "inputs_ok inputs \<longleftrightarrow> (\<forall>key. input_ok (is_values inputs key))"

lemma createMetricInputs_ok: "inputs_ok (createMetricInputs duration observations snapshotId)"
  by (simp add: inputs_ok_def createMetricInputs_def readInputValue_ok split: option.splits)
    (simp add: input_ok_def)

text \<open>The value a formula reads of a key.\<close>

definition input_count :: "input_set \<Rightarrow> canonical_metric \<Rightarrow> int" where
  "input_count inputs key = (case is_values inputs key of Input_available _ _ v \<Rightarrow> num_int v | _ \<Rightarrow> 0)"

lemma num_int_nonneg: "\<not> jlt v (jint 0) \<Longrightarrow> 0 \<le> num_int v"
  by (cases v) (auto simp: jint_def)

lemma input_count_nonneg: "inputs_ok inputs \<Longrightarrow> 0 \<le> input_count inputs key"
  by (cases "is_values inputs key")
    (auto simp: inputs_ok_def input_count_def input_ok_def num_int_nonneg dest!: spec [of _ key])

definition readable :: "input_set \<Rightarrow> metric_unit \<Rightarrow> canonical_metric \<Rightarrow> bool" where
  "readable inputs unit key = (case is_values inputs key of Input_available _ u _ \<Rightarrow> u = unit | _ \<Rightarrow> False)"

lemma readable_value:
  assumes "inputs_ok inputs" "readable inputs unit key" "unit \<noteq> U_ratio"
  shows "is_values inputs key = Input_available Src_insight unit (jint (input_count inputs key)) \<and>
    input_count inputs key \<le> maxSafe"
proof (cases "is_values inputs key")
  case (Input_available source u v)
  with assms have "source = Src_insight" "u = unit" "isSafeInteger v"
    by (auto simp: inputs_ok_def readable_def input_ok_def dest!: spec [of _ key])
  with Input_available show ?thesis by (auto simp: isSafeInteger_iff input_count_def)
qed (use assms in \<open>simp add: readable_def\<close>)

section \<open>The value against exact arithmetic\<close>

text \<open>
  The reference: numerators and counts are integers, summed and compared exactly, and a rate is the
  exact quotient rounded once.  A duration is the provider's or the video's own binary64 number of
  seconds; the watch metrics divide by it in milliseconds, which is a binary64 number too: the nearest
  one to a thousand times the seconds.  So there are two roundings there, of the exact product and of the exact
  quotient by its rounding.  When the milliseconds are beyond the largest number the watch metrics are zero.
\<close>

definition watch_spec :: "bool \<Rightarrow> int \<Rightarrow> js_num \<Rightarrow> js_num option" where
  "watch_spec bounded N seconds = (case seconds of
       Num s \<Rightarrow>
         if s \<le> 0 then None
         else (case fl (s * 1000) of
             Num d \<Rightarrow>
               if d \<le> 0 then None
               else (case fl (of_int N / d) of Num q \<Rightarrow> Some (Num (if bounded then min 1 q else q)) | _ \<Rightarrow> None)
           | PosInf \<Rightarrow> Some (jint 0) | _ \<Rightarrow> None)
     | PosInf \<Rightarrow> Some (jint 0) | _ \<Rightarrow> None)"

lemma watch_ratio:
  fixes N :: int and seconds :: js_num
  defines "d \<equiv> jmul seconds (jint 1000)"
  defines "q \<equiv> jdiv (jint N) d"
  shows "(if jgt seconds (jint 0) \<and> jgt d (jint 0) \<and> isFinite q
      then Some (if bounded then jmin (jint 1) q else q) else None) = watch_spec bounded N seconds"
proof (cases seconds)
  case (Num s)
  show ?thesis
  proof (cases "fl (s * 1000)")
    case m: (Num m)
    then show ?thesis
      by (cases "fl (of_int N / m)") (auto simp: watch_spec_def d_def q_def Num jgt_def jint_def jmin_def min_def)
  qed (auto simp: watch_spec_def d_def q_def Num jgt_def jint_def jmin_def)
qed (auto simp: watch_spec_def d_def q_def jgt_def jint_def jmin_def jsgn_inf_def)

definition metric_spec :: "derived_metric \<Rightarrow> input_set \<Rightarrow> js_num option" where
  "metric_spec metric inputs =
     (let def = derivedMetricDefinitions metric;
          N = sum_list (map (input_count inputs) (md_numerator def))
      in if \<not> list_all (readable inputs (md_numeratorUnit def)) (md_numerator def) \<or> N > maxSafe then None
         else case md_denominator def of
             Den_none \<Rightarrow> Some (jint N)
           | Den_metric key _ \<Rightarrow>
               if readable inputs U_count key \<and> input_count inputs key > 0
               then Some (fl (of_int N / of_int (input_count inputs key))) else None
           | Den_duration _ \<Rightarrow> (case dr_seconds (is_duration inputs) of
               None \<Rightarrow> None
             | Some seconds \<Rightarrow> watch_spec (md_bounded def) N seconds))"

lemma numerator_loop_readable:
  assumes "inputs_ok inputs" "unit \<noteq> U_ratio" "list_all (readable inputs unit) keys"
  shows "numerator_loop inputs unit keys = Inr ([], map jint (map (input_count inputs) keys))"
  using assms(3)
proof (induction keys)
  case (Cons key keys)
  then show ?case using readable_value [OF assms(1) _ assms(2), of key] by simp
qed simp

lemma numerator_loop_unreadable:
  assumes "\<not> list_all (readable inputs unit) keys"
  shows "numerator_loop inputs unit keys \<noteq> Inr ([], components)"
  using assms
proof (induction keys arbitrary: components)
  case (Cons key keys)
  show ?case
  proof (cases "is_values inputs key")
    case (Input_available source u v)
    then have "readable inputs unit key \<longleftrightarrow> u = unit" by (simp add: readable_def)
    with Cons Input_available show ?thesis by (auto split: sum.splits)
  qed (auto split: sum.splits)
qed simp

lemma numerator_unit: "md_numeratorUnit (derivedMetricDefinitions metric) \<noteq> U_ratio"
  by (cases metric) (simp_all add: rate_def)

lemma count_ratio:
  assumes "0 \<le> N" "N \<le> maxSafe" "0 < d"
  shows "jdiv (jint N) (jint d) = fl (of_int N / of_int d) \<and> isFinite (fl (of_int N / of_int d))"
proof -
  have N: "representable (of_int N)" "representable 0"
    using representable_int [of N] representable_int [of 0] assms(1,2) by (auto simp: maxSafe_def)
  have "0 \<le> (of_int N / of_int d :: rat)" "(of_int N / of_int d :: rat) \<le> of_int N"
    using assms mult_left_mono [of 1 d N] by (simp_all add: divide_le_eq flip: of_int_mult)
  from fl_between(1) [OF N(2,1) this] show ?thesis using assms(3) by (simp add: jint_def)
qed

lemma bounded_metric: "md_bounded (derivedMetricDefinitions metric) \<longleftrightarrow> metric = completion_proxy"
  by (cases metric) (simp_all add: rate_def)

lemma calculate_value:
  assumes ok: "inputs_ok inputs"
  shows "mr_value (calculateDerivedMetric metric inputs) = metric_spec metric inputs"
proof -
  define def where "def = derivedMetricDefinitions metric"
  define N where "N = sum_list (map (input_count inputs) (md_numerator def))"
  let ?unit = "md_numeratorUnit def" and ?keys = "md_numerator def"
  let ?sum = "foldl jadd (jint 0) (map jint (map (input_count inputs) ?keys))"
  have unit: "?unit \<noteq> U_ratio" by (simp add: def_def numerator_unit)
  have pos: "\<forall>n \<in> set (map (input_count inputs) ?keys). 0 \<le> n" using input_count_nonneg [OF ok] by simp
  have N0: "0 \<le> N" unfolding N_def using pos by (intro sum_list_nonneg) auto
  show ?thesis
  proof (cases "list_all (readable inputs ?unit) ?keys \<and> N \<le> maxSafe")
    case False
    show ?thesis
    proof (cases "list_all (readable inputs ?unit) ?keys")
      case True
      with False have big: "\<not> N \<le> maxSafe" by simp
      have "\<not> isSafeInteger ?sum" using safe_sum_exact [OF pos] big by (auto simp: N_def)
      with numerator_loop_readable [OF ok unit True] unit big True show ?thesis
        by (simp add: calculateDerivedMetric_def metric_spec_def Let_def def_def N_def unavailable_def)
    next
      case unreadable: False
      then show ?thesis using numerator_loop_unreadable [OF unreadable]
        by (auto simp: calculateDerivedMetric_def metric_spec_def Let_def def_def unavailable_def
            split: sum.splits prod.splits)
    qed
  next
    case True
    then have sum: "?sum = jint N" using sum_exact [OF pos, of 0] by (simp add: N_def maxSafe_def)
    have safe: "isSafeInteger (jint N)" "isFinite (jint N)" using N0 True by (simp_all add: jint_def [of N])
    note loop = numerator_loop_readable [OF ok unit conjunct1 [OF True]]
    show ?thesis
    proof (cases "md_denominator def")
      case Den_none
      with loop sum safe unit True show ?thesis
        by (simp add: calculateDerivedMetric_def metric_spec_def Let_def def_def N_def available_def)
    next
      case (Den_metric key label)
      show ?thesis
      proof (cases "readable inputs U_count key")
        case readable: True
        let ?d = "input_count inputs key"
        from readable_value [OF ok readable] have "is_values inputs key = Input_available Src_insight U_count (jint ?d)"
          by simp
        moreover have "metric \<noteq> completion_proxy" using Den_metric by (auto simp: def_def durationDenominator_def)
        ultimately show ?thesis using loop sum safe unit True Den_metric readable count_ratio [OF N0, of ?d]
          by (simp add: calculateDerivedMetric_def metric_spec_def metric_denominator_def Let_def def_def N_def
              available_def unavailable_def bounded_metric)
      next
        case False
        then have "\<exists>reason missing. metric_denominator def inputs (md_denominator def) = Inl (unavailable def inputs reason missing)"
          by (auto simp: metric_denominator_def Den_metric readable_def split: input_state.splits)
        with loop sum safe unit True Den_metric False show ?thesis
          by (auto simp: calculateDerivedMetric_def metric_spec_def Let_def def_def N_def unavailable_def)
      qed
    next
      case (Den_duration label)
      with loop sum safe unit True show ?thesis
        by (simp add: calculateDerivedMetric_def metric_spec_def metric_denominator_def Let_def def_def N_def
            available_def unavailable_def flip: watch_ratio split: option.splits)
    qed
  qed
qed

lemma calculate_flags:
  "mr_available (calculateDerivedMetric metric inputs) \<longleftrightarrow> mr_value (calculateDerivedMetric metric inputs) \<noteq> None"
  "mr_reason (calculateDerivedMetric metric inputs) = None \<longleftrightarrow> mr_value (calculateDerivedMetric metric inputs) \<noteq> None"
  by (auto simp: calculateDerivedMetric_def Let_def metric_denominator_def available_def unavailable_def
      split: sum.splits prod.splits denominator.splits option.splits input_state.splits)

section \<open>Properties\<close>

text \<open>
  C40: a derived metric is the reference's, or explicitly absent.  For every snapshot, every duration
  and every metric, the value calculated is that of the reference, which adds and compares counts as
  integers and rounds the exact quotient once; for the watch metrics the divisor is the duration in
  milliseconds, itself the exact product rounded once.  Where the reference has no value the result has
  a reason in its place and no number.  A zero stands for a count of zero, a quotient below the
  smallest number, or, for the watch metrics, a duration whose milliseconds overflow.
\<close>

theorem derived_metric_matches_reference:
  "let r = calculateDerivedMetric metric (createMetricInputs duration observations snapshotId) in
   mr_value r = metric_spec metric (createMetricInputs duration observations snapshotId) \<and>
   (mr_available r \<longleftrightarrow> mr_value r \<noteq> None) \<and> (mr_reason r = None \<longleftrightarrow> mr_value r \<noteq> None)"
  unfolding Let_def using calculate_value [OF createMetricInputs_ok] calculate_flags by blast

text \<open>Two definitions that differ in their clamp and their texts only.\<close>

definition same_shape :: "metric_result \<Rightarrow> metric_result \<Rightarrow> bool" where
  "same_shape r s \<longleftrightarrow> mr_available r = mr_available s \<and> mr_reason r = mr_reason s \<and>
     mr_missing r = mr_missing s \<and> mr_durationSource r = mr_durationSource s \<and>
     mr_denominator r = mr_denominator s \<and> mr_snapshotId r = mr_snapshotId s"

lemma shape_unavailable:
  "md_denominator d = md_denominator e \<Longrightarrow>
   same_shape (unavailable d inputs reason missing) (unavailable e inputs reason missing)"
  by (simp add: same_shape_def unavailable_def)

lemma shape_available:
  "md_denominator d = md_denominator e \<Longrightarrow> same_shape (available d inputs v) (available e inputs w)"
  by (simp add: same_shape_def available_def)

lemma value_of [simp]:
  "mr_value (unavailable d inputs reason missing) = None" "mr_value (available d inputs v) = Some v"
  by (simp_all add: unavailable_def available_def)

lemma watch_metrics:
  fixes inputs
  defines "p \<equiv> calculateDerivedMetric completion_proxy inputs"
    and "a \<equiv> calculateDerivedMetric average_watch_percentage inputs"
  shows "same_shape p a \<and> mr_value p = map_option (jmin (jint 1)) (mr_value a)"
proof -
  define D where "D = derivedMetricDefinitions completion_proxy"
  define E where "E = derivedMetricDefinitions average_watch_percentage"
  have D: "md_numerator D = [M_average_watch_time_ms]" "md_numeratorUnit D = U_milliseconds"
      "md_denominator D = Den_duration ''duration_seconds''" "md_bounded D"
    and E: "md_numerator E = [M_average_watch_time_ms]" "md_numeratorUnit E = U_milliseconds"
      "md_denominator E = Den_duration ''duration_seconds''" "\<not> md_bounded E"
    by (simp_all add: D_def E_def durationDenominator_def)
  have same: "md_denominator D = md_denominator E" by (simp add: D E)
  note shapes = shape_unavailable [OF same] shape_available [OF same]
  show ?thesis
  proof (cases "numerator_loop inputs U_milliseconds [M_average_watch_time_ms]")
    case (Inl e)
    then show ?thesis unfolding p_def a_def calculateDerivedMetric_def Let_def D_def [symmetric] E_def [symmetric]
      by (cases e) (simp add: D E shapes)
  next
    case (Inr mc)
    obtain missing components where mc: "mc = (missing, components)" by force
    show ?thesis
      unfolding p_def a_def calculateDerivedMetric_def Let_def D_def [symmetric] E_def [symmetric]
      unfolding D(1,2,3) E(1,2,3) Inr mc sum.case prod.case metric_denominator_def
      by (cases "dr_seconds (is_duration inputs)") (simp_all add: D(4) E(4) shapes)
  qed
qed

text \<open>
  The two watch metrics agree.  For any inputs the completion proxy is the average watch
  percentage clamped at one, to the last bit: one has a value exactly when the other has, for the
  same reason otherwise, from the same duration.
\<close>

theorem completion_proxy_is_clamped_watch:
  "let p = calculateDerivedMetric completion_proxy inputs;
       a = calculateDerivedMetric average_watch_percentage inputs in
   mr_value p = map_option (jmin (jint 1)) (mr_value a) \<and> mr_reason p = mr_reason a \<and>
   mr_missing p = mr_missing a \<and> mr_durationSource p = mr_durationSource a"
  unfolding Let_def using watch_metrics [of inputs] by (simp add: same_shape_def)

end
