(* ===== verification/Analytics_Cohorts.thy ===== *)
theory Analytics_Cohorts
  imports JS_Sort Analytics_Metrics "HOL-Library.Char_ord" "HOL-Library.List_Lexorder"
    "HOL-Library.Product_Lexorder"
begin

text \<open>
  \<open>packages/domain/src/analytics-cohorts.ts\<close>: which observation of a post a comparison uses, which
  age window a calculation is published for, medians and quartiles, and a post against its baseline.

  \<open>localeCompare\<close> depends on the collation the process runs with and is a parameter, as is the
  hash function.  Counts of posts are integers.
\<close>

section \<open>Age windows\<close>

datatype age_window =
    W_import | W_hour_1 | W_day_1 | W_day_3 | W_day_7 | W_day_30 | W_mature | W_lifetime

record snapshot_window =
  sw_key :: age_window
  sw_targetSeconds :: "int option"
  sw_minimumSeconds :: js_num
  sw_maximumSeconds :: js_num

definition snapshotAgeWindows :: "snapshot_window list" where
  "snapshotAgeWindows =
     [\<lparr>sw_key = W_import, sw_targetSeconds = None, sw_minimumSeconds = jint 0, sw_maximumSeconds = jint 1800\<rparr>,
      \<lparr>sw_key = W_hour_1, sw_targetSeconds = Some 3600, sw_minimumSeconds = jint 1800,
        sw_maximumSeconds = jint 7200\<rparr>,
      \<lparr>sw_key = W_day_1, sw_targetSeconds = Some 86400, sw_minimumSeconds = jint 64800,
        sw_maximumSeconds = jint 129600\<rparr>,
      \<lparr>sw_key = W_day_3, sw_targetSeconds = Some 259200, sw_minimumSeconds = jint 216000,
        sw_maximumSeconds = jint 345600\<rparr>,
      \<lparr>sw_key = W_day_7, sw_targetSeconds = Some 604800, sw_minimumSeconds = jint 518400,
        sw_maximumSeconds = jint 777600\<rparr>,
      \<lparr>sw_key = W_day_30, sw_targetSeconds = Some 2592000, sw_minimumSeconds = jint 2160000,
        sw_maximumSeconds = jint 3456000\<rparr>,
      \<lparr>sw_key = W_mature, sw_targetSeconds = None, sw_minimumSeconds = jint 3456000,
        sw_maximumSeconds = PosInf\<rparr>,
      \<lparr>sw_key = W_lifetime, sw_targetSeconds = None, sw_minimumSeconds = jint 0, sw_maximumSeconds = PosInf\<rparr>]"

text \<open>\<open>Object.fromEntries\<close>: the last window of a key; every key has one.\<close>

definition snapshotAgeWindowFor :: "age_window \<Rightarrow> snapshot_window" where
  "snapshotAgeWindowFor key = (case find (\<lambda>w. sw_key w = key) (rev snapshotAgeWindows) of
     Some w \<Rightarrow> w | None \<Rightarrow> hd snapshotAgeWindows)"

text \<open>\<open>findIndex\<close>.\<close>

fun find_index :: "('a \<Rightarrow> bool) \<Rightarrow> 'a list \<Rightarrow> int" where
  "find_index P [] = - 1"
| "find_index P (x # xs) = (if P x then 0 else let i = find_index P xs in if i = - 1 then - 1 else i + 1)"

definition snapshotAgeWindowMaturity :: "age_window \<Rightarrow> int" where
  "snapshotAgeWindowMaturity key = find_index (\<lambda>w. sw_key w = key) snapshotAgeWindows"

definition recalculationWindowCandidates :: "age_window list" where
  "recalculationWindowCandidates = [W_day_7, W_day_30, W_mature, W_lifetime]"

definition unmatchedAgeWindow :: age_window where
  "unmatchedAgeWindow = W_lifetime"

record window_candidate =
  wc_ageWindow :: age_window
  wc_eligiblePosts :: int

text \<open>\<open>reduce\<close> without an initial value, on a list that is not empty.\<close>

fun reduce1 :: "('a \<Rightarrow> 'a \<Rightarrow> 'a) \<Rightarrow> 'a list \<Rightarrow> 'a option" where
  "reduce1 f [] = None"
| "reduce1 f (x # xs) = Some (foldl f x xs)"

definition mostMature :: "window_candidate list \<Rightarrow> window_candidate option" where
  "mostMature = reduce1 (\<lambda>winner candidate.
     if snapshotAgeWindowMaturity (wc_ageWindow candidate) > snapshotAgeWindowMaturity (wc_ageWindow winner)
     then candidate else winner)"

definition widest :: "window_candidate list \<Rightarrow> window_candidate option" where
  "widest = reduce1 (\<lambda>winner candidate.
     if wc_eligiblePosts candidate > wc_eligiblePosts winner \<or>
        (wc_eligiblePosts candidate = wc_eligiblePosts winner \<and>
         snapshotAgeWindowMaturity (wc_ageWindow candidate) > snapshotAgeWindowMaturity (wc_ageWindow winner))
     then candidate else winner)"

definition selectAnalyticsAgeWindow :: "window_candidate list \<Rightarrow> int \<Rightarrow> int \<Rightarrow> age_window option" where
  "selectAnalyticsAgeWindow candidates adequateCoverage minimumMatchedPosts =
     (let measured = filter (\<lambda>c. wc_eligiblePosts c > 0) candidates;
          matched = filter (\<lambda>c. wc_ageWindow c \<noteq> unmatchedAgeWindow) measured;
          covered = filter (\<lambda>c. wc_eligiblePosts c \<ge> adequateCoverage) matched;
          usable = filter (\<lambda>c. wc_eligiblePosts c \<ge> minimumMatchedPosts) matched
      in if measured = [] then None
         else if covered \<noteq> [] then map_option wc_ageWindow (mostMature covered)
         else if usable \<noteq> [] then map_option wc_ageWindow (widest usable)
         else case find (\<lambda>c. wc_ageWindow c = unmatchedAgeWindow) measured of
             None \<Rightarrow> map_option wc_ageWindow (widest measured)
           | Some unmatched \<Rightarrow> (case widest matched of
               Some best \<Rightarrow> if wc_eligiblePosts best \<ge> wc_eligiblePosts unmatched
                 then Some (wc_ageWindow best) else Some (wc_ageWindow unmatched)
             | None \<Rightarrow> Some (wc_ageWindow unmatched)))"

section \<open>Comparable snapshots\<close>

record snapshot =
  sn_capturedAt :: time
  sn_postAgeSeconds :: js_num
  sn_postId :: string
  sn_snapshotId :: string

definition in_window :: "snapshot_window \<Rightarrow> snapshot \<Rightarrow> bool" where
  "in_window w c \<longleftrightarrow> isFinite (sn_postAgeSeconds c) \<and> jge (sn_postAgeSeconds c) (sw_minimumSeconds w) \<and>
     jle (sn_postAgeSeconds c) (sw_maximumSeconds w)"

definition cmp_mature :: "(string \<Rightarrow> string \<Rightarrow> js_num) \<Rightarrow> snapshot \<Rightarrow> snapshot \<Rightarrow> js_num" where
  "cmp_mature localeCompare left right =
     jor (jsub (sn_postAgeSeconds right) (sn_postAgeSeconds left))
       (jor (jsub (jint (sn_capturedAt left)) (jint (sn_capturedAt right)))
         (localeCompare (sn_snapshotId left) (sn_snapshotId right)))"

definition target_distance :: "int \<Rightarrow> snapshot \<Rightarrow> js_num" where
  "target_distance target c = jabs (jsub (sn_postAgeSeconds c) (jint target))"

definition cmp_closest :: "(string \<Rightarrow> string \<Rightarrow> js_num) \<Rightarrow> int \<Rightarrow> snapshot \<Rightarrow> snapshot \<Rightarrow> js_num" where
  "cmp_closest localeCompare target left right =
     jor (jsub (target_distance target left) (target_distance target right))
       (jor (jsub (sn_postAgeSeconds left) (sn_postAgeSeconds right))
         (jor (jsub (jint (sn_capturedAt left)) (jint (sn_capturedAt right)))
           (localeCompare (sn_snapshotId left) (sn_snapshotId right))))"

definition selectComparableSnapshot ::
    "(string \<Rightarrow> string \<Rightarrow> js_num) \<Rightarrow> snapshot list \<Rightarrow> age_window \<Rightarrow> snapshot option" where
  "selectComparableSnapshot localeCompare candidates windowKey =
     (let window = snapshotAgeWindowFor windowKey; eligible = filter (in_window window) candidates in
      if eligible = [] then None
      else case sw_targetSeconds window of
          None \<Rightarrow> Some (hd (js_sort (cmp_mature localeCompare) eligible))
        | Some target \<Rightarrow> Some (hd (js_sort (cmp_closest localeCompare target) eligible)))"

text \<open>
  The map \<open>byPost\<close> and its keys.  The default \<open>sort\<close> orders strings by code units.
\<close>

definition posts_of :: "snapshot list \<Rightarrow> string list" where
  "posts_of candidates = remdups (map sn_postId candidates)"

definition selectComparableSnapshots ::
    "(string \<Rightarrow> string \<Rightarrow> js_num) \<Rightarrow> snapshot list \<Rightarrow> age_window \<Rightarrow> (string \<times> snapshot) list" where
  "selectComparableSnapshots localeCompare candidates windowKey =
     List.map_filter (\<lambda>postId. map_option (Pair postId)
         (selectComparableSnapshot localeCompare (filter (\<lambda>c. sn_postId c = postId) candidates) windowKey))
       (sort (posts_of candidates))"

section \<open>Medians and quartiles\<close>

definition ascending :: "js_num list \<Rightarrow> js_num list" where
  "ascending values = js_sort jsub (filter isFinite values)"

text \<open>\<open>sorted[index]\<close>; out of range it reads undefined, which is NaN to the arithmetic around it.\<close>

definition num_at :: "js_num list \<Rightarrow> js_num \<Rightarrow> js_num" where
  "num_at xs i = (if 0 \<le> num_int i \<and> num_int i < int (length xs) then xs ! nat (num_int i) else NaN)"

definition interpolate :: "js_num list \<Rightarrow> js_num \<Rightarrow> js_num" where
  "interpolate xs position =
     (let lower = jfloor position; upper = jceil position; lowerValue = num_at xs lower in
      if jeq lower upper then lowerValue
      else jadd lowerValue (jmul (jsub (num_at xs upper) lowerValue) (jsub position lower)))"

definition percentile :: "js_num list \<Rightarrow> js_num \<Rightarrow> js_num option" where
  "percentile xs fraction = (case xs of
       [] \<Rightarrow> None
     | [x] \<Rightarrow> Some x
     | _ \<Rightarrow> Some (interpolate xs (jmul (jint (int (length xs) - 1)) fraction)))"

definition median :: "js_num list \<Rightarrow> js_num option" where
  "median values = percentile (ascending values) (Num (1/2))"

record spread =
  sp_count :: int
  sp_firstQuartile :: "js_num option"
  sp_interquartileRange :: "js_num option"
  sp_maximum :: "js_num option"
  sp_median :: "js_num option"
  sp_minimum :: "js_num option"
  sp_thirdQuartile :: "js_num option"

definition summariseSpread :: "js_num list \<Rightarrow> spread" where
  "summariseSpread values =
     (let xs = ascending values; q1 = percentile xs (Num (1/4)); q3 = percentile xs (Num (3/4)) in
      \<lparr>sp_count = int (length xs), sp_firstQuartile = q1,
       sp_interquartileRange = (case (q1, q3) of (Some a, Some b) \<Rightarrow> Some (jsub b a) | _ \<Rightarrow> None),
       sp_maximum = (if xs = [] then None else Some (last xs)), sp_median = percentile xs (Num (1/2)),
       sp_minimum = (if xs = [] then None else Some (hd xs)), sp_thirdQuartile = q3\<rparr>)"

section \<open>Baselines\<close>

datatype cohort_reason = no_comparable_snapshot | no_comparison_values | baseline_not_positive | focal_value_unavailable

record baseline_comparison =
  bc_available :: bool
  bc_baseline :: "js_num option"
  bc_comparisonCount :: int
  bc_differenceFromBaseline :: "js_num option"
  bc_focalValue :: "js_num option"
  bc_percentDifference :: "js_num option"
  bc_reason :: "cohort_reason option"
  bc_relativeIndex :: "js_num option"

definition compareToBaseline :: "js_num option \<Rightarrow> js_num list \<Rightarrow> baseline_comparison" where
  "compareToBaseline focalValue comparisonValues =
     (let finite = filter isFinite comparisonValues; baseline = median finite;
          refused = (\<lambda>reason difference.
            \<lparr>bc_available = False, bc_baseline = baseline, bc_comparisonCount = int (length finite),
             bc_differenceFromBaseline = difference, bc_focalValue = focalValue,
             bc_percentDifference = None, bc_reason = Some reason, bc_relativeIndex = None\<rparr>)
      in case focalValue of
           None \<Rightarrow> refused focal_value_unavailable None
         | Some v \<Rightarrow>
             if \<not> isFinite v then refused focal_value_unavailable None
             else (case baseline of
                 None \<Rightarrow> refused no_comparison_values None
               | Some b \<Rightarrow>
                   (let difference = jsub v b in
                    if jle b (jint 0) then refused baseline_not_positive (Some difference)
                    else \<lparr>bc_available = True, bc_baseline = baseline,
                          bc_comparisonCount = int (length finite),
                          bc_differenceFromBaseline = Some difference, bc_focalValue = focalValue,
                          bc_percentDifference = Some (jmul (jdiv difference b) (jint 100)),
                          bc_reason = None, bc_relativeIndex = Some (jdiv v b)\<rparr>)))"

definition excludeFocalPost :: "('a \<Rightarrow> string) \<Rightarrow> 'a list \<Rightarrow> string \<Rightarrow> 'a list" where
  "excludeFocalPost postId entries focalPostId = filter (\<lambda>e. postId e \<noteq> focalPostId) entries"

record coverage =
  cv_eligiblePosts :: int
  cv_missingRatio :: js_num
  cv_postsMissingMetric :: int
  cv_postsMissingSnapshot :: int
  cv_postsWithValue :: int

definition summariseCoverage :: "int \<Rightarrow> int \<Rightarrow> int \<Rightarrow> int \<Rightarrow> coverage" where
  "summariseCoverage eligiblePosts postsMissingMetric postsMissingSnapshot postsWithValue =
     (let missing = jadd (jint postsMissingSnapshot) (jint postsMissingMetric) in
      \<lparr>cv_eligiblePosts = eligiblePosts,
       cv_missingRatio = (if eligiblePosts = 0 then jint 0 else jdiv missing (jint eligiblePosts)),
       cv_postsMissingMetric = postsMissingMetric, cv_postsMissingSnapshot = postsMissingSnapshot,
       cv_postsWithValue = postsWithValue\<rparr>)"

section \<open>The median is central\<close>

lemma finite_values: "list_all js_wf xs \<Longrightarrow> set (filter isFinite xs) \<subseteq> finite_nums"
  by (auto simp: finite_nums_def list_all_iff)

lemma ascending_sorted: "list_all js_wf xs \<Longrightarrow> ascending xs = sort_key num_value (filter isFinite xs)"
  unfolding ascending_def by (rule ascending_numbers.sort_eq [OF finite_values])

lemma ascending_perm:
  assumes "list_all js_wf xs" "mset xs = mset ys"
  shows "ascending xs = ascending ys"
  unfolding ascending_def using assms
  by (intro ascending_numbers.sort_perm [OF finite_values num_value_inj]) simp_all

lemma half_position:
  assumes "0 \<le> n" "n < 2 ^ 53"
  shows "jmul (jint n) (Num (1/2)) = Num (of_int n / 2)"
  using fl_representable [OF representable_half [OF assms]] by (simp add: jint_def)

lemma half_floor: "\<lfloor>of_int n / (2 :: rat)\<rfloor> = n div 2" "\<lceil>of_int n / (2 :: rat)\<rceil> = (n + 1) div 2"
proof -
  show f: "\<lfloor>of_int n / (2 :: rat)\<rfloor> = n div 2" for n using floor_divide_of_int_eq [of n 2] by simp
  have "\<lceil>of_int n / (2 :: rat)\<rceil> = - \<lfloor>of_int (- n) / (2 :: rat)\<rfloor>" by (simp add: ceiling_def)
  then show "\<lceil>of_int n / (2 :: rat)\<rceil> = (n + 1) div 2" unfolding f by linarith
qed

lemma interpolate_half:
  assumes "2 \<le> length xs" "int (length xs) \<le> 2 ^ 53" "set xs \<subseteq> finite_nums"
    "sorted (map num_value xs)" "\<forall>v \<in> set xs. 0 \<le> num_value v"
  defines "n \<equiv> length xs"
  shows "\<exists>m. interpolate xs (Num (of_int (int n - 1) / 2)) = Num m \<and>
    num_value (xs ! ((n - 1) div 2)) \<le> m \<and> m \<le> num_value (xs ! (n div 2))"
proof -
  let ?i = "(n - 1) div 2" and ?j = "n div 2"
  have ij: "?i < n" "?j < n" "?i \<le> ?j" using assms(1) by (simp_all add: n_def)
  have mem: "xs ! ?i \<in> set xs" "xs ! ?j \<in> set xs" using ij(1,2) by (simp_all only: n_def nth_mem)
  with assms(3) have "xs ! ?i \<in> finite_nums" "xs ! ?j \<in> finite_nums" by blast+
  then obtain a b where ab: "xs ! ?i = Num a" "xs ! ?j = Num b" "representable a" "representable b"
    unfolding finite_nums_iff by blast
  have "0 \<le> num_value (xs ! ?i)" using assms(5) mem(1) by blast
  moreover have "num_value (xs ! ?i) \<le> num_value (xs ! ?j)"
    using sorted_nth_mono [OF assms(4) ij(3)] ij by (simp add: n_def)
  moreover have nv: "num_value (xs ! ?i) = a" "num_value (xs ! ?j) = b" unfolding ab num_value_def by simp_all
  ultimately have le: "0 \<le> a" "a \<le> b" by simp_all
  have floor: "num_int (jfloor (Num (of_int (int n - 1) / 2))) = int ?i"
    "num_int (jceil (Num (of_int (int n - 1) / 2))) = int ?j"
    using half_floor [of "int n - 1"] assms(1) by (simp_all add: n_def zdiv_int of_nat_diff)
  then have at: "num_at xs (jfloor (Num (of_int (int n - 1) / 2))) = Num a"
    "num_at xs (jceil (Num (of_int (int n - 1) / 2))) = Num b"
    using ij ab unfolding num_at_def by (simp_all add: n_def)
  have fc: "jfloor (Num (of_int (int n - 1) / 2)) = Num (of_int (int ?i))"
    "jceil (Num (of_int (int n - 1) / 2)) = Num (of_int (int ?j))"
    using floor by simp_all
  show ?thesis
  proof (cases "odd n")
    case True
    then have "?i = ?j" by (auto elim!: oddE)
    then have "interpolate xs (Num (of_int (int n - 1) / 2)) = Num a"
      using at fc by (simp add: interpolate_def Let_def jeq_def)
    then show ?thesis unfolding nv using le by blast
  next
    case False
    then obtain c where "n = 2 * Suc c" using assms(1) by (auto simp: n_def elim!: evenE dest!: Suc_le_D)
    then have j: "?j = Suc ?i" and n: "int n - 1 = 2 * int ?i + 1" by simp_all
    have half: "of_int (int n - 1) / 2 - of_int (int ?i) = (1 / 2 :: rat)" unfolding n by (simp add: add_divide_distrib)
    have "fl (1 / 2) = Num (1 / 2)" using fl_representable [OF representable_half [of 1]] by simp
    then have "jsub (Num (of_int (int n - 1) / 2)) (Num (of_int (int ?i))) = Num (1 / 2)"
      unfolding jsub_Num half .
    then have "interpolate xs (Num (of_int (int n - 1) / 2)) = jadd (Num a) (jmul (jsub (Num b) (Num a)) (Num (1 / 2)))"
      using at fc j by (simp add: interpolate_def Let_def jeq_def)
    with midpoint_between [OF ab(3,4) le] show ?thesis unfolding nv by metis
  qed
qed

lemma median_central:
  assumes "list_all js_wf xs" "filter isFinite xs \<noteq> []" "int (length xs) \<le> 2 ^ 53"
    "\<forall>v \<in> set xs. isFinite v \<longrightarrow> 0 \<le> num_value v"
  defines "s \<equiv> sort_key num_value (filter isFinite xs)"
  shows "\<exists>m. median xs = Some (Num m) \<and> num_value (s ! ((length s - 1) div 2)) \<le> m \<and>
    m \<le> num_value (s ! (length s div 2))"
proof -
  have s: "ascending xs = s" using ascending_sorted [OF assms(1)] by (simp add: s_def)
  have set_s: "set s \<subseteq> finite_nums" "\<forall>v \<in> set s. 0 \<le> num_value v" "sorted (map num_value s)"
    using finite_values [OF assms(1)] assms(4) by (simp_all add: s_def)
  have "length s \<le> length xs" "length s \<noteq> 0" using assms(2) by (simp_all add: s_def)
  then have len: "int (length s) \<le> 2 ^ 53" "s \<noteq> []" using assms(3) by auto
  show ?thesis
  proof (cases "length s = 1")
    case True
    then obtain v where v: "s = [v]" by (auto simp: length_Suc_conv)
    then obtain x where "v = Num x" using set_s(1) by (auto simp: finite_nums_iff)
    then show ?thesis by (simp add: median_def s v percentile_def num_value_def)
  next
    case False
    then have two: "2 \<le> length s" using len(2) by (cases s) (auto simp: Suc_le_eq)
    have "percentile s (Num (1/2)) = Some (interpolate s (jmul (jint (int (length s) - 1)) (Num (1/2))))"
      using two by (auto simp: percentile_def split: list.splits)
    also have "jmul (jint (int (length s) - 1)) (Num (1/2)) = Num (of_int (int (length s) - 1) / 2)"
      using len two by (intro half_position) simp_all
    finally show ?thesis
      using interpolate_half [OF two len(1) set_s(1,3,2)] by (auto simp: median_def s)
  qed
qed

section \<open>The choice of a snapshot\<close>

text \<open>
  What the choice relies on of \<open>localeCompare\<close>: it orders the identifiers linearly, as \<open>rank\<close> does,
  and tells distinct ones apart.
\<close>

definition collation :: "(string \<Rightarrow> string \<Rightarrow> js_num) \<Rightarrow> (string \<Rightarrow> rat) \<Rightarrow> bool" where
  "collation localeCompare rank \<longleftrightarrow> inj rank \<and>
     (\<forall>a b. jgt (localeCompare a b) (jint 0) \<longleftrightarrow> rank b < rank a)"

text \<open>An age the language can hold, and an instant a date can hold.\<close>

definition snapshot_wf :: "snapshot \<Rightarrow> bool" where
  "snapshot_wf c \<longleftrightarrow> js_wf (sn_postAgeSeconds c) \<and> \<bar>sn_capturedAt c\<bar> \<le> 2 ^ 53"

lemma jor_sub:
  assumes "representable x" "representable y"
  shows "jgt (jor (jsub (Num x) (Num y)) b) (jint 0) \<longleftrightarrow> y < x \<or> x = y \<and> jgt b (jint 0)"
proof -
  have "jsub (Num x) (Num y) \<noteq> NaN" by (simp add: jsub_Num)
  then show ?thesis using jsub_sign [OF assms] by (auto simp: jor_def)
qed

lemma jor_sub_int:
  assumes "\<bar>a\<bar> \<le> 2 ^ 53" "\<bar>b\<bar> \<le> 2 ^ 53"
  shows "jgt (jor (jsub (jint a) (jint b)) c) (jint 0) \<longleftrightarrow> b < a \<or> a = b \<and> jgt c (jint 0)"
  using jor_sub [OF representable_int [OF assms(1)] representable_int [OF assms(2)]] by (simp add: jint_def)

definition usable :: "snapshot set" where
  "usable = {c. snapshot_wf c \<and> isFinite (sn_postAgeSeconds c)}"

lemma usable_age: "c \<in> usable \<Longrightarrow> \<exists>x. sn_postAgeSeconds c = Num x \<and> representable x"
  by (cases "sn_postAgeSeconds c") (auto simp: usable_def snapshot_wf_def)

definition mature_key :: "(string \<Rightarrow> rat) \<Rightarrow> snapshot \<Rightarrow> rat \<times> int \<times> rat" where
  "mature_key rank c = (- num_value (sn_postAgeSeconds c), sn_capturedAt c, rank (sn_snapshotId c))"

definition closest_key :: "(string \<Rightarrow> rat) \<Rightarrow> int \<Rightarrow> snapshot \<Rightarrow> rat \<times> rat \<times> int \<times> rat" where
  "closest_key rank target c = (num_value (target_distance target c), num_value (sn_postAgeSeconds c),
     sn_capturedAt c, rank (sn_snapshotId c))"

lemma mature_keyed:
  assumes "collation localeCompare rank"
  shows "keyed_comparator (cmp_mature localeCompare) (mature_key rank) usable"
proof
  fix x y assume xy: "x \<in> usable" "y \<in> usable"
  obtain a b where ab: "sn_postAgeSeconds x = Num a" "representable a" "sn_postAgeSeconds y = Num b" "representable b"
    using usable_age xy by blast
  have "\<bar>sn_capturedAt x\<bar> \<le> 2 ^ 53" "\<bar>sn_capturedAt y\<bar> \<le> 2 ^ 53" using xy by (simp_all add: usable_def snapshot_wf_def)
  then show "jgt (cmp_mature localeCompare x y) (jint 0) \<longleftrightarrow> mature_key rank y < mature_key rank x"
    using assms ab by (auto simp: cmp_mature_def mature_key_def jor_sub jor_sub_int collation_def num_value_def less_prod_def)
qed

text \<open>The distance to the target does not overflow for an age within the window that has the target.\<close>

lemma distance_representable:
  assumes "representable x" "0 \<le> x" "0 \<le> t" "t \<le> 2 ^ 53"
  shows "\<exists>d. jabs (jsub (Num x) (jint t)) = Num d \<and> representable d"
proof -
  have t: "representable (of_int (- t))" using representable_int [of "- t"] assms(3,4) by simp
  have between: "of_int (- t) \<le> x - of_int t" "x - of_int t \<le> x" using assms(2,3) by simp_all
  have "representable \<bar>round64 (x - of_int t)\<bar>"
    using representable_between [OF t assms(1) between] representable_minus by (auto simp: abs_if)
  then show ?thesis using fl_between(1) [OF t assms(1) between] by (simp add: jint_def jsub_Num)
qed

lemma closest_keyed:
  assumes "collation localeCompare rank" "0 \<le> t" "t \<le> 2 ^ 53"
  shows "keyed_comparator (cmp_closest localeCompare t) (closest_key rank t)
    {c \<in> usable. 0 \<le> num_value (sn_postAgeSeconds c)}"
proof
  fix x y assume xy: "x \<in> {c \<in> usable. 0 \<le> num_value (sn_postAgeSeconds c)}"
    "y \<in> {c \<in> usable. 0 \<le> num_value (sn_postAgeSeconds c)}"
  then obtain a b where ab: "sn_postAgeSeconds x = Num a" "representable a" "sn_postAgeSeconds y = Num b" "representable b"
    "0 \<le> a" "0 \<le> b"
    using usable_age [of x] usable_age [of y] by (auto simp: num_value_def)
  obtain d e where de: "target_distance t x = Num d" "representable d" "target_distance t y = Num e" "representable e"
    using distance_representable [OF ab(2,5) assms(2,3)] distance_representable [OF ab(4,6) assms(2,3)]
    by (auto simp: target_distance_def ab)
  have "\<bar>sn_capturedAt x\<bar> \<le> 2 ^ 53" "\<bar>sn_capturedAt y\<bar> \<le> 2 ^ 53" using xy by (simp_all add: usable_def snapshot_wf_def)
  then show "jgt (cmp_closest localeCompare t x y) (jint 0) \<longleftrightarrow> closest_key rank t y < closest_key rank t x"
    using assms(1) ab de
    by (auto simp: cmp_closest_def closest_key_def jor_sub jor_sub_int collation_def num_value_def less_prod_def)
qed

lemma target_range: "sw_targetSeconds (snapshotAgeWindowFor w) = Some t \<Longrightarrow> 0 \<le> t \<and> t \<le> 2 ^ 53"
  by (cases w) (auto simp: snapshotAgeWindowFor_def snapshotAgeWindows_def)

lemma window_nonneg: "sn_postAgeSeconds c = Num x \<Longrightarrow> in_window (snapshotAgeWindowFor w) c \<Longrightarrow> 0 \<le> x"
  by (cases w) (auto simp: in_window_def snapshotAgeWindowFor_def snapshotAgeWindows_def jge_def jle_def jeq_def jint_def)

text \<open>The observations of a run: well formed and told apart by their identifiers.\<close>

definition snapshots_ok :: "snapshot list \<Rightarrow> bool" where
  "snapshots_ok cs \<longleftrightarrow> list_all snapshot_wf cs \<and> distinct (map sn_snapshotId cs)"

lemma eligible_usable:
  assumes "snapshots_ok cs" "c \<in> set (filter (in_window (snapshotAgeWindowFor w)) cs)"
  shows "c \<in> {c \<in> usable. 0 \<le> num_value (sn_postAgeSeconds c)}"
proof -
  have c: "c \<in> usable" using assms by (auto simp: snapshots_ok_def list_all_iff usable_def in_window_def)
  then obtain x where "sn_postAgeSeconds c = Num x" using usable_age by blast
  with c assms(2) window_nonneg [of c x w] show ?thesis by (simp add: num_value_def)
qed

lemma snapshotId_inj: "snapshots_ok cs \<Longrightarrow> inj_on sn_snapshotId (set cs)"
  by (simp add: snapshots_ok_def distinct_map)

text \<open>Both orders of an eligible list, as one comparator with its key into a common type.\<close>

definition window_cmp :: "(string \<Rightarrow> string \<Rightarrow> js_num) \<Rightarrow> age_window \<Rightarrow> snapshot \<Rightarrow> snapshot \<Rightarrow> js_num" where
  "window_cmp localeCompare w = (case sw_targetSeconds (snapshotAgeWindowFor w) of
     None \<Rightarrow> cmp_mature localeCompare | Some t \<Rightarrow> cmp_closest localeCompare t)"

definition window_key :: "(string \<Rightarrow> rat) \<Rightarrow> age_window \<Rightarrow> snapshot \<Rightarrow> rat \<times> rat \<times> int \<times> rat" where
  "window_key rank w c = (case sw_targetSeconds (snapshotAgeWindowFor w) of
     None \<Rightarrow> (0, mature_key rank c) | Some t \<Rightarrow> closest_key rank t c)"

lemma window_keyed:
  assumes "collation localeCompare rank"
  shows "keyed_comparator (window_cmp localeCompare w) (window_key rank w)
    {c \<in> usable. 0 \<le> num_value (sn_postAgeSeconds c)}"
proof (cases "sw_targetSeconds (snapshotAgeWindowFor w)")
  case None
  have "keyed_comparator (cmp_mature localeCompare) (mature_key rank)
      {c \<in> usable. 0 \<le> num_value (sn_postAgeSeconds c)}"
    by (rule keyed_comparator_subset [OF mature_keyed [OF assms]]) auto
  with None show ?thesis
    by (simp add: keyed_comparator_def window_cmp_def window_key_def less_prod_def)
next
  case (Some t)
  then show ?thesis using closest_keyed [OF assms, of t] target_range [OF Some]
    by (simp add: keyed_comparator_def window_cmp_def window_key_def)
qed

lemma window_key_id: "window_key rank w c = window_key rank w d \<Longrightarrow> rank (sn_snapshotId c) = rank (sn_snapshotId d)"
  by (auto simp: window_key_def mature_key_def closest_key_def split: option.splits)

lemma select_eq:
  "selectComparableSnapshot localeCompare cs w =
     (let eligible = filter (in_window (snapshotAgeWindowFor w)) cs in
      if eligible = [] then None else Some (hd (js_sort (window_cmp localeCompare w) eligible)))"
  by (simp add: selectComparableSnapshot_def Let_def window_cmp_def split: option.splits)

lemma select_perm:
  assumes "collation localeCompare rank" "snapshots_ok cs" "mset cs = mset ds"
  shows "selectComparableSnapshot localeCompare cs w = selectComparableSnapshot localeCompare ds w"
proof -
  let ?P = "in_window (snapshotAgeWindowFor w)" and ?S = "set (filter (in_window (snapshotAgeWindowFor w)) cs)"
  have "inj_on (window_key rank w) ?S"
  proof (rule inj_onI)
    fix c d assume cd: "c \<in> ?S" "d \<in> ?S" "window_key rank w c = window_key rank w d"
    then have "sn_snapshotId c = sn_snapshotId d"
      using assms(1) window_key_id by (metis collation_def injD)
    with cd(1,2) show "c = d" using snapshotId_inj [OF assms(2)] by (auto dest: inj_onD)
  qed
  moreover have "keyed_comparator (window_cmp localeCompare w) (window_key rank w) ?S"
    using eligible_usable [OF assms(2)] by (intro keyed_comparator_subset [OF window_keyed [OF assms(1)]]) blast
  moreover have eq: "mset (filter ?P cs) = mset (filter ?P ds)" using assms(3) by (simp only: mset_filter)
  ultimately have "js_sort (window_cmp localeCompare w) (filter ?P cs) = js_sort (window_cmp localeCompare w) (filter ?P ds)"
    using keyed_comparator.sort_perm by blast
  moreover have "filter ?P cs = [] \<longleftrightarrow> filter ?P ds = []" using eq by (metis mset_zero_iff)
  ultimately show ?thesis unfolding select_eq Let_def by simp
qed

lemma select_best:
  assumes "collation localeCompare rank" "snapshots_ok cs" "selectComparableSnapshot localeCompare cs w = Some c"
  shows "c \<in> set cs \<and> in_window (snapshotAgeWindowFor w) c \<and>
    (\<forall>d \<in> set cs. in_window (snapshotAgeWindowFor w) d \<longrightarrow> window_key rank w c \<le> window_key rank w d)"
proof -
  let ?E = "filter (in_window (snapshotAgeWindowFor w)) cs"
  have k: "keyed_comparator (window_cmp localeCompare w) (window_key rank w) (set ?E)"
    using eligible_usable [OF assms(2)] by (intro keyed_comparator_subset [OF window_keyed [OF assms(1)]]) blast
  have ne: "?E \<noteq> []" and c: "c = hd (js_sort (window_cmp localeCompare w) ?E)"
    using assms(3) by (auto simp: select_eq Let_def split: if_splits)
  show ?thesis
    using keyed_comparator.first_least [OF k subset_refl ne] unfolding c by auto
qed

section \<open>The choice of an age window\<close>

lemma foldl_max_key:
  fixes key :: "'a \<Rightarrow> 'k :: linorder"
  assumes f: "\<And>w c. f w c = (if key w < key c then c else w)"
  shows "foldl f x xs \<in> set (x # xs) \<and> (\<forall>y \<in> set (x # xs). key y \<le> key (foldl f x xs))"
proof (induction xs arbitrary: x)
  case (Cons y ys)
  have "key x \<le> key (f x y)" "key y \<le> key (f x y)" "f x y \<in> {x, y}" by (auto simp: f)
  with Cons [of "f x y"] show ?case by (auto dest: order_trans)
qed simp

lemma reduce1_max_key:
  fixes key :: "'a \<Rightarrow> 'k :: linorder"
  assumes "\<And>w c. f w c = (if key w < key c then c else w)" "reduce1 f xs = Some m"
  shows "m \<in> set xs \<and> (\<forall>y \<in> set xs. key y \<le> key m)"
  using assms(2) foldl_max_key [of f key, OF assms(1)] by (cases xs) auto

lemma reduce1_None [simp]: "reduce1 f xs = None \<longleftrightarrow> xs = []"
  by (cases xs) simp_all

lemma maturity_inj: "snapshotAgeWindowMaturity v = snapshotAgeWindowMaturity w \<longleftrightarrow> v = w"
  by (cases v; cases w) (simp_all add: snapshotAgeWindowMaturity_def snapshotAgeWindows_def Let_def)

definition candidate_key :: "window_candidate \<Rightarrow> int \<times> int" where
  "candidate_key c = (wc_eligiblePosts c, snapshotAgeWindowMaturity (wc_ageWindow c))"

lemma mostMature_max:
  "mostMature cs = Some m \<Longrightarrow> m \<in> set cs \<and>
     (\<forall>c \<in> set cs. snapshotAgeWindowMaturity (wc_ageWindow c) \<le> snapshotAgeWindowMaturity (wc_ageWindow m))"
  unfolding mostMature_def by (rule reduce1_max_key) auto

lemma widest_max: "widest cs = Some m \<Longrightarrow> m \<in> set cs \<and> (\<forall>c \<in> set cs. candidate_key c \<le> candidate_key m)"
  unfolding widest_def by (rule reduce1_max_key) (auto simp: candidate_key_def less_prod_def)

text \<open>Each choice is decided by the candidates as a set.\<close>

lemma mostMature_set:
  assumes "set cs = set ds"
  shows "map_option wc_ageWindow (mostMature cs) = map_option wc_ageWindow (mostMature ds)"
proof (cases "mostMature cs"; cases "mostMature ds")
  fix m n assume mn: "mostMature cs = Some m" "mostMature ds = Some n"
  then have "snapshotAgeWindowMaturity (wc_ageWindow m) = snapshotAgeWindowMaturity (wc_ageWindow n)"
    using mostMature_max [of cs m] mostMature_max [of ds n] assms by (intro antisym) auto
  with mn show ?thesis by (simp add: maturity_inj)
qed (use assms in \<open>auto simp: mostMature_def\<close>)

lemma widest_set:
  assumes "set cs = set ds"
  shows "map_option candidate_key (widest cs) = map_option candidate_key (widest ds)"
proof (cases "widest cs"; cases "widest ds")
  fix m n assume mn: "widest cs = Some m" "widest ds = Some n"
  then have "candidate_key m = candidate_key n"
    using widest_max [of cs m] widest_max [of ds n] assms by (intro antisym) auto
  with mn show ?thesis by simp
qed (use assms in \<open>auto simp: widest_def\<close>)

lemma candidate_key_eq: "candidate_key m = candidate_key n \<longleftrightarrow>
    wc_eligiblePosts m = wc_eligiblePosts n \<and> wc_ageWindow m = wc_ageWindow n"
  by (auto simp: candidate_key_def maturity_inj)

lemma find_only:
  assumes "\<And>a b. a \<in> set xs \<Longrightarrow> b \<in> set xs \<Longrightarrow> P a \<Longrightarrow> P b \<Longrightarrow> a = b"
  shows "find P xs = Some c \<longleftrightarrow> c \<in> set xs \<and> P c"
  using assms find_Some_iff2 [of P xs c] find_Some_iff2 [of P xs] find_None_iff2 [of P xs]
  by (cases "find P xs") auto

lemma find_set_only:
  assumes "set xs = set ys" "\<And>a b. a \<in> set xs \<Longrightarrow> b \<in> set xs \<Longrightarrow> P a \<Longrightarrow> P b \<Longrightarrow> a = b"
  shows "find P xs = find P ys"
proof -
  have "find P xs = Some c \<longleftrightarrow> c \<in> set xs \<and> P c" for c by (rule find_only [OF assms(2)])
  moreover have "find P ys = Some c \<longleftrightarrow> c \<in> set ys \<and> P c" for c
    by (rule find_only) (use assms in auto)
  ultimately have eq: "find P xs = Some c \<longleftrightarrow> find P ys = Some c" for c using assms(1) by blast
  show ?thesis
  proof (cases "find P xs")
    case None
    then have "find P ys \<noteq> Some c" for c using eq [of c] by simp
    then show ?thesis unfolding None by (metis not_None_eq)
  next
    case (Some c)
    then show ?thesis using eq [of c] by metis
  qed
qed

lemma window_perm:
  assumes "set cs = set ds" "inj_on wc_ageWindow (set cs)"
  shows "selectAnalyticsAgeWindow cs adequateCoverage minimumMatchedPosts =
    selectAnalyticsAgeWindow ds adequateCoverage minimumMatchedPosts"
proof -
  let ?m = "\<lambda>cs. filter (\<lambda>c. wc_eligiblePosts c > 0) cs"
  let ?u = "\<lambda>cs. filter (\<lambda>c. wc_ageWindow c \<noteq> unmatchedAgeWindow) (?m cs)"
  let ?g = "\<lambda>n cs. filter (\<lambda>c. wc_eligiblePosts c \<ge> n) (?u cs)"
  let ?f = "\<lambda>cs. find (\<lambda>c. wc_ageWindow c = unmatchedAgeWindow) (?m cs)"
  have sets: "set (?m cs) = set (?m ds)" "set (?u cs) = set (?u ds)" "set (?g n cs) = set (?g n ds)" for n
    using assms(1) by auto
  have empties: "?m cs = [] \<longleftrightarrow> ?m ds = []" "?g n cs = [] \<longleftrightarrow> ?g n ds = []" for n
    using sets by (metis set_empty2)+
  have find: "?f cs = ?f ds"
    by (rule find_set_only [OF sets(1)]) (use assms(2) in \<open>auto simp: inj_on_def\<close>)
  have ages: "map_option wc_ageWindow (widest xs) = map_option wc_ageWindow (widest ys)" if "set xs = set ys" for xs ys
    using widest_set [OF that] by (cases "widest xs"; cases "widest ys") (auto simp: candidate_key_eq)
  show ?thesis
    unfolding selectAnalyticsAgeWindow_def Let_def empties find mostMature_set [OF sets(3)] ages [OF sets(1)] ages [OF sets(3)]
    using widest_set [OF sets(2)]
    by (cases "widest (?u cs)"; cases "widest (?u ds)") (auto simp: candidate_key_eq split: option.splits)
qed

text \<open>The choice over the three narrowing lists of candidates.\<close>

definition measured :: "window_candidate list \<Rightarrow> window_candidate list" where
  "measured cs = filter (\<lambda>c. wc_eligiblePosts c > 0) cs"

definition matched :: "window_candidate list \<Rightarrow> window_candidate list" where
  "matched cs = filter (\<lambda>c. wc_ageWindow c \<noteq> W_lifetime) (measured cs)"

definition reaching :: "int \<Rightarrow> window_candidate list \<Rightarrow> window_candidate list" where
  "reaching n cs = filter (\<lambda>c. wc_eligiblePosts c \<ge> n) (matched cs)"

lemma window_select:
  "selectAnalyticsAgeWindow cs adequateCoverage minimumMatchedPosts =
     (if measured cs = [] then None
      else if reaching adequateCoverage cs \<noteq> [] then map_option wc_ageWindow (mostMature (reaching adequateCoverage cs))
      else if reaching minimumMatchedPosts cs \<noteq> [] then map_option wc_ageWindow (widest (reaching minimumMatchedPosts cs))
      else case find (\<lambda>c. wc_ageWindow c = W_lifetime) (measured cs) of
          None \<Rightarrow> map_option wc_ageWindow (widest (measured cs))
        | Some u \<Rightarrow> (case widest (matched cs) of
            Some best \<Rightarrow> if wc_eligiblePosts best \<ge> wc_eligiblePosts u then Some (wc_ageWindow best) else Some (wc_ageWindow u)
          | None \<Rightarrow> Some (wc_ageWindow u)))"
  by (simp only: selectAnalyticsAgeWindow_def Let_def unmatchedAgeWindow_def measured_def matched_def reaching_def)

lemma mostMature_None [simp]: "mostMature xs = None \<longleftrightarrow> xs = []"
  by (simp add: mostMature_def)

lemma widest_None [simp]: "widest xs = None \<longleftrightarrow> xs = []"
  by (simp add: widest_def)

lemma in_measured: "c \<in> set (measured cs) \<longleftrightarrow> c \<in> set cs \<and> 0 < wc_eligiblePosts c"
  "c \<in> set (matched cs) \<longleftrightarrow> c \<in> set (measured cs) \<and> wc_ageWindow c \<noteq> W_lifetime"
  "c \<in> set (reaching n cs) \<longleftrightarrow> c \<in> set (matched cs) \<and> n \<le> wc_eligiblePosts c"
  by (auto simp: measured_def matched_def reaching_def)

lemma window_None:
  "selectAnalyticsAgeWindow cs adequateCoverage minimumMatchedPosts = None \<longleftrightarrow>
    (\<forall>c \<in> set cs. wc_eligiblePosts c \<le> 0)"
proof -
  have "selectAnalyticsAgeWindow cs adequateCoverage minimumMatchedPosts = None \<longleftrightarrow> measured cs = []"
    unfolding window_select by (simp del: not_None_eq split: option.split)
  also have "\<dots> \<longleftrightarrow> (\<forall>c \<in> set cs. wc_eligiblePosts c \<le> 0)" by (auto simp: measured_def filter_empty_conv not_less)
  finally show ?thesis .
qed

lemma window_measured:
  assumes "selectAnalyticsAgeWindow cs adequateCoverage minimumMatchedPosts = Some w"
  shows "\<exists>c \<in> set cs. wc_ageWindow c = w \<and> 0 < wc_eligiblePosts c"
proof -
  have found: "u \<in> set (measured cs)" if "find P (measured cs) = Some u" for P u using that by (auto simp: find_Some_iff2)
  have "\<exists>m \<in> set (measured cs). wc_ageWindow m = w"
    using assms unfolding window_select
    by (auto dest!: mostMature_max widest_max found simp: in_measured(2,3) split: if_splits option.splits)
  then show ?thesis by (auto simp: in_measured)
qed

lemma lifetime_last_resort:
  assumes "selectAnalyticsAgeWindow cs adequateCoverage minimumMatchedPosts = Some W_lifetime"
    and "c \<in> set cs" "wc_eligiblePosts c > 0" "wc_ageWindow c \<noteq> W_lifetime"
  shows "wc_eligiblePosts c < adequateCoverage \<and> wc_eligiblePosts c < minimumMatchedPosts \<and>
    (\<exists>u \<in> set cs. wc_ageWindow u = W_lifetime \<and> wc_eligiblePosts c < wc_eligiblePosts u)"
proof -
  have c: "c \<in> set (matched cs)" using assms(2-4) by (simp add: in_measured)
  have empty: "reaching adequateCoverage cs = []" "reaching minimumMatchedPosts cs = []"
    using assms(1) mostMature_max [of "reaching adequateCoverage cs"] widest_max [of "reaching minimumMatchedPosts cs"]
    by (auto simp: window_select in_measured split: if_splits)
  moreover obtain u where u: "find (\<lambda>c. wc_ageWindow c = W_lifetime) (measured cs) = Some u"
    using assms(1) widest_max [of "measured cs"]
    by (fastforce simp: window_select empty find_None_iff2 split: option.splits if_splits)
  moreover obtain best where b: "widest (matched cs) = Some best" using c by (cases "widest (matched cs)") auto
  ultimately have "wc_eligiblePosts best < wc_eligiblePosts u"
    using assms(1) widest_max [OF b] by (auto simp: window_select in_measured split: if_splits)
  moreover have "wc_eligiblePosts c \<le> wc_eligiblePosts best"
    using widest_max [OF b] c by (auto simp: candidate_key_def less_eq_prod_def)
  moreover have "u \<in> set cs" "wc_ageWindow u = W_lifetime" using find_Some_iff2 [OF u] by (auto simp: measured_def)
  moreover have "wc_eligiblePosts c < adequateCoverage" "wc_eligiblePosts c < minimumMatchedPosts"
    using empty c by (auto simp: reaching_def filter_empty_conv not_le)
  ultimately show ?thesis by auto
qed

lemma map_fst_map_filter:
  "map fst (List.map_filter (\<lambda>p. map_option (Pair p) (g p)) ps) = filter (\<lambda>p. g p \<noteq> None) ps"
  by (induction ps) (auto simp: List.map_filter_simps split: option.splits)

text \<open>The order of preference a window states.\<close>

definition at_least_as_good :: "snapshot_window \<Rightarrow> snapshot \<Rightarrow> snapshot \<Rightarrow> bool" where
  "at_least_as_good window c d = (case sw_targetSeconds window of
     None \<Rightarrow> num_value (sn_postAgeSeconds d) \<le> num_value (sn_postAgeSeconds c)
   | Some t \<Rightarrow> num_value (target_distance t c) \<le> num_value (target_distance t d))"

lemma window_key_good:
  "window_key rank w c \<le> window_key rank w d \<Longrightarrow> at_least_as_good (snapshotAgeWindowFor w) c d"
  by (auto simp: window_key_def at_least_as_good_def mature_key_def closest_key_def less_eq_prod_def split: option.splits)

section \<open>Properties\<close>

text \<open>
  The median is the middle, whatever the order of the values.  Of finite non-negative values
  the routine, with its rounded interpolation, answers a number such that at least half of the
  values are not above it and at least half are not below it, and any permutation of the values has
  the same one.
\<close>

theorem median_is_central:
  assumes "list_all js_wf xs" "filter isFinite xs \<noteq> []" "int (length xs) \<le> 2 ^ 53"
    "\<forall>v \<in> set xs. isFinite v \<longrightarrow> 0 \<le> num_value v" "mset xs = mset ys"
  shows "\<exists>m. median xs = Some (Num m) \<and> median ys = Some (Num m) \<and>
    length (filter isFinite xs) \<le> 2 * length (filter (\<lambda>v. num_value v \<le> m) (filter isFinite xs)) \<and>
    length (filter isFinite xs) \<le> 2 * length (filter (\<lambda>v. m \<le> num_value v) (filter isFinite xs))"
proof -
  let ?F = "filter isFinite xs" and ?s = "sort_key num_value (filter isFinite xs)"
  let ?n = "length (filter isFinite xs)"
  obtain m where m: "median xs = Some (Num m)" "num_value (?s ! ((?n - 1) div 2)) \<le> m" "m \<le> num_value (?s ! (?n div 2))"
    using median_central [OF assms(1-4)] by (metis length_sort)
  have n: "0 < ?n" using assms(2) by simp
  have half: "(?n - 1) div 2 < length ?s" "?n div 2 < length ?s" unfolding length_sort using n by linarith+
  have perm: "mset ?F = mset ?s" and sorted: "sorted (map num_value ?s)" by (simp_all only: mset_sort sorted_sort_key)
  have "num_value (?s ! ((?n - 1) div 2)) \<le> m \<longleftrightarrow> (?n - 1) div 2 < length (filter (\<lambda>v. num_value v \<le> m) ?F)"
    by (rule sorted_rank_key [where P = "\<lambda>y. y \<le> m", OF _ perm sorted half(1)]) (rule order_trans)
  with m(2) have "(?n - 1) div 2 < length (filter (\<lambda>v. num_value v \<le> m) ?F)" by blast
  then have below: "?n \<le> 2 * length (filter (\<lambda>v. num_value v \<le> m) ?F)" by linarith
  have "num_value (?s ! (?n div 2)) < m \<longleftrightarrow> ?n div 2 < length (filter (\<lambda>v. num_value v < m) ?F)"
    by (rule sorted_rank_key [where P = "\<lambda>y. y < m", OF _ perm sorted half(2)]) (rule order_le_less_trans)
  with m(3) have "\<not> ?n div 2 < length (filter (\<lambda>v. num_value v < m) ?F)" by linarith
  moreover have "length (filter (\<lambda>v. num_value v < m) ?F) + length (filter (\<lambda>v. \<not> num_value v < m) ?F) = ?n"
    by (rule sum_length_filter_compl)
  ultimately have "?n \<le> 2 * length (filter (\<lambda>v. \<not> num_value v < m) ?F)" by linarith
  then have above: "?n \<le> 2 * length (filter (\<lambda>v. m \<le> num_value v) ?F)" by (simp only: not_less)
  have "median ys = Some (Num m)" using m(1) ascending_perm [OF assms(1,5)] by (simp add: median_def)
  with m(1) below above show ?thesis by blast
qed

theorem median_is_central_witness:
  "\<exists>m. median [jint 3, jint 1, NaN, jint 2] = Some (Num m) \<and> median [jint 1, jint 2, jint 3, NaN] = Some (Num m) \<and>
     3 \<le> 2 * length (filter (\<lambda>v. num_value v \<le> m) [jint 3, jint 1, jint 2]) \<and>
     3 \<le> 2 * length (filter (\<lambda>v. m \<le> num_value v) [jint 3, jint 1, jint 2])"
proof -
  have wf: "list_all js_wf [jint 3, jint 1, NaN, jint 2]"
    using representable_int [of 1] representable_int [of 2] representable_int [of 3] by (simp add: jint_def)
  have f: "filter isFinite [jint 3, jint 1, NaN, jint 2] = [jint 3, jint 1, jint 2]" by (simp add: jint_def)
  have len: "length [jint 3, jint 1, jint 2] = 3" by simp
  have nn: "\<forall>v \<in> set [jint 3, jint 1, NaN, jint 2]. isFinite v \<longrightarrow> 0 \<le> num_value v"
    by (simp add: jint_def num_value_def)
  have perm: "mset [jint 3, jint 1, NaN, jint 2] = mset [jint 1, jint 2, jint 3, NaN]" by simp
  show ?thesis using median_is_central [OF wf _ _ nn perm] unfolding f len by simp
qed

text \<open>
  The age window a calculation is published for is chosen from the coverage alone.  With one
  candidate per window the choice is the same whatever their order; there is one exactly when some
  window has posts, and it is then a window with posts; and the window that matches no age is chosen
  only as the last resort: when every other window is below both the adequate coverage and the
  minimum, and covers fewer posts than it.
\<close>

theorem age_window_choice:
  assumes "distinct (map wc_ageWindow cs)" "mset cs = mset ds"
  shows "let choice = selectAnalyticsAgeWindow cs adequateCoverage minimumMatchedPosts in
    choice = selectAnalyticsAgeWindow ds adequateCoverage minimumMatchedPosts \<and>
    (choice = None \<longleftrightarrow> (\<forall>c \<in> set cs. wc_eligiblePosts c \<le> 0)) \<and>
    (\<forall>w. choice = Some w \<longrightarrow> (\<exists>c \<in> set cs. wc_ageWindow c = w \<and> 0 < wc_eligiblePosts c)) \<and>
    (\<forall>c \<in> set cs. choice = Some W_lifetime \<and> 0 < wc_eligiblePosts c \<and> wc_ageWindow c \<noteq> W_lifetime \<longrightarrow>
       wc_eligiblePosts c < adequateCoverage \<and> wc_eligiblePosts c < minimumMatchedPosts \<and>
       (\<exists>u \<in> set cs. wc_ageWindow u = W_lifetime \<and> wc_eligiblePosts c < wc_eligiblePosts u))"
proof -
  have sets: "set cs = set ds" using assms(2) by (metis set_mset_mset)
  have inj: "inj_on wc_ageWindow (set cs)" using assms(1) by (simp add: distinct_map)
  show ?thesis
    unfolding Let_def
    using window_perm [OF sets inj, of adequateCoverage minimumMatchedPosts] window_measured
      window_None [of cs adequateCoverage minimumMatchedPosts]
      lifetime_last_resort [of cs adequateCoverage minimumMatchedPosts] by blast
qed

definition sample_candidates :: "window_candidate list" where
  "sample_candidates = [\<lparr>wc_ageWindow = W_day_7, wc_eligiblePosts = 2\<rparr>,
     \<lparr>wc_ageWindow = W_lifetime, wc_eligiblePosts = 9\<rparr>]"

theorem age_window_choice_witness:
  "selectAnalyticsAgeWindow sample_candidates 20 8 = Some W_lifetime \<and>
   selectAnalyticsAgeWindow (rev sample_candidates) 20 8 = Some W_lifetime \<and>
   (\<exists>u \<in> set sample_candidates. wc_ageWindow u = W_lifetime \<and> 2 < wc_eligiblePosts u)"
proof -
  have d: "distinct (map wc_ageWindow sample_candidates)" by (simp add: sample_candidates_def)
  have c: "selectAnalyticsAgeWindow sample_candidates 20 8 = Some W_lifetime" by code_simp
  have "\<lparr>wc_ageWindow = W_day_7, wc_eligiblePosts = 2\<rparr> \<in> set sample_candidates" by (simp add: sample_candidates_def)
  then show ?thesis
    using age_window_choice [OF d, of "rev sample_candidates" 20 8] c unfolding Let_def by fastforce
qed

text \<open>
  C39: which observations a comparison uses does not depend on the order they were read in, and they
  are the right ones.  With a collation that orders identifiers linearly and distinct identifiers,
  the selection is the same for every permutation of the observations; it has one entry per post, in
  order; a post with an observation in the window has one, that observation is the post's own and
  in the window, and none of the post's others in the window is closer to the target (or, where the
  window names no moment, more mature).
\<close>

theorem comparable_snapshots_chosen:
  assumes "collation localeCompare rank" "snapshots_ok cs" "mset cs = mset ds"
  shows "let r = selectComparableSnapshots localeCompare cs w; window = snapshotAgeWindowFor w in
    r = selectComparableSnapshots localeCompare ds w \<and> sorted (map fst r) \<and> distinct (map fst r) \<and>
    (\<forall>c \<in> set cs. in_window window c \<longrightarrow> sn_postId c \<in> fst ` set r) \<and>
    (\<forall>(p, c) \<in> set r. c \<in> set cs \<and> sn_postId c = p \<and> in_window window c \<and>
       (\<forall>d \<in> set cs. sn_postId d = p \<and> in_window window d \<longrightarrow> at_least_as_good window c d))"
proof -
  let ?sel = "\<lambda>cs p. selectComparableSnapshot localeCompare (filter (\<lambda>c. sn_postId c = p) cs) w"
  let ?r = "selectComparableSnapshots localeCompare cs w"
  have ok: "snapshots_ok (filter P cs)" for P using assms(2) by (auto simp: snapshots_ok_def list_all_iff distinct_map_filter)
  have r: "?r = List.map_filter (\<lambda>p. map_option (Pair p) (?sel cs p)) (sorted_list_of_set (sn_postId ` set cs))"
    by (simp add: selectComparableSnapshots_def posts_of_def sorted_list_of_set_sort_remdups [symmetric])
  have "?sel cs p = ?sel ds p" for p
    by (rule select_perm [OF assms(1) ok]) (use assms(3) in \<open>simp only: mset_filter\<close>)
  moreover have "set cs = set ds" using assms(3) by (metis set_mset_mset)
  ultimately have perm: "?r = selectComparableSnapshots localeCompare ds w"
    unfolding r by (simp add: selectComparableSnapshots_def posts_of_def sorted_list_of_set_sort_remdups [symmetric])
  have keys: "map fst ?r = filter (\<lambda>p. ?sel cs p \<noteq> None) (sorted_list_of_set (sn_postId ` set cs))"
    unfolding r by (rule map_fst_map_filter)
  have covered: "sn_postId c \<in> fst ` set ?r" if "c \<in> set cs" "in_window (snapshotAgeWindowFor w) c" for c
  proof -
    have "?sel cs (sn_postId c) \<noteq> None" using that by (auto simp: select_eq Let_def filter_empty_conv)
    then have "sn_postId c \<in> set (map fst ?r)" unfolding keys using that(1) by simp
    then show ?thesis by simp
  qed
  have good: "c \<in> set cs \<and> sn_postId c = p \<and> in_window (snapshotAgeWindowFor w) c \<and>
      (\<forall>d \<in> set cs. sn_postId d = p \<and> in_window (snapshotAgeWindowFor w) d \<longrightarrow>
         at_least_as_good (snapshotAgeWindowFor w) c d)" if "(p, c) \<in> set ?r" for p c
  proof -
    have "?sel cs p = Some c" using that unfolding r by (auto simp: List.map_filter_def)
    from select_best [OF assms(1) ok this] show ?thesis using window_key_good by auto
  qed
  have "sorted (map fst ?r)" "distinct (map fst ?r)"
    unfolding keys using sorted_filter [of id "sorted_list_of_set (sn_postId ` set cs)"] by simp_all
  with perm covered good show ?thesis unfolding Let_def by blast
qed

text \<open>A collation: identifiers numbered in base 257, compared as numbers.\<close>

fun string_number :: "string \<Rightarrow> nat" where
  "string_number [] = 0"
| "string_number (c # cs) = 257 * string_number cs + (of_char c + 1)"

lemma string_number_inj: "string_number s = string_number t \<Longrightarrow> s = t"
proof (induction s arbitrary: t)
  case Nil
  then show ?case by (cases t) simp_all
next
  case (Cons c cs)
  then obtain d ds where t: "t = d # ds" by (cases t) auto
  have lt: "of_char c + 1 < (257 :: nat)" "of_char d + 1 < (257 :: nat)"
    using mod_less_divisor [of 256 "of_char c"] mod_less_divisor [of 256 "of_char d"]
    by simp_all
  have eq: "257 * string_number cs + (of_char c + 1) = 257 * string_number ds + (of_char d + 1)"
    using Cons.prems by (simp add: t)
  have "(of_char c + 1 :: nat) = of_char d + 1"
    using arg_cong [OF eq, of "\<lambda>n. n mod 257"] lt by (metis mod_mult_self4 mod_less)
  moreover from this eq have "string_number cs = string_number ds" by simp
  ultimately show ?case using Cons.IH [of ds] by (simp add: t)
qed

definition numbered_compare :: "string \<Rightarrow> string \<Rightarrow> js_num" where
  "numbered_compare a b = jint (sgn (int (string_number a) - int (string_number b)))"

lemma numbered_collation: "collation numbered_compare (\<lambda>s. of_nat (string_number s))"
  unfolding collation_def
  by (auto simp: inj_def string_number_inj numbered_compare_def jint_def jgt_def sgn_if)

definition sample_snapshot :: "string \<Rightarrow> int \<Rightarrow> string \<Rightarrow> snapshot" where
  "sample_snapshot postId age snapshotId =
     \<lparr>sn_capturedAt = 1700000000000, sn_postAgeSeconds = jint age, sn_postId = postId, sn_snapshotId = snapshotId\<rparr>"

definition sample_snapshots :: "snapshot list" where
  "sample_snapshots = [sample_snapshot ''b'' 600000 ''s1'', sample_snapshot ''a'' 610000 ''s2'',
     sample_snapshot ''b'' 604000 ''s3'', sample_snapshot ''c'' 90000 ''s4'']"

lemma sample_snapshots_ok: "snapshots_ok sample_snapshots"
  by (simp add: snapshots_ok_def sample_snapshots_def sample_snapshot_def snapshot_wf_def jint_def
      representable_int [of 600000, simplified] representable_int [of 610000, simplified]
      representable_int [of 604000, simplified] representable_int [of 90000, simplified])

theorem comparable_snapshots_chosen_witness:
  "selectComparableSnapshots numbered_compare sample_snapshots W_day_7 =
     selectComparableSnapshots numbered_compare (rev sample_snapshots) W_day_7 \<and>
   ''b'' \<in> fst ` set (selectComparableSnapshots numbered_compare sample_snapshots W_day_7)"
proof -
  have "in_window (snapshotAgeWindowFor W_day_7) (sample_snapshot ''b'' 604000 ''s3'')" by code_simp
  moreover have "sample_snapshot ''b'' 604000 ''s3'' \<in> set sample_snapshots" by (simp add: sample_snapshots_def)
  moreover have "sn_postId (sample_snapshot ''b'' 604000 ''s3'') = ''b''" by (simp add: sample_snapshot_def)
  ultimately show ?thesis
    using comparable_snapshots_chosen [OF numbered_collation sample_snapshots_ok, of "rev sample_snapshots" W_day_7]
    unfolding Let_def by (metis mset_rev)
qed

end
