(* ===== verification/Content_Store.thy ===== *)
theory Content_Store
  imports Job_Store Analytics_Cohorts
begin

text \<open>
  The rows of the content tables of \<open>packages/db/prisma/schema.prisma\<close>: the connected accounts, their
  credentials, the imported posts and the runs that import them.  Columns that no modelled code reads or
  writes are left out.
\<close>

datatype account_type = BUSINESS | CREATOR

datatype connection_status = CS_ACTIVE | CS_REAUTHORISATION_REQUIRED | CS_DISCONNECTED

record account =
  ac_id :: string
  ac_workspaceId :: string
  ac_providerAccountId :: string
  ac_username :: "string option"
  ac_accountType :: account_type
  ac_mediaCount :: "int option"
  ac_followerCount :: "int option"
  ac_connectionStatus :: connection_status
  ac_tokenExpiresAt :: "time option"
  ac_grantedScopes :: "string list"
  ac_lastSuccessfulSyncAt :: "time option"
  ac_apiVersion :: string
  ac_createdAt :: time
  ac_analyticsDirtySince :: "time option"
  ac_analyticsDueAt :: "time option"

datatype integration_type = INSTAGRAM

datatype credential_status = CR_ACTIVE | CR_REAUTHORISATION_REQUIRED | CR_REVOKED

record credential =
  cr_id :: string
  cr_workspaceId :: string
  cr_integrationType :: integration_type
  cr_accountId :: string
  cr_ciphertext :: string
  cr_keyVersion :: int
  cr_tokenType :: string
  cr_scopeHash :: string
  cr_status :: credential_status
  cr_issuedAt :: time
  cr_expiresAt :: "time option"
  cr_refreshedAt :: "time option"
  cr_lastValidatedAt :: "time option"
  cr_lastValidationErrorClass :: "string option"

datatype media_kind = REEL | VIDEO | IMAGE | CAROUSEL_ALBUM | UNSUPPORTED

record post =
  po_id :: string
  po_workspaceId :: string
  po_instagramAccountId :: string
  po_providerMediaId :: string
  po_mediaKind :: media_kind
  po_mediaType :: string
  po_mediaProductType :: "string option"
  po_caption :: "string option"
  po_permalink :: "string option"
  po_publishedAt :: time
  po_providerThumbnailUrl :: "string option"
  po_firstImportedAt :: time
  po_lastImportedAt :: time
  po_lastSyncRunId :: "string option"
  po_rawPayloadHash :: string
  po_rawApiVersion :: string
  po_rawRetrievedAt :: time

datatype sync_trigger = BOOTSTRAP | MANUAL | SCHEDULED | RECONCILE

datatype sync_run_state = S_RUNNING | S_SUCCEEDED | S_FAILED

record sync_run =
  sr_id :: string
  sr_workspaceId :: string
  sr_instagramAccountId :: string
  sr_trigger :: sync_trigger
  sr_idempotencyKey :: string
  sr_backgroundJobId :: "string option"
  sr_state :: sync_run_state
  sr_stage :: string
  sr_horizonStart :: "time option"
  sr_cursor :: "string option"
  sr_pagesCompleted :: int
  sr_itemsSeen :: int
  sr_itemsImported :: int
  sr_itemsUpdated :: int
  sr_itemsSkipped :: int
  sr_itemsInvalid :: int
  sr_apiVersion :: string
  sr_correlationId :: string
  sr_startedAt :: time
  sr_checkpointAt :: "time option"
  sr_completedAt :: "time option"
  sr_failureClass :: "string option"
  sr_failureCode :: "string option"
  sr_requestedByUserId :: "string option"

section \<open>Partial unique indexes\<close>

text \<open>An update that keeps the key and brings no new row under the condition keeps the index.\<close>

lemma distinct_filter_update:
  assumes "\<And>r. r \<in> set rows \<Longrightarrow> P r \<Longrightarrow> Q (f r) \<Longrightarrow> Q r" "\<And>r. key (f r) = key r" "distinct (map key (filter Q rows))"
  shows "distinct (map key (filter Q (update_many P f rows)))"
  using assms(1,3)
proof (induction rows)
  case (Cons c rows)
  let ?d = "if P c then f c else c"
  have step: "update_many P f (c # rows) = ?d # update_many P f rows" by (simp add: update_many_def)
  have IH: "distinct (map key (filter Q (update_many P f rows)))" using Cons by (auto split: if_splits)
  have keys: "key ` {d \<in> set (update_many P f rows). Q d} \<subseteq> key ` {d \<in> set rows. Q d}"
    using Cons.prems(1) assms(2) by (force simp: update_many_def)
  have "key ?d = key c" using assms(2) by simp
  moreover have "Q ?d \<Longrightarrow> Q c" using Cons.prems(1) [of c] by (auto split: if_splits)
  ultimately show ?case using IH keys Cons.prems(2) unfolding step by (auto simp del: if_image_distrib)
qed (simp add: update_many_def)

lemma update_many_untouched: "r \<in> set rows \<Longrightarrow> \<not> P r \<Longrightarrow> r \<in> set (update_many P f rows)"
  by (force simp: update_many_def)

end
