(* ===== verification/JS_Text.thy ===== *)
theory JS_Text
  imports JS_Number "HOL-Library.Char_ord" "HOL-Library.List_Lexorder"
begin

text \<open>
  The texts the language prints: numbers (\<open>Number::toString\<close>, radix ten) and JSON.  A finite
  number is printed with the fewest decimal digits that still round to it; of several such digit
  strings the closest is taken.  Characters stand for code units below 256.
\<close>

section \<open>Numbers\<close>

fun nat_digits :: "nat \<Rightarrow> string" where
  "nat_digits n = (if n < 10 then [char_of (48 + n)] else nat_digits (n div 10) @ [char_of (48 + n mod 10)])"

declare nat_digits.simps [simp del]

text \<open>The digits of a number, and the number they stand for.\<close>

lemma digit_code: "k < (10 :: nat) \<Longrightarrow> is_digit (char_of (48 + k))"
  by (simp add: is_digit_def code_in_def)

lemma nat_digits_digits: "list_all is_digit (nat_digits n)"
  by (induction n rule: nat_digits.induct) (subst nat_digits.simps, simp add: digit_code)

definition digits_value :: "string \<Rightarrow> nat" where
  "digits_value s = foldl (\<lambda>v c. v * 10 + (of_char c - 48)) 0 s"

lemma digits_value_nat: "digits_value (nat_digits n) = n"
proof (induction n rule: nat_digits.induct)
  case (1 n)
  then show ?case by (subst nat_digits.simps) (simp add: digits_value_def)
qed

lemma length_nat_digits: "n < 10 ^ k \<Longrightarrow> 0 < k \<Longrightarrow> length (nat_digits n) \<le> k"
proof (induction k arbitrary: n)
  case (Suc k)
  then show ?case by (cases "n < 10"; cases k) (auto simp: nat_digits.simps [of n])
qed simp

text \<open>A whole number below \<open>10 ^ 21\<close> is printed with all its digits.\<close>

definition int_text :: "int \<Rightarrow> string" where
  "int_text n = (if n < 0 then ''-'' else []) @ nat_digits (nat \<bar>n\<bar>)"

lemma nat_digits_Cons: "\<exists>c cs. nat_digits n = c # cs \<and> is_digit c"
  using nat_digits_digits [of n] by (cases "nat_digits n") (simp_all add: nat_digits.simps [of n] split: if_splits)

definition digit_free :: "string \<Rightarrow> bool" where
  "digit_free r = (case r of [] \<Rightarrow> True | c # _ \<Rightarrow> \<not> is_digit c)"

lemma nat_digits_unique:
  assumes "nat_digits m @ r = nat_digits n @ r'" "digit_free r" "digit_free r'"
  shows "m = n \<and> r = r'"
proof -
  have "takeWhile is_digit (nat_digits k @ q) = nat_digits k" if "digit_free q" for k q
    using nat_digits_digits [of k] that by (cases q) (simp_all add: list_all_iff takeWhile_append2 digit_free_def takeWhile_eq_all_conv)
  then have "nat_digits m = nat_digits n" using assms by metis
  then show ?thesis using assms(1) by (metis append_eq_append_conv digits_value_nat)
qed

lemma int_text_unique:
  assumes "int_text m @ r = int_text n @ r'" "digit_free r" "digit_free r'"
  shows "m = n \<and> r = r'"
proof -
  obtain c cs where m: "nat_digits (nat \<bar>m\<bar>) = c # cs" "is_digit c" using nat_digits_Cons by blast
  obtain d ds where n: "nat_digits (nat \<bar>n\<bar>) = d # ds" "is_digit d" using nat_digits_Cons by blast
  have minus: "\<not> is_digit (CHR ''-'')" by (simp add: is_digit_def code_in_def)
  have signs: "m < 0 \<longleftrightarrow> n < 0" using assms(1) m n minus by (auto simp: int_text_def split: if_splits)
  then have "nat_digits (nat \<bar>m\<bar>) @ r = nat_digits (nat \<bar>n\<bar>) @ r'" using assms(1) by (simp add: int_text_def split: if_splits)
  from nat_digits_unique [OF this assms(2,3)] signs show ?thesis by linarith
qed

text \<open>The decimal exponent: the least \<open>n\<close> with \<open>r < 10 ^ n\<close>, searched within the range of binary64.\<close>

fun search_exponent :: "nat \<Rightarrow> rat \<Rightarrow> int \<Rightarrow> int" where
  "search_exponent 0 r n = n"
| "search_exponent (Suc fuel) r n =
     (if 10 powi n \<le> r then search_exponent fuel r (n + 1)
      else if r < 10 powi (n - 1) then search_exponent fuel r (n - 1) else n)"

definition decimal_exponent :: "rat \<Rightarrow> int" where
  "decimal_exponent r = search_exponent 400 r 0"

text \<open>The candidates with \<open>k\<close> digits: the scaled value rounded down and up.\<close>

definition shortest_with :: "rat \<Rightarrow> int \<Rightarrow> nat \<Rightarrow> (nat \<times> int) option" where
  "shortest_with r n k =
     (let unit = 10 powi (n - int k); q = \<lfloor>r / unit\<rfloor>;
          down = of_int q * unit; up = of_int (q + 1) * unit;
          down_ok = (round64 down = r); up_ok = (round64 up = r);
          upper = (if q + 1 = 10 ^ k then (10 ^ (k - 1), n + 1) else (nat (q + 1), n))
      in if down_ok \<and> (\<not> up_ok \<or> r - down < up - r \<or> (r - down = up - r \<and> even q)) then Some (nat q, n)
         else if up_ok then Some upper else None)"

fun shortest_from :: "nat \<Rightarrow> rat \<Rightarrow> int \<Rightarrow> nat \<Rightarrow> nat \<times> int" where
  "shortest_from 0 r n k = (nat \<lfloor>r / 10 powi (n - int k)\<rfloor>, n)"
| "shortest_from (Suc fuel) r n k = (case shortest_with r n k of
     Some s \<Rightarrow> s | None \<Rightarrow> shortest_from fuel r n (Suc k))"

definition layout_number :: "string \<Rightarrow> int \<Rightarrow> string" where
  "layout_number ds n =
     (let k = int (length ds); e = n - 1;
          exponent = (if e < 0 then ''-'' else ''+'') @ nat_digits (nat \<bar>e\<bar>)
      in if k \<le> n \<and> n \<le> 21 then ds @ replicate (nat (n - k)) CHR ''0''
         else if 0 < n \<and> n \<le> 21 then take (nat n) ds @ ''.'' @ drop (nat n) ds
         else if - 6 < n \<and> n \<le> 0 then ''0.'' @ replicate (nat (- n)) CHR ''0'' @ ds
         else if k = 1 then ds @ ''e'' @ exponent
         else take 1 ds @ ''.'' @ drop 1 ds @ ''e'' @ exponent)"

definition positive_text :: "rat \<Rightarrow> string" where
  "positive_text r = (case shortest_from 17 r (decimal_exponent r) 1 of (s, n) \<Rightarrow> layout_number (nat_digits s) n)"

fun number_text :: "js_num \<Rightarrow> string" where
  "number_text NaN = ''NaN''"
| "number_text PosInf = ''Infinity''"
| "number_text NegInf = ''-Infinity''"
| "number_text (Num x) = (if x = 0 then ''0'' else if x > 0 then positive_text x else ''-'' @ positive_text (- x))"

section \<open>JSON\<close>

definition json_number :: "js_num \<Rightarrow> string" where
  "json_number v = (if isFinite v then number_text v else ''null'')"

definition hex_digit :: "nat \<Rightarrow> char" where
  "hex_digit n = char_of (if n < 10 then 48 + n else 87 + n)"

definition json_char :: "char \<Rightarrow> string" where
  "json_char c = (let n = of_char c :: nat in
     if n = 34 then [CHR 0x5C, CHR 0x22] else if n = 92 then [CHR 0x5C, CHR 0x5C]
     else if n = 8 then [CHR 0x5C, CHR ''b''] else if n = 12 then [CHR 0x5C, CHR ''f'']
     else if n = 10 then [CHR 0x5C, CHR ''n''] else if n = 13 then [CHR 0x5C, CHR ''r'']
     else if n = 9 then [CHR 0x5C, CHR ''t'']
     else if n < 32 then [CHR 0x5C, CHR ''u'', CHR ''0'', CHR ''0'', hex_digit (n div 16), hex_digit (n mod 16)]
     else [c])"

definition json_string :: "string \<Rightarrow> string" where
  "json_string s = CHR 0x22 # concat (map json_char s) @ [CHR 0x22]"

fun join :: "string \<Rightarrow> string list \<Rightarrow> string" where
  "join sep [] = []"
| "join sep [s] = s"
| "join sep (s # ss) = s @ sep @ join sep ss"

definition json_array :: "string list \<Rightarrow> string" where
  "json_array items = ''['' @ join '','' items @ '']''"

text \<open>The values the fingerprints are made of: texts, whole numbers below \<open>10 ^ 21\<close>, and lists.\<close>

datatype json = JNull | JStr string | JInt int | JArr "json list"

fun json_text :: "json \<Rightarrow> string" where
  "json_text JNull = ''null''"
| "json_text (JStr s) = json_string s"
| "json_text (JInt n) = int_text n"
| "json_text (JArr vs) = json_array (map json_text vs)"

section \<open>The text determines the value\<close>

definition hex_value :: "char \<Rightarrow> nat" where
  "hex_value c = (let n = of_char c :: nat in if n < 58 then n - 48 else n - 87)"

text \<open>Reading back the first character of a string literal.\<close>

fun unescape :: "string \<Rightarrow> char \<times> string" where
  "unescape (c # e # rest) =
     (if c \<noteq> CHR 0x5C then (c, e # rest)
      else if e = CHR ''b'' then (CHR 0x08, rest) else if e = CHR ''f'' then (CHR 0x0C, rest)
      else if e = CHR ''n'' then (CHR 0x0A, rest) else if e = CHR ''r'' then (CHR 0x0D, rest)
      else if e = CHR ''t'' then (CHR 0x09, rest)
      else if e = CHR ''u'' then (char_of (16 * hex_value (rest ! 2) + hex_value (rest ! 3)), drop 4 rest)
      else (e, rest))"
| "unescape [c] = (c, [])"
| "unescape [] = (CHR 0x00, [])"

lemma hex_value_digit: "k < 16 \<Longrightarrow> hex_value (hex_digit k) = k"
  by (auto simp: hex_value_def hex_digit_def Let_def of_char_of)

lemma escaped_chars:
  "char_of (34 :: nat) = CHR 0x22" "char_of (92 :: nat) = CHR 0x5C" "char_of (8 :: nat) = CHR 0x08"
  "char_of (12 :: nat) = CHR 0x0C" "char_of (10 :: nat) = CHR 0x0A" "char_of (13 :: nat) = CHR 0x0D"
  "char_of (9 :: nat) = CHR 0x09"
  by code_simp+

lemma unescape_json_char: "unescape (json_char c @ r) = (c, r)"
proof -
  define n where "n = (of_char c :: nat)"
  have c: "c = char_of n" by (simp add: n_def)
  consider "n \<in> {34, 92, 8, 12, 10, 13, 9}" | "n \<notin> {34, 92, 8, 12, 10, 13, 9}" "n < 32" | "n \<notin> {34, 92, 8, 12, 10, 13, 9}" "32 \<le> n"
    by linarith
  then show ?thesis
  proof cases
    case 1
    then show ?thesis unfolding json_char_def Let_def n_def [symmetric] by (auto simp: c escaped_chars)
  next
    case 2
    then have "json_char c = [CHR 0x5C, CHR ''u'', CHR ''0'', CHR ''0'', hex_digit (n div 16), hex_digit (n mod 16)]"
      unfolding json_char_def Let_def n_def [symmetric] by simp
    moreover have "16 * (n div 16) + n mod 16 = n" by simp
    ultimately show ?thesis using 2(2) by (simp add: hex_value_digit c)
  next
    case 3
    then have "json_char c = [c]" unfolding json_char_def Let_def n_def [symmetric] by simp
    moreover have "c \<noteq> CHR 0x5C" using 3 by (auto simp: n_def)
    ultimately show ?thesis by (cases r) simp_all
  qed
qed

lemma json_char_no_quote: "json_char c @ r \<noteq> CHR 0x22 # r'"
  by (auto simp: json_char_def Let_def)

lemma json_body_unique:
  "concat (map json_char s) @ CHR 0x22 # r = concat (map json_char t) @ CHR 0x22 # r' \<Longrightarrow> s = t \<and> r = r'"
proof (induction s arbitrary: t)
  case Nil
  show ?case
  proof (cases t)
    case (Cons d t')
    with Nil have "json_char d @ concat (map json_char t') @ CHR 0x22 # r' = CHR 0x22 # r" by simp
    with json_char_no_quote show ?thesis by metis
  qed (use Nil in simp)
next
  case (Cons c s)
  show ?case
  proof (cases t)
    case Nil
    with Cons.prems have "json_char c @ concat (map json_char s) @ CHR 0x22 # r = CHR 0x22 # r'" by simp
    with json_char_no_quote show ?thesis by metis
  next
    case (Cons d t')
    with Cons.prems have eq: "json_char c @ concat (map json_char s) @ CHR 0x22 # r =
        json_char d @ concat (map json_char t') @ CHR 0x22 # r'" by simp
    from arg_cong [OF this, of unescape]
    have "c = d" "concat (map json_char s) @ CHR 0x22 # r = concat (map json_char t') @ CHR 0x22 # r'"
      by (simp_all add: unescape_json_char)
    with Cons.IH [of t'] show ?thesis by (simp add: Cons)
  qed
qed

lemma json_first: "\<exists>c cs. json_text v = c # cs \<and> c \<noteq> CHR '']''"
proof (cases v)
  case (JInt n)
  obtain c cs where "nat_digits (nat \<bar>n\<bar>) = c # cs" "is_digit c" using nat_digits_Cons by blast
  then show ?thesis by (auto simp: JInt int_text_def is_digit_def code_in_def)
qed (auto simp: json_string_def json_array_def)

text \<open>A number begins as no other value does.\<close>

lemma int_text_first: "int_text n @ r \<noteq> c # s" if "c \<in> {CHR ''n'', CHR ''['', CHR 0x22}"
proof -
  obtain d ds where "nat_digits (nat \<bar>n\<bar>) = d # ds" "is_digit d" using nat_digits_Cons by blast
  with that show ?thesis by (auto simp: int_text_def is_digit_def code_in_def)
qed

lemma value_kinds:
  "int_text n @ r \<noteq> ''null'' @ s" "int_text n @ r \<noteq> json_string t @ s" "int_text n @ r \<noteq> json_array vs @ s"
  by (simp_all add: json_string_def json_array_def int_text_first)

fun json_tail :: "json list \<Rightarrow> string" where
  "json_tail [] = []"
| "json_tail (v # vs) = '','' @ json_text v @ json_tail vs"

lemma join_tail: "join '','' (map json_text (v # vs)) = json_text v @ json_tail vs"
  by (induction vs arbitrary: v) simp_all

lemma digit_free_tail: "digit_free (json_tail vs @ '']'' @ r)"
  by (cases vs) (simp_all add: digit_free_def is_digit_def code_in_def)

text \<open>A value is known when its text ends, if no digit follows a number.\<close>

lemma json_text_unique: "json_text v @ r = json_text w @ r' \<Longrightarrow> digit_free r \<Longrightarrow> digit_free r' \<Longrightarrow> v = w \<and> r = r'"
proof (induction v arbitrary: w r r')
  case JNull
  show ?case
  proof (cases w)
    case (JInt n)
    with JNull(1) have "int_text n @ r' = ''null'' @ r" by simp
    with value_kinds(1) show ?thesis by blast
  qed (use JNull in \<open>auto simp: json_string_def json_array_def\<close>)
next
  case (JInt n)
  show ?case
  proof (cases w)
    case JNull
    with JInt(1) value_kinds(1) show ?thesis by simp
  next
    case (JStr t)
    with JInt(1) value_kinds(2) show ?thesis by simp
  next
    case (JArr vs)
    with JInt(1) value_kinds(3) show ?thesis by simp
  next
    case w: (JInt m)
    with int_text_unique [of n r m r'] JInt show ?thesis by simp
  qed
next
  case (JStr s)
  then obtain t where t: "w = JStr t"
    using value_kinds(2) by (cases w) (auto simp: json_string_def json_array_def dest: sym)
  with JStr have "concat (map json_char s) @ CHR 0x22 # r = concat (map json_char t) @ CHR 0x22 # r'"
    by (simp add: json_string_def)
  from json_body_unique [OF this] t show ?case by simp
next
  case (JArr vs)
  have tails: "json_tail us @ '']'' @ x = json_tail ws @ '']'' @ y \<Longrightarrow> us = ws \<and> x = y" if "set us \<subseteq> set vs" for us ws x y
    using that
  proof (induction us arbitrary: ws)
    case Nil
    then show ?case by (cases ws) simp_all
  next
    case (Cons u us)
    then obtain w ws' where ws: "ws = w # ws'" by (cases ws) simp_all
    with Cons.prems(1) have "json_text u @ json_tail us @ '']'' @ x = json_text w @ json_tail ws' @ '']'' @ y" by simp
    with JArr.IH [of u] Cons.prems(2) digit_free_tail have "u = w \<and> json_tail us @ '']'' @ x = json_tail ws' @ '']'' @ y" by auto
    with Cons.IH [of ws'] Cons.prems(2) ws show ?case by simp
  qed
  obtain ws where w: "w = JArr ws" using JArr.prems(1) value_kinds(3) by (cases w) (auto simp: json_string_def json_array_def dest: sym)
  have eq: "join '','' (map json_text vs) @ '']'' @ r = join '','' (map json_text ws) @ '']'' @ r'"
    using JArr.prems by (simp add: w json_array_def)
  show ?case
  proof (cases vs)
    case Nil
    show ?thesis
    proof (cases ws)
      case (Cons w' ws')
      obtain c cs where "json_text w' = c # cs" "c \<noteq> CHR '']''" using json_first by blast
      with eq show ?thesis unfolding Cons Nil join_tail by simp
    qed (use eq w Nil in simp)
  next
    case (Cons u us)
    show ?thesis
    proof (cases ws)
      case Nil
      obtain c cs where "json_text u = c # cs" "c \<noteq> CHR '']''" using json_first by blast
      with eq show ?thesis unfolding Cons Nil join_tail by simp
    next
      case ws: (Cons w' ws')
      from eq have "json_text u @ json_tail us @ '']'' @ r = json_text w' @ json_tail ws' @ '']'' @ r'"
        unfolding Cons ws join_tail by simp
      then have "u = w' \<and> json_tail us @ '']'' @ r = json_tail ws' @ '']'' @ r'"
        by (intro JArr.IH [of u] digit_free_tail) (simp_all add: Cons)
      then have "u = w'" "json_tail us @ '']'' @ r = json_tail ws' @ '']'' @ r'" by simp_all
      with tails [of us r ws' r'] w ws Cons show ?thesis by auto
    qed
  qed
qed

lemma json_text_inj: "json_text v = json_text w \<longleftrightarrow> v = w"
  using json_text_unique [of v "[]" w "[]"] by (auto simp: digit_free_def)

section \<open>Digests\<close>

text \<open>\<open>digest("hex")\<close>.\<close>

definition hex_text :: "nat list \<Rightarrow> string" where
  "hex_text bytes = concat (map (\<lambda>b. [hex_digit (b div 16), hex_digit (b mod 16)]) bytes)"

end
