(* ===== verification/JS_Date.thy ===== *)
theory JS_Date
  imports JS_Text
begin

text \<open>
  \<open>Date.prototype.toISOString\<close> on instants, and that its day and the whole text determine the day and
  the instant: the idempotency keys of the schedulers are built from them.
\<close>

section \<open>The text\<close>

text \<open>The civil date of a number of days since 1970, in eras of 400 years that begin in March.\<close>

definition year_of_era :: "int \<Rightarrow> int" where
  "year_of_era doe = (doe - doe div 1460 + doe div 36524 - doe div 146096) div 365"

definition days_before :: "int \<Rightarrow> int" where
  "days_before yoe = 365 * yoe + yoe div 4 - yoe div 100"

definition civil :: "int \<Rightarrow> int \<times> int \<times> int" where
  "civil days =
     (let z = days + 719468; era = z div 146097; doe = z mod 146097; yoe = year_of_era doe;
          doy = doe - days_before yoe; mp = (5 * doy + 2) div 153; d = doy - (153 * mp + 2) div 5 + 1;
          m = (if mp < 10 then mp + 3 else mp - 9)
      in (yoe + era * 400 + (if m \<le> 2 then 1 else 0), m, d))"

definition padded :: "nat \<Rightarrow> int \<Rightarrow> string" where
  "padded k n = (let ds = nat_digits (nat n) in replicate (k - length ds) CHR ''0'' @ ds)"

definition date_text :: "int \<Rightarrow> string" where
  "date_text days = (case civil days of (y, m, d) \<Rightarrow>
     (if 0 \<le> y \<and> y \<le> 9999 then padded 4 y else (if y < 0 then ''-'' else ''+'') @ padded 6 \<bar>y\<bar>) @
     ''-'' @ padded 2 m @ ''-'' @ padded 2 d)"

definition time_text :: "int \<Rightarrow> string" where
  "time_text ms = padded 2 (ms div 3600000) @ '':'' @ padded 2 (ms div 60000 mod 60) @ '':'' @ padded 2 (ms div 1000 mod 60) @
     ''.'' @ padded 3 (ms mod 1000)"

definition toISOString :: "int \<Rightarrow> string" where
  "toISOString t = date_text (t div 86400000) @ ''T'' @ time_text (t mod 86400000) @ ''Z''"

section \<open>The calendar\<close>

definition days_from_civil :: "int \<times> int \<times> int \<Rightarrow> int" where
  "days_from_civil ymd = (case ymd of (y, m, d) \<Rightarrow>
     let y' = (if m \<le> 2 then y - 1 else y); doy = (153 * (if m > 2 then m - 3 else m + 9) + 2) div 5 + d - 1
     in y' div 400 * 146097 + days_before (y' mod 400) + doy - 719468)"

lemma year_of_era_mono:
  assumes "x \<le> y"
  shows "year_of_era x \<le> year_of_era y"
proof -
  have leap: "n div 146096 = n div 36524 div 4" for n :: int using div_mult2_eq' [of n 36524 4] by simp
  have "x div 36524 \<le> y div 36524" using assms by (rule zdiv_mono1) simp
  then have quarters: "y div 36524 div 4 - x div 36524 div 4 \<le> y div 36524 - x div 36524" by linarith
  have "y div 1460 - x div 1460 \<le> y - x" using assms by linarith
  with quarters have "x - x div 1460 + x div 36524 - x div 36524 div 4 \<le> y - y div 1460 + y div 36524 - y div 36524 div 4" by linarith
  then show ?thesis unfolding year_of_era_def leap by (rule zdiv_mono1) simp
qed

lemma years_table: "list_all (\<lambda>q. year_of_era (days_before q) = q \<and> year_of_era (days_before (q + 1) - 1) = q) [0..399]"
  by code_simp

lemma year_bounds:
  assumes "0 \<le> q" "q < 400"
  shows "year_of_era (days_before q) = q" "year_of_era (days_before (q + 1) - 1) = q"
  using years_table assms by (simp_all add: list_all_iff)

lemma year_of_era_range:
  assumes "0 \<le> doe" "doe < 146097"
  shows "0 \<le> year_of_era doe" "year_of_era doe < 400"
proof -
  have "year_of_era 0 = 0" "year_of_era 146096 = 399" by code_simp+
  then show "0 \<le> year_of_era doe" "year_of_era doe < 400"
    using year_of_era_mono [of 0 doe] year_of_era_mono [of doe 146096] assms by simp_all
qed

lemma day_of_year_range:
  assumes "0 \<le> doe" "doe < 146097"
  shows "0 \<le> doe - days_before (year_of_era doe)" "doe - days_before (year_of_era doe) \<le> 365"
proof -
  let ?q = "year_of_era doe"
  note q = year_of_era_range [OF assms]
  show "0 \<le> doe - days_before ?q"
  proof (rule ccontr)
    assume "\<not> 0 \<le> doe - days_before ?q"
    then have less: "doe \<le> days_before ?q - 1" by simp
    moreover have "?q \<noteq> 0" using less assms by (auto simp: days_before_def)
    ultimately show False using year_of_era_mono [OF less] year_bounds(2) [of "?q - 1"] q by simp
  qed
  have "doe < days_before (?q + 1)" if "?q \<noteq> 399"
  proof (rule ccontr)
    assume "\<not> doe < days_before (?q + 1)"
    then have more: "days_before (?q + 1) \<le> doe" by simp
    then show False using year_of_era_mono [OF more] year_bounds(1) [of "?q + 1"] q that by simp
  qed
  moreover have "(?q + 1) div 4 \<le> ?q div 4 + 1" "?q div 100 \<le> (?q + 1) div 100" by (linarith, rule zdiv_mono1, simp_all)
  then have "days_before (?q + 1) \<le> days_before ?q + 366" by (simp add: days_before_def)
  moreover have "days_before 399 = 145731" by (simp add: days_before_def)
  ultimately show "doe - days_before ?q \<le> 365" using assms(2) by (cases "?q = 399") auto
qed

lemma civil_range:
  assumes "civil days = (y, m, d)"
  shows "1 \<le> m" "m \<le> 12" "1 \<le> d" "d \<le> 31" "0 \<le> days \<Longrightarrow> 0 \<le> y" "days < 2700000 \<Longrightarrow> y \<le> 9999"
proof -
  define doe where "doe = (days + 719468) mod 146097"
  have doe: "0 \<le> doe" "doe < 146097" by (simp_all add: doe_def)
  define doy where "doy = doe - days_before (year_of_era doe)"
  define mp where "mp = (5 * doy + 2) div 153"
  have doy: "0 \<le> doy" "doy \<le> 365" using day_of_year_range [OF doe] by (simp_all add: doy_def)
  then have mp: "0 \<le> mp" "mp \<le> 11" unfolding mp_def by linarith+
  have m: "m = (if mp < 10 then mp + 3 else mp - 9)" and d: "d = doy - (153 * mp + 2) div 5 + 1"
    and y: "y = year_of_era doe + (days + 719468) div 146097 * 400 + (if m \<le> 2 then 1 else 0)"
    using assms unfolding civil_def Let_def doe_def [symmetric] doy_def [symmetric] mp_def [symmetric] by auto
  show "1 \<le> m" "m \<le> 12" using m mp by auto
  show "1 \<le> d" "d \<le> 31" unfolding d mp_def by linarith+
  note q = year_of_era_range [OF doe]
  have "0 \<le> days \<Longrightarrow> 0 \<le> (days + 719468) div 146097" "days < 2700000 \<Longrightarrow> (days + 719468) div 146097 \<le> 23" by linarith+
  then show "0 \<le> days \<Longrightarrow> 0 \<le> y" "days < 2700000 \<Longrightarrow> y \<le> 9999" using q unfolding y by (auto split: if_splits)
qed

lemma civil_days: "days_from_civil (civil days) = days"
proof -
  define z where "z = days + 719468"
  define doe where "doe = z mod 146097"
  have doe: "0 \<le> doe" "doe < 146097" by (simp_all add: doe_def)
  define q where "q = year_of_era doe"
  define doy where "doy = doe - days_before q"
  define mp where "mp = (5 * doy + 2) div 153"
  have doy: "0 \<le> doy" "doy \<le> 365" using day_of_year_range [OF doe] by (simp_all add: doy_def q_def)
  then have mp: "0 \<le> mp" "mp \<le> 11" unfolding mp_def by linarith+
  have q: "0 \<le> q" "q < 400" using year_of_era_range [OF doe] by (simp_all add: q_def)
  let ?m = "if mp < 10 then mp + 3 else mp - 9"
  have civil: "civil days = (q + z div 146097 * 400 + (if ?m \<le> 2 then 1 else 0), ?m, doy - (153 * mp + 2) div 5 + 1)"
    by (simp only: civil_def Let_def z_def doe_def q_def doy_def mp_def)
  have month: "(if ?m > 2 then ?m - 3 else ?m + 9) = mp" using mp by auto
  have era: "(q + e * 400) div 400 = e" "(q + e * 400) mod 400 = q" for e using q by simp_all
  have year: "(if ?m \<le> 2 then q + z div 146097 * 400 + (if ?m \<le> 2 then 1 else 0) - 1 else q + z div 146097 * 400 + (if ?m \<le> 2 then 1 else 0)) =
    q + z div 146097 * 400" by simp
  have "z div 146097 * 146097 + doe = z" by (simp add: doe_def)
  then show ?thesis unfolding civil days_from_civil_def prod.case Let_def month year era by (simp add: doy_def z_def)
qed

section \<open>Padded digits\<close>

lemma digits_value_zeros: "digits_value (replicate k CHR ''0'' @ ds) = digits_value ds"
proof -
  have "foldl (\<lambda>v c. v * 10 + (of_char c - 48)) 0 (replicate k CHR ''0'') = (0 :: nat)" by (induction k) simp_all
  then show ?thesis by (simp add: digits_value_def)
qed

lemma padded_value: "0 \<le> n \<Longrightarrow> int (digits_value (padded k n)) = n"
  by (simp add: padded_def Let_def digits_value_zeros digits_value_nat)

lemma padded_eq: "0 \<le> m \<Longrightarrow> 0 \<le> n \<Longrightarrow> padded k m = padded k n \<longleftrightarrow> m = n"
  using padded_value by metis

lemma padded_digits: "list_all is_digit (padded k n)"
proof -
  have "is_digit CHR ''0''" by (simp add: is_digit_def code_in_def)
  then show ?thesis using nat_digits_digits [of "nat n"] by (auto simp: padded_def Let_def list_all_iff)
qed

lemma length_padded: "0 \<le> n \<Longrightarrow> n < 10 ^ k \<Longrightarrow> 0 < k \<Longrightarrow> length (padded k n) = k"
  using length_nat_digits [of "nat n" k] by (simp add: padded_def Let_def nat_less_iff)

section \<open>What the text determines\<close>

text \<open>Instants from 1970 to the year 6429.\<close>

definition plain_instant :: "int \<Rightarrow> bool" where
  "plain_instant t \<longleftrightarrow> 0 \<le> t \<and> t < 2 ^ 47"

lemma plain_days:
  assumes "plain_instant t"
  shows "0 \<le> t div 86400000" "t div 86400000 < 2700000"
proof -
  have "0 \<le> t" "t < 140737488355328" using assms by (simp_all add: plain_instant_def)
  then show "0 \<le> t div 86400000" "t div 86400000 < 2700000" by linarith+
qed

lemma date_text_parts:
  assumes "0 \<le> days" "days < 2700000" "civil days = (y, m, d)"
  shows "date_text days = padded 4 y @ ''-'' @ padded 2 m @ ''-'' @ padded 2 d"
    "length (padded 4 y) = 4" "length (padded 2 m) = 2" "length (padded 2 d) = 2" "0 \<le> y" "0 \<le> m" "0 \<le> d"
  using civil_range [OF assms(3)] assms by (simp_all add: date_text_def length_padded)

lemma length_date_text:
  assumes "0 \<le> days" "days < 2700000"
  shows "length (date_text days) = 10"
  using date_text_parts [OF assms] by (cases "civil days") simp

lemma date_text_chars:
  assumes "0 \<le> days" "days < 2700000"
  shows "list_all (\<lambda>c. is_digit c \<or> c = CHR ''-'') (date_text days)"
proof -
  obtain y m d where ymd: "civil days = (y, m, d)" by (metis prod_cases3)
  show ?thesis
    using padded_digits [of 4 y] padded_digits [of 2 m] padded_digits [of 2 d]
    by (simp add: date_text_parts(1) [OF assms ymd] list_all_iff) blast
qed

lemma date_text_inj:
  assumes "0 \<le> a" "a < 2700000" "0 \<le> b" "b < 2700000" "date_text a = date_text b"
  shows "a = b"
proof -
  obtain y m d y' m' d' where a: "civil a = (y, m, d)" and b: "civil b = (y', m', d')" by (metis prod_cases3)
  note A = date_text_parts [OF assms(1,2) a] and B = date_text_parts [OF assms(3,4) b]
  from assms(5) have "padded 4 y = padded 4 y'" "padded 2 m = padded 2 m'" "padded 2 d = padded 2 d'"
    using A(2-4) B(2-4) by (simp_all add: A(1) B(1))
  with A(5-7) B(5-7) have "civil a = civil b" by (simp add: a b padded_eq)
  then show ?thesis using civil_days by metis
qed

lemma day_of_text: "plain_instant t \<Longrightarrow> take 10 (toISOString t) = date_text (t div 86400000)"
  using length_date_text [OF plain_days] by (simp add: toISOString_def)

lemma day_text_eq:
  assumes "plain_instant s" "plain_instant t"
  shows "take 10 (toISOString s) = take 10 (toISOString t) \<longleftrightarrow> s div 86400000 = t div 86400000"
  using date_text_inj [OF plain_days [OF assms(1)] plain_days [OF assms(2)]] by (auto simp: day_of_text assms)

lemma time_parts:
  assumes "0 \<le> ms" "ms < 86400000"
  shows "length (padded 2 (ms div 3600000)) = 2" "length (padded 2 (ms div 60000 mod 60)) = 2" "length (padded 2 (ms div 1000 mod 60)) = 2"
    "length (padded 3 (ms mod 1000)) = 3"
proof -
  have "0 \<le> ms div 3600000" "ms div 3600000 < 100" using assms by linarith+
  moreover have "0 \<le> k mod 60" "k mod 60 < 100" for k :: int by (simp, rule less_trans [OF pos_mod_bound], simp_all)
  ultimately show "length (padded 2 (ms div 3600000)) = 2" "length (padded 2 (ms div 60000 mod 60)) = 2" "length (padded 2 (ms div 1000 mod 60)) = 2"
    "length (padded 3 (ms mod 1000)) = 3" by (simp_all add: length_padded)
qed

lemma clock_parts:
  fixes a b :: int
  assumes "a div 3600000 = b div 3600000" "a div 60000 mod 60 = b div 60000 mod 60" "a div 1000 mod 60 = b div 1000 mod 60"
    "a mod 1000 = b mod 1000"
  shows "a = b"
proof -
  have joined: "x = y" if "x div k = y div k" "x mod k = y mod k" for x y k :: int using that by (metis div_mult_mod_eq)
  have nested: "x div 60000 div 60 = x div 3600000" "x div 1000 div 60 = x div 60000" for x :: int
    by (simp_all add: zdiv_zmult2_eq [symmetric])
  have "a div 60000 = b div 60000" by (rule joined [of _ 60]) (simp_all only: nested assms)
  then have "a div 1000 div 60 = b div 1000 div 60" by (simp only: nested)
  then have "a div 1000 = b div 1000" using assms(3) by (rule joined)
  then show ?thesis using assms(4) by (rule joined)
qed

lemma separated_parts:
  "length p = length p' \<Longrightarrow> length q = length q' \<Longrightarrow> length r = length r' \<Longrightarrow>
   p @ '':'' @ q @ '':'' @ r @ ''.'' @ s = p' @ '':'' @ q' @ '':'' @ r' @ ''.'' @ s' \<longleftrightarrow> p = p' \<and> q = q' \<and> r = r' \<and> s = s'"
  by simp

lemma separated_texts:
  "length p = 2 \<Longrightarrow> length q = 2 \<Longrightarrow> length r = 2 \<Longrightarrow> length s = 3 \<Longrightarrow> length (p @ '':'' @ q @ '':'' @ r @ ''.'' @ s) = 12"
  "list_all P p \<Longrightarrow> list_all P q \<Longrightarrow> list_all P r \<Longrightarrow> list_all P s \<Longrightarrow> P CHR '':'' \<Longrightarrow> P CHR ''.'' \<Longrightarrow>
   list_all P (p @ '':'' @ q @ '':'' @ r @ ''.'' @ s)"
  by simp_all

lemma length_time_text:
  assumes "0 \<le> ms" "ms < 86400000"
  shows "length (time_text ms) = 12"
  unfolding time_text_def by (rule separated_texts(1)) (rule time_parts [OF assms])+

lemma time_text_chars: "(\<And>c. is_digit c \<Longrightarrow> P c) \<Longrightarrow> P CHR '':'' \<Longrightarrow> P CHR ''.'' \<Longrightarrow> list_all P (time_text ms)"
  unfolding time_text_def by (rule separated_texts(2); (rule list.pred_mono_strong [OF padded_digits])?) simp_all

lemma time_text_inj:
  assumes "0 \<le> a" "a < 86400000" "0 \<le> b" "b < 86400000" "time_text a = time_text b"
  shows "a = b"
proof -
  note A = time_parts [OF assms(1,2)] and B = time_parts [OF assms(3,4)]
  have "padded 2 (a div 3600000) = padded 2 (b div 3600000) \<and> padded 2 (a div 60000 mod 60) = padded 2 (b div 60000 mod 60) \<and>
    padded 2 (a div 1000 mod 60) = padded 2 (b div 1000 mod 60) \<and> padded 3 (a mod 1000) = padded 3 (b mod 1000)"
    by (rule iffD1 [OF separated_parts assms(5) [unfolded time_text_def]]) (simp_all only: A B)
  moreover have "0 \<le> a div 3600000" "0 \<le> b div 3600000" using assms(1,3) by linarith+
  moreover have "0 \<le> x mod 60" "0 \<le> x mod 1000" for x :: int by simp_all
  ultimately show "a = b" using clock_parts [of a b] by (simp only: padded_eq)
qed

text \<open>The text determines the instant.\<close>

lemma toISOString_inj:
  assumes "plain_instant s" "plain_instant t" "toISOString s = toISOString t"
  shows "s = t"
proof -
  have "s div 86400000 = t div 86400000" using assms day_text_eq by metis
  moreover from this have "time_text (s mod 86400000) = time_text (t mod 86400000)" using assms(3) by (simp add: toISOString_def)
  then have "s mod 86400000 = t mod 86400000" by (intro time_text_inj) simp_all
  ultimately show ?thesis by (metis div_mult_mod_eq)
qed

end
