(* ===== verification/Credential_Encryption.thy ===== *)
theory Credential_Encryption
  imports JS_Date "HOL-Library.Word"
begin

text \<open>
  \<open>packages/db/src/credential-encryption.ts\<close>: the envelope a credential is stored in.  A fresh data
  key seals the token, the master key seals the data key, and both are bound to the row by associated
  data.  The cipher (AES-256-GCM) is a parameter, as are the random bytes of a call.  A token is
  given by its UTF-8 bytes.
\<close>

type_synonym bytes = "8 word list"

section \<open>Texts as bytes\<close>

text \<open>UTF-8 of a code unit below U+0100.\<close>

definition utf8_char :: "char \<Rightarrow> bytes" where
  "utf8_char c = (let n = of_char c :: nat in
     if n < 128 then [of_nat n] else [of_nat (192 + n div 64), of_nat (128 + n mod 64)])"

definition utf8 :: "string \<Rightarrow> bytes" where
  "utf8 s = concat (map utf8_char s)"

text \<open>Base 64: sextets of up to three bytes, and the characters of the alphabet.\<close>

definition base64_char :: "nat \<Rightarrow> char" where
  "base64_char n = char_of (if n < 26 then 65 + n else if n < 52 then 71 + n else if n < 62 then n - 4
     else if n = 62 then 43 else 47)"

fun base64_encode :: "bytes \<Rightarrow> string" where
  "base64_encode [] = []"
| "base64_encode [a] = (let x = unat a in [base64_char (x div 4), base64_char (x mod 4 * 16), CHR ''='', CHR ''=''])"
| "base64_encode [a, b] = (let x = unat a; y = unat b in
     [base64_char (x div 4), base64_char (x mod 4 * 16 + y div 16), base64_char (y mod 16 * 4), CHR ''=''])"
| "base64_encode (a # b # c # rest) = (let x = unat a; y = unat b; z = unat c in
     [base64_char (x div 4), base64_char (x mod 4 * 16 + y div 16), base64_char (y mod 16 * 4 + z div 64), base64_char (z mod 64)] @
     base64_encode rest)"

text \<open>The decoder of the platform takes both alphabets and skips every other character.\<close>

definition base64_value :: "char \<Rightarrow> nat option" where
  "base64_value c = (let n = of_char c :: nat in
     if 65 \<le> n \<and> n \<le> 90 then Some (n - 65) else if 97 \<le> n \<and> n \<le> 122 then Some (n - 71)
     else if 48 \<le> n \<and> n \<le> 57 then Some (n + 4) else if n = 43 \<or> n = 45 then Some 62
     else if n = 47 \<or> n = 95 then Some 63 else None)"

fun from_sextets :: "nat list \<Rightarrow> bytes" where
  "from_sextets (p # q # r # s # rest) =
     of_nat (p * 4 + q div 16) # of_nat (q mod 16 * 16 + r div 4) # of_nat (r mod 4 * 64 + s) # from_sextets rest"
| "from_sextets [p, q, r] = [of_nat (p * 4 + q div 16), of_nat (q mod 16 * 16 + r div 4)]"
| "from_sextets [p, q] = [of_nat (p * 4 + q div 16)]"
| "from_sextets _ = []"

definition base64_decode :: "string \<Rightarrow> bytes" where
  "base64_decode s = from_sextets (List.map_filter base64_value s)"

section \<open>The envelope\<close>

record aead =
  seal :: "bytes \<Rightarrow> bytes \<Rightarrow> bytes \<Rightarrow> bytes \<Rightarrow> bytes \<times> bytes"  \<comment> \<open>key, nonce, associated data, text: ciphertext and tag\<close>
  unseal :: "bytes \<Rightarrow> bytes \<Rightarrow> bytes \<Rightarrow> bytes \<Rightarrow> bytes \<Rightarrow> bytes option"  \<comment> \<open>key, nonce, associated data, tag, ciphertext\<close>

definition FORMAT_VERSION :: nat where "FORMAT_VERSION = 1"
definition KEY_BYTES :: nat where "KEY_BYTES = 32"
definition IV_BYTES :: nat where "IV_BYTES = 12"
definition TAG_BYTES :: nat where "TAG_BYTES = 16"
definition HEADER_BYTES :: nat where "HEADER_BYTES = 1 + 4"
definition WRAPPED_OFFSET :: nat where "WRAPPED_OFFSET = HEADER_BYTES + IV_BYTES"
definition WRAPPED_TAG_OFFSET :: nat where "WRAPPED_TAG_OFFSET = WRAPPED_OFFSET + KEY_BYTES"
definition PAYLOAD_IV_OFFSET :: nat where "PAYLOAD_IV_OFFSET = WRAPPED_TAG_OFFSET + TAG_BYTES"
definition PAYLOAD_TAG_OFFSET :: nat where "PAYLOAD_TAG_OFFSET = PAYLOAD_IV_OFFSET + IV_BYTES"
definition CIPHERTEXT_OFFSET :: nat where "CIPHERTEXT_OFFSET = PAYLOAD_TAG_OFFSET + TAG_BYTES"

lemmas offset_defs = KEY_BYTES_def IV_BYTES_def TAG_BYTES_def HEADER_BYTES_def WRAPPED_OFFSET_def
  WRAPPED_TAG_OFFSET_def PAYLOAD_IV_OFFSET_def PAYLOAD_TAG_OFFSET_def CIPHERTEXT_OFFSET_def

record encryption_context =
  ec_accountId :: string
  ec_integrationType :: string
  ec_workspaceId :: string

text \<open>What the module raises; writing a key version beyond 32 bits is a range error of the platform.\<close>

datatype encryption_error = CredentialEncryptionError string | RangeError

definition assertMasterKey :: "bytes \<Rightarrow> encryption_error option" where
  "assertMasterKey masterKey =
     (if length masterKey \<noteq> KEY_BYTES then Some (CredentialEncryptionError ''MASTER_KEY_LENGTH_INVALID'') else None)"

definition length_prefixed :: "string \<Rightarrow> string" where
  "length_prefixed part = nat_digits (length part) @ '':'' @ part"

definition additionalData :: "encryption_context \<Rightarrow> bytes" where
  "additionalData context = utf8 (join ''|'' (map length_prefixed
     [ec_workspaceId context, ec_integrationType context, ec_accountId context]))"

definition uint32_be :: "nat \<Rightarrow> bytes" where
  "uint32_be n = map (\<lambda>i. of_nat (n div 256 ^ i)) [3, 2, 1, 0]"

definition read_uint32_be :: "bytes \<Rightarrow> nat" where
  "read_uint32_be bs = foldl (\<lambda>n b. n * 256 + unat b) 0 bs"

definition encryptCredential :: "aead \<Rightarrow> encryption_context \<Rightarrow> js_num \<Rightarrow> bytes \<Rightarrow> bytes \<Rightarrow> bytes \<Rightarrow> bytes \<Rightarrow> bytes \<Rightarrow>
    encryption_error + string \<times> js_num" where
  "encryptCredential gcm context keyVersion masterKey plaintext dataKey payloadIv wrapIv =
     (case assertMasterKey masterKey of Some e \<Rightarrow> Inl e
      | None \<Rightarrow>
          if \<not> isInteger keyVersion \<or> jlt keyVersion (jint 1) then Inl (CredentialEncryptionError ''KEY_VERSION_INVALID'')
          else if plaintext = [] then Inl (CredentialEncryptionError ''PLAINTEXT_EMPTY'')
          else
            let aad = additionalData context;
                (ciphertext, payloadTag) = seal gcm dataKey payloadIv aad plaintext;
                (wrappedKey, wrapTag) = seal gcm masterKey wrapIv aad dataKey
            in if jgt keyVersion (jint (2 ^ 32 - 1)) then Inl RangeError
               else Inr (base64_encode (of_nat FORMAT_VERSION # uint32_be (nat (num_int keyVersion)) @ wrapIv @ wrappedKey @
                      wrapTag @ payloadIv @ payloadTag @ ciphertext), keyVersion))"

text \<open>\<open>subarray(start, end)\<close>.\<close>

definition subarray :: "nat \<Rightarrow> nat \<Rightarrow> bytes \<Rightarrow> bytes" where
  "subarray i j bs = take (j - i) (drop i bs)"

definition decryptCredential :: "aead \<Rightarrow> encryption_context \<Rightarrow> (nat \<Rightarrow> bytes option) \<Rightarrow> string \<Rightarrow> encryption_error + bytes" where
  "decryptCredential gcm context masterKeys sealed =
     (let envelope = base64_decode sealed in
      if length envelope \<le> CIPHERTEXT_OFFSET then Inl (CredentialEncryptionError ''ENVELOPE_MALFORMED'')
      else if unat (envelope ! 0) \<noteq> FORMAT_VERSION then Inl (CredentialEncryptionError ''ENVELOPE_VERSION_UNSUPPORTED'')
      else case masterKeys (read_uint32_be (subarray 1 HEADER_BYTES envelope)) of
          None \<Rightarrow> Inl (CredentialEncryptionError ''KEY_VERSION_UNAVAILABLE'')
        | Some masterKey \<Rightarrow>
            (case assertMasterKey masterKey of Some e \<Rightarrow> Inl e
             | None \<Rightarrow>
                 let aad = additionalData context;
                     wrapIv = subarray HEADER_BYTES WRAPPED_OFFSET envelope;
                     wrappedKey = subarray WRAPPED_OFFSET WRAPPED_TAG_OFFSET envelope;
                     wrapTag = subarray WRAPPED_TAG_OFFSET PAYLOAD_IV_OFFSET envelope;
                     payloadIv = subarray PAYLOAD_IV_OFFSET PAYLOAD_TAG_OFFSET envelope;
                     payloadTag = subarray PAYLOAD_TAG_OFFSET CIPHERTEXT_OFFSET envelope;
                     ciphertext = drop CIPHERTEXT_OFFSET envelope
                 in case unseal gcm masterKey wrapIv aad wrapTag wrappedKey of
                     None \<Rightarrow> Inl (CredentialEncryptionError ''AUTHENTICATION_FAILED'')
                   | Some dataKey \<Rightarrow>
                       if length dataKey \<noteq> KEY_BYTES then Inl (CredentialEncryptionError ''DATA_KEY_LENGTH_INVALID'')
                       else (case unseal gcm dataKey payloadIv aad payloadTag ciphertext of
                           None \<Rightarrow> Inl (CredentialEncryptionError ''AUTHENTICATION_FAILED'')
                         | Some plaintext \<Rightarrow> Inr plaintext)))"

definition hashGrantedScopes :: "(string \<Rightarrow> bytes) \<Rightarrow> string list \<Rightarrow> string" where
  "hashGrantedScopes sha256 scopes =
     hex_text (map unat (sha256 (join '','' (sort (remdups (filter (\<lambda>s. s \<noteq> []) (map trim scopes)))))))"

text \<open>\<open>timingSafeEqual\<close> raises on buffers of different lengths.\<close>

definition scopeHashesMatch :: "string \<Rightarrow> string \<Rightarrow> encryption_error + bool" where
  "scopeHashesMatch left right =
     (if length left \<noteq> length right then Inr False
      else if length (utf8 left) \<noteq> length (utf8 right) then Inl RangeError
      else Inr (utf8 left = utf8 right))"

definition decodeMasterKey :: "string \<Rightarrow> encryption_error + bytes" where
  "decodeMasterKey base64Key = (let key = base64_decode base64Key in
     case assertMasterKey key of Some e \<Rightarrow> Inl e | None \<Rightarrow> Inr key)"

section \<open>The codecs lose nothing\<close>

lemma base64_value_char: "n < 64 \<Longrightarrow> base64_value (base64_char n) = Some n"
  by (auto simp: base64_value_def base64_char_def Let_def)

lemma base64_value_pad: "base64_value CHR ''='' = None"
  by (simp add: base64_value_def)

lemma sextets:
  assumes "x < 256" "y < 256" "z < (256 :: nat)"
  shows "x div 4 < 64" "x mod 4 * 16 + y div 16 < 64" "x mod 4 * 16 < 64" "y mod 16 * 4 + z div 64 < 64" "y mod 16 * 4 < 64"
    "z mod 64 < 64"
  using assms by linarith+

lemma octets:
  assumes "y < 256" "z < (256 :: nat)"
  shows "x div 4 * 4 + (x mod 4 * 16 + y div 16) div 16 = x" "x div 4 * 4 + x mod 4 * 16 div 16 = x"
    "(x mod 4 * 16 + y div 16) mod 16 * 16 + (y mod 16 * 4 + z div 64) div 4 = y"
    "(x mod 4 * 16 + y div 16) mod 16 * 16 + y mod 16 * 4 div 4 = y"
proof -
  have "y div 16 < 16" "z div 64 < 4" using assms by linarith+
  then show "x div 4 * 4 + (x mod 4 * 16 + y div 16) div 16 = x" "x div 4 * 4 + x mod 4 * 16 div 16 = x"
    "(x mod 4 * 16 + y div 16) mod 16 * 16 + (y mod 16 * 4 + z div 64) div 4 = y"
    "(x mod 4 * 16 + y div 16) mod 16 * 16 + y mod 16 * 4 div 4 = y" by simp_all
qed

lemma last_octet: "z < 256 \<Longrightarrow> (y mod 16 * 4 + z div 64) mod 4 * 64 + z mod 64 = (z :: nat)"
proof -
  assume "z < 256"
  then have "z div 64 < 4" by linarith
  then show ?thesis by simp
qed

lemma unat_byte: "unat (a :: 8 word) < 256"
  using unsigned_less [of a, where 'a = nat] by simp

lemma base64_round_trip: "base64_decode (base64_encode bs) = bs"
proof -
  have "from_sextets (List.map_filter base64_value (base64_encode bs)) = bs"
  proof (induction bs rule: base64_encode.induct)
    case (2 a)
    show ?case using sextets [of "unat a" 0 0] octets [of 0 0 "unat a"] unat_byte [of a]
      by (simp add: List.map_filter_simps base64_value_char base64_value_pad Let_def)
  next
    case (3 a b)
    show ?case using sextets [of "unat a" "unat b" 0] octets [of "unat b" 0 "unat a"] unat_byte [of a] unat_byte [of b]
      by (simp add: List.map_filter_simps base64_value_char base64_value_pad Let_def)
  next
    case (4 a b c rest)
    then show ?case
      using sextets [of "unat a" "unat b" "unat c"] octets [of "unat b" "unat c" "unat a"] last_octet [of "unat c" "unat b"]
        unat_byte [of a] unat_byte [of b] unat_byte [of c]
      by (simp add: List.map_filter_simps base64_value_char Let_def)
  qed (simp add: List.map_filter_simps)
  then show ?thesis by (simp add: base64_decode_def)
qed

lemma base64_nonempty: "bs \<noteq> [] \<Longrightarrow> base64_encode bs \<noteq> []"
  by (cases bs rule: base64_encode.cases) (simp_all add: Let_def)

lemma read_uint32:
  assumes "n < 2 ^ 32"
  shows "read_uint32_be (uint32_be n) = n"
proof -
  have "n div 16777216 = n div 65536 div 256" "n div 65536 = n div 256 div 256" by (simp_all add: div_mult2_eq [symmetric])
  then have "16777216 * (n div 16777216) + 65536 * (n div 65536 mod 256) + n div 256 mod 256 * 256 + n mod 256 = n"
    using div_mult_mod_eq [of n 256] div_mult_mod_eq [of "n div 256" 256] div_mult_mod_eq [of "n div 65536" 256] by linarith
  with assms show ?thesis by (simp add: read_uint32_be_def uint32_be_def unat_of_nat take_bit_eq_mod)
qed

lemma length_uint32 [simp]: "length (uint32_be n) = 4"
  by (simp add: uint32_be_def)

section \<open>Distinct rows have distinct bindings\<close>

lemma unat_byte_of_nat: "k < 256 \<Longrightarrow> unat (of_nat k :: 8 word) = k"
  by (simp add: unat_of_nat take_bit_eq_mod)

lemma byte_eq: "j < 256 \<Longrightarrow> k < 256 \<Longrightarrow> of_nat j = (of_nat k :: 8 word) \<longleftrightarrow> j = k"
  using unat_byte_of_nat [of j] unat_byte_of_nat [of k] by metis

lemma utf8_char_nonempty [simp]: "utf8_char c \<noteq> []"
  by (simp add: utf8_char_def Let_def)

lemma utf8_unique:
  assumes "utf8_char c @ r = utf8_char d @ r'"
  shows "c = d \<and> r = r'"
proof -
  define m n where "m = (of_char c :: nat)" and "n = (of_char d :: nat)"
  have chars: "c = char_of m" "d = char_of n" and bound: "m < 256" "n < 256" by (simp_all add: m_def n_def)
  have small: "192 + k div 64 < 256" "128 + k mod 64 < 256" if "k < 256" for k :: nat using that by linarith+
  note bytes = byte_eq [OF bound] byte_eq [OF small(1) [OF bound(1)] bound(2)] byte_eq [OF bound(1) small(1) [OF bound(2)]]
    byte_eq [OF small(1) [OF bound(1)] small(1) [OF bound(2)]] byte_eq [OF small(2) [OF bound(1)] small(2) [OF bound(2)]]
  have joined: "m div 64 = n div 64 \<Longrightarrow> m mod 64 = n mod 64 \<Longrightarrow> m = n" by (metis div_mult_mod_eq)
  note eq = assms [unfolded utf8_char_def Let_def, folded m_def n_def]
  consider "m < 128" "n < 128" | "m < 128" "\<not> n < 128" | "\<not> m < 128" "n < 128" | "\<not> m < 128" "\<not> n < 128" by blast
  then have "m = n \<and> r = r'"
  proof cases
    case 1
    then show ?thesis using eq bytes(1) by simp
  next
    case 2
    then have "of_nat m = (of_nat (192 + n div 64) :: 8 word)" using eq by simp
    then have "m = 192 + n div 64" unfolding bytes(3) .
    with 2 show ?thesis by linarith
  next
    case 3
    then have "of_nat (192 + m div 64) = (of_nat n :: 8 word)" using eq by simp
    then have "192 + m div 64 = n" unfolding bytes(2) .
    with 3 show ?thesis by linarith
  next
    case 4
    then have "of_nat (192 + m div 64) = (of_nat (192 + n div 64) :: 8 word)" "of_nat (128 + m mod 64) = (of_nat (128 + n mod 64) :: 8 word)" "r = r'"
      using eq by simp_all
    then show ?thesis unfolding bytes using joined by simp
  qed
  then show ?thesis by (simp add: chars)
qed

lemma utf8_inj: "utf8 s = utf8 t \<longleftrightarrow> s = t"
proof
  assume "utf8 s = utf8 t"
  then show "s = t"
  proof (induction s arbitrary: t)
    case Nil
    then show ?case by (cases t) (simp_all add: utf8_def)
  next
    case (Cons c s)
    show ?case
    proof (cases t)
      case Nil
      with Cons.prems show ?thesis by (simp add: utf8_def)
    next
      case (Cons d t')
      then show ?thesis using Cons.IH [of t'] Cons.prems utf8_unique [of c "utf8 s" d "utf8 t'"] by (simp add: utf8_def)
    qed
  qed
qed simp

lemma append_until:
  assumes "list_all P xs" "list_all P ys" "\<not> P c" "xs @ c # r = ys @ c # r'"
  shows "xs = ys \<and> r = r'"
proof -
  have "takeWhile P (zs @ c # q) = zs" if "list_all P zs" for zs q using that assms(3) by (simp add: list_all_iff takeWhile_append2)
  with assms show ?thesis by (metis append_same_eq list.inject same_append_eq)
qed

lemma length_prefixed_unique:
  assumes "length_prefixed s @ r = length_prefixed t @ r'"
  shows "s = t \<and> r = r'"
proof -
  have "\<not> is_digit CHR '':''" by (simp add: is_digit_def code_in_def)
  with assms have "nat_digits (length s) = nat_digits (length t) \<and> s @ r = t @ r'"
    using append_until [OF nat_digits_digits nat_digits_digits, of "CHR '':''" "length s" "s @ r" "length t" "t @ r'"]
    by (simp add: length_prefixed_def)
  then show ?thesis by (metis append_eq_append_conv digits_value_nat)
qed

lemma additionalData_inj: "additionalData c = additionalData d \<longleftrightarrow> c = d"
proof
  assume "additionalData c = additionalData d"
  then have "length_prefixed (ec_workspaceId c) @ ''|'' @ length_prefixed (ec_integrationType c) @ ''|'' @ length_prefixed (ec_accountId c) @ [] =
      length_prefixed (ec_workspaceId d) @ ''|'' @ length_prefixed (ec_integrationType d) @ ''|'' @ length_prefixed (ec_accountId d) @ []"
    by (simp add: additionalData_def utf8_inj)
  then have "ec_workspaceId c = ec_workspaceId d \<and> ec_integrationType c = ec_integrationType d \<and> ec_accountId c = ec_accountId d"
    by (metis append_eq_append_conv length_prefixed_unique)
  then show "c = d" by simp
qed simp

section \<open>Sealing and opening\<close>

text \<open>What the cipher documents: it opens what it sealed, and only that; the sizes of its results.\<close>

definition documented_cipher :: "aead \<Rightarrow> bool" where
  "documented_cipher gcm \<longleftrightarrow>
     (\<forall>key iv aad p. length (fst (seal gcm key iv aad p)) = length p \<and> length (snd (seal gcm key iv aad p)) = TAG_BYTES) \<and>
     (\<forall>key iv aad tag c p. unseal gcm key iv aad tag c = Some p \<longleftrightarrow> seal gcm key iv aad p = (c, tag))"

lemma unseal_seal:
  "documented_cipher gcm \<Longrightarrow> unseal gcm key iv aad (snd (seal gcm key iv aad p)) (fst (seal gcm key iv aad p)) = Some p"
  by (simp add: documented_cipher_def)

text \<open>The inputs of one call: sizes of the random bytes, and a key version that fits its field.\<close>

definition sealable :: "js_num \<Rightarrow> bytes \<Rightarrow> bytes \<Rightarrow> bytes \<Rightarrow> bytes \<Rightarrow> bytes \<Rightarrow> bool" where
  "sealable keyVersion masterKey plaintext dataKey payloadIv wrapIv \<longleftrightarrow>
     (\<exists>v. keyVersion = jint v \<and> 1 \<le> v \<and> v < 2 ^ 32) \<and> plaintext \<noteq> [] \<and> length masterKey = KEY_BYTES \<and>
     length dataKey = KEY_BYTES \<and> length payloadIv = IV_BYTES \<and> length wrapIv = IV_BYTES"

lemma subarray_append:
  "length xs = i \<Longrightarrow> j - i = length ys \<Longrightarrow> i \<le> j \<Longrightarrow> subarray i j (xs @ ys @ zs) = ys"
  by (simp add: subarray_def)

text \<open>What an envelope opens to, whatever context and keys it is opened with.\<close>

lemma decrypt_sealed:
  assumes "documented_cipher gcm" "sealable (jint v) masterKey plaintext dataKey payloadIv wrapIv"
    "encryptCredential gcm context (jint v) masterKey plaintext dataKey payloadIv wrapIv = Inr (sealed, kv)"
    "masterKeys (nat v) = Some masterKey"
  shows "decryptCredential gcm context' masterKeys sealed =
    (case unseal gcm masterKey wrapIv (additionalData context') (snd (seal gcm masterKey wrapIv (additionalData context) dataKey))
        (fst (seal gcm masterKey wrapIv (additionalData context) dataKey)) of
       None \<Rightarrow> Inl (CredentialEncryptionError ''AUTHENTICATION_FAILED'')
     | Some dk \<Rightarrow> if length dk \<noteq> KEY_BYTES then Inl (CredentialEncryptionError ''DATA_KEY_LENGTH_INVALID'')
         else (case unseal gcm dk payloadIv (additionalData context') (snd (seal gcm dataKey payloadIv (additionalData context) plaintext))
             (fst (seal gcm dataKey payloadIv (additionalData context) plaintext)) of
           None \<Rightarrow> Inl (CredentialEncryptionError ''AUTHENTICATION_FAILED'') | Some p \<Rightarrow> Inr p))"
proof -
  obtain w t where wt: "seal gcm masterKey wrapIv (additionalData context) dataKey = (w, t)" by force
  obtain c u where cu: "seal gcm dataKey payloadIv (additionalData context) plaintext = (c, u)" by force
  have len: "length w = 32" "length t = 16" "length c = length plaintext" "length u = 16" "plaintext \<noteq> []" "length wrapIv = 12"
      "length payloadIv = 12" "length masterKey = 32" and v: "1 \<le> v" "v < 2 ^ 32"
    using assms(1,2) wt cu unfolding documented_cipher_def sealable_def offset_defs by (metis fst_conv snd_conv num_int_jint)+
  let ?h = "uint32_be (nat v)"
  let ?e = "of_nat FORMAT_VERSION # ?h @ wrapIv @ w @ t @ payloadIv @ u @ c"
  have sealed: "base64_decode sealed = ?e"
    using assms(3) len v by (auto simp: encryptCredential_def wt cu Let_def assertMasterKey_def base64_round_trip offset_defs split: if_splits)
  have parts: "subarray 1 HEADER_BYTES ?e = ?h" "subarray HEADER_BYTES WRAPPED_OFFSET ?e = wrapIv"
      "subarray WRAPPED_OFFSET WRAPPED_TAG_OFFSET ?e = w" "subarray WRAPPED_TAG_OFFSET PAYLOAD_IV_OFFSET ?e = t"
      "subarray PAYLOAD_IV_OFFSET PAYLOAD_TAG_OFFSET ?e = payloadIv" "subarray PAYLOAD_TAG_OFFSET CIPHERTEXT_OFFSET ?e = u"
      "drop CIPHERTEXT_OFFSET ?e = c" "\<not> length ?e \<le> CIPHERTEXT_OFFSET" "unat (?e ! 0) = FORMAT_VERSION"
    using len by (simp_all add: subarray_def offset_defs FORMAT_VERSION_def)
  have "read_uint32_be ?h = nat v" using v by (intro read_uint32) (simp add: nat_less_iff)
  then show ?thesis
    unfolding decryptCredential_def sealed Let_def parts wt cu fst_conv snd_conv
    using assms(4) parts(8,9) len by (simp add: assertMasterKey_def offset_defs split: option.split)
qed

lemma encrypt_succeeds:
  assumes "sealable keyVersion masterKey plaintext dataKey payloadIv wrapIv"
  shows "\<exists>sealed. encryptCredential gcm context keyVersion masterKey plaintext dataKey payloadIv wrapIv = Inr (sealed, keyVersion) \<and> sealed \<noteq> []"
proof -
  obtain v where v: "keyVersion = jint v" "1 \<le> v" "v < 2 ^ 32" using assms unfolding sealable_def by blast
  have "isInteger (jint v)" by (simp add: jint_def)
  with assms v show ?thesis
    by (simp add: encryptCredential_def sealable_def assertMasterKey_def Let_def base64_nonempty split: prod.split)
qed

text \<open>
  C28: a sealed credential opens to what was sealed, and only in its own row.  For every cipher that
  opens exactly what it sealed, a token sealed for a row under a master key is not empty, and opens to
  the token wherever that key is kept under its version; with any other workspace, integration or
  account it can only open if the cipher accepts the tag of one binding for another, which are
  different bytes: no two rows have the same binding.
\<close>

theorem credential_round_trip:
  assumes "documented_cipher gcm" "sealable (jint v) masterKey plaintext dataKey payloadIv wrapIv"
    "masterKeys (nat v) = Some masterKey"
  shows "\<exists>sealed. encryptCredential gcm context (jint v) masterKey plaintext dataKey payloadIv wrapIv = Inr (sealed, jint v) \<and>
    sealed \<noteq> [] \<and> decryptCredential gcm context masterKeys sealed = Inr plaintext \<and>
    (\<forall>context' p. context' \<noteq> context \<and> decryptCredential gcm context' masterKeys sealed = Inr p \<longrightarrow>
       additionalData context' \<noteq> additionalData context \<and>
       (\<exists>dk. seal gcm masterKey wrapIv (additionalData context') dk = seal gcm masterKey wrapIv (additionalData context) dataKey))"
proof -
  obtain sealed where sealed: "encryptCredential gcm context (jint v) masterKey plaintext dataKey payloadIv wrapIv = Inr (sealed, jint v)" "sealed \<noteq> []"
    using encrypt_succeeds [OF assms(2)] by blast
  note opened = decrypt_sealed [where masterKeys = masterKeys and v = v, OF assms(1,2) sealed(1) assms(3)]
  have "length dataKey = KEY_BYTES" using assms(2) by (simp add: sealable_def)
  then have "decryptCredential gcm context masterKeys sealed = Inr plaintext"
    by (simp add: opened unseal_seal [OF assms(1)])
  moreover have "\<exists>dk. seal gcm masterKey wrapIv (additionalData context') dk = seal gcm masterKey wrapIv (additionalData context) dataKey"
    if "decryptCredential gcm context' masterKeys sealed = Inr p" for context' p
    using that assms(1) unfolding opened documented_cipher_def by (auto split: option.splits)
  ultimately show ?thesis using sealed additionalData_inj by blast
qed

text \<open>A cipher with the documented behaviour: the text itself, with a checksum of the binding as its tag.\<close>

definition checksum_tag :: "bytes \<Rightarrow> bytes" where
  "checksum_tag aad = sum_list aad # replicate 15 0"

definition checksum_cipher :: aead where
  "checksum_cipher = \<lparr>seal = (\<lambda>key iv aad p. (p, checksum_tag aad)),
     unseal = (\<lambda>key iv aad tag c. if tag = checksum_tag aad then Some c else None)\<rparr>"

lemma checksum_documented: "documented_cipher checksum_cipher"
  by (auto simp: documented_cipher_def checksum_cipher_def checksum_tag_def TAG_BYTES_def)

definition sample_context :: encryption_context where
  "sample_context = \<lparr>ec_accountId = ''a'', ec_integrationType = ''INSTAGRAM'', ec_workspaceId = ''w''\<rparr>"

theorem credential_round_trip_witness:
  "\<exists>sealed. encryptCredential checksum_cipher sample_context (jint 3) (replicate 32 7) [1, 2] (replicate 32 9) (replicate 12 4) (replicate 12 5)
     = Inr (sealed, jint 3) \<and> decryptCredential checksum_cipher sample_context [3 \<mapsto> replicate 32 7] sealed = Inr [1, 2]"
proof -
  have "sealable (jint 3) (replicate 32 7) [1, 2] (replicate 32 9) (replicate 12 4) (replicate 12 5)"
    by (simp add: sealable_def KEY_BYTES_def IV_BYTES_def)
  from credential_round_trip [OF checksum_documented this, of "[3 \<mapsto> replicate 32 7]" sample_context] show ?thesis by auto
qed

end
