(* ===== verification/Instagram_Credentials.thy ===== *)
theory Instagram_Credentials
  imports Content_Store Credential_Encryption
begin

text \<open>
  The life of an Instagram credential: its health (\<open>packages/domain/src/instagram-token.ts\<close>), the
  writes on it (\<open>packages/db/src/instagram-token.ts\<close>, \<open>instagram-account.ts\<close> and the account and
  credential repositories of \<open>repositories.ts\<close>), the commit of a new connection
  (\<open>apps/web/src/lib/server/instagram-connection.ts\<close>), and the client that refreshes and validates a token
  (\<open>apps/worker/src/instagram/token-client.ts\<close>).

  The provider answers and the cipher are parameters.  An operation is one atomic step; what a
  worker read before the provider call comes in as an argument, from whatever earlier state.  Ages are
  differences of instants below \<open>2 ^ 53\<close> milliseconds, for which dividing by 1000 and rounding down
  is exact.  The audit events of these operations are kept in a list of their own; an absent outcome or
  reason is the empty text.
\<close>

section \<open>Health\<close>

datatype token_health_state =
  HEALTHY | REFRESH_DUE | EXPIRING | EXPIRED | EXPIRY_UNKNOWN | REAUTHORISATION_NEEDED | REVOKED

datatype token_failure = PERMISSION_REVOKED | REAUTHORISATION_REQUIRED | TF_TRANSIENT | TF_UNSUPPORTED

record token_health =
  he_expiresInSeconds :: "int option"
  he_refreshEligible :: bool
  he_refreshDue :: bool
  he_state :: token_health_state
  he_tokenAgeSeconds :: int

definition instagramTokenRefreshMinimumAgeSeconds :: int where
  "instagramTokenRefreshMinimumAgeSeconds = 86400"

definition instagramTokenRefreshDueDays :: int where "instagramTokenRefreshDueDays = 15"
definition instagramTokenExpiryWarningDays :: int where "instagramTokenExpiryWarningDays = 5"
definition secondsPerDay :: int where "secondsPerDay = 86400"

definition instagramConnectionBlocked :: "token_health_state \<Rightarrow> bool" where
  "instagramConnectionBlocked state \<longleftrightarrow> state \<in> {EXPIRED, REAUTHORISATION_NEEDED, REVOKED}"

definition frozenHealth :: "int option \<Rightarrow> bool \<Rightarrow> bool \<Rightarrow> token_health_state \<Rightarrow> int \<Rightarrow> token_health" where
  "frozenHealth expiresInSeconds refreshDue refreshEligible state tokenAgeSeconds =
     \<lparr>he_expiresInSeconds = expiresInSeconds, he_refreshEligible = refreshEligible, he_refreshDue = refreshDue,
      he_state = state, he_tokenAgeSeconds = tokenAgeSeconds\<rparr>"

definition evaluateInstagramTokenHealth :: "credential_status \<Rightarrow> time option \<Rightarrow> time \<Rightarrow> time \<Rightarrow> token_health" where
  "evaluateInstagramTokenHealth credentialStatus expiresAt issuedAt now =
     (let tokenAgeSeconds = max 0 ((now - issuedAt) div 1000);
          oldEnoughToRefresh = tokenAgeSeconds \<ge> instagramTokenRefreshMinimumAgeSeconds
      in if credentialStatus = CR_REVOKED then frozenHealth None False False REVOKED tokenAgeSeconds
         else if credentialStatus = CR_REAUTHORISATION_REQUIRED
           then frozenHealth None False False REAUTHORISATION_NEEDED tokenAgeSeconds
         else case expiresAt of
             None \<Rightarrow> frozenHealth None True oldEnoughToRefresh EXPIRY_UNKNOWN tokenAgeSeconds
           | Some e \<Rightarrow>
               let expiresInSeconds = (e - now) div 1000 in
               if expiresInSeconds \<le> 0 then frozenHealth (Some expiresInSeconds) False False EXPIRED tokenAgeSeconds
               else let state = (if expiresInSeconds \<le> instagramTokenExpiryWarningDays * secondsPerDay then EXPIRING
                        else if expiresInSeconds \<le> instagramTokenRefreshDueDays * secondsPerDay then REFRESH_DUE else HEALTHY)
                 in frozenHealth (Some expiresInSeconds) (state \<noteq> HEALTHY) oldEnoughToRefresh state tokenAgeSeconds)"

section \<open>What the provider answers\<close>

definition is_record :: "js_num js_value \<Rightarrow> (string \<times> js_num js_value) list option" where
  "is_record v = (case v of JObj fs \<Rightarrow> Some fs | _ \<Rightarrow> None)"

definition error_number :: "js_num js_value \<Rightarrow> string \<Rightarrow> js_num option" where
  "error_number body key =
     (case is_record body of None \<Rightarrow> None
      | Some fs \<Rightarrow> (case is_record (js_field fs ''error'') of None \<Rightarrow> None
          | Some e \<Rightarrow> (case js_field e key of JNum n \<Rightarrow> Some n | _ \<Rightarrow> None)))"

datatype response_class = RC_authorisation | RC_invalid_request | RC_rate_limit | RC_transient | RC_unsupported

definition classifyInstagramResponse :: "js_num js_value \<Rightarrow> int \<Rightarrow> response_class" where
  "classifyInstagramResponse body status =
     (if status = 429 then RC_rate_limit
      else if status = 401 \<or> status = 403 then RC_authorisation
      else if status \<ge> 500 then RC_transient
      else let code = error_number body ''code''; subcode = error_number body ''error_subcode'' in
        if code = Some (jint 190) then RC_authorisation
        else if code = Some (jint 4) \<or> code = Some (jint 17) \<or> code = Some (jint 32) \<or> code = Some (jint 613) then RC_rate_limit
        else if status = 400 \<and> (code = Some (jint 100) \<or> subcode = Some (jint 2108006)) then RC_unsupported
        else RC_invalid_request)"

definition classifyInstagramTokenResponse :: "js_num js_value \<Rightarrow> int \<Rightarrow> token_failure" where
  "classifyInstagramTokenResponse body status =
     (let code = error_number body ''code'' in
      if code = Some (jint 10) \<or> (case code of None \<Rightarrow> False | Some c \<Rightarrow> jge c (jint 200) \<and> jle c (jint 299)) then PERMISSION_REVOKED
      else if code = Some (jint 190) \<or> code = Some (jint 102) then REAUTHORISATION_REQUIRED
      else case classifyInstagramResponse body status of
          RC_authorisation \<Rightarrow> REAUTHORISATION_REQUIRED
        | RC_rate_limit \<Rightarrow> TF_TRANSIENT
        | RC_transient \<Rightarrow> TF_TRANSIENT
        | _ \<Rightarrow> TF_UNSUPPORTED)"

text \<open>A request fails to be answered, or has a status and a body; a body that is no JSON is null.\<close>

datatype reply = Unreachable | Answered int "js_num js_value"

definition response_ok :: "int \<Rightarrow> bool" where
  "response_ok status \<longleftrightarrow> 200 \<le> status \<and> status \<le> 299"

text \<open>\<open>InstagramTokenError\<close>: a failure and a reason code.\<close>

type_synonym token_error = "token_failure \<times> string"

definition readString :: "(string \<times> js_num js_value) list \<Rightarrow> string \<Rightarrow> string option" where
  "readString fs key = (case js_field fs key of js_value.JStr s \<Rightarrow> if s = [] then None else Some s | _ \<Rightarrow> None)"

text \<open>A date is its time value, NaN when it is beyond the range of dates.\<close>

definition date_of :: "js_num \<Rightarrow> js_num" where
  "date_of v = (if isFinite v \<and> jle (jabs v) (jint 8640000000000000) then v else NaN)"

definition resolveTokenExpiry :: "js_num option \<Rightarrow> time \<Rightarrow> js_num option" where
  "resolveTokenExpiry expiresInSeconds now =
     (case expiresInSeconds of None \<Rightarrow> None
      | Some s \<Rightarrow> if \<not> isFinite s then None else if jle s (jint 0) then None
          else Some (date_of (jadd (jint now) (jmul (jfloor s) (jint 1000)))))"

record refreshed_token =
  rt_accessToken :: string
  rt_expiresAt :: "js_num option"
  rt_tokenType :: string

definition refreshInstagramToken :: "(bytes \<Rightarrow> reply) \<Rightarrow> bytes \<Rightarrow> time \<Rightarrow> token_error + refreshed_token" where
  "refreshInstagramToken fetch accessToken now =
     (if accessToken = [] then Inl (REAUTHORISATION_REQUIRED, ''TOKEN_ABSENT'')
      else case fetch accessToken of
          Unreachable \<Rightarrow> Inl (TF_TRANSIENT, ''REFRESH_UNREACHABLE'')
        | Answered status body \<Rightarrow>
            if \<not> response_ok status then Inl (classifyInstagramTokenResponse body status, ''REFRESH_REJECTED'')
            else case is_record body of
                None \<Rightarrow> Inl (TF_TRANSIENT, ''REFRESH_NOT_JSON'')
              | Some record \<Rightarrow> (case readString record ''access_token'' of
                  None \<Rightarrow> Inl (TF_UNSUPPORTED, ''REFRESH_TOKEN_ABSENT'')
                | Some refreshed \<Rightarrow> Inr \<lparr>rt_accessToken = refreshed,
                    rt_expiresAt = resolveTokenExpiry (case js_field record ''expires_in'' of JNum n \<Rightarrow> Some n | _ \<Rightarrow> None) now,
                    rt_tokenType = coalesce (readString record ''token_type'') ''bearer''\<rparr>))"

definition validateInstagramToken :: "(bytes \<Rightarrow> reply) \<Rightarrow> bytes \<Rightarrow> token_error option" where
  "validateInstagramToken fetch accessToken =
     (if accessToken = [] then Some (REAUTHORISATION_REQUIRED, ''TOKEN_ABSENT'')
      else case fetch accessToken of
          Unreachable \<Rightarrow> Some (TF_TRANSIENT, ''VALIDATE_UNREACHABLE'')
        | Answered status body \<Rightarrow>
            if \<not> response_ok status then Some (classifyInstagramTokenResponse body status, ''VALIDATE_REJECTED'') else None)"

section \<open>The tables\<close>

record connection_tables =
  ct_accounts :: "account list"
  ct_credentials :: "credential list"
  ct_audit :: "audit_event list"

text \<open>The unique index on active credentials and the check constraint on their material.\<close>

definition credential_slot :: "credential \<Rightarrow> integration_type \<times> string" where
  "credential_slot c = (cr_integrationType c, cr_accountId c)"

definition one_active_credential :: "credential list \<Rightarrow> bool" where
  "one_active_credential rows = distinct (map credential_slot (filter (\<lambda>c. cr_status c = CR_ACTIVE) rows))"

definition material_only_when_active :: "credential \<Rightarrow> bool" where
  "material_only_when_active c \<longleftrightarrow> (cr_status c = CR_ACTIVE \<longleftrightarrow> cr_ciphertext c \<noteq> [])"

text \<open>A statement that breaks a constraint raises, and its transaction rolls back.\<close>

definition write_credentials :: "credential list \<Rightarrow> connection_tables \<Rightarrow> exn + connection_tables" where
  "write_credentials rows t =
     (if \<not> one_active_credential rows then Inl (Exn_other ''integration_credentials_one_active_per_account'')
      else if \<not> list_all material_only_when_active rows then Inl (Exn_other ''integration_credentials_material_only_when_active'')
      else Inr (t\<lparr>ct_credentials := rows\<rparr>))"

definition purgedCredentialCiphertext :: string where "purgedCredentialCiphertext = []"

definition tokenError :: "string \<Rightarrow> int \<Rightarrow> exn" where
  "tokenError code statusCode = Exn_operational (OperationalError code
     (if statusCode = 404 then Not_found else if statusCode = 409 then Conflict else Validation) None (jint statusCode))"

section \<open>Reading a credential\<close>

record maintenance_record =
  mc_accountId :: string
  mc_apiVersion :: string
  mc_ciphertext :: string
  mc_connectionStatus :: connection_status
  mc_credentialId :: string
  mc_expiresAt :: "time option"
  mc_issuedAt :: time
  mc_keyVersion :: int
  mc_providerAccountId :: string
  mc_refreshedAt :: "time option"
  mc_status :: credential_status
  mc_workspaceId :: string

text \<open>\<open>findFirst\<close> with \<open>orderBy: { issuedAt: "desc" }\<close>: the first of the latest.\<close>

definition latest_issued :: "credential list \<Rightarrow> credential option" where
  "latest_issued rows = (case sort_key (\<lambda>c. - cr_issuedAt c) rows of [] \<Rightarrow> None | c # _ \<Rightarrow> Some c)"

definition account_of :: "credential \<Rightarrow> account list \<Rightarrow> account option" where
  "account_of c rows = find (\<lambda>a. ac_id a = cr_accountId c \<and> ac_workspaceId a = cr_workspaceId c) rows"

definition loadInstagramCredentialForMaintenance :: "string \<Rightarrow> string \<Rightarrow> connection_tables \<Rightarrow> maintenance_record option" where
  "loadInstagramCredentialForMaintenance ws accountId t =
     (case latest_issued (filter (\<lambda>c. cr_accountId c = accountId \<and> cr_integrationType c = INSTAGRAM \<and> cr_status c = CR_ACTIVE \<and>
           cr_workspaceId c = ws) (ct_credentials t)) of
        None \<Rightarrow> None
      | Some c \<Rightarrow> map_option (\<lambda>a. \<lparr>mc_accountId = cr_accountId c, mc_apiVersion = ac_apiVersion a, mc_ciphertext = cr_ciphertext c,
          mc_connectionStatus = ac_connectionStatus a, mc_credentialId = cr_id c, mc_expiresAt = cr_expiresAt c,
          mc_issuedAt = cr_issuedAt c, mc_keyVersion = cr_keyVersion c, mc_providerAccountId = ac_providerAccountId a,
          mc_refreshedAt = cr_refreshedAt c, mc_status = cr_status c, mc_workspaceId = cr_workspaceId c\<rparr>)
          (account_of c (ct_accounts t)))"

record connection_health =
  ch_accountId :: string
  ch_connectionStatus :: connection_status
  ch_expiresAt :: "time option"
  ch_grantedScopes :: "string list"
  ch_health :: token_health
  ch_lastSuccessfulSyncAt :: "time option"
  ch_lastValidatedAt :: "time option"
  ch_lastValidationErrorClass :: "string option"
  ch_username :: "string option"

text \<open>The safe projection of an account and its latest credential, if any.\<close>

definition connection_summary :: "time \<Rightarrow> account \<Rightarrow> credential option \<Rightarrow> connection_health" where
  "connection_summary now account credential =
     (let expiresAt = (case credential of None \<Rightarrow> ac_tokenExpiresAt account
            | Some c \<Rightarrow> (case cr_expiresAt c of None \<Rightarrow> ac_tokenExpiresAt account | Some e \<Rightarrow> Some e))
      in \<lparr>ch_accountId = ac_id account, ch_connectionStatus = ac_connectionStatus account, ch_expiresAt = expiresAt,
          ch_grantedScopes = ac_grantedScopes account,
          ch_health = evaluateInstagramTokenHealth (coalesce (map_option cr_status credential) CR_REVOKED) expiresAt
            (coalesce (map_option cr_issuedAt credential) now) now,
          ch_lastSuccessfulSyncAt = ac_lastSuccessfulSyncAt account,
          ch_lastValidatedAt = (case credential of None \<Rightarrow> None | Some c \<Rightarrow> cr_lastValidatedAt c),
          ch_lastValidationErrorClass = (case credential of None \<Rightarrow> None | Some c \<Rightarrow> cr_lastValidationErrorClass c),
          ch_username = ac_username account\<rparr>)"

definition loadInstagramConnectionHealth :: "string \<Rightarrow> string \<Rightarrow> time \<Rightarrow> connection_tables \<Rightarrow> connection_health option" where
  "loadInstagramConnectionHealth ws accountId now t =
     (case find (\<lambda>a. ac_id a = accountId \<and> ac_workspaceId a = ws) (ct_accounts t) of
        None \<Rightarrow> None
      | Some account \<Rightarrow> Some (connection_summary now account
          (latest_issued (filter (\<lambda>c. cr_accountId c = accountId \<and> cr_integrationType c = INSTAGRAM \<and> cr_workspaceId c = ws)
             (ct_credentials t)))))"

record account_summary =
  as_health :: connection_health
  as_accountType :: account_type
  as_apiVersion :: string
  as_connectedAt :: time
  as_mediaCount :: "int option"
  as_providerAccountId :: string

text \<open>The summary list reads the credentials once and keeps the first of each account.\<close>

definition listInstagramAccountSummaries :: "string \<Rightarrow> time \<Rightarrow> connection_tables \<Rightarrow> account_summary list" where
  "listInstagramAccountSummaries ws now t =
     (let accounts = sort_key ac_createdAt (filter (\<lambda>a. ac_workspaceId a = ws) (ct_accounts t));
          credentials = sort_key (\<lambda>c. - cr_issuedAt c) (filter (\<lambda>c. cr_accountId c \<in> set (map ac_id accounts) \<and>
            cr_integrationType c = INSTAGRAM \<and> cr_workspaceId c = ws) (ct_credentials t))
      in map (\<lambda>account. \<lparr>as_health = connection_summary now account (find (\<lambda>c. cr_accountId c = ac_id account) credentials),
           as_accountType = ac_accountType account, as_apiVersion = ac_apiVersion account, as_connectedAt = ac_createdAt account,
           as_mediaCount = ac_mediaCount account, as_providerAccountId = ac_providerAccountId account\<rparr>) accounts)"

section \<open>Writes\<close>

record rotation =
  ro_ciphertext :: string
  ro_credentialId :: string
  ro_expectedRefreshedAt :: "time option"
  ro_expiresAt :: "js_num option"
  ro_keyVersion :: int
  ro_refreshedAt :: time
  ro_tokenType :: string

text \<open>An invalid date is refused by the database client.\<close>

definition date_column :: "js_num option \<Rightarrow> exn + time option" where
  "date_column d = (case d of None \<Rightarrow> Inr None
     | Some v \<Rightarrow> if isFinite v then Inr (Some (num_int v)) else Inl (Exn_other ''invalid date''))"

definition rotation_where :: "string \<Rightarrow> rotation \<Rightarrow> credential \<Rightarrow> bool" where
  "rotation_where ws r c \<longleftrightarrow> cr_id c = ro_credentialId r \<and> cr_integrationType c = INSTAGRAM \<and>
     cr_refreshedAt c = ro_expectedRefreshedAt r \<and> cr_status c = CR_ACTIVE \<and> cr_workspaceId c = ws"

definition rotation_data :: "rotation \<Rightarrow> time option \<Rightarrow> credential \<Rightarrow> credential" where
  "rotation_data r expiresAt c = c\<lparr>cr_ciphertext := ro_ciphertext r, cr_expiresAt := expiresAt, cr_keyVersion := ro_keyVersion r,
     cr_lastValidatedAt := Some (ro_refreshedAt r), cr_lastValidationErrorClass := None, cr_refreshedAt := Some (ro_refreshedAt r),
     cr_tokenType := ro_tokenType r\<rparr>"

definition rotateInstagramCredential :: "string \<Rightarrow> rotation \<Rightarrow> connection_tables \<Rightarrow> exn + bool \<times> connection_tables" where
  "rotateInstagramCredential ws r t =
     (if ro_ciphertext r = [] then Inl (tokenError ''CREDENTIAL_CIPHERTEXT_EMPTY'' 400)
      else case date_column (ro_expiresAt r) of Inl e \<Rightarrow> Inl e
        | Inr expiresAt \<Rightarrow>
            (case write_credentials (update_many (rotation_where ws r) (rotation_data r expiresAt) (ct_credentials t)) t of
               Inl e \<Rightarrow> Inl e
             | Inr t' \<Rightarrow>
                 if count_many (rotation_where ws r) (ct_credentials t) \<noteq> 1 then Inr (False, t')
                 else (case find (\<lambda>c. cr_id c = ro_credentialId r \<and> cr_workspaceId c = ws) (ct_credentials t') of
                     None \<Rightarrow> Inl (Exn_other ''not found'')
                   | Some c \<Rightarrow> Inr (True, t'\<lparr>ct_accounts := update_many (\<lambda>a. ac_id a = cr_accountId c \<and> ac_workspaceId a = ws)
                       (\<lambda>a. a\<lparr>ac_tokenExpiresAt := expiresAt\<rparr>) (ct_accounts t')\<rparr>))))"

definition requireInstagramReauthorisation ::
    "string \<Rightarrow> string \<Rightarrow> string \<Rightarrow> string \<Rightarrow> time \<Rightarrow> string \<Rightarrow> connection_tables \<Rightarrow> exn + connection_tables" where
  "requireInstagramReauthorisation ws accountId correlationId credentialId occurredAt reasonCode t =
     (if \<not> safe_code reasonCode then Inl (tokenError ''CREDENTIAL_ERROR_CLASS_INVALID'' 400)
      else case write_credentials (update_many (\<lambda>c. cr_id c = credentialId \<and> cr_status c = CR_ACTIVE \<and> cr_workspaceId c = ws)
          (\<lambda>c. c\<lparr>cr_ciphertext := purgedCredentialCiphertext, cr_lastValidatedAt := Some occurredAt,
             cr_lastValidationErrorClass := Some reasonCode, cr_status := CR_REAUTHORISATION_REQUIRED\<rparr>) (ct_credentials t)) t of
          Inl e \<Rightarrow> Inl e
        | Inr t' \<Rightarrow> Inr (t'\<lparr>ct_accounts := update_many (\<lambda>a. ac_id a = accountId \<and> ac_workspaceId a = ws)
              (\<lambda>a. a\<lparr>ac_connectionStatus := CS_REAUTHORISATION_REQUIRED\<rparr>) (ct_accounts t'),
            ct_audit := ct_audit t' @ [\<lparr>ae_action = ''instagram.token.reauthorisation_required'',
              ae_actor = Actor_service ''token-maintainer'', ae_correlationId = correlationId, ae_occurredAt = occurredAt,
              ae_outcome = ''BLOCKED'', ae_reasonCode = reasonCode, ae_resourceId = Some accountId,
              ae_resourceType = ''instagram_account'', ae_workspaceId = ws\<rparr>]\<rparr>))"

definition recordInstagramCredentialValidation :: "string \<Rightarrow> string \<Rightarrow> time \<Rightarrow> connection_tables \<Rightarrow> connection_tables" where
  "recordInstagramCredentialValidation ws credentialId validatedAt t =
     t\<lparr>ct_credentials := update_many (\<lambda>c. cr_id c = credentialId \<and> cr_status c = CR_ACTIVE \<and> cr_workspaceId c = ws)
         (\<lambda>c. c\<lparr>cr_lastValidatedAt := Some validatedAt, cr_lastValidationErrorClass := None\<rparr>) (ct_credentials t)\<rparr>"

datatype revocation_outcome = RV_SUCCEEDED | RV_FAILED | RV_NOT_ATTEMPTED

definition revocation_code :: "revocation_outcome \<Rightarrow> string" where
  "revocation_code r = ''PROVIDER_REVOCATION_'' @
     (case r of RV_SUCCEEDED \<Rightarrow> ''SUCCEEDED'' | RV_FAILED \<Rightarrow> ''FAILED'' | RV_NOT_ATTEMPTED \<Rightarrow> ''NOT_ATTEMPTED'')"

definition commitInstagramDisconnect ::
    "string \<Rightarrow> string \<Rightarrow> string \<Rightarrow> string \<Rightarrow> time \<Rightarrow> revocation_outcome \<Rightarrow> connection_tables \<Rightarrow> exn + bool \<times> connection_tables" where
  "commitInstagramDisconnect ws accountId actorUserId correlationId occurredAt revocation t =
     (let PC = (\<lambda>c. cr_accountId c = accountId \<and> cr_integrationType c = INSTAGRAM \<and> cr_status c = CR_ACTIVE \<and> cr_workspaceId c = ws);
          PA = (\<lambda>a. ac_connectionStatus a \<noteq> CS_DISCONNECTED \<and> ac_id a = accountId \<and> ac_workspaceId a = ws)
      in case write_credentials (update_many PC (\<lambda>c. c\<lparr>cr_ciphertext := purgedCredentialCiphertext,
            cr_lastValidatedAt := Some occurredAt, cr_status := CR_REVOKED\<rparr>) (ct_credentials t)) t of
          Inl e \<Rightarrow> Inl e
        | Inr t' \<Rightarrow>
            let changed = (count_many PC (ct_credentials t) > 0 \<or> count_many PA (ct_accounts t) > 0)
            in Inr (changed, t'\<lparr>ct_accounts := update_many PA
                (\<lambda>a. a\<lparr>ac_connectionStatus := CS_DISCONNECTED, ac_tokenExpiresAt := None\<rparr>) (ct_accounts t'),
              ct_audit := ct_audit t' @ [\<lparr>ae_action = ''instagram.connection.disconnected'', ae_actor = Actor_user actorUserId,
                ae_correlationId = correlationId, ae_occurredAt = occurredAt,
                ae_outcome = (if changed then ''SUCCEEDED'' else ''NO_CHANGE''), ae_reasonCode = revocation_code revocation,
                ae_resourceId = Some accountId, ae_resourceType = ''instagram_account'', ae_workspaceId = ws\<rparr>]\<rparr>))"

section \<open>Connecting\<close>

record connection_input =
  ci_accountType :: account_type
  ci_apiVersion :: string
  ci_grantedScopes :: "string list"
  ci_mediaCount :: "int option"
  ci_providerAccountId :: string
  ci_tokenExpiresAt :: "time option"
  ci_username :: "string option"

definition connected_data :: "connection_input \<Rightarrow> account \<Rightarrow> account" where
  "connected_data i a = a\<lparr>ac_accountType := ci_accountType i, ac_apiVersion := ci_apiVersion i, ac_connectionStatus := CS_ACTIVE,
     ac_grantedScopes := ci_grantedScopes i, ac_mediaCount := ci_mediaCount i, ac_tokenExpiresAt := ci_tokenExpiresAt i,
     ac_username := ci_username i\<rparr>"

text \<open>The account it leaves connected, and the tables.\<close>

definition upsertConnected :: "string \<Rightarrow> connection_input \<Rightarrow> string \<Rightarrow> time \<Rightarrow> connection_tables \<Rightarrow> string \<times> connection_tables" where
  "upsertConnected ws i newId dbNow t =
     (let P = (\<lambda>a. ac_workspaceId a = ws \<and> ac_providerAccountId a = ci_providerAccountId i) in
      case find P (ct_accounts t) of
        Some a \<Rightarrow> (ac_id a, t\<lparr>ct_accounts := update_many P (connected_data i) (ct_accounts t)\<rparr>)
      | None \<Rightarrow> (newId, t\<lparr>ct_accounts := ct_accounts t @ [connected_data i \<lparr>ac_id = newId, ac_workspaceId = ws,
          ac_providerAccountId = ci_providerAccountId i, ac_username = None, ac_accountType = ci_accountType i, ac_mediaCount = None,
          ac_followerCount = None, ac_connectionStatus = CS_ACTIVE, ac_tokenExpiresAt = None, ac_grantedScopes = [],
          ac_lastSuccessfulSyncAt = None, ac_apiVersion = ci_apiVersion i, ac_createdAt = dbNow, ac_analyticsDirtySince = None,
          ac_analyticsDueAt = None\<rparr>]\<rparr>))"

record activation_input =
  ai_ciphertext :: string
  ai_expiresAt :: "time option"
  ai_issuedAt :: time
  ai_keyVersion :: int
  ai_scopeHash :: string
  ai_tokenType :: string

definition activate_credential :: "string \<Rightarrow> string \<Rightarrow> activation_input \<Rightarrow> string \<Rightarrow> connection_tables \<Rightarrow> exn + connection_tables" where
  "activate_credential ws accountId i newId t =
     (case write_credentials (update_many (\<lambda>c. cr_workspaceId c = ws \<and> cr_accountId c = accountId \<and> cr_integrationType c = INSTAGRAM \<and>
           cr_status c = CR_ACTIVE) (\<lambda>c. c\<lparr>cr_ciphertext := purgedCredentialCiphertext, cr_status := CR_REVOKED\<rparr>) (ct_credentials t)) t of
        Inl e \<Rightarrow> Inl e
      | Inr t' \<Rightarrow>
          if \<exists>c \<in> set (ct_credentials t'). cr_id c = newId then Inl (Exn_other ''integration_credentials_pkey'')
          else write_credentials (ct_credentials t' @ [\<lparr>cr_id = newId, cr_workspaceId = ws, cr_integrationType = INSTAGRAM,
            cr_accountId = accountId, cr_ciphertext = ai_ciphertext i, cr_keyVersion = ai_keyVersion i, cr_tokenType = ai_tokenType i,
            cr_scopeHash = ai_scopeHash i, cr_status = CR_ACTIVE, cr_issuedAt = ai_issuedAt i, cr_expiresAt = ai_expiresAt i,
            cr_refreshedAt = None, cr_lastValidatedAt = None, cr_lastValidationErrorClass = None\<rparr>]) t')"

text \<open>The transaction that commits a connection; \<open>sealed\<close> seals the token for the account it is given.\<close>

definition commit_connection ::
    "string \<Rightarrow> connection_input \<Rightarrow> (string \<Rightarrow> string \<times> int) \<Rightarrow> string \<Rightarrow> string \<Rightarrow> time \<Rightarrow> string \<Rightarrow> string \<Rightarrow> string \<Rightarrow> string \<Rightarrow> time \<Rightarrow>
     connection_tables \<Rightarrow> exn + string \<times> connection_tables" where
  "commit_connection ws i sealed scopeHash tokenType now userId correlationId newAccountId newCredentialId dbNow t =
     (case upsertConnected ws i newAccountId dbNow t of
        (accountId, t1) \<Rightarrow> (case activate_credential ws accountId \<lparr>ai_ciphertext = fst (sealed accountId), ai_expiresAt = ci_tokenExpiresAt i,
            ai_issuedAt = now, ai_keyVersion = snd (sealed accountId), ai_scopeHash = scopeHash, ai_tokenType = tokenType\<rparr> newCredentialId t1 of
            Inl e \<Rightarrow> Inl e
          | Inr t2 \<Rightarrow> Inr (accountId, t2\<lparr>ct_audit := ct_audit t2 @ [\<lparr>ae_action = ''instagram.connection.activated'',
              ae_actor = Actor_user userId, ae_correlationId = correlationId, ae_occurredAt = dbNow, ae_outcome = [],
              ae_reasonCode = [], ae_resourceId = Some accountId, ae_resourceType = ''instagram_account'', ae_workspaceId = ws\<rparr>]\<rparr>)))"

section \<open>The constraints are never met\<close>

lemma write_credentials_Inr:
  "write_credentials rows t = Inr t' \<longleftrightarrow> one_active_credential rows \<and> list_all material_only_when_active rows \<and> t' = t\<lparr>ct_credentials := rows\<rparr>"
  by (auto simp: write_credentials_def)

lemma one_active_update:
  assumes "\<And>c. c \<in> set rows \<Longrightarrow> P c \<Longrightarrow> cr_status (f c) = CR_ACTIVE \<Longrightarrow> cr_status c = CR_ACTIVE"
    "\<And>c. credential_slot (f c) = credential_slot c" "one_active_credential rows"
  shows "one_active_credential (update_many P f rows)"
  using assms unfolding one_active_credential_def by (rule distinct_filter_update)

lemma material_update:
  assumes "\<And>c. c \<in> set rows \<Longrightarrow> P c \<Longrightarrow> material_only_when_active (f c)" "list_all material_only_when_active rows"
  shows "list_all material_only_when_active (update_many P f rows)"
  using assms by (auto simp: list_all_iff update_many_def)

lemmas constraint_simps = material_only_when_active_def credential_slot_def purgedCredentialCiphertext_def rotation_data_def
  rotation_where_def

section \<open>The invariant\<close>

text \<open>A connected account has an active credential, and shows its expiry.\<close>

definition backed :: "credential list \<Rightarrow> account \<Rightarrow> bool" where
  "backed rows a \<longleftrightarrow> (\<exists>c \<in> set rows. cr_accountId c = ac_id a \<and> cr_workspaceId c = ac_workspaceId a \<and> cr_status c = CR_ACTIVE \<and>
     cr_expiresAt c = ac_tokenExpiresAt a)"

definition connection_ok :: "connection_tables \<Rightarrow> bool" where
  "connection_ok t \<longleftrightarrow> distinct (map cr_id (ct_credentials t)) \<and> distinct (map ac_id (ct_accounts t)) \<and>
     distinct (map (\<lambda>a. (ac_workspaceId a, ac_providerAccountId a)) (ct_accounts t)) \<and>
     one_active_credential (ct_credentials t) \<and> list_all material_only_when_active (ct_credentials t) \<and>
     (\<forall>c \<in> set (ct_credentials t). \<exists>a \<in> set (ct_accounts t). ac_id a = cr_accountId c \<and> ac_workspaceId a = cr_workspaceId c) \<and>
     (\<forall>a \<in> set (ct_accounts t). ac_connectionStatus a = CS_ACTIVE \<longrightarrow> backed (ct_credentials t) a)"

text \<open>A row that is kept apart from the columns that are not identifying.\<close>

definition account_kept :: "(account \<Rightarrow> account) \<Rightarrow> bool" where
  "account_kept f \<longleftrightarrow> (\<forall>a. ac_id (f a) = ac_id a \<and> ac_workspaceId (f a) = ac_workspaceId a \<and> ac_providerAccountId (f a) = ac_providerAccountId a)"

definition credential_kept :: "(credential \<Rightarrow> credential) \<Rightarrow> bool" where
  "credential_kept f \<longleftrightarrow> (\<forall>c. cr_id (f c) = cr_id c \<and> cr_workspaceId (f c) = cr_workspaceId c \<and> cr_accountId (f c) = cr_accountId c \<and>
     cr_integrationType (f c) = cr_integrationType c)"

lemma connection_ok_update:
  assumes "connection_ok t" "account_kept g" "credential_kept f"
    "\<And>c. c \<in> set (ct_credentials t) \<Longrightarrow> P c \<Longrightarrow> cr_status (f c) = CR_ACTIVE \<Longrightarrow> cr_status c = CR_ACTIVE"
    "\<And>c. c \<in> set (ct_credentials t) \<Longrightarrow> P c \<Longrightarrow> material_only_when_active (f c)"
    "\<And>a. a \<in> set (ct_accounts t) \<Longrightarrow> ac_connectionStatus (if Q a then g a else a) = CS_ACTIVE \<Longrightarrow>
       backed (update_many P f (ct_credentials t)) (if Q a then g a else a)"
  shows "connection_ok (t\<lparr>ct_credentials := update_many P f (ct_credentials t), ct_accounts := update_many Q g (ct_accounts t)\<rparr>)"
proof -
  have ids: "map cr_id (update_many P f rows) = map cr_id rows" for rows using assms(3) by (simp add: update_many_def credential_kept_def)
  have accounts: "map ac_id (update_many Q g rows) = map ac_id rows"
    "map (\<lambda>a. (ac_workspaceId a, ac_providerAccountId a)) (update_many Q g rows) = map (\<lambda>a. (ac_workspaceId a, ac_providerAccountId a)) rows" for rows
    using assms(2) by (simp_all add: update_many_def account_kept_def)
  have slot: "credential_slot (f c) = credential_slot c" for c using assms(3) by (simp add: credential_kept_def credential_slot_def)
  have active: "one_active_credential (update_many P f (ct_credentials t))"
    using assms(1,4) slot by (intro one_active_update) (simp_all add: connection_ok_def)
  have material: "list_all material_only_when_active (update_many P f (ct_credentials t))"
    using assms(1,5) by (intro material_update) (simp_all add: connection_ok_def)
  have owner: "\<exists>a \<in> set (update_many Q g (ct_accounts t)). ac_id a = cr_accountId c \<and> ac_workspaceId a = cr_workspaceId c"
    if "c \<in> set (update_many P f (ct_credentials t))" for c
  proof -
    obtain d where d: "d \<in> set (ct_credentials t)" "cr_accountId c = cr_accountId d" "cr_workspaceId c = cr_workspaceId d"
      using \<open>c \<in> _\<close> assms(3) by (auto simp: set_update_many credential_kept_def split: if_splits)
    then obtain a where a: "a \<in> set (ct_accounts t)" "ac_id a = cr_accountId c" "ac_workspaceId a = cr_workspaceId c"
      using assms(1) unfolding connection_ok_def by metis
    then have "(if Q a then g a else a) \<in> set (update_many Q g (ct_accounts t))" by (auto simp: update_many_def)
    with a(2,3) assms(2) show ?thesis by (intro bexI) (auto simp: account_kept_def)
  qed
  have "backed (update_many P f (ct_credentials t)) b" if "b \<in> set (update_many Q g (ct_accounts t))" "ac_connectionStatus b = CS_ACTIVE" for b
    using that assms(6) by (auto simp: set_update_many)
  with assms(1) active material owner show ?thesis by (simp add: connection_ok_def ids accounts)
qed

lemma active_credential_unique:
  assumes "connection_ok t" "c \<in> set (ct_credentials t)" "d \<in> set (ct_credentials t)" "cr_status c = CR_ACTIVE" "cr_status d = CR_ACTIVE"
    "cr_accountId c = cr_accountId d"
  shows "c = d"
proof -
  have "credential_slot c = credential_slot d"
    using assms(6) by (cases "cr_integrationType c"; cases "cr_integrationType d") (simp add: credential_slot_def)
  with assms(1-5) show ?thesis
    using distinct_map_inj [of credential_slot "filter (\<lambda>c. cr_status c = CR_ACTIVE) (ct_credentials t)" c d]
    by (simp add: connection_ok_def one_active_credential_def)
qed

lemma backedE:
  assumes "connection_ok t" "a \<in> set (ct_accounts t)" "ac_connectionStatus a = CS_ACTIVE"
  obtains c where "c \<in> set (ct_credentials t)" "cr_accountId c = ac_id a" "cr_workspaceId c = ac_workspaceId a" "cr_status c = CR_ACTIVE"
    "cr_expiresAt c = ac_tokenExpiresAt a"
  using assms unfolding connection_ok_def backed_def by blast

lemma backed_updateI:
  "c \<in> set rows \<Longrightarrow> cr_accountId (if P c then f c else c) = ac_id a \<Longrightarrow> cr_workspaceId (if P c then f c else c) = ac_workspaceId a \<Longrightarrow>
   cr_status (if P c then f c else c) = CR_ACTIVE \<Longrightarrow> cr_expiresAt (if P c then f c else c) = ac_tokenExpiresAt a \<Longrightarrow>
   backed (update_many P f rows) a"
  unfolding backed_def by (rule bexI [of _ "if P c then f c else c"]) (auto simp: set_update_many)

text \<open>A write that is let through by the constraints, for the purges and the rotation.\<close>

lemma write_update:
  assumes "connection_ok t" "credential_kept f"
    "\<And>c. c \<in> set (ct_credentials t) \<Longrightarrow> P c \<Longrightarrow> cr_status (f c) = CR_ACTIVE \<Longrightarrow> cr_status c = CR_ACTIVE"
    "\<And>c. c \<in> set (ct_credentials t) \<Longrightarrow> P c \<Longrightarrow> material_only_when_active (f c)"
  shows "write_credentials (update_many P f (ct_credentials t)) t = Inr (t\<lparr>ct_credentials := update_many P f (ct_credentials t)\<rparr>)"
proof -
  have "credential_slot (f c) = credential_slot c" for c using assms(2) by (simp add: credential_kept_def credential_slot_def)
  then have "one_active_credential (update_many P f (ct_credentials t))"
    using assms(1,3) by (intro one_active_update) (simp_all add: connection_ok_def)
  moreover have "list_all material_only_when_active (update_many P f (ct_credentials t))"
    using assms(1,4) by (intro material_update) (simp_all add: connection_ok_def)
  ultimately show ?thesis by (simp add: write_credentials_Inr)
qed

lemma audit_ok [simp]: "connection_ok (t\<lparr>ct_audit := rows\<rparr>) \<longleftrightarrow> connection_ok t"
  by (simp add: connection_ok_def)

section \<open>Rotation\<close>

lemma rotation_kept: "credential_kept (rotation_data r e)"
  by (simp add: credential_kept_def rotation_data_def)

lemma rotation_unique:
  assumes "connection_ok t" "c \<in> set (ct_credentials t)" "rotation_where ws r c"
  shows "count_many (rotation_where ws r) (ct_credentials t) = 1"
  using assms by (intro count_many_unique [of cr_id]) (auto simp: connection_ok_def rotation_where_def)

text \<open>What a rotation makes of the tables when its condition finds the credential \<open>c\<close>.\<close>

definition rotated :: "string \<Rightarrow> rotation \<Rightarrow> time option \<Rightarrow> credential \<Rightarrow> connection_tables \<Rightarrow> connection_tables" where
  "rotated ws r e c t = t\<lparr>ct_credentials := update_many (rotation_where ws r) (rotation_data r e) (ct_credentials t),
     ct_accounts := update_many (\<lambda>a. ac_id a = cr_accountId c \<and> ac_workspaceId a = ws) (\<lambda>a. a\<lparr>ac_tokenExpiresAt := e\<rparr>) (ct_accounts t)\<rparr>"

lemma rotate_found:
  assumes "connection_ok t" "ro_ciphertext r \<noteq> []" "date_column (ro_expiresAt r) = Inr e" "c \<in> set (ct_credentials t)" "rotation_where ws r c"
  shows "rotateInstagramCredential ws r t = Inr (True, rotated ws r e c t)"
proof -
  let ?rows = "update_many (rotation_where ws r) (rotation_data r e) (ct_credentials t)"
  have w: "write_credentials ?rows t = Inr (t\<lparr>ct_credentials := ?rows\<rparr>)"
    by (rule write_update [OF assms(1) rotation_kept]) (use assms(2) in \<open>simp_all add: constraint_simps\<close>)
  have "find (\<lambda>c. cr_id c = ro_credentialId r \<and> cr_workspaceId c = ws) ?rows = Some (rotation_data r e c)"
  proof (cases "find (\<lambda>c. cr_id c = ro_credentialId r \<and> cr_workspaceId c = ws) ?rows")
    case None
    have "rotation_data r e c \<in> set ?rows" using assms(4,5) by (auto simp: set_update_many intro!: bexI [of _ c])
    then show ?thesis using None assms(5) by (auto simp: find_None_iff2 rotation_data_def rotation_where_def)
  next
    case (Some d)
    then obtain d0 where d0: "d0 \<in> set (ct_credentials t)" "cr_id d0 = ro_credentialId r" "d = (if rotation_where ws r d0 then rotation_data r e d0 else d0)"
      by (auto simp: set_update_many rotation_data_def split: if_splits dest!: find_Some_iff2)
    have "d0 = c" using d0(1,2) assms(1,4,5) distinct_map_inj [of cr_id "ct_credentials t" d0 c] by (simp add: connection_ok_def rotation_where_def)
    with Some d0(3) assms(5) show ?thesis by simp
  qed
  with w assms(2,3) rotation_unique [OF assms(1,4,5)] show ?thesis
    by (simp add: rotateInstagramCredential_def rotated_def rotation_data_def)
qed

lemma rotate_lost:
  assumes "connection_ok t" "ro_ciphertext r \<noteq> []" "date_column (ro_expiresAt r) = Inr e" "\<forall>c \<in> set (ct_credentials t). \<not> rotation_where ws r c"
  shows "rotateInstagramCredential ws r t = Inr (False, t)"
proof -
  have none: "count_many (rotation_where ws r) (ct_credentials t) = 0" using assms(4) by (simp add: count_many_def filter_empty_conv)
  have "write_credentials (ct_credentials t) t = Inr t" using assms(1) by (simp add: write_credentials_Inr connection_ok_def)
  with assms(2,3) none show ?thesis by (simp add: rotateInstagramCredential_def update_many_id [OF none])
qed

lemma rotated_ok:
  assumes "connection_ok t" "ro_ciphertext r \<noteq> []" "c \<in> set (ct_credentials t)" "rotation_where ws r c"
  shows "connection_ok (rotated ws r e c t)"
  unfolding rotated_def
proof (rule connection_ok_update [OF assms(1) _ rotation_kept])
  fix a
  let ?Q = "\<lambda>a. ac_id a = cr_accountId c \<and> ac_workspaceId a = ws" and ?g = "\<lambda>a :: account. a\<lparr>ac_tokenExpiresAt := e\<rparr>"
  assume a: "a \<in> set (ct_accounts t)" "ac_connectionStatus (if ?Q a then ?g a else a) = CS_ACTIVE"
  then have "ac_connectionStatus a = CS_ACTIVE" by (simp split: if_splits)
  with a(1) obtain d where d: "d \<in> set (ct_credentials t)" "cr_accountId d = ac_id a" "cr_workspaceId d = ac_workspaceId a" "cr_status d = CR_ACTIVE"
      "cr_expiresAt d = ac_tokenExpiresAt a" using backedE [OF assms(1)] by metis
  have "rotation_where ws r d \<longleftrightarrow> ?Q a"
  proof
    assume "rotation_where ws r d"
    then have "d = c" using distinct_map_inj [of cr_id "ct_credentials t" d c] assms(1,3,4) d(1) by (simp add: connection_ok_def rotation_where_def)
    with d assms(4) show "?Q a" by (simp add: rotation_where_def)
  next
    assume "?Q a"
    then have "d = c" using active_credential_unique [OF assms(1) d(1) assms(3) d(4)] assms(4) d(2) by (simp add: rotation_where_def)
    with assms(4) show "rotation_where ws r d" by simp
  qed
  then show "backed (update_many (rotation_where ws r) (rotation_data r e) (ct_credentials t)) (if ?Q a then ?g a else a)"
    using d by (intro backed_updateI [of d]) (auto simp: rotation_data_def)
qed (use assms(2) in \<open>simp_all add: account_kept_def constraint_simps\<close>)

section \<open>Purges\<close>

lemma reauthorise_ok:
  assumes "connection_ok t" "safe_code reasonCode"
    "\<forall>c \<in> set (ct_credentials t). cr_id c = credentialId \<and> cr_workspaceId c = ws \<longrightarrow> cr_accountId c = accountId"
  shows "\<exists>t'. requireInstagramReauthorisation ws accountId correlationId credentialId occurredAt reasonCode t = Inr t' \<and> connection_ok t'"
proof -
  let ?P = "\<lambda>c. cr_id c = credentialId \<and> cr_status c = CR_ACTIVE \<and> cr_workspaceId c = ws"
  let ?f = "\<lambda>c. c\<lparr>cr_ciphertext := purgedCredentialCiphertext, cr_lastValidatedAt := Some occurredAt,
     cr_lastValidationErrorClass := Some reasonCode, cr_status := CR_REAUTHORISATION_REQUIRED\<rparr>"
  let ?Q = "\<lambda>a. ac_id a = accountId \<and> ac_workspaceId a = ws" and ?g = "\<lambda>a. a\<lparr>ac_connectionStatus := CS_REAUTHORISATION_REQUIRED\<rparr>"
  have kept: "credential_kept ?f" by (simp add: credential_kept_def)
  have "write_credentials (update_many ?P ?f (ct_credentials t)) t = Inr (t\<lparr>ct_credentials := update_many ?P ?f (ct_credentials t)\<rparr>)"
    by (rule write_update [OF assms(1) kept]) (simp_all add: constraint_simps)
  moreover have "connection_ok (t\<lparr>ct_credentials := update_many ?P ?f (ct_credentials t), ct_accounts := update_many ?Q ?g (ct_accounts t)\<rparr>)"
  proof (rule connection_ok_update [OF assms(1) _ kept])
    fix a assume a: "a \<in> set (ct_accounts t)" "ac_connectionStatus (if ?Q a then ?g a else a) = CS_ACTIVE"
    then have act: "ac_connectionStatus a = CS_ACTIVE" "\<not> ?Q a" by (simp_all split: if_splits)
    with a(1) obtain d where "d \<in> set (ct_credentials t)" "cr_accountId d = ac_id a" "cr_workspaceId d = ac_workspaceId a" "cr_status d = CR_ACTIVE"
        "cr_expiresAt d = ac_tokenExpiresAt a" using backedE [OF assms(1)] by metis
    moreover from this act(2) assms(3) have "\<not> ?P d" by auto
    ultimately show "backed (update_many ?P ?f (ct_credentials t)) (if ?Q a then ?g a else a)"
      using act(2) by (intro backed_updateI [of d]) auto
  qed (simp_all add: account_kept_def constraint_simps)
  ultimately show ?thesis using assms(2) by (simp add: requireInstagramReauthorisation_def del: audit_ok) (simp add: connection_ok_def)
qed

lemma disconnect_ok:
  assumes "connection_ok t"
  shows "\<exists>b t'. commitInstagramDisconnect ws accountId userId correlationId occurredAt revocation t = Inr (b, t') \<and> connection_ok t'"
proof -
  let ?P = "\<lambda>c. cr_accountId c = accountId \<and> cr_integrationType c = INSTAGRAM \<and> cr_status c = CR_ACTIVE \<and> cr_workspaceId c = ws"
  let ?f = "\<lambda>c. c\<lparr>cr_ciphertext := purgedCredentialCiphertext, cr_lastValidatedAt := Some occurredAt, cr_status := CR_REVOKED\<rparr>"
  let ?Q = "\<lambda>a. ac_connectionStatus a \<noteq> CS_DISCONNECTED \<and> ac_id a = accountId \<and> ac_workspaceId a = ws"
  let ?g = "\<lambda>a. a\<lparr>ac_connectionStatus := CS_DISCONNECTED, ac_tokenExpiresAt := None\<rparr>"
  have kept: "credential_kept ?f" by (simp add: credential_kept_def)
  have "write_credentials (update_many ?P ?f (ct_credentials t)) t = Inr (t\<lparr>ct_credentials := update_many ?P ?f (ct_credentials t)\<rparr>)"
    by (rule write_update [OF assms(1) kept]) (simp_all add: constraint_simps)
  moreover have "connection_ok (t\<lparr>ct_credentials := update_many ?P ?f (ct_credentials t), ct_accounts := update_many ?Q ?g (ct_accounts t)\<rparr>)"
  proof (rule connection_ok_update [OF assms(1) _ kept])
    fix a assume a: "a \<in> set (ct_accounts t)" "ac_connectionStatus (if ?Q a then ?g a else a) = CS_ACTIVE"
    then have act: "ac_connectionStatus a = CS_ACTIVE" "\<not> ?Q a" by (simp_all split: if_splits)
    with a(1) obtain d where d: "d \<in> set (ct_credentials t)" "cr_accountId d = ac_id a" "cr_workspaceId d = ac_workspaceId a" "cr_status d = CR_ACTIVE"
        "cr_expiresAt d = ac_tokenExpiresAt a" using backedE [OF assms(1)] by metis
    moreover from d act have "\<not> ?P d" by auto
    ultimately show "backed (update_many ?P ?f (ct_credentials t)) (if ?Q a then ?g a else a)"
      using act(2) by (intro backed_updateI [of d]) auto
  qed (simp_all add: account_kept_def constraint_simps)
  ultimately show ?thesis by (simp add: commitInstagramDisconnect_def Let_def del: audit_ok) (simp add: connection_ok_def)
qed

lemma validate_ok:
  assumes "connection_ok t"
  shows "connection_ok (recordInstagramCredentialValidation ws credentialId validatedAt t)"
proof -
  let ?P = "\<lambda>c. cr_id c = credentialId \<and> cr_status c = CR_ACTIVE \<and> cr_workspaceId c = ws"
  let ?f = "\<lambda>c. c\<lparr>cr_lastValidatedAt := Some validatedAt, cr_lastValidationErrorClass := None\<rparr>"
  have "connection_ok (t\<lparr>ct_credentials := update_many ?P ?f (ct_credentials t), ct_accounts := update_many (\<lambda>_. False) id (ct_accounts t)\<rparr>)"
  proof (rule connection_ok_update [OF assms])
    fix a assume "a \<in> set (ct_accounts t)" "ac_connectionStatus (if False then id a else a) = CS_ACTIVE"
    then obtain d where "d \<in> set (ct_credentials t)" "cr_accountId d = ac_id a" "cr_workspaceId d = ac_workspaceId a" "cr_status d = CR_ACTIVE"
        "cr_expiresAt d = ac_tokenExpiresAt a" using backedE [OF assms] by (metis (full_types))
    then show "backed (update_many ?P ?f (ct_credentials t)) (if False then id a else a)" by (intro backed_updateI [of d]) auto
  qed (use assms in \<open>auto simp: account_kept_def credential_kept_def connection_ok_def list_all_iff material_only_when_active_def\<close>)
  then show ?thesis by (simp add: recordInstagramCredentialValidation_def update_many_def)
qed

section \<open>Connecting\<close>

text \<open>After the upsert: identities as before, the account connected, and every other account as it was.\<close>

definition upserted :: "string \<Rightarrow> connection_input \<Rightarrow> string \<Rightarrow> connection_tables \<Rightarrow> connection_tables \<Rightarrow> bool" where
  "upserted ws i accountId t t1 \<longleftrightarrow> ct_credentials t1 = ct_credentials t \<and> distinct (map ac_id (ct_accounts t1)) \<and>
    distinct (map (\<lambda>a. (ac_workspaceId a, ac_providerAccountId a)) (ct_accounts t1)) \<and>
    (\<exists>a \<in> set (ct_accounts t1). ac_id a = accountId \<and> ac_workspaceId a = ws) \<and>
    (\<forall>a \<in> set (ct_accounts t1). ac_id a = accountId \<longrightarrow>
       ac_workspaceId a = ws \<and> ac_tokenExpiresAt a = ci_tokenExpiresAt i \<and> ac_connectionStatus a = CS_ACTIVE) \<and>
    (\<forall>a \<in> set (ct_accounts t1). ac_id a \<noteq> accountId \<longrightarrow> a \<in> set (ct_accounts t)) \<and>
    (\<forall>a \<in> set (ct_accounts t). \<exists>b \<in> set (ct_accounts t1). ac_id b = ac_id a \<and> ac_workspaceId b = ac_workspaceId a)"

lemma upsert_new:
  assumes "connection_ok t" "find (\<lambda>a. ac_workspaceId a = ws \<and> ac_providerAccountId a = ci_providerAccountId i) (ct_accounts t) = None"
    "upsertConnected ws i newId dbNow t = (accountId, t1)" "newId \<notin> ac_id ` set (ct_accounts t)"
  shows "upserted ws i accountId t t1"
proof -
  obtain x where x: "accountId = newId" "t1 = t\<lparr>ct_accounts := ct_accounts t @ [x]\<rparr>" "ac_id x = newId" "ac_workspaceId x = ws"
      "ac_providerAccountId x = ci_providerAccountId i" "ac_tokenExpiresAt x = ci_tokenExpiresAt i" "ac_connectionStatus x = CS_ACTIVE"
    using assms(2,3) by (simp add: upsertConnected_def connected_data_def) (metis account.select_convs)
  have "distinct (map ac_id (ct_accounts t1))" using assms(1,4) by (auto simp: x connection_ok_def)
  moreover have "distinct (map (\<lambda>a. (ac_workspaceId a, ac_providerAccountId a)) (ct_accounts t1))"
    using assms(1,2) by (auto simp: x connection_ok_def find_None_iff2)
  ultimately show ?thesis using assms(4) by (auto simp: upserted_def x)
qed

lemma upsert_known:
  assumes "connection_ok t" "find (\<lambda>a. ac_workspaceId a = ws \<and> ac_providerAccountId a = ci_providerAccountId i) (ct_accounts t) = Some a"
    "upsertConnected ws i newId dbNow t = (accountId, t1)"
  shows "upserted ws i accountId t t1"
proof -
  let ?P = "\<lambda>a. ac_workspaceId a = ws \<and> ac_providerAccountId a = ci_providerAccountId i"
  have a: "a \<in> set (ct_accounts t)" "?P a" using assms(2) by (auto dest: find_Some_iff2)
  have t1: "accountId = ac_id a" "t1 = t\<lparr>ct_accounts := update_many ?P (connected_data i) (ct_accounts t)\<rparr>"
    using assms(2,3) by (simp_all add: upsertConnected_def)
  have keyed: "map ac_id (ct_accounts t1) = map ac_id (ct_accounts t)"
    "map (\<lambda>a. (ac_workspaceId a, ac_providerAccountId a)) (ct_accounts t1) = map (\<lambda>a. (ac_workspaceId a, ac_providerAccountId a)) (ct_accounts t)"
    by (simp_all add: t1 update_many_def connected_data_def)
  have same: "?P b \<longleftrightarrow> b = a" if "b \<in> set (ct_accounts t)" for b
    using that a assms(1) distinct_map_inj [of "\<lambda>a. (ac_workspaceId a, ac_providerAccountId a)" "ct_accounts t" b a] by (auto simp: connection_ok_def)
  have idsame: "ac_id b = ac_id a \<longleftrightarrow> b = a" if "b \<in> set (ct_accounts t)" for b
    using that a assms(1) distinct_map_inj [of ac_id "ct_accounts t" b a] by (auto simp: connection_ok_def)
  have mem: "set (ct_accounts t1) = (\<lambda>b. if b = a then connected_data i b else b) ` set (ct_accounts t)"
    using same by (auto simp: t1 update_many_def)
  show ?thesis
    unfolding upserted_def keyed mem using assms(1) a idsame by (auto simp: t1 connection_ok_def connected_data_def)
qed

lemma upsert_ok:
  assumes "connection_ok t" "upsertConnected ws i newId dbNow t = (accountId, t1)" "newId \<notin> ac_id ` set (ct_accounts t)"
  shows "upserted ws i accountId t t1"
  using upsert_new [OF assms(1) _ assms(2,3)] upsert_known [OF assms(1) _ assms(2)]
  by (cases "find (\<lambda>a. ac_workspaceId a = ws \<and> ac_providerAccountId a = ci_providerAccountId i) (ct_accounts t)") blast+

lemma any_instagram: "k = INSTAGRAM"
  by (cases k)

lemma connect_ok:
  assumes ok: "connection_ok t" and fresh: "newAccountId \<notin> ac_id ` set (ct_accounts t)" "newCredentialId \<notin> cr_id ` set (ct_credentials t)"
    and sealed: "\<And>a. fst (sealed a) \<noteq> []"
  shows "\<exists>a t'. commit_connection ws i sealed scopeHash tokenType now userId correlationId newAccountId newCredentialId dbNow t = Inr (a, t') \<and>
    connection_ok t'"
proof -
  obtain a t1 where up: "upsertConnected ws i newAccountId dbNow t = (a, t1)" by force
  note u = upsert_ok [OF ok up fresh(1), unfolded upserted_def]
  let ?P = "\<lambda>c. cr_workspaceId c = ws \<and> cr_accountId c = a \<and> cr_integrationType c = INSTAGRAM \<and> cr_status c = CR_ACTIVE"
  let ?f = "\<lambda>c. c\<lparr>cr_ciphertext := purgedCredentialCiphertext, cr_status := CR_REVOKED\<rparr>"
  let ?rows = "update_many ?P ?f (ct_credentials t)"
  define new where "new = \<lparr>cr_id = newCredentialId, cr_workspaceId = ws, cr_integrationType = INSTAGRAM, cr_accountId = a,
    cr_ciphertext = fst (sealed a), cr_keyVersion = snd (sealed a), cr_tokenType = tokenType, cr_scopeHash = scopeHash, cr_status = CR_ACTIVE,
    cr_issuedAt = now, cr_expiresAt = ci_tokenExpiresAt i, cr_refreshedAt = None, cr_lastValidatedAt = None, cr_lastValidationErrorClass = None\<rparr>"
  have kept: "credential_kept ?f" by (simp add: credential_kept_def)
  have w: "write_credentials ?rows t = Inr (t\<lparr>ct_credentials := ?rows\<rparr>)"
    by (rule write_update [OF ok kept]) (simp_all add: constraint_simps)
  then have cons: "one_active_credential ?rows" "list_all material_only_when_active ?rows" by (simp_all add: write_credentials_Inr)
  have ids: "map cr_id ?rows = map cr_id (ct_credentials t)" by (simp add: update_many_def)
  have workspace: "cr_workspaceId c = ws" if "c \<in> set (ct_credentials t)" "cr_accountId c = a" for c
    using that ok u unfolding connection_ok_def by metis
  have purged: "cr_accountId c \<noteq> a" if "c \<in> set ?rows" "cr_status c = CR_ACTIVE" for c
  proof -
    obtain d where d: "d \<in> set (ct_credentials t)" "c = (if ?P d then ?f d else d)" using \<open>c \<in> _\<close> unfolding set_update_many by blast
    with that(2) have p: "\<not> ?P d" by auto
    with d(2) have "c = d" by simp
    with p d(1) that(2) workspace any_instagram show ?thesis by blast
  qed
  have active: "one_active_credential (?rows @ [new])"
  proof -
    have "credential_slot new \<notin> credential_slot ` {c \<in> set ?rows. cr_status c = CR_ACTIVE}"
      using purged by (auto simp: credential_slot_def new_def simp del: any_instagram)
    with cons(1) show ?thesis by (simp add: one_active_credential_def new_def)
  qed
  have material: "list_all material_only_when_active (?rows @ [new])"
    using cons(2) sealed by (simp add: material_only_when_active_def new_def)
  let ?t' = "t1\<lparr>ct_credentials := ?rows @ [new]\<rparr>"
  have "activate_credential ws a \<lparr>ai_ciphertext = fst (sealed a), ai_expiresAt = ci_tokenExpiresAt i, ai_issuedAt = now,
      ai_keyVersion = snd (sealed a), ai_scopeHash = scopeHash, ai_tokenType = tokenType\<rparr> newCredentialId t1 = Inr ?t'"
  proof -
    have "newCredentialId \<notin> cr_id ` set ?rows" using fresh(2) ids by (metis set_map)
    then have unused: "\<not> (\<exists>c \<in> set ?rows. cr_id c = newCredentialId)" by blast
    have creds: "ct_credentials t1 = ct_credentials t" using u by blast
    show ?thesis
      unfolding activate_credential_def creds activation_input.select_convs new_def [symmetric]
      using cons unused active material by (simp add: write_credentials_def del: list_all_append)
  qed
  moreover have "connection_ok ?t'"
  proof -
    have distinct_ids: "distinct (map cr_id (?rows @ [new]))" 
      using ok fresh(2) unfolding map_append ids by (simp add: connection_ok_def new_def)
    have owner: "\<exists>b \<in> set (ct_accounts t1). ac_id b = cr_accountId c \<and> ac_workspaceId b = cr_workspaceId c" if "c \<in> set (?rows @ [new])" for c
    proof (cases "c = new")
      case True
      with u show ?thesis by (auto simp: new_def)
    next
      case False
      with \<open>c \<in> _\<close> obtain d where d: "d \<in> set (ct_credentials t)" "cr_accountId c = cr_accountId d" "cr_workspaceId c = cr_workspaceId d"
        by (auto simp: set_update_many split: if_splits)
      then obtain b where "b \<in> set (ct_accounts t)" "ac_id b = cr_accountId c" "ac_workspaceId b = cr_workspaceId c"
        using ok unfolding connection_ok_def by metis
      with u show ?thesis by metis
    qed
    have "backed (?rows @ [new]) b" if b: "b \<in> set (ct_accounts t1)" "ac_connectionStatus b = CS_ACTIVE" for b
    proof (cases "ac_id b = a")
      case True
      with b u have "ac_workspaceId b = ws" "ac_tokenExpiresAt b = ci_tokenExpiresAt i" by blast+
      with True show ?thesis unfolding backed_def by (intro bexI [of _ new]) (simp_all add: new_def)
    next
      case False
      with b u have "b \<in> set (ct_accounts t)" by blast
      then obtain c where c: "c \<in> set (ct_credentials t)" "cr_accountId c = ac_id b" "cr_workspaceId c = ac_workspaceId b" "cr_status c = CR_ACTIVE"
          "cr_expiresAt c = ac_tokenExpiresAt b" using backedE [OF ok _ b(2)] by metis
      then have "c \<in> set (?rows @ [new])" using False by (auto simp: set_update_many intro!: bexI [of _ c])
      with c show ?thesis unfolding backed_def by blast
    qed
    then show ?thesis using distinct_ids owner active material u by (simp add: connection_ok_def)
  qed
  ultimately show ?thesis using up by (simp add: commit_connection_def)
qed

section \<open>Every state\<close>

text \<open>
  The operations on the tables, in any order and with any arguments.  A worker asks for a
  reauthorisation of the account it read with the credential; identifiers are created fresh; other
  parts of the program write columns of accounts that are no business of a connection.
\<close>

inductive connection_step :: "connection_tables \<Rightarrow> connection_tables \<Rightarrow> bool" where
  connect: "newAccountId \<notin> ac_id ` set (ct_accounts t) \<Longrightarrow> newCredentialId \<notin> cr_id ` set (ct_credentials t) \<Longrightarrow> (\<And>a. fst (sealed a) \<noteq> []) \<Longrightarrow>
    commit_connection ws i sealed scopeHash tokenType now userId correlationId newAccountId newCredentialId dbNow t = Inr (accountId, t') \<Longrightarrow>
    connection_step t t'"
| rotate: "rotateInstagramCredential ws r t = Inr (b, t') \<Longrightarrow> connection_step t t'"
| reauthorise: "c \<in> set (ct_credentials t) \<Longrightarrow>
    requireInstagramReauthorisation (cr_workspaceId c) (cr_accountId c) correlationId (cr_id c) occurredAt reasonCode t = Inr t' \<Longrightarrow> connection_step t t'"
| validate: "connection_step t (recordInstagramCredentialValidation ws credentialId validatedAt t)"
| disconnect: "commitInstagramDisconnect ws accountId userId correlationId occurredAt revocation t = Inr (b, t') \<Longrightarrow> connection_step t t'"
| elsewhere: "account_kept f \<Longrightarrow> (\<And>a. ac_connectionStatus (f a) = ac_connectionStatus a \<and> ac_tokenExpiresAt (f a) = ac_tokenExpiresAt a) \<Longrightarrow>
    connection_step t (t\<lparr>ct_accounts := map f (ct_accounts t)\<rparr>)"

inductive_cases connection_stepE: "connection_step t t'"

definition no_connections :: connection_tables where
  "no_connections = \<lparr>ct_accounts = [], ct_credentials = [], ct_audit = []\<rparr>"

lemma no_connections_ok: "connection_ok no_connections"
  by (simp add: connection_ok_def no_connections_def one_active_credential_def)

lemma rotate_cases:
  assumes "connection_ok t" "rotateInstagramCredential ws r t = Inr (b, t')"
  obtains (lost) "\<not> b" "t' = t" | (won) e c where "b" "ro_ciphertext r \<noteq> []" "date_column (ro_expiresAt r) = Inr e"
    "c \<in> set (ct_credentials t)" "rotation_where ws r c" "t' = rotated ws r e c t"
proof -
  obtain e where pre: "ro_ciphertext r \<noteq> []" "date_column (ro_expiresAt r) = Inr e"
    using assms(2) by (auto simp: rotateInstagramCredential_def split: if_splits sum.splits)
  show ?thesis
  proof (cases "\<exists>c \<in> set (ct_credentials t). rotation_where ws r c")
    case True
    then show ?thesis using rotate_found [OF assms(1) pre] assms(2) pre won by auto
  next
    case False
    then show ?thesis using rotate_lost [OF assms(1) pre] assms(2) lost by auto
  qed
qed

lemma elsewhere_ok:
  assumes "connection_ok t" "account_kept f" "\<And>a. ac_connectionStatus (f a) = ac_connectionStatus a \<and> ac_tokenExpiresAt (f a) = ac_tokenExpiresAt a"
  shows "connection_ok (t\<lparr>ct_accounts := map f (ct_accounts t)\<rparr>)"
  using assms by (auto simp: connection_ok_def account_kept_def backed_def o_def)

lemma connection_step_ok: "connection_step t t' \<Longrightarrow> connection_ok t \<Longrightarrow> connection_ok t'"
proof (induction rule: connection_step.induct)
  case (connect newAccountId t newCredentialId sealed)
  then show ?case using connect_ok by (metis Inr_inject Pair_inject)
next
  case (rotate ws r t b t')
  from rotate.prems rotate.hyps show ?case
    by (cases rule: rotate_cases) (use rotate.prems in \<open>auto intro: rotated_ok\<close>)
next
  case (reauthorise c t correlationId occurredAt reasonCode t')
  have "safe_code reasonCode" using reauthorise.hyps(2) by (auto simp: requireInstagramReauthorisation_def split: if_splits)
  moreover have "\<forall>d \<in> set (ct_credentials t). cr_id d = cr_id c \<and> cr_workspaceId d = cr_workspaceId c \<longrightarrow> cr_accountId d = cr_accountId c"
    using reauthorise.prems reauthorise.hyps(1) distinct_map_inj [of cr_id "ct_credentials t" _ c] by (auto simp: connection_ok_def)
  ultimately show ?case using reauthorise_ok [OF reauthorise.prems] reauthorise.hyps(2) by (metis Inr_inject)
next
  case (disconnect ws accountId userId correlationId occurredAt revocation t b t')
  then show ?case using disconnect_ok by (metis Inr_inject Pair_inject)
qed (auto intro: validate_ok elsewhere_ok)

lemma connection_steps_ok: "connection_step\<^sup>*\<^sup>* t t' \<Longrightarrow> connection_ok t \<Longrightarrow> connection_ok t'"
  by (induction rule: rtranclp_induct) (auto intro: connection_step_ok)

text \<open>A credential that is no longer active is not written again.\<close>

lemma retired_kept:
  assumes "connection_step t t'" "connection_ok t" "c \<in> set (ct_credentials t)" "cr_status c \<noteq> CR_ACTIVE"
  shows "c \<in> set (ct_credentials t')"
  using assms
proof (induction rule: connection_step.induct)
  case (connect newAccountId t newCredentialId sealed ws i scopeHash tokenType now userId correlationId dbNow accountId t')
  obtain a t1 where up: "upsertConnected ws i newAccountId dbNow t = (a, t1)" by force
  have "ct_credentials t1 = ct_credentials t" using upsert_ok [OF connect.prems(1) up connect.hyps(1)] by (simp add: upserted_def)
  with connect.prems connect.hyps(4) up show ?case
    by (auto simp: commit_connection_def activate_credential_def write_credentials_def set_update_many split: sum.splits if_splits intro!: bexI [of _ c])
next
  case (rotate ws r t b t')
  from rotate.prems(1) rotate.hyps show ?case
    by (cases rule: rotate_cases) (use rotate.prems in \<open>auto simp: rotated_def set_update_many rotation_where_def intro!: bexI [of _ c]\<close>)
next
  case (reauthorise d t correlationId occurredAt reasonCode t')
  then show ?case
    by (auto simp: requireInstagramReauthorisation_def write_credentials_def set_update_many split: sum.splits if_splits intro!: bexI [of _ c])
next
  case (validate t)
  then show ?case by (auto simp: recordInstagramCredentialValidation_def set_update_many intro!: bexI [of _ c])
next
  case (disconnect ws accountId userId correlationId occurredAt revocation t b t')
  then show ?case
    by (auto simp: commitInstagramDisconnect_def Let_def write_credentials_def set_update_many split: sum.splits if_splits intro!: bexI [of _ c])
qed simp

lemma retired_kept_steps:
  assumes "connection_step\<^sup>*\<^sup>* t t'" "connection_ok t" "c \<in> set (ct_credentials t)" "cr_status c \<noteq> CR_ACTIVE"
  shows "c \<in> set (ct_credentials t')"
  using assms(1)
proof (induction rule: rtranclp_induct)
  case (step u v)
  then show ?case using retired_kept [OF step.hyps(2) connection_steps_ok [OF step.hyps(1) assms(2)]] assms(4) by blast
qed (use assms(3) in simp)


text \<open>One connected account, its credential rotated once.\<close>

definition sample_connection :: connection_input where
  "sample_connection = \<lparr>ci_accountType = BUSINESS, ci_apiVersion = ''v23.0'', ci_grantedScopes = [''basic''], ci_mediaCount = Some 3,
     ci_providerAccountId = ''17841'', ci_tokenExpiresAt = Some 5000000, ci_username = Some ''studio''\<rparr>"

definition sample_connected :: "exn + string \<times> connection_tables" where
  "sample_connected = commit_connection ''w'' sample_connection (\<lambda>_. (''sealed'', 1)) ''h'' ''bearer'' 1000 ''u'' ''c'' ''a1'' ''k1'' 1000 no_connections"

definition sample_rotation :: rotation where
  "sample_rotation = \<lparr>ro_ciphertext = ''newer'', ro_credentialId = ''k1'', ro_expectedRefreshedAt = None, ro_expiresAt = Some (jint 9000000),
     ro_keyVersion = 1, ro_refreshedAt = 2000, ro_tokenType = ''bearer''\<rparr>"

lemma sample_connected_reachable:
  "sample_connected = Inr (fst (projr sample_connected), snd (projr sample_connected))"
  "connection_step\<^sup>*\<^sup>* no_connections (snd (projr sample_connected))"
proof -
  show eq: "sample_connected = Inr (fst (projr sample_connected), snd (projr sample_connected))" by code_simp
  have "connection_step no_connections (snd (projr sample_connected))"
    using connection_step.connect [OF _ _ _ eq [unfolded sample_connected_def]] by (simp add: no_connections_def sample_connected_def)
  then show "connection_step\<^sup>*\<^sup>* no_connections (snd (projr sample_connected))" by (rule r_into_rtranclp)
qed

section \<open>The guarantees\<close>

text \<open>
  C9: a connection has one usable token, and nothing else is kept.  In every state the operations can
  reach, in whatever order they run: a credential holds material exactly while it is active; a connected
  account has exactly one active credential, and the expiry it shows is that credential's; and a credential that has
  been revoked or found unusable is never written again.
\<close>

theorem connected_accounts_backed:
  assumes "connection_step\<^sup>*\<^sup>* no_connections t"
  shows "(\<forall>c \<in> set (ct_credentials t). cr_status c = CR_ACTIVE \<longleftrightarrow> cr_ciphertext c \<noteq> []) \<and>
    (\<forall>a \<in> set (ct_accounts t). ac_connectionStatus a = CS_ACTIVE \<longrightarrow>
       (\<exists>c. {d \<in> set (ct_credentials t). cr_accountId d = ac_id a \<and> cr_status d = CR_ACTIVE} = {c} \<and> cr_expiresAt c = ac_tokenExpiresAt a)) \<and>
    (\<forall>t' c. connection_step\<^sup>*\<^sup>* t t' \<and> c \<in> set (ct_credentials t) \<and> cr_status c \<noteq> CR_ACTIVE \<longrightarrow> c \<in> set (ct_credentials t'))"
proof -
  have ok: "connection_ok t" by (rule connection_steps_ok [OF assms no_connections_ok])
  have "\<exists>c. {d \<in> set (ct_credentials t). cr_accountId d = ac_id a \<and> cr_status d = CR_ACTIVE} = {c} \<and> cr_expiresAt c = ac_tokenExpiresAt a"
    if active: "a \<in> set (ct_accounts t)" "ac_connectionStatus a = CS_ACTIVE" for a
  proof -
    obtain c where c: "c \<in> set (ct_credentials t)" "cr_accountId c = ac_id a" "cr_status c = CR_ACTIVE" "cr_expiresAt c = ac_tokenExpiresAt a"
      using backedE [OF ok active] by metis
    have "d = c" if "d \<in> set (ct_credentials t)" "cr_accountId d = ac_id a" "cr_status d = CR_ACTIVE" for d
      using active_credential_unique [OF ok that(1) c(1)] that c by simp
    with c have "{d \<in> set (ct_credentials t). cr_accountId d = ac_id a \<and> cr_status d = CR_ACTIVE} = {c}" by blast
    with c show ?thesis by blast
  qed
  moreover have "\<forall>c \<in> set (ct_credentials t). cr_status c = CR_ACTIVE \<longleftrightarrow> cr_ciphertext c \<noteq> []"
    using ok by (simp add: connection_ok_def list_all_iff material_only_when_active_def)
  moreover have "\<forall>t' c. connection_step\<^sup>*\<^sup>* t t' \<and> c \<in> set (ct_credentials t) \<and> cr_status c \<noteq> CR_ACTIVE \<longrightarrow> c \<in> set (ct_credentials t')"
    using retired_kept_steps [OF _ ok] by blast
  ultimately show ?thesis by blast
qed

lemma connected_accounts_backed_witness:
  "\<exists>c. {d \<in> set (ct_credentials (snd (projr sample_connected))). cr_accountId d = ''a1'' \<and> cr_status d = CR_ACTIVE} = {c} \<and>
     cr_expiresAt c = Some 5000000"
proof -
  have "ct_accounts (snd (projr sample_connected)) \<noteq> [] \<and> ac_connectionStatus (hd (ct_accounts (snd (projr sample_connected)))) = CS_ACTIVE \<and>
    ac_id (hd (ct_accounts (snd (projr sample_connected)))) = ''a1'' \<and>
    ac_tokenExpiresAt (hd (ct_accounts (snd (projr sample_connected)))) = Some 5000000" by code_simp
  then obtain a where a: "a \<in> set (ct_accounts (snd (projr sample_connected)))" "ac_connectionStatus a = CS_ACTIVE" "ac_id a = ''a1''"
      "ac_tokenExpiresAt a = Some 5000000" by (metis hd_in_set)
  from connected_accounts_backed [OF sample_connected_reachable(2), THEN conjunct2, THEN conjunct1, rule_format, OF a(1,2)]
  show ?thesis unfolding a(3,4) .
qed

text \<open>
  The constraints of the table never refuse a write of the program: in every reachable state,
  rotating to a non-empty ciphertext with a valid expiry, disconnecting, and connecting under fresh
  identifiers succeed.
\<close>

theorem credential_writes_never_refused:
  assumes "connection_step\<^sup>*\<^sup>* no_connections t"
  shows "ro_ciphertext r \<noteq> [] \<Longrightarrow> date_column (ro_expiresAt r) = Inr e \<Longrightarrow> \<exists>b t'. rotateInstagramCredential ws r t = Inr (b, t')"
    and "\<exists>b t'. commitInstagramDisconnect ws a u k now v t = Inr (b, t')"
    and "a \<notin> ac_id ` set (ct_accounts t) \<Longrightarrow> c \<notin> cr_id ` set (ct_credentials t) \<Longrightarrow> (\<And>x. fst (sealed x) \<noteq> []) \<Longrightarrow>
      \<exists>b t'. commit_connection ws i sealed h ty now u k a c dbNow t = Inr (b, t')"
proof -
  have ok: "connection_ok t" by (rule connection_steps_ok [OF assms no_connections_ok])
  show "ro_ciphertext r \<noteq> [] \<Longrightarrow> date_column (ro_expiresAt r) = Inr e \<Longrightarrow> \<exists>b t'. rotateInstagramCredential ws r t = Inr (b, t')"
    using rotate_found [OF ok] rotate_lost [OF ok] by blast
  show "\<exists>b t'. commitInstagramDisconnect ws a u k now v t = Inr (b, t')" using disconnect_ok [OF ok] by blast
  show "a \<notin> ac_id ` set (ct_accounts t) \<Longrightarrow> c \<notin> cr_id ` set (ct_credentials t) \<Longrightarrow> (\<And>x. fst (sealed x) \<noteq> []) \<Longrightarrow>
      \<exists>b t'. commit_connection ws i sealed h ty now u k a c dbNow t = Inr (b, t')"
    using connect_ok [OF ok, of a c sealed] by blast
qed

text \<open>
  C10: of the workers that refreshed one credential, the first to commit wins.  A rotation that is
  accepted leaves the credential active with the new material and expiry; every other rotation that
  started from the same reading is then told that it lost, and changes nothing.
\<close>

theorem rotation_compare_and_swap:
  assumes "connection_step\<^sup>*\<^sup>* no_connections t" "rotateInstagramCredential ws r t = Inr (True, t1)"
    "ro_expectedRefreshedAt r \<noteq> Some (ro_refreshedAt r)"
    "ro_credentialId s = ro_credentialId r" "ro_expectedRefreshedAt s = ro_expectedRefreshedAt r" "ro_ciphertext s \<noteq> []"
    "date_column (ro_expiresAt s) = Inr e"
  shows "rotateInstagramCredential ws s t1 = Inr (False, t1) \<and>
    (\<exists>c \<in> set (ct_credentials t1). cr_id c = ro_credentialId r \<and> cr_status c = CR_ACTIVE \<and> cr_ciphertext c = ro_ciphertext r \<and>
       cr_refreshedAt c = Some (ro_refreshedAt r) \<and> date_column (ro_expiresAt r) = Inr (cr_expiresAt c))"
proof -
  have ok: "connection_ok t" by (rule connection_steps_ok [OF assms(1) no_connections_ok])
  obtain e' c where won: "date_column (ro_expiresAt r) = Inr e'" "c \<in> set (ct_credentials t)" "rotation_where ws r c" "t1 = rotated ws r e' c t"
    using assms(2) by (cases rule: rotate_cases [OF ok assms(2)]) auto
  have ok1: "connection_ok t1" by (rule connection_step_ok [OF connection_step.rotate [OF assms(2)] ok])
  let ?c = "rotation_data r e' c"
  have c: "?c \<in> set (ct_credentials t1)" using won(2,3) by (auto simp: won(4) rotated_def set_update_many intro!: bexI [of _ c])
  have "\<not> rotation_where ws s d" if "d \<in> set (ct_credentials t1)" for d
  proof
    assume d: "rotation_where ws s d"
    then have "d = ?c" using that c ok1 assms(4) won(3) distinct_map_inj [of cr_id "ct_credentials t1" d ?c]
      by (simp add: connection_ok_def rotation_where_def rotation_data_def)
    with d assms(3,5) show False by (simp add: rotation_where_def rotation_data_def)
  qed
  then have "rotateInstagramCredential ws s t1 = Inr (False, t1)" using rotate_lost [OF ok1 assms(6,7)] by blast
  with c won show ?thesis by (auto simp: rotation_where_def rotation_data_def intro!: bexI [of _ ?c])
qed

lemma rotation_compare_and_swap_witness:
  "rotateInstagramCredential ''w'' (sample_rotation\<lparr>ro_ciphertext := ''late''\<rparr>)
     (snd (projr (rotateInstagramCredential ''w'' sample_rotation (snd (projr sample_connected))))) =
   Inr (False, snd (projr (rotateInstagramCredential ''w'' sample_rotation (snd (projr sample_connected)))))"
proof -
  have won: "rotateInstagramCredential ''w'' sample_rotation (snd (projr sample_connected)) =
      Inr (True, snd (projr (rotateInstagramCredential ''w'' sample_rotation (snd (projr sample_connected)))))" by code_simp
  have late: "ro_expectedRefreshedAt sample_rotation \<noteq> Some (ro_refreshedAt sample_rotation)"
    "ro_credentialId (sample_rotation\<lparr>ro_ciphertext := ''late''\<rparr>) = ro_credentialId sample_rotation"
    "ro_expectedRefreshedAt (sample_rotation\<lparr>ro_ciphertext := ''late''\<rparr>) = ro_expectedRefreshedAt sample_rotation"
    "ro_ciphertext (sample_rotation\<lparr>ro_ciphertext := ''late''\<rparr>) \<noteq> []"
    "date_column (ro_expiresAt (sample_rotation\<lparr>ro_ciphertext := ''late''\<rparr>)) = Inr (Some 9000000)" by code_simp+
  show ?thesis using rotation_compare_and_swap [OF sample_connected_reachable(2) won late] by blast
qed

text \<open>How bad a state is; an unknown expiry is not comparable with the others.\<close>

fun severity :: "token_health_state \<Rightarrow> nat" where
  "severity HEALTHY = 0" | "severity REFRESH_DUE = 1" | "severity EXPIRING = 2" | "severity EXPIRED = 3"
| "severity EXPIRY_UNKNOWN = 0" | "severity REAUTHORISATION_NEEDED = 3" | "severity REVOKED = 3"

text \<open>
  The health of a credential says what is to be done with it.  Work is blocked exactly when the
  credential is not active or less than a second of its lifetime is left; a refresh is due exactly
  when work is not blocked and the expiry is unknown or within fifteen days, to the second; a credential is eligible
  only when it is not blocked and a day old, as the provider requires.  As time passes the state of a
  credential never gets better and an eligible one stays eligible until it is blocked.
\<close>

theorem token_health_contract:
  assumes "now \<le> later"
  shows "let h = evaluateInstagramTokenHealth st e issued now; h' = evaluateInstagramTokenHealth st e issued later in
    (instagramConnectionBlocked (he_state h) \<longleftrightarrow> st \<noteq> CR_ACTIVE \<or> (\<exists>x. e = Some x \<and> x - now < 1000)) \<and>
    (he_refreshDue h \<longleftrightarrow> \<not> instagramConnectionBlocked (he_state h) \<and> (\<forall>x. e = Some x \<longrightarrow> x - now < 1296001000)) \<and>
    (he_refreshEligible h \<longleftrightarrow> \<not> instagramConnectionBlocked (he_state h) \<and> issued + 86400000 \<le> now) \<and>
    severity (he_state h) \<le> severity (he_state h') \<and>
    (he_refreshEligible h \<and> \<not> instagramConnectionBlocked (he_state h') \<longrightarrow> he_refreshEligible h')"
proof -
  have age: "max 0 ((n - issued) div 1000) \<ge> 86400 \<longleftrightarrow> issued + 86400000 \<le> n" for n by linarith
  have left: "(x - n) div 1000 \<le> 0 \<longleftrightarrow> x - n < 1000" "(x - n) div 1000 \<le> 1296000 \<longleftrightarrow> x - n < 1296001000"
    "(x - n) div 1000 \<le> 432000 \<longleftrightarrow> x - n < 432001000" for x n :: int by linarith+
  show ?thesis
    unfolding Let_def evaluateInstagramTokenHealth_def frozenHealth_def instagramConnectionBlocked_def instagramTokenRefreshMinimumAgeSeconds_def
      instagramTokenRefreshDueDays_def instagramTokenExpiryWarningDays_def secondsPerDay_def
    using assms by (cases st; cases e) (auto simp: age left)
qed

lemma token_health_contract_witness:
  "severity (he_state (evaluateInstagramTokenHealth CR_ACTIVE (Some 2000000000) 0 100000000)) \<le>
   severity (he_state (evaluateInstagramTokenHealth CR_ACTIVE (Some 2000000000) 0 2000000000))"
proof -
  have "(100000000 :: int) \<le> 2000000000" by simp
  from token_health_contract [OF this, of CR_ACTIVE "Some 2000000000" 0] show ?thesis unfolding Let_def by blast
qed

end
