(* ===== verification/Analytics_Fingerprints.thy ===== *)
theory Analytics_Fingerprints
  imports Analytics_Cohorts JS_Text "HOL-Library.Word"
begin

text \<open>
  The fingerprints that tell whether a calculation is current: \<open>createCohortFingerprint\<close> of
  \<open>packages/domain/src/analytics-cohorts.ts\<close> and \<open>createRunInputFingerprint\<close> of
  \<open>packages/db/src/analytics-runs.ts\<close>.  Both hash the JSON text of an array; the hash function is a
  parameter, from texts (as UTF-8) to bytes.
\<close>

section \<open>The texts\<close>

definition analyticsVersion :: string where
  "analyticsVersion = ''account-analytics-v1.0.0''"

definition cohortSelectionVersion :: string where
  "cohortSelectionVersion = ''account-cohort-v1.0.0''"

definition statisticsVersion :: string where
  "statisticsVersion = ''account-statistics-v1.0.0''"

datatype cohort_kind = CK_account | CK_recent | CK_category

fun cohort_kind_text :: "cohort_kind \<Rightarrow> string" where
  "cohort_kind_text CK_account = ''account''"
| "cohort_kind_text CK_recent = ''recent''"
| "cohort_kind_text CK_category = ''category''"

fun age_window_text :: "age_window \<Rightarrow> string" where
  "age_window_text W_import = ''import''"
| "age_window_text W_hour_1 = ''hour_1''"
| "age_window_text W_day_1 = ''day_1''"
| "age_window_text W_day_3 = ''day_3''"
| "age_window_text W_day_7 = ''day_7''"
| "age_window_text W_day_30 = ''day_30''"
| "age_window_text W_mature = ''mature''"
| "age_window_text W_lifetime = ''lifetime''"

fun metric_text :: "derived_metric \<Rightarrow> string" where
  "metric_text engagement_count = ''engagement_count''"
| "metric_text engagement_rate_reach = ''engagement_rate_reach''"
| "metric_text like_rate_reach = ''like_rate_reach''"
| "metric_text comment_rate_reach = ''comment_rate_reach''"
| "metric_text share_rate_reach = ''share_rate_reach''"
| "metric_text save_rate_reach = ''save_rate_reach''"
| "metric_text profile_visit_rate_reach = ''profile_visit_rate_reach''"
| "metric_text follow_conversion_rate = ''follow_conversion_rate''"
| "metric_text follow_rate_reach = ''follow_rate_reach''"
| "metric_text average_watch_percentage = ''average_watch_percentage''"
| "metric_text completion_proxy = ''completion_proxy''"

record cohort_definition =
  cd_ageWindow :: age_window
  cd_categoryValue :: "string option"
  cd_instagramAccountId :: "string option"
  cd_kind :: cohort_kind
  cd_publishedFrom :: string
  cd_publishedTo :: string
  cd_metric :: derived_metric

definition json_nullable :: "string option \<Rightarrow> json" where
  "json_nullable v = (case v of None \<Rightarrow> JNull | Some s \<Rightarrow> JStr s)"

definition cohort_json :: "cohort_definition \<Rightarrow> string list \<Rightarrow> json" where
  "cohort_json d snapshotIds =
     JArr [JStr analyticsVersion, JStr cohortSelectionVersion, JStr (cohort_kind_text (cd_kind d)),
       json_nullable (cd_instagramAccountId d), JStr (metric_text (cd_metric d)),
       JStr (age_window_text (cd_ageWindow d)), json_nullable (cd_categoryValue d),
       JStr (cd_publishedFrom d), JStr (cd_publishedTo d), JArr (map JStr (sort snapshotIds))]"

type_synonym hash = "string \<Rightarrow> 8 word list"

definition digest_hex :: "hash \<Rightarrow> string \<Rightarrow> string" where
  "digest_hex sha256 canonical = hex_text (map unat (sha256 canonical))"

definition createCohortFingerprint :: "hash \<Rightarrow> cohort_definition \<Rightarrow> string list \<Rightarrow> string" where
  "createCohortFingerprint sha256 d snapshotIds = digest_hex sha256 (json_text (cohort_json d snapshotIds))"

definition run_input_json :: "string list \<Rightarrow> string list \<Rightarrow> json" where
  "run_input_json analysisIds snapshotIds =
     JArr [JStr analyticsVersion, JStr statisticsVersion, JArr (map JStr (sort analysisIds)),
       JArr (map JStr (sort snapshotIds))]"

definition createRunInputFingerprint :: "hash \<Rightarrow> string list \<Rightarrow> string list \<Rightarrow> string" where
  "createRunInputFingerprint sha256 analysisIds snapshotIds =
     digest_hex sha256 (json_text (run_input_json analysisIds snapshotIds))"

section \<open>What a fingerprint identifies\<close>

text \<open>Some hash function tells any two distinct texts apart.\<close>

lemma hash_separates: "(\<forall>sha256. digest_hex sha256 s = digest_hex sha256 t) \<longleftrightarrow> s = t"
proof
  assume "\<forall>sha256. digest_hex sha256 s = digest_hex sha256 t"
  from spec [OF this, of "\<lambda>x. if x = s then [0] else []"] show "s = t"
    by (auto simp: digest_hex_def hex_text_def split: if_splits)
qed simp

lemma sort_eq_mset: "sort xs = sort ys \<longleftrightarrow> mset xs = mset ys"
proof
  assume "sort xs = sort ys"
  then show "mset xs = mset ys" by (metis mset_sort)
next
  assume "mset xs = mset ys"
  then show "sort xs = sort ys" by (intro properties_for_sort) simp_all
qed

lemma JStr_list_eq [simp]: "map JStr xs = map JStr ys \<longleftrightarrow> xs = ys"
  by (simp add: inj_map_eq_map inj_def)

lemma json_nullable_eq [simp]: "json_nullable a = json_nullable b \<longleftrightarrow> a = b"
  by (simp add: json_nullable_def split: option.split)

lemma cohort_kind_text_inj: "cohort_kind_text a = cohort_kind_text b \<longleftrightarrow> a = b"
  by (cases a; cases b; simp)

lemma age_window_text_inj: "age_window_text v = age_window_text w \<longleftrightarrow> v = w"
  by (cases v; cases w; simp)

lemma metric_text_inj: "metric_text m = metric_text n \<longleftrightarrow> m = n"
  by (cases m; cases n; simp)

section \<open>Properties\<close>

text \<open>
  A fingerprint identifies the inputs and nothing else.  Two runs have the same fingerprint
  under every hash function if and only if they read the same analyses and the same snapshots, in
  whatever order; and two cohorts if and only if their definitions agree in every field and they
  read the same snapshots.  No identifier or category value, whatever characters it has, can make
  two different inputs print the same text.
\<close>

theorem fingerprints_identify_inputs:
  "((\<forall>sha256. createRunInputFingerprint sha256 as ss = createRunInputFingerprint sha256 bs ts) \<longleftrightarrow>
     mset as = mset bs \<and> mset ss = mset ts) \<and>
   ((\<forall>sha256. createCohortFingerprint sha256 d ss = createCohortFingerprint sha256 e ts) \<longleftrightarrow>
     d = e \<and> mset ss = mset ts)"
proof
  show "(\<forall>sha256. createRunInputFingerprint sha256 as ss = createRunInputFingerprint sha256 bs ts) \<longleftrightarrow>
      mset as = mset bs \<and> mset ss = mset ts"
    unfolding createRunInputFingerprint_def hash_separates json_text_inj
    by (simp add: run_input_json_def sort_eq_mset)
  show "(\<forall>sha256. createCohortFingerprint sha256 d ss = createCohortFingerprint sha256 e ts) \<longleftrightarrow>
      d = e \<and> mset ss = mset ts"
    unfolding createCohortFingerprint_def hash_separates json_text_inj
    by (cases d; cases e) (auto simp: cohort_json_def sort_eq_mset cohort_kind_text_inj age_window_text_inj metric_text_inj)
qed

end
