(* ===== verification/Job_Sweep.thy ===== *)
theory Job_Sweep
  imports Job_Requests JS_Date
begin

text \<open>
  The schedulers of the worker (\<open>apps/worker/src/analytics/analytics-scheduler.ts\<close>,
  \<open>apps/worker/src/instagram/sync-scheduler.ts\<close> and \<open>token-maintenance-scheduler.ts\<close>) share one shape: a bounded read of
  what is due, then one enqueue for each row under a key that names the work and its period.  A sweep is
  that loop; the locale states what a scheduler owes it and what it gets.
\<close>

section \<open>Requests\<close>

record sweep_request =
  sq_handlerVersion :: int
  sq_idempotencyKey :: string
  sq_priority :: "js_num option"
  sq_queueName :: string
  sq_resourceId :: string
  sq_resourceType :: string
  sq_workspaceId :: string

definition sweep_input :: "string \<Rightarrow> sweep_request \<Rightarrow> enqueue_input" where
  "sweep_input correlationId r =
     \<lparr>ei_correlationId = correlationId, ei_handlerVersion = jint (sq_handlerVersion r), ei_idempotencyKey = sq_idempotencyKey r,
      ei_inputVersion = None, ei_maxAttempts = None, ei_priority = sq_priority r, ei_queueName = sq_queueName r,
      ei_resourceId = Some (sq_resourceId r), ei_resourceType = Some (sq_resourceType r)\<rparr>"

text \<open>
  One call each, with the identifiers it creates: the job's, the outbox record's and the
  correlation.  An error is reported and the sweep goes on.
\<close>

fun enqueue_each :: "uuid_lib \<Rightarrow> time \<Rightarrow> sweep_request list \<Rightarrow> (string \<times> string \<times> string) list \<Rightarrow>
    'r database \<Rightarrow> nat \<times> 'r database" where
  "enqueue_each lib dbNow (r # rs) ((jobId, outboxId, correlationId) # ids) db =
     (case enqueueBackgroundJob lib db (sq_workspaceId r) (sweep_input correlationId r) jobId outboxId dbNow of
        (res, db') \<Rightarrow> (case enqueue_each lib dbNow rs ids db' of
          (n, db'') \<Rightarrow> ((case res of Inr e \<Rightarrow> if er_created e then n + 1 else n | Inl _ \<Rightarrow> n), db'')))"
| "enqueue_each lib dbNow _ _ db = (0, db)"

text \<open>A job of the key exists, whatever has become of it.\<close>

definition job_for :: "sweep_request \<Rightarrow> job \<Rightarrow> bool" where
  "job_for r j \<longleftrightarrow> j_workspaceId j = sq_workspaceId r \<and> j_queueName j = sq_queueName r \<and>
     j_handlerVersion j = sq_handlerVersion r \<and> j_idempotencyKey j = trim (sq_idempotencyKey r)"

definition scheduled :: "'r database \<Rightarrow> sweep_request \<Rightarrow> bool" where
  "scheduled db r \<longleftrightarrow> (\<exists>j \<in> set (db_jobs db). job_for r j)"

definition admissible :: "uuid_lib \<Rightarrow> sweep_request \<Rightarrow> bool" where
  "admissible lib r \<longleftrightarrow> safe_key 254 (trim (sq_idempotencyKey r)) \<and> 1 \<le> sq_handlerVersion r \<and> sq_handlerVersion r \<le> 1000 \<and>
     isQueueName (sq_queueName r) \<and> sq_priority r \<in> {None, Some (jint 0)} \<and> safe_lower_name (trim (sq_resourceType r)) \<and>
     isUuidV7 lib (sq_resourceId r)"

text \<open>Identifiers that a run of the loop creates: new ones, and correlations of the right shape.\<close>

definition fresh_ids :: "(string \<times> string \<times> string) list \<Rightarrow> 'r database \<Rightarrow> bool" where
  "fresh_ids ids db \<longleftrightarrow> distinct (map fst ids) \<and> fst ` set ids \<inter> j_id ` set (db_jobs db) = {} \<and>
     list_all (\<lambda>(_, _, c). uuid_pattern c) ids"

section \<open>Keys\<close>

text \<open>
  A key names the work, a row and a period: a lower-case word, an identifier and a text
  of letters, digits, dashes and, in a time, colons and a dot.
\<close>

definition key_char :: "char \<Rightarrow> bool" where
  "key_char c \<longleftrightarrow> is_alnum c \<or> c \<in> set ''._:-''"

definition row_id :: "uuid_lib \<Rightarrow> string \<Rightarrow> bool" where
  "row_id lib s \<longleftrightarrow> uuid_pattern s \<and> isUuidV7 lib s"

lemma dash_char: "is_dash c \<longleftrightarrow> c = CHR ''-''"
proof
  assume "is_dash c"
  then have "of_char c = (45 :: nat)" by (simp add: is_dash_def code_in_def)
  then show "c = CHR ''-''" using of_char_eq_iff [of c "CHR ''-''", where 'a = nat] by simp
qed (simp add: is_dash_def code_in_def)

lemma uuid_chars: "uuid_pattern s \<Longrightarrow> list_all (\<lambda>c. is_alnum c \<or> c = CHR ''-'') s"
proof -
  assume "uuid_pattern s"
  then have "list_all2 (\<lambda>P c. P c \<and> P \<in> set uuid_classes) uuid_classes s" by (simp add: uuid_pattern_def list_all2_conv_all_nth)
  then have "list_all2 (\<lambda>P c. is_alnum c \<or> c = CHR ''-'') uuid_classes s"
    by (rule list_all2_mono)
      (auto simp: uuid_classes_def dash_char [symmetric] is_alnum_def is_hex_def is_variant_def is_digit_def is_upper_def is_lower_def code_in_def)
  then show ?thesis by (auto simp: list_all2_conv_all_nth list_all_length)
qed

lemma trim_key: "list_all key_char s \<Longrightarrow> trim s = s"
proof (cases "s = []")
  case False
  assume "list_all key_char s"
  with False have "key_char (hd s)" "key_char (last s)" by (simp_all add: list_all_iff)
  moreover have "\<not> is_space c" if "key_char c" for c
    using that by (auto simp: key_char_def is_alnum_def is_digit_def is_upper_def is_lower_def is_space_def code_in_def)
  ultimately show ?thesis using trim_id by blast
qed (simp add: trim_def)

lemma key_admitted:
  assumes "list_all key_char s" "is_alnum (hd s)" "s \<noteq> []" "length s \<le> 255"
  shows "safe_key 254 (trim s)" "trim s = s"
proof -
  show eq: "trim s = s" by (rule trim_key [OF assms(1)])
  obtain c cs where s: "s = c # cs" using assms(3) by (cases s) auto
  from assms have "safe_key 254 s" unfolding s by (simp add: safe_key_def key_char_def [abs_def])
  then show "safe_key 254 (trim s)" by (simp only: eq)
qed

lemma ISO_chars:
  assumes "plain_instant t"
  shows "list_all key_char (toISOString t)"
proof -
  have "is_digit c \<or> c = CHR ''-'' \<Longrightarrow> key_char c" for c by (auto simp: key_char_def is_alnum_def)
  then have "list_all key_char (date_text (t div 86400000))"
    by (rule list.pred_mono_strong [OF date_text_chars [OF plain_days [OF assms]]])
  moreover have "list_all key_char (time_text (t mod 86400000))" by (rule time_text_chars) (simp_all add: key_char_def is_alnum_def)
  moreover have "key_char CHR ''T''" "key_char CHR ''Z''" by (simp_all add: key_char_def is_alnum_def is_upper_def code_in_def)
  ultimately show ?thesis by (simp add: toISOString_def)
qed

lemma ISO_length: "plain_instant t \<Longrightarrow> length (toISOString t) = 24"
  using length_date_text [OF plain_days, of t] length_time_text [of "t mod 86400000"] by (simp add: toISOString_def)

section \<open>One enqueue\<close>

lemma same_key_job_for: "same_job_key (new_job (sq_workspaceId r) (sweep_input c r) i t) j \<longleftrightarrow> job_for r j"
  unfolding same_job_key_def new_job_def sweep_input_def job_for_def by auto

lemma new_job_for: "job_for r (new_job (sq_workspaceId r) (sweep_input c r) i t)"
  by (simp add: job_for_def new_job_def sweep_input_def)

lemma same_key_scheduled:
  "(\<exists>j \<in> set (db_jobs db). same_job_key (new_job (sq_workspaceId r) (sweep_input c r) i t) j) \<longleftrightarrow> scheduled db r"
  by (simp only: same_key_job_for scheduled_def)

text \<open>A key that has a job, in whatever state, is not given another.\<close>

lemma enqueue_scheduled:
  assumes "scheduled db r" "jobId \<notin> j_id ` set (db_jobs db)"
    "enqueueBackgroundJob lib db (sq_workspaceId r) (sweep_input c r) jobId oid dbNow = (res, db')"
  shows "db_jobs db' = db_jobs db" "db_results db' = db_results db" "db_online db' = db_online db" "res = Inr e \<Longrightarrow> \<not> er_created e"
proof -
  let ?new = "new_job (sq_workspaceId r) (sweep_input c r) jobId dbNow"
  obtain j where "j \<in> set (db_jobs db)" "same_job_key ?new j" using assms(1) same_key_scheduled by blast
  then have same: "insert_job ?new (db_jobs db) = db_jobs db" by (auto simp: insert_job_def same_job_key_def)
  have "db_jobs db' = db_jobs db \<and> db_results db' = db_results db \<and> db_online db' = db_online db"
  proof (cases res)
    case (Inl e)
    then show ?thesis using assms(3) transaction_Inl unfolding enqueueBackgroundJob_def by blast
  next
    case (Inr e)
    then show ?thesis using assms(3) same
      by (auto simp: enqueueBackgroundJob_def transaction_Inr enqueueBackgroundJobInTransaction_def Let_def
          split: option.splits if_splits)
  qed
  then show "db_jobs db' = db_jobs db" "db_results db' = db_results db" "db_online db' = db_online db" by simp_all
  assume "res = Inr e"
  with assms(3) same obtain job where "find (same_job_key ?new) (db_jobs db) = Some job" "er_created e \<longleftrightarrow> j_id job = jobId"
    by (auto simp: enqueueBackgroundJob_def transaction_Inr enqueueBackgroundJobInTransaction_def Let_def
        split: option.splits if_splits)
  then show "\<not> er_created e" using assms(2) find_Some_iff2 [of "same_job_key ?new" "db_jobs db" job] by blast
qed

lemma admissible_valid:
  assumes "admissible lib r" "uuid_pattern c"
  shows "validateEnqueue lib (sweep_input c r) = None"
proof -
  have "parseCorrelationId (Some c) \<noteq> None" using assms(2) trim_uuid [of c] uuid_pattern_length [of c] by (auto simp: parseCorrelationId_def)
  moreover have "isSafeInteger (jint n) \<and> \<not> jlt (jint n) (jint 1)" if "1 \<le> n" "n \<le> 1000" for n
    using that by (simp add: maxSafe_def)
  moreover have "isSafeInteger (jint 8)" "isSafeInteger (jint 0)" by (simp_all add: maxSafe_def)
  ultimately show ?thesis using assms(1) by (auto simp: validateEnqueue_def admissible_def sweep_input_def Let_def)
qed

lemma find_last: "(\<And>x. x \<in> set xs \<Longrightarrow> \<not> P x) \<Longrightarrow> P y \<Longrightarrow> find P (xs @ [y]) = Some y"
  by (induction xs) auto

text \<open>A new key is given a queued job.\<close>

lemma enqueue_unscheduled:
  assumes "\<not> scheduled db r" "jobId \<notin> j_id ` set (db_jobs db)" "admissible lib r" "uuid_pattern c" "db_online db"
    "enqueueBackgroundJob lib db (sq_workspaceId r) (sweep_input c r) jobId oid dbNow = (res, db')"
  shows "db_jobs db' = db_jobs db @ [new_job (sq_workspaceId r) (sweep_input c r) jobId dbNow]" "db_results db' = db_results db"
    "db_online db'" "\<exists>e. res = Inr e \<and> er_created e"
proof -
  let ?new = "new_job (sq_workspaceId r) (sweep_input c r) jobId dbNow"
  have none: "\<not> same_job_key ?new j" if "j \<in> set (db_jobs db)" for j using assms(1) same_key_scheduled that by blast
  have sym: "same_job_key j ?new \<longleftrightarrow> same_job_key ?new j" for j unfolding same_job_key_def by metis
  have id: "j_id ?new = jobId" by (simp add: new_job_def)
  have "\<not> (\<exists>j \<in> set (db_jobs db). j_id j = j_id ?new \<or> same_job_key j ?new)" unfolding sym id using none assms(2) by blast
  then have "insert_job ?new (db_jobs db) = db_jobs db @ [?new]" by (simp only: insert_job_def if_False)
  moreover have "find (same_job_key ?new) (db_jobs db @ [?new]) = Some ?new" by (rule find_last [OF none]) (simp_all add: same_job_key_def)
  moreover note id
  ultimately show "db_jobs db' = db_jobs db @ [?new]" "db_results db' = db_results db" "db_online db'" "\<exists>e. res = Inr e \<and> er_created e"
    using assms(4-6) admissible_valid [OF assms(3,4)]
    by (auto simp: enqueueBackgroundJob_def transaction_def enqueueBackgroundJobInTransaction_def Let_def idempotency_conflict_def sweep_input_def)
qed

section \<open>The loop\<close>

lemma enqueue_each_scheduled:
  assumes "\<forall>r \<in> set rs. scheduled db r" "fst ` set ids \<inter> j_id ` set (db_jobs db) = {}"
  shows "fst (enqueue_each lib dbNow rs ids db) = 0 \<and> db_jobs (snd (enqueue_each lib dbNow rs ids db)) = db_jobs db \<and>
    db_results (snd (enqueue_each lib dbNow rs ids db)) = db_results db"
  using assms
proof (induction lib dbNow rs ids db rule: enqueue_each.induct)
  case (1 lib dbNow r rs jobId outboxId correlationId ids db)
  obtain res db' where enq: "enqueueBackgroundJob lib db (sq_workspaceId r) (sweep_input correlationId r) jobId outboxId dbNow = (res, db')"
    by force
  have fresh: "jobId \<notin> j_id ` set (db_jobs db)" using "1.prems"(2) by auto
  note kept = enqueue_scheduled [OF _ fresh enq]
  have sch: "scheduled db r" using "1.prems"(1) by simp
  have "\<forall>r \<in> set rs. scheduled db' r" using "1.prems"(1) kept(1) [OF sch] by (simp add: scheduled_def)
  moreover have "fst ` set ids \<inter> j_id ` set (db_jobs db') = {}" using "1.prems"(2) kept(1) [OF sch] by auto
  ultimately show ?case
    using "1.IH" [OF enq [symmetric]] kept [OF sch]
    by (cases "enqueue_each lib dbNow rs ids db'") (auto simp: enq split: sum.split)
qed simp_all

text \<open>What a run leaves: the jobs that were there, and after them one queued job for each key that had none.\<close>

definition swept :: "sweep_request list \<Rightarrow> string set \<Rightarrow> 'r database \<Rightarrow> nat \<Rightarrow> 'r database \<Rightarrow> bool" where
  "swept rs ids db n db' \<longleftrightarrow> db_results db' = db_results db \<and> db_online db' \<and> (\<forall>r \<in> set rs. scheduled db' r) \<and>
     (\<exists>new. db_jobs db' = db_jobs db @ new \<and> length new = n \<and>
        (\<forall>j \<in> set new. j_state j = QUEUED \<and> j_id j \<in> ids \<and> (\<exists>r \<in> set rs. job_for r j)))"

lemma scheduled_append: "scheduled db r \<Longrightarrow> db_jobs db' = db_jobs db @ new \<Longrightarrow> scheduled db' r"
  by (auto simp: scheduled_def)

lemma enqueue_each_swept:
  assumes "list_all (admissible lib) rs" "fresh_ids ids db" "length rs \<le> length ids" "db_online db"
  shows "swept rs (fst ` set ids) db (fst (enqueue_each lib dbNow rs ids db)) (snd (enqueue_each lib dbNow rs ids db))"
  using assms
proof (induction lib dbNow rs ids db rule: enqueue_each.induct)
  case (1 lib dbNow r rs jobId outboxId c ids db)
  let ?new = "new_job (sq_workspaceId r) (sweep_input c r) jobId dbNow"
  obtain res db' where enq: "enqueueBackgroundJob lib db (sq_workspaceId r) (sweep_input c r) jobId outboxId dbNow = (res, db')" by force
  have fresh: "jobId \<notin> j_id ` set (db_jobs db)" "jobId \<notin> fst ` set ids" "uuid_pattern c" "distinct (map fst ids)"
      "fst ` set ids \<inter> j_id ` set (db_jobs db) = {}" "list_all (\<lambda>(_, _, c). uuid_pattern c) ids" and adm: "admissible lib r"
    using "1.prems"(1,2) by (auto simp: fresh_ids_def)
  obtain n db'' where rest: "enqueue_each lib dbNow rs ids db' = (n, db'')" by force
  note IH = "1.IH" [OF enq [symmetric], unfolded rest fst_conv snd_conv]
  show ?case
  proof (cases "scheduled db r")
    case True
    note same = enqueue_scheduled [OF True fresh(1) enq]
    have "fresh_ids ids db'" using fresh by (simp add: fresh_ids_def same(1))
    then have IH: "swept rs (fst ` set ids) db' n db''" using IH "1.prems"(1,3,4) same(3) by simp
    moreover have "(case res of Inl _ \<Rightarrow> n | Inr e \<Rightarrow> if er_created e then n + 1 else n) = n" using same(4) by (auto split: sum.split)
    ultimately show ?thesis
      using True by (auto simp: enq rest swept_def same(1,2) intro: scheduled_append)
  next
    case False
    note more = enqueue_unscheduled [OF False fresh(1) adm fresh(3) "1.prems"(4) enq]
    have "fresh_ids ids db'" using fresh by (auto simp: fresh_ids_def more(1) new_job_def)
    then have IH: "swept rs (fst ` set ids) db' n db''" using IH "1.prems"(1,3) more(3) by simp
    have "scheduled db' r" using more(1) new_job_for [of r c jobId dbNow] by (auto simp: scheduled_def)
    moreover have "(case res of Inl _ \<Rightarrow> n | Inr e \<Rightarrow> if er_created e then n + 1 else n) = n + 1" using more(4) by auto
    moreover have "j_state ?new = QUEUED" "j_id ?new = jobId" by (simp_all add: new_job_def)
    moreover note new_job_for [of r c jobId dbNow]
    ultimately show ?thesis
      using IH by (auto simp: enq rest swept_def more(1,2) intro: scheduled_append)
  qed
qed (auto simp: swept_def)

section \<open>A scheduler\<close>

text \<open>
  A scheduler reads what is due from the results part of the database.  It owes requests the
  engine admits, for tables whose identifiers are of the program's kind.
\<close>

locale sweeper =
  fixes requests :: "int \<Rightarrow> time \<Rightarrow> 'r \<Rightarrow> sweep_request list"
    and tables_wf :: "uuid_lib \<Rightarrow> 'r \<Rightarrow> bool"
  assumes requests_admissible: "tables_wf lib t \<Longrightarrow> plain_instant now \<Longrightarrow> r \<in> set (requests limit now t) \<Longrightarrow> admissible lib r"
begin

text \<open>A sweep schedules everything it read, and counts the jobs it adds.\<close>

lemma sweep_schedules:
  assumes "tables_wf lib (db_results db)" "plain_instant now" "db_online db" "fresh_ids ids db"
    "length (requests limit now (db_results db)) \<le> length ids"
  shows "swept (requests limit now (db_results db)) (fst ` set ids) db (fst (enqueue_each lib dbNow (requests limit now (db_results db)) ids db))
    (snd (enqueue_each lib dbNow (requests limit now (db_results db)) ids db))"
  by (rule enqueue_each_swept) (use assms requests_admissible in \<open>auto simp: list_all_iff\<close>)

text \<open>The next sweep, by whatever worker, adds nothing for work whose key is the same.\<close>

lemma sweep_again:
  assumes "tables_wf lib (db_results db)" "plain_instant now" "db_online db" "fresh_ids ids db"
    "length (requests limit now (db_results db)) \<le> length ids"
    and db': "db' = snd (enqueue_each lib dbNow (requests limit now (db_results db)) ids db)"
    and keys: "set (requests limit' later (db_results db)) \<subseteq> set (requests limit now (db_results db))"
    and fresh: "fst ` set ids' \<inter> j_id ` set (db_jobs db') = {}"
  shows "fst (enqueue_each lib dbNow' (requests limit' later (db_results db')) ids' db') = 0 \<and>
    db_jobs (snd (enqueue_each lib dbNow' (requests limit' later (db_results db')) ids' db')) = db_jobs db'"
proof -
  note first = sweep_schedules [OF assms(1-5), of dbNow, folded db', unfolded swept_def]
  then have "db_results db' = db_results db" "\<forall>r \<in> set (requests limit' later (db_results db')). scheduled db' r" using keys by auto
  from enqueue_each_scheduled [OF this(2) fresh] show ?thesis by blast
qed

end

end
