(* ===== verification/Analytics_Runs.thy ===== *)
theory Analytics_Runs
  imports Analytics_Fingerprints Job_Sweep Content_Store
begin

text \<open>
  Publishing statistics: \<open>packages/db/src/analytics-runs.ts\<close> (the debounce markers, the runs and
  their activation), \<open>loadScope\<close> and the commits of
  \<open>apps/worker/src/analytics/recalculate-handler.ts\<close>, and the sweep of
  \<open>apps/worker/src/analytics/analytics-scheduler.ts\<close>, which enqueues through the job engine.

  The tables are the results part of the engine's database.  What the calculation itself writes is
  a number of membership rows; the inputs it read come in as identifiers.  The order of accounts
  that fall due at the same instant is that of the table.
\<close>

section \<open>Rows\<close>

datatype run_state = R_BUILDING | R_ACTIVE | R_SUPERSEDED | R_FAILED

datatype run_failure = CALCULATION_FAILED | INPUTS_CHANGED | NO_ELIGIBLE_ANALYSES | STATISTIC_COUNT_MISMATCH

record analytics_run =
  ar_id :: string
  ar_workspaceId :: string
  ar_instagramAccountId :: "string option"
  ar_state :: run_state
  ar_ageWindow :: age_window
  ar_publishedFrom :: time
  ar_publishedTo :: time
  ar_inputFingerprint :: string
  ar_statisticCount :: nat
  ar_analysisCount :: nat
  ar_startedAt :: time
  ar_activatedAt :: "time option"
  ar_durationMs :: "int option"
  ar_failureCode :: "run_failure option"

record run_statistic =
  rs_workspaceId :: string
  rs_runId :: string
  rs_statisticId :: string

record analytics_tables =
  an_accounts :: "account list"
  an_runs :: "analytics_run list"
  an_runStatistics :: "run_statistic list"

text \<open>
  The partial unique index of the migrations: one active run per workspace and scope, null being a
  scope like any other.
\<close>

definition run_scope :: "analytics_run \<Rightarrow> string \<times> string option" where
  "run_scope r = (ar_workspaceId r, ar_instagramAccountId r)"

definition one_active :: "analytics_run list \<Rightarrow> bool" where
  "one_active rows = distinct (map run_scope (filter (\<lambda>r. ar_state r = R_ACTIVE) rows))"

text \<open>A statement that would break the index raises and its transaction rolls back.\<close>

definition update_runs ::
    "(analytics_run \<Rightarrow> bool) \<Rightarrow> (analytics_run \<Rightarrow> analytics_run) \<Rightarrow> analytics_run list \<Rightarrow> exn + analytics_run list" where
  "update_runs P f rows = (let rows' = update_many P f rows in
     if one_active rows' then Inr rows' else Inl (Exn_other ''account_analytics_runs_one_active_per_scope''))"

section \<open>The debounce\<close>

definition analyticsDebounceMs :: int where
  "analyticsDebounceMs = 5 * 60 * 1000"

definition markAnalyticsDirty :: "string \<Rightarrow> string \<Rightarrow> time \<Rightarrow> analytics_tables \<Rightarrow> analytics_tables" where
  "markAnalyticsDirty ws instagramAccountId now t =
     t\<lparr>an_accounts := update_many
         (\<lambda>a. ac_analyticsDirtySince a = None \<and> ac_id a = instagramAccountId \<and> ac_workspaceId a = ws)
         (\<lambda>a. a\<lparr>ac_analyticsDirtySince := Some now, ac_analyticsDueAt := Some (now + analyticsDebounceMs)\<rparr>)
         (an_accounts t)\<rparr>"

record due_account =
  du_dirtySince :: time
  du_instagramAccountId :: string
  du_workspaceId :: string

definition account_due :: "time \<Rightarrow> account \<Rightarrow> bool" where
  "account_due now a \<longleftrightarrow> (case ac_analyticsDueAt a of None \<Rightarrow> False | Some due \<Rightarrow> due \<le> now) \<and>
     ac_connectionStatus a = CS_ACTIVE"

definition listAccountsDueForAnalytics :: "int \<Rightarrow> time \<Rightarrow> analytics_tables \<Rightarrow> due_account list" where
  "listAccountsDueForAnalytics limit now t =
     List.map_filter (\<lambda>a. map_option (\<lambda>since. \<lparr>du_dirtySince = since, du_instagramAccountId = ac_id a,
           du_workspaceId = ac_workspaceId a\<rparr>) (ac_analyticsDirtySince a))
       (take (nat (min (max limit 1) 100))
         (sort_key (\<lambda>a. the (ac_analyticsDueAt a)) (filter (account_due now) (an_accounts t))))"

section \<open>Runs\<close>

definition startAnalyticsRun :: "string \<Rightarrow> string \<Rightarrow> age_window \<Rightarrow> nat \<Rightarrow> string \<Rightarrow> string option \<Rightarrow> time \<Rightarrow> time \<Rightarrow> time \<Rightarrow>
    analytics_tables \<Rightarrow> exn + analytics_tables" where
  "startAnalyticsRun ws runId ageWindow analysisCount inputFingerprint instagramAccountId now publishedFrom publishedTo t =
     (if \<exists>r \<in> set (an_runs t). ar_id r = runId then Inl (Exn_other ''account_analytics_runs_pkey'')
      else Inr (t\<lparr>an_runs := an_runs t @
        [\<lparr>ar_id = runId, ar_workspaceId = ws, ar_instagramAccountId = instagramAccountId, ar_state = R_BUILDING,
          ar_ageWindow = ageWindow, ar_publishedFrom = publishedFrom, ar_publishedTo = publishedTo,
          ar_inputFingerprint = inputFingerprint, ar_statisticCount = 0, ar_analysisCount = analysisCount,
          ar_startedAt = now, ar_activatedAt = None, ar_durationMs = None, ar_failureCode = None\<rparr>]\<rparr>))"

definition failAnalyticsRun :: "string \<Rightarrow> run_failure \<Rightarrow> string \<Rightarrow> analytics_tables \<Rightarrow> analytics_tables" where
  "failAnalyticsRun ws failureCode runId t =
     t\<lparr>an_runs := update_many
         (\<lambda>r. ar_id r = runId \<and> ar_state r = R_BUILDING \<and> ar_workspaceId r = ws)
         (\<lambda>r. r\<lparr>ar_failureCode := Some failureCode, ar_state := R_FAILED\<rparr>) (an_runs t)\<rparr>"

datatype activation = Activated "string option" | Refused run_failure

text \<open>Clears the markers of an account whose dirty anchor is the given one.\<close>

definition clear_dirty :: "string \<Rightarrow> string \<Rightarrow> time \<Rightarrow> analytics_tables \<Rightarrow> analytics_tables" where
  "clear_dirty ws instagramAccountId dirtySince t =
     t\<lparr>an_accounts := update_many
         (\<lambda>a. ac_analyticsDirtySince a = Some dirtySince \<and> ac_id a = instagramAccountId \<and> ac_workspaceId a = ws)
         (\<lambda>a. a\<lparr>ac_analyticsDirtySince := None, ac_analyticsDueAt := None\<rparr>) (an_accounts t)\<rparr>"

text \<open>
  \<open>activateAnalyticsRun\<close> reads three times and then writes, in one transaction of the default isolation,
  so every read sees what is committed when it runs: \<open>seenRun\<close>, \<open>seenCount\<close> and \<open>seenPrevious\<close> are the
  tables at the three reads and \<open>t\<close> those the statements write to.  The statements are one step: the
  first holds the row of the previous run, and the second its place in the index, until the commit,
  and the third touches a table the others do not.
\<close>

definition activateAnalyticsRun :: "string \<Rightarrow> time option \<Rightarrow> nat \<Rightarrow> string \<Rightarrow> string option \<Rightarrow> time \<Rightarrow> string \<Rightarrow>
    analytics_tables \<Rightarrow> analytics_tables \<Rightarrow> analytics_tables \<Rightarrow> analytics_tables \<Rightarrow> exn + activation \<times> analytics_tables" where
  "activateAnalyticsRun ws dirtySince expectedStatisticCount inputFingerprint instagramAccountId now runId seenRun seenCount seenPrevious t =
     (case find (\<lambda>r. ar_id r = runId \<and> ar_workspaceId r = ws) (an_runs seenRun) of
        None \<Rightarrow> Inr (Refused INPUTS_CHANGED, failAnalyticsRun ws INPUTS_CHANGED runId t)
      | Some run \<Rightarrow>
          if ar_inputFingerprint run \<noteq> inputFingerprint
          then Inr (Refused INPUTS_CHANGED, failAnalyticsRun ws INPUTS_CHANGED runId t)
          else
            let written = count_many (\<lambda>s. rs_runId s = runId \<and> rs_workspaceId s = ws) (an_runStatistics seenCount) in
            if written \<noteq> expectedStatisticCount
            then Inr (Refused STATISTIC_COUNT_MISMATCH, failAnalyticsRun ws STATISTIC_COUNT_MISMATCH runId t)
            else
              let previous = find (\<lambda>r. ar_instagramAccountId r = instagramAccountId \<and> ar_state r = R_ACTIVE \<and>
                    ar_workspaceId r = ws) (an_runs seenPrevious)
              in case (case previous of None \<Rightarrow> Inr (an_runs t)
                     | Some p \<Rightarrow> update_runs (\<lambda>r. ar_id r = ar_id p \<and> ar_workspaceId r = ws)
                         (\<lambda>r. r\<lparr>ar_state := R_SUPERSEDED\<rparr>) (an_runs t)) of
                  Inl e \<Rightarrow> Inl e
                | Inr runs \<Rightarrow>
                    (case update_runs (\<lambda>r. ar_id r = runId \<and> ar_workspaceId r = ws)
                       (\<lambda>r. r\<lparr>ar_activatedAt := Some now, ar_durationMs := Some (now - ar_startedAt run),
                             ar_state := R_ACTIVE, ar_statisticCount := written\<rparr>) runs of
                      Inl e \<Rightarrow> Inl e
                    | Inr runs' \<Rightarrow>
                        let t' = t\<lparr>an_runs := runs'\<rparr>;
                            t'' = (case (instagramAccountId, dirtySince) of
                              (Some a, Some since) \<Rightarrow> clear_dirty ws a since t' | _ \<Rightarrow> t')
                        in Inr (Activated (map_option ar_id previous), t'')))"

definition findActiveRunFingerprint :: "string \<Rightarrow> string option \<Rightarrow> analytics_tables \<Rightarrow> string option" where
  "findActiveRunFingerprint ws instagramAccountId t =
     map_option ar_inputFingerprint (find (\<lambda>r. ar_activatedAt r \<noteq> None \<and> ar_instagramAccountId r = instagramAccountId \<and>
       ar_state r = R_ACTIVE \<and> ar_workspaceId r = ws) (an_runs t))"

record active_summary =
  su_activatedAt :: time
  su_ageWindow :: age_window
  su_durationMs :: "int option"
  su_id :: string
  su_statisticCount :: nat

definition findActiveAnalyticsRun :: "string \<Rightarrow> string option \<Rightarrow> analytics_tables \<Rightarrow> active_summary option" where
  "findActiveAnalyticsRun ws instagramAccountId t =
     (case find (\<lambda>r. ar_instagramAccountId r = instagramAccountId \<and> ar_state r = R_ACTIVE \<and> ar_workspaceId r = ws)
        (an_runs t) of
        None \<Rightarrow> None
      | Some r \<Rightarrow> (case ar_activatedAt r of
            None \<Rightarrow> None
          | Some activated \<Rightarrow> Some \<lparr>su_activatedAt = activated, su_ageWindow = ar_ageWindow r, su_durationMs = ar_durationMs r,
              su_id = ar_id r, su_statisticCount = ar_statisticCount r\<rparr>))"

section \<open>The handler\<close>

datatype scope = Scope_account time string | Scope_pooled | Scope_skip string

definition handlerFailure :: "string \<Rightarrow> exn" where
  "handlerFailure code = Exn_handler \<lparr>jf_credentialRecoverable = None, jf_errorClass = INVALID_INPUT,
     jf_errorCode = code, jf_providerRetryAfterMs = None\<rparr>"

definition loadScope :: "string \<Rightarrow> string \<Rightarrow> string option \<Rightarrow> analytics_tables \<Rightarrow> exn + scope" where
  "loadScope ws resourceId resourceType t =
     (if resourceType = Some ''workspace'' then
        if resourceId \<noteq> ws then Inl (handlerFailure ''ANALYTICS_RESOURCE_INVALID'')
        else if count_many (\<lambda>a. ac_connectionStatus a = CS_ACTIVE \<and> ac_workspaceId a = ws) (an_accounts t) < 2
          then Inr (Scope_skip ''NOTHING_TO_POOL'') else Inr Scope_pooled
      else if resourceType \<noteq> Some ''instagram_account'' then Inl (handlerFailure ''ANALYTICS_RESOURCE_INVALID'')
      else case find (\<lambda>a. ac_id a = resourceId \<and> ac_workspaceId a = ws) (an_accounts t) of
          None \<Rightarrow> Inl (handlerFailure ''ANALYTICS_ACCOUNT_MISSING'')
        | Some a \<Rightarrow> (case ac_analyticsDirtySince a of
              None \<Rightarrow> Inr (Scope_skip ''ALREADY_CURRENT'')
            | Some since \<Rightarrow> Inr (Scope_account since (ac_id a))))"

text \<open>The commit of a job that found nothing to measure.\<close>

definition commit_nothing :: "string \<Rightarrow> scope \<Rightarrow> analytics_tables \<Rightarrow> exn + analytics_tables" where
  "commit_nothing ws sc t = (case sc of Scope_account since a \<Rightarrow> Inr (clear_dirty ws a since t) | _ \<Rightarrow> Inr t)"

text \<open>The commit of a job that built a run: a refusal is an outcome, not an error.\<close>

definition commit_run :: "string \<Rightarrow> scope \<Rightarrow> nat \<Rightarrow> string \<Rightarrow> time \<Rightarrow> string \<Rightarrow> analytics_tables \<Rightarrow> analytics_tables \<Rightarrow> analytics_tables \<Rightarrow>
    analytics_tables \<Rightarrow> exn + analytics_tables" where
  "commit_run ws sc expectedStatisticCount inputFingerprint now runId seenRun seenCount seenPrevious t =
     (let (since, a) = (case sc of Scope_account since a \<Rightarrow> (Some since, Some a) | _ \<Rightarrow> (None, None)) in
      case activateAnalyticsRun ws since expectedStatisticCount inputFingerprint a now runId seenRun seenCount seenPrevious t of
        Inl e \<Rightarrow> Inl e | Inr (_, t') \<Rightarrow> Inr t')"

section \<open>The scheduler\<close>

definition analyticsRecalculateKey :: "string \<Rightarrow> time \<Rightarrow> string" where
  "analyticsRecalculateKey accountId dirtySince = ''analytics-recalculate-'' @ accountId @ ''-'' @ toISOString dirtySince"

definition pooledAnalyticsRecalculateKey :: "string \<Rightarrow> time \<Rightarrow> string" where
  "pooledAnalyticsRecalculateKey workspaceId dirtySince =
     ''analytics-recalculate-pooled-'' @ workspaceId @ ''-'' @ toISOString dirtySince"

text \<open>A \<open>Map\<close> keeps its keys in the order of their first insertion.\<close>

fun anchor_insert :: "string \<Rightarrow> time \<Rightarrow> (string \<times> time) list \<Rightarrow> (string \<times> time) list" where
  "anchor_insert ws since [] = [(ws, since)]"
| "anchor_insert ws since ((w, current) # rest) =
     (if w = ws then (w, if since > current then since else current) # rest
      else (w, current) # anchor_insert ws since rest)"

definition pooledAnchors :: "due_account list \<Rightarrow> (string \<times> time) list" where
  "pooledAnchors due = foldl (\<lambda>anchors d. anchor_insert (du_workspaceId d) (du_dirtySince d) anchors) [] due"

definition recalculation_request :: "string \<Rightarrow> string \<Rightarrow> string \<Rightarrow> string \<Rightarrow> sweep_request" where
  "recalculation_request idempotencyKey resourceId resourceType workspaceId =
     \<lparr>sq_handlerVersion = 1, sq_idempotencyKey = idempotencyKey, sq_priority = None, sq_queueName = ''analytics.recalculate'',
      sq_resourceId = resourceId, sq_resourceType = resourceType, sq_workspaceId = workspaceId\<rparr>"

definition recalculations :: "due_account list \<Rightarrow> sweep_request list" where
  "recalculations due =
     map (\<lambda>d. recalculation_request (analyticsRecalculateKey (du_instagramAccountId d) (du_dirtySince d)) (du_instagramAccountId d)
         ''instagram_account'' (du_workspaceId d)) due @
     map (\<lambda>(ws, anchor). recalculation_request (pooledAnalyticsRecalculateKey ws anchor) ws ''workspace'' ws) (pooledAnchors due)"

definition sweep :: "uuid_lib \<Rightarrow> int \<Rightarrow> time \<Rightarrow> time \<Rightarrow> (string \<times> string \<times> string) list \<Rightarrow> analytics_tables database \<Rightarrow>
    nat \<times> analytics_tables database" where
  "sweep lib batchSize now dbNow ids db =
     enqueue_each lib dbNow (recalculations (listAccountsDueForAnalytics batchSize now (db_results db))) ids db"

section \<open>The invariant of the tables\<close>

definition tables_ok :: "analytics_tables \<Rightarrow> bool" where
  "tables_ok t \<longleftrightarrow> distinct (map ar_id (an_runs t)) \<and> one_active (an_runs t) \<and>
     (\<forall>r \<in> set (an_runs t). ar_state r = R_ACTIVE \<longrightarrow> ar_activatedAt r \<noteq> None) \<and>
     (\<forall>a \<in> set (an_accounts t). ac_analyticsDirtySince a = None \<longleftrightarrow> ac_analyticsDueAt a = None)"

lemma one_active_iff:
  assumes "distinct (map ar_id rows)"
  shows "one_active rows \<longleftrightarrow> (\<forall>r \<in> set rows. \<forall>s \<in> set rows.
    ar_state r = R_ACTIVE \<and> ar_state s = R_ACTIVE \<and> run_scope r = run_scope s \<longrightarrow> ar_id r = ar_id s)"
proof -
  have same: "ar_id r = ar_id s \<longleftrightarrow> r = s" if "r \<in> set rows" "s \<in> set rows" for r s
    using assms that by (auto simp: distinct_map inj_on_def)
  have "distinct (filter (\<lambda>r. ar_state r = R_ACTIVE) rows)" using assms by (simp add: distinct_map)
  then have "one_active rows \<longleftrightarrow> inj_on run_scope (set (filter (\<lambda>r. ar_state r = R_ACTIVE) rows))"
    by (simp add: one_active_def distinct_map)
  also have "\<dots> \<longleftrightarrow> (\<forall>r \<in> set rows. \<forall>s \<in> set rows.
      ar_state r = R_ACTIVE \<and> ar_state s = R_ACTIVE \<and> run_scope r = run_scope s \<longrightarrow> ar_id r = ar_id s)"
    using same by (auto simp: inj_on_def)
  finally show ?thesis .
qed

text \<open>The run a reader of a scope finds: with the invariant there is at most one.\<close>

definition published :: "string \<Rightarrow> string option \<Rightarrow> analytics_tables \<Rightarrow> analytics_run set" where
  "published w b t = {r \<in> set (an_runs t). ar_state r = R_ACTIVE \<and> run_scope r = (w, b)}"

abbreviation find_published :: "string \<Rightarrow> string option \<Rightarrow> analytics_tables \<Rightarrow> analytics_run option" where
  "find_published w b t \<equiv>
     find (\<lambda>r. ar_instagramAccountId r = b \<and> ar_state r = R_ACTIVE \<and> ar_workspaceId r = w) (an_runs t)"

lemma find_published_iff:
  assumes "tables_ok t"
  shows "find_published w b t = Some r \<longleftrightarrow> r \<in> published w b t"
proof -
  have d: "distinct (map ar_id (an_runs t))" using assms by (simp add: tables_ok_def)
  have one: "\<forall>r \<in> set (an_runs t). \<forall>s \<in> set (an_runs t).
      ar_state r = R_ACTIVE \<and> ar_state s = R_ACTIVE \<and> run_scope r = run_scope s \<longrightarrow> ar_id r = ar_id s"
    using assms unfolding tables_ok_def one_active_iff [OF d] by blast
  have "find_published w b t = Some r \<longleftrightarrow>
      r \<in> set (an_runs t) \<and> ar_instagramAccountId r = b \<and> ar_state r = R_ACTIVE \<and> ar_workspaceId r = w"
  proof (rule find_only)
    fix x y
    assume xy: "x \<in> set (an_runs t)" "y \<in> set (an_runs t)"
      "ar_instagramAccountId x = b \<and> ar_state x = R_ACTIVE \<and> ar_workspaceId x = w"
      "ar_instagramAccountId y = b \<and> ar_state y = R_ACTIVE \<and> ar_workspaceId y = w"
    then have "run_scope x = run_scope y" by (simp add: run_scope_def)
    with xy one have "ar_id x = ar_id y" by blast
    with d xy(1,2) show "x = y" by (auto simp: distinct_map dest: inj_onD)
  qed
  then show ?thesis by (auto simp: published_def run_scope_def)
qed

lemma option_ext: "(\<And>r. x = Some r \<longleftrightarrow> y = Some r) \<Longrightarrow> x = y"
proof (cases x)
  case None
  assume eq: "\<And>r. x = Some r \<longleftrightarrow> y = Some r"
  show ?thesis
  proof (cases y)
    case (Some r)
    then show ?thesis using None eq [of r] by simp
  qed (simp add: None)
next
  case (Some r)
  assume eq: "\<And>r. x = Some r \<longleftrightarrow> y = Some r"
  then show ?thesis using Some eq [of r] by simp
qed

lemma view_eq:
  assumes "tables_ok t" "tables_ok t'" "published w b t = published w b t'"
  shows "findActiveAnalyticsRun w b t = findActiveAnalyticsRun w b t'" "find_published w b t = find_published w b t'"
proof -
  show "find_published w b t = find_published w b t'"
    by (rule option_ext) (simp only: find_published_iff [OF assms(1)] find_published_iff [OF assms(2)] assms(3))
  then show "findActiveAnalyticsRun w b t = findActiveAnalyticsRun w b t'" by (simp only: findActiveAnalyticsRun_def)
qed

lemma update_many_cong_id: "(\<And>r. r \<in> set rows \<Longrightarrow> P r \<Longrightarrow> key (f r) = key r) \<Longrightarrow> map key (update_many P f rows) = map key rows"
  by (auto simp: update_many_def)

text \<open>A failure touches runs that are still building, which no reader sees.\<close>

lemma fail_keeps_view:
  assumes "tables_ok t"
  shows "tables_ok (failAnalyticsRun ws c i t)" "published w b (failAnalyticsRun ws c i t) = published w b t"
proof -
  let ?t = "failAnalyticsRun ws c i t"
  have ids: "map ar_id (an_runs ?t) = map ar_id (an_runs t)"
    by (simp add: failAnalyticsRun_def update_many_def)
  have act: "r \<in> set (an_runs ?t) \<and> ar_state r = R_ACTIVE \<longleftrightarrow> r \<in> set (an_runs t) \<and> ar_state r = R_ACTIVE" for r
    by (auto simp: failAnalyticsRun_def set_update_many intro!: bexI [of _ r])
  show "published w b ?t = published w b t" using act by (auto simp: published_def)
  have d: "distinct (map ar_id (an_runs t))" using assms by (simp add: tables_ok_def)
  have "one_active (an_runs ?t)"
    using assms act unfolding one_active_iff [OF d [folded ids]] tables_ok_def one_active_iff [OF d] by blast
  moreover have "\<forall>r \<in> set (an_runs ?t). ar_state r = R_ACTIVE \<longrightarrow> ar_activatedAt r \<noteq> None"
    using assms act unfolding tables_ok_def by blast
  moreover have "an_accounts ?t = an_accounts t" by (simp add: failAnalyticsRun_def)
  ultimately show "tables_ok ?t" using assms by (simp add: tables_ok_def ids)
qed

section \<open>Activation\<close>

text \<open>What activation makes of the rows of the runs, \<open>previous\<close> being the run it read as published.\<close>

definition supersede :: "string option \<Rightarrow> analytics_run \<Rightarrow> analytics_run" where
  "supersede previous r = (if previous = Some (ar_id r) then r\<lparr>ar_state := R_SUPERSEDED\<rparr> else r)"

definition publish_run :: "time \<Rightarrow> nat \<Rightarrow> string option \<Rightarrow> analytics_run \<Rightarrow> analytics_run \<Rightarrow> analytics_run" where
  "publish_run now written previous run r =
     (if ar_id r = ar_id run
      then (supersede previous r)\<lparr>ar_activatedAt := Some now, ar_durationMs := Some (now - ar_startedAt run),
             ar_state := R_ACTIVE, ar_statisticCount := written\<rparr>
      else supersede previous r)"

text \<open>Another run of the scope is published, and the activation does not know it.\<close>

definition unseen_rival :: "string option \<Rightarrow> analytics_run \<Rightarrow> analytics_tables \<Rightarrow> bool" where
  "unseen_rival previous run t \<longleftrightarrow> (\<exists>r \<in> set (an_runs t). ar_state r = R_ACTIVE \<and> run_scope r = run_scope run \<and>
     ar_id r \<noteq> ar_id run \<and> previous \<noteq> Some (ar_id r))"

lemma supersede_fields [simp]:
  "ar_id (supersede p r) = ar_id r" "ar_workspaceId (supersede p r) = ar_workspaceId r"
  "run_scope (supersede p r) = run_scope r"
  by (simp_all add: supersede_def run_scope_def)

lemma publish_run_fields [simp]:
  "ar_id (publish_run now n p run r) = ar_id r" "run_scope (publish_run now n p run r) = run_scope r"
  by (simp_all add: publish_run_def supersede_def run_scope_def)

lemma supersede_state:
  "ar_state (supersede p r) = R_ACTIVE \<longleftrightarrow> ar_state r = R_ACTIVE \<and> p \<noteq> Some (ar_id r)"
  by (auto simp: supersede_def)

lemma publish_run_state:
  "ar_state (publish_run now n p run r) = R_ACTIVE \<longleftrightarrow>
     ar_id r = ar_id run \<or> ar_state r = R_ACTIVE \<and> p \<noteq> Some (ar_id r)"
  by (simp add: publish_run_def supersede_state)

lemma run_same: "tables_ok t \<Longrightarrow> r \<in> set (an_runs t) \<Longrightarrow> s \<in> set (an_runs t) \<Longrightarrow> ar_id r = ar_id s \<Longrightarrow> r = s"
  by (auto simp: tables_ok_def distinct_map dest: inj_onD)

lemma active_unique:
  assumes "tables_ok t" "r \<in> set (an_runs t)" "s \<in> set (an_runs t)"
    "ar_state r = R_ACTIVE" "ar_state s = R_ACTIVE" "run_scope r = run_scope s"
  shows "ar_id r = ar_id s"
  using assms one_active_iff [of "an_runs t"] unfolding tables_ok_def by blast

text \<open>Rewriting every row keeps the index when rows that end up active with one scope were one row.\<close>

lemma one_active_map:
  assumes "tables_ok t" "\<And>r. ar_id (f r) = ar_id r"
    and "\<And>r s. r \<in> set (an_runs t) \<Longrightarrow> s \<in> set (an_runs t) \<Longrightarrow> ar_state (f r) = R_ACTIVE \<Longrightarrow>
      ar_state (f s) = R_ACTIVE \<Longrightarrow> run_scope (f r) = run_scope (f s) \<Longrightarrow> ar_id r = ar_id s"
  shows "distinct (map ar_id (map f (an_runs t)))" "one_active (map f (an_runs t))"
proof -
  have "distinct (map ar_id (an_runs t))" using assms(1) by (simp add: tables_ok_def)
  then show d: "distinct (map ar_id (map f (an_runs t)))" by (simp add: comp_def assms(2))
  have "ar_id x = ar_id y" if xy: "x \<in> set (map f (an_runs t))" "y \<in> set (map f (an_runs t))"
    "ar_state x = R_ACTIVE" "ar_state y = R_ACTIVE" "run_scope x = run_scope y" for x y
  proof -
    obtain r s where rs: "x = f r" "r \<in> set (an_runs t)" "y = f s" "s \<in> set (an_runs t)" using xy(1,2) by auto
    then have "ar_id r = ar_id s" using assms(3) [of r s] xy(3-5) by simp
    then show ?thesis by (simp add: rs assms(2))
  qed
  then show "one_active (map f (an_runs t))" unfolding one_active_iff [OF d] by blast
qed

lemma supersede_one_active:
  assumes "tables_ok t"
  shows "one_active (map (supersede p) (an_runs t))"
proof (rule one_active_map(2) [OF assms])
  fix r s assume rs: "r \<in> set (an_runs t)" "s \<in> set (an_runs t)" "ar_state (supersede p r) = R_ACTIVE"
    "ar_state (supersede p s) = R_ACTIVE" "run_scope (supersede p r) = run_scope (supersede p s)"
  show "ar_id r = ar_id s"
    by (rule active_unique [OF assms rs(1,2)]) (use rs(3-5) in \<open>simp_all add: supersede_state\<close>)
qed simp

text \<open>The second statement meets the index exactly when there is an unseen rival.\<close>

lemma publish_one_active:
  assumes "tables_ok t" "run \<in> set (an_runs t)"
  shows "distinct (map ar_id (map (publish_run now n p run) (an_runs t)))"
    and "one_active (map (publish_run now n p run) (an_runs t)) \<longleftrightarrow> \<not> unseen_rival p run t"
proof -
  let ?f = "publish_run now n p run"
  have "distinct (map ar_id (an_runs t))" using assms(1) by (simp add: tables_ok_def)
  then show d: "distinct (map ar_id (map ?f (an_runs t)))" by (simp add: comp_def)
  show "one_active (map ?f (an_runs t)) \<longleftrightarrow> \<not> unseen_rival p run t"
  proof
    assume one: "one_active (map ?f (an_runs t))"
    have "ar_id r = ar_id run" if "r \<in> set (an_runs t)" "ar_state (?f r) = R_ACTIVE" "run_scope r = run_scope run" for r
    proof -
      have "ar_id (?f r) = ar_id (?f run)"
        using one that assms(2) publish_run_state [of now n p run run] publish_run_fields(2) [of now n p run]
        unfolding one_active_iff [OF d] by (metis image_eqI list.set_map)
      then show ?thesis by simp
    qed
    then show "\<not> unseen_rival p run t" by (auto simp: unseen_rival_def publish_run_state)
  next
    assume seen: "\<not> unseen_rival p run t"
    have own: "ar_id s = ar_id run" if "r \<in> set (an_runs t)" "s \<in> set (an_runs t)" "ar_id r = ar_id run"
      "ar_state (?f s) = R_ACTIVE" "run_scope (?f r) = run_scope (?f s)" for r s
      using that seen run_same [OF assms(1) that(1) assms(2) that(3)] by (auto simp: unseen_rival_def publish_run_state)
    show "one_active (map ?f (an_runs t))"
    proof (rule one_active_map(2) [OF assms(1)])
      fix r s assume rs: "r \<in> set (an_runs t)" "s \<in> set (an_runs t)" "ar_state (?f r) = R_ACTIVE" "ar_state (?f s) = R_ACTIVE"
        "run_scope (?f r) = run_scope (?f s)"
      show "ar_id r = ar_id s"
      proof (cases "ar_id r = ar_id run \<or> ar_id s = ar_id run")
        case True
        then show ?thesis using own [OF rs(1,2) _ rs(4,5)] own [OF rs(2,1) _ rs(3) rs(5) [symmetric]] by auto
      next
        case False
        then show ?thesis using active_unique [OF assms(1) rs(1,2)] rs(3-5) by (simp add: publish_run_state)
      qed
    qed simp
  qed
qed

text \<open>The two statements of the activation.\<close>

lemma supersede_rows:
  assumes "\<forall>r \<in> set (an_runs t). previous = Some (ar_id r) \<longrightarrow> ar_workspaceId r = ws"
  shows "map (supersede previous) (an_runs t) = (case previous of None \<Rightarrow> an_runs t
     | Some i \<Rightarrow> update_many (\<lambda>r. ar_id r = i \<and> ar_workspaceId r = ws) (\<lambda>r. r\<lparr>ar_state := R_SUPERSEDED\<rparr>) (an_runs t))"
  using assms by (cases previous) (auto simp: supersede_def update_many_def intro!: map_idI)

lemma publish_rows:
  assumes "tables_ok t" "run \<in> set (an_runs t)"
  shows "update_many (\<lambda>r. ar_id r = ar_id run \<and> ar_workspaceId r = ar_workspaceId run)
      (\<lambda>r. r\<lparr>ar_activatedAt := Some now, ar_durationMs := Some (now - ar_startedAt run), ar_state := R_ACTIVE,
        ar_statisticCount := n\<rparr>) (map (supersede p) (an_runs t)) = map (publish_run now n p run) (an_runs t)"
proof -
  have own: "ar_workspaceId r = ar_workspaceId run" if "r \<in> set (an_runs t)" "ar_id r = ar_id run" for r
    using run_same [OF assms(1) that(1) assms(2) that(2)] by simp
  have "(if ar_id (supersede p r) = ar_id run \<and> ar_workspaceId (supersede p r) = ar_workspaceId run
      then (supersede p r)\<lparr>ar_activatedAt := Some now, ar_durationMs := Some (now - ar_startedAt run),
        ar_state := R_ACTIVE, ar_statisticCount := n\<rparr>
      else supersede p r) = publish_run now n p run r" if "r \<in> set (an_runs t)" for r
    unfolding publish_run_def supersede_fields using own [OF that] by (cases "ar_id r = ar_id run") simp_all
  then show ?thesis unfolding update_many_def map_map comp_def by (intro map_cong refl)
qed

text \<open>The activation, when what it read is the run and a previous run of its workspace.\<close>

lemma activate_eq:
  fixes s1 s2 s3 t :: analytics_tables
  assumes ok: "tables_ok t" and run: "run \<in> set (an_runs t)" "ar_id run = runId" "ar_workspaceId run = ws"
    and read: "find (\<lambda>r. ar_id r = runId \<and> ar_workspaceId r = ws) (an_runs s1) = Some seen"
      "ar_startedAt seen = ar_startedAt run" "ar_inputFingerprint seen = ar_inputFingerprint run"
    and prev: "\<forall>r \<in> set (an_runs t). map_option ar_id (find_published ws a s3) = Some (ar_id r) \<longrightarrow> ar_workspaceId r = ws"
  defines "written \<equiv> count_many (\<lambda>s. rs_runId s = runId \<and> rs_workspaceId s = ws) (an_runStatistics s2)"
    and "previous \<equiv> map_option ar_id (find_published ws a s3)"
  shows "activateAnalyticsRun ws since expected fp a now runId s1 s2 s3 t =
    (if ar_inputFingerprint run \<noteq> fp then Inr (Refused INPUTS_CHANGED, failAnalyticsRun ws INPUTS_CHANGED runId t)
     else if written \<noteq> expected
       then Inr (Refused STATISTIC_COUNT_MISMATCH, failAnalyticsRun ws STATISTIC_COUNT_MISMATCH runId t)
     else if unseen_rival previous run t then Inl (Exn_other ''account_analytics_runs_one_active_per_scope'')
     else let t' = t\<lparr>an_runs := map (publish_run now written previous run) (an_runs t)\<rparr> in
       Inr (Activated previous, case (a, since) of (Some acc, Some s) \<Rightarrow> clear_dirty ws acc s t' | _ \<Rightarrow> t'))"
proof -
  define first where "first = (case find_published ws a s3 of None \<Rightarrow> Inr (an_runs t)
     | Some p \<Rightarrow> update_runs (\<lambda>r. ar_id r = ar_id p \<and> ar_workspaceId r = ws)
         (\<lambda>r. r\<lparr>ar_state := R_SUPERSEDED\<rparr>) (an_runs t))"
  have first: "first = Inr (map (supersede previous) (an_runs t))"
  proof (cases "find_published ws a s3")
    case None
    then show ?thesis using supersede_rows [OF prev] by (simp add: first_def previous_def)
  next
    case (Some p)
    then have "map (supersede previous) (an_runs t) = update_many (\<lambda>r. ar_id r = ar_id p \<and> ar_workspaceId r = ws)
        (\<lambda>r. r\<lparr>ar_state := R_SUPERSEDED\<rparr>) (an_runs t)"
      using supersede_rows [OF prev] by (simp add: previous_def)
    then show ?thesis using supersede_one_active [OF ok, of previous] Some by (simp add: first_def update_runs_def Let_def)
  qed
  have second: "update_runs (\<lambda>r. ar_id r = runId \<and> ar_workspaceId r = ws)
      (\<lambda>r. r\<lparr>ar_activatedAt := Some now, ar_durationMs := Some (now - ar_startedAt seen), ar_state := R_ACTIVE,
        ar_statisticCount := written\<rparr>) (map (supersede previous) (an_runs t)) =
      (if unseen_rival previous run t then Inl (Exn_other ''account_analytics_runs_one_active_per_scope'')
       else Inr (map (publish_run now written previous run) (an_runs t)))"
    using publish_rows [OF ok run(1), where now = now and n = written and p = previous]
      publish_one_active(2) [OF ok run(1), where now = now and n = written and p = previous]
    unfolding run(2,3) read(2) by (simp add: update_runs_def Let_def)
  show ?thesis
    unfolding activateAnalyticsRun_def read(1) option.case Let_def written_def [symmetric] first_def [symmetric] first
      sum.case second previous_def [symmetric] read(3)
    by (cases "ar_inputFingerprint run = fp"; cases "written = expected"; cases "unseen_rival previous run t"; cases a; cases since) simp_all
qed

lemma clear_dirty_runs [simp]:
  "an_runs (clear_dirty ws a s t) = an_runs t" "an_runStatistics (clear_dirty ws a s t) = an_runStatistics t"
  by (simp_all add: clear_dirty_def)

lemma clear_dirty_ok: "tables_ok t \<Longrightarrow> tables_ok (clear_dirty ws a s t)"
  by (auto simp: tables_ok_def clear_dirty_def set_update_many)

lemma published_runs: "an_runs t = an_runs t' \<Longrightarrow> published w b t = published w b t'"
  by (simp add: published_def)

lemma publish_ok:
  assumes "tables_ok t" "run \<in> set (an_runs t)" "\<not> unseen_rival p run t"
  shows "tables_ok (t\<lparr>an_runs := map (publish_run now n p run) (an_runs t)\<rparr>)"
proof -
  have "ar_activatedAt (publish_run now n p run r) \<noteq> None"
    if "r \<in> set (an_runs t)" "ar_state (publish_run now n p run r) = R_ACTIVE" for r
    using that assms(1) by (auto simp: publish_run_def supersede_def tables_ok_def split: if_splits)
  then show ?thesis
    using publish_one_active [OF assms(1,2), of now n p] assms(1,3) unfolding tables_ok_def by simp
qed

lemma publish_view:
  fixes now :: time and n :: nat
  assumes "tables_ok t" "run \<in> set (an_runs t)" "\<not> unseen_rival p run t"
    "\<forall>r \<in> set (an_runs t). p = Some (ar_id r) \<longrightarrow> run_scope r = run_scope run"
  defines "t' \<equiv> t\<lparr>an_runs := map (publish_run now n p run) (an_runs t)\<rparr>"
  shows "(w, b) \<noteq> run_scope run \<Longrightarrow> published w b t' = published w b t"
    and "run_scope run = (w, b) \<Longrightarrow> published w b t' = {publish_run now n p run run}"
proof -
  have keep: "publish_run now n p run r = r" if "r \<in> set (an_runs t)" "run_scope r \<noteq> run_scope run" for r
    using that run_same [OF assms(1) that(1) assms(2)] assms(4) by (auto simp: publish_run_def supersede_def)
  show "published w b t' = published w b t" if other: "(w, b) \<noteq> run_scope run"
  proof
    show "published w b t' \<subseteq> published w b t"
    proof
      fix x assume "x \<in> published w b t'"
      then obtain r where r: "r \<in> set (an_runs t)" "x = publish_run now n p run r" "ar_state x = R_ACTIVE" "run_scope x = (w, b)"
        by (auto simp: published_def t'_def)
      then have "x = r" using keep [of r] other by simp
      with r show "x \<in> published w b t" by (simp add: published_def)
    qed
    show "published w b t \<subseteq> published w b t'"
    proof
      fix r assume r: "r \<in> published w b t"
      then have "publish_run now n p run r = r" using keep [of r] other by (simp add: published_def)
      with r show "r \<in> published w b t'" by (force simp: published_def t'_def)
    qed
  qed
  show "published w b t' = {publish_run now n p run run}" if own: "run_scope run = (w, b)"
  proof -
    have only: "r = run" if r: "r \<in> set (an_runs t)" "ar_state (publish_run now n p run r) = R_ACTIVE" "run_scope r = (w, b)" for r
      using run_same [OF assms(1) r(1) assms(2)] assms(3) r own by (auto simp: unseen_rival_def publish_run_state)
    have "ar_state (publish_run now n p run run) = R_ACTIVE" by (simp add: publish_run_state)
    then show ?thesis using own assms(2) unfolding published_def t'_def by (auto dest: only)
  qed
qed

section \<open>Marks\<close>

lemma mark_dirty_noop:
  assumes "\<forall>a \<in> set (an_accounts t). ac_id a = i \<and> ac_workspaceId a = ws \<longrightarrow> ac_analyticsDirtySince a \<noteq> None"
  shows "markAnalyticsDirty ws i now t = t"
proof -
  have "count_many (\<lambda>a. ac_analyticsDirtySince a = None \<and> ac_id a = i \<and> ac_workspaceId a = ws) (an_accounts t) = 0"
    using assms by (auto simp: count_many_def filter_empty_conv)
  from update_many_id [OF this] show ?thesis by (simp add: markAnalyticsDirty_def)
qed

text \<open>A later mark, of whatever account, does not move an anchor.\<close>

lemma mark_keeps_dirty:
  "a \<in> set (an_accounts t) \<Longrightarrow> ac_analyticsDirtySince a \<noteq> None \<Longrightarrow> a \<in> set (an_accounts (markAnalyticsDirty ws i now t))"
  by (auto simp: markAnalyticsDirty_def set_update_many intro!: bexI [of _ a])

definition mark_all :: "(string \<times> string \<times> time) list \<Rightarrow> analytics_tables \<Rightarrow> analytics_tables" where
  "mark_all ms t = foldl (\<lambda>t (ws, i, now). markAnalyticsDirty ws i now t) t ms"

lemma marks_keep_dirty:
  "a \<in> set (an_accounts t) \<Longrightarrow> ac_analyticsDirtySince a \<noteq> None \<Longrightarrow> a \<in> set (an_accounts (mark_all ms t))"
  by (induction ms arbitrary: t) (auto simp: mark_all_def mark_keeps_dirty)

lemma due_listed:
  assumes "a \<in> set (an_accounts t)" "account_due now a" "ac_analyticsDirtySince a = Some since"
    "int (count_many (account_due now) (an_accounts t)) \<le> min limit 100"
  shows "\<lparr>du_dirtySince = since, du_instagramAccountId = ac_id a, du_workspaceId = ac_workspaceId a\<rparr>
    \<in> set (listAccountsDueForAnalytics limit now t)"
proof -
  let ?F = "sort_key (\<lambda>a. the (ac_analyticsDueAt a)) (filter (account_due now) (an_accounts t))"
  have "int (length ?F) \<le> min limit 100" using assms(4) by (simp only: count_many_def length_sort)
  then have "length ?F \<le> nat (min (max limit 1) 100)" by linarith
  then have "take (nat (min (max limit 1) 100)) ?F = ?F" by simp
  moreover have "a \<in> set ?F" using assms(1,2) by simp
  ultimately show ?thesis using assms(3) unfolding listAccountsDueForAnalytics_def List.map_filter_def by force
qed

section \<open>Every state\<close>

text \<open>
  The operations on the tables, by any number of workers in any order and with any arguments; an
  activation writes whatever its reads saw.
\<close>

inductive analytics_step :: "analytics_tables \<Rightarrow> analytics_tables \<Rightarrow> bool" where
  mark: "analytics_step t (markAnalyticsDirty ws i now t)"
| start: "startAnalyticsRun ws runId w n fp a now lo hi t = Inr t' \<Longrightarrow> analytics_step t t'"
| member: "analytics_step t (t\<lparr>an_runStatistics := an_runStatistics t @ [row]\<rparr>)"
| activate: "activateAnalyticsRun ws since n fp a now runId s1 s2 s3 t = Inr (res, t') \<Longrightarrow> analytics_step t t'"
| fail: "analytics_step t (failAnalyticsRun ws c runId t)"
| clear: "analytics_step t (clear_dirty ws i since t)"

inductive_cases analytics_stepE: "analytics_step t t'"

lemma update_runs_Inr: "update_runs P f rows = Inr rows' \<longleftrightarrow> rows' = update_many P f rows \<and> one_active rows'"
  by (auto simp: update_runs_def Let_def)

lemma mark_ok: "tables_ok t \<Longrightarrow> tables_ok (markAnalyticsDirty ws i now t)"
  by (auto simp: tables_ok_def markAnalyticsDirty_def set_update_many)

lemma start_ok:
  assumes "tables_ok t" "startAnalyticsRun ws runId w n fp a now lo hi t = Inr t'"
  shows "tables_ok t'"
  using assms by (auto simp: startAnalyticsRun_def tables_ok_def one_active_def split: if_splits)

text \<open>What an activation that publishes has written, whatever it read.\<close>

lemma activate_writes:
  assumes "activateAnalyticsRun ws since n fp a now runId s1 s2 s3 t = Inr (Activated x, t')"
  obtains start count runs where "runs = an_runs t \<or> (\<exists>p :: analytics_run. runs = update_many (\<lambda>r. ar_id r = ar_id p \<and> ar_workspaceId r = ws)
      (\<lambda>r. r\<lparr>ar_state := R_SUPERSEDED\<rparr>) (an_runs t))"
    "an_runs t' = update_many (\<lambda>r. ar_id r = runId \<and> ar_workspaceId r = ws) (\<lambda>r. r\<lparr>ar_activatedAt := Some now,
      ar_durationMs := Some (now - start), ar_state := R_ACTIVE, ar_statisticCount := count\<rparr>) runs"
    "one_active (an_runs t')" "an_accounts t' = an_accounts t \<or> (\<exists>acc s. t' = clear_dirty ws acc s (t\<lparr>an_runs := an_runs t'\<rparr>))"
proof -
  obtain run where run: "find (\<lambda>r. ar_id r = runId \<and> ar_workspaceId r = ws) (an_runs s1) = Some run"
    using assms by (cases "find (\<lambda>r. ar_id r = runId \<and> ar_workspaceId r = ws) (an_runs s1)") (auto simp: activateAnalyticsRun_def)
  define first where "first = (case find_published ws a s3 of None \<Rightarrow> Inr (an_runs t)
     | Some p \<Rightarrow> update_runs (\<lambda>r. ar_id r = ar_id p \<and> ar_workspaceId r = ws)
         (\<lambda>r. r\<lparr>ar_state := R_SUPERSEDED\<rparr>) (an_runs t))"
  define second where "second runs n = update_runs (\<lambda>r. ar_id r = runId \<and> ar_workspaceId r = ws) (\<lambda>r. r\<lparr>ar_activatedAt := Some now,
        ar_durationMs := Some (now - ar_startedAt run), ar_state := R_ACTIVE, ar_statisticCount := n\<rparr>) runs" for runs n
  obtain runs runs' n where rs: "first = Inr runs" "second runs n = Inr runs'"
    "t' = (case (a, since) of (Some acc, Some s) \<Rightarrow> clear_dirty ws acc s (t\<lparr>an_runs := runs'\<rparr>) | _ \<Rightarrow> t\<lparr>an_runs := runs'\<rparr>)"
    using assms unfolding activateAnalyticsRun_def run option.case Let_def first_def [symmetric] second_def [symmetric]
    by (auto split: if_splits sum.splits)
  have t': "an_runs t' = runs'" unfolding rs(3) by (simp add: clear_dirty_def split: option.split)
  have written: "an_runs t' = update_many (\<lambda>r. ar_id r = runId \<and> ar_workspaceId r = ws) (\<lambda>r. r\<lparr>ar_activatedAt := Some now,
        ar_durationMs := Some (now - ar_startedAt run), ar_state := R_ACTIVE, ar_statisticCount := n\<rparr>) runs" "one_active (an_runs t')"
    using rs(2) unfolding second_def update_runs_Inr t' by blast+
  have superseded: "runs = an_runs t \<or> (\<exists>p :: analytics_run. runs = update_many (\<lambda>r. ar_id r = ar_id p \<and> ar_workspaceId r = ws)
        (\<lambda>r. r\<lparr>ar_state := R_SUPERSEDED\<rparr>) (an_runs t))"
  proof (cases "find_published ws a s3")
    case None
    with rs(1) show ?thesis by (simp add: first_def)
  next
    case (Some p)
    with rs(1) show ?thesis unfolding first_def Some option.case update_runs_Inr by blast
  qed
  have "an_accounts t' = an_accounts t \<or> (\<exists>acc s. t' = clear_dirty ws acc s (t\<lparr>an_runs := an_runs t'\<rparr>))"
    unfolding t' using rs(3) by (cases a; cases since) auto
  with superseded written show ?thesis by (rule that)
qed

lemma activate_refused:
  "activateAnalyticsRun ws since n fp a now runId s1 s2 s3 t = Inr (Refused c, t') \<Longrightarrow> t' = failAnalyticsRun ws c runId t"
  by (auto simp: activateAnalyticsRun_def Let_def split: option.splits if_splits sum.splits)

text \<open>Even for a scope other than the run's own, and whatever was read, the index keeps one active run per scope.\<close>

lemma activate_ok:
  assumes "tables_ok t" "activateAnalyticsRun ws since n fp a now runId s1 s2 s3 t = Inr (res, t')"
  shows "tables_ok t'"
proof (cases res)
  case (Refused c)
  then show ?thesis using activate_refused assms fail_keeps_view(1) [OF assms(1)] by blast
next
  case (Activated x)
  from assms(2) [unfolded Activated] show ?thesis
  proof (rule activate_writes)
    fix start count runs
    assume sup: "runs = an_runs t \<or> (\<exists>p :: analytics_run. runs = update_many (\<lambda>r. ar_id r = ar_id p \<and> ar_workspaceId r = ws)
        (\<lambda>r. r\<lparr>ar_state := R_SUPERSEDED\<rparr>) (an_runs t))"
      and runs: "an_runs t' = update_many (\<lambda>r. ar_id r = runId \<and> ar_workspaceId r = ws) (\<lambda>r. r\<lparr>ar_activatedAt := Some now,
        ar_durationMs := Some (now - start), ar_state := R_ACTIVE, ar_statisticCount := count\<rparr>) runs" and one: "one_active (an_runs t')"
      and accounts: "an_accounts t' = an_accounts t \<or> (\<exists>acc s. t' = clear_dirty ws acc s (t\<lparr>an_runs := an_runs t'\<rparr>))"
    have "map ar_id runs = map ar_id (an_runs t)" using sup by (auto simp: update_many_def)
    moreover have "map ar_id (an_runs t') = map ar_id runs" unfolding runs by (rule update_many_cong_id) simp
    ultimately have ids: "distinct (map ar_id (an_runs t'))" using assms(1) by (simp add: tables_ok_def)
    have "\<forall>r \<in> set runs. ar_state r = R_ACTIVE \<longrightarrow> ar_activatedAt r \<noteq> None"
      using sup assms(1) by (auto simp: tables_ok_def set_update_many)
    then have "\<forall>r \<in> set (an_runs t'). ar_state r = R_ACTIVE \<longrightarrow> ar_activatedAt r \<noteq> None"
      unfolding runs by (auto simp: set_update_many)
    then have ok: "tables_ok (t\<lparr>an_runs := an_runs t'\<rparr>)" using assms(1) ids one by (simp add: tables_ok_def)
    from accounts show ?thesis
    proof
      assume "an_accounts t' = an_accounts t"
      then show ?thesis using ok by (simp add: tables_ok_def)
    next
      assume "\<exists>acc s. t' = clear_dirty ws acc s (t\<lparr>an_runs := an_runs t'\<rparr>)"
      then show ?thesis using clear_dirty_ok [OF ok] by metis
    qed
  qed
qed

text \<open>What never changes of a run once it is started.\<close>

definition run_identity :: "analytics_run \<Rightarrow> string \<times> string \<times> string option \<times> age_window \<times> string \<times> time" where
  "run_identity r = (ar_id r, ar_workspaceId r, ar_instagramAccountId r, ar_ageWindow r, ar_inputFingerprint r, ar_startedAt r)"

lemma update_many_identity:
  "(\<And>r. run_identity (f r) = run_identity r) \<Longrightarrow> map run_identity (update_many P f rows) = map run_identity rows"
  by (rule update_many_cong_id)

lemma step_identity:
  assumes "analytics_step t t'"
  shows "\<exists>rows. map run_identity (an_runs t') = map run_identity (an_runs t) @ rows"
  using assms
proof (cases rule: analytics_step.cases)
  case (activate ws since n fp a now runId s1 s2 s3 res)
  show ?thesis
  proof (cases res)
    case (Refused c)
    then show ?thesis using activate_refused activate by (fastforce simp: failAnalyticsRun_def update_many_identity run_identity_def)
  next
    case (Activated x)
    from activate [unfolded Activated] show ?thesis
    proof (rule activate_writes)
      fix start count runs
      assume sup: "runs = an_runs t \<or> (\<exists>p :: analytics_run. runs = update_many (\<lambda>r. ar_id r = ar_id p \<and> ar_workspaceId r = ws)
          (\<lambda>r. r\<lparr>ar_state := R_SUPERSEDED\<rparr>) (an_runs t))"
        and runs: "an_runs t' = update_many (\<lambda>r. ar_id r = runId \<and> ar_workspaceId r = ws) (\<lambda>r. r\<lparr>ar_activatedAt := Some now,
          ar_durationMs := Some (now - start), ar_state := R_ACTIVE, ar_statisticCount := count\<rparr>) runs"
      have "map run_identity runs = map run_identity (an_runs t)"
        using sup by (auto simp: update_many_identity run_identity_def)
      then show ?thesis unfolding runs by (subst update_many_identity) (simp_all add: run_identity_def)
    qed
  qed
qed (auto simp: markAnalyticsDirty_def startAnalyticsRun_def failAnalyticsRun_def update_many_identity run_identity_def split: if_splits)

lemma steps_identity:
  "analytics_step\<^sup>*\<^sup>* t t' \<Longrightarrow> r \<in> set (an_runs t) \<Longrightarrow> \<exists>r' \<in> set (an_runs t'). run_identity r' = run_identity r"
proof (induction rule: rtranclp_induct)
  case (step y z)
  then obtain r' where r': "r' \<in> set (an_runs y)" "run_identity r' = run_identity r" by blast
  obtain rows where "map run_identity (an_runs z) = map run_identity (an_runs y) @ rows" using step_identity [OF step(2)] by blast
  then have "set (map run_identity (an_runs z)) = set (map run_identity (an_runs y) @ rows)" by simp
  then have "run_identity r' \<in> run_identity ` set (an_runs z)" using r'(1) by auto
  then show ?case using r'(2) by (auto simp: image_iff)
qed auto

lemma step_ok: "analytics_step t t' \<Longrightarrow> tables_ok t \<Longrightarrow> tables_ok t'"
proof (erule analytics_stepE)
  fix row assume "tables_ok t" "t' = t\<lparr>an_runStatistics := an_runStatistics t @ [row]\<rparr>"
  then show "tables_ok t'" by (simp add: tables_ok_def)
qed (auto intro: mark_ok start_ok activate_ok fail_keeps_view clear_dirty_ok)

definition no_runs :: "analytics_tables \<Rightarrow> bool" where
  "no_runs t \<longleftrightarrow> an_runs t = [] \<and> (\<forall>a \<in> set (an_accounts t). ac_analyticsDirtySince a = None \<and> ac_analyticsDueAt a = None)"

lemma no_runs_ok: "no_runs t \<Longrightarrow> tables_ok t"
  by (auto simp: no_runs_def tables_ok_def one_active_def)

lemma steps_ok: "analytics_step\<^sup>*\<^sup>* t t' \<Longrightarrow> tables_ok t \<Longrightarrow> tables_ok t'"
  by (induction rule: rtranclp_induct) (auto intro: step_ok)

lemma reachable_ok: "analytics_step\<^sup>*\<^sup>* t0 t \<Longrightarrow> no_runs t0 \<Longrightarrow> tables_ok t"
  by (induction rule: rtranclp_induct) (auto intro: no_runs_ok step_ok)

section \<open>Properties\<close>

text \<open>What the readers of each scope see.\<close>

definition view :: "analytics_tables \<Rightarrow> string \<times> string option \<Rightarrow> active_summary option" where
  "view t = (\<lambda>(w, b). findActiveAnalyticsRun w b t)"

text \<open>
  C37: in every state the calculations can reach, whatever runs are started, failed and activated and
  in whatever order, a scope (an account, or the accounts pooled) has at most one published run, the
  readers' query finds exactly it, and an account that is dirty has a due time.
\<close>

theorem one_published_run_per_scope:
  assumes "no_runs t0" "analytics_step\<^sup>*\<^sup>* t0 t"
  shows "distinct (map run_scope (filter (\<lambda>r. ar_state r = R_ACTIVE) (an_runs t))) \<and>
    (\<forall>r \<in> set (an_runs t). ar_state r = R_ACTIVE \<longrightarrow> map_option su_id (view t (run_scope r)) = Some (ar_id r)) \<and>
    (\<forall>a \<in> set (an_accounts t). ac_analyticsDirtySince a = None \<longleftrightarrow> ac_analyticsDueAt a = None)"
proof -
  have ok: "tables_ok t" by (rule reachable_ok [OF assms(2,1)])
  have "map_option su_id (view t (run_scope r)) = Some (ar_id r)" if "r \<in> set (an_runs t)" "ar_state r = R_ACTIVE" for r
  proof -
    have "r \<in> published (ar_workspaceId r) (ar_instagramAccountId r) t" using that by (simp add: published_def run_scope_def)
    then have "find_published (ar_workspaceId r) (ar_instagramAccountId r) t = Some r" using find_published_iff [OF ok] by blast
    moreover have "ar_activatedAt r \<noteq> None" using ok that unfolding tables_ok_def by blast
    ultimately show ?thesis by (auto simp: view_def run_scope_def findActiveAnalyticsRun_def)
  qed
  with ok show ?thesis by (simp add: tables_ok_def one_active_def)
qed

definition sample_run :: "string \<Rightarrow> run_state \<Rightarrow> analytics_run" where
  "sample_run i st = \<lparr>ar_id = i, ar_workspaceId = ''w'', ar_instagramAccountId = Some ''a'', ar_state = st,
     ar_ageWindow = W_day_30, ar_publishedFrom = 0, ar_publishedTo = 100, ar_inputFingerprint = ''f'',
     ar_statisticCount = 0, ar_analysisCount = 3, ar_startedAt = 100, ar_activatedAt = None, ar_durationMs = None,
     ar_failureCode = None\<rparr>"

definition sample_account :: account where
  "sample_account = \<lparr>ac_id = ''a'', ac_workspaceId = ''w'', ac_providerAccountId = ''p'', ac_username = None,
     ac_accountType = BUSINESS, ac_mediaCount = None, ac_followerCount = None, ac_connectionStatus = CS_ACTIVE, ac_tokenExpiresAt = None,
     ac_grantedScopes = [], ac_lastSuccessfulSyncAt = None, ac_apiVersion = [], ac_createdAt = 0,
     ac_analyticsDirtySince = None, ac_analyticsDueAt = None\<rparr>"

definition sample_tables :: analytics_tables where
  "sample_tables = \<lparr>an_accounts = [sample_account], an_runs = [], an_runStatistics = []\<rparr>"

theorem one_published_run_per_scope_witness:
  "distinct (map run_scope (filter (\<lambda>r. ar_state r = R_ACTIVE) (an_runs (markAnalyticsDirty ''w'' ''a'' 5 sample_tables))))"
proof -
  have "no_runs sample_tables" by (simp add: no_runs_def sample_tables_def sample_account_def)
  from one_published_run_per_scope [OF this r_into_rtranclp [of analytics_step, OF analytics_step.mark]]
  show ?thesis by blast
qed

lemma view_published:
  assumes "tables_ok t"
  shows "map_option su_id (view t (ws, a)) = map_option ar_id (find_published ws a t)"
proof (cases "find_published ws a t")
  case (Some r)
  then have "r \<in> published ws a t" using find_published_iff [OF assms] by blast
  then have "ar_activatedAt r \<noteq> None" using assms by (auto simp: published_def tables_ok_def)
  with Some show ?thesis by (auto simp: view_def findActiveAnalyticsRun_def)
qed (simp add: view_def findActiveAnalyticsRun_def)

lemma rival_view:
  assumes "tables_ok t" "run_scope run = (ws, a)"
  shows "unseen_rival p run t \<longleftrightarrow> (\<exists>other. map_option su_id (view t (ws, a)) = Some other \<and> other \<noteq> ar_id run \<and> p \<noteq> Some other)"
proof
  assume "unseen_rival p run t"
  then obtain r where "r \<in> published ws a t" "ar_id r \<noteq> ar_id run" "p \<noteq> Some (ar_id r)"
    using assms(2) by (auto simp: unseen_rival_def published_def)
  then show "\<exists>other. map_option su_id (view t (ws, a)) = Some other \<and> other \<noteq> ar_id run \<and> p \<noteq> Some other"
    using find_published_iff [OF assms(1), where w = ws and b = a and r = r] view_published [OF assms(1), of ws a] by auto
next
  assume "\<exists>other. map_option su_id (view t (ws, a)) = Some other \<and> other \<noteq> ar_id run \<and> p \<noteq> Some other"
  then obtain r where r: "find_published ws a t = Some r" "ar_id r \<noteq> ar_id run" "p \<noteq> Some (ar_id r)"
    using view_published [OF assms(1), of ws a] by auto
  from r(1) have "r \<in> published ws a t" using find_published_iff [OF assms(1)] by blast
  with r(2,3) show "unseen_rival p run t" using assms(2) by (auto simp: unseen_rival_def published_def)
qed

text \<open>What a published run shows its readers.\<close>

lemma publish_shown:
  fixes now :: time and n :: nat
  assumes "tables_ok t" "run \<in> set (an_runs t)" "run_scope run = (ws, a)" "\<not> unseen_rival p run t"
    "\<forall>r \<in> set (an_runs t). p = Some (ar_id r) \<longrightarrow> run_scope r = (ws, a)"
    "tables_ok t2" "an_runs t2 = map (publish_run now n p run) (an_runs t)"
  shows "view t2 = (view t)((ws, a) \<mapsto> \<lparr>su_activatedAt = now, su_ageWindow = ar_ageWindow run,
      su_durationMs = Some (now - ar_startedAt run), su_id = ar_id run, su_statisticCount = n\<rparr>)"
proof -
  have p: "\<forall>r \<in> set (an_runs t). p = Some (ar_id r) \<longrightarrow> run_scope r = run_scope run" using assms(3,5) by simp
  have runs: "an_runs t2 = an_runs (t\<lparr>an_runs := map (publish_run now n p run) (an_runs t)\<rparr>)" using assms(7) by simp
  note shown = publish_view [OF assms(1,2,4) p, where now = now and n = n]
  have others: "view t2 x = view t x" if "x \<noteq> (ws, a)" for x
  proof -
    obtain w b where x: "x = (w, b)" by force
    have "published w b t2 = published w b t" using shown(1) [of w b] that published_runs [OF runs] by (simp add: x assms(3))
    from view_eq(1) [OF assms(6,1) this] show ?thesis by (simp add: view_def x)
  qed
  have "published ws a t2 = {publish_run now n p run run}" using shown(2) [OF assms(3)] published_runs [OF runs] by simp
  then have "find_published ws a t2 = Some (publish_run now n p run run)" using find_published_iff [OF assms(6)] by blast
  then have "view t2 (ws, a) = Some \<lparr>su_activatedAt = now, su_ageWindow = ar_ageWindow run,
      su_durationMs = Some (now - ar_startedAt run), su_id = ar_id run, su_statisticCount = n\<rparr>"
    by (simp add: view_def findActiveAnalyticsRun_def publish_run_def supersede_def)
  with others show ?thesis by (intro ext) (auto simp: fun_upd_def)
qed

text \<open>
  C36: publication replaces one complete set by another and does nothing else, whatever other workers
  commit between the reads of an activation and its statements.  An activation that publishes leaves the
  readers of all scopes what they saw with the set of its one scope replaced by the run, counted in
  full when it was read, and the run that gave way is the one it reports as superseded.  One that is refused
  leaves what they saw, and no debounce marker is cleared.  It meets the unique index, and its
  transaction changes nothing, only when another run of the scope is published that was not when the
  previous run was read; with current reads never.
\<close>

theorem publication_replaces_view:
  assumes "tables_ok s1" "run \<in> set (an_runs s1)"
    "ar_id run = runId" "ar_workspaceId run = ws" "ar_instagramAccountId run = a"
    "analytics_step\<^sup>*\<^sup>* s1 s2" "analytics_step\<^sup>*\<^sup>* s2 s3" "analytics_step\<^sup>*\<^sup>* s3 t"
  shows "case activateAnalyticsRun ws since expected fp a now runId s1 s2 s3 t of
       Inl e \<Rightarrow> e = Exn_other ''account_analytics_runs_one_active_per_scope'' \<and> (\<exists>other. map_option su_id (view t (ws, a)) = Some other \<and>
         other \<noteq> runId \<and> map_option su_id (view s3 (ws, a)) \<noteq> Some other)
     | Inr (Refused _, t') \<Rightarrow> tables_ok t' \<and> view t' = view t \<and> an_accounts t' = an_accounts t
     | Inr (Activated previous, t') \<Rightarrow> tables_ok t' \<and> ar_inputFingerprint run = fp \<and>
         expected = count_many (\<lambda>s. rs_runId s = runId \<and> rs_workspaceId s = ws) (an_runStatistics s2) \<and>
         previous = map_option su_id (view s3 (ws, a)) \<and> map_option su_id (view t (ws, a)) \<in> {None, Some runId, previous} \<and>
         view t' = (view t)((ws, a) \<mapsto> \<lparr>su_activatedAt = now, su_ageWindow = ar_ageWindow run,
           su_durationMs = Some (now - ar_startedAt run), su_id = runId, su_statisticCount = expected\<rparr>)"
proof -
  have ok: "tables_ok s2" "tables_ok s3" "tables_ok t" using steps_ok assms(1,6-8) by blast+
  have "analytics_step\<^sup>*\<^sup>* s1 t" using assms(6-8) by (meson rtranclp_trans)
  from steps_identity [OF this assms(2)] obtain row where row: "row \<in> set (an_runs t)" "run_identity row = run_identity run" by blast
  have same: "ar_id row = runId" "ar_workspaceId row = ws" "run_scope row = (ws, a)" "ar_startedAt run = ar_startedAt row"
    "ar_inputFingerprint run = ar_inputFingerprint row" "ar_ageWindow run = ar_ageWindow row"
    using row(2) assms(3-5) by (simp_all add: run_identity_def run_scope_def)
  have read: "find (\<lambda>r. ar_id r = runId \<and> ar_workspaceId r = ws) (an_runs s1) = Some run"
    using find_only [of "an_runs s1" "\<lambda>r. ar_id r = runId \<and> ar_workspaceId r = ws" run] run_same [OF assms(1)] assms(2-4) by auto
  define previous where "previous = map_option ar_id (find_published ws a s3)"
  have scope: "\<forall>r \<in> set (an_runs t). previous = Some (ar_id r) \<longrightarrow> run_scope r = (ws, a)"
  proof (intro ballI impI)
    fix r assume r: "r \<in> set (an_runs t)" "previous = Some (ar_id r)"
    then obtain p where p: "find_published ws a s3 = Some p" "ar_id p = ar_id r" by (auto simp: previous_def)
    then have "p \<in> published ws a s3" using find_published_iff [OF ok(2)] by blast
    then have mem: "p \<in> set (an_runs s3)" "run_scope p = (ws, a)" by (simp_all add: published_def)
    from steps_identity [OF assms(8) mem(1)] obtain p' where "p' \<in> set (an_runs t)" "run_identity p' = run_identity p" by blast
    then show "run_scope r = (ws, a)" using run_same [OF ok(3) _ r(1), of p'] p(2) mem(2) by (simp add: run_identity_def run_scope_def)
  qed
  have prev: "previous = map_option su_id (view s3 (ws, a))" using view_published [OF ok(2)] by (simp add: previous_def)
  have prev_ws: "\<forall>r \<in> set (an_runs t). map_option ar_id (find_published ws a s3) = Some (ar_id r) \<longrightarrow> ar_workspaceId r = ws"
    using scope by (simp add: previous_def run_scope_def)
  define written where "written = count_many (\<lambda>s. rs_runId s = runId \<and> rs_workspaceId s = ws) (an_runStatistics s2)"
  define t1 where "t1 = t\<lparr>an_runs := map (publish_run now written previous row) (an_runs t)\<rparr>"
  define t2 where "t2 = (case (a, since) of (Some acc, Some s) \<Rightarrow> clear_dirty ws acc s t1 | _ \<Rightarrow> t1)"
  note eq = activate_eq [OF ok(3) row(1) same(1,2) read same(4,5) prev_ws, where ?s2.0 = s2 and since = since and expected = expected and fp = fp and now = now,
    folded written_def previous_def, folded t1_def, unfolded Let_def, folded t2_def]
  note rival = rival_view [OF ok(3) same(3), of previous, unfolded same(1)]
  have refused: "tables_ok (failAnalyticsRun ws c runId t) \<and> view (failAnalyticsRun ws c runId t) = view t \<and>
      an_accounts (failAnalyticsRun ws c runId t) = an_accounts t" for c
    using fail_keeps_view [OF ok(3)] view_eq(1) [OF fail_keeps_view(1) [OF ok(3)] ok(3) fail_keeps_view(2) [OF ok(3)]]
    by (auto simp: view_def failAnalyticsRun_def)
  consider "ar_inputFingerprint row \<noteq> fp" | "ar_inputFingerprint row = fp" "written \<noteq> expected"
    | "ar_inputFingerprint row = fp" "written = expected" "unseen_rival previous row t"
    | "ar_inputFingerprint row = fp" "written = expected" "\<not> unseen_rival previous row t" by blast
  then show ?thesis
  proof cases
    case 3
    then show ?thesis unfolding eq using rival prev by simp
  next
    case 4
    have "tables_ok t1" unfolding t1_def by (rule publish_ok [OF ok(3) row(1) 4(3)])
    then have ok2: "tables_ok t2" unfolding t2_def by (auto intro: clear_dirty_ok split: option.split)
    have "an_runs t2 = map (publish_run now written previous row) (an_runs t)" unfolding t2_def t1_def by (simp split: option.split)
    note shown = publish_shown [OF ok(3) row(1) same(3) 4(3) scope ok2 this]
    have "map_option su_id (view t (ws, a)) \<in> {None, Some runId, previous}"
      using 4(3) rival by (cases "map_option su_id (view t (ws, a))") auto
    then show ?thesis unfolding eq using 4 ok2 prev shown same by (simp add: written_def [symmetric])
  qed (use eq refused in simp_all)
qed

definition building_tables :: analytics_tables where
  "building_tables = sample_tables\<lparr>an_runs := [sample_run ''r1'' R_BUILDING, sample_run ''r2'' R_BUILDING]\<rparr>"

text \<open>Two activations of one scope that read the same state: the first publishes, the second meets the index.\<close>

definition first_activation :: "exn + activation \<times> analytics_tables" where
  "first_activation = activateAnalyticsRun ''w'' None 0 ''f'' (Some ''a'') 200 ''r1'' building_tables building_tables building_tables building_tables"

theorem publication_replaces_view_witness:
  "\<exists>t'. first_activation = Inr (Activated None, t') \<and> map_option su_id (view t' (''w'', Some ''a'')) = Some ''r1'' \<and>
     activateAnalyticsRun ''w'' None 0 ''f'' (Some ''a'') 300 ''r2'' building_tables building_tables building_tables t' =
       Inl (Exn_other ''account_analytics_runs_one_active_per_scope'')"
proof -
  have ok: "tables_ok building_tables"
    by (simp add: tables_ok_def building_tables_def sample_tables_def sample_run_def sample_account_def one_active_def)
  have run: "sample_run ''r1'' R_BUILDING \<in> set (an_runs building_tables)" "sample_run ''r2'' R_BUILDING \<in> set (an_runs building_tables)"
    by (simp_all add: building_tables_def)
  have "case first_activation of Inr (Activated None, _) \<Rightarrow> True | _ \<Rightarrow> False" by code_simp
  then obtain t' where act: "first_activation = Inr (Activated None, t')"
    by (auto split: sum.splits prod.splits activation.splits option.splits)
  have step: "analytics_step\<^sup>*\<^sup>* building_tables t'" by (rule r_into_rtranclp, rule analytics_step.activate [OF act [unfolded first_activation_def]])
  have shown: "map_option su_id (view t' (''w'', Some ''a'')) = Some ''r1''"
    using publication_replaces_view [OF ok run(1) _ _ _ rtranclp.rtrancl_refl rtranclp.rtrancl_refl rtranclp.rtrancl_refl,
        where runId = "''r1''" and ws = "''w''" and a = "Some ''a''" and since = None and expected = 0 and fp = "''f''" and now = 200] act [unfolded first_activation_def] by (simp add: sample_run_def)
  have "isl (activateAnalyticsRun ''w'' None 0 ''f'' (Some ''a'') 300 ''r2'' building_tables building_tables building_tables
      (case first_activation of Inr (_, t') \<Rightarrow> t' | Inl _ \<Rightarrow> building_tables))" by code_simp
  then obtain e where e: "activateAnalyticsRun ''w'' None 0 ''f'' (Some ''a'') 300 ''r2'' building_tables building_tables building_tables t' = Inl e"
    by (auto simp: act isl_def)
  have "e = Exn_other ''account_analytics_runs_one_active_per_scope''"
    using publication_replaces_view [OF ok run(2) _ _ _ rtranclp.rtrancl_refl rtranclp.rtrancl_refl step,
        where runId = "''r2''" and ws = "''w''" and a = "Some ''a''" and since = None and expected = 0 and fp = "''f''" and now = 300] by (simp add: e sample_run_def)
  with act shown e show ?thesis by blast
qed

text \<open>
  Continuous activity does not postpone a recalculation.  The first change to a clean account
  fixes the anchor and the due time five minutes later; whatever changes follow, to this or to other
  accounts, both stay, and from the due time on a connected account is found by the sweep, as long as
  no more accounts are due than it takes.
\<close>

theorem debounce_keeps_its_anchor:
  assumes "a \<in> set (an_accounts t)" "ac_analyticsDirtySince a = None" "ac_id a = i" "ac_workspaceId a = ws"
  shows "let t' = mark_all later (markAnalyticsDirty ws i first t) in
    \<exists>b \<in> set (an_accounts t'). ac_id b = i \<and> ac_workspaceId b = ws \<and> ac_analyticsDirtySince b = Some first \<and>
      ac_analyticsDueAt b = Some (first + 300000) \<and>
      (ac_connectionStatus a = CS_ACTIVE \<and> first + 300000 \<le> now \<and>
       int (count_many (account_due now) (an_accounts t')) \<le> min limit 100 \<longrightarrow>
       \<lparr>du_dirtySince = first, du_instagramAccountId = i, du_workspaceId = ws\<rparr> \<in>
         set (listAccountsDueForAnalytics limit now t'))"
proof -
  define t' where "t' = mark_all later (markAnalyticsDirty ws i first t)"
  let ?b = "a\<lparr>ac_analyticsDirtySince := Some first, ac_analyticsDueAt := Some (first + analyticsDebounceMs)\<rparr>"
  have "?b \<in> set (an_accounts (markAnalyticsDirty ws i first t))"
    using assms(1-4) by (auto simp: markAnalyticsDirty_def set_update_many intro!: bexI [of _ a])
  then have b: "?b \<in> set (an_accounts t')" unfolding t'_def by (rule marks_keep_dirty) simp
  have listed: "\<lparr>du_dirtySince = first, du_instagramAccountId = i, du_workspaceId = ws\<rparr> \<in>
      set (listAccountsDueForAnalytics limit now t')"
    if "ac_connectionStatus a = CS_ACTIVE" "first + 300000 \<le> now"
      "int (count_many (account_due now) (an_accounts t')) \<le> min limit 100"
    using due_listed [OF b, of now first limit] that assms(3,4) by (simp add: account_due_def analyticsDebounceMs_def)
  show ?thesis
    unfolding Let_def t'_def [symmetric] by (rule bexI [OF _ b]) (use listed assms(3,4) in \<open>auto simp: analyticsDebounceMs_def\<close>)
qed

theorem debounce_keeps_its_anchor_witness:
  "\<lparr>du_dirtySince = 5, du_instagramAccountId = ''a'', du_workspaceId = ''w''\<rparr> \<in>
     set (listAccountsDueForAnalytics 10 400000 (mark_all [(''w'', ''a'', 300)] (markAnalyticsDirty ''w'' ''a'' 5 sample_tables)))"
proof -
  have "sample_account \<in> set (an_accounts sample_tables)" "ac_analyticsDirtySince sample_account = None"
    "ac_id sample_account = ''a''" "ac_workspaceId sample_account = ''w''" "ac_connectionStatus sample_account = CS_ACTIVE"
    by (simp_all add: sample_tables_def sample_account_def)
  moreover have "int (count_many (account_due 400000)
      (an_accounts (mark_all [(''w'', ''a'', 300)] (markAnalyticsDirty ''w'' ''a'' 5 sample_tables)))) \<le> min 10 100" by code_simp
  ultimately show ?thesis
    using debounce_keeps_its_anchor [of sample_account sample_tables "''a''" "''w''" "[(''w'', ''a'', 300)]" 5 400000 10]
    unfolding Let_def by auto
qed

section \<open>Scheduling\<close>

text \<open>Rows have identifiers of the program's kind, and markers are instants of its time.\<close>

definition analytics_ids :: "uuid_lib \<Rightarrow> analytics_tables \<Rightarrow> bool" where
  "analytics_ids lib t \<longleftrightarrow> list_all (\<lambda>a. row_id lib (ac_id a) \<and> row_id lib (ac_workspaceId a) \<and>
     (case ac_analyticsDirtySince a of None \<Rightarrow> True | Some s \<Rightarrow> plain_instant s)) (an_accounts t)"

lemma recalculation_admissible:
  assumes "row_id lib i" "plain_instant since" "prefix \<in> {''analytics-recalculate-'', ''analytics-recalculate-pooled-''}"
    "ty \<in> {''instagram_account'', ''workspace''}"
  shows "admissible lib (recalculation_request (prefix @ i @ ''-'' @ toISOString since) i ty w)"
proof -
  let ?k = "prefix @ i @ ''-'' @ toISOString since"
  have "length i = 36" "list_all key_char i"
    using uuid_pattern_length [of i] uuid_chars [of i] assms(1) by (auto simp: row_id_def list_all_iff key_char_def)
  moreover have "list_all key_char prefix" "is_alnum (hd prefix)" "length prefix \<le> 29" "prefix \<noteq> []"
    using assms(3) by (auto simp: key_char_def is_alnum_def is_lower_def code_in_def)
  moreover have "key_char CHR ''-''" by (simp add: key_char_def)
  ultimately have "list_all key_char ?k" "is_alnum (hd ?k)" "?k \<noteq> []" "length ?k \<le> 255"
    using ISO_chars [OF assms(2)] ISO_length [OF assms(2)] by simp_all
  from key_admitted(1) [OF this] show ?thesis
    using assms(1,4) by (auto simp: admissible_def recalculation_request_def row_id_def isQueueName_def queueDefinitions_def safe_lower_name_def
        is_lower_def is_digit_def code_in_def trim_def is_space_def)
qed

lemma anchor_insert_set: "x \<in> set (anchor_insert ws since anchors) \<Longrightarrow> x \<in> set anchors \<or> x = (ws, since)"
  by (induction ws since anchors rule: anchor_insert.induct) (auto split: if_splits)

lemma pooledAnchors_from: "(ws, anchor) \<in> set (pooledAnchors due) \<Longrightarrow> \<exists>d \<in> set due. ws = du_workspaceId d \<and> anchor = du_dirtySince d"
proof -
  have "x \<in> set anchors \<or> (\<exists>d \<in> set due. x = (du_workspaceId d, du_dirtySince d))"
    if "x \<in> set (foldl (\<lambda>anchors d. anchor_insert (du_workspaceId d) (du_dirtySince d) anchors) anchors due)" for x anchors
    using that
  proof (induction due arbitrary: anchors)
    case (Cons d due)
    from Cons.IH [of "anchor_insert (du_workspaceId d) (du_dirtySince d) anchors"] Cons.prems show ?case
      by (auto dest: anchor_insert_set)
  qed simp
  from this [of "(ws, anchor)" "[]"] show "(ws, anchor) \<in> set (pooledAnchors due) \<Longrightarrow> ?thesis" by (auto simp: pooledAnchors_def)
qed

interpretation analytics: sweeper "\<lambda>limit now t. recalculations (listAccountsDueForAnalytics limit now t)" analytics_ids
proof unfold_locales
  fix lib t now limit r
  assume ids: "analytics_ids lib t" and r: "r \<in> set (recalculations (listAccountsDueForAnalytics limit now t))"
  have due: "row_id lib (du_instagramAccountId d) \<and> row_id lib (du_workspaceId d) \<and> plain_instant (du_dirtySince d)"
    if "d \<in> set (listAccountsDueForAnalytics limit now t)" for d
    using that ids set_take_subset [of "nat (min (max limit 1) 100)" "sort_key (\<lambda>a. the (ac_analyticsDueAt a)) (filter (account_due now) (an_accounts t))"]
    by (fastforce simp: listAccountsDueForAnalytics_def List.map_filter_def analytics_ids_def list_all_iff)
  from r consider d where "d \<in> set (listAccountsDueForAnalytics limit now t)"
      "r = recalculation_request (analyticsRecalculateKey (du_instagramAccountId d) (du_dirtySince d)) (du_instagramAccountId d)
         ''instagram_account'' (du_workspaceId d)"
    | d where "d \<in> set (listAccountsDueForAnalytics limit now t)"
      "r = recalculation_request (pooledAnalyticsRecalculateKey (du_workspaceId d) (du_dirtySince d)) (du_workspaceId d) ''workspace'' (du_workspaceId d)"
    using pooledAnchors_from by (fastforce simp: recalculations_def)
  then show "admissible lib r"
  proof cases
    case (1 d)
    then show ?thesis unfolding 1(2) analyticsRecalculateKey_def using due [OF 1(1)] by (intro recalculation_admissible) blast+
  next
    case (2 d)
    then show ?thesis unfolding 2(2) pooledAnalyticsRecalculateKey_def using due [OF 2(1)] by (intro recalculation_admissible) blast+
  qed
qed

text \<open>
  A sweep schedules every change it finds, once.  Every recalculation that is due has a job
  afterwards, the jobs it added are queued and counted, and the tables are as they were.  The next
  sweep of the same markers, by whatever worker, adds nothing; a later marker of an account has a key of its own.
\<close>

theorem sweep_schedules_once:
  assumes "analytics_ids lib (db_results db)" "plain_instant now" "db_online db" "fresh_ids ids db"
    "length (recalculations (listAccountsDueForAnalytics batchSize now (db_results db))) \<le> length ids"
    "sweep lib batchSize now dbNow ids db = (n, db')" "fst ` set ids' \<inter> j_id ` set (db_jobs db') = {}"
    "plain_instant since" "plain_instant since'"
  shows "swept (recalculations (listAccountsDueForAnalytics batchSize now (db_results db))) (fst ` set ids) db n db' \<and>
    fst (sweep lib batchSize now dbNow' ids' db') = 0 \<and> db_jobs (snd (sweep lib batchSize now dbNow' ids' db')) = db_jobs db' \<and>
    (analyticsRecalculateKey a since = analyticsRecalculateKey a since' \<longleftrightarrow> since = since')"
proof -
  have first: "enqueue_each lib dbNow (recalculations (listAccountsDueForAnalytics batchSize now (db_results db))) ids db = (n, db')"
    using assms(6) by (simp add: sweep_def)
  have db': "db' = snd (enqueue_each lib dbNow (recalculations (listAccountsDueForAnalytics batchSize now (db_results db))) ids db)"
    by (simp add: first)
  have "swept (recalculations (listAccountsDueForAnalytics batchSize now (db_results db))) (fst ` set ids) db n db'"
    using analytics.sweep_schedules [OF assms(1-5), of dbNow] by (simp add: first)
  moreover have "fst (sweep lib batchSize now dbNow' ids' db') = 0 \<and> db_jobs (snd (sweep lib batchSize now dbNow' ids' db')) = db_jobs db'"
    unfolding sweep_def by (rule analytics.sweep_again [OF assms(1-5) db' _ assms(7)]) simp
  ultimately show ?thesis using toISOString_inj [OF assms(8,9)] by (auto simp: analyticsRecalculateKey_def)
qed

definition row_account :: account where
  "row_account = sample_account\<lparr>ac_id := ''0190a000-0000-7000-8000-00000000000a'', ac_workspaceId := ''0190a000-0000-7000-8000-00000000000b'',
     ac_analyticsDirtySince := Some 5, ac_analyticsDueAt := Some 300005\<rparr>"

definition dirty_db :: "analytics_tables database" where
  "dirty_db = \<lparr>db_online = True, db_jobs = [], db_attempts = [], db_outbox = [], db_audit = [], db_users = [], db_analysisJobs = [],
     db_results = \<lparr>an_accounts = [row_account], an_runs = [], an_runStatistics = []\<rparr>\<rparr>"

definition sweep_ids :: "string \<Rightarrow> (string \<times> string \<times> string) list" where
  "sweep_ids p = [(p @ ''1'', p @ ''3'', ''0190a000-0000-7000-8000-00000000000c''), (p @ ''2'', p @ ''4'', ''0190a000-0000-7000-8000-00000000000d'')]"

theorem sweep_schedules_once_witness:
  "fst (sweep demo_lib 10 400000 400000 (sweep_ids ''a'') dirty_db) = 2 \<and>
   fst (sweep demo_lib 10 400000 500000 (sweep_ids ''b'') (snd (sweep demo_lib 10 400000 400000 (sweep_ids ''a'') dirty_db))) = 0"
proof -
  have two: "fst (sweep demo_lib 10 400000 400000 (sweep_ids ''a'') dirty_db) = 2" by code_simp
  then have count: "sweep demo_lib 10 400000 400000 (sweep_ids ''a'') dirty_db = (2, snd (sweep demo_lib 10 400000 400000 (sweep_ids ''a'') dirty_db))"
    by (metis prod.collapse)
  have pre: "analytics_ids demo_lib (db_results dirty_db)" "plain_instant 400000" "db_online dirty_db" "fresh_ids (sweep_ids ''a'') dirty_db"
    "length (recalculations (listAccountsDueForAnalytics 10 400000 (db_results dirty_db))) \<le> length (sweep_ids ''a'')"
    "fst ` set (sweep_ids ''b'') \<inter> j_id ` set (db_jobs (snd (sweep demo_lib 10 400000 400000 (sweep_ids ''a'') dirty_db))) = {}"
    "plain_instant 5" "plain_instant 6" by code_simp+
  show ?thesis using sweep_schedules_once [OF pre(1-5) count pre(6-8), of 500000] two by blast
qed

text \<open>
  What the anchored marker means for a change that arrives while a run is building: the account is
  dirty, so the change leaves the tables as they are, and the activation clears the marker the run
  started from.  The account ends clean and nothing records the change.
\<close>

theorem change_during_run_is_dropped:
  assumes "\<forall>a \<in> set (an_accounts t). ac_id a = i \<and> ac_workspaceId a = ws \<longrightarrow> ac_analyticsDirtySince a = Some since"
    and "activateAnalyticsRun ws (Some since) n fp (Some i) now runId s1 s2 s3 (markAnalyticsDirty ws i later t) = Inr (Activated previous, t')"
  shows "markAnalyticsDirty ws i later t = t \<and>
    (\<forall>a \<in> set (an_accounts t'). ac_id a = i \<and> ac_workspaceId a = ws \<longrightarrow> ac_analyticsDirtySince a = None)"
proof -
  have same: "markAnalyticsDirty ws i later t = t" by (rule mark_dirty_noop) (use assms(1) in auto)
  have "\<exists>runs. t' = clear_dirty ws i since (t\<lparr>an_runs := runs\<rparr>)"
    using assms(2) unfolding same
    by (auto simp: activateAnalyticsRun_def Let_def split: option.splits if_splits sum.splits)
  then obtain runs where "t' = clear_dirty ws i since (t\<lparr>an_runs := runs\<rparr>)" by blast
  then have accounts: "an_accounts t' = update_many
      (\<lambda>a. ac_analyticsDirtySince a = Some since \<and> ac_id a = i \<and> ac_workspaceId a = ws)
      (\<lambda>a. a\<lparr>ac_analyticsDirtySince := None, ac_analyticsDueAt := None\<rparr>) (an_accounts t)" by (simp add: clear_dirty_def)
  have "\<forall>a \<in> set (an_accounts t'). ac_id a = i \<and> ac_workspaceId a = ws \<longrightarrow> ac_analyticsDirtySince a = None"
    unfolding accounts ball_update_many using assms(1) by auto
  with same show ?thesis by blast
qed

end
