(* ===== verification/Instagram_Insights.thy ===== *)
theory Instagram_Insights
  imports Instagram_Credentials Analytics_Runs
begin

text \<open>
  Metrics of a post: \<open>packages/domain/src/instagram-insights.ts\<close> (what is requested of the provider,
  how an answer is read, age buckets), the write and the read of a snapshot row
  (\<open>packages/db/src/instagram-insights.ts\<close>) and the handler that takes a snapshot
  (\<open>apps/worker/src/instagram/snapshot-post-handler.ts\<close> over \<open>insights-client.ts\<close>).

  The provider's answers, the hash function and \<open>localeCompare\<close> are parameters.  The JSON column
  of a snapshot holds, for each metric it has, an entry; it is a partial function here.  An answer's
  \<open>retry-after\<close> header comes as the number it reads as.
\<close>

section \<open>What is requested\<close>

datatype metric_availability =
    MA_available | MA_unavailable | MA_not_applicable | MA_permission_missing | MA_provider_error | MA_not_requested

record insight_metric =
  im_canonical :: canonical_metric
  im_provider :: string
  im_providerUnit :: metric_unit
  im_unit :: metric_unit

record insight_group =
  ig_key :: string
  ig_metrics :: "insight_metric list"

definition metric :: "canonical_metric \<Rightarrow> string \<Rightarrow> metric_unit \<Rightarrow> metric_unit \<Rightarrow> insight_metric" where
  "metric canonical provider u providerUnit =
     \<lparr>im_canonical = canonical, im_provider = provider, im_providerUnit = providerUnit, im_unit = u\<rparr>"

definition reelGroupsV25 :: "insight_group list" where
  "reelGroupsV25 =
     [\<lparr>ig_key = ''distribution'', ig_metrics = [metric M_views ''views'' U_count U_count, metric M_reach ''reach'' U_count U_count]\<rparr>,
      \<lparr>ig_key = ''engagement'', ig_metrics = [metric M_likes ''likes'' U_count U_count, metric M_comments ''comments'' U_count U_count,
         metric M_shares ''shares'' U_count U_count, metric M_saves ''saved'' U_count U_count,
         metric M_total_interactions ''total_interactions'' U_count U_count]\<rparr>,
      \<lparr>ig_key = ''watch_time'', ig_metrics = [metric M_total_watch_time_ms ''ig_reels_video_view_total_time'' U_milliseconds U_milliseconds,
         metric M_average_watch_time_ms ''ig_reels_avg_watch_time'' U_milliseconds U_milliseconds]\<rparr>,
      \<lparr>ig_key = ''retention'', ig_metrics = [metric M_skip_rate ''reels_skip_rate'' U_ratio U_ratio]\<rparr>]"

definition instagramApiVersion :: string where "instagramApiVersion = ''v25.0''"

definition instagramInsightCapabilityMap :: "(string \<times> (media_kind \<times> insight_group list) list) list" where
  "instagramInsightCapabilityMap = [(instagramApiVersion, [(REEL, reelGroupsV25)])]"

definition instagramInsightGroups :: "string \<Rightarrow> media_kind \<Rightarrow> insight_group list" where
  "instagramInsightGroups apiVersion mediaKind =
     (case map_of instagramInsightCapabilityMap apiVersion of None \<Rightarrow> []
      | Some kinds \<Rightarrow> coalesce (map_of kinds mediaKind) [])"

text \<open>One kind at most has groups in the map, so that the order of the names does not matter.\<close>

definition instagramInsightMediaKinds :: "string \<Rightarrow> media_kind list" where
  "instagramInsightMediaKinds apiVersion =
     (case map_of instagramInsightCapabilityMap apiVersion of None \<Rightarrow> []
      | Some supported \<Rightarrow> map fst (filter (\<lambda>(_, groups). length groups > 0) supported))"

definition instagramRequestedMetrics :: "string \<Rightarrow> media_kind \<Rightarrow> canonical_metric list" where
  "instagramRequestedMetrics apiVersion mediaKind =
     concat (map (\<lambda>g. map im_canonical (ig_metrics g)) (instagramInsightGroups apiVersion mediaKind))"

section \<open>Reading an answer\<close>

record metric_observation =
  mo_availability :: metric_availability
  mo_canonical :: canonical_metric
  mo_description :: "string option"
  mo_period :: "string option"
  mo_providerName :: "string option"
  mo_providerUnit :: "metric_unit option"
  mo_title :: "string option"
  mo_unit :: "metric_unit option"
  mo_value :: "js_num option"

definition bare_observation :: "canonical_metric \<Rightarrow> metric_availability \<Rightarrow> metric_observation" where
  "bare_observation canonical availability =
     \<lparr>mo_availability = availability, mo_canonical = canonical, mo_description = None, mo_period = None, mo_providerName = None,
      mo_providerUnit = None, mo_title = None, mo_unit = None, mo_value = None\<rparr>"

definition instagramUnrequestedObservations :: "canonical_metric list \<Rightarrow> metric_availability \<Rightarrow> metric_observation list" where
  "instagramUnrequestedObservations requested reason =
     map (\<lambda>c. bare_observation c reason) (filter (\<lambda>c. c \<notin> set requested) instagramCanonicalMetrics)"

datatype insight_rejection = ITEM_NOT_OBJECT | METRIC_UNKNOWN | VALUE_NOT_FINITE | VALUE_NEGATIVE | VALUE_OUT_OF_RANGE

definition maximumRatio :: js_num where "maximumRatio = jint 1"
definition maximumCount :: js_num where "maximumCount = jint maxSafe"
definition maximumMilliseconds :: js_num where "maximumMilliseconds = jint 315360000000"

fun first_number :: "js_num js_value list \<Rightarrow> js_num option" where
  "first_number [] = None"
| "first_number (entry # rest) =
     (case is_record entry of None \<Rightarrow> first_number rest
      | Some fs \<Rightarrow> (case js_field fs ''value'' of JNum n \<Rightarrow> Some n | _ \<Rightarrow> first_number rest))"

definition readNumber :: "(string \<times> js_num js_value) list \<Rightarrow> js_num option" where
  "readNumber item =
     (case (case is_record (js_field item ''total_value'') of None \<Rightarrow> JUndefined | Some fs \<Rightarrow> js_field fs ''value'') of
        JNum n \<Rightarrow> Some n
      | _ \<Rightarrow> first_number (case js_field item ''values'' of js_value.JArr vs \<Rightarrow> vs | _ \<Rightarrow> []))"

definition read_text :: "(string \<times> js_num js_value) list \<Rightarrow> string \<Rightarrow> string option" where
  "read_text item key = (case js_field item key of
       js_value.JStr s \<Rightarrow> if length (trim s) > 0 then Some (take 512 (trim s)) else None
     | _ \<Rightarrow> None)"

definition unit_ceiling :: "metric_unit \<Rightarrow> js_num" where
  "unit_ceiling u = (if u = U_ratio then maximumRatio else if u = U_milliseconds then maximumMilliseconds else maximumCount)"

definition normaliseInstagramInsightItem :: "js_num js_value \<Rightarrow> insight_metric list \<Rightarrow> insight_rejection + metric_observation" where
  "normaliseInstagramInsightItem item definitions =
     (case is_record item of None \<Rightarrow> Inl ITEM_NOT_OBJECT
      | Some fs \<Rightarrow>
          (case find (\<lambda>d. Some (im_provider d) = read_text fs ''name'') definitions of
             None \<Rightarrow> Inl METRIC_UNKNOWN
           | Some d \<Rightarrow>
               let shared = (bare_observation (im_canonical d) MA_unavailable)\<lparr>mo_description := read_text fs ''description'',
                     mo_period := read_text fs ''period'', mo_providerName := Some (im_provider d),
                     mo_providerUnit := Some (im_providerUnit d), mo_title := read_text fs ''title'', mo_unit := Some (im_unit d)\<rparr>
               in case readNumber fs of
                   None \<Rightarrow> Inr shared
                 | Some raw \<Rightarrow>
                     if \<not> isFinite raw then Inl VALUE_NOT_FINITE
                     else if jlt raw (jint 0) then Inl VALUE_NEGATIVE
                     else if jgt raw (unit_ceiling (im_unit d)) then Inl VALUE_OUT_OF_RANGE
                     else Inr (shared\<lparr>mo_availability := MA_available, mo_value := Some raw\<rparr>)))"

definition requested_observation :: "metric_availability \<Rightarrow> insight_metric \<Rightarrow> metric_observation" where
  "requested_observation availability d = (bare_observation (im_canonical d) availability)\<lparr>mo_providerName := Some (im_provider d),
     mo_providerUnit := Some (im_providerUnit d), mo_unit := Some (im_unit d)\<rparr>"

text \<open>The map keeps the last observation of a metric.\<close>

definition readInstagramInsightGroup :: "js_num js_value \<Rightarrow> insight_group \<Rightarrow> metric_observation list \<times> insight_rejection list" where
  "readInstagramInsightGroup body g =
     (let data = (case is_record body of None \<Rightarrow> [] | Some fs \<Rightarrow> (case js_field fs ''data'' of js_value.JArr vs \<Rightarrow> vs | _ \<Rightarrow> []));
          results = map (\<lambda>item. normaliseInstagramInsightItem item (ig_metrics g)) data;
          observed = List.map_filter (\<lambda>r. case r of Inr ob \<Rightarrow> Some ob | Inl _ \<Rightarrow> None) results;
          rejections = List.map_filter (\<lambda>r. case r of Inr _ \<Rightarrow> None | Inl e \<Rightarrow> Some e) results
      in (map (\<lambda>d. coalesce (find (\<lambda>ob. mo_canonical ob = im_canonical d) (rev observed)) (requested_observation MA_unavailable d)) (ig_metrics g),
          rejections))"

definition instagramGroupFailureAvailability :: "response_class \<Rightarrow> metric_availability" where
  "instagramGroupFailureAvailability c =
     (if c = RC_authorisation then MA_permission_missing else if c = RC_unsupported then MA_not_applicable else MA_provider_error)"

definition instagramFailedGroupObservations :: "insight_group \<Rightarrow> metric_availability \<Rightarrow> metric_observation list" where
  "instagramFailedGroupObservations g availability = map (requested_observation availability) (ig_metrics g)"

section \<open>Age buckets\<close>

definition instagramSnapshotBuckets :: "(age_window \<times> js_num) list" where
  "instagramSnapshotBuckets = [(W_import, jint 1800), (W_hour_1, jint 7200), (W_day_1, jint 129600), (W_day_3, jint 345600),
     (W_day_7, jint 777600), (W_day_30, jint 3456000), (W_mature, PosInf)]"

definition instagramSnapshotBucketFor :: "js_num \<Rightarrow> age_window" where
  "instagramSnapshotBucketFor postAgeSeconds =
     (if postAgeSeconds = NaN \<or> jlt postAgeSeconds (jint 0) then W_import
      else case find (\<lambda>(_, maximumSeconds). jle postAgeSeconds maximumSeconds) instagramSnapshotBuckets of
          Some (key, _) \<Rightarrow> key | None \<Rightarrow> W_mature)"

section \<open>A snapshot row\<close>

record metric_entry =
  me_availability :: metric_availability
  me_description :: "string option"
  me_period :: "string option"
  me_providerName :: "string option"
  me_providerUnit :: "metric_unit option"
  me_unit :: "metric_unit option"

text \<open>A value column: a 32-bit or a 64-bit integer, or a decimal of five places, in units of the last.\<close>

datatype column = Col_int int | Col_bigint int | Col_decimal int

record metric_snapshot =
  ms_id :: string
  ms_workspaceId :: string
  ms_instagramPostId :: string
  ms_capturedAt :: time
  ms_postAgeSeconds :: int
  ms_ageBucket :: age_window
  ms_apiVersion :: string
  ms_values :: "canonical_metric \<Rightarrow> column option"
  ms_availability :: "canonical_metric \<Rightarrow> metric_entry option"
  ms_followerCount :: "int option"
  ms_rawPayloadHash :: string

text \<open>\<open>Math.round\<close>, and \<open>toFixed(5)\<close> in units of the last place: both round halves up.\<close>

fun jround :: "js_num \<Rightarrow> js_num" where
  "jround (Num x) = jint \<lfloor>x + 1 / 2\<rfloor>"
| "jround v = v"

fun fixed5 :: "js_num \<Rightarrow> int" where
  "fixed5 (Num x) = \<lfloor>x * 100000 + 1 / 2\<rfloor>"
| "fixed5 v = 0"

definition snapshotError :: "string \<Rightarrow> exn" where
  "snapshotError code = Exn_operational (OperationalError code Validation None (jint 400))"

definition column_of :: "canonical_metric \<Rightarrow> js_num \<Rightarrow> exn + column" where
  "column_of canonical v =
     (if \<not> isFinite v \<or> jlt v (jint 0) then Inl (snapshotError ''SNAPSHOT_VALUE_INVALID'')
      else if canonical = M_total_watch_time_ms then Inr (Col_bigint (num_int (jround v)))
      else if canonical = M_skip_rate then
        if jgt v (jint 1) then Inl (snapshotError ''SNAPSHOT_RATIO_INVALID'') else Inr (Col_decimal (fixed5 v))
      else Inr (Col_int (num_int (jround v))))"

fun toColumns :: "metric_observation list \<Rightarrow> (canonical_metric \<Rightarrow> metric_entry option) \<Rightarrow> (canonical_metric \<Rightarrow> column option) \<Rightarrow>
    exn + (canonical_metric \<Rightarrow> metric_entry option) \<times> (canonical_metric \<Rightarrow> column option)" where
  "toColumns [] availability values = Inr (availability, values)"
| "toColumns (entry # rest) availability values =
     (let availability' = availability(mo_canonical entry \<mapsto> \<lparr>me_availability = mo_availability entry, me_description = mo_description entry,
            me_period = mo_period entry, me_providerName = mo_providerName entry, me_providerUnit = mo_providerUnit entry,
            me_unit = mo_unit entry\<rparr>)
      in case (mo_availability entry, mo_value entry) of
          (MA_available, Some v) \<Rightarrow> (case column_of (mo_canonical entry) v of Inl e \<Rightarrow> Inl e
            | Inr c \<Rightarrow> toColumns rest availability' (values(mo_canonical entry \<mapsto> c)))
        | _ \<Rightarrow> toColumns rest availability' values)"

text \<open>A number that does not fit its column is refused by the database client.\<close>

definition column_fits :: "column \<Rightarrow> bool" where
  "column_fits c = (case c of Col_int n \<Rightarrow> - (2 ^ 31) \<le> n \<and> n < 2 ^ 31 | Col_bigint n \<Rightarrow> - (2 ^ 63) \<le> n \<and> n < 2 ^ 63
     | Col_decimal n \<Rightarrow> \<bar>n\<bar> < 1000000)"

definition values_fit :: "(canonical_metric \<Rightarrow> column option) \<Rightarrow> bool" where
  "values_fit values \<longleftrightarrow> list_all (\<lambda>k. case values k of None \<Rightarrow> True | Some c \<Rightarrow> column_fits c) instagramCanonicalMetrics"

fun canonical_text :: "canonical_metric \<Rightarrow> string" where
  "canonical_text M_views = ''views''" | "canonical_text M_plays = ''plays''" | "canonical_text M_reach = ''reach''"
| "canonical_text M_likes = ''likes''" | "canonical_text M_comments = ''comments''" | "canonical_text M_shares = ''shares''"
| "canonical_text M_saves = ''saves''" | "canonical_text M_total_interactions = ''total_interactions''"
| "canonical_text M_total_watch_time_ms = ''total_watch_time_ms''" | "canonical_text M_average_watch_time_ms = ''average_watch_time_ms''"
| "canonical_text M_skip_rate = ''skip_rate''" | "canonical_text M_follows = ''follows''"
| "canonical_text M_profile_visits = ''profile_visits''" | "canonical_text M_profile_activity = ''profile_activity''"

fun availability_text :: "metric_availability \<Rightarrow> string" where
  "availability_text MA_available = ''available''" | "availability_text MA_unavailable = ''unavailable''"
| "availability_text MA_not_applicable = ''not_applicable''" | "availability_text MA_permission_missing = ''permission_missing''"
| "availability_text MA_provider_error = ''provider_error''" | "availability_text MA_not_requested = ''not_requested''"

definition hashInstagramInsightObservations :: "hash \<Rightarrow> (string \<Rightarrow> string \<Rightarrow> js_num) \<Rightarrow> metric_observation list \<Rightarrow> string" where
  "hashInstagramInsightObservations sha256 localeCompare observations =
     digest_hex sha256 (json_array (map (\<lambda>entry. json_array [json_string (canonical_text (mo_canonical entry)),
         json_string (availability_text (mo_availability entry)),
         (case mo_value entry of None \<Rightarrow> ''null'' | Some v \<Rightarrow> json_number v)])
       (js_sort (\<lambda>l r. localeCompare (canonical_text (mo_canonical l)) (canonical_text (mo_canonical r))) observations)))"

record snapshot_input =
  si_apiVersion :: string
  si_capturedAt :: time
  si_followerCount :: "int option"
  si_instagramPostId :: string
  si_observations :: "metric_observation list"
  si_postAgeSeconds :: js_num

record insight_tables =
  it_analytics :: analytics_tables
  it_posts :: "post list"
  it_snapshots :: "metric_snapshot list"

record snapshot_commit =
  sc_created :: bool
  sc_payloadHash :: string
  sc_snapshotId :: string

definition same_observation :: "metric_snapshot \<Rightarrow> metric_snapshot \<Rightarrow> bool" where
  "same_observation r s \<longleftrightarrow> ms_instagramPostId r = ms_instagramPostId s \<and> ms_ageBucket r = ms_ageBucket s \<and>
     ms_apiVersion r = ms_apiVersion s \<and> ms_rawPayloadHash r = ms_rawPayloadHash s"

text \<open>\<open>createMany\<close> with \<open>skipDuplicates\<close>.\<close>

definition insert_snapshot :: "metric_snapshot \<Rightarrow> metric_snapshot list \<Rightarrow> metric_snapshot list" where
  "insert_snapshot s rows = (if \<exists>r \<in> set rows. ms_id r = ms_id s \<or> same_observation r s then rows else rows @ [s])"

definition recordInstagramMetricSnapshot ::
    "hash \<Rightarrow> (string \<Rightarrow> string \<Rightarrow> js_num) \<Rightarrow> string \<Rightarrow> snapshot_input \<Rightarrow> string \<Rightarrow> insight_tables \<Rightarrow> exn + snapshot_commit \<times> insight_tables" where
  "recordInstagramMetricSnapshot sha256 localeCompare ws input snapshotId t =
     (if si_observations input = [] then Inl (snapshotError ''SNAPSHOT_OBSERVATIONS_EMPTY'')
      else if \<not> isFinite (si_postAgeSeconds input) then Inl (snapshotError ''SNAPSHOT_POST_AGE_INVALID'')
      else case toColumns (si_observations input) (\<lambda>_. None) (\<lambda>_. None) of
          Inl e \<Rightarrow> Inl e
        | Inr (availability, values) \<Rightarrow>
            let postAgeSeconds = num_int (jmax (jint 0) (jround (si_postAgeSeconds input)));
                ageBucket = instagramSnapshotBucketFor (si_postAgeSeconds input);
                payloadHash = hashInstagramInsightObservations sha256 localeCompare (si_observations input);
                row = \<lparr>ms_id = snapshotId, ms_workspaceId = ws, ms_instagramPostId = si_instagramPostId input,
                  ms_capturedAt = si_capturedAt input, ms_postAgeSeconds = postAgeSeconds, ms_ageBucket = ageBucket,
                  ms_apiVersion = si_apiVersion input, ms_values = values, ms_availability = availability,
                  ms_followerCount = si_followerCount input, ms_rawPayloadHash = payloadHash\<rparr>
            in if \<not> values_fit values \<or> postAgeSeconds \<ge> 2 ^ 31 then Inl (Exn_other ''value out of range'')
               else let rows = insert_snapshot row (it_snapshots t); t' = t\<lparr>it_snapshots := rows\<rparr> in
                 case find (\<lambda>r. same_observation r row \<and> ms_workspaceId r = ws) rows of
                   None \<Rightarrow> Inl (Exn_other ''not found'')
                 | Some stored \<Rightarrow>
                     let created = (ms_id stored = snapshotId) in
                     Inr (\<lparr>sc_created = created, sc_payloadHash = payloadHash, sc_snapshotId = ms_id stored\<rparr>,
                       if \<not> created then t'
                       else case find (\<lambda>p. po_id p = si_instagramPostId input \<and> po_workspaceId p = ws) (it_posts t') of
                           None \<Rightarrow> t'
                         | Some post \<Rightarrow> t'\<lparr>it_analytics := markAnalyticsDirty ws (po_instagramAccountId post) (si_capturedAt input) (it_analytics t')\<rparr>))"

text \<open>The keys of \<open>metricColumns\<close>, in its order.\<close>

definition metricColumns :: "canonical_metric list" where
  "metricColumns = [M_average_watch_time_ms, M_comments, M_follows, M_likes, M_plays, M_profile_activity, M_profile_visits, M_reach,
     M_saves, M_shares, M_skip_rate, M_total_interactions, M_total_watch_time_ms, M_views]"

text \<open>A decimal is printed and read back, a wide integer becomes the nearest number.\<close>

definition readColumnValue :: "column \<Rightarrow> js_num" where
  "readColumnValue c = (case c of Col_int n \<Rightarrow> jint n | Col_bigint n \<Rightarrow> fl (of_int n) | Col_decimal n \<Rightarrow> fl (of_int n / 100000))"

definition readInstagramSnapshotObservations :: "metric_snapshot \<Rightarrow> metric_observation list" where
  "readInstagramSnapshotObservations row =
     List.map_filter (\<lambda>canonical. case ms_availability row canonical of None \<Rightarrow> None
       | Some entry \<Rightarrow> Some \<lparr>mo_availability = me_availability entry, mo_canonical = canonical, mo_description = me_description entry,
           mo_period = me_period entry, mo_providerName = me_providerName entry, mo_providerUnit = me_providerUnit entry,
           mo_title = None, mo_unit = me_unit entry,
           mo_value = (if me_availability entry = MA_available then map_option readColumnValue (ms_values row canonical) else None)\<rparr>)
       metricColumns"

definition listInstagramMetricSnapshots :: "string \<Rightarrow> string \<Rightarrow> int option \<Rightarrow> insight_tables \<Rightarrow> metric_snapshot list" where
  "listInstagramMetricSnapshots ws instagramPostId takeRows t =
     take (nat (min (max (coalesce takeRows 20) 1) 100)) (rev (sort_key (\<lambda>r. (ms_capturedAt r, ms_id r))
       (filter (\<lambda>r. ms_instagramPostId r = instagramPostId \<and> ms_workspaceId r = ws) (it_snapshots t))))"

section \<open>The handler\<close>

text \<open>\<open>InstagramInsightsError\<close>: the class of the response and how long the provider asked to wait.\<close>

type_synonym insights_error = "response_class \<times> js_num option"

datatype insights_reply = Insights_unreachable | Insights_answered int "js_num option" "js_num js_value"

definition parseInstagramRetryAfterMs :: "js_num option \<Rightarrow> js_num option" where
  "parseInstagramRetryAfterMs v = (case v of None \<Rightarrow> None
     | Some seconds \<Rightarrow> if \<not> isFinite seconds \<or> jle seconds (jint 0) then None
         else Some (jmul (jmin (jfloor seconds) (jint 86400)) (jint 1000)))"

definition media_id_pattern :: "string \<Rightarrow> bool" where
  "media_id_pattern s \<longleftrightarrow> 5 \<le> length s \<and> length s \<le> 32 \<and> list_all is_digit s"

definition fetchInstagramInsightGroup ::
    "(insight_group \<Rightarrow> insights_reply) \<Rightarrow> insight_group \<Rightarrow> string \<Rightarrow> insights_error + js_num js_value" where
  "fetchInstagramInsightGroup fetch g providerMediaId =
     (if \<not> media_id_pattern providerMediaId then Inl (RC_invalid_request, None)
      else if ig_metrics g = [] then Inl (RC_invalid_request, None)
      else case fetch g of
          Insights_unreachable \<Rightarrow> Inl (RC_transient, None)
        | Insights_answered status retryAfter body \<Rightarrow>
            if \<not> response_ok status then Inl (classifyInstagramResponse body status, parseInstagramRetryAfterMs retryAfter)
            else if body = js_value.JNull then Inl (RC_transient, None) else Inr body)"

definition handler_failure :: "failure_class \<Rightarrow> string \<Rightarrow> js_num option \<Rightarrow> exn" where
  "handler_failure errorClass errorCode providerRetryAfterMs = Exn_handler (JobHandlerFailure \<lparr>jf_credentialRecoverable = None,
     jf_errorClass = errorClass, jf_errorCode = errorCode, jf_providerRetryAfterMs = providerRetryAfterMs\<rparr>)"

definition response_failure :: "insights_error \<Rightarrow> exn" where
  "response_failure e = (case e of
       (RC_authorisation, _) \<Rightarrow> handler_failure CREDENTIAL ''INSTAGRAM_TOKEN_REJECTED'' None
     | (RC_invalid_request, _) \<Rightarrow> handler_failure INVALID_INPUT ''INSTAGRAM_REQUEST_REJECTED'' None
     | (RC_rate_limit, retryAfterMs) \<Rightarrow> handler_failure RATE_LIMIT ''INSTAGRAM_RATE_LIMITED'' retryAfterMs
     | (RC_transient, _) \<Rightarrow> handler_failure TRANSIENT ''INSTAGRAM_UNAVAILABLE'' None
     | (RC_unsupported, _) \<Rightarrow> handler_failure INVALID_INPUT ''INSTAGRAM_REQUEST_UNSUPPORTED'' None)"

fun capture_groups :: "(insight_group \<Rightarrow> insights_reply) \<Rightarrow> string \<Rightarrow> insight_group list \<Rightarrow> exn + metric_observation list" where
  "capture_groups fetch providerMediaId [] = Inr []"
| "capture_groups fetch providerMediaId (g # rest) =
     (case (case fetchInstagramInsightGroup fetch g providerMediaId of
          Inr body \<Rightarrow> Inr (fst (readInstagramInsightGroup body g))
        | Inl (responseClass, retryAfterMs) \<Rightarrow>
            if responseClass = RC_rate_limit \<or> responseClass = RC_transient then Inl (response_failure (responseClass, retryAfterMs))
            else Inr (instagramFailedGroupObservations g (instagramGroupFailureAvailability responseClass))) of
        Inl e \<Rightarrow> Inl e
      | Inr observations \<Rightarrow> (case capture_groups fetch providerMediaId rest of Inl e \<Rightarrow> Inl e | Inr others \<Rightarrow> Inr (observations @ others)))"

text \<open>The observations of a capture; a kind nothing is requested for gives no snapshot at all.\<close>

definition capture_observations :: "(insight_group \<Rightarrow> insights_reply) \<Rightarrow> post \<Rightarrow> exn + metric_observation list option" where
  "capture_observations fetch post =
     (let groups = instagramInsightGroups instagramApiVersion (po_mediaKind post) in
      if groups = [] then Inr None
      else case capture_groups fetch (po_providerMediaId post) groups of Inl e \<Rightarrow> Inl e
        | Inr observations \<Rightarrow> Inr (Some (observations @
            instagramUnrequestedObservations (instagramRequestedMetrics instagramApiVersion (po_mediaKind post)) MA_not_requested)))"

section \<open>What a capture observes\<close>

text \<open>An observation has a value exactly when it is available, and then one its column is made for.\<close>

definition observation_ok :: "metric_observation \<Rightarrow> bool" where
  "observation_ok ob = (case mo_value ob of None \<Rightarrow> mo_availability ob \<noteq> MA_available
     | Some v \<Rightarrow> mo_availability ob = MA_available \<and> isFinite v \<and> \<not> jlt v (jint 0) \<and>
         \<not> jgt v (if mo_canonical ob = M_skip_rate then jint 1 else jint maxSafe))"

definition metric_ok :: "insight_metric \<Rightarrow> bool" where
  "metric_ok d \<longleftrightarrow> (im_canonical d = M_skip_rate \<longrightarrow> im_unit d = U_ratio)"

lemma reel_metrics_ok: "list_all (\<lambda>g. list_all metric_ok (ig_metrics g)) reelGroupsV25"
  by (simp add: reelGroupsV25_def metric_ok_def metric_def)

lemma jgt_jint_trans: "\<not> jgt v (jint a) \<Longrightarrow> a \<le> b \<Longrightarrow> v \<noteq> NaN \<Longrightarrow> \<not> jgt v (jint b)"
  by (cases v) (auto simp: jgt_def jint_def of_int_le_iff order_trans [of _ "of_int a" "of_int b"])

lemma ceiling_bound: "isFinite v \<Longrightarrow> \<not> jgt v (unit_ceiling u) \<Longrightarrow> \<not> jgt v (jint maxSafe)"
  using jgt_jint_trans [of v _ maxSafe]
  by (cases u; cases v) (auto simp: unit_ceiling_def maximumRatio_def maximumMilliseconds_def maximumCount_def maxSafe_def)

lemma normalised_ok:
  assumes "normaliseInstagramInsightItem item ds = Inr ob" "list_all metric_ok ds"
  shows "observation_ok ob"
proof -
  obtain fs d where d: "is_record item = Some fs" "find (\<lambda>d. Some (im_provider d) = read_text fs ''name'') ds = Some d"
    using assms(1) by (auto simp: normaliseInstagramInsightItem_def split: option.splits)
  have "metric_ok d" using assms(2) find_Some_iff2 [OF d(2)] by (auto simp: list_all_iff)
  show ?thesis
  proof (cases "readNumber fs")
    case None
    with assms(1) d show ?thesis by (auto simp: normaliseInstagramInsightItem_def observation_ok_def bare_observation_def Let_def)
  next
    case (Some raw)
    with assms(1) d have vals: "mo_value ob = Some raw" "mo_availability ob = MA_available" "mo_canonical ob = im_canonical d" "isFinite raw"
        "\<not> jlt raw (jint 0)" "\<not> jgt raw (unit_ceiling (im_unit d))"
      by (auto simp: normaliseInstagramInsightItem_def bare_observation_def Let_def split: if_splits)
    have "\<not> jgt raw (jint 1)" if "im_canonical d = M_skip_rate"
      using that vals(6) \<open>metric_ok d\<close> by (simp add: metric_ok_def unit_ceiling_def maximumRatio_def)
    then show ?thesis using vals ceiling_bound [OF vals(4,6)] by (simp add: observation_ok_def)
  qed
qed

lemma requested_ok: "a \<noteq> MA_available \<Longrightarrow> observation_ok (requested_observation a d)"
  by (simp add: observation_ok_def requested_observation_def bare_observation_def)

lemma canonical_simps [simp]:
  "mo_canonical (requested_observation a d) = im_canonical d" "mo_canonical (bare_observation c a) = c"
  by (simp_all add: requested_observation_def bare_observation_def)

lemma group_read:
  assumes "list_all metric_ok (ig_metrics g)"
  shows "map mo_canonical (fst (readInstagramInsightGroup body g)) = map im_canonical (ig_metrics g)"
    "list_all observation_ok (fst (readInstagramInsightGroup body g))"
proof -
  define data where "data = (case is_record body of None \<Rightarrow> [] | Some fs \<Rightarrow> (case js_field fs ''data'' of js_value.JArr vs \<Rightarrow> vs | _ \<Rightarrow> []))"
  define observed where "observed = List.map_filter (\<lambda>r. case r of Inr ob \<Rightarrow> Some ob | Inl _ \<Rightarrow> None)
    (map (\<lambda>item. normaliseInstagramInsightItem item (ig_metrics g)) data)"
  let ?pick = "\<lambda>d. coalesce (find (\<lambda>ob. mo_canonical ob = im_canonical d) (rev observed)) (requested_observation MA_unavailable d)"
  have fst: "fst (readInstagramInsightGroup body g) = map ?pick (ig_metrics g)"
    by (simp add: readInstagramInsightGroup_def Let_def data_def observed_def)
  have "mo_canonical (?pick d) = im_canonical d" for d
    by (cases "find (\<lambda>ob. mo_canonical ob = im_canonical d) (rev observed)") (auto dest: find_Some_iff2)
  then show "map mo_canonical (fst (readInstagramInsightGroup body g)) = map im_canonical (ig_metrics g)" by (simp add: fst)
  have "observation_ok ob" if "ob \<in> set observed" for ob
    using that normalised_ok [OF _ assms] by (auto simp: observed_def List.map_filter_def split: sum.splits)
  then have "observation_ok (?pick d)" for d
    using requested_ok [of MA_unavailable d]
    by (cases "find (\<lambda>ob. mo_canonical ob = im_canonical d) (rev observed)") (auto dest: find_Some_iff2)
  then show "list_all observation_ok (fst (readInstagramInsightGroup body g))" by (simp add: fst list_all_iff)
qed

lemma group_failed:
  "map mo_canonical (instagramFailedGroupObservations g a) = map im_canonical (ig_metrics g)"
  "list_all observation_ok (instagramFailedGroupObservations g (instagramGroupFailureAvailability c))"
  by (auto simp: instagramFailedGroupObservations_def list_all_iff instagramGroupFailureAvailability_def intro!: requested_ok)

lemma capture_groups_ok:
  assumes "capture_groups fetch m gs = Inr obs" "list_all (\<lambda>g. list_all metric_ok (ig_metrics g)) gs"
  shows "map mo_canonical obs = concat (map (\<lambda>g. map im_canonical (ig_metrics g)) gs) \<and> list_all observation_ok obs"
  using assms
proof (induction gs arbitrary: obs)
  case (Cons g gs)
  let ?res = "case fetchInstagramInsightGroup fetch g m of Inr body \<Rightarrow> Inr (fst (readInstagramInsightGroup body g))
        | Inl (responseClass, retryAfterMs) \<Rightarrow>
            if responseClass = RC_rate_limit \<or> responseClass = RC_transient then Inl (response_failure (responseClass, retryAfterMs))
            else Inr (instagramFailedGroupObservations g (instagramGroupFailureAvailability responseClass))"
  obtain first others where res: "?res = Inr first" and others: "capture_groups fetch m gs = Inr others" and obs: "obs = first @ others"
    using Cons.prems(1) by (auto split: sum.splits)
  have "map mo_canonical first = map im_canonical (ig_metrics g) \<and> list_all observation_ok first"
    using res group_read [of g] group_failed [of g] Cons.prems(2) by (auto split: sum.splits prod.splits if_splits)
  with Cons.IH [OF others] Cons.prems(2) show ?case by (simp add: obs)
qed simp

lemma capture_ok:
  assumes "capture_observations fetch post = Inr (Some obs)"
  shows "distinct (map mo_canonical obs)" "set (map mo_canonical obs) = set instagramCanonicalMetrics" "list_all observation_ok obs"
proof -
  have reel: "po_mediaKind post = REEL"
    using assms by (auto simp: capture_observations_def Let_def instagramInsightGroups_def instagramInsightCapabilityMap_def coalesce_def
        split: if_splits option.splits)
  have groups: "instagramInsightGroups instagramApiVersion REEL = reelGroupsV25"
    by (simp add: instagramInsightGroups_def instagramInsightCapabilityMap_def)
  obtain read where read: "capture_groups fetch (po_providerMediaId post) reelGroupsV25 = Inr read"
      "obs = read @ instagramUnrequestedObservations (instagramRequestedMetrics instagramApiVersion REEL) MA_not_requested"
    using assms by (auto simp: capture_observations_def Let_def reel groups split: sum.splits if_splits)
  have requested: "instagramRequestedMetrics instagramApiVersion REEL = [M_views, M_reach, M_likes, M_comments, M_shares, M_saves,
      M_total_interactions, M_total_watch_time_ms, M_average_watch_time_ms, M_skip_rate]"
    by (simp add: instagramRequestedMetrics_def groups) (simp add: reelGroupsV25_def metric_def)
  note ok = capture_groups_ok [OF read(1) reel_metrics_ok]
  have canonical: "map mo_canonical obs = [M_views, M_reach, M_likes, M_comments, M_shares, M_saves,
      M_total_interactions, M_total_watch_time_ms, M_average_watch_time_ms, M_skip_rate, M_plays, M_follows, M_profile_visits, M_profile_activity]"
    using ok requested by (simp add: read(2) instagramRequestedMetrics_def groups instagramUnrequestedObservations_def instagramCanonicalMetrics_def comp_def)
  show "distinct (map mo_canonical obs)" "set (map mo_canonical obs) = set instagramCanonicalMetrics"
    unfolding canonical by (simp_all add: instagramCanonicalMetrics_def insert_commute)
  show "list_all observation_ok obs"
  proof -
    have "observation_ok (bare_observation c MA_not_requested)" for c by (simp add: observation_ok_def bare_observation_def)
    with ok show ?thesis by (auto simp: read(2) instagramUnrequestedObservations_def list_all_iff)
  qed
qed

section \<open>What a row keeps\<close>

definition entry_of :: "metric_observation \<Rightarrow> metric_entry" where
  "entry_of ob = \<lparr>me_availability = mo_availability ob, me_description = mo_description ob, me_period = mo_period ob,
     me_providerName = mo_providerName ob, me_providerUnit = mo_providerUnit ob, me_unit = mo_unit ob\<rparr>"

text \<open>The number a column gives back for a value.\<close>

definition stored_value :: "canonical_metric \<Rightarrow> js_num \<Rightarrow> js_num" where
  "stored_value k v = (if k = M_skip_rate then fl (of_int (fixed5 v) / 100000) else jround v)"

definition column_value :: "metric_observation \<Rightarrow> column option" where
  "column_value ob = (case mo_value ob of None \<Rightarrow> None | Some v \<Rightarrow> Some (projr (column_of (mo_canonical ob) v)))"

lemma column_of_ok:
  assumes "observation_ok ob" "mo_value ob = Some v"
  shows "\<exists>c. column_of (mo_canonical ob) v = Inr c \<and> readColumnValue c = stored_value (mo_canonical ob) v"
proof -
  obtain x where x: "v = Num x" "0 \<le> x" "x \<le> of_int maxSafe"
    using assms by (cases v) (auto simp: observation_ok_def jgt_def jint_def maxSafe_def split: if_splits)
  have "\<lfloor>x + 1 / 2\<rfloor> \<le> maxSafe" using x(3) by linarith
  moreover have "0 \<le> \<lfloor>x + 1 / 2\<rfloor>" using x(2) by linarith
  ultimately have "fl (of_int \<lfloor>x + 1 / 2\<rfloor>) = jint \<lfloor>x + 1 / 2\<rfloor>" by (intro fl_int) (simp add: maxSafe_def)
  with assms x(1) show ?thesis by (auto simp: observation_ok_def column_of_def stored_value_def readColumnValue_def)
qed

text \<open>Every observation of a capture is written, whatever has been written before.\<close>

lemma toColumns_ok:
  assumes "list_all observation_ok obs" "distinct (map mo_canonical obs)"
  shows "\<exists>av' vs'. toColumns obs av vs = Inr (av', vs') \<and>
    (\<forall>k. k \<notin> set (map mo_canonical obs) \<longrightarrow> av' k = av k \<and> vs' k = vs k) \<and>
    (\<forall>ob \<in> set obs. av' (mo_canonical ob) = Some (entry_of ob) \<and>
       (mo_value ob \<noteq> None \<longrightarrow> vs' (mo_canonical ob) = column_value ob))"
  using assms
proof (induction obs arbitrary: av vs)
  case (Cons ob obs)
  define av1 where "av1 = av(mo_canonical ob \<mapsto> entry_of ob)"
  define vs1 where "vs1 = (case mo_value ob of None \<Rightarrow> vs | Some v \<Rightarrow> vs(mo_canonical ob := column_value ob))"
  have step: "toColumns (ob # obs) av vs = toColumns obs av1 vs1"
  proof (cases "mo_value ob")
    case None
    then show ?thesis by (cases "mo_availability ob") (simp_all add: av1_def vs1_def entry_of_def)
  next
    case (Some v)
    moreover obtain c where "column_of (mo_canonical ob) v = Inr c" using column_of_ok [OF _ Some] Cons.prems(1) by auto
    moreover have "mo_availability ob = MA_available" using Cons.prems(1) Some by (simp add: observation_ok_def)
    ultimately show ?thesis by (simp add: av1_def vs1_def entry_of_def column_value_def)
  qed
  obtain av' vs' where IH: "toColumns obs av1 vs1 = Inr (av', vs')"
      "\<forall>k. k \<notin> set (map mo_canonical obs) \<longrightarrow> av' k = av1 k \<and> vs' k = vs1 k"
      "\<forall>ob \<in> set obs. av' (mo_canonical ob) = Some (entry_of ob) \<and> (mo_value ob \<noteq> None \<longrightarrow> vs' (mo_canonical ob) = column_value ob)"
    using Cons.IH [of av1 vs1] Cons.prems by auto
  have "mo_canonical ob \<notin> set (map mo_canonical obs)" using Cons.prems(2) by simp
  with IH(2) have "av' (mo_canonical ob) = Some (entry_of ob)" "mo_value ob \<noteq> None \<Longrightarrow> vs' (mo_canonical ob) = column_value ob"
    by (auto simp: av1_def vs1_def)
  with IH show ?case unfolding step by (auto simp: av1_def vs1_def split: option.splits)
qed simp

text \<open>What is read back of an observation.\<close>

definition recalled :: "metric_observation \<Rightarrow> metric_observation" where
  "recalled ob = ob\<lparr>mo_title := None, mo_value := map_option (stored_value (mo_canonical ob)) (mo_value ob)\<rparr>"

lemma find_canonical: "distinct (map mo_canonical obs) \<Longrightarrow> ob \<in> set obs \<Longrightarrow> find (\<lambda>b. mo_canonical b = mo_canonical ob) obs = Some ob"
  by (induction obs) auto

lemma map_filter_Some: "(\<And>x. x \<in> set xs \<Longrightarrow> f x = Some (g x)) \<Longrightarrow> List.map_filter f xs = map g xs"
  by (induction xs) (simp_all add: List.map_filter_simps)

lemma read_written:
  assumes "list_all observation_ok obs" "distinct (map mo_canonical obs)" "set (map mo_canonical obs) = set instagramCanonicalMetrics"
    "toColumns obs (\<lambda>_. None) (\<lambda>_. None) = Inr (ms_availability row, ms_values row)"
  shows "readInstagramSnapshotObservations row = map (\<lambda>k. recalled (the (find (\<lambda>ob. mo_canonical ob = k) obs))) metricColumns"
proof -
  have written: "ms_availability row (mo_canonical ob) = Some (entry_of ob) \<and> (mo_value ob \<noteq> None \<longrightarrow> ms_values row (mo_canonical ob) = column_value ob)"
    if "ob \<in> set obs" for ob
    using toColumns_ok [OF assms(1,2), of "\<lambda>_. None" "\<lambda>_. None"] assms(4) that by auto
  let ?read = "\<lambda>canonical. case ms_availability row canonical of None \<Rightarrow> None
       | Some entry \<Rightarrow> Some \<lparr>mo_availability = me_availability entry, mo_canonical = canonical, mo_description = me_description entry,
           mo_period = me_period entry, mo_providerName = me_providerName entry, mo_providerUnit = me_providerUnit entry,
           mo_title = None, mo_unit = me_unit entry,
           mo_value = (if me_availability entry = MA_available then map_option readColumnValue (ms_values row canonical) else None)\<rparr>"
  have read: "?read (mo_canonical ob) = Some (recalled ob)" if ob: "ob \<in> set obs" for ob
  proof -
    have ok: "observation_ok ob" using assms(1) ob by (auto simp: list_all_iff)
    show ?thesis
    proof (cases "mo_value ob")
      case None
      then have "mo_availability ob \<noteq> MA_available" using ok by (simp add: observation_ok_def)
      then show ?thesis using written [OF ob] None by (simp add: entry_of_def recalled_def)
    next
      case (Some v)
      moreover have "mo_availability ob = MA_available" using ok Some by (simp add: observation_ok_def)
      moreover obtain c where "column_of (mo_canonical ob) v = Inr c" "readColumnValue c = stored_value (mo_canonical ob) v"
        using column_of_ok [OF ok Some] by blast
      ultimately show ?thesis using written [OF ob] by (simp add: entry_of_def recalled_def column_value_def)
    qed
  qed
  have "?read k = Some (recalled (the (find (\<lambda>ob. mo_canonical ob = k) obs)))" if "k \<in> set metricColumns" for k
  proof -
    have "k \<in> set (map mo_canonical obs)" unfolding assms(3) by (cases k) (simp_all add: instagramCanonicalMetrics_def)
    then obtain ob where ob: "ob \<in> set obs" "k = mo_canonical ob" by auto
    show ?thesis unfolding ob(2) find_canonical [OF assms(2) ob(1)] option.sel by (rule read [OF ob(1)])
  qed
  then show ?thesis unfolding readInstagramSnapshotObservations_def
    by (intro map_filter_Some) blast
qed

section \<open>The guarantees\<close>

lemma insert_snapshot_found:
  assumes "find (\<lambda>r. same_observation r row \<and> ms_workspaceId r = ws) (insert_snapshot row rows) = Some stored"
    "ms_id stored = ms_id row" "ms_id row \<notin> ms_id ` set rows"
  shows "stored = row" "insert_snapshot row rows = rows @ [row]"
proof -
  have stored: "stored \<in> set (insert_snapshot row rows)" using find_Some_iff2 [OF assms(1)] by blast
  have "stored \<notin> set rows" using assms(2,3) by (metis imageI)
  with stored show "stored = row" "insert_snapshot row rows = rows @ [row]" by (auto simp: insert_snapshot_def split: if_splits)
qed

text \<open>
  A snapshot accounts for every metric, and its row gives the observations back.  A capture that
  ends has exactly one observation of each canonical metric, with a value exactly when it is available, whatever the
  provider answered; and the row that a new snapshot is written to reads as those observations,
  their titles dropped, counts and times rounded to integers and a ratio to five places.  A value
  that is an integer comes back as it was.
\<close>

theorem snapshot_round_trip:
  assumes "capture_observations fetch post = Inr (Some obs)" "si_observations input = obs"
    "recordInstagramMetricSnapshot sha256 localeCompare ws input snapshotId t = Inr (commit, t')" "sc_created commit"
    "snapshotId \<notin> ms_id ` set (it_snapshots t)"
  shows "distinct (map mo_canonical obs) \<and> set (map mo_canonical obs) = set instagramCanonicalMetrics \<and> list_all observation_ok obs \<and>
    (\<exists>row. it_snapshots t' = it_snapshots t @ [row] \<and> ms_id row = snapshotId \<and>
       ms_ageBucket row = instagramSnapshotBucketFor (si_postAgeSeconds input) \<and>
       readInstagramSnapshotObservations row = map (\<lambda>k. recalled (the (find (\<lambda>ob. mo_canonical ob = k) obs))) metricColumns) \<and>
    (\<forall>k n. k \<noteq> M_skip_rate \<longrightarrow> stored_value k (jint n) = jint n)"
proof -
  note ok = capture_ok [OF assms(1)]
  obtain av vs where cols: "toColumns obs (\<lambda>_. None) (\<lambda>_. None) = Inr (av, vs)" using toColumns_ok [OF ok(3,1)] by blast
  define row where "row = \<lparr>ms_id = snapshotId, ms_workspaceId = ws, ms_instagramPostId = si_instagramPostId input,
    ms_capturedAt = si_capturedAt input, ms_postAgeSeconds = num_int (jmax (jint 0) (jround (si_postAgeSeconds input))),
    ms_ageBucket = instagramSnapshotBucketFor (si_postAgeSeconds input), ms_apiVersion = si_apiVersion input, ms_values = vs, ms_availability = av,
    ms_followerCount = si_followerCount input, ms_rawPayloadHash = hashInstagramInsightObservations sha256 localeCompare obs\<rparr>"
  obtain stored where stored: "find (\<lambda>r. same_observation r row \<and> ms_workspaceId r = ws) (insert_snapshot row (it_snapshots t)) = Some stored"
      "ms_id stored = snapshotId" "it_snapshots t' = insert_snapshot row (it_snapshots t)"
    using assms(3,4) unfolding recordInstagramMetricSnapshot_def assms(2) cols Let_def row_def [symmetric] sum.case prod.case
    by (auto split: if_splits option.splits)
  have new: "it_snapshots t' = it_snapshots t @ [row]"
    using insert_snapshot_found [OF stored(1)] stored(2,3) assms(5) by (simp add: row_def)
  have "readInstagramSnapshotObservations row = map (\<lambda>k. recalled (the (find (\<lambda>ob. mo_canonical ob = k) obs))) metricColumns"
    by (rule read_written [OF ok(3,1,2)]) (simp add: row_def cols)
  moreover have "stored_value k (jint n) = jint n" if "k \<noteq> M_skip_rate" for k n
  proof -
    have "\<lfloor>of_int n + 1 / 2 :: rat\<rfloor> = n" by linarith
    with that show ?thesis by (simp add: stored_value_def jint_def del: floor_add_int)
  qed
  moreover have "ms_id row = snapshotId" "ms_ageBucket row = instagramSnapshotBucketFor (si_postAgeSeconds input)" by (simp_all add: row_def)
  ultimately show ?thesis using ok new by blast
qed

definition sample_post :: post where
  "sample_post = \<lparr>po_id = ''p'', po_workspaceId = ''w'', po_instagramAccountId = ''a'', po_providerMediaId = ''17900'', po_mediaKind = REEL,
     po_mediaType = ''VIDEO'', po_mediaProductType = Some ''REELS'', po_caption = None, po_permalink = None, po_publishedAt = 0,
     po_providerThumbnailUrl = None, po_firstImportedAt = 0, po_lastImportedAt = 0, po_lastSyncRunId = None, po_rawPayloadHash = ''h'',
     po_rawApiVersion = ''v25.0'', po_rawRetrievedAt = 0\<rparr>"

text \<open>A provider that answers the first group and does not know the others.\<close>

definition sample_fetch :: "insight_group \<Rightarrow> insights_reply" where
  "sample_fetch g = (if ig_key g = ''distribution'' then Insights_answered 200 None
     (JObj [(''data'', js_value.JArr [JObj [(''name'', js_value.JStr ''views''), (''total_value'', JObj [(''value'', JNum (jint 120))])]])])
     else Insights_answered 400 None (JObj [(''error'', JObj [(''code'', JNum (jint 100))])]))"

definition sample_observations :: "metric_observation list" where
  "sample_observations = the (projr (capture_observations sample_fetch sample_post))"

definition sample_snapshot_input :: snapshot_input where
  "sample_snapshot_input = \<lparr>si_apiVersion = ''v25.0'', si_capturedAt = 90000000, si_followerCount = Some 10, si_instagramPostId = ''p'',
     si_observations = sample_observations, si_postAgeSeconds = jint 90000\<rparr>"

definition sample_insights :: insight_tables where
  "sample_insights = \<lparr>it_analytics = sample_tables, it_posts = [sample_post], it_snapshots = []\<rparr>"

lemma snapshot_round_trip_witness:
  "list_all observation_ok sample_observations \<and> length sample_observations = 14 \<and>
   (\<exists>row. it_snapshots (snd (projr (recordInstagramMetricSnapshot (\<lambda>_. []) (\<lambda>_ _. jint 0) ''w'' sample_snapshot_input ''s'' sample_insights))) = [row] \<and>
      ms_ageBucket row = W_day_1)"
proof -
  let ?run = "recordInstagramMetricSnapshot (\<lambda>_. []) (\<lambda>_ _. jint 0) ''w'' sample_snapshot_input ''s'' sample_insights"
  have captured: "capture_observations sample_fetch sample_post = Inr (Some sample_observations)"
  proof -
    have "(case capture_observations sample_fetch sample_post of Inr (Some _) \<Rightarrow> True | _ \<Rightarrow> False)" by code_simp
    then show ?thesis by (auto simp: sample_observations_def split: sum.splits option.splits)
  qed
  have "(case ?run of Inr _ \<Rightarrow> True | Inl _ \<Rightarrow> False)" "sc_created (fst (projr ?run))" by code_simp+
  then have run: "?run = Inr (fst (projr ?run), snd (projr ?run))" "sc_created (fst (projr ?run))" by (auto split: sum.splits)
  have bucket: "instagramSnapshotBucketFor (si_postAgeSeconds sample_snapshot_input) = W_day_1" by code_simp
  have len: "length sample_observations = 14" by code_simp
  have input: "si_observations sample_snapshot_input = sample_observations" "''s'' \<notin> ms_id ` set (it_snapshots sample_insights)"
    by (simp_all add: sample_snapshot_input_def sample_insights_def)
  from snapshot_round_trip [OF captured input(1) run input(2)]
  have "list_all observation_ok sample_observations" "\<exists>row. it_snapshots (snd (projr ?run)) = it_snapshots sample_insights @ [row] \<and> ms_ageBucket row = W_day_1"
    unfolding bucket by blast+
  then show ?thesis using len by (simp add: sample_insights_def)
qed

end
