(* ===== verification/Instagram_Scheduling.thy ===== *)
theory Instagram_Scheduling
  imports Instagram_Insights
begin

text \<open>
  What the schedulers enqueue: \<open>packages/domain/src/instagram-scheduling.ts\<close> (what is owed and the keys
  that name it), the reads of \<open>packages/db/src/instagram-scheduling.ts\<close>,
  \<open>listInstagramPostsDueForComments\<close> of \<open>instagram-comments.ts\<close> and
  \<open>listInstagramCredentialsDueForMaintenance\<close> of \<open>instagram-token.ts\<close>, and the sweeps of
  \<open>apps/worker/src/instagram/sync-scheduler.ts\<close> and \<open>token-maintenance-scheduler.ts\<close>.

  The names of the buckets are those of the age windows; the column that stores them is
  converted without loss.  The order of rows the query leaves open is that of the table.
\<close>

section \<open>What is owed\<close>

definition isSafeSchedulingKey :: "string \<Rightarrow> bool" where
  "isSafeSchedulingKey = head_tail is_alnum (\<lambda>c. is_alnum c \<or> c \<in> set '':_-'') 254"

definition instagramAccountSyncIntervalHours :: int where "instagramAccountSyncIntervalHours = 24"
definition instagramIncrementalOverlapDays :: int where "instagramIncrementalOverlapDays = 14"

definition instagramSnapshotDueFor :: "age_window list \<Rightarrow> js_num \<Rightarrow> (age_window \<times> js_num) option" where
  "instagramSnapshotDueFor capturedBuckets age =
     (let postAgeSeconds = (if age = NaN then jint 0 else jmax (jint 0) (jfloor age));
          ageBucket = instagramSnapshotBucketFor postAgeSeconds
      in if ageBucket \<in> set capturedBuckets then None
         else if jlt postAgeSeconds (sw_minimumSeconds (snapshotAgeWindowFor ageBucket)) then None
         else Some (ageBucket, postAgeSeconds))"

definition dayBucket :: "time \<Rightarrow> string" where
  "dayBucket t = take 10 (toISOString t)"

definition minuteBucket :: "time \<Rightarrow> string" where
  "minuteBucket t = filter (\<lambda>c. c \<notin> set ''-:T'') (take 16 (toISOString t))"

definition instagramScheduledSyncKey :: "string \<Rightarrow> time \<Rightarrow> string" where
  "instagramScheduledSyncKey accountId t = ''instagram-sync-scheduled-'' @ accountId @ ''-'' @ dayBucket t"

definition instagramManualSyncKey :: "string \<Rightarrow> time \<Rightarrow> string" where
  "instagramManualSyncKey accountId t = ''instagram-sync-manual-'' @ accountId @ ''-'' @ minuteBucket t"

definition instagramSnapshotKey :: "string \<Rightarrow> age_window \<Rightarrow> string" where
  "instagramSnapshotKey postId ageBucket = ''instagram-snapshot-'' @ postId @ ''-'' @ age_window_text ageBucket"

definition instagramCommentsKey :: "string \<Rightarrow> time \<Rightarrow> string" where
  "instagramCommentsKey postId t = ''instagram-comments-'' @ postId @ ''-'' @ dayBucket t"

definition instagramTokenMaintenanceKey :: "string \<Rightarrow> time \<Rightarrow> string" where
  "instagramTokenMaintenanceKey credentialId now = ''instagram-token-maintain-'' @ credentialId @ ''-'' @ take 10 (toISOString now)"

definition starts_with :: "string \<Rightarrow> string \<Rightarrow> bool" where
  "starts_with p s \<longleftrightarrow> take (length p) s = p"

definition instagramSyncTriggerFromKey :: "string \<Rightarrow> sync_trigger option" where
  "instagramSyncTriggerFromKey key =
     (if starts_with ''instagram-sync-manual-'' key then Some MANUAL
      else if starts_with ''instagram-sync-scheduled-'' key then Some SCHEDULED
      else if starts_with ''instagram-bootstrap-sync-'' key then Some BOOTSTRAP else None)"

definition instagramSyncPriority :: "sync_trigger \<Rightarrow> js_num" where
  "instagramSyncPriority trigger = (if trigger = MANUAL then jint 10 else jint 0)"

section \<open>The reads\<close>

record schedule_tables =
  st_accounts :: "account list"
  st_credentials :: "credential list"
  st_posts :: "post list"
  st_snapshots :: "metric_snapshot list"
  st_runs :: "sync_run list"

definition maximumBatch :: int where "maximumBatch = 200"

definition boundedTake :: "int \<Rightarrow> nat" where
  "boundedTake limit = nat (min (max limit 1) maximumBatch)"

definition sync_due :: "time \<Rightarrow> account \<Rightarrow> bool" where
  "sync_due dueBefore a \<longleftrightarrow> ac_connectionStatus a = CS_ACTIVE \<and>
     (ac_lastSuccessfulSyncAt a = None \<or> sql_lte (ac_lastSuccessfulSyncAt a) dueBefore)"

text \<open>Never synchronised first, then the longest ago.\<close>

definition sync_order :: "account \<Rightarrow> (int \<times> time) \<times> string" where
  "sync_order a = ((case ac_lastSuccessfulSyncAt a of None \<Rightarrow> (0, 0) | Some t \<Rightarrow> (1, t)), ac_id a)"

definition listInstagramAccountsDueForSync :: "time \<Rightarrow> int \<Rightarrow> schedule_tables \<Rightarrow> account list" where
  "listInstagramAccountsDueForSync dueBefore limit t =
     take (boundedTake limit) (sort_key sync_order (filter (sync_due dueBefore) (st_accounts t)))"

record snapshot_due =
  sd_ageBucket :: age_window
  sd_postAgeSeconds :: js_num
  sd_postId :: string
  sd_workspaceId :: string

definition connected :: "schedule_tables \<Rightarrow> post \<Rightarrow> bool" where
  "connected t p \<longleftrightarrow> (\<exists>a \<in> set (st_accounts t). ac_id a = po_instagramAccountId p \<and> ac_workspaceId a = po_workspaceId p \<and>
     ac_connectionStatus a = CS_ACTIVE)"

definition captured_buckets :: "schedule_tables \<Rightarrow> post \<Rightarrow> age_window list" where
  "captured_buckets t p = map ms_ageBucket (filter (\<lambda>s. ms_instagramPostId s = po_id p \<and> ms_workspaceId s = po_workspaceId p) (st_snapshots t))"

definition newest_first :: "post list \<Rightarrow> post list" where
  "newest_first ps = rev (sort_key (\<lambda>p. (po_publishedAt p, po_id p)) ps)"

definition post_owed :: "time \<Rightarrow> schedule_tables \<Rightarrow> post \<Rightarrow> snapshot_due option" where
  "post_owed now t p = map_option (\<lambda>(b, s). \<lparr>sd_ageBucket = b, sd_postAgeSeconds = s, sd_postId = po_id p, sd_workspaceId = po_workspaceId p\<rparr>)
     (instagramSnapshotDueFor (captured_buckets t p) (jint ((now - po_publishedAt p) div 1000)))"

fun collect_due :: "nat \<Rightarrow> (post \<Rightarrow> snapshot_due option) \<Rightarrow> post list \<Rightarrow> nat \<Rightarrow> snapshot_due list" where
  "collect_due limit owed [] n = []"
| "collect_due limit owed (p # ps) n =
     (if n \<ge> limit then []
      else case owed p of None \<Rightarrow> collect_due limit owed ps n | Some d \<Rightarrow> d # collect_due limit owed ps (n + 1))"

definition closing_post :: "time \<Rightarrow> schedule_tables \<Rightarrow> post \<Rightarrow> bool" where
  "closing_post now t p \<longleftrightarrow> connected t p \<and> po_publishedAt p \<ge> now - 3456000 * 1000"

definition settled_post :: "time \<Rightarrow> schedule_tables \<Rightarrow> post \<Rightarrow> bool" where
  "settled_post now t p \<longleftrightarrow> connected t p \<and> po_mediaKind p \<in> set (instagramInsightMediaKinds instagramApiVersion) \<and>
     po_publishedAt p < now - 3456000 * 1000 \<and> W_mature \<notin> set (captured_buckets t p)"

definition listInstagramPostsDueForSnapshot :: "int \<Rightarrow> time \<Rightarrow> schedule_tables \<Rightarrow> snapshot_due list" where
  "listInstagramPostsDueForSnapshot limit now t =
     (let n = boundedTake limit;
          closing = take (n * 5) (newest_first (filter (closing_post now t) (st_posts t)));
          settled = take n (newest_first (filter (settled_post now t) (st_posts t)))
      in collect_due n (post_owed now t) (closing @ settled) 0)"

definition instagramSyncRunActive :: "string \<Rightarrow> string \<Rightarrow> sync_trigger \<Rightarrow> schedule_tables \<Rightarrow> bool" where
  "instagramSyncRunActive ws instagramAccountId trigger t =
     (find (\<lambda>r. sr_instagramAccountId r = instagramAccountId \<and> sr_state r = S_RUNNING \<and> sr_trigger r = trigger \<and> sr_workspaceId r = ws) (st_runs t) \<noteq> None)"

record snapshot_coverage =
  cv_capturedBuckets :: "age_window list"
  cv_currentBucket :: age_window
  cv_missedBuckets :: "age_window list"

definition ordered_buckets :: "age_window list" where
  "ordered_buckets = [W_import, W_hour_1, W_day_1, W_day_3, W_day_7, W_day_30, W_mature]"

definition listInstagramSnapshotCoverage :: "string \<Rightarrow> string \<Rightarrow> time \<Rightarrow> schedule_tables \<Rightarrow> snapshot_coverage" where
  "listInstagramSnapshotCoverage ws instagramPostId now t =
     (case find (\<lambda>p. po_id p = instagramPostId \<and> po_workspaceId p = ws) (st_posts t) of
        None \<Rightarrow> \<lparr>cv_capturedBuckets = [], cv_currentBucket = W_import, cv_missedBuckets = []\<rparr>
      | Some p \<Rightarrow>
          let currentBucket = instagramSnapshotBucketFor (jint ((now - po_publishedAt p) div 1000));
              captured = captured_buckets t p;
              currentIndex = find_index (\<lambda>b. b = currentBucket) ordered_buckets
          in \<lparr>cv_capturedBuckets = rev (remdups (rev captured)), cv_currentBucket = currentBucket,
              cv_missedBuckets = filter (\<lambda>b. b \<notin> set captured) (take (nat (max 0 currentIndex)) ordered_buckets)\<rparr>)"

text \<open>\<open>take\<close> with the caller's limit; a negative one would read from the other end, and none is passed.\<close>

definition listInstagramPostsDueForComments :: "int \<Rightarrow> time \<Rightarrow> schedule_tables \<Rightarrow> post list" where
  "listInstagramPostsDueForComments limit publishedAfter t =
     take (nat limit) (rev (sort_key po_publishedAt (filter (\<lambda>p. connected t p \<and> po_publishedAt p \<ge> publishedAfter) (st_posts t))))"

definition credential_due :: "time \<Rightarrow> schedule_tables \<Rightarrow> credential \<Rightarrow> bool" where
  "credential_due dueBefore t c \<longleftrightarrow> (\<exists>a \<in> set (st_accounts t). ac_id a = cr_accountId c \<and> ac_workspaceId a = cr_workspaceId c \<and>
       ac_connectionStatus a = CS_ACTIVE) \<and>
     cr_integrationType c = INSTAGRAM \<and> cr_status c = CR_ACTIVE \<and> (cr_expiresAt c = None \<or> sql_lte (cr_expiresAt c) dueBefore)"

text \<open>Ascending, with nulls last.\<close>

definition expiry_order :: "credential \<Rightarrow> int \<times> time" where
  "expiry_order c = (case cr_expiresAt c of Some t \<Rightarrow> (0, t) | None \<Rightarrow> (1, 0))"

definition listInstagramCredentialsDueForMaintenance :: "time \<Rightarrow> int \<Rightarrow> schedule_tables \<Rightarrow> credential list" where
  "listInstagramCredentialsDueForMaintenance dueBefore limit t =
     take (nat (min (max limit 1) 200)) (sort_key expiry_order (filter (credential_due dueBefore t) (st_credentials t)))"

section \<open>The sweeps\<close>

definition sync_request :: "time \<Rightarrow> account \<Rightarrow> sweep_request" where
  "sync_request now a = \<lparr>sq_handlerVersion = 1, sq_idempotencyKey = instagramScheduledSyncKey (ac_id a) now,
     sq_priority = Some (instagramSyncPriority SCHEDULED), sq_queueName = ''instagram.sync.account'', sq_resourceId = ac_id a,
     sq_resourceType = ''instagram_account'', sq_workspaceId = ac_workspaceId a\<rparr>"

definition dueSyncs :: "int \<Rightarrow> time \<Rightarrow> schedule_tables \<Rightarrow> sweep_request list" where
  "dueSyncs batchSize now t = map (sync_request now)
     (listInstagramAccountsDueForSync (now - instagramAccountSyncIntervalHours * 3600000) batchSize t)"

definition snapshot_request :: "snapshot_due \<Rightarrow> sweep_request" where
  "snapshot_request d = \<lparr>sq_handlerVersion = 1, sq_idempotencyKey = instagramSnapshotKey (sd_postId d) (sd_ageBucket d), sq_priority = None,
     sq_queueName = ''instagram.snapshot.post'', sq_resourceId = sd_postId d, sq_resourceType = ''instagram_post'',
     sq_workspaceId = sd_workspaceId d\<rparr>"

definition dueSnapshots :: "int \<Rightarrow> time \<Rightarrow> schedule_tables \<Rightarrow> sweep_request list" where
  "dueSnapshots batchSize now t = map snapshot_request (listInstagramPostsDueForSnapshot batchSize now t)"

definition instagramCommentHorizonDays :: int where "instagramCommentHorizonDays = 90"

definition comments_request :: "time \<Rightarrow> post \<Rightarrow> sweep_request" where
  "comments_request now p = \<lparr>sq_handlerVersion = 1, sq_idempotencyKey = instagramCommentsKey (po_id p) now, sq_priority = None,
     sq_queueName = ''instagram.comments.post'', sq_resourceId = po_id p, sq_resourceType = ''instagram_post'', sq_workspaceId = po_workspaceId p\<rparr>"

definition dueComments :: "int \<Rightarrow> time \<Rightarrow> schedule_tables \<Rightarrow> sweep_request list" where
  "dueComments batchSize now t = map (comments_request now)
     (listInstagramPostsDueForComments batchSize (now - instagramCommentHorizonDays * 86400000) t)"

definition token_request :: "time \<Rightarrow> credential \<Rightarrow> sweep_request" where
  "token_request now c = \<lparr>sq_handlerVersion = 1, sq_idempotencyKey = instagramTokenMaintenanceKey (cr_id c) now, sq_priority = None,
     sq_queueName = ''instagram.token.maintain'', sq_resourceId = cr_accountId c, sq_resourceType = ''instagram_account'',
     sq_workspaceId = cr_workspaceId c\<rparr>"

definition dueTokens :: "int \<Rightarrow> time \<Rightarrow> schedule_tables \<Rightarrow> sweep_request list" where
  "dueTokens batchSize now t = map (token_request now)
     (listInstagramCredentialsDueForMaintenance (now + instagramTokenRefreshDueDays * 86400000) batchSize t)"

text \<open>One sweep of the sync scheduler, then of its snapshots and comments, each with the identifiers it creates.\<close>

definition instagram_sweep :: "uuid_lib \<Rightarrow> int \<Rightarrow> time \<Rightarrow> time \<Rightarrow> (string \<times> string \<times> string) list \<Rightarrow> (string \<times> string \<times> string) list \<Rightarrow>
    (string \<times> string \<times> string) list \<Rightarrow> schedule_tables database \<Rightarrow> (nat \<times> nat \<times> nat) \<times> schedule_tables database" where
  "instagram_sweep lib batchSize now dbNow ids ids' ids'' db =
     (case enqueue_each lib dbNow (dueSyncs batchSize now (db_results db)) ids db of
        (syncs, db1) \<Rightarrow> (case enqueue_each lib dbNow (dueSnapshots batchSize now (db_results db1)) ids' db1 of
          (captures, db2) \<Rightarrow> (case enqueue_each lib dbNow (dueComments batchSize now (db_results db2)) ids'' db2 of
            (comments, db3) \<Rightarrow> ((comments, captures, syncs), db3))))"

definition token_sweep :: "uuid_lib \<Rightarrow> int \<Rightarrow> time \<Rightarrow> time \<Rightarrow> (string \<times> string \<times> string) list \<Rightarrow> schedule_tables database \<Rightarrow>
    nat \<times> schedule_tables database" where
  "token_sweep lib batchSize now dbNow ids db = enqueue_each lib dbNow (dueTokens batchSize now (db_results db)) ids db"

section \<open>Keys\<close>

definition plain_char :: "char \<Rightarrow> bool" where
  "plain_char c \<longleftrightarrow> is_alnum c \<or> c \<in> set '':_-''"

lemma safe_scheduling_key: "list_all plain_char k \<Longrightarrow> is_alnum (hd k) \<Longrightarrow> k \<noteq> [] \<Longrightarrow> length k \<le> 255 \<Longrightarrow> isSafeSchedulingKey k"
  by (cases k) (simp_all add: isSafeSchedulingKey_def plain_char_def [abs_def])

lemma scheduling_key:
  assumes "uuid_pattern i" "list_all plain_char p" "is_alnum (hd p)" "p \<noteq> []" "length p \<le> 30" "list_all plain_char suffix" "length suffix \<le> 20"
  shows "isSafeSchedulingKey (p @ i @ ''-'' @ suffix)" "safe_key 254 (trim (p @ i @ ''-'' @ suffix))"
proof -
  let ?k = "p @ i @ ''-'' @ suffix"
  have "list_all plain_char i" using uuid_chars [OF assms(1)] by (auto simp: list_all_iff plain_char_def)
  then have chars: "list_all plain_char ?k" using assms(2,6) by (simp add: plain_char_def)
  have len: "length ?k \<le> 255" using uuid_pattern_length [OF assms(1)] assms(5,7) by simp
  have hd: "is_alnum (hd ?k)" "?k \<noteq> []" using assms(3,4) by simp_all
  have "plain_char c \<Longrightarrow> key_char c" for c by (auto simp: plain_char_def key_char_def)
  with chars have "list_all key_char ?k" by (simp only: list_all_iff) blast
  from key_admitted(1) [OF this hd len] show "safe_key 254 (trim ?k)" .
  show "isSafeSchedulingKey ?k" by (rule safe_scheduling_key [OF chars hd len])
qed

lemma digits_plain: "list_all (\<lambda>c. is_digit c \<or> c = CHR ''-'') s \<Longrightarrow> list_all plain_char s"
  by (auto simp: list_all_iff plain_char_def is_alnum_def)

lemma dayBucket_plain:
  assumes "plain_instant t"
  shows "list_all plain_char (dayBucket t)" "length (dayBucket t) = 10"
  using date_text_chars [OF plain_days [OF assms]] length_date_text [OF plain_days [OF assms]]
  by (simp_all add: dayBucket_def day_of_text [OF assms] digits_plain)

lemma digits_kept: "list_all is_digit s \<Longrightarrow> filter (\<lambda>c. c \<notin> set ''-:T'') s = s"
  by (induction s) (auto simp: is_digit_def code_in_def)

text \<open>The minute is twelve digits, of the date and of the hour and minute.\<close>

lemma minute_parts:
  assumes "plain_instant t" "civil (t div 86400000) = (y, m, d)"
  shows "minuteBucket t = padded 4 y @ padded 2 m @ padded 2 d @ padded 2 (t mod 86400000 div 3600000) @ padded 2 (t mod 86400000 div 60000 mod 60)"
proof -
  define ms where "ms = t mod 86400000"
  have ms: "0 \<le> ms" "ms < 86400000" by (simp_all add: ms_def)
  note date = date_text_parts [OF plain_days [OF assms(1)] assms(2)] and clock = time_parts [OF ms]
  define h where "h = padded 2 (ms div 3600000)"
  define mi where "mi = padded 2 (ms div 60000 mod 60)"
  obtain rest where clock_text: "time_text ms = h @ '':'' @ mi @ rest" by (simp add: time_text_def h_def mi_def)
  have len: "length h = 2" "length mi = 2" using clock by (simp_all only: h_def mi_def)
  have "take 16 (toISOString t) = padded 4 y @ ''-'' @ padded 2 m @ ''-'' @ padded 2 d @ ''T'' @ h @ '':'' @ mi"
    using date(2-4) len by (simp add: toISOString_def date(1) ms_def [symmetric] clock_text)
  then show ?thesis
    unfolding minuteBucket_def using padded_digits digits_kept by (simp add: h_def mi_def ms_def)
qed

lemma minute_of_day:
  "s div 86400000 = t div 86400000 \<and> s mod 86400000 div 3600000 = t mod 86400000 div 3600000 \<and>
     s mod 86400000 div 60000 mod 60 = t mod 86400000 div 60000 mod 60 \<longleftrightarrow> s div 60000 = t div (60000 :: int)"
proof -
  define parts where "parts x = (x div 1440, x mod 1440 div 60, x mod 60)" for x :: int
  have split: "x div 86400000 = x div 60000 div 1440" "x mod 86400000 div 60000 = x div 60000 mod 1440" for x :: int
  proof -
    show "x div 86400000 = x div 60000 div 1440" by (simp add: zdiv_zmult2_eq [symmetric])
    have "x mod (60000 * 1440) = 60000 * (x div 60000 mod 1440) + x mod 60000" by (rule zmod_zmult2_eq) simp
    then have "x mod 86400000 = 60000 * (x div 60000 mod 1440) + x mod 60000" by simp
    moreover have "0 \<le> x mod 60000" "x mod 60000 < 60000" by simp_all
    ultimately show "x mod 86400000 div 60000 = x div 60000 mod 1440" by linarith
  qed
  have hour: "x mod 86400000 div 3600000 = x div 60000 mod 1440 div 60" for x :: int
  proof -
    have "x mod 86400000 div 3600000 = x mod 86400000 div 60000 div 60" by (simp add: zdiv_zmult2_eq [symmetric])
    then show ?thesis by (simp only: split)
  qed
  have mm: "x mod 1440 mod 60 = x mod 60" for x :: int by (simp add: mod_mod_cancel)
  have "parts x = parts y \<longleftrightarrow> x = y" for x y
  proof
    assume "parts x = parts y"
    then have "x div 1440 = y div 1440" "x mod 1440 div 60 = y mod 1440 div 60" "x mod 1440 mod 60 = y mod 1440 mod 60" by (simp_all add: parts_def mm)
    then show "x = y" by (metis div_mult_mod_eq)
  qed simp
  then show ?thesis by (simp only: split(1) hour split(2) mm parts_def prod.inject)
qed

lemma minute_eq:
  assumes "plain_instant s" "plain_instant t"
  shows "minuteBucket s = minuteBucket t \<longleftrightarrow> s div 60000 = t div 60000"
proof -
  obtain y m d y' m' d' where cs: "civil (s div 86400000) = (y, m, d)" and ct: "civil (t div 86400000) = (y', m', d')" by (metis prod_cases3)
  note S = minute_parts [OF assms(1) cs] and T = minute_parts [OF assms(2) ct]
  define hs ht ms mt where clocks: "hs = s mod 86400000 div 3600000" "ht = t mod 86400000 div 3600000"
    "ms = s mod 86400000 div 60000 mod 60" "mt = t mod 86400000 div 60000 mod 60"
  have nonneg: "0 \<le> hs" "0 \<le> ht" "0 \<le> ms" "0 \<le> mt" unfolding clocks by (simp_all only: pos_imp_zdiv_nonneg_iff zero_less_numeral pos_mod_sign)
  have lens: "length (padded 2 hs) = 2" "length (padded 2 ht) = 2"
    unfolding clocks by (rule time_parts(1); rule pos_mod_sign pos_mod_bound; simp)+
  note ds = date_text_parts [OF plain_days [OF assms(1)] cs] and dt = date_text_parts [OF plain_days [OF assms(2)] ct]
  have "minuteBucket s = minuteBucket t \<longleftrightarrow> civil (s div 86400000) = civil (t div 86400000) \<and> hs = ht \<and> ms = mt"
    unfolding S T clocks [symmetric] using ds(2-7) dt(2-7) lens nonneg by (simp add: cs ct padded_eq)
  also have "\<dots> \<longleftrightarrow> s div 86400000 = t div 86400000 \<and> hs = ht \<and> ms = mt" using civil_days by metis
  also have "\<dots> \<longleftrightarrow> s div 60000 = t div 60000" unfolding clocks by (rule minute_of_day)
  finally show ?thesis .
qed

section \<open>The sweeps are admitted\<close>

definition schedule_ids :: "uuid_lib \<Rightarrow> schedule_tables \<Rightarrow> bool" where
  "schedule_ids lib t \<longleftrightarrow> list_all (\<lambda>a. row_id lib (ac_id a)) (st_accounts t) \<and> list_all (\<lambda>p. row_id lib (po_id p)) (st_posts t) \<and>
     list_all (\<lambda>c. row_id lib (cr_id c) \<and> row_id lib (cr_accountId c)) (st_credentials t)"

lemma request_admissible:
  assumes "row_id lib i" "row_id lib j" "list_all plain_char suffix" "length suffix \<le> 20" "isQueueName q"
    "p \<in> {''instagram-sync-scheduled-'', ''instagram-snapshot-'', ''instagram-comments-'', ''instagram-token-maintain-''}"
    "ty \<in> {''instagram_account'', ''instagram_post''}" "pr \<in> {None, Some (jint 0)}"
  shows "admissible lib \<lparr>sq_handlerVersion = 1, sq_idempotencyKey = p @ i @ ''-'' @ suffix, sq_priority = pr, sq_queueName = q,
    sq_resourceId = j, sq_resourceType = ty, sq_workspaceId = w\<rparr>"
proof -
  have "list_all plain_char p" "is_alnum (hd p)" "p \<noteq> []" "length p \<le> 30"
    using assms(6) by (auto simp: plain_char_def is_alnum_def is_lower_def code_in_def)
  then have "safe_key 254 (trim (p @ i @ ''-'' @ suffix))" using assms(1,3,4) by (intro scheduling_key(2)) (simp_all add: row_id_def)
  then show ?thesis using assms(2,5,7,8)
    by (auto simp: admissible_def row_id_def safe_lower_name_def is_lower_def is_digit_def code_in_def trim_def is_space_def)
qed

lemma bucket_text_plain: "list_all plain_char (age_window_text b)" "length (age_window_text b) \<le> 20"
  by (cases b; simp add: plain_char_def is_alnum_def is_lower_def is_digit_def code_in_def)+

interpretation syncs: sweeper dueSyncs schedule_ids
proof unfold_locales
  fix lib t now limit r
  assume ids: "schedule_ids lib t" and now: "plain_instant now" and r: "r \<in> set (dueSyncs limit now t)"
  then obtain a where a: "a \<in> set (st_accounts t)" "r = sync_request now a"
    by (auto simp: dueSyncs_def listInstagramAccountsDueForSync_def dest!: in_set_takeD)
  with ids have "row_id lib (ac_id a)" by (simp add: schedule_ids_def list_all_iff)
  then show "admissible lib r"
    unfolding a(2) sync_request_def instagramScheduledSyncKey_def
    by (intro request_admissible)
      (simp_all add: dayBucket_plain [OF now] isQueueName_def queueDefinitions_def instagramSyncPriority_def)
qed

lemma collect_due_in: "d \<in> set (collect_due n owed ps k) \<Longrightarrow> \<exists>p \<in> set ps. owed p = Some d"
  by (induction n owed ps k rule: collect_due.induct) (auto split: if_splits option.splits)

interpretation captures: sweeper dueSnapshots schedule_ids
proof unfold_locales
  fix lib t now limit r
  assume ids: "schedule_ids lib t" and r: "r \<in> set (dueSnapshots limit now t)"
  then obtain d p where d: "r = snapshot_request d" "p \<in> set (st_posts t)" "post_owed now t p = Some d"
    by (fastforce simp: dueSnapshots_def listInstagramPostsDueForSnapshot_def newest_first_def Let_def dest!: collect_due_in in_set_takeD)
  with ids have "row_id lib (sd_postId d)" by (auto simp: schedule_ids_def list_all_iff post_owed_def)
  then show "admissible lib r"
    unfolding d(1) snapshot_request_def instagramSnapshotKey_def
    by (intro request_admissible) (simp_all add: bucket_text_plain isQueueName_def queueDefinitions_def)
qed

interpretation comments: sweeper dueComments schedule_ids
proof unfold_locales
  fix lib t now limit r
  assume ids: "schedule_ids lib t" and now: "plain_instant now" and r: "r \<in> set (dueComments limit now t)"
  then obtain p where p: "p \<in> set (st_posts t)" "r = comments_request now p"
    by (auto simp: dueComments_def listInstagramPostsDueForComments_def dest!: in_set_takeD)
  with ids have "row_id lib (po_id p)" by (simp add: schedule_ids_def list_all_iff)
  then show "admissible lib r"
    unfolding p(2) comments_request_def instagramCommentsKey_def
    by (intro request_admissible) (simp_all add: dayBucket_plain [OF now] isQueueName_def queueDefinitions_def)
qed

interpretation tokens: sweeper dueTokens schedule_ids
proof unfold_locales
  fix lib t now limit r
  assume ids: "schedule_ids lib t" and now: "plain_instant now" and r: "r \<in> set (dueTokens limit now t)"
  then obtain c where c: "c \<in> set (st_credentials t)" "r = token_request now c"
    by (auto simp: dueTokens_def listInstagramCredentialsDueForMaintenance_def dest!: in_set_takeD)
  with ids have "row_id lib (cr_id c)" "row_id lib (cr_accountId c)" by (simp_all add: schedule_ids_def list_all_iff)
  then show "admissible lib r"
    unfolding c(2) token_request_def instagramTokenMaintenanceKey_def dayBucket_def [symmetric]
    by (intro request_admissible) (simp_all add: dayBucket_plain [OF now] isQueueName_def queueDefinitions_def)
qed

section \<open>What a sweep leaves\<close>

lemma swept_fresh:
  assumes "swept rs (fst ` set ids) db n db'" "fresh_ids (ids @ ids') db"
  shows "fresh_ids ids' db'"
proof -
  obtain new where new: "db_jobs db' = db_jobs db @ new" "j_id ` set new \<subseteq> fst ` set ids" using assms(1) unfolding swept_def by blast
  have "fst ` set ids \<inter> fst ` set ids' = {}" "fst ` set ids' \<inter> j_id ` set (db_jobs db) = {}"
    using assms(2) unfolding fresh_ids_def map_append distinct_append set_append set_map by blast+
  then have "fst ` set ids' \<inter> j_id ` set (db_jobs db') = {}" using new unfolding new(1) set_append image_Un by blast
  then show ?thesis using assms(2) by (simp add: fresh_ids_def)
qed

lemma swept_append:
  assumes "swept rs ids db n db1" "swept rs' ids' db1 m db2"
  shows "swept (rs @ rs') (ids \<union> ids') db (n + m) db2"
proof -
  obtain new new' where new: "db_jobs db1 = db_jobs db @ new" "length new = n"
      "\<forall>j \<in> set new. j_state j = QUEUED \<and> j_id j \<in> ids \<and> (\<exists>r \<in> set rs. job_for r j)"
    and new': "db_jobs db2 = db_jobs db1 @ new'" "length new' = m"
      "\<forall>j \<in> set new'. j_state j = QUEUED \<and> j_id j \<in> ids' \<and> (\<exists>r \<in> set rs'. job_for r j)"
    using assms unfolding swept_def by metis
  have "scheduled db2 r" if "scheduled db1 r" for r using scheduled_append [OF that new'(1)] .
  moreover have "db_jobs db2 = db_jobs db @ (new @ new')" "length (new @ new') = n + m" using new(1,2) new'(1,2) by simp_all
  ultimately show ?thesis using assms new(3) new'(3) unfolding swept_def by (auto intro!: exI [of _ "new @ new'"])
qed

text \<open>The key of a scheduled synchronisation is that of one account and one day.\<close>

lemma sync_key_eq:
  assumes "uuid_pattern (ac_id a)" "uuid_pattern (ac_id b)" "plain_instant s" "plain_instant t"
    "trim (instagramScheduledSyncKey (ac_id a) s) = trim (instagramScheduledSyncKey (ac_id b) t)"
  shows "ac_id a = ac_id b \<and> s div 86400000 = t div 86400000"
proof -
  have plain: "trim (instagramScheduledSyncKey i u) = instagramScheduledSyncKey i u" if "uuid_pattern i" "plain_instant u" for i u
  proof -
    have "list_all plain_char i" using uuid_chars [OF that(1)] by (auto simp: list_all_iff plain_char_def)
    moreover have "list_all plain_char (''instagram-sync-scheduled-'')" "plain_char CHR ''-''"
      by (simp_all add: plain_char_def is_alnum_def is_lower_def code_in_def)
    ultimately have "list_all plain_char (instagramScheduledSyncKey i u)"
      using dayBucket_plain [OF that(2)] by (simp add: instagramScheduledSyncKey_def)
    moreover have "plain_char c \<Longrightarrow> key_char c" for c by (auto simp: plain_char_def key_char_def)
    ultimately show ?thesis using trim_key by (metis (no_types, lifting) list.pred_mono_strong)
  qed
  have "ac_id a @ ''-'' @ dayBucket s = ac_id b @ ''-'' @ dayBucket t"
    using assms(5) plain [OF assms(1,3)] plain [OF assms(2,4)] by (simp add: instagramScheduledSyncKey_def)
  then have "ac_id a = ac_id b" "dayBucket s = dayBucket t"
    using uuid_pattern_length [OF assms(1)] uuid_pattern_length [OF assms(2)] by simp_all
  then show ?thesis using day_text_eq [OF assms(3,4)] by (simp add: dayBucket_def)
qed

section \<open>The guarantees\<close>

text \<open>
  C29: one sweep schedules everything that is due, once a day.  After a sweep every account, post
  snapshot and comment import it read has a job; the jobs it added are queued, are counted and are all for something it read; the
  tables are as they were.  The job of an account serves every later sweep of the same day, and no sweep
  of one day takes the place of another day's.
\<close>

theorem instagram_sweep_schedules:
  assumes "schedule_ids lib (db_results db)" "plain_instant now" "db_online db" "fresh_ids (ids @ ids' @ ids'') db"
    "length (dueSyncs batchSize now (db_results db)) \<le> length ids" "length (dueSnapshots batchSize now (db_results db)) \<le> length ids'"
    "length (dueComments batchSize now (db_results db)) \<le> length ids''"
    "instagram_sweep lib batchSize now dbNow ids ids' ids'' db = ((c, s, y), db')"
    "sync_request now a \<in> set (dueSyncs batchSize now (db_results db))" "a \<in> set (st_accounts (db_results db))" "plain_instant later"
  shows "swept (dueSyncs batchSize now (db_results db) @ dueSnapshots batchSize now (db_results db) @ dueComments batchSize now (db_results db))
      (fst ` set (ids @ ids' @ ids'')) db (y + (s + c)) db' \<and>
    (later div 86400000 = now div 86400000 \<longrightarrow> scheduled db' (sync_request later a)) \<and>
    (later div 86400000 \<noteq> now div 86400000 \<and> \<not> scheduled db (sync_request later a) \<longrightarrow> \<not> scheduled db' (sync_request later a))"
proof -
  let ?t = "db_results db"
  obtain db1 where e1: "enqueue_each lib dbNow (dueSyncs batchSize now ?t) ids db = (y, db1)"
    and rest1: "(case enqueue_each lib dbNow (dueSnapshots batchSize now (db_results db1)) ids' db1 of
          (captures, db2) \<Rightarrow> (case enqueue_each lib dbNow (dueComments batchSize now (db_results db2)) ids'' db2 of
            (comments, db3) \<Rightarrow> ((comments, captures, y), db3))) = ((c, s, y), db')"
    using assms(8) by (auto simp: instagram_sweep_def split: prod.splits)
  have f1: "fresh_ids ids db" using assms(4) by (auto simp: fresh_ids_def)
  have s1: "swept (dueSyncs batchSize now ?t) (fst ` set ids) db y db1"
    using syncs.sweep_schedules [OF assms(1-3) f1 assms(5), of dbNow] by (simp add: e1)
  then have t1: "db_results db1 = ?t" "db_online db1" by (simp_all add: swept_def)
  obtain db2 where e2: "enqueue_each lib dbNow (dueSnapshots batchSize now ?t) ids' db1 = (s, db2)"
    and e3: "enqueue_each lib dbNow (dueComments batchSize now (db_results db2)) ids'' db2 = (c, db')"
    using rest1 t1(1) by (auto split: prod.splits)
  have f2: "fresh_ids (ids' @ ids'') db1" by (rule swept_fresh [OF s1 assms(4)])
  then have "fresh_ids ids' db1" by (auto simp: fresh_ids_def)
  then have s2: "swept (dueSnapshots batchSize now ?t) (fst ` set ids') db1 s db2"
    using captures.sweep_schedules [of lib db1 now ids' batchSize dbNow] assms(1,2,6) t1 by (simp add: e2)
  then have t2: "db_results db2 = ?t" "db_online db2" using t1 by (simp_all add: swept_def)
  have s3: "swept (dueComments batchSize now ?t) (fst ` set ids'') db2 c db'"
    using comments.sweep_schedules [of lib db2 now ids'' batchSize dbNow] assms(1,2,7) t2 swept_fresh [OF s2 f2] e3 by simp
  have all: "swept (dueSyncs batchSize now ?t @ dueSnapshots batchSize now ?t @ dueComments batchSize now ?t) (fst ` set (ids @ ids' @ ids'')) db (y + (s + c)) db'"
    using swept_append [OF s1 swept_append [OF s2 s3]] by (simp add: image_Un)
  have same: "sync_request later a = sync_request now a" if "later div 86400000 = now div 86400000"
    using day_text_eq [OF assms(11,2)] that by (simp add: sync_request_def instagramScheduledSyncKey_def dayBucket_def)
  have "scheduled db' (sync_request now a)" using all assms(9) by (auto simp: swept_def)
  moreover have "scheduled db (sync_request later a)" if other: "later div 86400000 \<noteq> now div 86400000" and sch: "scheduled db' (sync_request later a)"
  proof -
    obtain new where new: "db_jobs db' = db_jobs db @ new"
        "\<forall>j \<in> set new. \<exists>r \<in> set (dueSyncs batchSize now ?t @ dueSnapshots batchSize now ?t @ dueComments batchSize now ?t). job_for r j"
      using all unfolding swept_def by blast
    obtain j where j: "j \<in> set (db_jobs db')" "job_for (sync_request later a) j" using sch by (auto simp: scheduled_def)
    have "j \<notin> set new"
    proof
      assume "j \<in> set new"
      then obtain r where r: "r \<in> set (dueSyncs batchSize now ?t @ dueSnapshots batchSize now ?t @ dueComments batchSize now ?t)" "job_for r j"
        using new(2) by blast
      have "sq_queueName r = ''instagram.sync.account''" using r(2) j(2) by (simp add: job_for_def sync_request_def)
      then have "r \<in> set (dueSyncs batchSize now ?t)" using r(1)
        by (auto simp: dueSnapshots_def dueComments_def snapshot_request_def comments_request_def)
      then obtain b where b: "b \<in> set (st_accounts ?t)" "r = sync_request now b"
        by (auto simp: dueSyncs_def listInstagramAccountsDueForSync_def dest!: in_set_takeD)
      have "uuid_pattern (ac_id a)" "uuid_pattern (ac_id b)" using assms(1,10) b(1) by (auto simp: schedule_ids_def list_all_iff row_id_def)
      from sync_key_eq [OF this assms(11,2)] r(2) j(2) other show False by (simp add: b(2) job_for_def sync_request_def)
    qed
    then show ?thesis using j new(1) by (auto simp: scheduled_def)
  qed
  ultimately show ?thesis using all same by auto
qed

lemma bucket_int:
  assumes "0 \<le> n"
  shows "instagramSnapshotBucketFor (jint n) = (if n \<le> 1800 then W_import else if n \<le> 7200 then W_hour_1 else if n \<le> 129600 then W_day_1
    else if n \<le> 345600 then W_day_3 else if n \<le> 777600 then W_day_7 else if n \<le> 3456000 then W_day_30 else W_mature)"
proof -
  have "jle (jint n) PosInf" "jint n \<noteq> NaN" by (simp_all add: jle_def jeq_def jint_def)
  with assms show ?thesis by (simp add: instagramSnapshotBucketFor_def instagramSnapshotBuckets_def)
qed

text \<open>
  A snapshot is owed exactly when a comparison will accept it.  A post of a given age, in seconds,
  is owed a snapshot of a bucket if and only if the age falls in that bucket, no snapshot of the bucket has been taken,
  and an observation at that age lies in the window analytics selects the bucket's observations from.
\<close>

theorem snapshot_due_in_window:
  "instagramSnapshotDueFor captured (jint n) = Some (b, age) \<longleftrightarrow>
   age = jint (max 0 n) \<and> b = instagramSnapshotBucketFor age \<and> b \<notin> set captured \<and>
   in_window (snapshotAgeWindowFor b) \<lparr>sn_capturedAt = now, sn_postAgeSeconds = age, sn_postId = p, sn_snapshotId = s\<rparr>"
proof -
  define m where "m = max 0 n"
  have m: "0 \<le> m" by (simp add: m_def)
  let ?b = "instagramSnapshotBucketFor (jint m)"
  have floor: "jfloor (jint n) = jint n" "jint n \<noteq> NaN" by (simp_all add: jint_def)
  have windows: "snapshotAgeWindowFor W_import = \<lparr>sw_key = W_import, sw_targetSeconds = None, sw_minimumSeconds = jint 0, sw_maximumSeconds = jint 1800\<rparr>"
    "sw_maximumSeconds (snapshotAgeWindowFor W_hour_1) = jint 7200" "sw_maximumSeconds (snapshotAgeWindowFor W_day_1) = jint 129600"
    "sw_maximumSeconds (snapshotAgeWindowFor W_day_3) = jint 345600" "sw_maximumSeconds (snapshotAgeWindowFor W_day_7) = jint 777600"
    "sw_maximumSeconds (snapshotAgeWindowFor W_day_30) = jint 3456000" "sw_maximumSeconds (snapshotAgeWindowFor W_mature) = PosInf"
    by (simp_all add: snapshotAgeWindowFor_def snapshotAgeWindows_def)
  have "jle (jint m) PosInf" by (simp add: jle_def jint_def)
  then have upper: "jle (jint m) (sw_maximumSeconds (snapshotAgeWindowFor ?b))" unfolding bucket_int [OF m] by (simp add: windows)
  have lower: "jge (jint m) (sw_minimumSeconds (snapshotAgeWindowFor w)) \<longleftrightarrow> \<not> jlt (jint m) (sw_minimumSeconds (snapshotAgeWindowFor w))" for w
    by (cases w) (simp_all add: snapshotAgeWindowFor_def snapshotAgeWindows_def not_less)
  have due: "instagramSnapshotDueFor captured (jint n) = (if ?b \<in> set captured then None
      else if jlt (jint m) (sw_minimumSeconds (snapshotAgeWindowFor ?b)) then None else Some (?b, jint m))"
    by (simp add: instagramSnapshotDueFor_def floor m_def Let_def)
  have "isFinite (jint m)" by (simp add: jint_def)
  then show ?thesis unfolding due m_def [symmetric] using upper lower [of ?b] by (auto simp: in_window_def)
qed

text \<open>Reading stops at the batch.\<close>

lemma collect_due_take: "k \<le> n \<Longrightarrow> collect_due n owed ps k = take (n - k) (List.map_filter owed ps)"
proof (induction ps arbitrary: k)
  case (Cons p ps)
  show ?case
  proof (cases "owed p")
    case None
    then show ?thesis using Cons by (auto simp: List.map_filter_simps)
  next
    case (Some d)
    show ?thesis
    proof (cases "k = n")
      case False
      then have "n - k = Suc (n - (k + 1))" using Cons.prems by simp
      then show ?thesis using Some False Cons.IH [of "k + 1"] Cons.prems by (simp add: List.map_filter_simps)
    qed simp
  qed
qed (simp add: List.map_filter_simps)

lemma map_filter_append [simp]: "List.map_filter f (xs @ ys) = List.map_filter f xs @ List.map_filter f ys"
  by (induction xs) (simp_all add: List.map_filter_simps split: option.split)

text \<open>
  The batch of snapshots to take is bounded, and what is closing comes first.  A batch never has
  more than the limit; every entry is owed by a connected post; and as long as no more than
  five times the limit of connected posts are at most forty days old and no more than the limit of them are owed a
  snapshot, every one of those is in the batch, however many older posts wait.
\<close>

theorem snapshot_batch:
  "length (listInstagramPostsDueForSnapshot limit now t) \<le> boundedTake limit \<and>
   (\<forall>d \<in> set (listInstagramPostsDueForSnapshot limit now t). \<exists>p \<in> set (st_posts t). connected t p \<and> post_owed now t p = Some d) \<and>
   (length (filter (closing_post now t) (st_posts t)) \<le> boundedTake limit * 5 \<and>
    length (filter (\<lambda>p. closing_post now t p \<and> post_owed now t p \<noteq> None) (st_posts t)) \<le> boundedTake limit \<longrightarrow>
      (\<forall>p \<in> set (st_posts t). \<forall>d. closing_post now t p \<and> post_owed now t p = Some d \<longrightarrow>
         d \<in> set (listInstagramPostsDueForSnapshot limit now t)))"
proof -
  let ?n = "boundedTake limit" and ?owed = "post_owed now t"
  define closing where "closing = newest_first (filter (closing_post now t) (st_posts t))"
  define settled where "settled = take ?n (newest_first (filter (settled_post now t) (st_posts t)))"
  have list: "listInstagramPostsDueForSnapshot limit now t = take ?n (List.map_filter ?owed (take (?n * 5) closing @ settled))"
    by (simp add: listInstagramPostsDueForSnapshot_def Let_def collect_due_take closing_def settled_def)
  have members: "p \<in> set (st_posts t) \<and> connected t p" if "p \<in> set (take (?n * 5) closing @ settled)" for p
    using that by (auto simp: closing_def settled_def newest_first_def closing_post_def settled_post_def dest!: in_set_takeD)
  have "\<exists>p \<in> set (st_posts t). connected t p \<and> ?owed p = Some d" if "d \<in> set (listInstagramPostsDueForSnapshot limit now t)" for d
  proof -
    have "d \<in> set (List.map_filter ?owed (take (?n * 5) closing @ settled))" using in_set_takeD [OF that [unfolded list]] .
    then show ?thesis using members unfolding List.map_filter_def by fastforce
  qed
  moreover have "d \<in> set (listInstagramPostsDueForSnapshot limit now t)"
    if few: "length (filter (closing_post now t) (st_posts t)) \<le> ?n * 5"
      "length (filter (\<lambda>p. closing_post now t p \<and> ?owed p \<noteq> None) (st_posts t)) \<le> ?n"
      and p: "p \<in> set (st_posts t)" "closing_post now t p" "?owed p = Some d" for p d
  proof -
    have all: "take (?n * 5) closing = closing" using few(1) by (simp add: closing_def newest_first_def)
    have perm: "mset closing = mset (filter (closing_post now t) (st_posts t))" by (simp add: closing_def newest_first_def)
    have "length (List.map_filter ?owed closing) = length (filter (\<lambda>p. ?owed p \<noteq> None) closing)" by (simp add: List.map_filter_def)
    also have "\<dots> = length (filter (\<lambda>p. ?owed p \<noteq> None) (filter (closing_post now t) (st_posts t)))"
      using perm by (metis mset_filter size_mset)
    also have "\<dots> \<le> ?n" using few(2) by (simp add: conj_commute)
    finally have "length (List.map_filter ?owed closing) \<le> ?n" .
    then have "set (List.map_filter ?owed closing) \<subseteq> set (listInstagramPostsDueForSnapshot limit now t)" by (auto simp: list all)
    moreover have "p \<in> set closing" using p(1,2) by (simp add: closing_def newest_first_def)
    then have "d \<in> set (List.map_filter ?owed closing)" using p(3) unfolding List.map_filter_def by force
    ultimately show ?thesis by blast
  qed
  moreover have "length (listInstagramPostsDueForSnapshot limit now t) \<le> ?n" by (simp add: list)
  ultimately show ?thesis by blast
qed

text \<open>
  A capture that comes a second too late is filed under the next bucket, below that bucket's window: no
  comparison will use it, and the post is not owed a snapshot of that bucket when its window
  opens.
\<close>

lemma late_capture_takes_next_bucket:
  "instagramSnapshotDueFor [] (jint 129600) = Some (W_day_1, jint 129600) \<and> instagramSnapshotBucketFor (jint 129601) = W_day_3 \<and>
   \<not> in_window (snapshotAgeWindowFor W_day_3) \<lparr>sn_capturedAt = 0, sn_postAgeSeconds = jint 129601, sn_postId = p, sn_snapshotId = s\<rparr> \<and>
   (\<forall>n. 216000 \<le> n \<and> n \<le> 345600 \<longrightarrow> instagramSnapshotDueFor [W_day_3] (jint n) = None)"
proof -
  have "instagramSnapshotDueFor [W_day_3] (jint n) = None" if "216000 \<le> n" "n \<le> 345600" for n
  proof -
    have "jfloor (jint n) = jint n" "jint n \<noteq> NaN" by (simp_all add: jint_def)
    then show ?thesis using that by (simp add: instagramSnapshotDueFor_def Let_def bucket_int)
  qed
  moreover have "instagramSnapshotDueFor [] (jint 129600) = Some (W_day_1, jint 129600)" "instagramSnapshotBucketFor (jint 129601) = W_day_3" by code_simp+
  moreover have "\<not> in_window (snapshotAgeWindowFor W_day_3) \<lparr>sn_capturedAt = 0, sn_postAgeSeconds = jint 129601, sn_postId = p, sn_snapshotId = s\<rparr>"
    by (simp add: in_window_def snapshotAgeWindowFor_def snapshotAgeWindows_def)
  ultimately show ?thesis by blast
qed

text \<open>
  The keys the schedulers use are safe, say what they are for, and change with their period.
  Every key is accepted by the pattern of jobs and of runs alike; the trigger of a scheduled and of a manual
  synchronisation is read back from its key; the scheduled key of an account changes with the day
  and the manual one with the minute, and with nothing else.
\<close>

theorem scheduling_keys:
  assumes "uuid_pattern i" "plain_instant s" "plain_instant t"
  shows "isSafeSchedulingKey (instagramScheduledSyncKey i s) \<and> isSafeSchedulingKey (instagramManualSyncKey i s) \<and>
    isSafeSchedulingKey (instagramSnapshotKey i b) \<and> isSafeSchedulingKey (instagramCommentsKey i s) \<and>
    instagramSyncTriggerFromKey (instagramScheduledSyncKey i s) = Some SCHEDULED \<and> instagramSyncTriggerFromKey (instagramManualSyncKey i s) = Some MANUAL \<and>
    (instagramScheduledSyncKey i s = instagramScheduledSyncKey i t \<longleftrightarrow> s div 86400000 = t div 86400000) \<and>
    (instagramManualSyncKey i s = instagramManualSyncKey i t \<longleftrightarrow> s div 60000 = t div 60000)"
proof -
  have "list_all is_digit (minuteBucket s)" "length (minuteBucket s) = 12"
  proof -
    obtain y m d where c: "civil (s div 86400000) = (y, m, d)" by (metis prod_cases3)
    note date = date_text_parts [OF plain_days [OF assms(2)] c]
    have "length (padded 2 (s mod 86400000 div 3600000)) = 2" "length (padded 2 (s mod 86400000 div 60000 mod 60)) = 2"
      by (rule time_parts; rule pos_mod_sign pos_mod_bound; simp)+
    then show "length (minuteBucket s) = 12" unfolding minute_parts [OF assms(2) c] length_append using date(2-4) by simp
    show "list_all is_digit (minuteBucket s)" unfolding minute_parts [OF assms(2) c] list_all_append using padded_digits by blast
  qed
  then have minute: "list_all plain_char (minuteBucket s)" "length (minuteBucket s) \<le> 20"
    using digits_plain [of "minuteBucket s"] by (auto simp: list_all_iff)
  note day = dayBucket_plain [OF assms(2)]
  have safe: "isSafeSchedulingKey (p @ i @ ''-'' @ suffix)" if "p \<in> {''instagram-sync-scheduled-'', ''instagram-sync-manual-'', ''instagram-snapshot-'',
      ''instagram-comments-''}" "list_all plain_char suffix" "length suffix \<le> 20" for p suffix
  proof (rule scheduling_key(1) [OF assms(1)])
    show "list_all plain_char p" "is_alnum (hd p)" "p \<noteq> []" "length p \<le> 30"
      using that(1) by (auto simp: plain_char_def is_alnum_def is_lower_def code_in_def)
  qed (use that(2,3) in auto)
  have "isSafeSchedulingKey (instagramScheduledSyncKey i s)" "isSafeSchedulingKey (instagramManualSyncKey i s)"
    "isSafeSchedulingKey (instagramSnapshotKey i b)" "isSafeSchedulingKey (instagramCommentsKey i s)"
    unfolding instagramScheduledSyncKey_def instagramManualSyncKey_def instagramSnapshotKey_def instagramCommentsKey_def
    using day minute bucket_text_plain [of b] by (intro safe; simp)+
  moreover have "instagramSyncTriggerFromKey (instagramScheduledSyncKey i s) = Some SCHEDULED" "instagramSyncTriggerFromKey (instagramManualSyncKey i s) = Some MANUAL"
    by (simp_all add: instagramSyncTriggerFromKey_def instagramScheduledSyncKey_def instagramManualSyncKey_def starts_with_def)
  moreover have "instagramScheduledSyncKey i s = instagramScheduledSyncKey i t \<longleftrightarrow> s div 86400000 = t div 86400000"
    using day_text_eq [OF assms(2,3)] by (simp add: instagramScheduledSyncKey_def dayBucket_def)
  moreover have "instagramManualSyncKey i s = instagramManualSyncKey i t \<longleftrightarrow> s div 60000 = t div 60000"
    using minute_eq [OF assms(2,3)] by (simp add: instagramManualSyncKey_def)
  ultimately show ?thesis by blast
qed

lemma scheduling_keys_witness:
  "instagramScheduledSyncKey ''0190a000-0000-7000-8000-00000000000a'' 1785456000000 \<noteq>
     instagramScheduledSyncKey ''0190a000-0000-7000-8000-00000000000a'' 1785542400000 \<and>
   isSafeSchedulingKey (instagramManualSyncKey ''0190a000-0000-7000-8000-00000000000a'' 1785456000000)"
proof -
  have "uuid_pattern ''0190a000-0000-7000-8000-00000000000a''" "plain_instant 1785456000000" "plain_instant 1785542400000" by code_simp+
  from scheduling_keys [OF this, of W_day_1] show ?thesis by simp
qed

section \<open>Witnesses\<close>

definition schedule_sample :: schedule_tables where
  "schedule_sample = \<lparr>st_accounts = [row_account], st_credentials = [],
     st_posts = [sample_post\<lparr>po_id := ''0190a000-0000-7000-8000-00000000000e'', po_workspaceId := ac_workspaceId row_account,
       po_instagramAccountId := ac_id row_account\<rparr>], st_snapshots = [], st_runs = []\<rparr>"

definition schedule_db :: "schedule_tables database" where
  "schedule_db = \<lparr>db_online = True, db_jobs = [], db_attempts = [], db_outbox = [], db_audit = [], db_users = [], db_analysisJobs = [],
     db_results = schedule_sample\<rparr>"

lemma instagram_sweep_schedules_witness:
  "fst (instagram_sweep demo_lib 10 90000000 90000000 (sweep_ids ''a'') (sweep_ids ''b'') (sweep_ids ''c'') schedule_db) = (1, 1, 1) \<and>
   scheduled (snd (instagram_sweep demo_lib 10 90000000 90000000 (sweep_ids ''a'') (sweep_ids ''b'') (sweep_ids ''c'') schedule_db))
     (sync_request 90000001 row_account)"
proof -
  let ?run = "instagram_sweep demo_lib 10 90000000 90000000 (sweep_ids ''a'') (sweep_ids ''b'') (sweep_ids ''c'') schedule_db"
  have count: "fst ?run = (1, 1, 1)" by code_simp
  then have run: "?run = ((1, 1, 1), snd ?run)" by (metis prod.collapse)
  have pre: "schedule_ids demo_lib (db_results schedule_db)" "plain_instant 90000000" "db_online schedule_db"
    "fresh_ids (sweep_ids ''a'' @ sweep_ids ''b'' @ sweep_ids ''c'') schedule_db"
    "length (dueSyncs 10 90000000 (db_results schedule_db)) \<le> length (sweep_ids ''a'')"
    "length (dueSnapshots 10 90000000 (db_results schedule_db)) \<le> length (sweep_ids ''b'')"
    "length (dueComments 10 90000000 (db_results schedule_db)) \<le> length (sweep_ids ''c'')" by code_simp+
  have due: "listInstagramAccountsDueForSync (90000000 - instagramAccountSyncIntervalHours * 3600000) 10 schedule_sample = [row_account]"
    by (simp add: listInstagramAccountsDueForSync_def schedule_sample_def sync_due_def row_account_def sample_account_def boundedTake_def maximumBatch_def)
  have acc: "sync_request 90000000 row_account \<in> set (dueSyncs 10 90000000 (db_results schedule_db))" "row_account \<in> set (st_accounts (db_results schedule_db))"
    by (simp_all add: dueSyncs_def due schedule_db_def) (simp add: schedule_sample_def)
  have later: "plain_instant 90000001" "(90000001 :: int) div 86400000 = 90000000 div 86400000" by (simp_all add: plain_instant_def)
  from instagram_sweep_schedules [OF pre run acc later(1)] later(2) count show ?thesis by blast
qed

lemma snapshot_batch_witness:
  "(\<exists>d \<in> set (listInstagramPostsDueForSnapshot 10 90000000 schedule_sample). sd_ageBucket d = W_day_1)"
proof -
  let ?p = "hd (st_posts schedule_sample)"
  have few: "length (filter (closing_post 90000000 schedule_sample) (st_posts schedule_sample)) \<le> boundedTake 10 * 5 \<and>
    length (filter (\<lambda>p. closing_post 90000000 schedule_sample p \<and> post_owed 90000000 schedule_sample p \<noteq> None) (st_posts schedule_sample)) \<le> boundedTake 10"
    by code_simp
  have owed: "map_option sd_ageBucket (post_owed 90000000 schedule_sample ?p) = Some W_day_1" "closing_post 90000000 schedule_sample ?p" by code_simp+
  have p: "?p \<in> set (st_posts schedule_sample)" by (simp add: schedule_sample_def)
  from owed(1) obtain d where d: "post_owed 90000000 schedule_sample ?p = Some d" "sd_ageBucket d = W_day_1" by auto
  from snapshot_batch [of 10 90000000 schedule_sample, THEN conjunct2, THEN conjunct2, rule_format, OF few p conjI [OF owed(2) d(1)]] d(2)
  show ?thesis by blast
qed

end
