(* ===== verification/Instagram_Sync.thy ===== *)
theory Instagram_Sync
  imports Instagram_Scheduling
begin

text \<open>
  The import of an account's media: \<open>packages/domain/src/instagram-media.ts\<close> (how an item and a page
  are read), \<open>packages/db/src/instagram-media.ts\<close> (the runs and the commit of a page) and
  \<open>apps/worker/src/instagram/sync-account-handler.ts\<close> over \<open>media-client.ts\<close>.

  Platform functions whose result depends on more than the language (\<open>Date.parse\<close> beyond its
  interchange format, the URL parser, SHA-256) are parameters, and so are the provider's answers.  The opening
  of a run reads before it writes; what it read comes from an earlier state.  The page loop counts the pages
  it may still visit, as the source does, and stops at any point where the engine interrupts it.
\<close>

section \<open>Items and pages\<close>

record platform =
  pf_sha256 :: hash
  pf_dateParse :: "string \<Rightarrow> js_num"
  pf_https :: "string \<Rightarrow> bool"  \<comment> \<open>an absolute URL whose protocol is \<open>https:\<close>\<close>

datatype media_rejection = MR_ITEM_NOT_OBJECT | MR_ITEM_NOT_SERIALISABLE | MR_ITEM_TOO_LARGE | MR_MEDIA_ID_INVALID | MR_MEDIA_TYPE_INVALID
  | MR_TIMESTAMP_INVALID

record media =
  nm_caption :: "string option"
  nm_ephemeralMediaUrl :: "string option"
  nm_ephemeralThumbnailUrl :: "string option"
  nm_kind :: media_kind
  nm_mediaProductType :: "string option"
  nm_mediaType :: string
  nm_permalink :: "string option"
  nm_providerMediaId :: string
  nm_publishedAt :: time
  nm_rawPayloadHash :: string
  nm_username :: "string option"

definition provider_enum :: "string \<Rightarrow> bool" where
  "provider_enum = head_tail is_upper (\<lambda>c. is_upper c \<or> is_digit c \<or> c = CHR ''_'') 31"

definition provider_cursor :: "string \<Rightarrow> bool" where
  "provider_cursor s \<longleftrightarrow> 1 \<le> length s \<and> length s \<le> 512 \<and> list_all (\<lambda>c. is_alnum c \<or> c \<in> set ''_-'') s"

definition readHttpsUrl :: "platform \<Rightarrow> (string \<times> js_num js_value) list \<Rightarrow> string \<Rightarrow> string option" where
  "readHttpsUrl pf fs key = (case readString fs key of None \<Rightarrow> None | Some v \<Rightarrow> if pf_https pf v then Some v else None)"

text \<open>\<open>replace(/([+-])(\d{2})(\d{2})$/u, "$1$2:$3")\<close>.\<close>

definition expand_offset :: "string \<Rightarrow> string" where
  "expand_offset s = (let n = length s - 5; tail = drop n s in
     if length s \<ge> 5 \<and> hd tail \<in> set ''+-'' \<and> list_all is_digit (tl tail) then take (n + 3) s @ '':'' @ drop (n + 3) s else s)"

definition parseInstagramTimestamp :: "platform \<Rightarrow> string option \<Rightarrow> time option" where
  "parseInstagramTimestamp pf v = (case v of None \<Rightarrow> None
     | Some s \<Rightarrow> if s = [] then None
         else let parsed = pf_dateParse pf (expand_offset s) in
           if \<not> isFinite parsed then None
           else if jlt parsed (jint 1262304000000) \<or> jge parsed (jint 4102444800000) then None
           else Some (num_int parsed))"

definition classifyInstagramMedia :: "string option \<Rightarrow> string \<Rightarrow> media_kind" where
  "classifyInstagramMedia mediaProductType mediaType =
     (if mediaProductType = Some ''REELS'' then REEL
      else if mediaType = ''CAROUSEL_ALBUM'' then CAROUSEL_ALBUM else if mediaType = ''IMAGE'' then IMAGE
      else if mediaType = ''VIDEO'' then VIDEO else media_kind.UNSUPPORTED)"

text \<open>\<open>JSON.stringify\<close>: nothing for undefined, which an object drops and an array prints as null.\<close>

fun js_json :: "js_num js_value \<Rightarrow> string option" where
  "js_json JUndefined = None"
| "js_json js_value.JNull = Some ''null''"
| "js_json (JBool b) = Some (if b then ''true'' else ''false'')"
| "js_json (JNum n) = Some (json_number n)"
| "js_json (js_value.JStr s) = Some (json_string s)"
| "js_json (js_value.JArr vs) = Some (json_array (map (\<lambda>v. coalesce (js_json v) ''null'') vs))"
| "js_json (JObj fs) = Some (''{'' @ join '','' (List.map_filter (\<lambda>(k, t). map_option (\<lambda>s. json_string k @ '':'' @ s) t)
     (map (\<lambda>(k, v). (k, js_json v)) fs)) @ ''}'')"

definition ephemeralUrlFields :: "string list" where
  "ephemeralUrlFields = [''media_url'', ''thumbnail_url'']"

text \<open>Fields are named, so that none is an array index, which an object would print first.\<close>

fun canonicalise :: "js_num js_value \<Rightarrow> js_num js_value" where
  "canonicalise (js_value.JArr vs) = js_value.JArr (map canonicalise vs)"
| "canonicalise (JObj fs) = JObj (sort_key fst (filter (\<lambda>(k, _). k \<notin> set ephemeralUrlFields) (map (\<lambda>(k, v). (k, canonicalise v)) fs)))"
| "canonicalise v = v"

definition hashInstagramMediaPayload :: "platform \<Rightarrow> (string \<times> js_num js_value) list \<Rightarrow> string" where
  "hashInstagramMediaPayload pf item = digest_hex (pf_sha256 pf) (coalesce (js_json (canonicalise (JObj item))) [])"

definition normaliseInstagramMediaItem :: "platform \<Rightarrow> js_num js_value \<Rightarrow> media_rejection + media" where
  "normaliseInstagramMediaItem pf item =
     (case is_record item of None \<Rightarrow> Inl MR_ITEM_NOT_OBJECT
      | Some fs \<Rightarrow>
          (case js_json item of None \<Rightarrow> Inl MR_ITEM_NOT_SERIALISABLE
           | Some serialised \<Rightarrow>
               if int (length serialised) > 65536 then Inl MR_ITEM_TOO_LARGE
               else case readString fs ''id'' of None \<Rightarrow> Inl MR_MEDIA_ID_INVALID
                 | Some providerMediaId \<Rightarrow>
                     if \<not> media_id_pattern providerMediaId then Inl MR_MEDIA_ID_INVALID
                     else case readString fs ''media_type'' of None \<Rightarrow> Inl MR_MEDIA_TYPE_INVALID
                       | Some mediaType \<Rightarrow>
                           if \<not> provider_enum mediaType then Inl MR_MEDIA_TYPE_INVALID
                           else case parseInstagramTimestamp pf (readString fs ''timestamp'') of None \<Rightarrow> Inl MR_TIMESTAMP_INVALID
                             | Some publishedAt \<Rightarrow>
                                 let mediaProductType = (case readString fs ''media_product_type'' of None \<Rightarrow> None
                                       | Some t \<Rightarrow> if provider_enum t then Some t else None)
                                 in Inr \<lparr>nm_caption = (case js_field fs ''caption'' of js_value.JStr s \<Rightarrow> Some s | _ \<Rightarrow> None),
                                     nm_ephemeralMediaUrl = readHttpsUrl pf fs ''media_url'',
                                     nm_ephemeralThumbnailUrl = readHttpsUrl pf fs ''thumbnail_url'',
                                     nm_kind = classifyInstagramMedia mediaProductType mediaType, nm_mediaProductType = mediaProductType,
                                     nm_mediaType = mediaType, nm_permalink = readHttpsUrl pf fs ''permalink'',
                                     nm_providerMediaId = providerMediaId, nm_publishedAt = publishedAt,
                                     nm_rawPayloadHash = hashInstagramMediaPayload pf fs, nm_username = readString fs ''username''\<rparr>))"

record media_page =
  mp_after :: "string option"
  mp_hasNextPage :: bool
  mp_items :: "js_num js_value list"

definition readInstagramMediaPage :: "js_num js_value \<Rightarrow> media_page" where
  "readInstagramMediaPage body =
     (case is_record body of None \<Rightarrow> \<lparr>mp_after = None, mp_hasNextPage = False, mp_items = []\<rparr>
      | Some fs \<Rightarrow>
          let items = (case js_field fs ''data'' of js_value.JArr vs \<Rightarrow> vs | _ \<Rightarrow> []);
              paging = is_record (js_field fs ''paging'');
              cursors = (case paging of None \<Rightarrow> None | Some p \<Rightarrow> is_record (js_field p ''cursors''));
              after = (case cursors of None \<Rightarrow> None | Some c \<Rightarrow> readString c ''after'')
          in \<lparr>mp_after = (case after of None \<Rightarrow> None | Some a \<Rightarrow> if provider_cursor a then Some a else None),
              mp_hasNextPage = (case paging of None \<Rightarrow> False | Some p \<Rightarrow> (case js_field p ''next'' of js_value.JStr _ \<Rightarrow> True | _ \<Rightarrow> False)),
              mp_items = items\<rparr>)"

definition instagramMaximumSyncPages :: nat where "instagramMaximumSyncPages = 200"
definition instagramBootstrapHorizonDays :: int where "instagramBootstrapHorizonDays = 180"

text \<open>The media client: what it refuses to ask, and what it makes of an answer.\<close>

definition fetchInstagramMediaPage :: "(string option \<Rightarrow> insights_reply) \<Rightarrow> string \<Rightarrow> string option \<Rightarrow> insights_error + media_page" where
  "fetchInstagramMediaPage fetch providerAccountId after =
     (if \<not> media_id_pattern providerAccountId then Inl (RC_invalid_request, None)
      else if (case after of None \<Rightarrow> False | Some a \<Rightarrow> \<not> provider_cursor a) then Inl (RC_invalid_request, None)
      else case fetch after of
          Insights_unreachable \<Rightarrow> Inl (RC_transient, None)
        | Insights_answered status retryAfter body \<Rightarrow>
            if \<not> response_ok status then Inl (classifyInstagramResponse body status, parseInstagramRetryAfterMs retryAfter)
            else if body = js_value.JNull then Inl (RC_transient, None)
            else let page = readInstagramMediaPage body in
              if mp_hasNextPage page \<and> mp_after page = None then Inl (RC_transient, None) else Inr page)"

section \<open>The tables\<close>

record media_tables =
  mt_accounts :: "account list"
  mt_posts :: "post list"
  mt_runs :: "sync_run list"

definition mediaError :: "string \<Rightarrow> int \<Rightarrow> exn" where
  "mediaError code statusCode = Exn_operational (OperationalError code
     (if statusCode = 404 then Not_found else if statusCode = 409 then Conflict else Validation) (Some False) (jint statusCode))"

text \<open>The unique indexes of the runs: one run of a key, and one running of an account and a trigger.\<close>

definition run_key :: "sync_run \<Rightarrow> string \<times> string \<times> sync_trigger \<times> string" where
  "run_key r = (sr_workspaceId r, sr_instagramAccountId r, sr_trigger r, sr_idempotencyKey r)"

definition run_slot :: "sync_run \<Rightarrow> string \<times> sync_trigger" where
  "run_slot r = (sr_instagramAccountId r, sr_trigger r)"

definition one_running :: "sync_run list \<Rightarrow> bool" where
  "one_running rows = distinct (map run_slot (filter (\<lambda>r. sr_state r = S_RUNNING) rows))"

definition write_runs :: "sync_run list \<Rightarrow> media_tables \<Rightarrow> exn + media_tables" where
  "write_runs rows t =
     (if \<not> distinct (map run_key rows) \<or> \<not> distinct (map sr_id rows) then Inl (Exn_other ''unique constraint'')
      else if \<not> one_running rows then Inl (Exn_other ''sync_runs_one_running_per_account_trigger'')
      else Inr (t\<lparr>mt_runs := rows\<rparr>))"

section \<open>Runs\<close>

record start_input =
  ss_apiVersion :: string
  ss_backgroundJobId :: "string option"
  ss_correlationId :: string
  ss_horizonStart :: "time option"
  ss_idempotencyKey :: string
  ss_instagramAccountId :: string
  ss_requestedByUserId :: "string option"
  ss_startedAt :: time
  ss_trigger :: sync_trigger

definition reopen_data :: "start_input \<Rightarrow> sync_run \<Rightarrow> sync_run \<Rightarrow> sync_run" where
  "reopen_data i existing r = r\<lparr>sr_backgroundJobId := (case ss_backgroundJobId i of None \<Rightarrow> sr_backgroundJobId existing | Some j \<Rightarrow> Some j),
     sr_completedAt := None, sr_correlationId := ss_correlationId i, sr_failureClass := None, sr_failureCode := None,
     sr_stage := ''starting'', sr_state := S_RUNNING\<rparr>"

definition new_run :: "string \<Rightarrow> start_input \<Rightarrow> string \<Rightarrow> sync_run" where
  "new_run ws i newId = \<lparr>sr_id = newId, sr_workspaceId = ws, sr_instagramAccountId = ss_instagramAccountId i, sr_trigger = ss_trigger i,
     sr_idempotencyKey = ss_idempotencyKey i, sr_backgroundJobId = ss_backgroundJobId i, sr_state = S_RUNNING, sr_stage = ''starting'',
     sr_horizonStart = ss_horizonStart i, sr_cursor = None, sr_pagesCompleted = 0, sr_itemsSeen = 0, sr_itemsImported = 0, sr_itemsUpdated = 0,
     sr_itemsSkipped = 0, sr_itemsInvalid = 0, sr_apiVersion = ss_apiVersion i, sr_correlationId = ss_correlationId i,
     sr_startedAt = ss_startedAt i, sr_checkpointAt = None, sr_completedAt = None, sr_failureClass = None, sr_failureCode = None,
     sr_requestedByUserId = ss_requestedByUserId i\<rparr>"

definition startInstagramSyncRun :: "string \<Rightarrow> start_input \<Rightarrow> string \<Rightarrow> media_tables \<Rightarrow> media_tables \<Rightarrow> (exn + sync_run) \<times> media_tables" where
  "startInstagramSyncRun ws i newId seen t =
     (if \<not> isSafeSchedulingKey (ss_idempotencyKey i) then (Inl (mediaError ''SYNC_RUN_IDEMPOTENCY_KEY_INVALID'' 400), t)
      else if \<not> (\<exists>a \<in> set (mt_accounts seen). ac_id a = ss_instagramAccountId i \<and> ac_workspaceId a = ws)
      then (Inl (mediaError ''SYNC_ACCOUNT_NOT_FOUND'' 404), t)
      else case find (\<lambda>r. run_key r = (ws, ss_instagramAccountId i, ss_trigger i, ss_idempotencyKey i)) (mt_runs seen) of
          Some existing \<Rightarrow>
            if sr_state existing = S_SUCCEEDED \<or> sr_state existing = S_RUNNING then (Inr existing, t)
            else let P = (\<lambda>r. sr_id r = sr_id existing \<and> sr_state r = S_FAILED \<and> sr_workspaceId r = ws) in
              (case write_runs (update_many P (reopen_data i existing) (mt_runs t)) t of
                 Inl e \<Rightarrow> (Inl e, t)
               | Inr t' \<Rightarrow>
                   if count_many P (mt_runs t) \<noteq> 1 then (Inl (mediaError ''SYNC_RUN_REOPEN_CONFLICT'' 409), t')
                   else (case find (\<lambda>r. sr_id r = sr_id existing \<and> sr_workspaceId r = ws) (mt_runs t') of
                       None \<Rightarrow> (Inl (mediaError ''SYNC_RUN_NOT_FOUND'' 404), t')
                     | Some current \<Rightarrow> (Inr current, t')))
        | None \<Rightarrow>
            (case write_runs (mt_runs t @ [new_run ws i newId]) t of
               Inl _ \<Rightarrow> (Inl (mediaError ''SYNC_RUN_ALREADY_ACTIVE'' 409), t)
             | Inr t' \<Rightarrow> (Inr (new_run ws i newId), t')))"

record page_input =
  pg_cursor :: "string option"
  pg_importedAt :: time
  pg_invalidCount :: int
  pg_media :: "media list"
  pg_rawApiVersion :: string
  pg_skippedCount :: int
  pg_stage :: string
  pg_syncRunId :: string

definition safe_count :: "int \<Rightarrow> bool" where
  "safe_count n \<longleftrightarrow> 0 \<le> n \<and> n \<le> maxSafe"

definition shared_data :: "page_input \<Rightarrow> string \<Rightarrow> media \<Rightarrow> post \<Rightarrow> post" where
  "shared_data i runId item p = p\<lparr>po_caption := nm_caption item, po_lastImportedAt := pg_importedAt i, po_lastSyncRunId := Some runId,
     po_mediaKind := nm_kind item, po_mediaProductType := nm_mediaProductType item, po_mediaType := nm_mediaType item,
     po_permalink := nm_permalink item, po_providerThumbnailUrl := nm_ephemeralThumbnailUrl item, po_publishedAt := nm_publishedAt item,
     po_rawApiVersion := pg_rawApiVersion i, po_rawPayloadHash := nm_rawPayloadHash item, po_rawRetrievedAt := pg_importedAt i\<rparr>"

definition new_post :: "string \<Rightarrow> page_input \<Rightarrow> sync_run \<Rightarrow> media \<Rightarrow> string \<Rightarrow> post" where
  "new_post ws i run item newId = shared_data i (sr_id run) item \<lparr>po_id = newId, po_workspaceId = ws, po_instagramAccountId = sr_instagramAccountId run,
     po_providerMediaId = nm_providerMediaId item, po_mediaKind = nm_kind item, po_mediaType = [], po_mediaProductType = None, po_caption = None,
     po_permalink = None, po_publishedAt = 0, po_providerThumbnailUrl = None, po_firstImportedAt = pg_importedAt i, po_lastImportedAt = 0,
     po_lastSyncRunId = None, po_rawPayloadHash = [], po_rawApiVersion = [], po_rawRetrievedAt = 0\<rparr>"

text \<open>
  The loop over the items of a page; \<open>existing\<close> is what was read before it.  A second row of an
  identity, and an import before the first, break a constraint and roll the page back.
\<close>

fun commit_items :: "string \<Rightarrow> page_input \<Rightarrow> sync_run \<Rightarrow> (string \<times> string) list \<Rightarrow> media list \<Rightarrow> (nat \<Rightarrow> string) \<Rightarrow> nat \<Rightarrow> int \<times> int \<Rightarrow> post list \<Rightarrow>
    exn + (int \<times> int) \<times> post list" where
  "commit_items ws i run existing [] newIds k (imported, updated) posts = Inr ((imported, updated), posts)"
| "commit_items ws i run existing (item # items) newIds k (imported, updated) posts =
     (case map_of existing (nm_providerMediaId item) of
        Some existingId \<Rightarrow>
          if \<exists>p \<in> set posts. po_id p = existingId \<and> pg_importedAt i < po_firstImportedAt p then Inl (Exn_other ''instagram_posts_import_order'')
          else commit_items ws i run existing items newIds (k + 1) (imported, updated + 1)
            (update_many (\<lambda>p. po_id p = existingId) (shared_data i (sr_id run) item) posts)
      | None \<Rightarrow>
          if \<exists>p \<in> set posts. po_id p = newIds k \<or> (po_instagramAccountId p = sr_instagramAccountId run \<and> po_providerMediaId p = nm_providerMediaId item)
          then Inl (Exn_other ''unique constraint'')
          else commit_items ws i run existing items newIds (k + 1) (imported + 1, updated) (posts @ [new_post ws i run item (newIds k)]))"

definition advance_data :: "page_input \<Rightarrow> int \<Rightarrow> int \<Rightarrow> sync_run \<Rightarrow> sync_run" where
  "advance_data i imported updated r = r\<lparr>sr_checkpointAt := Some (pg_importedAt i), sr_cursor := pg_cursor i,
     sr_itemsImported := sr_itemsImported r + imported, sr_itemsInvalid := sr_itemsInvalid r + pg_invalidCount i,
     sr_itemsSeen := sr_itemsSeen r + (int (length (pg_media i)) + pg_invalidCount i + pg_skippedCount i),
     sr_itemsSkipped := sr_itemsSkipped r + pg_skippedCount i, sr_itemsUpdated := sr_itemsUpdated r + updated,
     sr_pagesCompleted := sr_pagesCompleted r + 1, sr_stage := pg_stage i\<rparr>"

definition commitInstagramMediaPage :: "string \<Rightarrow> page_input \<Rightarrow> (nat \<Rightarrow> string) \<Rightarrow> media_tables \<Rightarrow> exn + (int \<times> int) \<times> media_tables" where
  "commitInstagramMediaPage ws i newIds t =
     (if \<not> safe_lower_name (pg_stage i) then Inl (mediaError ''SYNC_RUN_STAGE_INVALID'' 400)
      else if \<not> safe_count (pg_invalidCount i) then Inl (mediaError ''SYNC_RUN_INVALID_COUNT_INVALID'' 400)
      else if \<not> safe_count (pg_skippedCount i) then Inl (mediaError ''SYNC_RUN_SKIPPED_COUNT_INVALID'' 400)
      else case find (\<lambda>r. sr_id r = pg_syncRunId i \<and> sr_state r = S_RUNNING \<and> sr_workspaceId r = ws) (mt_runs t) of
          None \<Rightarrow> Inl (mediaError ''SYNC_RUN_NOT_ACTIVE'' 409)
        | Some run \<Rightarrow>
            let existing = map (\<lambda>p. (po_providerMediaId p, po_id p)) (filter (\<lambda>p. po_instagramAccountId p = sr_instagramAccountId run \<and>
                  po_providerMediaId p \<in> nm_providerMediaId ` set (pg_media i)) (mt_posts t))
            in case commit_items ws i run existing (pg_media i) newIds 0 (0, 0) (mt_posts t) of
                Inl e \<Rightarrow> Inl e
              | Inr ((imported, updated), posts) \<Rightarrow>
                  if pg_cursor i = Some [] then Inl (Exn_other ''sync_runs_cursor_not_empty'')
                  else let P = (\<lambda>r. sr_id r = sr_id run \<and> sr_state r = S_RUNNING \<and> sr_workspaceId r = ws) in
                    if count_many P (mt_runs t) \<noteq> 1 then Inl (mediaError ''SYNC_RUN_NOT_ACTIVE'' 409)
                    else Inr ((imported, updated), t\<lparr>mt_posts := posts,
                      mt_runs := update_many P (advance_data i imported updated) (mt_runs t)\<rparr>))"

definition completeInstagramSyncRun :: "string \<Rightarrow> string \<Rightarrow> time \<Rightarrow> media_tables \<Rightarrow> exn + media_tables" where
  "completeInstagramSyncRun ws syncRunId completedAt t =
     (let P = (\<lambda>r. sr_id r = syncRunId \<and> sr_state r = S_RUNNING \<and> sr_workspaceId r = ws);
          rows = update_many P (\<lambda>r. r\<lparr>sr_checkpointAt := Some completedAt, sr_completedAt := Some completedAt, sr_failureClass := None,
            sr_failureCode := None, sr_stage := ''completed'', sr_state := S_SUCCEEDED\<rparr>) (mt_runs t)
      in if count_many P (mt_runs t) \<noteq> 1 then Inl (mediaError ''SYNC_RUN_NOT_ACTIVE'' 409)
         else case find (\<lambda>r. sr_id r = syncRunId \<and> sr_workspaceId r = ws) rows of
             None \<Rightarrow> Inl (mediaError ''SYNC_RUN_NOT_FOUND'' 404)
           | Some run \<Rightarrow> Inr (t\<lparr>mt_runs := rows,
               mt_accounts := update_many (\<lambda>a. ac_id a = sr_instagramAccountId run \<and> ac_workspaceId a = ws)
                 (\<lambda>a. a\<lparr>ac_lastSuccessfulSyncAt := Some completedAt\<rparr>) (mt_accounts t)\<rparr>))"

definition safe_failure_class :: "string \<Rightarrow> bool" where
  "safe_failure_class = head_tail is_upper (\<lambda>c. is_upper c \<or> is_digit c \<or> c = CHR ''_'') 31"

definition failInstagramSyncRun :: "string \<Rightarrow> string \<Rightarrow> time \<Rightarrow> string \<Rightarrow> string \<Rightarrow> media_tables \<Rightarrow> exn + media_tables" where
  "failInstagramSyncRun ws syncRunId failedAt failureClass failureCode t =
     (if \<not> safe_failure_class failureClass then Inl (mediaError ''SYNC_RUN_FAILURE_CLASS_INVALID'' 400)
      else if \<not> safe_code failureCode then Inl (mediaError ''SYNC_RUN_FAILURE_CODE_INVALID'' 400)
      else Inr (t\<lparr>mt_runs := update_many (\<lambda>r. sr_id r = syncRunId \<and> sr_state r = S_RUNNING \<and> sr_workspaceId r = ws)
        (\<lambda>r. r\<lparr>sr_completedAt := Some failedAt, sr_failureClass := Some failureClass, sr_failureCode := Some failureCode,
           sr_stage := ''failed'', sr_state := S_FAILED\<rparr>) (mt_runs t)\<rparr>))"

definition instagramSyncRunSucceededForJob :: "string \<Rightarrow> string \<Rightarrow> media_tables \<Rightarrow> bool" where
  "instagramSyncRunSucceededForJob ws backgroundJobId t \<longleftrightarrow>
     find (\<lambda>r. sr_backgroundJobId r = Some backgroundJobId \<and> sr_state r = S_SUCCEEDED \<and> sr_workspaceId r = ws) (mt_runs t) \<noteq> None"

definition findInstagramPostByProviderMediaId :: "string \<Rightarrow> string \<Rightarrow> string \<Rightarrow> media_tables \<Rightarrow> post option" where
  "findInstagramPostByProviderMediaId ws instagramAccountId providerMediaId t =
     find (\<lambda>p. po_instagramAccountId p = instagramAccountId \<and> po_providerMediaId p = providerMediaId \<and> po_workspaceId p = ws) (mt_posts t)"

definition listInstagramPosts :: "string \<Rightarrow> string \<Rightarrow> int option \<Rightarrow> media_tables \<Rightarrow> post list" where
  "listInstagramPosts ws instagramAccountId takeRows t =
     take (nat (min (max (coalesce takeRows 50) 1) 200)) (rev (sort_key po_publishedAt
       (filter (\<lambda>p. po_instagramAccountId p = instagramAccountId \<and> po_workspaceId p = ws) (mt_posts t))))"

section \<open>The handler\<close>

text \<open>What ends the paging: an \<open>InstagramMediaError\<close>, or any other exception.\<close>

datatype sync_failure = Sync_media insights_error | Sync_exn exn

definition toJobFailure :: "sync_failure \<Rightarrow> exn" where
  "toJobFailure e = (case e of
       Sync_media err \<Rightarrow> response_failure err
     | Sync_exn (Exn_handler f) \<Rightarrow> Exn_handler f
     | Sync_exn x \<Rightarrow> (if (case x of Exn_operational op \<Rightarrow> oe_retryable op | _ \<Rightarrow> False)
         then handler_failure DATABASE ''SYNC_DATABASE_UNAVAILABLE'' None
         else Exn_handler (JobHandlerFailure (classifyJobHandlerError x))))"

fun failure_class_text :: "failure_class \<Rightarrow> string" where
  "failure_class_text TRANSIENT = ''TRANSIENT''" | "failure_class_text RATE_LIMIT = ''RATE_LIMIT''"
| "failure_class_text CREDENTIAL = ''CREDENTIAL''" | "failure_class_text INVALID_INPUT = ''INVALID_INPUT''"
| "failure_class_text SEMANTIC_OUTPUT = ''SEMANTIC_OUTPUT''" | "failure_class_text DATABASE = ''DATABASE''"
| "failure_class_text UNKNOWN = ''UNKNOWN''"

text \<open>
  What a run of the handler meets: the provider's answers, the interruptions by the engine (a
  cancellation, a lost lease, the end of the process) when the account is loaded and before the two stages of a
  page, the clock and the
  identifiers it creates.
\<close>

record sync_env =
  se_platform :: platform
  se_fetch :: "string option \<Rightarrow> insights_reply"
  se_loading :: "exn option"
  se_interrupt :: "nat \<Rightarrow> exn option"
  se_now :: "nat \<Rightarrow> time"
  se_newIds :: "nat \<Rightarrow> nat \<Rightarrow> string"

text \<open>The items to store, the numbers of invalid and of skipped ones, and whether the horizon was reached.\<close>

fun read_items :: "platform \<Rightarrow> time option \<Rightarrow> js_num js_value list \<Rightarrow> media list \<times> int \<times> int \<times> bool" where
  "read_items pf horizonStart [] = ([], 0, 0, False)"
| "read_items pf horizonStart (item # items) =
     (case read_items pf horizonStart items of (media, invalidCount, skippedCount, reachedHorizon) \<Rightarrow>
       (case normaliseInstagramMediaItem pf item of
          Inl _ \<Rightarrow> (media, invalidCount + 1, skippedCount, reachedHorizon)
        | Inr m \<Rightarrow> if (case horizonStart of None \<Rightarrow> False | Some h \<Rightarrow> nm_publishedAt m < h) then (media, invalidCount, skippedCount + 1, True)
            else (m # media, invalidCount, skippedCount, reachedHorizon)))"

definition page_commit :: "sync_env \<Rightarrow> string \<Rightarrow> nat \<Rightarrow> string option \<Rightarrow> media_page \<Rightarrow> media list \<Rightarrow> int \<Rightarrow> int \<Rightarrow> page_input" where
  "page_commit env syncRunId k after page media invalidCount skippedCount =
     \<lparr>pg_cursor = (case mp_after page of None \<Rightarrow> after | Some a \<Rightarrow> Some a), pg_importedAt = se_now env k, pg_invalidCount = invalidCount,
      pg_media = media, pg_rawApiVersion = instagramApiVersion, pg_skippedCount = skippedCount, pg_stage = ''page_committed'', pg_syncRunId = syncRunId\<rparr>"

fun page_loop :: "sync_env \<Rightarrow> string \<Rightarrow> string \<Rightarrow> string \<Rightarrow> time option \<Rightarrow> nat \<Rightarrow> nat \<Rightarrow> string option \<Rightarrow> media_tables \<Rightarrow>
    (sync_failure + unit) \<times> media_tables" where
  "page_loop env ws providerAccountId syncRunId horizonStart 0 k after t =
     (Inl (Sync_exn (handler_failure TRANSIENT ''SYNC_PAGE_LIMIT_REACHED'' None)), t)"
| "page_loop env ws providerAccountId syncRunId horizonStart (Suc n) k after t =
     (case se_interrupt env (2 * k) of Some e \<Rightarrow> (Inl (Sync_exn e), t)
      | None \<Rightarrow>
          (case fetchInstagramMediaPage (se_fetch env) providerAccountId after of Inl e \<Rightarrow> (Inl (Sync_media e), t)
           | Inr page \<Rightarrow>
               (case read_items (se_platform env) horizonStart (mp_items page) of (media, invalidCount, skippedCount, reachedHorizon) \<Rightarrow>
                 (case se_interrupt env (2 * k + 1) of Some e \<Rightarrow> (Inl (Sync_exn e), t)
                  | None \<Rightarrow>
                      (case commitInstagramMediaPage ws (page_commit env syncRunId k after page media invalidCount skippedCount) (se_newIds env k) t of
                         Inl e \<Rightarrow> (Inl (Sync_exn e), t)
                       | Inr (_, t') \<Rightarrow>
                           if \<not> mp_hasNextPage page \<or> reachedHorizon then (Inr (), t')
                           else page_loop env ws providerAccountId syncRunId horizonStart n (k + 1) (mp_after page) t')))))"

definition pageAccountMedia :: "sync_env \<Rightarrow> string \<Rightarrow> string \<Rightarrow> string \<Rightarrow> time option \<Rightarrow> media_tables \<Rightarrow> (sync_failure + unit) \<times> media_tables" where
  "pageAccountMedia env ws providerAccountId syncRunId horizonStart t =
     (let resumed = find (\<lambda>r. sr_id r = syncRunId \<and> sr_workspaceId r = ws) (mt_runs t);
          after = (case resumed of None \<Rightarrow> None | Some r \<Rightarrow> sr_cursor r)
      in page_loop env ws providerAccountId syncRunId horizonStart instagramMaximumSyncPages 0 after t)"

text \<open>The token of the account; a master key that cannot be loaded is not the account's fault.\<close>

definition readAccessToken :: "aead \<Rightarrow> (nat \<Rightarrow> bytes option) option \<Rightarrow> string \<Rightarrow> string \<Rightarrow> credential list \<Rightarrow> exn + bytes" where
  "readAccessToken gcm masterKeys ws accountId credentials =
     (case find (\<lambda>c. cr_workspaceId c = ws \<and> cr_accountId c = accountId \<and> cr_integrationType c = INSTAGRAM \<and> cr_status c = CR_ACTIVE) credentials of
        None \<Rightarrow> Inl (handler_failure CREDENTIAL ''SYNC_CREDENTIAL_MISSING'' None)
      | Some c \<Rightarrow> (case masterKeys of None \<Rightarrow> Inl (handler_failure UNKNOWN ''SYNC_ENCRYPTION_UNAVAILABLE'' None)
          | Some keys \<Rightarrow> (case decryptCredential gcm \<lparr>ec_accountId = accountId, ec_integrationType = ''INSTAGRAM'', ec_workspaceId = ws\<rparr> keys (cr_ciphertext c) of
              Inl _ \<Rightarrow> Inl (handler_failure CREDENTIAL ''SYNC_CREDENTIAL_UNREADABLE'' None)
            | Inr token \<Rightarrow> Inr token)))"

record sync_job =
  sj_id :: string
  sj_idempotencyKey :: string
  sj_resourceId :: "string option"
  sj_resourceType :: "string option"

text \<open>The import into an opened run: the commit that completes it, or what the handler raises after closing it.\<close>

definition import_run :: "sync_env \<Rightarrow> string \<Rightarrow> account \<Rightarrow> time \<Rightarrow> sync_run \<Rightarrow> media_tables \<Rightarrow>
    (exn + (time \<Rightarrow> media_tables \<Rightarrow> exn + media_tables)) \<times> media_tables" where
  "import_run env ws account failedAt run t =
     (case pageAccountMedia env ws (ac_providerAccountId account) (sr_id run) (sr_horizonStart run) t of
        (Inr (), t2) \<Rightarrow> (Inr (completeInstagramSyncRun ws (sr_id run)), t2)
      | (Inl e, t2) \<Rightarrow>
          if e = Sync_exn Exn_cancellation then (Inl Exn_cancellation, t2)
          else (case toJobFailure e of
              Exn_handler f \<Rightarrow> (case failInstagramSyncRun ws (sr_id run) failedAt (failure_class_text (jf_errorClass f)) (jf_errorCode f) t2 of
                  Inl x \<Rightarrow> (Inl x, t2)
                | Inr t3 \<Rightarrow> (Inl (Exn_handler f), t3))
            | x \<Rightarrow> (Inl x, t2)))"

definition sync_trigger_of :: "string \<Rightarrow> account \<Rightarrow> sync_trigger" where
  "sync_trigger_of key account = (case instagramSyncTriggerFromKey key of Some tr \<Rightarrow> tr
     | None \<Rightarrow> if ac_lastSuccessfulSyncAt account \<noteq> None then SCHEDULED else BOOTSTRAP)"

definition sync_start_input :: "sync_job \<Rightarrow> string \<Rightarrow> account \<Rightarrow> time \<Rightarrow> start_input" where
  "sync_start_input j correlationId account startedAt =
     \<lparr>ss_apiVersion = instagramApiVersion, ss_backgroundJobId = Some (sj_id j), ss_correlationId = correlationId,
      ss_horizonStart = Some (startedAt - (if ac_lastSuccessfulSyncAt account \<noteq> None then instagramIncrementalOverlapDays
        else instagramBootstrapHorizonDays) * 86400000),
      ss_idempotencyKey = sj_idempotencyKey j, ss_instagramAccountId = ac_id account, ss_requestedByUserId = None, ss_startedAt = startedAt,
      ss_trigger = sync_trigger_of (sj_idempotencyKey j) account\<rparr>"

text \<open>
  \<open>importAccountMedia\<close>.  The correlation is that of the envelope; \<open>token\<close> is what reading the
  access token of an account gave, and the provider answers for it.
\<close>

definition importAccountMedia :: "sync_env \<Rightarrow> string \<Rightarrow> sync_job option \<Rightarrow> string \<Rightarrow> (string \<Rightarrow> exn + bytes) \<Rightarrow> time \<Rightarrow> time \<Rightarrow> string \<Rightarrow> media_tables \<Rightarrow>
    (exn + (time \<Rightarrow> media_tables \<Rightarrow> exn + media_tables)) \<times> media_tables" where
  "importAccountMedia env ws job correlationId token startedAt failedAt newRunId t =
     (if parseCorrelationId (Some correlationId) = None then (Inl (handler_failure INVALID_INPUT ''SYNC_CORRELATION_INVALID'' None), t)
      else case se_loading env of Some e \<Rightarrow> (Inl e, t)
      | None \<Rightarrow>
        (case job of None \<Rightarrow> (Inl (handler_failure INVALID_INPUT ''SYNC_RESOURCE_INVALID'' None), t)
         | Some j \<Rightarrow>
            if sj_resourceId j = None \<or> sj_resourceId j = Some [] \<or> sj_resourceType j \<noteq> Some ''instagram_account''
            then (Inl (handler_failure INVALID_INPUT ''SYNC_RESOURCE_INVALID'' None), t)
            else case find (\<lambda>a. Some (ac_id a) = sj_resourceId j \<and> ac_workspaceId a = ws) (mt_accounts t) of
                None \<Rightarrow> (Inl (handler_failure INVALID_INPUT ''SYNC_ACCOUNT_MISSING'' None), t)
              | Some account \<Rightarrow>
                  if ac_connectionStatus account \<noteq> CS_ACTIVE then (Inl (handler_failure CREDENTIAL ''SYNC_ACCOUNT_NOT_CONNECTED'' None), t)
                  else case token (ac_id account) of Inl e \<Rightarrow> (Inl e, t)
                    | Inr _ \<Rightarrow>
                        (case startInstagramSyncRun ws (sync_start_input j correlationId account startedAt) newRunId t t of
                           (Inl e, t1) \<Rightarrow> (Inl e, t1)
                         | (Inr run, t1) \<Rightarrow> import_run env ws account failedAt run t1)))"

section \<open>The invariant\<close>

definition post_key :: "post \<Rightarrow> string \<times> string" where
  "post_key p = (po_instagramAccountId p, po_providerMediaId p)"

definition counted :: "sync_run \<Rightarrow> bool" where
  "counted r \<longleftrightarrow> sr_itemsSeen r = sr_itemsImported r + sr_itemsUpdated r + sr_itemsSkipped r + sr_itemsInvalid r \<and>
     0 \<le> sr_itemsImported r \<and> 0 \<le> sr_itemsUpdated r \<and> 0 \<le> sr_itemsSkipped r \<and> 0 \<le> sr_itemsInvalid r \<and> 0 \<le> sr_pagesCompleted r \<and>
     (sr_completedAt r = None \<longleftrightarrow> sr_state r = S_RUNNING) \<and> (sr_failureCode r \<noteq> None \<longleftrightarrow> sr_state r = S_FAILED)"

definition media_ok :: "media_tables \<Rightarrow> bool" where
  "media_ok t \<longleftrightarrow> distinct (map sr_id (mt_runs t)) \<and> distinct (map run_key (mt_runs t)) \<and> one_running (mt_runs t) \<and>
     (\<forall>r \<in> set (mt_runs t). counted r) \<and> distinct (map po_id (mt_posts t)) \<and> distinct (map post_key (mt_posts t)) \<and>
     (\<forall>p \<in> set (mt_posts t). po_firstImportedAt p \<le> po_lastImportedAt p)"

text \<open>Posts stay, with their identity and the time of their first import.\<close>

definition same_post :: "post \<Rightarrow> post \<Rightarrow> bool" where
  "same_post p q \<longleftrightarrow> po_id p = po_id q \<and> po_workspaceId p = po_workspaceId q \<and> post_key p = post_key q \<and> po_firstImportedAt p = po_firstImportedAt q"

definition posts_kept :: "post list \<Rightarrow> post list \<Rightarrow> bool" where
  "posts_kept ps qs \<longleftrightarrow> (\<forall>p \<in> set ps. \<exists>q \<in> set qs. same_post p q)"

definition posts_ok :: "post list \<Rightarrow> bool" where
  "posts_ok ps \<longleftrightarrow> distinct (map po_id ps) \<and> distinct (map post_key ps) \<and> (\<forall>p \<in> set ps. po_firstImportedAt p \<le> po_lastImportedAt p)"

lemma posts_kept_refl [simp]: "posts_kept ps ps"
  by (auto simp: posts_kept_def same_post_def)

lemma posts_kept_trans: "posts_kept ps qs \<Longrightarrow> posts_kept qs rs \<Longrightarrow> posts_kept ps rs"
  unfolding posts_kept_def same_post_def by metis

lemma shared_data_simps [simp]:
  "po_id (shared_data i r m p) = po_id p" "po_workspaceId (shared_data i r m p) = po_workspaceId p" "post_key (shared_data i r m p) = post_key p"
  "po_firstImportedAt (shared_data i r m p) = po_firstImportedAt p" "po_lastImportedAt (shared_data i r m p) = pg_importedAt i"
  "po_instagramAccountId (shared_data i r m p) = po_instagramAccountId p" "po_providerMediaId (shared_data i r m p) = po_providerMediaId p"
  by (simp_all add: shared_data_def post_key_def)

lemma new_post_simps [simp]:
  "po_id (new_post ws i run m k) = k" "po_workspaceId (new_post ws i run m k) = ws" "post_key (new_post ws i run m k) = (sr_instagramAccountId run, nm_providerMediaId m)"
  "po_firstImportedAt (new_post ws i run m k) = pg_importedAt i" "po_lastImportedAt (new_post ws i run m k) = pg_importedAt i"
  "po_instagramAccountId (new_post ws i run m k) = sr_instagramAccountId run" "po_providerMediaId (new_post ws i run m k) = nm_providerMediaId m"
  by (simp_all add: new_post_def) (simp add: post_key_def)

definition item_stored :: "string \<Rightarrow> string \<Rightarrow> post list \<Rightarrow> bool" where
  "item_stored account providerMediaId ps \<longleftrightarrow> (account, providerMediaId) \<in> post_key ` set ps"

lemma item_stored_kept: "item_stored a m ps \<Longrightarrow> posts_kept ps qs \<Longrightarrow> item_stored a m qs"
  unfolding item_stored_def posts_kept_def same_post_def by force

lemma commit_items_step:
  assumes "posts_kept posts mid" "item_stored acc (nm_providerMediaId item) mid"
    "posts_ok posts' \<and> posts_kept mid posts' \<and> a' + b' = a + b + int (length items) \<and> a \<le> a' \<and> b \<le> b' \<and>
      (\<forall>m \<in> set items. item_stored acc (nm_providerMediaId m) posts')"
    "a + b = 1 + (imported + updated)" "imported \<le> a" "updated \<le> b"
  shows "posts_ok posts' \<and> posts_kept posts posts' \<and> a' + b' = imported + updated + int (length (item # items)) \<and> imported \<le> a' \<and> updated \<le> b' \<and>
    (\<forall>m \<in> set (item # items). item_stored acc (nm_providerMediaId m) posts')"
proof -
  have mid: "posts_kept mid posts'" using assms(3) by simp
  have "item_stored acc (nm_providerMediaId item) posts'" using item_stored_kept [OF assms(2) mid] .
  moreover have "posts_kept posts posts'" using posts_kept_trans [OF assms(1) mid] .
  ultimately show ?thesis using assms(3-6) by simp
qed

lemma commit_items_ok:
  assumes "commit_items ws i run existing items newIds k (a, b) posts = Inr ((a', b'), posts')" "posts_ok posts"
    "\<forall>(m, pid) \<in> set existing. \<exists>p \<in> set posts. po_id p = pid \<and> post_key p = (sr_instagramAccountId run, m)"
  shows "posts_ok posts' \<and> posts_kept posts posts' \<and> a' + b' = a + b + int (length items) \<and> a \<le> a' \<and> b \<le> b' \<and>
    (\<forall>m \<in> set items. item_stored (sr_instagramAccountId run) (nm_providerMediaId m) posts')"
  using assms
proof (induction ws i run existing items newIds k "(a, b)" posts arbitrary: a b rule: commit_items.induct)
  case (2 ws i run existing item items newIds k imported updated posts)
  let ?acc = "sr_instagramAccountId run"
  show ?case
  proof (cases "map_of existing (nm_providerMediaId item)")
    case None
    let ?posts = "posts @ [new_post ws i run item (newIds k)]"
    have free: "\<not> (\<exists>p \<in> set posts. po_id p = newIds k \<or> (po_instagramAccountId p = ?acc \<and> po_providerMediaId p = nm_providerMediaId item))"
      and rest: "commit_items ws i run existing items newIds (k + 1) (imported + 1, updated) ?posts = Inr ((a', b'), posts')"
      using "2.prems"(1) None by (auto split: if_splits)
    have ok: "posts_ok ?posts" using free "2.prems"(2) by (auto simp: posts_ok_def post_key_def)
    have ex: "\<forall>(m, pid) \<in> set existing. \<exists>p \<in> set ?posts. po_id p = pid \<and> post_key p = (?acc, m)" using "2.prems"(3) by fastforce
    note IH = "2.hyps"(1) [OF None free rest ok ex]
    have "posts_kept posts ?posts" by (auto simp: posts_kept_def same_post_def)
    moreover have "item_stored ?acc (nm_providerMediaId item) ?posts" by (simp add: item_stored_def)
    ultimately show ?thesis by (rule commit_items_step [OF _ _ IH]) simp_all
  next
    case (Some pid)
    let ?posts = "update_many (\<lambda>p. po_id p = pid) (shared_data i (sr_id run) item) posts"
    have late: "\<not> (\<exists>p \<in> set posts. po_id p = pid \<and> pg_importedAt i < po_firstImportedAt p)"
      and rest: "commit_items ws i run existing items newIds (k + 1) (imported, updated + 1) ?posts = Inr ((a', b'), posts')"
      using "2.prems"(1) Some by (auto split: if_splits)
    have keys: "map po_id ?posts = map po_id posts" "map post_key ?posts = map post_key posts" by (simp_all add: update_many_def)
    have ok: "posts_ok ?posts" using late "2.prems"(2) unfolding posts_ok_def keys by (auto simp: set_update_many not_less)
    have kept: "posts_kept posts ?posts"
      unfolding posts_kept_def
    proof
      fix p assume "p \<in> set posts"
      then have "(if po_id p = pid then shared_data i (sr_id run) item p else p) \<in> set ?posts" by (auto simp: set_update_many)
      then show "\<exists>q \<in> set ?posts. same_post p q" by (rule bexI [rotated]) (simp add: same_post_def)
    qed
    have ex: "\<forall>(m, pid) \<in> set existing. \<exists>p \<in> set ?posts. po_id p = pid \<and> post_key p = (?acc, m)"
    proof clarify
      fix m q assume "(m, q) \<in> set existing"
      then obtain p where "p \<in> set posts" "po_id p = q" "post_key p = (?acc, m)" using bspec [OF "2.prems"(3)] by fastforce
      then show "\<exists>p \<in> set ?posts. po_id p = q \<and> post_key p = (?acc, m)" using kept unfolding posts_kept_def same_post_def by metis
    qed
    note IH = "2.hyps"(2) [OF Some late rest ok ex]
    have "(nm_providerMediaId item, pid) \<in> set existing" using map_of_SomeD [OF Some] .
    then have "item_stored ?acc (nm_providerMediaId item) ?posts" using ex by (force simp: item_stored_def)
    then show ?thesis by (rule commit_items_step [OF kept _ IH]) simp_all
  qed
qed simp

lemma run_update:
  assumes "media_ok t" "\<And>r. sr_id (f r) = sr_id r \<and> run_key (f r) = run_key r" "\<And>r. sr_state (f r) = S_RUNNING \<Longrightarrow> P r \<Longrightarrow> sr_state r = S_RUNNING"
    "\<And>r. counted r \<Longrightarrow> P r \<Longrightarrow> counted (f r)" "posts_ok posts"
  shows "media_ok (t\<lparr>mt_posts := posts, mt_runs := update_many P f (mt_runs t), mt_accounts := accounts\<rparr>)"
proof -
  have keys: "map sr_id (update_many P f (mt_runs t)) = map sr_id (mt_runs t)" "map run_key (update_many P f (mt_runs t)) = map run_key (mt_runs t)"
    using assms(2) by (simp_all add: update_many_def)
  have "run_slot (f r) = run_slot r" for r using assms(2) by (simp add: run_slot_def run_key_def)
  then have "one_running (update_many P f (mt_runs t))"
    using assms(1,3) unfolding one_running_def media_ok_def by (intro distinct_filter_update) auto
  moreover have "\<forall>r \<in> set (update_many P f (mt_runs t)). counted r" using assms(1,4) by (auto simp: set_update_many media_ok_def)
  ultimately show ?thesis using assms(1,5) unfolding media_ok_def posts_ok_def by (simp add: keys)
qed

lemma tables_same [simp]: "t\<lparr>mt_posts := mt_posts t, mt_accounts := mt_accounts t\<rparr> = t" "t\<lparr>mt_accounts := mt_accounts t\<rparr> = t" "t\<lparr>mt_posts := mt_posts t\<rparr> = t"
  by simp_all

lemma media_posts_ok: "media_ok t \<Longrightarrow> posts_ok (mt_posts t)"
  by (simp add: media_ok_def posts_ok_def)

lemma opened_run_ok:
  assumes "startInstagramSyncRun ws i newId seen t = (res, t')" "media_ok t"
  shows "media_ok t' \<and> mt_posts t' = mt_posts t \<and> (\<forall>r \<in> set (mt_runs t). sr_state r = S_SUCCEEDED \<longrightarrow> r \<in> set (mt_runs t'))"
proof -
  consider "t' = t"
    | existing where "write_runs (update_many (\<lambda>r. sr_id r = sr_id existing \<and> sr_state r = S_FAILED \<and> sr_workspaceId r = ws) (reopen_data i existing) (mt_runs t)) t = Inr t'"
    | "write_runs (mt_runs t @ [new_run ws i newId]) t = Inr t'"
    using assms(1) by (auto simp: startInstagramSyncRun_def Let_def split: if_splits option.splits sum.splits)
  then show ?thesis
  proof cases
    case (2 existing)
    let ?P = "\<lambda>r. sr_id r = sr_id existing \<and> sr_state r = S_FAILED \<and> sr_workspaceId r = ws"
    have "counted (reopen_data i existing r)" if "counted r" for r using that by (simp add: counted_def reopen_data_def)
    then have "\<forall>r \<in> set (update_many ?P (reopen_data i existing) (mt_runs t)). counted r" using assms(2) by (auto simp: set_update_many media_ok_def)
    moreover have "r \<in> set (update_many ?P (reopen_data i existing) (mt_runs t))" if "r \<in> set (mt_runs t)" "sr_state r = S_SUCCEEDED" for r
      using that by (intro update_many_untouched) simp_all
    ultimately show ?thesis using 2 assms(2) by (auto simp: write_runs_def media_ok_def split: if_splits)
  next
    case 3
    have "counted (new_run ws i newId)" by (simp add: counted_def new_run_def)
    with 3 assms(2) show ?thesis by (auto simp: write_runs_def media_ok_def split: if_splits)
  qed (use assms(2) in auto)
qed

lemma page_ok:
  assumes "commitInstagramMediaPage ws i newIds t = Inr (n, t')" "media_ok t"
  obtains run a b where "find (\<lambda>r. sr_id r = pg_syncRunId i \<and> sr_state r = S_RUNNING \<and> sr_workspaceId r = ws) (mt_runs t) = Some run"
    "mt_runs t' = update_many (\<lambda>r. sr_id r = sr_id run \<and> sr_state r = S_RUNNING \<and> sr_workspaceId r = ws) (advance_data i a b) (mt_runs t)"
    "media_ok t'" "posts_kept (mt_posts t) (mt_posts t')" "mt_accounts t' = mt_accounts t"
    "\<forall>m \<in> set (pg_media i). item_stored (sr_instagramAccountId run) (nm_providerMediaId m) (mt_posts t')"
proof -
  obtain run where run: "find (\<lambda>r. sr_id r = pg_syncRunId i \<and> sr_state r = S_RUNNING \<and> sr_workspaceId r = ws) (mt_runs t) = Some run"
    using assms(1) by (auto simp: commitInstagramMediaPage_def split: if_splits option.splits)
  let ?P = "\<lambda>r. sr_id r = sr_id run \<and> sr_state r = S_RUNNING \<and> sr_workspaceId r = ws"
  define existing where "existing = map (\<lambda>p. (po_providerMediaId p, po_id p)) (filter (\<lambda>p. po_instagramAccountId p = sr_instagramAccountId run \<and>
    po_providerMediaId p \<in> nm_providerMediaId ` set (pg_media i)) (mt_posts t))"
  obtain a b posts where items: "commit_items ws i run existing (pg_media i) newIds 0 (0, 0) (mt_posts t) = Inr ((a, b), posts)"
    and t': "t' = t\<lparr>mt_posts := posts, mt_runs := update_many ?P (advance_data i a b) (mt_runs t)\<rparr>"
    and counts: "safe_count (pg_invalidCount i)" "safe_count (pg_skippedCount i)"
    using assms(1) run by (auto simp: commitInstagramMediaPage_def existing_def Let_def split: if_splits sum.splits)
  have "\<forall>(m, pid) \<in> set existing. \<exists>p \<in> set (mt_posts t). po_id p = pid \<and> post_key p = (sr_instagramAccountId run, m)"
    by (auto simp: existing_def post_key_def)
  note ok = commit_items_ok [OF items media_posts_ok [OF assms(2)] this]
  have "counted (advance_data i a b r)" if "counted r" for r
    using that ok counts by (auto simp: counted_def advance_data_def safe_count_def)
  then have "media_ok (t\<lparr>mt_posts := posts, mt_runs := update_many ?P (advance_data i a b) (mt_runs t), mt_accounts := mt_accounts t\<rparr>)"
    using ok by (intro run_update [OF assms(2)]) (auto simp: advance_data_def run_key_def)
  then show thesis using that [OF run, of a b] ok by (simp add: t')
qed

lemma complete_ok:
  assumes "completeInstagramSyncRun ws syncRunId completedAt t = Inr t'" "media_ok t"
  shows "media_ok t' \<and> mt_posts t' = mt_posts t \<and> (\<forall>r \<in> set (mt_runs t). sr_state r = S_SUCCEEDED \<longrightarrow> r \<in> set (mt_runs t'))"
proof -
  let ?P = "\<lambda>r. sr_id r = syncRunId \<and> sr_state r = S_RUNNING \<and> sr_workspaceId r = ws"
  let ?f = "\<lambda>r. r\<lparr>sr_checkpointAt := Some completedAt, sr_completedAt := Some completedAt, sr_failureClass := None, sr_failureCode := None,
    sr_stage := ''completed'', sr_state := S_SUCCEEDED\<rparr>"
  obtain accounts where t': "t' = t\<lparr>mt_posts := mt_posts t, mt_runs := update_many ?P ?f (mt_runs t), mt_accounts := accounts\<rparr>"
    using assms(1) by (auto simp: completeInstagramSyncRun_def Let_def split: if_splits option.splits)
  have "media_ok t'" unfolding t' by (rule run_update [OF assms(2)]) (auto simp: run_key_def counted_def media_posts_ok [OF assms(2)])
  then show ?thesis by (auto simp: t' intro!: update_many_untouched)
qed

lemma fail_ok:
  assumes "failInstagramSyncRun ws syncRunId failedAt c d t = Inr t'" "media_ok t"
  shows "media_ok t' \<and> mt_posts t' = mt_posts t \<and> (\<forall>r \<in> set (mt_runs t). sr_state r = S_SUCCEEDED \<longrightarrow> r \<in> set (mt_runs t'))"
proof -
  let ?P = "\<lambda>r. sr_id r = syncRunId \<and> sr_state r = S_RUNNING \<and> sr_workspaceId r = ws"
  let ?f = "\<lambda>r. r\<lparr>sr_completedAt := Some failedAt, sr_failureClass := Some c, sr_failureCode := Some d, sr_stage := ''failed'', sr_state := S_FAILED\<rparr>"
  have t': "t' = t\<lparr>mt_posts := mt_posts t, mt_runs := update_many ?P ?f (mt_runs t), mt_accounts := mt_accounts t\<rparr>"
    using assms(1) by (auto simp: failInstagramSyncRun_def split: if_splits)
  have "media_ok t'" unfolding t' by (rule run_update [OF assms(2)]) (auto simp: run_key_def counted_def media_posts_ok [OF assms(2)])
  then show ?thesis by (auto simp: t' intro!: update_many_untouched)
qed

section \<open>Every state\<close>

text \<open>The operations by any number of workers, in any order, on any arguments; other code writes accounts.\<close>

inductive sync_step :: "media_tables \<Rightarrow> media_tables \<Rightarrow> bool" where
  start: "startInstagramSyncRun ws i newId seen t = (res, t') \<Longrightarrow> sync_step t t'"
| page: "commitInstagramMediaPage ws pg newIds t = Inr (n, t') \<Longrightarrow> sync_step t t'"
| complete: "completeInstagramSyncRun ws syncRunId completedAt t = Inr t' \<Longrightarrow> sync_step t t'"
| fail: "failInstagramSyncRun ws syncRunId failedAt failureClass failureCode t = Inr t' \<Longrightarrow> sync_step t t'"
| accounts: "sync_step t (t\<lparr>mt_accounts := accounts\<rparr>)"

inductive_cases sync_stepE: "sync_step t t'"

lemma sync_step_ok:
  assumes "sync_step t t'" "media_ok t"
  shows "media_ok t' \<and> posts_kept (mt_posts t) (mt_posts t') \<and> (\<forall>r \<in> set (mt_runs t). sr_state r = S_SUCCEEDED \<longrightarrow> r \<in> set (mt_runs t'))"
  using assms
proof (induction rule: sync_step.induct)
  case (page ws pg newIds t n t')
  show ?case
    by (rule page_ok [OF page.hyps page.prems]) (auto intro!: update_many_untouched)
next
  case (start ws i newId seen t res t')
  then show ?case using opened_run_ok by (metis posts_kept_refl)
next
  case (complete ws syncRunId completedAt t t')
  then show ?case using complete_ok by (metis posts_kept_refl)
next
  case (fail ws syncRunId failedAt failureClass failureCode t t')
  then show ?case using fail_ok by (metis posts_kept_refl)
qed (auto simp: media_ok_def)

lemma sync_steps_ok:
  assumes "sync_step\<^sup>*\<^sup>* t t'" "media_ok t"
  shows "media_ok t' \<and> posts_kept (mt_posts t) (mt_posts t') \<and> (\<forall>r \<in> set (mt_runs t). sr_state r = S_SUCCEEDED \<longrightarrow> r \<in> set (mt_runs t'))"
  using assms
proof (induction rule: rtranclp_induct)
  case (step u v)
  then have u: "media_ok u" "posts_kept (mt_posts t) (mt_posts u)" "\<forall>r \<in> set (mt_runs t). sr_state r = S_SUCCEEDED \<longrightarrow> r \<in> set (mt_runs u)" by simp_all
  from sync_step_ok [OF step.hyps(2) u(1)] u(2,3) posts_kept_trans show ?case by blast
qed simp

section \<open>Nothing is skipped\<close>

text \<open>
  The pages from the first to a cursor, each asked for with the cursor the one before it gave; what
  the provider answers may differ from one attempt to the next.
\<close>

definition asked :: "(string option \<Rightarrow> insights_reply) set \<Rightarrow> string \<Rightarrow> string option \<Rightarrow> media_page \<Rightarrow> bool" where
  "asked fetches providerAccountId c p \<longleftrightarrow> (\<exists>fetch \<in> fetches. fetchInstagramMediaPage fetch providerAccountId c = Inr p)"

inductive trail :: "(string option \<Rightarrow> media_page \<Rightarrow> bool) \<Rightarrow> media_page list \<Rightarrow> string option \<Rightarrow> bool" for get where
  first: "trail get [] None"
| further: "trail get ps c \<Longrightarrow> get c p \<Longrightarrow> mp_after p = Some d \<Longrightarrow> trail get (ps @ [p]) (Some d)"

definition wanted :: "platform \<Rightarrow> time option \<Rightarrow> media_page \<Rightarrow> string list" where
  "wanted pf horizonStart page = map nm_providerMediaId (fst (read_items pf horizonStart (mp_items page)))"

definition covered :: "platform \<Rightarrow> time option \<Rightarrow> string \<Rightarrow> media_page list \<Rightarrow> post list \<Rightarrow> bool" where
  "covered pf horizonStart account pages posts \<longleftrightarrow> (\<forall>page \<in> set pages. \<forall>m \<in> set (wanted pf horizonStart page). item_stored account m posts)"

lemma covered_kept: "covered pf h a ps posts \<Longrightarrow> posts_kept posts posts' \<Longrightarrow> covered pf h a ps posts'"
  unfolding covered_def using item_stored_kept by blast

text \<open>Everything before the cursor of the run of a key has been stored.\<close>

definition checkpointed :: "platform \<Rightarrow> (string option \<Rightarrow> media_page \<Rightarrow> bool) \<Rightarrow> string \<times> string \<times> sync_trigger \<times> string \<Rightarrow> media_tables \<Rightarrow> bool" where
  "checkpointed pf get key t \<longleftrightarrow> (\<forall>r \<in> set (mt_runs t). run_key r = key \<longrightarrow>
     (\<exists>ps. trail get ps (sr_cursor r) \<and> covered pf (sr_horizonStart r) (sr_instagramAccountId r) ps (mt_posts t)))"

text \<open>The end of the trail: the page without a successor, or the one that reaches the horizon.\<close>

definition imported_all :: "platform \<Rightarrow> (string option \<Rightarrow> media_page \<Rightarrow> bool) \<Rightarrow> sync_run \<Rightarrow> post list \<Rightarrow> bool" where
  "imported_all pf get run posts \<longleftrightarrow> (\<exists>ps c p. trail get ps c \<and> get c p \<and>
     (\<not> mp_hasNextPage p \<or> snd (snd (snd (read_items pf (sr_horizonStart run) (mp_items p))))) \<and>
     covered pf (sr_horizonStart run) (sr_instagramAccountId run) (ps @ [p]) posts)"

lemma fetched_cursor: "fetchInstagramMediaPage fetch a c = Inr p \<Longrightarrow> mp_hasNextPage p \<Longrightarrow> \<exists>d. mp_after p = Some d"
  by (auto simp: fetchInstagramMediaPage_def Let_def split: if_splits insights_reply.splits option.splits)

lemma run_unique: "media_ok t \<Longrightarrow> r \<in> set (mt_runs t) \<Longrightarrow> s \<in> set (mt_runs t) \<Longrightarrow> sr_id r = sr_id s \<or> run_key r = run_key s \<Longrightarrow> r = s"
  using distinct_map_inj [of sr_id "mt_runs t" r s] distinct_map_inj [of run_key "mt_runs t" r s] by (auto simp: media_ok_def)

lemma advance_simps [simp]:
  "sr_id (advance_data i a b r) = sr_id r" "run_key (advance_data i a b r) = run_key r" "sr_cursor (advance_data i a b r) = pg_cursor i"
  "sr_horizonStart (advance_data i a b r) = sr_horizonStart r" "sr_instagramAccountId (advance_data i a b r) = sr_instagramAccountId r"
  "sr_state (advance_data i a b r) = sr_state r" "sr_workspaceId (advance_data i a b r) = sr_workspaceId r"
  by (simp_all add: advance_data_def run_key_def)

lemma page_run:
  assumes "commitInstagramMediaPage ws i newIds t = Inr (n, t')" "media_ok t" "run \<in> set (mt_runs t)" "sr_id run = pg_syncRunId i"
  shows "\<exists>a b. advance_data i a b run \<in> set (mt_runs t') \<and> media_ok t' \<and> posts_kept (mt_posts t) (mt_posts t') \<and> mt_accounts t' = mt_accounts t \<and>
    sr_state run = S_RUNNING \<and> (\<forall>m \<in> set (pg_media i). item_stored (sr_instagramAccountId run) (nm_providerMediaId m) (mt_posts t'))"
proof (rule page_ok [OF assms(1,2)])
  fix run' a b
  assume found: "find (\<lambda>r. sr_id r = pg_syncRunId i \<and> sr_state r = S_RUNNING \<and> sr_workspaceId r = ws) (mt_runs t) = Some run'"
    and runs: "mt_runs t' = update_many (\<lambda>r. sr_id r = sr_id run' \<and> sr_state r = S_RUNNING \<and> sr_workspaceId r = ws) (advance_data i a b) (mt_runs t)"
    and rest: "media_ok t'" "posts_kept (mt_posts t) (mt_posts t')" "mt_accounts t' = mt_accounts t"
      "\<forall>m \<in> set (pg_media i). item_stored (sr_instagramAccountId run') (nm_providerMediaId m) (mt_posts t')"
  have "run' = run" "sr_state run = S_RUNNING" "sr_workspaceId run = ws"
    using find_Some_iff2 [OF found] run_unique [OF assms(2) _ assms(3), of run'] assms(4) by auto
  then show ?thesis using runs rest assms(3) by (auto simp: set_update_many intro!: bexI [of _ run])
qed

text \<open>A visit of the loop stops before the commit, or commits the page and ends or goes on.\<close>

lemma page_loop_step:
  assumes "page_loop env ws acc rid h (Suc n) k after t = (res, t')"
  obtains (stopped) "t' = t" "res \<noteq> Inr ()"
  | (visited) page media invalid skipped reached c u where "fetchInstagramMediaPage (se_fetch env) acc after = Inr page"
      "read_items (se_platform env) h (mp_items page) = (media, invalid, skipped, reached)"
      "commitInstagramMediaPage ws (page_commit env rid k after page media invalid skipped) (se_newIds env k) t = Inr (c, u)"
      "(if \<not> mp_hasNextPage page \<or> reached then (Inr (), u) else page_loop env ws acc rid h n (k + 1) (mp_after page) u) = (res, t')"
  using assms by (auto split: option.splits sum.splits prod.splits simp del: not_not)

lemma page_loop_checkpointed:
  assumes "page_loop env ws acc rid h n k after t = (res, t')" "media_ok t" "checkpointed (se_platform env) (asked fetches acc) (run_key run) t"
    "run \<in> set (mt_runs t)" "sr_id run = rid" "sr_cursor run = after" "sr_horizonStart run = h" "se_fetch env \<in> fetches"
  shows "media_ok t' \<and> checkpointed (se_platform env) (asked fetches acc) (run_key run) t' \<and> mt_accounts t' = mt_accounts t \<and>
    (\<exists>run' \<in> set (mt_runs t'). run_key run' = run_key run \<and> sr_id run' = rid \<and> sr_horizonStart run' = h \<and> sr_state run' = sr_state run \<and>
       (res = Inr () \<longrightarrow> sr_state run' = S_RUNNING \<and> imported_all (se_platform env) (asked fetches acc) run' (mt_posts t')))"
  using assms
proof (induction n arbitrary: k after t run)
  case (Suc n)
  let ?pf = "se_platform env" and ?get = "asked fetches acc"
  from Suc.prems(1) show ?case
  proof (cases rule: page_loop_step)
    case stopped
    then show ?thesis using Suc.prems by auto
  next
    case (visited page media invalid skipped reached c u)
    note items = visited(2) and commit = visited(3) and rest = visited(4)
    let ?i = "page_commit env rid k after page media invalid skipped"
    have page: "?get after page" using visited(1) Suc.prems(8) by (auto simp: asked_def)
    have i: "pg_syncRunId ?i = rid" "pg_media ?i = media" "pg_cursor ?i = (case mp_after page of None \<Rightarrow> after | Some a \<Rightarrow> Some a)"
      by (simp_all add: page_commit_def)
    obtain a b where u: "advance_data ?i a b run \<in> set (mt_runs u)" "media_ok u" "posts_kept (mt_posts t) (mt_posts u)" "mt_accounts u = mt_accounts t"
        "sr_state run = S_RUNNING" "\<forall>m \<in> set media. item_stored (sr_instagramAccountId run) (nm_providerMediaId m) (mt_posts u)"
      using page_run [OF commit Suc.prems(2,4)] Suc.prems(5) unfolding i by auto
    define run' where "run' = advance_data ?i a b run"
    have run': "run_key run' = run_key run" "sr_id run' = rid" "sr_horizonStart run' = h" "sr_state run' = sr_state run" "run' \<in> set (mt_runs u)"
        "sr_instagramAccountId run' = sr_instagramAccountId run" "sr_cursor run' = (case mp_after page of None \<Rightarrow> after | Some a \<Rightarrow> Some a)"
      using u(1) Suc.prems(5,7) by (simp_all add: run'_def i)
    obtain ps where ps: "trail ?get ps after" "covered ?pf h (sr_instagramAccountId run) ps (mt_posts t)"
      using Suc.prems(3,4,6,7) unfolding checkpointed_def by blast
    have new: "covered ?pf h (sr_instagramAccountId run) (ps @ [page]) (mt_posts u)"
      using covered_kept [OF ps(2) u(3)] u(6) by (auto simp: covered_def wanted_def items)
    have point: "checkpointed ?pf ?get (run_key run) u"
      unfolding checkpointed_def
    proof (intro ballI impI)
      fix r assume r: "r \<in> set (mt_runs u)" "run_key r = run_key run"
      then have "r = run'" using run_unique [OF u(2) r(1) run'(5)] run'(1) by simp
      moreover have "\<exists>qs. trail ?get qs (sr_cursor run') \<and> covered ?pf h (sr_instagramAccountId run) qs (mt_posts u)"
      proof (cases "mp_after page")
        case None
        then show ?thesis using ps(1) new run'(7) by (auto simp: covered_def)
      next
        case (Some d)
        then show ?thesis using trail.further [OF ps(1) page Some] new run'(7) by auto
      qed
      ultimately show "\<exists>ps. trail ?get ps (sr_cursor r) \<and> covered ?pf (sr_horizonStart r) (sr_instagramAccountId r) ps (mt_posts u)"
        using run'(3,6) by simp
    qed
    show ?thesis
    proof (cases "\<not> mp_hasNextPage page \<or> reached")
      case True
      then have "res = Inr ()" "t' = u" using rest by simp_all
      moreover have "imported_all ?pf ?get run' (mt_posts u)"
        unfolding imported_all_def run'(3,6) using ps(1) page True new items by (intro exI [of _ ps] exI [of _ after] exI [of _ page]) auto
      ultimately show ?thesis using u(2,4,5) point run' by auto
    next
      case False
      then obtain d where d: "mp_after page = Some d" using fetched_cursor [OF visited(1)] by blast
      have cursor: "sr_cursor run' = mp_after page" using run'(7) d by simp
      have loop: "page_loop env ws acc rid h n (k + 1) (mp_after page) u = (res, t')" using rest False by simp
      from Suc.IH [OF loop u(2) point [folded run'(1)] run'(5,2) cursor run'(3) Suc.prems(8)] show ?thesis
        using u(4) run'(1,4) by auto
    qed
  qed
qed auto

lemma checkpointed_step:
  assumes "checkpointed pf get key t" "posts_kept (mt_posts t) (mt_posts t')"
    "\<And>r. r \<in> set (mt_runs t') \<Longrightarrow> run_key r = key \<Longrightarrow> sr_cursor r = None \<or> (\<exists>s \<in> set (mt_runs t). run_key s = key \<and> sr_cursor s = sr_cursor r \<and>
      sr_horizonStart s = sr_horizonStart r)"
  shows "checkpointed pf get key t'"
  unfolding checkpointed_def
proof (intro ballI impI)
  fix r assume r: "r \<in> set (mt_runs t')" "run_key r = key"
  consider "sr_cursor r = None" | s where "s \<in> set (mt_runs t)" "run_key s = key" "sr_cursor s = sr_cursor r" "sr_horizonStart s = sr_horizonStart r"
    using assms(3) [OF r] by auto
  then show "\<exists>ps. trail get ps (sr_cursor r) \<and> covered pf (sr_horizonStart r) (sr_instagramAccountId r) ps (mt_posts t')"
  proof cases
    case 1
    then show ?thesis using trail.first by (intro exI [of _ "[]"]) (simp add: covered_def)
  next
    case (2 s)
    then have "sr_instagramAccountId s = sr_instagramAccountId r" using r(2) by (auto simp: run_key_def)
    with 2 show ?thesis using assms(1) covered_kept [OF _ assms(2)] unfolding checkpointed_def by metis
  qed
qed

lemma start_checkpointed:
  assumes "startInstagramSyncRun ws i newId t t = (res, t')" "media_ok t"
  shows "media_ok t' \<and> (checkpointed pf get key t \<longrightarrow> checkpointed pf get key t') \<and> mt_accounts t' = mt_accounts t \<and>
    (\<forall>run. res = Inr run \<longrightarrow> run \<in> set (mt_runs t') \<and> run_key run = (ws, ss_instagramAccountId i, ss_trigger i, ss_idempotencyKey i))"
proof -
  note ok = opened_run_ok [OF assms(1,2)]
  let ?key = "(ws, ss_instagramAccountId i, ss_trigger i, ss_idempotencyKey i)" and ?Q = "\<lambda>e r. sr_id r = sr_id e \<and> sr_workspaceId r = ws"
  consider (refused) "t' = t" "\<And>run. res \<noteq> Inr run" | (found) run where "t' = t" "res = Inr run" "find (\<lambda>r. run_key r = ?key) (mt_runs t) = Some run"
    | (reopened) existing where "mt_runs t' = update_many (\<lambda>r. sr_id r = sr_id existing \<and> sr_state r = S_FAILED \<and> sr_workspaceId r = ws) (reopen_data i existing) (mt_runs t)"
        "mt_accounts t' = mt_accounts t" "find (\<lambda>r. run_key r = ?key) (mt_runs t) = Some existing" "\<And>run. res = Inr run \<Longrightarrow> find (?Q existing) (mt_runs t') = Some run"
    | (created) "mt_runs t' = mt_runs t @ [new_run ws i newId]" "mt_accounts t' = mt_accounts t" "res = Inr (new_run ws i newId)"
    using assms(1) by (cases "find (\<lambda>r. run_key r = ?key) (mt_runs t)")
      (auto simp: startInstagramSyncRun_def write_runs_def Let_def split: if_splits option.splits sum.splits)
  then show ?thesis
  proof cases
    case refused
    then show ?thesis using assms(2) by simp
  next
    case (found run)
    then show ?thesis using assms(2) find_Some_iff2 [OF found(3)] by auto
  next
    case reopened
    note existing = find_Some_iff2 [OF reopened(3)]
    have kept: "sr_cursor (reopen_data i existing r) = sr_cursor r" "sr_horizonStart (reopen_data i existing r) = sr_horizonStart r"
        "run_key (reopen_data i existing r) = run_key r" "sr_id (reopen_data i existing r) = sr_id r" for r by (simp_all add: reopen_data_def run_key_def)
    have rows: "\<exists>s \<in> set (mt_runs t). run_key s = run_key r \<and> sr_cursor s = sr_cursor r \<and> sr_horizonStart s = sr_horizonStart r \<and> sr_id s = sr_id r"
      if "r \<in> set (mt_runs t')" for r using that kept unfolding reopened(1) set_update_many by auto
    have "checkpointed pf get key t'" if "checkpointed pf get key t" 
    proof (rule checkpointed_step [OF that])
      fix r assume "r \<in> set (mt_runs t')" "run_key r = key"
      then show "sr_cursor r = None \<or> (\<exists>s \<in> set (mt_runs t). run_key s = key \<and> sr_cursor s = sr_cursor r \<and> sr_horizonStart s = sr_horizonStart r)"
        using rows by metis
    qed (use ok in simp)
    moreover have "run_key run = run_key existing" if "res = Inr run" for run
      using rows [of run] find_Some_iff2 [OF reopened(4) [OF that]] run_unique [OF assms(2) _ conjunct1 [OF existing]] by metis
    moreover have "run \<in> set (mt_runs t')" if "res = Inr run" for run using find_Some_iff2 [OF reopened(4) [OF that]] by simp
    ultimately show ?thesis using ok reopened(2) existing by auto
  next
    case created
    have "checkpointed pf get key t'" if "checkpointed pf get key t" using ok created(1) by (intro checkpointed_step [OF that]) (auto simp: new_run_def)
    then show ?thesis using ok created by (auto simp: new_run_def run_key_def)
  qed
qed

lemma fail_checkpointed:
  assumes "failInstagramSyncRun ws rid failedAt c d t = Inr t'" "media_ok t" "checkpointed pf get key t"
  shows "media_ok t' \<and> checkpointed pf get key t' \<and> mt_accounts t' = mt_accounts t"
proof -
  note ok = fail_ok [OF assms(1,2)]
  let ?f = "\<lambda>r. r\<lparr>sr_completedAt := Some failedAt, sr_failureClass := Some c, sr_failureCode := Some d, sr_stage := ''failed'', sr_state := S_FAILED\<rparr>"
  have t': "mt_accounts t' = mt_accounts t" "mt_posts t' = mt_posts t"
      "mt_runs t' = update_many (\<lambda>r. sr_id r = rid \<and> sr_state r = S_RUNNING \<and> sr_workspaceId r = ws) ?f (mt_runs t)"
    using assms(1) by (auto simp: failInstagramSyncRun_def split: if_splits)
  have kept: "run_key (?f r) = run_key r \<and> sr_cursor (?f r) = sr_cursor r \<and> sr_horizonStart (?f r) = sr_horizonStart r" for r by (simp add: run_key_def)
  have "checkpointed pf get key t'"
  proof (rule checkpointed_step [OF assms(3)])
    fix r assume "r \<in> set (mt_runs t')" "run_key r = key"
    then show "sr_cursor r = None \<or> (\<exists>s \<in> set (mt_runs t). run_key s = key \<and> sr_cursor s = sr_cursor r \<and> sr_horizonStart s = sr_horizonStart r)"
      using kept unfolding t'(3) set_update_many by (auto simp del: run_key_def; metis kept)
  qed (simp add: t'(2))
  then show ?thesis using ok t'(1) by simp
qed

lemma import_run_checkpointed:
  assumes "import_run env ws account failedAt run t = (res, t')" "media_ok t" "checkpointed (se_platform env) (asked fetches (ac_providerAccountId account)) (run_key run) t"
    "run \<in> set (mt_runs t)" "sr_workspaceId run = ws" "se_fetch env \<in> fetches"
  shows "media_ok t' \<and> checkpointed (se_platform env) (asked fetches (ac_providerAccountId account)) (run_key run) t' \<and> mt_accounts t' = mt_accounts t \<and>
    (\<forall>commit. res = Inr commit \<longrightarrow> commit = completeInstagramSyncRun ws (sr_id run) \<and> (\<exists>run' \<in> set (mt_runs t'). run_key run' = run_key run \<and> sr_id run' = sr_id run \<and>
       sr_state run' = S_RUNNING \<and> imported_all (se_platform env) (asked fetches (ac_providerAccountId account)) run' (mt_posts t')))"
proof -
  obtain r u where paged: "pageAccountMedia env ws (ac_providerAccountId account) (sr_id run) (sr_horizonStart run) t = (r, u)" by (cases "pageAccountMedia env ws (ac_providerAccountId account) (sr_id run) (sr_horizonStart run) t")
  have "find (\<lambda>r. sr_id r = sr_id run \<and> sr_workspaceId r = ws) (mt_runs t) = Some run"
  proof (cases "find (\<lambda>r. sr_id r = sr_id run \<and> sr_workspaceId r = ws) (mt_runs t)")
    case None
    then show ?thesis using assms(4,5) by (auto simp: find_None_iff)
  next
    case (Some r)
    then show ?thesis using find_Some_iff2 [OF Some] run_unique [OF assms(2) _ assms(4), of r] by simp
  qed
  then have loop: "page_loop env ws (ac_providerAccountId account) (sr_id run) (sr_horizonStart run) instagramMaximumSyncPages 0 (sr_cursor run) t = (r, u)"
    using paged by (simp add: pageAccountMedia_def)
  note paging = page_loop_checkpointed [OF loop assms(2-4) refl refl refl assms(6)]
  show ?thesis
  proof (cases r)
    case (Inr x)
    then have "res = Inr (completeInstagramSyncRun ws (sr_id run))" "t' = u" using assms(1) paged by (simp_all add: import_run_def split: unit.splits)
    then show ?thesis using paging Inr by auto
  next
    case (Inl e)
    consider "t' = u" "\<And>c. res \<noteq> Inr c" | c d where "failInstagramSyncRun ws (sr_id run) failedAt c d u = Inr t'" "\<And>c. res \<noteq> Inr c"
      using assms(1) paged Inl by (auto simp: import_run_def split: if_splits exn.splits sum.splits)
    then show ?thesis
    proof cases
      case 2
      from paging have "media_ok u" "checkpointed (se_platform env) (asked fetches (ac_providerAccountId account)) (run_key run) u" by simp_all
      from fail_checkpointed [OF 2(1) this] show ?thesis using paging 2(2) by auto
    qed (use paging in auto)
  qed
qed

lemma complete_running:
  assumes "media_ok t" "run \<in> set (mt_runs t)" "sr_state run = S_RUNNING" "sr_workspaceId run = ws"
  shows "\<exists>u. completeInstagramSyncRun ws (sr_id run) completedAt t = Inr u \<and> mt_posts u = mt_posts t \<and>
    (\<exists>r \<in> set (mt_runs u). sr_id r = sr_id run \<and> sr_state r = S_SUCCEEDED)"
proof -
  let ?P = "\<lambda>r. sr_id r = sr_id run \<and> sr_state r = S_RUNNING \<and> sr_workspaceId r = ws"
  let ?f = "\<lambda>r. r\<lparr>sr_checkpointAt := Some completedAt, sr_completedAt := Some completedAt, sr_failureClass := None, sr_failureCode := None,
    sr_stage := ''completed'', sr_state := S_SUCCEEDED\<rparr>"
  have one: "count_many ?P (mt_runs t) = 1"
    using assms(1) by (intro count_many_unique [of sr_id, OF _ assms(2)]) (use assms(3,4) in \<open>auto simp: media_ok_def\<close>)
  have member: "?f run \<in> set (update_many ?P ?f (mt_runs t))" using assms(2-4) by (force simp: set_update_many)
  have "find (\<lambda>r. sr_id r = sr_id run \<and> sr_workspaceId r = ws) (update_many ?P ?f (mt_runs t)) \<noteq> None"
    unfolding find_None_iff not_not by (rule exI [of _ "?f run"]) (use member assms(4) in simp)
  then show ?thesis using one by (auto simp: completeInstagramSyncRun_def Let_def intro!: bexI [OF _ member])
qed

text \<open>
  The history of the run of a key: attempts of its job, each with an answer of the provider that may
  differ, and anything other jobs do meanwhile that leaves the run of the key alone.
\<close>

inductive import_history :: "platform \<Rightarrow> (string option \<Rightarrow> insights_reply) set \<Rightarrow> string \<Rightarrow> sync_job \<Rightarrow> string \<Rightarrow>
    string \<times> string \<times> sync_trigger \<times> string \<Rightarrow> media_tables \<Rightarrow> bool" for pf fetches ws j acc key where
  fresh: "media_ok t \<Longrightarrow> key \<notin> run_key ` set (mt_runs t) \<Longrightarrow> import_history pf fetches ws j acc key t"
| attempt: "import_history pf fetches ws j acc key t \<Longrightarrow> importAccountMedia env ws (Some j) correlationId token startedAt failedAt newRunId t = (res, t') \<Longrightarrow>
    se_platform env = pf \<Longrightarrow> se_fetch env \<in> fetches \<Longrightarrow> \<forall>a \<in> set (mt_accounts t). Some (ac_id a) = sj_resourceId j \<longrightarrow> ac_providerAccountId a = acc \<Longrightarrow>
    import_history pf fetches ws j acc key t'"
| meanwhile: "import_history pf fetches ws j acc key t \<Longrightarrow> sync_step t t' \<Longrightarrow>
    filter (\<lambda>r. run_key r = key) (mt_runs t') = filter (\<lambda>r. run_key r = key) (mt_runs t) \<Longrightarrow> import_history pf fetches ws j acc key t'"

lemma import_checkpointed:
  assumes "importAccountMedia env ws (Some j) correlationId token startedAt failedAt newRunId t = (res, t')" "media_ok t"
    "checkpointed (se_platform env) (asked fetches acc) key t" "se_fetch env \<in> fetches"
    "\<forall>a \<in> set (mt_accounts t). Some (ac_id a) = sj_resourceId j \<longrightarrow> ac_providerAccountId a = acc"
    "sj_resourceId j = Some accountId" "instagramSyncTriggerFromKey (sj_idempotencyKey j) = Some trigger" "key = (ws, accountId, trigger, sj_idempotencyKey j)"
  shows "media_ok t' \<and> checkpointed (se_platform env) (asked fetches acc) key t' \<and>
    (\<forall>commit. res = Inr commit \<longrightarrow> (\<exists>run \<in> set (mt_runs t'). run_key run = key \<and> commit = completeInstagramSyncRun ws (sr_id run) \<and>
       sr_state run = S_RUNNING \<and> imported_all (se_platform env) (asked fetches acc) run (mt_posts t')))"
proof (cases "t' = t \<and> (\<forall>c. res \<noteq> Inr c)")
  case True
  then show ?thesis using assms(2,3) by simp
next
  case False
  obtain account where found: "find (\<lambda>a. Some (ac_id a) = sj_resourceId j \<and> ac_workspaceId a = ws) (mt_accounts t) = Some account"
    using assms(1) False by (auto simp: importAccountMedia_def split: if_splits option.splits)
  let ?i = "sync_start_input j correlationId account startedAt"
  obtain opened u where started: "startInstagramSyncRun ws ?i newRunId t t = (opened, u)" by (cases "startInstagramSyncRun ws ?i newRunId t t")
  have account: "ac_id account = accountId" "ac_providerAccountId account = acc" using find_Some_iff2 [OF found] assms(5,6) by auto
  have key: "(ws, ss_instagramAccountId ?i, ss_trigger ?i, ss_idempotencyKey ?i) = key"
    using assms(7,8) account by (simp add: sync_start_input_def sync_trigger_of_def)
  note start = start_checkpointed [OF started assms(2), unfolded key]
  have rest: "(case opened of Inl e \<Rightarrow> (Inl e, u) | Inr run \<Rightarrow> import_run env ws account failedAt run u) = (res, t')"
    using assms(1) False found started by (auto simp: importAccountMedia_def split: if_splits option.splits sum.splits)
  show ?thesis
  proof (cases opened)
    case (Inl e)
    then show ?thesis using start rest assms(3) by auto
  next
    case (Inr run)
    then have run: "run \<in> set (mt_runs u)" "run_key run = key" using start by auto
    then have "sr_workspaceId run = ws" using assms(8) by (simp add: run_key_def)
    moreover have "import_run env ws account failedAt run u = (res, t')" using rest Inr by simp
    moreover have "media_ok u" "checkpointed (se_platform env) (asked fetches (ac_providerAccountId account)) (run_key run) u"
      using start assms(3) run(2) account(2) by simp_all
    ultimately have "media_ok t' \<and> checkpointed (se_platform env) (asked fetches acc) key t' \<and>
      (\<forall>commit. res = Inr commit \<longrightarrow> commit = completeInstagramSyncRun ws (sr_id run) \<and> (\<exists>run' \<in> set (mt_runs t'). run_key run' = key \<and> sr_id run' = sr_id run \<and>
         sr_state run' = S_RUNNING \<and> imported_all (se_platform env) (asked fetches acc) run' (mt_posts t')))"
      using import_run_checkpointed [of env ws account failedAt run u res t' fetches] run assms(4) unfolding account(2) run(2) by blast
    then show ?thesis by metis
  qed
qed

lemma history_checkpointed:
  assumes "import_history pf fetches ws j acc key t" "sj_resourceId j = Some accountId"
    "instagramSyncTriggerFromKey (sj_idempotencyKey j) = Some trigger" "key = (ws, accountId, trigger, sj_idempotencyKey j)"
  shows "media_ok t \<and> checkpointed pf (asked fetches acc) key t"
  using assms(1)
proof (induction rule: import_history.induct)
  case (fresh t)
  then show ?case by (auto simp: checkpointed_def)
next
  case (attempt t env correlationId token startedAt failedAt newRunId res t')
  then show ?case
    using import_checkpointed [OF attempt.hyps(2) _ _ attempt.hyps(4,5) assms(2-4)] by auto
next
  case (meanwhile t t')
  have "r \<in> set (mt_runs t)" if "r \<in> set (mt_runs t')" "run_key r = key" for r
  proof -
    have "r \<in> set (filter (\<lambda>r. run_key r = key) (mt_runs t'))" using that by simp
    then show ?thesis unfolding meanwhile.hyps(3) by simp
  qed
  moreover note ok = sync_step_ok [OF meanwhile.hyps(2)]
  ultimately show ?case using meanwhile.IH checkpointed_step [of pf "asked fetches acc" key t t'] by blast
qed

section \<open>Theorems\<close>

text \<open>
  C8: from empty tables, whatever is started, paged, completed and failed by any number of workers,
  there is one run of a key and one running of an account and a trigger, one post of a media, every count of a run adds
  up, and from then on no post is lost or changes its identity or its first import, and no succeeded run changes.
\<close>

theorem sync_states:
  assumes "sync_step\<^sup>*\<^sup>* \<lparr>mt_accounts = accounts, mt_posts = [], mt_runs = []\<rparr> t" "sync_step\<^sup>*\<^sup>* t t'"
  shows "media_ok t \<and> posts_kept (mt_posts t) (mt_posts t') \<and> (\<forall>r \<in> set (mt_runs t). sr_state r = S_SUCCEEDED \<longrightarrow> r \<in> set (mt_runs t'))"
proof -
  have "media_ok \<lparr>mt_accounts = accounts, mt_posts = [], mt_runs = []\<rparr>" by (simp add: media_ok_def one_running_def)
  then have "media_ok t" using sync_steps_ok [OF assms(1)] by simp
  then show ?thesis using sync_steps_ok [OF assms(2)] by simp
qed

text \<open>
  C7: nothing is skipped.  After any history of attempts of a job, failed, cancelled or cut off at any
  page, with other jobs running meanwhile, an attempt that returns its commit has stored every item within the horizon of every page from
  the first to the last, and the commit closes the run as succeeded.
\<close>

theorem import_complete:
  assumes "import_history (se_platform env) fetches ws j acc (ws, accountId, trigger, sj_idempotencyKey j) t"
    "sj_resourceId j = Some accountId" "instagramSyncTriggerFromKey (sj_idempotencyKey j) = Some trigger"
    "importAccountMedia env ws (Some j) correlationId token startedAt failedAt newRunId t = (Inr commit, t')" "se_fetch env \<in> fetches"
    "\<forall>a \<in> set (mt_accounts t). Some (ac_id a) = sj_resourceId j \<longrightarrow> ac_providerAccountId a = acc"
  shows "\<exists>run \<in> set (mt_runs t'). run_key run = (ws, accountId, trigger, sj_idempotencyKey j) \<and>
    imported_all (se_platform env) (asked fetches acc) run (mt_posts t') \<and>
    (\<forall>completedAt. \<exists>u. commit completedAt t' = Inr u \<and> mt_posts u = mt_posts t' \<and>
       (\<exists>r \<in> set (mt_runs u). sr_id r = sr_id run \<and> sr_state r = S_SUCCEEDED))"
proof -
  let ?key = "(ws, accountId, trigger, sj_idempotencyKey j)"
  from history_checkpointed [OF assms(1-3) refl] have ok: "media_ok t" "checkpointed (se_platform env) (asked fetches acc) ?key t" by simp_all
  note outcome = import_checkpointed [OF assms(4) ok assms(5,6,2,3) refl]
  then obtain run where run: "run \<in> set (mt_runs t')" "run_key run = ?key" "commit = completeInstagramSyncRun ws (sr_id run)"
      "sr_state run = S_RUNNING" "imported_all (se_platform env) (asked fetches acc) run (mt_posts t')" by auto
  have "\<exists>u. commit completedAt t' = Inr u \<and> mt_posts u = mt_posts t' \<and> (\<exists>r \<in> set (mt_runs u). sr_id r = sr_id run \<and> sr_state r = S_SUCCEEDED)" for completedAt
    using complete_running [OF _ run(1,4)] run(2) outcome unfolding run(3) by (simp add: run_key_def)
  with run show ?thesis by blast
qed

lemma page_loop_run:
  assumes "page_loop env ws acc rid h n k after t = (res, t')" "media_ok t" "run \<in> set (mt_runs t)" "sr_id run = rid"
  shows "media_ok t' \<and> mt_accounts t' = mt_accounts t \<and> (\<exists>r \<in> set (mt_runs t'). run_key r = run_key run \<and> sr_state r = sr_state run)"
  using assms
proof (induction n arbitrary: k after t run)
  case (Suc n)
  from Suc.prems(1) show ?case
  proof (cases rule: page_loop_step)
    case stopped
    then show ?thesis using Suc.prems by auto
  next
    case (visited page media invalid skipped reached c u)
    let ?i = "page_commit env rid k after page media invalid skipped"
    have "pg_syncRunId ?i = rid" by (simp add: page_commit_def)
    note rest = visited(4) and commit = visited(3) this
    obtain a b where u: "advance_data ?i a b run \<in> set (mt_runs u)" "media_ok u" "mt_accounts u = mt_accounts t"
      using page_run [OF commit(1) Suc.prems(2,3)] Suc.prems(4) commit(2) by auto
    show ?thesis
    proof (cases "\<not> mp_hasNextPage page \<or> reached")
      case True
      then have "t' = u" using rest by simp
      then show ?thesis using u by (auto intro!: bexI [OF _ u(1)])
    next
      case False
      then have "page_loop env ws acc rid h n (k + 1) (mp_after page) u = (res, t')" using rest by simp
      from Suc.IH [OF this u(2,1)] show ?thesis using u(3) Suc.prems(4) by simp
    qed
  qed
qed auto

lemma start_running:
  assumes "startInstagramSyncRun ws i newId t t = (Inr run, t')" "media_ok t"
    "\<forall>r \<in> set (mt_runs t). run_key r = (ws, ss_instagramAccountId i, ss_trigger i, ss_idempotencyKey i) \<longrightarrow> sr_state r \<noteq> S_SUCCEEDED"
  shows "sr_state run = S_RUNNING"
proof -
  let ?key = "(ws, ss_instagramAccountId i, ss_trigger i, ss_idempotencyKey i)"
  show ?thesis
  proof (cases "find (\<lambda>r. run_key r = ?key) (mt_runs t)")
    case None
    then show ?thesis using assms(1) by (auto simp: startInstagramSyncRun_def new_run_def split: if_splits sum.splits)
  next
    case (Some existing)
    have e: "existing \<in> set (mt_runs t)" "run_key existing = ?key" using find_Some_iff2 [OF Some] by auto
    let ?P = "\<lambda>r. sr_id r = sr_id existing \<and> sr_state r = S_FAILED \<and> sr_workspaceId r = ws"
    show ?thesis
    proof (cases "sr_state existing = S_RUNNING")
      case True
      then show ?thesis using assms(1) Some by (auto simp: startInstagramSyncRun_def split: if_splits)
    next
      case False
      then have "sr_state existing \<noteq> S_SUCCEEDED" using assms(3) e by blast
      with False have failed: "sr_state existing = S_FAILED" by (cases "sr_state existing") simp_all
      then have "find (\<lambda>r. sr_id r = sr_id existing \<and> sr_workspaceId r = ws) (update_many ?P (reopen_data i existing) (mt_runs t)) = Some run"
        using assms(1) Some by (auto simp: startInstagramSyncRun_def write_runs_def Let_def split: if_splits option.splits sum.splits)
      from find_Some_iff2 [OF this] obtain y where y: "y \<in> set (mt_runs t)" "run = (if ?P y then reopen_data i existing y else y)" "sr_id run = sr_id existing"
        unfolding set_update_many by auto
      then have "sr_id y = sr_id existing" by (auto simp: reopen_data_def split: if_splits)
      then have "y = existing" using run_unique [OF assms(2) y(1) e(1)] by simp
      then show ?thesis using y(2) failed e(2) by (simp add: reopen_data_def run_key_def)
    qed
  qed
qed

lemma occupied_slot:
  assumes "run \<in> set (mt_runs t)" "sr_state run = S_RUNNING" "run_slot run = (ss_instagramAccountId i, ss_trigger i)"
  shows "\<exists>e. write_runs (mt_runs t @ [new_run ws i newId]) t = Inl e"
proof -
  have "run_slot (new_run ws i newId) = run_slot run" "sr_state (new_run ws i newId) = S_RUNNING" using assms(3) by (simp_all add: new_run_def run_slot_def)
  moreover have "run_slot run \<in> run_slot ` set (filter (\<lambda>r. sr_state r = S_RUNNING) (mt_runs t))" using assms(1,2) by simp
  ultimately have "\<not> one_running (mt_runs t @ [new_run ws i newId])" by (simp add: one_running_def)
  then show ?thesis by (auto simp: write_runs_def)
qed

lemma run_slot_key: "run_slot r = (fst (snd (run_key r)), fst (snd (snd (run_key r))))"
  by (simp add: run_slot_def run_key_def)

text \<open>No operation removes a run or changes its key.\<close>

lemma step_keeps_keys:
  assumes "sync_step t t'" "r \<in> set (mt_runs t)"
  shows "\<exists>r' \<in> set (mt_runs t'). sr_id r' = sr_id r \<and> run_key r' = run_key r"
proof -
  have kept: "\<exists>r' \<in> set (update_many P f (mt_runs t)). sr_id r' = sr_id r \<and> run_key r' = run_key r"
    if "\<And>r. sr_id (f r) = sr_id r \<and> run_key (f r) = run_key r" for P f
    using assms(2) by (intro bexI [of _ "if P r then f r else r"]) (auto simp: that set_update_many)
  from assms(1) show ?thesis
  proof (cases rule: sync_step.cases)
    case (start ws i newId seen res)
    consider "mt_runs t' = mt_runs t" | existing P where "mt_runs t' = update_many P (reopen_data i existing) (mt_runs t)"
      | "mt_runs t' = mt_runs t @ [new_run ws i newId]"
      using start by (auto simp: startInstagramSyncRun_def write_runs_def Let_def split: if_splits option.splits sum.splits)
    then show ?thesis using assms(2) kept [of "reopen_data i _"] by cases (auto simp: reopen_data_def run_key_def)
  next
    case (page ws pg newIds n)
    then show ?thesis using assms(2) kept
      by (auto simp: commitInstagramMediaPage_def advance_data_def run_key_def Let_def split: if_splits option.splits sum.splits prod.splits)
  next
    case (complete ws syncRunId completedAt)
    then show ?thesis using assms(2) kept
      by (auto simp: completeInstagramSyncRun_def run_key_def Let_def split: if_splits option.splits sum.splits)
  next
    case (fail ws syncRunId failedAt failureClass failureCode)
    then show ?thesis using assms(2) kept
      by (auto simp: failInstagramSyncRun_def run_key_def Let_def split: if_splits option.splits sum.splits)
  qed (use assms(2) in auto)
qed

lemma steps_keep_keys:
  "sync_step\<^sup>*\<^sup>* t t' \<Longrightarrow> r \<in> set (mt_runs t) \<Longrightarrow> \<exists>r' \<in> set (mt_runs t'). sr_id r' = sr_id r \<and> run_key r' = run_key r"
proof (induction rule: rtranclp_induct)
  case (step y z)
  then show ?case using step_keeps_keys [OF step(2)] by metis
qed auto

lemma slot_unique:
  assumes "media_ok t" "r \<in> set (mt_runs t)" "s \<in> set (mt_runs t)" "sr_state r = S_RUNNING" "sr_state s = S_RUNNING" "run_slot r = run_slot s"
  shows "r = s"
proof -
  have "inj_on run_slot (set (filter (\<lambda>r. sr_state r = S_RUNNING) (mt_runs t)))"
    using assms(1) by (simp add: media_ok_def one_running_def distinct_map)
  then show ?thesis using assms(2-6) by (simp add: inj_on_def)
qed

text \<open>Reopening a failed run of a slot that is taken breaks the index; when the run is no longer failed nothing is written.\<close>

lemma reopen_blocked:
  fixes ws :: string
  assumes "media_ok t" "run \<in> set (mt_runs t)" "sr_state run = S_RUNNING" "run_slot existing = run_slot run"
    "\<forall>r \<in> set (mt_runs t). sr_id r = sr_id existing \<longrightarrow> run_slot r = run_slot existing"
  defines "P \<equiv> \<lambda>r. sr_id r = sr_id existing \<and> sr_state r = S_FAILED \<and> sr_workspaceId r = ws"
  shows "(\<exists>e. write_runs (update_many P (reopen_data i existing) (mt_runs t)) t = Inl e) \<or>
    count_many P (mt_runs t) = 0 \<and> write_runs (update_many P (reopen_data i existing) (mt_runs t)) t = Inr t"
proof (cases "count_many P (mt_runs t) = 0")
  case True
  from update_many_id [OF this] have "write_runs (update_many P (reopen_data i existing) (mt_runs t)) t = Inr (t\<lparr>mt_runs := mt_runs t\<rparr>)"
    using assms(1) by (simp add: write_runs_def media_ok_def)
  with True show ?thesis by simp
next
  case False
  let ?rows = "update_many P (reopen_data i existing) (mt_runs t)"
  obtain r where r: "r \<in> set (mt_runs t)" "P r" using False by (auto simp: count_many_def filter_empty_conv)
  have "r \<noteq> run" using r(2) assms(3) by (auto simp: P_def)
  then have other: "sr_id r \<noteq> sr_id run" using run_unique [OF assms(1) r(1) assms(2)] by blast
  have "\<not> one_running ?rows"
  proof
    assume "one_running ?rows"
    then have inj: "inj_on run_slot (set (filter (\<lambda>r. sr_state r = S_RUNNING) ?rows))" by (simp add: one_running_def distinct_map)
    have run': "run \<in> set ?rows" using assms(2,3) by (intro update_many_untouched) (simp_all add: P_def)
    have r': "reopen_data i existing r \<in> set ?rows" using r by (auto simp: set_update_many)
    have "run_slot (reopen_data i existing r) = run_slot run"
      using assms(4,5) r by (simp add: P_def reopen_data_def run_slot_def)
    then have "reopen_data i existing r = run"
      by (rule inj_onD [OF inj]) (use run' r' assms(3) in \<open>simp_all add: reopen_data_def\<close>)
    then have "sr_id (reopen_data i existing r) = sr_id run" by simp
    then show False using other by (simp add: reopen_data_def)
  qed
  then show ?thesis by (simp add: write_runs_def)
qed

text \<open>
  While a run holds the slot of its account and trigger, a start under another key gets no running run: it is refused and
  nothing is written, or finds the run of its key already succeeded.  \<open>seen\<close> is what the start reads.
\<close>

lemma slot_taken:
  assumes ok: "media_ok seen" "media_ok t" "sync_step\<^sup>*\<^sup>* seen t"
    and held: "run \<in> set (mt_runs seen)" "sr_state run = S_RUNNING" "\<exists>r \<in> set (mt_runs t). run_slot r = run_slot run \<and> sr_state r = S_RUNNING"
    and slot: "run_slot run = (ss_instagramAccountId i, ss_trigger i)" "sr_idempotencyKey run \<noteq> ss_idempotencyKey i"
  shows "case startInstagramSyncRun ws i newId seen t of
      (Inl e, u) \<Rightarrow> u = t | (Inr r, u) \<Rightarrow> u = t \<and> r \<in> set (mt_runs t) \<and> sr_state r = S_SUCCEEDED"
proof -
  let ?key = "(ws, ss_instagramAccountId i, ss_trigger i, ss_idempotencyKey i)"
  obtain holder where holder: "holder \<in> set (mt_runs t)" "sr_state holder = S_RUNNING" "run_slot holder = (ss_instagramAccountId i, ss_trigger i)"
    using held slot(1) by auto
  show ?thesis
  proof (cases "find (\<lambda>r. run_key r = ?key) (mt_runs seen)")
    case None
    obtain e where "write_runs (mt_runs t @ [new_run ws i newId]) t = Inl e" using occupied_slot [OF holder] by blast
    with None show ?thesis by (simp add: startInstagramSyncRun_def)
  next
    case (Some existing)
    have e: "existing \<in> set (mt_runs seen)" "run_key existing = ?key" using find_Some_iff2 [OF Some] by auto
    have eslot: "run_slot existing = run_slot run" using e(2) slot(1) by (simp add: run_key_def run_slot_def)
    consider "sr_state existing = S_RUNNING" | "sr_state existing = S_SUCCEEDED" | "sr_state existing = S_FAILED"
      by (cases "sr_state existing") simp_all
    then show ?thesis
    proof cases
      case 1
      from slot_unique [OF ok(1) e(1) held(1) 1 held(2) eslot] e(2) slot(2) show ?thesis by (simp add: run_key_def)
    next
      case 2
      then have "existing \<in> set (mt_runs t)" using sync_steps_ok [OF ok(3,1)] e(1) by blast
      with 2 Some show ?thesis by (simp add: startInstagramSyncRun_def)
    next
      case 3
      let ?P = "\<lambda>r. sr_id r = sr_id existing \<and> sr_state r = S_FAILED \<and> sr_workspaceId r = ws"
      have same: "\<forall>r \<in> set (mt_runs t). sr_id r = sr_id existing \<longrightarrow> run_slot r = run_slot existing"
        using steps_keep_keys [OF ok(3) e(1)] run_unique [OF ok(2)] by (metis run_slot_key)
      have "run_slot existing = run_slot holder" using eslot slot(1) holder(3) by simp
      from reopen_blocked [OF ok(2) holder(1,2) this same, of ws i] 3 Some show ?thesis
        by (auto simp: startInstagramSyncRun_def Let_def split: sum.splits)
    qed
  qed
qed

lemma job_failure_handled: "\<exists>f. toJobFailure e = Exn_handler f"
proof (cases e)
  case (Sync_media r)
  obtain c m where "r = (c, m)" by (cases r)
  then show ?thesis using Sync_media by (cases c) (simp_all add: toJobFailure_def response_failure_def handler_failure_def)
next
  case (Sync_exn x)
  then show ?thesis by (cases x) (simp_all add: toJobFailure_def handler_failure_def)
qed

lemma import_cancelled:
  assumes "import_run env ws account failedAt run u = (Inl Exn_cancellation, t')"
  shows "\<exists>res. pageAccountMedia env ws (ac_providerAccountId account) (sr_id run) (sr_horizonStart run) u = (res, t')"
proof -
  obtain res v where page: "pageAccountMedia env ws (ac_providerAccountId account) (sr_id run) (sr_horizonStart run) u = (res, v)" by fastforce
  have closed: "failInstagramSyncRun ws rid failedAt c d x \<noteq> Inl Exn_cancellation" for rid c d x by (simp add: failInstagramSyncRun_def mediaError_def)
  have "v = t'"
  proof (cases res)
    case (Inl e)
    obtain f where "toJobFailure e = Exn_handler f" using job_failure_handled by blast
    then show ?thesis using assms Inl closed by (simp add: import_run_def page split: if_splits sum.splits)
  next
    case (Inr x)
    then show ?thesis using assms by (simp add: import_run_def page split: unit.splits)
  qed
  then show ?thesis using page by blast
qed

text \<open>
  C30: a cancelled import leaves its run running, and for as long as that run is running, whatever else the operations do,
  no start under another key gets the account and trigger: one whose key has no run is refused as already
  active, one that would reopen a failed run meets the unique index or the conflict, one whose run has
  succeeded gets that run back, and none of them writes anything.
\<close>

theorem cancelled_import_blocks:
  assumes "media_ok t" "sj_resourceId j = Some accountId" "instagramSyncTriggerFromKey (sj_idempotencyKey j) = Some trigger"
    "\<forall>r \<in> set (mt_runs t). run_key r = (ws, accountId, trigger, sj_idempotencyKey j) \<longrightarrow> sr_state r \<noteq> S_SUCCEEDED"
    "se_loading env = None" "\<forall>a e. token a \<noteq> Inl e"
    "importAccountMedia env ws (Some j) correlationId token startedAt failedAt newRunId t = (Inl Exn_cancellation, t')"
    "sync_step\<^sup>*\<^sup>* t' seen" "\<exists>r \<in> set (mt_runs seen). run_key r = (ws, accountId, trigger, sj_idempotencyKey j) \<and> sr_state r = S_RUNNING"
    "sync_step\<^sup>*\<^sup>* seen now" "\<exists>r \<in> set (mt_runs now). run_key r = (ws, accountId, trigger, sj_idempotencyKey j) \<and> sr_state r = S_RUNNING"
    "ss_instagramAccountId i = accountId" "ss_trigger i = trigger" "ss_idempotencyKey i \<noteq> sj_idempotencyKey j"
  shows "(\<exists>r \<in> set (mt_runs t'). run_key r = (ws, accountId, trigger, sj_idempotencyKey j) \<and> sr_state r = S_RUNNING) \<and>
    (case startInstagramSyncRun ws i newId seen now of
       (Inl e, u) \<Rightarrow> u = now
     | (Inr r, u) \<Rightarrow> u = now \<and> r \<in> set (mt_runs now) \<and> sr_state r = S_SUCCEEDED) \<and>
    (isSafeSchedulingKey (ss_idempotencyKey i) \<and> (\<exists>a \<in> set (mt_accounts seen). ac_id a = accountId \<and> ac_workspaceId a = ws) \<and>
     (ws, accountId, trigger, ss_idempotencyKey i) \<notin> run_key ` set (mt_runs seen) \<longrightarrow>
     startInstagramSyncRun ws i newId seen now = (Inl (mediaError ''SYNC_RUN_ALREADY_ACTIVE'' 409), now))"
proof -
  have plain: "handler_failure c d e \<noteq> Exn_cancellation" for c d e by (simp add: handler_failure_def)
  obtain account where found: "find (\<lambda>a. Some (ac_id a) = sj_resourceId j \<and> ac_workspaceId a = ws) (mt_accounts t) = Some account"
    using assms(5,7) by (auto simp: importAccountMedia_def plain split: if_splits option.splits)
  let ?i = "sync_start_input j correlationId account startedAt"
  obtain opened u where started: "startInstagramSyncRun ws ?i newRunId t t = (opened, u)" by (cases "startInstagramSyncRun ws ?i newRunId t t")
  have rest: "(case opened of Inl e \<Rightarrow> (Inl e, u) | Inr run \<Rightarrow> import_run env ws account failedAt run u) = (Inl Exn_cancellation, t')"
    using assms(5-7) found started by (auto simp: importAccountMedia_def plain split: if_splits option.splits sum.splits)
  have "opened \<noteq> Inl Exn_cancellation"
    using started by (auto simp: startInstagramSyncRun_def write_runs_def mediaError_def Let_def split: if_splits option.splits sum.splits)
  then obtain run where run: "opened = Inr run" using rest by (cases opened) auto
  have account: "account \<in> set (mt_accounts t)" "ac_id account = accountId" "ac_workspaceId account = ws" using find_Some_iff2 [OF found] assms(2) by auto
  have key: "(ws, ss_instagramAccountId ?i, ss_trigger ?i, ss_idempotencyKey ?i) = (ws, accountId, trigger, sj_idempotencyKey j)"
    using assms(3) account by (simp add: sync_start_input_def sync_trigger_of_def)
  have u: "media_ok u" "mt_accounts u = mt_accounts t" "run \<in> set (mt_runs u)" "run_key run = (ws, accountId, trigger, sj_idempotencyKey j)"
    using start_checkpointed [OF started assms(1), unfolded key] run by auto
  have running: "sr_state run = S_RUNNING" using start_running [OF started [unfolded run] assms(1)] assms(4) unfolding key by simp
  have "\<exists>res after. page_loop env ws (ac_providerAccountId account) (sr_id run) (sr_horizonStart run) instagramMaximumSyncPages 0 after u = (res, t')"
    using import_cancelled [of env ws account failedAt run u t'] rest run by (auto simp: pageAccountMedia_def Let_def)
  then obtain r where r: "r \<in> set (mt_runs t')" "run_key r = run_key run" "sr_state r = S_RUNNING" and t': "media_ok t'"
    using page_loop_run [OF _ u(1,3) refl] u(2) running by metis
  have ok: "media_ok seen" "media_ok now" using sync_steps_ok assms(8,10) t' by blast+
  obtain held holder where held: "held \<in> set (mt_runs seen)" "run_key held = (ws, accountId, trigger, sj_idempotencyKey j)" "sr_state held = S_RUNNING"
    and holder: "holder \<in> set (mt_runs now)" "run_key holder = (ws, accountId, trigger, sj_idempotencyKey j)" "sr_state holder = S_RUNNING"
    using assms(9,11) by blast
  have slots: "run_slot held = (ss_instagramAccountId i, ss_trigger i)" "run_slot holder = (ss_instagramAccountId i, ss_trigger i)"
    "sr_idempotencyKey held \<noteq> ss_idempotencyKey i"
    using held(2) holder(2) assms(12-14) by (auto simp: run_slot_def run_key_def)
  have refused: "startInstagramSyncRun ws i newId seen now = (Inl (mediaError ''SYNC_RUN_ALREADY_ACTIVE'' 409), now)"
    if "isSafeSchedulingKey (ss_idempotencyKey i)" "\<exists>a \<in> set (mt_accounts seen). ac_id a = accountId \<and> ac_workspaceId a = ws"
      "(ws, accountId, trigger, ss_idempotencyKey i) \<notin> run_key ` set (mt_runs seen)"
  proof -
    obtain e where "write_runs (mt_runs now @ [new_run ws i newId]) now = Inl e" using occupied_slot [OF holder(1,3) slots(2)] by blast
    moreover have "find (\<lambda>r. run_key r = (ws, ss_instagramAccountId i, ss_trigger i, ss_idempotencyKey i)) (mt_runs seen) = None"
      unfolding find_None_iff using assms(12,13) that(3) by (metis image_eqI)
    ultimately show ?thesis using that(1,2) assms(12) by (auto simp: startInstagramSyncRun_def)
  qed
  have "\<exists>r \<in> set (mt_runs now). run_slot r = run_slot held \<and> sr_state r = S_RUNNING" using holder(1,3) slots by auto
  note taken = slot_taken [OF ok assms(10) held(1,3) this slots(1,3), of ws newId]
  have "run_key r = (ws, accountId, trigger, sj_idempotencyKey j)" using r(2) u(4) by simp
  with r(1,3) have left: "\<exists>r \<in> set (mt_runs t'). run_key r = (ws, accountId, trigger, sj_idempotencyKey j) \<and> sr_state r = S_RUNNING" by blast
  show ?thesis by (intro conjI impI) (use left taken refused in \<open>blast+\<close>)
qed

section \<open>Witnesses\<close>

definition media_item :: "string \<Rightarrow> js_num js_value" where
  "media_item i = JObj [(''id'', js_value.JStr i), (''media_type'', js_value.JStr ''A''), (''timestamp'', js_value.JStr ''T'')]"

text \<open>Two pages of one item, and a platform that reads every time as the same.\<close>

definition two_pages :: "string option \<Rightarrow> insights_reply" where
  "two_pages after = Insights_answered 200 None (case after of
       None \<Rightarrow> JObj [(''data'', js_value.JArr [media_item ''17900'']),
         (''paging'', JObj [(''cursors'', JObj [(''after'', js_value.JStr ''c1'')]), (''next'', js_value.JStr ''u'')])]
     | Some _ \<Rightarrow> JObj [(''data'', js_value.JArr [media_item ''17901''])])"

definition sample_env :: "(nat \<Rightarrow> exn option) \<Rightarrow> string \<Rightarrow> sync_env" where
  "sample_env interrupt p = \<lparr>se_platform = \<lparr>pf_sha256 = (\<lambda>_. []), pf_dateParse = (\<lambda>_. jint 1785456000000), pf_https = (\<lambda>_. True)\<rparr>,
     se_fetch = two_pages, se_loading = None, se_interrupt = interrupt, se_now = (\<lambda>k. 1785456000000 + int k),
     se_newIds = (\<lambda>k _. p @ (if k = 0 then ''1'' else ''2''))\<rparr>"

definition sync_sample :: media_tables where
  "sync_sample = \<lparr>mt_accounts = [row_account\<lparr>ac_providerAccountId := ''17841400''\<rparr>], mt_posts = [], mt_runs = []\<rparr>"

definition sync_sample_job :: sync_job where
  "sync_sample_job = \<lparr>sj_id = ''j'', sj_idempotencyKey = ''instagram-sync-manual-a'', sj_resourceId = Some (ac_id row_account),
     sj_resourceType = Some ''instagram_account''\<rparr>"

text \<open>An attempt that is cancelled before its second page, and the one after it.\<close>

definition first_attempt :: "(exn + (time \<Rightarrow> media_tables \<Rightarrow> exn + media_tables)) \<times> media_tables" where
  "first_attempt = importAccountMedia (sample_env (\<lambda>n. if n = 2 then Some Exn_cancellation else None) ''p'') (ac_workspaceId row_account) (Some sync_sample_job)
     ''01890a5d-ac96-774b-bcce-b302099a8057'' (\<lambda>_. Inr []) 1785456000000 1785456000000 ''r1'' sync_sample"

definition second_attempt :: "(exn + (time \<Rightarrow> media_tables \<Rightarrow> exn + media_tables)) \<times> media_tables" where
  "second_attempt = importAccountMedia (sample_env (\<lambda>_. None) ''q'') (ac_workspaceId row_account) (Some sync_sample_job)
     ''01890a5d-ac96-774b-bcce-b302099a8057'' (\<lambda>_. Inr []) 1785456100000 1785456100000 ''r2'' (snd first_attempt)"

lemma sample_facts:
  "sj_resourceId sync_sample_job = Some (ac_id row_account)" "instagramSyncTriggerFromKey (sj_idempotencyKey sync_sample_job) = Some MANUAL"
  "media_ok sync_sample" "map ac_providerAccountId (mt_accounts (snd first_attempt)) = [''17841400'']" "isl (fst first_attempt) \<and> projl (fst first_attempt) = Exn_cancellation"
  "\<not> isl (fst second_attempt)"
  by code_simp+

lemma first_attempt_run:
  "importAccountMedia (sample_env (\<lambda>n. if n = 2 then Some Exn_cancellation else None) ''p'') (ac_workspaceId row_account) (Some sync_sample_job)
     ''01890a5d-ac96-774b-bcce-b302099a8057'' (\<lambda>_. Inr []) 1785456000000 1785456000000 ''r1'' sync_sample = (Inl Exn_cancellation, snd first_attempt)"
  using sample_facts(5) unfolding first_attempt_def [symmetric] by (metis prod.collapse sum.collapse(1))

theorem import_complete_witness:
  "\<exists>run \<in> set (mt_runs (snd second_attempt)).
     imported_all (se_platform (sample_env (\<lambda>_. None) ''q'')) (asked {two_pages} ''17841400'') run (mt_posts (snd second_attempt))"
proof -
  let ?key = "(ac_workspaceId row_account, ac_id row_account, MANUAL, sj_idempotencyKey sync_sample_job)" and ?pf = "se_platform (sample_env (\<lambda>_. None) ''q'')"
  have "import_history ?pf {two_pages} (ac_workspaceId row_account) sync_sample_job ''17841400'' ?key sync_sample"
    by (rule import_history.fresh [OF sample_facts(3)]) (simp add: sync_sample_def)
  then have history: "import_history ?pf {two_pages} (ac_workspaceId row_account) sync_sample_job ''17841400'' ?key (snd first_attempt)"
    by (rule import_history.attempt [OF _ first_attempt_run]) (simp_all add: sample_env_def sync_sample_def)
  have accounts: "\<forall>a \<in> set (mt_accounts (snd first_attempt)). Some (ac_id a) = sj_resourceId sync_sample_job \<longrightarrow> ac_providerAccountId a = ''17841400''"
    using sample_facts(4) by (cases "mt_accounts (snd first_attempt)") auto
  from sample_facts(6) obtain commit where "second_attempt = (Inr commit, snd second_attempt)" by (metis prod.collapse sum.collapse(2))
  then have second: "importAccountMedia (sample_env (\<lambda>_. None) ''q'') (ac_workspaceId row_account) (Some sync_sample_job)
     ''01890a5d-ac96-774b-bcce-b302099a8057'' (\<lambda>_. Inr []) 1785456100000 1785456100000 ''r2'' (snd first_attempt) = (Inr commit, snd second_attempt)"
    by (simp only: second_attempt_def)
  from import_complete [OF history sample_facts(1,2) second _ accounts] show ?thesis by (auto simp: sample_env_def)
qed

theorem cancelled_import_blocks_witness:
  "fst (startInstagramSyncRun (ac_workspaceId row_account) (sync_start_input (sync_sample_job\<lparr>sj_idempotencyKey := ''instagram-sync-manual-b''\<rparr>) ''c''
     row_account 1785542400000) ''r3'' (snd first_attempt) (snd first_attempt)) = Inl (mediaError ''SYNC_RUN_ALREADY_ACTIVE'' 409)"
proof -
  let ?i = "sync_start_input (sync_sample_job\<lparr>sj_idempotencyKey := ''instagram-sync-manual-b''\<rparr>) ''c'' row_account 1785542400000"
  have other: "isSafeSchedulingKey (ss_idempotencyKey ?i)" "ss_instagramAccountId ?i = ac_id row_account" "ss_trigger ?i = MANUAL"
    "(ac_workspaceId row_account, ac_id row_account, MANUAL, ss_idempotencyKey ?i) \<notin> run_key ` set (mt_runs (snd first_attempt))" by code_simp+
  have fresh: "\<forall>r \<in> set (mt_runs sync_sample). run_key r = (ac_workspaceId row_account, ac_id row_account, MANUAL, sj_idempotencyKey sync_sample_job) \<longrightarrow> sr_state r \<noteq> S_SUCCEEDED"
    by (simp add: sync_sample_def)
  have left: "\<exists>r \<in> set (mt_runs (snd first_attempt)). run_key r = (ac_workspaceId row_account, ac_id row_account, MANUAL, sj_idempotencyKey sync_sample_job) \<and>
      sr_state r = S_RUNNING" by code_simp
  have account: "\<exists>a \<in> set (mt_accounts (snd first_attempt)). ac_id a = ac_id row_account \<and> ac_workspaceId a = ac_workspaceId row_account" by code_simp
  have differs: "ss_idempotencyKey ?i \<noteq> sj_idempotencyKey sync_sample_job" by code_simp
  have env: "se_loading (sample_env (\<lambda>n. if n = 2 then Some Exn_cancellation else None) ''p'') = None" by (simp add: sample_env_def)
  note blocks = cancelled_import_blocks [OF sample_facts(3,1,2) fresh env _ first_attempt_run rtranclp.rtrancl_refl left rtranclp.rtrancl_refl left
    other(2,3) differs, where newId = "''r3''"]
  have "startInstagramSyncRun (ac_workspaceId row_account) ?i ''r3'' (snd first_attempt) (snd first_attempt) =
      (Inl (mediaError ''SYNC_RUN_ALREADY_ACTIVE'' 409), snd first_attempt)"
    by (rule mp [OF conjunct2 [OF conjunct2 [OF blocks]]]) (use other(1,4) account in simp_all)
  then show ?thesis by simp
qed

theorem sync_states_witness:
  "media_ok (snd (startInstagramSyncRun (ac_workspaceId row_account) (sync_start_input sync_sample_job ''c'' row_account 5) ''r'' sync_sample sync_sample)) \<and>
   mt_runs (snd (startInstagramSyncRun (ac_workspaceId row_account) (sync_start_input sync_sample_job ''c'' row_account 5) ''r'' sync_sample sync_sample)) \<noteq> []"
proof -
  let ?start = "startInstagramSyncRun (ac_workspaceId row_account) (sync_start_input sync_sample_job ''c'' row_account 5) ''r'' sync_sample sync_sample"
  have "?start = (fst ?start, snd ?start)" by simp
  then have "sync_step sync_sample (snd ?start)" by (rule sync_step.start)
  then have "sync_step\<^sup>*\<^sup>* \<lparr>mt_accounts = [row_account\<lparr>ac_providerAccountId := ''17841400''\<rparr>], mt_posts = [], mt_runs = []\<rparr> (snd ?start)"
    unfolding sync_sample_def by (rule r_into_rtranclp)
  from sync_states [OF this rtranclp.rtrancl_refl] have "media_ok (snd ?start)" by simp
  moreover have "mt_runs (snd ?start) \<noteq> []" by code_simp
  ultimately show ?thesis by blast
qed

end
