(* ===== verification/Strategy_Contract.thy ===== *)
theory Strategy_Contract
  imports Job_Store Analytics_Fingerprints
begin

text \<open>
  The contract of a content strategy (\<open>packages/domain/src/strategy-contract.ts\<close>): the shape of an
  answer of the language model, and the rules it is held to against the frozen evidence it was given.

  The schema library decodes a value of unknown shape; it is a parameter that may return a strategy or the
  paths it rejects, and \<open>strategyV1Schema\<close> is what a strategy that passes it satisfies.  The compatibility
  normalisation and lower-casing of a text, which depend on Unicode tables, are a parameter as well.
  The messages of the issues are constants of their codes and are left out.
\<close>

section \<open>The taxonomy\<close>

datatype strategy_mode = SM_evidence_led | SM_exploratory
datatype evidence_role = ER_supporting | ER_counterexample | ER_limitation | ER_context
datatype evidence_type = ET_feature_statistic | ET_post_analysis | ET_metric_snapshot | ET_post | ET_data_quality | ET_recent_recommendation

datatype evidence_class = EC_statistically_supported_association | EC_moderate_association | EC_weak_directional_signal
  | EC_single_post_outlier | EC_insufficient_evidence | EC_unsupported | EC_creative_recommendation

datatype claim_dimension = CD_topic | CD_topic_saturation | CD_hook | CD_format | CD_duration | CD_editing_or_pacing | CD_cta
  | CD_presenter_mode | CD_visual_approach | CD_content_pillar | CD_other

definition strategyMetrics :: "string list" where
  "strategyMetrics = [''reach'', ''views'', ''plays'', ''likes'', ''comments'', ''shares'', ''saves'', ''profile_visits'', ''follows'',
     ''total_watch_time_ms'', ''average_watch_time_ms'', ''engagement_count'', ''engagement_rate_reach'', ''like_rate_reach'',
     ''comment_rate_reach'', ''share_rate_reach'', ''save_rate_reach'', ''profile_visit_rate_reach'', ''follow_conversion_rate'',
     ''follow_rate_reach'', ''average_watch_percentage'', ''completion_proxy'']"

definition observationWindows :: "string list" where
  "observationWindows = [''1h'', ''24h'', ''3d'', ''7d'', ''30d'', ''mature'']"

definition contentPillars :: "string list" where
  "contentPillars = [''education_and_insight'', ''work_and_case_studies'', ''process_and_craft'', ''studio_and_team'',
     ''offer_and_conversion'', ''other'', ''unknown'']"

definition contentFormats :: "string list" where
  "contentFormats = [''educational'', ''opinion'', ''story'', ''case_study'', ''entertainment'', ''behind_the_scenes'', ''promotional'',
     ''announcement'', ''interview'', ''mixed'', ''other'', ''unknown'']"

definition ctaTypes :: "string list" where
  "ctaTypes = [''follow'', ''comment'', ''share'', ''save'', ''direct_message'', ''visit_profile'', ''visit_link'', ''buy_or_book'',
     ''watch_next'', ''soft_engagement'', ''none'', ''other'', ''unknown'']"

section \<open>Texts\<close>

text \<open>The tag pattern, found anywhere: an angle bracket, perhaps a slash, a letter, and a closing bracket later.\<close>

definition is_letter :: "char \<Rightarrow> bool" where
  "is_letter c \<longleftrightarrow> is_upper c \<or> is_lower c"

definition tag_start :: "string \<Rightarrow> bool" where
  "tag_start s = (case s of c # t \<Rightarrow> c = CHR ''<'' \<and>
       (case (case t of d # u \<Rightarrow> if d = CHR ''/'' then u else t | [] \<Rightarrow> t) of d # u \<Rightarrow> is_letter d \<and> CHR ''>'' \<in> set u | [] \<Rightarrow> False)
     | [] \<Rightarrow> False)"

fun html_tag :: "string \<Rightarrow> bool" where
  "html_tag [] = False"
| "html_tag (c # cs) \<longleftrightarrow> tag_start (c # cs) \<or> html_tag cs"

definition containsUnsafeText :: "string \<Rightarrow> bool" where
  "containsUnsafeText s \<longleftrightarrow> html_tag s \<or>
     list_ex (\<lambda>c. let n = of_char c :: nat in n \<le> 8 \<or> n = 11 \<or> n = 12 \<or> (14 \<le> n \<and> n \<le> 31) \<or> n = 127) s"

definition boundedText :: "nat \<Rightarrow> nat \<Rightarrow> string \<Rightarrow> bool" where
  "boundedText minimum maximum s \<longleftrightarrow> minimum \<le> length s \<and> length s \<le> maximum \<and> \<not> containsUnsafeText s"

section \<open>The shape of a strategy\<close>

record evidence_reference =
  rf_evidenceId :: string
  rf_role :: evidence_role
  rf_explanation :: string

record strategy_experiment =
  ex_hypothesis :: string
  ex_variableToChange :: string
  ex_variablesToHoldStable :: "string list"
  ex_primaryMetric :: string
  ex_observationWindow :: string
  ex_minimumPosts :: int
  ex_decisionRule :: string
  ex_evidence :: "evidence_reference list"

record strategy_claim =
  pc_key :: string
  pc_dimension :: claim_dimension
  pc_statement :: string
  pc_classification :: evidence_class
  pc_sampleSize :: "int option"
  pc_whyItMatters :: string
  pc_evidence :: "evidence_reference list"

record strategy_section =
  sx_section :: string
  sx_purpose :: string
  sx_suggestedSeconds :: "js_num option"

record recommendation =
  rc_key :: string
  rc_title :: string
  rc_contentPillar :: string
  rc_topic :: string
  rc_format :: string
  rc_intendedAudience :: string
  rc_hookOptions :: "string list"
  rc_structure :: "strategy_section list"
  rc_filmingApproach :: "string list"
  rc_editingApproach :: "string list"
  rc_ctaType :: string
  rc_ctaText :: string
  rc_rationale :: string
  rc_classification :: evidence_class
  rc_evidence :: "evidence_reference list"
  rc_creativeLeap :: "string option"
  rc_iterationReason :: "string option"
  rc_experiment :: strategy_experiment

record pillar_allocation =
  pa_pillar :: string
  pa_allocationPercent :: int
  pa_rationale :: string
  pa_evidence :: "evidence_reference list"
  pa_classification :: evidence_class
  pa_experimental :: bool

record strategy_limitation =
  li_text :: string
  li_evidence :: "evidence_reference list"

record strategy =
  st_mode :: strategy_mode
  st_title :: string
  st_periodSummary :: string
  st_workingPatterns :: "strategy_claim list"
  st_weakPatterns :: "strategy_claim list"
  st_testsNext :: "strategy_experiment list"
  st_pillarPlan :: "pillar_allocation list"
  st_recommendations :: "recommendation list"
  st_limitations :: "strategy_limitation list"

definition evidence_id :: "string \<Rightarrow> bool" where
  "evidence_id s \<longleftrightarrow> 1 \<le> length s \<and> length s \<le> 80 \<and> list_all (\<lambda>c. is_alnum c \<or> c \<in> set ''_-'') s"

definition item_key :: "string \<Rightarrow> bool" where
  "item_key s \<longleftrightarrow> 2 \<le> length s \<and> head_tail is_lower (\<lambda>c. is_lower c \<or> is_digit c \<or> c = CHR ''_'') 79 s"

definition list_of :: "nat \<Rightarrow> nat \<Rightarrow> ('a \<Rightarrow> bool) \<Rightarrow> 'a list \<Rightarrow> bool" where
  "list_of minimum maximum P xs \<longleftrightarrow> minimum \<le> length xs \<and> length xs \<le> maximum \<and> list_all P xs"

definition nullable :: "('a \<Rightarrow> bool) \<Rightarrow> 'a option \<Rightarrow> bool" where
  "nullable P v = (case v of None \<Rightarrow> True | Some x \<Rightarrow> P x)"

definition evidenceReferenceSchema :: "evidence_reference \<Rightarrow> bool" where
  "evidenceReferenceSchema r \<longleftrightarrow> evidence_id (rf_evidenceId r) \<and> boundedText 1 500 (rf_explanation r)"

definition experimentSchema :: "strategy_experiment \<Rightarrow> bool" where
  "experimentSchema e \<longleftrightarrow> boundedText 1 500 (ex_hypothesis e) \<and> boundedText 1 200 (ex_variableToChange e) \<and>
     list_of 1 12 (boundedText 1 200) (ex_variablesToHoldStable e) \<and> ex_primaryMetric e \<in> set strategyMetrics \<and>
     ex_observationWindow e \<in> set observationWindows \<and> 2 \<le> ex_minimumPosts e \<and> ex_minimumPosts e \<le> 100 \<and>
     boundedText 1 500 (ex_decisionRule e) \<and> list_of 1 12 evidenceReferenceSchema (ex_evidence e)"

definition strategyClaimSchema :: "strategy_claim \<Rightarrow> bool" where
  "strategyClaimSchema c \<longleftrightarrow> item_key (pc_key c) \<and> boundedText 1 500 (pc_statement c) \<and>
     nullable (\<lambda>n. 0 \<le> n \<and> n \<le> 1000000) (pc_sampleSize c) \<and> boundedText 1 500 (pc_whyItMatters c) \<and>
     list_of 1 12 evidenceReferenceSchema (pc_evidence c)"

definition strategySectionSchema :: "strategy_section \<Rightarrow> bool" where
  "strategySectionSchema s \<longleftrightarrow> boundedText 1 100 (sx_section s) \<and> boundedText 1 300 (sx_purpose s) \<and>
     nullable (\<lambda>n. isFinite n \<and> jgt n (jint 0) \<and> jle n (jint 600)) (sx_suggestedSeconds s)"

definition recommendationSchema :: "recommendation \<Rightarrow> bool" where
  "recommendationSchema r \<longleftrightarrow> item_key (rc_key r) \<and> boundedText 1 200 (rc_title r) \<and> rc_contentPillar r \<in> set contentPillars \<and>
     boundedText 1 300 (rc_topic r) \<and> rc_format r \<in> set contentFormats \<and> boundedText 1 300 (rc_intendedAudience r) \<and>
     list_of 3 5 (boundedText 1 300) (rc_hookOptions r) \<and> list_of 2 10 strategySectionSchema (rc_structure r) \<and>
     list_of 1 12 (boundedText 1 300) (rc_filmingApproach r) \<and> list_of 1 12 (boundedText 1 300) (rc_editingApproach r) \<and>
     rc_ctaType r \<in> set ctaTypes \<and> boundedText 1 300 (rc_ctaText r) \<and> boundedText 1 800 (rc_rationale r) \<and>
     list_of 1 12 evidenceReferenceSchema (rc_evidence r) \<and> nullable (boundedText 1 500) (rc_creativeLeap r) \<and>
     nullable (boundedText 10 500) (rc_iterationReason r) \<and> experimentSchema (rc_experiment r)"

definition pillarAllocationSchema :: "pillar_allocation \<Rightarrow> bool" where
  "pillarAllocationSchema p \<longleftrightarrow> pa_pillar p \<in> set contentPillars \<and> 0 \<le> pa_allocationPercent p \<and> pa_allocationPercent p \<le> 100 \<and>
     boundedText 1 500 (pa_rationale p) \<and> list_of 1 12 evidenceReferenceSchema (pa_evidence p)"

definition strategyV1Schema :: "strategy \<Rightarrow> bool" where
  "strategyV1Schema s \<longleftrightarrow> boundedText 1 200 (st_title s) \<and> boundedText 1 1000 (st_periodSummary s) \<and>
     list_of 0 12 strategyClaimSchema (st_workingPatterns s) \<and> list_of 0 12 strategyClaimSchema (st_weakPatterns s) \<and>
     list_of 1 10 experimentSchema (st_testsNext s) \<and> list_of 1 7 pillarAllocationSchema (st_pillarPlan s) \<and>
     list_of 1 10 recommendationSchema (st_recommendations s) \<and>
     list_of 1 12 (\<lambda>l. boundedText 1 500 (li_text l) \<and> list_of 0 12 evidenceReferenceSchema (li_evidence l)) (st_limitations s)"

section \<open>Comparable texts and fingerprints\<close>

text \<open>\<open>replace(/[^P]+/gu, " ")\<close>: a run of other characters becomes one blank.\<close>

function replace_runs :: "(char \<Rightarrow> bool) \<Rightarrow> string \<Rightarrow> string" where
  "replace_runs P [] = []"
| "replace_runs P (c # cs) = (if P c then c # replace_runs P cs else CHR '' '' # replace_runs P (dropWhile (\<lambda>d. \<not> P d) cs))"
  by pat_completeness auto

termination by (relation "measure (\<lambda>(P, s). length s)") (auto simp: le_imp_less_Suc length_dropWhile_le)

definition normalizeComparableText :: "(string \<Rightarrow> string) \<Rightarrow> string \<Rightarrow> string" where
  "normalizeComparableText folded s =
     replace_runs (\<lambda>c. \<not> is_space c) (trim (replace_runs (\<lambda>c. is_lower c \<or> is_digit c) (folded s)))"

definition fnv1a64 :: "string \<Rightarrow> string" where
  "fnv1a64 s = (let hash = foldl (\<lambda>h c. xor h (of_nat (of_char c)) * 0x100000001b3) (0xcbf29ce484222325 :: 64 word) s
     in map (\<lambda>i. hex_digit (unat hash div 16 ^ i mod 16)) (rev [0..<16]))"

definition createStrategyRecommendationFingerprint :: "(string \<Rightarrow> string) \<Rightarrow> recommendation \<Rightarrow> string" where
  "createStrategyRecommendationFingerprint folded r =
     ''strategy-recommendation-v1:'' @ fnv1a64 (join ''|'' ([rc_contentPillar r, rc_format r, normalizeComparableText folded (rc_topic r),
       normalizeComparableText folded (rc_intendedAudience r)] @ sort (map (normalizeComparableText folded) (rc_hookOptions r))))"

section \<open>The rules\<close>

record manifest_evidence =
  sm_evidenceId :: string
  sm_type :: evidence_type
  sm_allowedRoles :: "evidence_role list"
  sm_classification :: "evidence_class option"
  sm_dimensions :: "claim_dimension list"
  sm_sampleSize :: "int option"
  sm_allowedNumericClaims :: "string list"
  sm_requiredInLimitations :: bool

record strategy_context =
  vc_mode :: strategy_mode
  vc_manifest :: "manifest_evidence list"
  vc_recentFingerprints :: "string list"

datatype issue_code = V_SCHEMA_INVALID | V_MODE_MISMATCH | V_EVIDENCE_NOT_IN_MANIFEST | V_EVIDENCE_ROLE_INVALID | V_EVIDENCE_DUPLICATE
  | V_EVIDENCE_REQUIRED | V_EVIDENCE_CLASS_UPGRADE | V_EMPIRICAL_CLASS_INVALID | V_COUNTEREVIDENCE_OMITTED | V_LIMITATION_OMITTED
  | V_ALLOCATION_INVALID | V_EXPLORATORY_RULE_VIOLATION | V_DUPLICATE_CONTENT | V_ITERATION_REASON_REQUIRED | V_EXPERIMENT_INVALID
  | V_RECOMMENDATION_INVALID

type_synonym issue = "issue_code \<times> string"

definition issue_if :: "bool \<Rightarrow> issue_code \<Rightarrow> string \<Rightarrow> issue list" where
  "issue_if b code path = (if b then [(code, path)] else [])"

definition at_index :: "string \<Rightarrow> nat \<Rightarrow> string" where
  "at_index path k = path @ ''['' @ nat_digits k @ '']''"

text \<open>\<open>forEach\<close> with the item, its index and the items before it, collecting issues.\<close>

definition for_each :: "(nat \<Rightarrow> 'a list \<Rightarrow> 'a \<Rightarrow> issue list) \<Rightarrow> 'a list \<Rightarrow> issue list" where
  "for_each f xs = concat (map (\<lambda>k. f k (take k xs) (xs ! k)) [0..<length xs])"

text \<open>The map of a manifest keeps its order; a manifest that is not one is a defect of the caller.\<close>

fun createManifestMap :: "string list \<Rightarrow> manifest_evidence list \<Rightarrow> exn option" where
  "createManifestMap seen [] = None"
| "createManifestMap seen (item # items) =
     (if \<not> evidence_id (sm_evidenceId item) then Some (Exn_other ''Manifest evidence ID is invalid'')
      else if sm_evidenceId item \<in> set seen then Some (Exn_other ''Manifest evidence ID is duplicated'')
      else if sm_allowedRoles item = [] then Some (Exn_other ''Manifest evidence item has no allowed role'')
      else createManifestMap (sm_evidenceId item # seen) items)"

definition manifest_get :: "manifest_evidence list \<Rightarrow> string \<Rightarrow> manifest_evidence option" where
  "manifest_get manifest i = find (\<lambda>item. sm_evidenceId item = i) manifest"

text \<open>The issues of the references from an index on, and the items they name.\<close>

fun reference_loop :: "manifest_evidence list \<Rightarrow> string \<Rightarrow> nat \<Rightarrow> string list \<Rightarrow> evidence_reference list \<Rightarrow> issue list \<times> manifest_evidence list" where
  "reference_loop manifest path k seen [] = ([], [])"
| "reference_loop manifest path k seen (r # rs) =
     (if rf_evidenceId r \<in> set seen
      then (case reference_loop manifest path (k + 1) seen rs of
          (issues, resolved) \<Rightarrow> ((V_EVIDENCE_DUPLICATE, at_index path k @ ''.evidenceId'') # issues, resolved))
      else case reference_loop manifest path (k + 1) (rf_evidenceId r # seen) rs of
          (issues, resolved) \<Rightarrow>
            (case manifest_get manifest (rf_evidenceId r) of
               None \<Rightarrow> ((V_EVIDENCE_NOT_IN_MANIFEST, at_index path k @ ''.evidenceId'') # issues, resolved)
             | Some item \<Rightarrow> (issue_if (rf_role r \<notin> set (sm_allowedRoles item)) V_EVIDENCE_ROLE_INVALID (at_index path k @ ''.role'') @ issues,
                 item # resolved)))"

definition validateEvidenceReferences :: "evidence_reference list \<Rightarrow> string \<Rightarrow> manifest_evidence list \<Rightarrow> issue list \<times> manifest_evidence list" where
  "validateEvidenceReferences refs path manifest =
     (if refs = [] then ([(V_EVIDENCE_REQUIRED, path)], []) else reference_loop manifest path 0 [] refs)"

fun evidenceClassRank :: "evidence_class \<Rightarrow> int" where
  "evidenceClassRank EC_unsupported = 0" | "evidenceClassRank EC_insufficient_evidence = 1" | "evidenceClassRank EC_single_post_outlier = 2"
| "evidenceClassRank EC_weak_directional_signal = 3" | "evidenceClassRank EC_moderate_association = 4"
| "evidenceClassRank EC_statistically_supported_association = 5" | "evidenceClassRank EC_creative_recommendation = - 1"

definition empiricalClaimClasses :: "evidence_class list" where
  "empiricalClaimClasses = [EC_statistically_supported_association, EC_moderate_association, EC_weak_directional_signal,
     EC_single_post_outlier, EC_insufficient_evidence]"

definition postEvidenceTypes :: "evidence_type list" where
  "postEvidenceTypes = [ET_post, ET_post_analysis, ET_metric_snapshot]"

definition validateEvidenceCeiling :: "evidence_class \<Rightarrow> manifest_evidence list \<Rightarrow> string \<Rightarrow> bool \<Rightarrow> bool \<Rightarrow> issue list" where
  "validateEvidenceCeiling classification resolved path requirePostEvidence requireStatistic =
     (if classification \<notin> set empiricalClaimClasses then [(V_EMPIRICAL_CLASS_INVALID, path)]
      else let statistics = filter (\<lambda>i. sm_type i = ET_feature_statistic \<and> sm_classification i \<noteq> None) resolved in
        if statistics = [] then issue_if (requireStatistic \<or> classification \<noteq> EC_insufficient_evidence) V_EVIDENCE_REQUIRED path
        else let strongestRank = Max (set (map (\<lambda>i. evidenceClassRank (coalesce (sm_classification i) EC_unsupported)) statistics)) in
          issue_if (evidenceClassRank classification > strongestRank) V_EVIDENCE_CLASS_UPGRADE path @
          issue_if (requirePostEvidence \<and> \<not> list_ex (\<lambda>i. sm_type i \<in> set postEvidenceTypes) resolved) V_EVIDENCE_REQUIRED path)"

definition validateCounterevidence :: "strategy_claim \<Rightarrow> string \<Rightarrow> manifest_evidence list \<Rightarrow> issue list" where
  "validateCounterevidence claim path manifest =
     concat (map (\<lambda>i. issue_if (\<not> list_ex (\<lambda>r. rf_evidenceId r = sm_evidenceId i \<and> rf_role r = ER_counterexample) (pc_evidence claim))
         V_COUNTEREVIDENCE_OMITTED (path @ ''.evidence''))
       (filter (\<lambda>i. pc_dimension claim \<in> set (sm_dimensions i) \<and> ER_counterexample \<in> set (sm_allowedRoles i)) manifest))"

definition patternClasses :: "bool \<Rightarrow> evidence_class list" where
  "patternClasses working = (if working then [EC_statistically_supported_association, EC_moderate_association, EC_weak_directional_signal]
     else [EC_weak_directional_signal, EC_single_post_outlier, EC_insufficient_evidence])"

definition validateClaims :: "strategy_claim list \<Rightarrow> bool \<Rightarrow> strategy_mode \<Rightarrow> manifest_evidence list \<Rightarrow> issue list" where
  "validateClaims claims working mode manifest = for_each (\<lambda>k _ claim.
     let path = at_index (if working then ''workingPatterns'' else ''weakPatterns'') k in
     case validateEvidenceReferences (pc_evidence claim) (path @ ''.evidence'') manifest of
       (issues, resolved) \<Rightarrow> issues @
         validateEvidenceCeiling (pc_classification claim) resolved (path @ ''.classification'') (mode = SM_evidence_led) (mode = SM_evidence_led) @
         issue_if (pc_classification claim \<notin> set (patternClasses working)) V_EMPIRICAL_CLASS_INVALID (path @ ''.classification'') @
         validateCounterevidence claim path manifest) claims"

definition validateExperiment :: "(string \<Rightarrow> string) \<Rightarrow> strategy_experiment \<Rightarrow> string \<Rightarrow> manifest_evidence list \<Rightarrow> issue list" where
  "validateExperiment folded e path manifest =
     fst (validateEvidenceReferences (ex_evidence e) (path @ ''.evidence'') manifest) @
     issue_if (list_ex (\<lambda>v. normalizeComparableText folded v = normalizeComparableText folded (ex_variableToChange e)) (ex_variablesToHoldStable e))
       V_EXPERIMENT_INVALID (path @ ''.variablesToHoldStable'')"

definition validatePillarPlan :: "strategy \<Rightarrow> manifest_evidence list \<Rightarrow> issue list" where
  "validatePillarPlan s manifest =
     issue_if (sum_list (map pa_allocationPercent (st_pillarPlan s)) \<noteq> 100) V_ALLOCATION_INVALID ''pillarPlan'' @
     for_each (\<lambda>k before p. let path = at_index ''pillarPlan'' k in
       issue_if (pa_pillar p \<in> pa_pillar ` set before) V_ALLOCATION_INVALID (path @ ''.pillar'') @
       issue_if (pa_pillar p = ''other'' \<or> pa_pillar p = ''unknown'') V_ALLOCATION_INVALID (path @ ''.pillar'') @
       (case validateEvidenceReferences (pa_evidence p) (path @ ''.evidence'') manifest of
          (issues, resolved) \<Rightarrow> issues @
            validateEvidenceCeiling (pa_classification p) resolved (path @ ''.classification'') False (st_mode s = SM_evidence_led)) @
       issue_if (pa_experimental p \<noteq> (st_mode s = SM_exploratory)) V_EXPLORATORY_RULE_VIOLATION (path @ ''.experimental'')) (st_pillarPlan s)"

definition validateRecommendation :: "(string \<Rightarrow> string) \<Rightarrow> string list \<Rightarrow> manifest_evidence list \<Rightarrow> nat \<Rightarrow> recommendation list \<Rightarrow> recommendation \<Rightarrow> issue list" where
  "validateRecommendation folded recent manifest k before r =
     (let path = at_index ''recommendations'' k;
          fingerprint = createStrategyRecommendationFingerprint folded r
      in case validateEvidenceReferences (rc_evidence r) (path @ ''.evidence'') manifest of
        (issues, resolved) \<Rightarrow> issues @
          issue_if (rc_classification r \<noteq> EC_creative_recommendation) V_EMPIRICAL_CLASS_INVALID (path @ ''.classification'') @
          issue_if (rc_contentPillar r = ''other'' \<or> rc_contentPillar r = ''unknown'') V_RECOMMENDATION_INVALID (path @ ''.contentPillar'') @
          issue_if (rc_format r = ''unknown'') V_RECOMMENDATION_INVALID (path @ ''.format'') @
          issue_if (rc_ctaType r = ''none'' \<or> rc_ctaType r = ''unknown'') V_RECOMMENDATION_INVALID (path @ ''.cta.type'') @
          issue_if (\<not> list_ex (\<lambda>i. sm_type i = ET_feature_statistic) resolved \<and> rc_creativeLeap r = None) V_EVIDENCE_REQUIRED (path @ ''.creativeLeap'') @
          for_each (\<lambda>j hooks hook. issue_if (normalizeComparableText folded hook \<in> normalizeComparableText folded ` set hooks)
            V_DUPLICATE_CONTENT (at_index (path @ ''.hookOptions'') j)) (rc_hookOptions r) @
          issue_if (normalizeComparableText folded (rc_title r) \<in> (normalizeComparableText folded \<circ> rc_title) ` set before)
            V_DUPLICATE_CONTENT (path @ ''.title'') @
          issue_if (fingerprint \<in> createStrategyRecommendationFingerprint folded ` set before) V_DUPLICATE_CONTENT path @
          issue_if (fingerprint \<in> set recent \<and> rc_iterationReason r = None) V_ITERATION_REASON_REQUIRED (path @ ''.iterationReason'') @
          validateExperiment folded (rc_experiment r) (path @ ''.experiment'') manifest)"

definition validateRecommendations :: "(string \<Rightarrow> string) \<Rightarrow> strategy \<Rightarrow> string list \<Rightarrow> manifest_evidence list \<Rightarrow> issue list" where
  "validateRecommendations folded s recent manifest = for_each (validateRecommendation folded recent manifest) (st_recommendations s)"

definition limitation_references :: "strategy \<Rightarrow> string list" where
  "limitation_references s = concat (map (\<lambda>l. map rf_evidenceId (filter (\<lambda>r. rf_role r = ER_limitation) (li_evidence l))) (st_limitations s))"

definition validateRequiredLimitations :: "strategy \<Rightarrow> manifest_evidence list \<Rightarrow> issue list" where
  "validateRequiredLimitations s manifest =
     concat (map (\<lambda>i. issue_if (sm_requiredInLimitations i \<and> sm_evidenceId i \<notin> set (limitation_references s)) V_LIMITATION_OMITTED ''limitations'') manifest) @
     for_each (\<lambda>k _ l. if li_evidence l = [] then []
       else fst (validateEvidenceReferences (li_evidence l) (at_index ''limitations'' k @ ''.evidence'') manifest)) (st_limitations s)"

definition validateUniqueKeys :: "strategy \<Rightarrow> issue list" where
  "validateUniqueKeys s =
     (let working = map pc_key (st_workingPatterns s); weak = map pc_key (st_weakPatterns s); recommended = map rc_key (st_recommendations s);
          group = (\<lambda>name earlier. for_each (\<lambda>k before key. issue_if (key \<in> set earlier \<or> key \<in> set before) V_DUPLICATE_CONTENT (at_index name k @ ''.key'')))
      in group ''workingPatterns'' [] working @ group ''weakPatterns'' working weak @ group ''recommendations'' (working @ weak) recommended)"

text \<open>\<open>/^\s*insufficient\b/iu\<close>.\<close>

definition leads_with_insufficiency :: "string \<Rightarrow> bool" where
  "leads_with_insufficiency summary =
     (let s = dropWhile is_space summary in map lower_char (take 12 s) = ''insufficient'' \<and>
        (case drop 12 s of [] \<Rightarrow> True | c # _ \<Rightarrow> \<not> (is_alnum c \<or> c = CHR ''_'')))"

definition validateExploratoryRules :: "strategy \<Rightarrow> issue list" where
  "validateExploratoryRules s =
     (if st_mode s \<noteq> SM_exploratory then []
      else issue_if (st_workingPatterns s \<noteq> []) V_EXPLORATORY_RULE_VIOLATION ''workingPatterns'' @
        issue_if (\<not> leads_with_insufficiency (st_periodSummary s)) V_EXPLORATORY_RULE_VIOLATION ''periodSummary'' @
        issue_if (list_ex (\<lambda>c. c \<in> {EC_statistically_supported_association, EC_moderate_association})
            (map pc_classification (st_weakPatterns s) @ map pa_classification (st_pillarPlan s)))
          V_EXPLORATORY_RULE_VIOLATION ''mode'')"

definition strategy_issues :: "(string \<Rightarrow> string) \<Rightarrow> strategy_context \<Rightarrow> strategy \<Rightarrow> issue list" where
  "strategy_issues folded context s =
     (let manifest = vc_manifest context in
      issue_if (st_mode s \<noteq> vc_mode context) V_MODE_MISMATCH ''mode'' @
      issue_if (manifest = []) V_EVIDENCE_REQUIRED ''manifest'' @
      validateClaims (st_workingPatterns s) True (st_mode s) manifest @
      validateClaims (st_weakPatterns s) False (st_mode s) manifest @
      for_each (\<lambda>k _ e. validateExperiment folded e (at_index ''testsNext'' k) manifest) (st_testsNext s) @
      validatePillarPlan s manifest @
      validateRecommendations folded s (vc_recentFingerprints context) manifest @
      validateRequiredLimitations s manifest @
      validateUniqueKeys s @
      validateExploratoryRules s)"

text \<open>\<open>validateStrategyV1\<close>: the exception of a defective manifest, the issues, or the strategy.\<close>

definition validateStrategyV1 :: "('v \<Rightarrow> string list + strategy) \<Rightarrow> (string \<Rightarrow> string) \<Rightarrow> 'v \<Rightarrow> strategy_context \<Rightarrow> exn + (issue list + strategy)" where
  "validateStrategyV1 schema folded value context =
     (case schema value of
        Inl paths \<Rightarrow> Inr (Inl (map (\<lambda>p. (V_SCHEMA_INVALID, p)) paths))
      | Inr s \<Rightarrow>
          (case createManifestMap [] (vc_manifest context) of
             Some e \<Rightarrow> Inl e
           | None \<Rightarrow> let issues = strategy_issues folded context s in if issues = [] then Inr (Inr s) else Inr (Inl issues)))"

text \<open>\<open>completeStrategyV1\<close>: the caller's own facts over whatever the model returned.\<close>

definition set_field :: "string \<Rightarrow> 'n js_value \<Rightarrow> (string \<times> 'n js_value) list \<Rightarrow> (string \<times> 'n js_value) list" where
  "set_field k v fs = (if k \<in> fst ` set fs then map (\<lambda>(a, b). (a, if a = k then v else b)) fs else fs @ [(k, v)])"

fun mode_text :: "strategy_mode \<Rightarrow> string" where
  "mode_text SM_evidence_led = ''evidence_led''" | "mode_text SM_exploratory = ''exploratory''"

definition strategySchemaVersion :: string where
  "strategySchemaVersion = ''account-content-strategy-v1.0.0''"

definition completeStrategyV1 :: "'n js_value \<Rightarrow> strategy_mode \<Rightarrow> 'n js_value" where
  "completeStrategyV1 response mode = (case response of
       JObj fs \<Rightarrow> JObj (set_field ''mode'' (js_value.JStr (mode_text mode)) (set_field ''schemaVersion'' (js_value.JStr strategySchemaVersion) fs))
     | _ \<Rightarrow> response)"

section \<open>The rules as a specification\<close>

text \<open>References that may be made, the items they name, and the strength a classification may have over them.\<close>

definition cites_ok :: "manifest_evidence list \<Rightarrow> evidence_reference list \<Rightarrow> bool" where
  "cites_ok m refs \<longleftrightarrow> refs \<noteq> [] \<and> distinct (map rf_evidenceId refs) \<and>
     (\<forall>r \<in> set refs. \<exists>i \<in> set m. sm_evidenceId i = rf_evidenceId r \<and> rf_role r \<in> set (sm_allowedRoles i))"

definition cited :: "manifest_evidence list \<Rightarrow> evidence_reference list \<Rightarrow> manifest_evidence set" where
  "cited m refs = {i \<in> set m. sm_evidenceId i \<in> rf_evidenceId ` set refs}"

definition statistic :: "manifest_evidence \<Rightarrow> bool" where
  "statistic i \<longleftrightarrow> sm_type i = ET_feature_statistic \<and> sm_classification i \<noteq> None"

definition within_ceiling :: "manifest_evidence set \<Rightarrow> evidence_class \<Rightarrow> bool \<Rightarrow> bool \<Rightarrow> bool" where
  "within_ceiling items cls post_needed statistic_needed \<longleftrightarrow> cls \<in> set empiricalClaimClasses \<and>
     (if \<exists>i \<in> items. statistic i
      then (\<exists>i \<in> items. statistic i \<and> evidenceClassRank cls \<le> evidenceClassRank (the (sm_classification i))) \<and>
        (post_needed \<longrightarrow> (\<exists>i \<in> items. sm_type i \<in> set postEvidenceTypes))
      else \<not> statistic_needed \<and> cls = EC_insufficient_evidence)"

definition pattern_sound :: "manifest_evidence list \<Rightarrow> strategy_mode \<Rightarrow> bool \<Rightarrow> strategy_claim \<Rightarrow> bool" where
  "pattern_sound m mode working c \<longleftrightarrow> cites_ok m (pc_evidence c) \<and>
     within_ceiling (cited m (pc_evidence c)) (pc_classification c) (mode = SM_evidence_led) (mode = SM_evidence_led) \<and>
     pc_classification c \<in> set (patternClasses working) \<and>
     (\<forall>i \<in> set m. pc_dimension c \<in> set (sm_dimensions i) \<and> ER_counterexample \<in> set (sm_allowedRoles i) \<longrightarrow>
        (\<exists>r \<in> set (pc_evidence c). rf_evidenceId r = sm_evidenceId i \<and> rf_role r = ER_counterexample))"

definition experiment_sound :: "(string \<Rightarrow> string) \<Rightarrow> manifest_evidence list \<Rightarrow> strategy_experiment \<Rightarrow> bool" where
  "experiment_sound folded m e \<longleftrightarrow> cites_ok m (ex_evidence e) \<and>
     normalizeComparableText folded (ex_variableToChange e) \<notin> normalizeComparableText folded ` set (ex_variablesToHoldStable e)"

definition allocation_sound :: "manifest_evidence list \<Rightarrow> strategy_mode \<Rightarrow> pillar_allocation \<Rightarrow> bool" where
  "allocation_sound m mode p \<longleftrightarrow> pa_pillar p \<notin> {''other'', ''unknown''} \<and> cites_ok m (pa_evidence p) \<and>
     within_ceiling (cited m (pa_evidence p)) (pa_classification p) False (mode = SM_evidence_led) \<and>
     (pa_experimental p \<longleftrightarrow> mode = SM_exploratory)"

definition recommendation_sound :: "(string \<Rightarrow> string) \<Rightarrow> string list \<Rightarrow> manifest_evidence list \<Rightarrow> recommendation \<Rightarrow> bool" where
  "recommendation_sound folded recent m r \<longleftrightarrow> cites_ok m (rc_evidence r) \<and> rc_classification r = EC_creative_recommendation \<and>
     rc_contentPillar r \<notin> {''other'', ''unknown''} \<and> rc_format r \<noteq> ''unknown'' \<and> rc_ctaType r \<notin> {''none'', ''unknown''} \<and>
     (rc_creativeLeap r = None \<longrightarrow> (\<exists>i \<in> cited m (rc_evidence r). sm_type i = ET_feature_statistic)) \<and>
     distinct (map (normalizeComparableText folded) (rc_hookOptions r)) \<and>
     (createStrategyRecommendationFingerprint folded r \<in> set recent \<longrightarrow> rc_iterationReason r \<noteq> None) \<and>
     experiment_sound folded m (rc_experiment r)"

definition limitations_sound :: "manifest_evidence list \<Rightarrow> strategy_limitation list \<Rightarrow> bool" where
  "limitations_sound m ls \<longleftrightarrow>
     (\<forall>i \<in> set m. sm_requiredInLimitations i \<longrightarrow>
        (\<exists>l \<in> set ls. \<exists>r \<in> set (li_evidence l). rf_role r = ER_limitation \<and> rf_evidenceId r = sm_evidenceId i)) \<and>
     (\<forall>l \<in> set ls. li_evidence l \<noteq> [] \<longrightarrow> cites_ok m (li_evidence l))"

definition exploratory_sound :: "strategy \<Rightarrow> bool" where
  "exploratory_sound s \<longleftrightarrow> (st_mode s = SM_exploratory \<longrightarrow> st_workingPatterns s = [] \<and> leads_with_insufficiency (st_periodSummary s) \<and>
     (\<forall>c \<in> pc_classification ` set (st_weakPatterns s) \<union> pa_classification ` set (st_pillarPlan s).
        evidenceClassRank c < evidenceClassRank EC_moderate_association))"

definition strategy_sound :: "(string \<Rightarrow> string) \<Rightarrow> strategy_context \<Rightarrow> strategy \<Rightarrow> bool" where
  "strategy_sound folded context s \<longleftrightarrow> (let m = vc_manifest context in
     st_mode s = vc_mode context \<and> m \<noteq> [] \<and>
     (\<forall>c \<in> set (st_workingPatterns s). pattern_sound m (st_mode s) True c) \<and> (\<forall>c \<in> set (st_weakPatterns s). pattern_sound m (st_mode s) False c) \<and>
     (\<forall>e \<in> set (st_testsNext s). experiment_sound folded m e) \<and>
     (\<Sum>p \<leftarrow> st_pillarPlan s. pa_allocationPercent p) = 100 \<and> distinct (map pa_pillar (st_pillarPlan s)) \<and>
     (\<forall>p \<in> set (st_pillarPlan s). allocation_sound m (st_mode s) p) \<and>
     (\<forall>r \<in> set (st_recommendations s). recommendation_sound folded (vc_recentFingerprints context) m r) \<and>
     distinct (map (normalizeComparableText folded \<circ> rc_title) (st_recommendations s)) \<and>
     distinct (map (createStrategyRecommendationFingerprint folded) (st_recommendations s)) \<and>
     limitations_sound m (st_limitations s) \<and>
     distinct (map pc_key (st_workingPatterns s) @ map pc_key (st_weakPatterns s) @ map rc_key (st_recommendations s)) \<and>
     exploratory_sound s)"

section \<open>The routine decides the specification\<close>

named_theorems issue_simps \<open>when a check of the validator reports nothing\<close>

lemma issue_if_Nil [issue_simps]: "issue_if b c p = [] \<longleftrightarrow> \<not> b"
  by (simp add: issue_if_def)

lemma for_each_Nil: "for_each f xs = [] \<longleftrightarrow> (\<forall>k < length xs. f k (take k xs) (xs ! k) = [])"
  by (auto simp: for_each_def)

text \<open>A check that looks at the items before each one is one for distinctness.\<close>

lemma fresh_iff_distinct: "(\<forall>k < length xs. g (xs ! k) \<notin> g ` set (take k xs)) \<longleftrightarrow> distinct (map g xs)"
proof (induction xs rule: rev_induct)
  case (snoc x xs)
  have "(\<forall>k < length (xs @ [x]). g ((xs @ [x]) ! k) \<notin> g ` set (take k (xs @ [x]))) \<longleftrightarrow>
      (\<forall>k < length xs. g (xs ! k) \<notin> g ` set (take k xs)) \<and> g x \<notin> g ` set xs"
    by (auto simp: less_Suc_eq nth_append)
  with snoc show ?case by simp
qed simp

lemma for_each_all: "(\<forall>k < length xs. P (xs ! k)) \<longleftrightarrow> (\<forall>x \<in> set xs. P x)"
  by (simp add: all_set_conv_all_nth)

lemma createManifestMap_None:
  "createManifestMap seen m = None \<longleftrightarrow> distinct (map sm_evidenceId m) \<and> set (map sm_evidenceId m) \<inter> set seen = {} \<and>
     (\<forall>i \<in> set m. evidence_id (sm_evidenceId i) \<and> sm_allowedRoles i \<noteq> [])"
  by (induction seen m rule: createManifestMap.induct) auto

lemma manifest_get_iff:
  assumes "distinct (map sm_evidenceId m)"
  shows "manifest_get m k = Some i \<longleftrightarrow> i \<in> set m \<and> sm_evidenceId i = k"
proof
  assume "manifest_get m k = Some i"
  then show "i \<in> set m \<and> sm_evidenceId i = k" using find_Some_iff2 [of "\<lambda>i. sm_evidenceId i = k" m i] by (simp add: manifest_get_def)
next
  assume i: "i \<in> set m \<and> sm_evidenceId i = k"
  then obtain j where "manifest_get m k = Some j" unfolding manifest_get_def by (cases "find (\<lambda>i. sm_evidenceId i = k) m") (auto simp: find_None_iff2)
  moreover from this have "j \<in> set m \<and> sm_evidenceId j = k" using find_Some_iff2 [of "\<lambda>i. sm_evidenceId i = k" m j] by (simp add: manifest_get_def)
  ultimately show "manifest_get m k = Some i" using i distinct_map_inj [OF assms, of i j] by simp
qed

lemma manifest_get_None: "manifest_get m k = None \<longleftrightarrow> k \<notin> sm_evidenceId ` set m"
  by (auto simp: manifest_get_def find_None_iff2)

lemma reference_loop_ok:
  assumes "distinct (map sm_evidenceId m)" "reference_loop m path k seen refs = (issues, resolved)"
  shows "(issues = [] \<longleftrightarrow> distinct (map rf_evidenceId refs) \<and> set (map rf_evidenceId refs) \<inter> set seen = {} \<and>
      (\<forall>r \<in> set refs. \<exists>i \<in> set m. sm_evidenceId i = rf_evidenceId r \<and> rf_role r \<in> set (sm_allowedRoles i))) \<and>
    set resolved = {i \<in> set m. sm_evidenceId i \<in> rf_evidenceId ` set refs - set seen}"
  using assms(2,1)
proof (induction m path k seen refs arbitrary: issues resolved rule: reference_loop.induct)
  case (2 m path k seen r rs)
  note m = "2.prems"(2)
  show ?case
  proof (cases "rf_evidenceId r \<in> set seen")
    case True
    obtain iss ms where rest: "reference_loop m path (k + 1) seen rs = (iss, ms)" by fastforce
    then have eq: "issues = (V_EVIDENCE_DUPLICATE, at_index path k @ ''.evidenceId'') # iss" "resolved = ms" using "2.prems"(1) True by simp_all
    show ?thesis using "2.IH"(1) [OF True rest m] True unfolding eq by auto
  next
    case False
    obtain iss ms where rest: "reference_loop m path (k + 1) (rf_evidenceId r # seen) rs = (iss, ms)" by fastforce
    note IH = "2.IH"(2) [OF False rest m]
    show ?thesis
    proof (cases "manifest_get m (rf_evidenceId r)")
      case None
      then have eq: "issues = (V_EVIDENCE_NOT_IN_MANIFEST, at_index path k @ ''.evidenceId'') # iss" "resolved = ms" using "2.prems"(1) False rest by simp_all
      show ?thesis using IH None False unfolding eq manifest_get_None by (auto simp: image_iff)
    next
      case (Some i)
      have i: "i \<in> set m" "sm_evidenceId i = rf_evidenceId r" using Some [unfolded manifest_get_iff [OF m]] by simp_all
      have only: "j = i" if "j \<in> set m" "sm_evidenceId j = rf_evidenceId r" for j using distinct_map_inj [OF m that(1) i(1)] that(2) i(2) by simp
      have eq: "issues = issue_if (rf_role r \<notin> set (sm_allowedRoles i)) V_EVIDENCE_ROLE_INVALID (at_index path k @ ''.role'') @ iss" "resolved = i # ms"
        using "2.prems"(1) False rest Some by simp_all
      have role: "(\<exists>j \<in> set m. sm_evidenceId j = rf_evidenceId r \<and> rf_role r \<in> set (sm_allowedRoles j)) \<longleftrightarrow> rf_role r \<in> set (sm_allowedRoles i)"
        using i only by metis
      have "set resolved = {j \<in> set m. sm_evidenceId j \<in> rf_evidenceId ` set (r # rs) - set seen}"
      proof (rule set_eqI)
        fix j
        have ms: "j \<in> set ms \<longleftrightarrow> j \<in> set m \<and> sm_evidenceId j \<in> rf_evidenceId ` set rs \<and> sm_evidenceId j \<noteq> rf_evidenceId r \<and> sm_evidenceId j \<notin> set seen"
          using IH by auto
        show "j \<in> set resolved \<longleftrightarrow> j \<in> {j \<in> set m. sm_evidenceId j \<in> rf_evidenceId ` set (r # rs) - set seen}"
        proof (cases "j = i")
          case True
          then show ?thesis using i False by (simp add: eq)
        next
          case False
          then have "j \<in> set m \<Longrightarrow> sm_evidenceId j \<noteq> rf_evidenceId r" using only by blast
          with False show ?thesis unfolding eq using ms by auto
        qed
      qed
      moreover have "issues = [] \<longleftrightarrow> distinct (map rf_evidenceId (r # rs)) \<and> set (map rf_evidenceId (r # rs)) \<inter> set seen = {} \<and>
          (\<forall>s \<in> set (r # rs). \<exists>j \<in> set m. sm_evidenceId j = rf_evidenceId s \<and> rf_role s \<in> set (sm_allowedRoles j))"
        using IH role False unfolding eq by (auto simp: issue_if_def)
      ultimately show ?thesis by blast
    qed
  qed
qed simp

lemma references_ok:
  assumes "distinct (map sm_evidenceId m)"
  shows "fst (validateEvidenceReferences refs path m) = [] \<longleftrightarrow> cites_ok m refs"
    "set (snd (validateEvidenceReferences refs path m)) = cited m refs"
  using reference_loop_ok [OF assms, of path 0 "[]" refs "fst (reference_loop m path 0 [] refs)" "snd (reference_loop m path 0 [] refs)"]
  by (auto simp: validateEvidenceReferences_def cites_ok_def cited_def)

lemma ceiling_ok:
  "validateEvidenceCeiling cls resolved path post_needed statistic_needed = [] \<longleftrightarrow> within_ceiling (set resolved) cls post_needed statistic_needed"
proof -
  define S where "S = filter (\<lambda>i. sm_type i = ET_feature_statistic \<and> sm_classification i \<noteq> None) resolved"
  have S: "set S = {i \<in> set resolved. statistic i}" by (auto simp: S_def statistic_def)
  have rank: "evidenceClassRank (coalesce (sm_classification i) EC_unsupported) = evidenceClassRank (the (sm_classification i))" if "i \<in> set S" for i
    using that by (auto simp: S_def)
  show ?thesis
  proof (cases "S = []")
    case True
    then have "\<not> (\<exists>i \<in> set resolved. statistic i)" using S by auto
    then show ?thesis using True unfolding validateEvidenceCeiling_def S_def [symmetric] within_ceiling_def by (auto simp: issue_if_def)
  next
    case False
    then obtain i where "i \<in> set S" by (cases S) auto
    then have some: "\<exists>i \<in> set resolved. statistic i" using S by blast
    have "evidenceClassRank cls > Max (set (map (\<lambda>i. evidenceClassRank (coalesce (sm_classification i) EC_unsupported)) S)) \<longleftrightarrow>
        \<not> (\<exists>i \<in> set resolved. statistic i \<and> evidenceClassRank cls \<le> evidenceClassRank (the (sm_classification i)))"
      using False some S rank by (subst Max_less_iff) (auto simp: not_le)
    then show ?thesis using False some unfolding validateEvidenceCeiling_def S_def [symmetric] within_ceiling_def
      by (auto simp: issue_if_def list_ex_iff Let_def)
  qed
qed

lemma checks_claim:
  assumes "distinct (map sm_evidenceId m)"
  shows "validateClaims cs working mode m = [] \<longleftrightarrow> (\<forall>c \<in> set cs. pattern_sound m mode working c)"
  unfolding validateClaims_def for_each_Nil for_each_all [of cs "pattern_sound m mode working", symmetric]
  by (simp add: Let_def case_prod_beta references_ok [OF assms] ceiling_ok issue_if_Nil pattern_sound_def validateCounterevidence_def list_ex_iff)
    blast

lemma checks_experiment:
  assumes "distinct (map sm_evidenceId m)"
  shows "validateExperiment folded e path m = [] \<longleftrightarrow> experiment_sound folded m e"
  by (auto simp: validateExperiment_def references_ok [OF assms] issue_if_Nil experiment_sound_def list_ex_iff image_iff)

lemma checks_plan:
  assumes "distinct (map sm_evidenceId m)"
  shows "validatePillarPlan s m = [] \<longleftrightarrow> (\<Sum>p \<leftarrow> st_pillarPlan s. pa_allocationPercent p) = 100 \<and> distinct (map pa_pillar (st_pillarPlan s)) \<and>
    (\<forall>p \<in> set (st_pillarPlan s). allocation_sound m (st_mode s) p)"
proof -
  let ?xs = "st_pillarPlan s"
  have "validatePillarPlan s m = [] \<longleftrightarrow> (\<Sum>p \<leftarrow> ?xs. pa_allocationPercent p) = 100 \<and>
      (\<forall>k < length ?xs. pa_pillar (?xs ! k) \<notin> pa_pillar ` set (take k ?xs) \<and> allocation_sound m (st_mode s) (?xs ! k))"
    unfolding validatePillarPlan_def
    by (simp add: for_each_Nil Let_def case_prod_beta references_ok [OF assms] ceiling_ok issue_if_Nil allocation_sound_def conj_ac)
  also have "\<dots> \<longleftrightarrow> (\<Sum>p \<leftarrow> ?xs. pa_allocationPercent p) = 100 \<and> distinct (map pa_pillar ?xs) \<and> (\<forall>p \<in> set ?xs. allocation_sound m (st_mode s) p)"
    unfolding fresh_iff_distinct [symmetric] for_each_all [symmetric] by blast
  finally show ?thesis .
qed

lemma checks_hooks:
  "for_each (\<lambda>j hooks hook. issue_if (f hook \<in> f ` set hooks) c (p j)) xs = [] \<longleftrightarrow> distinct (map f xs)"
  unfolding for_each_Nil issue_if_Nil fresh_iff_distinct ..

lemma checks_recommendation:
  assumes "distinct (map sm_evidenceId m)"
  shows "validateRecommendation folded recent m k before r = [] \<longleftrightarrow> recommendation_sound folded recent m r \<and>
    (normalizeComparableText folded \<circ> rc_title) r \<notin> (normalizeComparableText folded \<circ> rc_title) ` set before \<and>
    createStrategyRecommendationFingerprint folded r \<notin> createStrategyRecommendationFingerprint folded ` set before"
  unfolding validateRecommendation_def Let_def case_prod_beta append_is_Nil_conv references_ok [OF assms] checks_hooks issue_if_Nil
    checks_experiment [OF assms] recommendation_sound_def list_ex_iff by auto

lemma checks_recommendations:
  assumes "distinct (map sm_evidenceId m)"
  shows "validateRecommendations folded s recent m = [] \<longleftrightarrow> (\<forall>r \<in> set (st_recommendations s). recommendation_sound folded recent m r) \<and>
    distinct (map (normalizeComparableText folded \<circ> rc_title) (st_recommendations s)) \<and>
    distinct (map (createStrategyRecommendationFingerprint folded) (st_recommendations s))"
  unfolding validateRecommendations_def for_each_Nil checks_recommendation [OF assms] fresh_iff_distinct [symmetric] for_each_all [symmetric] by blast

lemma checks_limitations:
  assumes "distinct (map sm_evidenceId m)"
  shows "validateRequiredLimitations s m = [] \<longleftrightarrow> limitations_sound m (st_limitations s)"
proof -
  have refs: "k \<in> set (limitation_references s) \<longleftrightarrow> (\<exists>l \<in> set (st_limitations s). \<exists>r \<in> set (li_evidence l). rf_role r = ER_limitation \<and> rf_evidenceId r = k)" for k
    by (auto simp: limitation_references_def)
  have "for_each (\<lambda>k _ l. if li_evidence l = [] then [] else fst (validateEvidenceReferences (li_evidence l) (at_index ''limitations'' k @ ''.evidence'') m))
      (st_limitations s) = [] \<longleftrightarrow> (\<forall>l \<in> set (st_limitations s). li_evidence l \<noteq> [] \<longrightarrow> cites_ok m (li_evidence l))"
    unfolding for_each_Nil for_each_all [of "st_limitations s" "\<lambda>l. li_evidence l \<noteq> [] \<longrightarrow> cites_ok m (li_evidence l)", symmetric]
    using references_ok(1) [OF assms] by (metis)
  then show ?thesis by (auto simp: validateRequiredLimitations_def limitations_sound_def issue_if_Nil refs)
qed

lemma checks_group:
  "for_each (\<lambda>k before key. issue_if (key \<in> set earlier \<or> key \<in> set before) c (p k)) xs = [] \<longleftrightarrow> distinct xs \<and> set xs \<inter> set earlier = {}"
  using fresh_iff_distinct [of xs id] for_each_all [of xs "\<lambda>x. x \<notin> set earlier"] unfolding for_each_Nil issue_if_Nil by auto

lemma checks_keys:
  "validateUniqueKeys s = [] \<longleftrightarrow> distinct (map pc_key (st_workingPatterns s) @ map pc_key (st_weakPatterns s) @ map rc_key (st_recommendations s))"
  unfolding validateUniqueKeys_def Let_def append_is_Nil_conv checks_group distinct_append by auto

lemma checks_exploratory: "validateExploratoryRules s = [] \<longleftrightarrow> exploratory_sound s"
proof -
  have "c \<in> {EC_statistically_supported_association, EC_moderate_association} \<longleftrightarrow> \<not> evidenceClassRank c < evidenceClassRank EC_moderate_association" for c
    by (cases c) simp_all
  then show ?thesis unfolding validateExploratoryRules_def exploratory_sound_def by (auto simp: issue_if_Nil list_ex_iff)
qed

lemma issues_decide:
  assumes "createManifestMap [] (vc_manifest context) = None"
  shows "strategy_issues folded context s = [] \<longleftrightarrow> strategy_sound folded context s"
proof -
  have d: "distinct (map sm_evidenceId (vc_manifest context))" using assms by (simp add: createManifestMap_None)
  have "for_each (\<lambda>k _ e. validateExperiment folded e (at_index ''testsNext'' k) (vc_manifest context)) (st_testsNext s) = [] \<longleftrightarrow>
      (\<forall>e \<in> set (st_testsNext s). experiment_sound folded (vc_manifest context) e)"
    unfolding for_each_Nil checks_experiment [OF d] for_each_all ..
  then show ?thesis
    unfolding strategy_issues_def strategy_sound_def Let_def append_is_Nil_conv issue_if_Nil checks_claim [OF d] checks_plan [OF d]
      checks_recommendations [OF d] checks_limitations [OF d] checks_keys checks_exploratory by blast
qed

lemma accepted_sound:
  assumes "validateStrategyV1 schema folded answer context = Inr (Inr s)"
  shows "strategy_sound folded context s"
  using assms issues_decide [of "context" folded s] by (auto simp: validateStrategyV1_def Let_def split: sum.splits option.splits if_splits)

text \<open>
  C5: the validator decides the contract.  Over a manifest whose items have distinct, well-formed
  identifiers and a role each, an answer is accepted exactly when the schema library decodes it and
  the strategy satisfies every rule of the specification: each reference names an item of the manifest
  in a role it may have, no classification is stronger than the strongest statistic it cites, every counterexample and
  required limitation is there, the allocation is whole, and nothing is repeated.  A manifest that
  is not like that raises.
\<close>

theorem validator_decides_contract:
  "(createManifestMap [] (vc_manifest context) = None \<longleftrightarrow> distinct (map sm_evidenceId (vc_manifest context)) \<and>
      (\<forall>i \<in> set (vc_manifest context). evidence_id (sm_evidenceId i) \<and> sm_allowedRoles i \<noteq> [])) \<and>
   (validateStrategyV1 schema folded answer context = Inr (Inr s) \<longleftrightarrow>
      schema answer = Inr s \<and> createManifestMap [] (vc_manifest context) = None \<and> strategy_sound folded context s)"
proof (cases "createManifestMap [] (vc_manifest context)")
  case None
  then have "validateStrategyV1 schema folded answer context = Inr (Inr s) \<longleftrightarrow> schema answer = Inr s \<and> strategy_sound folded context s"
    using issues_decide [OF None] by (auto simp: validateStrategyV1_def Let_def None split: sum.splits if_splits)
  then show ?thesis using None createManifestMap_None [of "[]" "vc_manifest context"] by simp
next
  case (Some e)
  then have "validateStrategyV1 schema folded answer context \<noteq> Inr (Inr s)" by (auto simp: validateStrategyV1_def split: sum.splits)
  then show ?thesis using Some createManifestMap_None [of "[]" "vc_manifest context"] by auto
qed

text \<open>A strategy that rests on one statistic and one post.\<close>

definition sample_evidence :: "manifest_evidence list" where
  "sample_evidence =
     [\<lparr> sm_evidenceId = ''stat_pos_0'', sm_type = ET_feature_statistic, sm_allowedRoles = [ER_supporting], sm_classification = Some EC_moderate_association,
        sm_dimensions = [CD_hook], sm_sampleSize = Some 12, sm_allowedNumericClaims = [], sm_requiredInLimitations = False \<rparr>,
      \<lparr> sm_evidenceId = ''counter_0'', sm_type = ET_post, sm_allowedRoles = [ER_counterexample, ER_limitation], sm_classification = None,
        sm_dimensions = [CD_hook], sm_sampleSize = None, sm_allowedNumericClaims = [], sm_requiredInLimitations = True \<rparr>]"

definition sample_strategy_context :: strategy_context where
  "sample_strategy_context = \<lparr> vc_mode = SM_evidence_led, vc_manifest = sample_evidence, vc_recentFingerprints = [] \<rparr>"

definition sample_support :: "evidence_reference list" where
  "sample_support = [\<lparr> rf_evidenceId = ''stat_pos_0'', rf_role = ER_supporting, rf_explanation = ''x'' \<rparr>]"

definition sample_experiment :: strategy_experiment where
  "sample_experiment = \<lparr> ex_hypothesis = ''h'', ex_variableToChange = ''hook'', ex_variablesToHoldStable = [''cta''], ex_primaryMetric = ''reach'',
     ex_observationWindow = ''7d'', ex_minimumPosts = 2, ex_decisionRule = ''d'', ex_evidence = sample_support \<rparr>"

definition sample_strategy :: strategy where
  "sample_strategy = \<lparr> st_mode = SM_evidence_led, st_title = ''t'', st_periodSummary = ''p'',
     st_workingPatterns = [\<lparr> pc_key = ''hooks'', pc_dimension = CD_hook, pc_statement = ''s'', pc_classification = EC_weak_directional_signal,
       pc_sampleSize = None, pc_whyItMatters = ''w'',
       pc_evidence = sample_support @ [\<lparr> rf_evidenceId = ''counter_0'', rf_role = ER_counterexample, rf_explanation = ''x'' \<rparr>] \<rparr>],
     st_weakPatterns = [], st_testsNext = [sample_experiment],
     st_pillarPlan = [\<lparr> pa_pillar = ''studio_and_team'', pa_allocationPercent = 100, pa_rationale = ''r'', pa_evidence = sample_support,
       pa_classification = EC_moderate_association, pa_experimental = False \<rparr>],
     st_recommendations = [\<lparr> rc_key = ''first'', rc_title = ''f'', rc_contentPillar = ''studio_and_team'', rc_topic = ''a'', rc_format = ''story'',
       rc_intendedAudience = ''b'', rc_hookOptions = [''c'', ''d'', ''e''], rc_structure = [], rc_filmingApproach = [], rc_editingApproach = [],
       rc_ctaType = ''save'', rc_ctaText = ''s'', rc_rationale = ''r'', rc_classification = EC_creative_recommendation, rc_evidence = sample_support,
       rc_creativeLeap = None, rc_iterationReason = None, rc_experiment = sample_experiment \<rparr>],
     st_limitations = [\<lparr> li_text = ''l'', li_evidence = [\<lparr> rf_evidenceId = ''counter_0'', rf_role = ER_limitation, rf_explanation = ''x'' \<rparr>] \<rparr>] \<rparr>"

lemma sample_manifest: "createManifestMap [] sample_evidence = None"
  by code_simp

lemma sample_texts:
  "normalizeComparableText (\<lambda>s. s) ''hook'' \<noteq> normalizeComparableText (\<lambda>s. s) ''cta''"
  "distinct (map (normalizeComparableText (\<lambda>s. s)) [''c'', ''d'', ''e''])"
  by code_simp+

lemma sample_cites:
  "cites_ok sample_evidence sample_support"
  "cites_ok sample_evidence (sample_support @ [\<lparr> rf_evidenceId = ''counter_0'', rf_role = ER_counterexample, rf_explanation = ''x'' \<rparr>])"
  "cites_ok sample_evidence [\<lparr> rf_evidenceId = ''counter_0'', rf_role = ER_limitation, rf_explanation = ''x'' \<rparr>]"
  by (simp_all add: cites_ok_def sample_evidence_def sample_support_def)

lemma sample_cited:
  "hd sample_evidence \<in> cited sample_evidence sample_support"
  "hd sample_evidence \<in> cited sample_evidence (sample_support @ xs)"
  "last sample_evidence \<in> cited sample_evidence (sample_support @ [\<lparr> rf_evidenceId = ''counter_0'', rf_role = ER_counterexample, rf_explanation = ''x'' \<rparr>])"
  by (simp_all add: cited_def sample_evidence_def sample_support_def)

lemma sample_statistic: "statistic (hd sample_evidence)" "sm_classification (hd sample_evidence) = Some EC_moderate_association"
  "sm_type (hd sample_evidence) = ET_feature_statistic" "sm_type (last sample_evidence) = ET_post"
  by (simp_all add: statistic_def sample_evidence_def)

lemma sample_ceiling:
  "within_ceiling (cited sample_evidence (sample_support @ [\<lparr> rf_evidenceId = ''counter_0'', rf_role = ER_counterexample, rf_explanation = ''x'' \<rparr>]))
     EC_weak_directional_signal True True"
  "within_ceiling (cited sample_evidence sample_support) EC_moderate_association False True"
proof -
  have within: "within_ceiling items cls post True"
    if "cls \<in> set empiricalClaimClasses" "i \<in> items" "statistic i" "evidenceClassRank cls \<le> evidenceClassRank (the (sm_classification i))"
      "post \<Longrightarrow> j \<in> items \<and> sm_type j = ET_post" for items cls post i j
    using that unfolding within_ceiling_def postEvidenceTypes_def by (metis list.set_intros(1))
  show "within_ceiling (cited sample_evidence (sample_support @ [\<lparr> rf_evidenceId = ''counter_0'', rf_role = ER_counterexample, rf_explanation = ''x'' \<rparr>]))
     EC_weak_directional_signal True True"
    by (rule within [OF _ sample_cited(2) sample_statistic(1), where j = "last sample_evidence"])
      (simp_all add: empiricalClaimClasses_def sample_statistic sample_cited(3))
  show "within_ceiling (cited sample_evidence sample_support) EC_moderate_association False True"
    by (rule within [OF _ sample_cited(1) sample_statistic(1), where j = "last sample_evidence"])
      (simp_all add: empiricalClaimClasses_def sample_statistic)
qed

lemma sample_experiment_sound: "experiment_sound (\<lambda>s. s) sample_evidence sample_experiment"
  using sample_cites(1) sample_texts(1) by (simp add: experiment_sound_def sample_experiment_def)

lemma sample_sound: "strategy_sound (\<lambda>s. s) sample_strategy_context sample_strategy"
proof -
  have "pattern_sound sample_evidence SM_evidence_led True (hd (st_workingPatterns sample_strategy))"
    using sample_cites(2) sample_ceiling(1) unfolding pattern_sound_def
    by (simp add: sample_strategy_def patternClasses_def) (simp add: sample_evidence_def)
  moreover have "allocation_sound sample_evidence SM_evidence_led (hd (st_pillarPlan sample_strategy))"
    using sample_cites(1) sample_ceiling(2) by (simp add: allocation_sound_def sample_strategy_def)
  moreover have "recommendation_sound (\<lambda>s. s) [] sample_evidence (hd (st_recommendations sample_strategy))"
    using sample_cites(1) sample_experiment_sound sample_texts(2) sample_cited(1) sample_statistic(3) unfolding recommendation_sound_def
    by (auto simp: sample_strategy_def)
  moreover have "limitations_sound sample_evidence (st_limitations sample_strategy)"
    using sample_cites(3) unfolding limitations_sound_def by (simp add: sample_strategy_def) (simp add: sample_evidence_def)
  moreover have "sample_evidence \<noteq> []" by (simp add: sample_evidence_def)
  ultimately show ?thesis
    using sample_experiment_sound unfolding strategy_sound_def exploratory_sound_def
    by (simp add: sample_strategy_context_def sample_strategy_def)
qed

theorem validator_decides_contract_witness:
  "validateStrategyV1 (\<lambda>_. Inr sample_strategy) (\<lambda>s. s) () sample_strategy_context = Inr (Inr sample_strategy)"
  using validator_decides_contract [of sample_strategy_context "\<lambda>_. Inr sample_strategy" "\<lambda>s. s" "()" sample_strategy] sample_manifest sample_sound
  by (simp add: sample_strategy_context_def)

end
