(* ===== verification/Strategy_Request.thy ===== *)
theory Strategy_Request
  imports Strategy_Contract "HOL-Library.Sublist"
begin

text \<open>
  Choosing the evidence of one strategy request (\<open>packages/domain/src/strategy-request.ts\<close>): whether a
  request may be made, which candidates are selected, ordered, capped and cut to the budget, how the
  selection becomes the manifest the contract is checked against, the hash and the signature a duplicate
  request collapses onto, and the text of the manifest the model reads.

  \<open>localeCompare\<close> and the hash function are parameters.
\<close>

section \<open>Whether a request may be made\<close>

definition strategyRetrievalVersion :: string where
  "strategyRetrievalVersion = ''account-strategy-retrieval-v1.0.0''"

datatype refusal_reason = RR_account_not_found | RR_no_analysed_posts | RR_no_active_calculation | RR_stale_calculation
  | RR_metric_not_comparable | RR_exploratory_not_confirmed

datatype strategy_scope = On_account string | On_pooled

fun strategyScopeAccountId :: "strategy_scope \<Rightarrow> string option" where
  "strategyScopeAccountId (On_account i) = Some i"
| "strategyScopeAccountId On_pooled = None"

record eligibility_input =
  el_acceptExploratory :: bool
  el_activeRunId :: "string option"
  el_analysedPostCount :: int
  el_analyticsDirty :: bool
  el_comparablePostCount :: int
  el_primaryMetric :: string
  el_publicationWeekCount :: int
  el_scope :: "strategy_scope option"

datatype eligibility = Eligible strategy_mode | Not_eligible "strategy_mode option" refusal_reason

definition evaluateStrategyEligibility :: "eligibility_input \<Rightarrow> eligibility" where
  "evaluateStrategyEligibility input =
     (if el_scope input = None then Not_eligible None RR_account_not_found
      else if el_primaryMetric input \<notin> set (map metric_text derivedMetrics) then Not_eligible None RR_metric_not_comparable
      else if el_analysedPostCount input \<le> 0 then Not_eligible None RR_no_analysed_posts
      else if el_activeRunId input = None then Not_eligible None RR_no_active_calculation
      else if el_analyticsDirty input then Not_eligible None RR_stale_calculation
      else if el_analysedPostCount input \<ge> 10 \<and> el_comparablePostCount input \<ge> 8 \<and> el_publicationWeekCount input \<ge> 4
      then Eligible SM_evidence_led
      else if \<not> el_acceptExploratory input then Not_eligible (Some SM_exploratory) RR_exploratory_not_confirmed
      else Eligible SM_exploratory)"

section \<open>Candidates\<close>

datatype category = C_positive_statistic | C_negative_statistic | C_counterexample | C_top_post | C_weak_post
  | C_recent_post | C_comparator_post | C_distribution | C_recent_strategy | C_data_quality

fun categoryOrder :: "category \<Rightarrow> nat" where
  "categoryOrder C_positive_statistic = 0" | "categoryOrder C_negative_statistic = 1" | "categoryOrder C_counterexample = 2"
| "categoryOrder C_top_post = 3" | "categoryOrder C_weak_post = 4" | "categoryOrder C_recent_post = 5"
| "categoryOrder C_comparator_post = 6" | "categoryOrder C_distribution = 7" | "categoryOrder C_recent_strategy = 8"
| "categoryOrder C_data_quality = 9"

fun strategyEvidenceCaps :: "category \<Rightarrow> nat" where
  "strategyEvidenceCaps C_comparator_post = 20" | "strategyEvidenceCaps C_counterexample = 4" | "strategyEvidenceCaps C_data_quality = 8"
| "strategyEvidenceCaps C_distribution = 1" | "strategyEvidenceCaps C_negative_statistic = 6" | "strategyEvidenceCaps C_positive_statistic = 8"
| "strategyEvidenceCaps C_recent_post = 30" | "strategyEvidenceCaps C_recent_strategy = 3" | "strategyEvidenceCaps C_top_post = 20"
| "strategyEvidenceCaps C_weak_post = 12"

definition posts_cap :: nat where "posts_cap = 60"
definition statistics_cap :: nat where "statistics_cap = 20"

definition strategyInputTokenBudget :: int where
  "strategyInputTokenBudget = 120000"

text \<open>\<open>Math.ceil(text.length / 3)\<close>: exact, since no text is as long as \<open>2 ^ 52\<close>.\<close>

definition estimateStrategyPromptTokens :: "string \<Rightarrow> int" where
  "estimateStrategyPromptTokens s = (int (length s) + 2) div 3"

fun categoryPrefixes :: "category \<Rightarrow> string" where
  "categoryPrefixes C_comparator_post = ''post_cmp''" | "categoryPrefixes C_counterexample = ''counter''"
| "categoryPrefixes C_data_quality = ''quality''" | "categoryPrefixes C_distribution = ''dist''"
| "categoryPrefixes C_negative_statistic = ''stat_neg''" | "categoryPrefixes C_positive_statistic = ''stat_pos''"
| "categoryPrefixes C_recent_post = ''post_recent''" | "categoryPrefixes C_recent_strategy = ''prior''"
| "categoryPrefixes C_top_post = ''post_top''" | "categoryPrefixes C_weak_post = ''post_weak''"

record candidate =
  ca_allowedNumericClaims :: "string list"
  ca_allowedRoles :: "evidence_role list"
  ca_category :: category
  ca_classification :: "evidence_class option"
  ca_dimensions :: "claim_dimension list"
  ca_evidenceType :: evidence_type
  ca_postIds :: "string list"
  ca_rankScore :: "js_num option"
  ca_referenceId :: "string option"
  ca_requiredInLimitations :: bool
  ca_retrievalReason :: string
  ca_sampleSize :: "int option"
  ca_summaryText :: string

record entry = candidate +
  en_evidenceKey :: string
  en_rank :: nat

record evidence_selection =
  es_entries :: "entry list"
  es_trimmed :: "category list"

fun evidence_type_text :: "evidence_type \<Rightarrow> string" where
  "evidence_type_text ET_feature_statistic = ''feature_statistic''" | "evidence_type_text ET_post_analysis = ''post_analysis''"
| "evidence_type_text ET_metric_snapshot = ''metric_snapshot''" | "evidence_type_text ET_post = ''post''"
| "evidence_type_text ET_data_quality = ''data_quality''" | "evidence_type_text ET_recent_recommendation = ''recent_recommendation''"

definition referenceKey :: "'a candidate_scheme \<Rightarrow> string" where
  "referenceKey c = evidence_type_text (ca_evidenceType c) @ '':'' @ coalesce (ca_referenceId c) (ca_summaryText c)"

definition compareCandidates :: "(string \<Rightarrow> string \<Rightarrow> js_num) \<Rightarrow> candidate \<Rightarrow> candidate \<Rightarrow> js_num" where
  "compareCandidates localeCompare a b =
     (let scoreA = coalesce (ca_rankScore a) NegInf; scoreB = coalesce (ca_rankScore b) NegInf in
      if \<not> jeq scoreA scoreB then jsub scoreB scoreA else localeCompare (referenceKey a) (referenceKey b))"

definition compareEvidence :: "(string \<Rightarrow> string \<Rightarrow> js_num) \<Rightarrow> candidate \<Rightarrow> candidate \<Rightarrow> js_num" where
  "compareEvidence localeCompare a b =
     (let categoryDelta = int (categoryOrder (ca_category a)) - int (categoryOrder (ca_category b)) in
      if categoryDelta = 0 then compareCandidates localeCompare a b else jint categoryDelta)"

definition isStatistic :: "'a candidate_scheme \<Rightarrow> bool" where
  "isStatistic c \<longleftrightarrow> ca_evidenceType c = ET_feature_statistic"

definition isPost :: "'a candidate_scheme \<Rightarrow> bool" where
  "isPost c \<longleftrightarrow> ca_evidenceType c = ET_post \<or> ca_evidenceType c = ET_post_analysis"

section \<open>The selection\<close>

record selection_state =
  ss_trimmed :: "category list"
  ss_seenReferences :: "string list"
  ss_claimedPosts :: "string list"
  ss_perCategory :: "category \<Rightarrow> nat"
  ss_selected :: "candidate list"
  ss_posts :: nat
  ss_statistics :: nat

definition add_once :: "'x \<Rightarrow> 'x list \<Rightarrow> 'x list" where
  "add_once x xs = (if x \<in> set xs then xs else xs @ [x])"

definition trim_category :: "candidate \<Rightarrow> selection_state \<Rightarrow> selection_state" where
  "trim_category c s = s \<lparr>ss_trimmed := add_once (ca_category c) (ss_trimmed s)\<rparr>"

definition select_candidate :: "candidate \<Rightarrow> selection_state \<Rightarrow> selection_state" where
  "select_candidate c s =
     (if referenceKey c \<in> set (ss_seenReferences s) then trim_category c s
      else let taken = ss_perCategory s (ca_category c) in
        if taken \<ge> strategyEvidenceCaps (ca_category c) then trim_category c s
        else if isStatistic c \<and> ss_statistics s \<ge> statistics_cap then trim_category c s
        else if isPost c \<and> list_ex (\<lambda>p. p \<in> set (ss_claimedPosts s)) (ca_postIds c) then trim_category c s
        else if isPost c \<and> ss_posts s \<ge> posts_cap then trim_category c s
        else s \<lparr>ss_posts := ss_posts s + (if isPost c then 1 else 0),
                ss_statistics := ss_statistics s + (if isStatistic c then 1 else 0),
                ss_claimedPosts := ss_claimedPosts s @ ca_postIds c,
                ss_seenReferences := referenceKey c # ss_seenReferences s,
                ss_perCategory := (ss_perCategory s) (ca_category c := taken + 1),
                ss_selected := ss_selected s @ [c]\<rparr>)"

definition selection_start :: selection_state where
  "selection_start = \<lparr>ss_trimmed = [], ss_seenReferences = [], ss_claimedPosts = [], ss_perCategory = (\<lambda>_. 0),
     ss_selected = [], ss_posts = 0, ss_statistics = 0\<rparr>"

definition select_candidates :: "(string \<Rightarrow> string \<Rightarrow> js_num) \<Rightarrow> candidate list \<Rightarrow> selection_state" where
  "select_candidates localeCompare candidates = fold select_candidate (js_sort (compareEvidence localeCompare) candidates) selection_start"

definition renderCandidates :: "candidate list \<Rightarrow> string" where
  "renderCandidates cs = join [CHR 0x0A] (map ca_summaryText cs)"

text \<open>The loop drops the category of the last candidate until the estimate fits; that it ends is proved below.\<close>

partial_function (option) applyTokenBudget :: "candidate list \<Rightarrow> int \<Rightarrow> category list \<Rightarrow> (candidate list \<times> category list) option" where
  "applyTokenBudget kept budget trimmed =
     (if kept \<noteq> [] \<and> estimateStrategyPromptTokens (renderCandidates kept) > budget
      then applyTokenBudget (filter (\<lambda>c. ca_category c \<noteq> ca_category (last kept)) kept) budget (add_once (ca_category (last kept)) trimmed)
      else Some (kept, trimmed))"

definition evidence_key :: "category \<Rightarrow> nat \<Rightarrow> string" where
  "evidence_key category rank = categoryPrefixes category @ ''_'' @ nat_digits rank"

fun number_entries :: "(category \<Rightarrow> nat) \<Rightarrow> candidate list \<Rightarrow> entry list" where
  "number_entries ranks [] = []"
| "number_entries ranks (c # cs) = (let rank = ranks (ca_category c) in
     candidate.extend c (entry.fields (evidence_key (ca_category c) rank) rank) #
     number_entries (ranks (ca_category c := rank + 1)) cs)"

definition selectStrategyEvidence :: "(string \<Rightarrow> string \<Rightarrow> js_num) \<Rightarrow> candidate list \<Rightarrow> int option \<Rightarrow> evidence_selection option" where
  "selectStrategyEvidence localeCompare candidates tokenBudget =
     (let s = select_candidates localeCompare candidates in
      case applyTokenBudget (ss_selected s) (coalesce tokenBudget strategyInputTokenBudget) (ss_trimmed s) of
        None \<Rightarrow> None
      | Some (withinBudget, trimmed) \<Rightarrow>
          Some \<lparr>es_entries = number_entries (\<lambda>_. 0) withinBudget, es_trimmed = sort_key categoryOrder trimmed\<rparr>)"

section \<open>The manifest\<close>

definition toStrategyManifestEvidence :: "entry \<Rightarrow> manifest_evidence" where
  "toStrategyManifestEvidence e =
     \<lparr> sm_evidenceId = en_evidenceKey e, sm_type = ca_evidenceType e, sm_allowedRoles = ca_allowedRoles e,
       sm_classification = ca_classification e, sm_dimensions = ca_dimensions e, sm_sampleSize = ca_sampleSize e,
       sm_allowedNumericClaims = ca_allowedNumericClaims e, sm_requiredInLimitations = ca_requiredInLimitations e \<rparr>"

fun role_text :: "evidence_role \<Rightarrow> string" where
  "role_text ER_supporting = ''supporting''" | "role_text ER_counterexample = ''counterexample''"
| "role_text ER_limitation = ''limitation''" | "role_text ER_context = ''context''"

fun class_text :: "evidence_class \<Rightarrow> string" where
  "class_text EC_statistically_supported_association = ''statistically_supported_association''"
| "class_text EC_moderate_association = ''moderate_association''"
| "class_text EC_weak_directional_signal = ''weak_directional_signal''"
| "class_text EC_single_post_outlier = ''single_post_outlier''"
| "class_text EC_insufficient_evidence = ''insufficient_evidence''"
| "class_text EC_unsupported = ''unsupported''"
| "class_text EC_creative_recommendation = ''creative_recommendation''"

fun dimension_text :: "claim_dimension \<Rightarrow> string" where
  "dimension_text CD_topic = ''topic''" | "dimension_text CD_topic_saturation = ''topic_saturation''" | "dimension_text CD_hook = ''hook''"
| "dimension_text CD_format = ''format''" | "dimension_text CD_duration = ''duration''"
| "dimension_text CD_editing_or_pacing = ''editing_or_pacing''" | "dimension_text CD_cta = ''cta''"
| "dimension_text CD_presenter_mode = ''presenter_mode''" | "dimension_text CD_visual_approach = ''visual_approach''"
| "dimension_text CD_content_pillar = ''content_pillar''" | "dimension_text CD_other = ''other''"

fun category_text :: "category \<Rightarrow> string" where
  "category_text C_positive_statistic = ''positive_statistic''" | "category_text C_negative_statistic = ''negative_statistic''"
| "category_text C_counterexample = ''counterexample''" | "category_text C_top_post = ''top_post''"
| "category_text C_weak_post = ''weak_post''" | "category_text C_recent_post = ''recent_post''"
| "category_text C_comparator_post = ''comparator_post''" | "category_text C_distribution = ''distribution''"
| "category_text C_recent_strategy = ''recent_strategy''" | "category_text C_data_quality = ''data_quality''"

section \<open>The hash and the signature\<close>

record manifest_identity =
  mi_ageWindow :: string
  mi_analysisSchemaVersion :: string
  mi_analyticsRunId :: string
  mi_analyticsVersion :: string
  mi_cohortVersion :: string
  mi_editorialConstraint :: "string option"
  mi_formatEmphasis :: "string list"
  mi_instagramAccountId :: "string option"
  mi_mode :: strategy_mode
  mi_pillarEmphasis :: "string list"
  mi_primaryMetric :: derived_metric
  mi_publishedFrom :: string
  mi_publishedTo :: string
  mi_statisticsVersion :: string

text \<open>The versions and digests of the artifacts a request travels with.\<close>

definition strategy_artifacts :: "string list" where
  "strategy_artifacts = [strategyRetrievalVersion, strategySchemaVersion,
     ''b3532582e27db3054869bcce90487ed7bafe7329a1ae292ed1dd5156c73cfb94'', ''account-content-strategy-prompt-v2.0.0'',
     ''8ca19243c15a8439876c3b3f25861d2cf5cd3d0cc9d851b0539029d886260fe3'', ''studio-parallel-business-profile-v1.0.0'',
     ''c0d37cfb1373b7f8db22296202c1f0d7eb89452687b0793f4fa1b9a15cc23bf0'', ''gemini-3.6-flash'']"

definition sorted_texts :: "string list \<Rightarrow> json" where
  "sorted_texts xs = JArr (map JStr (sort xs))"

definition entry_json :: "hash \<Rightarrow> entry \<Rightarrow> json" where
  "entry_json sha256 e = JArr [JStr (category_text (ca_category e)), JInt (int (en_rank e)), JStr (evidence_type_text (ca_evidenceType e)),
     JStr (en_evidenceKey e), json_nullable (ca_referenceId e), JStr (ca_retrievalReason e),
     json_nullable (map_option class_text (ca_classification e)), (case ca_sampleSize e of None \<Rightarrow> JNull | Some n \<Rightarrow> JInt n),
     sorted_texts (map role_text (ca_allowedRoles e)), sorted_texts (map dimension_text (ca_dimensions e)),
     sorted_texts (ca_allowedNumericClaims e), JStr (digest_hex sha256 (ca_summaryText e))]"

definition manifest_json :: "hash \<Rightarrow> manifest_identity \<Rightarrow> entry list \<Rightarrow> json" where
  "manifest_json sha256 i entries = JArr (map JStr strategy_artifacts @
     [JStr (mi_analyticsVersion i), JStr (mi_statisticsVersion i), JStr (mi_cohortVersion i), JStr (mi_analysisSchemaVersion i),
      json_nullable (mi_instagramAccountId i), JStr (mi_analyticsRunId i), JStr (mode_text (mi_mode i)), JStr (metric_text (mi_primaryMetric i)),
      JStr (mi_ageWindow i), JStr (mi_publishedFrom i), JStr (mi_publishedTo i), json_nullable (mi_editorialConstraint i),
      sorted_texts (mi_pillarEmphasis i), sorted_texts (mi_formatEmphasis i), JInt (int posts_cap), JInt (int statistics_cap),
      JArr (map (entry_json sha256) entries)])"

definition createStrategyManifestHash :: "hash \<Rightarrow> manifest_identity \<Rightarrow> entry list \<Rightarrow> string" where
  "createStrategyManifestHash sha256 i entries = digest_hex sha256 (json_text (manifest_json sha256 i entries))"

definition createStrategyRequestSignature :: "hash \<Rightarrow> string \<Rightarrow> int \<Rightarrow> string" where
  "createStrategyRequestSignature sha256 manifestHash regenerationOrdinal =
     digest_hex sha256 (json_text (JArr [JStr manifestHash, JInt regenerationOrdinal]))"

definition strategyGenerateKey :: "string \<Rightarrow> string" where
  "strategyGenerateKey requestSignature = ''strategy-generate-'' @ requestSignature"

section \<open>The text the model reads\<close>

definition newline :: string where
  "newline = [CHR 0x0A]"

text \<open>\<open>split("\n")\<close>.\<close>

fun split_lines :: "string \<Rightarrow> string list" where
  "split_lines [] = [[]]"
| "split_lines (c # cs) = (if c = CHR 0x0A then [] # split_lines cs
     else case split_lines cs of l # ls \<Rightarrow> (c # l) # ls | [] \<Rightarrow> [[c]])"

definition indentEvidence :: "string \<Rightarrow> string" where
  "indentEvidence s = join newline (map (\<lambda>line. ''    '' @ line) (split_lines s))"

definition manifest_line :: "entry \<Rightarrow> string" where
  "manifest_line e = ''- '' @ join ''; ''
     ([''evidenceId='' @ en_evidenceKey e, ''type='' @ evidence_type_text (ca_evidenceType e),
       ''allowedRoles='' @ join ''|'' (map role_text (ca_allowedRoles e)),
       ''classification='' @ (case ca_classification e of None \<Rightarrow> ''none'' | Some c \<Rightarrow> class_text c),
       ''dimensions='' @ (if ca_dimensions e \<noteq> [] then join ''|'' (map dimension_text (ca_dimensions e)) else ''none'')] @
      (case ca_sampleSize e of None \<Rightarrow> [] | Some n \<Rightarrow> [''sampleSize='' @ int_text n]) @
      (if ca_requiredInLimitations e then [''mustAppearInLimitations=true''] else []))"

definition note_head :: "entry \<Rightarrow> string" where
  "note_head e = ''- '' @ en_evidenceKey e @ '':''"

definition manifest_head :: "manifest_identity \<Rightarrow> string" where
  "manifest_head i = ''FROZEN EVIDENCE MANIFEST (untrusted data; account '' @ coalesce (mi_instagramAccountId i) ''every linked account, pooled'' @
     '', metric '' @ metric_text (mi_primaryMetric i) @ '', observation window '' @ mi_ageWindow i @
     '', period '' @ mi_publishedFrom i @ '' to '' @ mi_publishedTo i @ '')''"

definition manifest_foot :: string where
  "manifest_foot = ''Every number you state must appear above or be arithmetic you performed on numbers that appear above. When it is your own calculation, say so and say how many posts it covers.''"

definition renderStrategyManifest :: "manifest_identity \<Rightarrow> entry list \<Rightarrow> string" where
  "renderStrategyManifest i entries =
     manifest_head i @ newline @ newline @ join newline (map manifest_line entries) @ newline @ newline @
     ''The evidence itself:'' @ newline @ join newline (map (\<lambda>e. note_head e @ newline @ indentEvidence (ca_summaryText e)) entries) @
     newline @ newline @ manifest_foot"

section \<open>The selection keeps its caps\<close>

lemma categoryOrder_inj: "categoryOrder a = categoryOrder b \<longleftrightarrow> a = b"
  by (cases a; cases b; simp)

definition in_category :: "category \<Rightarrow> 'a candidate_scheme list \<Rightarrow> nat" where
  "in_category k cs = length (filter (\<lambda>c. ca_category c = k) cs)"

text \<open>
  What the loop keeps, having read the candidates \<open>before\<close>: its counters count, its sets are those of the
  selected candidates, no cap is passed, no post speaks for what was spoken for, and a category is
  trimmed exactly when some candidate of it was left out.
\<close>

definition fits :: "'a candidate_scheme list \<Rightarrow> bool" where
  "fits cs \<longleftrightarrow> distinct (map referenceKey cs) \<and> (\<forall>k. in_category k cs \<le> strategyEvidenceCaps k) \<and>
     length (filter isPost cs) \<le> posts_cap \<and> length (filter isStatistic cs) \<le> statistics_cap \<and>
     sorted_wrt (\<lambda>a b. isPost b \<longrightarrow> set (ca_postIds a) \<inter> set (ca_postIds b) = {}) cs"

definition selection_counted :: "selection_state \<Rightarrow> bool" where
  "selection_counted s \<longleftrightarrow> set (ss_seenReferences s) = referenceKey ` set (ss_selected s) \<and>
     set (ss_claimedPosts s) = (\<Union>c \<in> set (ss_selected s). set (ca_postIds c)) \<and>
     (\<forall>k. ss_perCategory s k = in_category k (ss_selected s)) \<and>
     ss_posts s = length (filter isPost (ss_selected s)) \<and> ss_statistics s = length (filter isStatistic (ss_selected s))"

definition reported :: "candidate list \<Rightarrow> selection_state \<Rightarrow> bool" where
  "reported before s \<longleftrightarrow> subseq (ss_selected s) before \<and>
     (\<forall>k. k \<in> set (ss_trimmed s) \<longleftrightarrow> in_category k (ss_selected s) < in_category k before)"

lemma add_once_set [simp]: "set (add_once x xs) = insert x (set xs)"
  by (auto simp: add_once_def)

lemma in_category_simps [simp]:
  "in_category k [] = 0" "in_category k (c # cs) = (if ca_category c = k then 1 else 0) + in_category k cs"
  "in_category k (cs @ ds) = in_category k cs + in_category k ds"
  by (simp_all add: in_category_def)

lemma in_category_subseq: "subseq cs ds \<Longrightarrow> in_category k cs \<le> in_category k ds"
  unfolding in_category_def by (metis list_emb_length subseq_filter)

text \<open>The candidate is taken or its category trimmed.\<close>

definition takes :: "selection_state \<Rightarrow> candidate \<Rightarrow> bool" where
  "takes s c \<longleftrightarrow> referenceKey c \<notin> set (ss_seenReferences s) \<and> ss_perCategory s (ca_category c) < strategyEvidenceCaps (ca_category c) \<and>
     (isStatistic c \<longrightarrow> ss_statistics s < statistics_cap) \<and>
     (isPost c \<longrightarrow> ss_posts s < posts_cap \<and> set (ca_postIds c) \<inter> set (ss_claimedPosts s) = {})"

lemma select_candidate_cases:
  "select_candidate c s = (if takes s c
     then s \<lparr>ss_posts := ss_posts s + (if isPost c then 1 else 0), ss_statistics := ss_statistics s + (if isStatistic c then 1 else 0),
       ss_claimedPosts := ss_claimedPosts s @ ca_postIds c, ss_seenReferences := referenceKey c # ss_seenReferences s,
       ss_perCategory := (ss_perCategory s) (ca_category c := ss_perCategory s (ca_category c) + 1), ss_selected := ss_selected s @ [c]\<rparr>
     else trim_category c s)"
  by (auto simp: select_candidate_def takes_def Let_def list_ex_iff)

lemma select_counted:
  assumes "selection_counted s" "fits (ss_selected s)"
  shows "selection_counted (select_candidate c s)" "fits (ss_selected (select_candidate c s))"
proof -
  show "selection_counted (select_candidate c s)"
    using assms(1) unfolding select_candidate_cases by (auto simp: selection_counted_def trim_category_def)
  show "fits (ss_selected (select_candidate c s))"
  proof (cases "takes s c")
    case True
    then have "in_category k (ss_selected s @ [c]) \<le> strategyEvidenceCaps k" for k
      using assms by (auto simp: takes_def selection_counted_def fits_def)
    moreover have "referenceKey c \<notin> referenceKey ` set (ss_selected s)" using True assms(1) by (simp add: takes_def selection_counted_def)
    moreover have "isPost c \<Longrightarrow> length (filter isPost (ss_selected s)) < posts_cap" "isStatistic c \<Longrightarrow> length (filter isStatistic (ss_selected s)) < statistics_cap"
      using True assms(1) by (simp_all add: takes_def selection_counted_def)
    moreover have "isPost c \<Longrightarrow> a \<in> set (ss_selected s) \<Longrightarrow> set (ca_postIds a) \<inter> set (ca_postIds c) = {}" for a
      using True assms(1) by (auto simp: takes_def selection_counted_def)
    ultimately show ?thesis using True assms(2)
      by (simp add: select_candidate_cases fits_def sorted_wrt_append Suc_le_eq)
  qed (use assms in \<open>simp add: select_candidate_cases trim_category_def\<close>)
qed

lemma select_reported:
  assumes "reported before s"
  shows "reported (before @ [c]) (select_candidate c s)"
proof -
  have le: "in_category k (ss_selected s) \<le> in_category k before" for k using assms in_category_subseq [of "ss_selected s" before] by (simp add: reported_def)
  show ?thesis
  proof (cases "takes s c")
    case True
    then show ?thesis using assms by (auto simp: select_candidate_cases reported_def intro: list_emb_append_mono)
  next
    case False
    then show ?thesis using assms le
      by (auto simp: select_candidate_cases reported_def trim_category_def le_imp_less_Suc intro: subseq_rev_drop_many list_emb_append2 split: if_splits)
  qed
qed

lemma selection_kept:
  "selection_counted (fold select_candidate cs s) \<and> fits (ss_selected (fold select_candidate cs s)) \<and> reported (before @ cs) (fold select_candidate cs s)"
  if "selection_counted s" "fits (ss_selected s)" "reported before s"
  using that
proof (induction cs arbitrary: s before)
  case (Cons c cs)
  show ?case using Cons.IH [OF select_counted [OF Cons.prems(1,2)] select_reported [OF Cons.prems(3)]] by simp
qed simp

lemma start_kept: "selection_counted selection_start" "fits (ss_selected selection_start)" "reported [] selection_start"
  by (simp_all add: selection_counted_def fits_def reported_def selection_start_def)

lemmas selection_facts = selection_kept [OF start_kept, simplified]

section \<open>The order of the categories\<close>

lemma js_insert_sorted:
  assumes "\<And>y. key x < (key y :: nat) \<Longrightarrow> \<not> jgt (cmp x y) (jint 0)" "\<And>y. key y < key x \<Longrightarrow> jgt (cmp x y) (jint 0)"
  shows "sorted (map key ys) \<Longrightarrow> sorted (map key (js_insert cmp x ys))"
proof (induction ys)
  case (Cons y ys)
  have set: "set (js_insert cmp x ys) = insert x (set ys)" by (metis js_insert_mset set_mset_mset set_mset_add_mset_insert)
  show ?case
  proof (cases "jgt (cmp x y) (jint 0)")
    case True
    then have "key y \<le> key x" using assms(1) by (meson not_le)
    then show ?thesis using True Cons set by auto
  next
    case False
    then have "key x \<le> key y" using assms(2) by (meson not_le)
    then show ?thesis using False Cons.prems by auto
  qed
qed simp

lemma ordered_categories: "sorted (map (\<lambda>c. categoryOrder (ca_category c)) (js_sort (compareEvidence localeCompare) cs))"
proof (induction cs)
  case (Cons c cs)
  then show ?case unfolding js_sort_def
    by (simp, intro js_insert_sorted [where key = "\<lambda>c. categoryOrder (ca_category c)"])
      (simp_all add: compareEvidence_def jgt_def jint_def)
qed (simp add: js_sort_def)

lemma subseq_set: "subseq xs ys \<Longrightarrow> set xs \<subseteq> set ys"
  by (auto elim: list_emb_set)

lemma subseq_sorted_wrt: "subseq xs ys \<Longrightarrow> sorted_wrt P ys \<Longrightarrow> sorted_wrt P xs"
proof (induction xs ys rule: list_emb.induct)
  case (list_emb_Cons2 x y xs ys)
  then show ?case by (auto elim: list_emb_set)
qed auto

section \<open>The budget\<close>

definition below :: "nat \<Rightarrow> candidate list \<Rightarrow> candidate list" where
  "below n cs = filter (\<lambda>c. categoryOrder (ca_category c) < n) cs"

definition over_budget :: "int \<Rightarrow> candidate list \<Rightarrow> bool" where
  "over_budget budget cs \<longleftrightarrow> estimateStrategyPromptTokens (renderCandidates cs) > budget"

lemma drop_last_category:
  assumes "cs \<noteq> []" "sorted (map (\<lambda>c. categoryOrder (ca_category c)) cs)"
  shows "filter (\<lambda>c. ca_category c \<noteq> ca_category (last cs)) cs = below (categoryOrder (ca_category (last cs))) cs"
    "categoryOrder (ca_category (last cs)) < n \<Longrightarrow> below n cs = cs"
proof -
  have "categoryOrder (ca_category c) \<le> categoryOrder (ca_category (last cs))" if "c \<in> set cs" for c
    using assms that by (induction cs rule: rev_induct) (auto simp: sorted_append)
  then have iff: "ca_category c \<noteq> ca_category (last cs) \<longleftrightarrow> categoryOrder (ca_category c) < categoryOrder (ca_category (last cs))"
    and le: "categoryOrder (ca_category (last cs)) < n \<Longrightarrow> categoryOrder (ca_category c) < n" if "c \<in> set cs" for c
    using that by (metis categoryOrder_inj le_neq_implies_less nat_neq_iff, meson le_less_trans)
  show "filter (\<lambda>c. ca_category c \<noteq> ca_category (last cs)) cs = below (categoryOrder (ca_category (last cs))) cs"
    unfolding below_def using iff by (intro filter_cong) auto
  show "below n cs = cs" if "categoryOrder (ca_category (last cs)) < n" using le that by (simp add: below_def filter_id_conv)
qed

lemma below_below: "below m (below n cs) = below (min m n) cs"
  by (simp add: below_def conj_commute)

lemma below_sorted: "sorted (map (\<lambda>c. categoryOrder (ca_category c)) cs) \<Longrightarrow> sorted (map (\<lambda>c. categoryOrder (ca_category c)) (below n cs))"
  by (simp add: below_def sorted_filter)

text \<open>
  The loop returns.  On a selection in the order of the categories it keeps those below some category,
  as many as the budget allows, and reports the categories it dropped.
\<close>

lemma budget_loop:
  assumes "sorted (map (\<lambda>c. categoryOrder (ca_category c)) cs)"
  shows "\<exists>n trimmed'. applyTokenBudget cs budget trimmed = Some (below n cs, trimmed') \<and>
    (below n cs = [] \<or> \<not> over_budget budget (below n cs)) \<and>
    (\<forall>m. n \<le> m \<and> below m cs \<noteq> below n cs \<longrightarrow> over_budget budget (below m cs)) \<and>
    set trimmed' = set trimmed \<union> ca_category ` (set cs - set (below n cs))"
  using assms
proof (induction cs arbitrary: trimmed rule: measure_induct_rule [where f = length])
  case (less cs)
  let ?o = "categoryOrder (ca_category (last cs))"
  show ?case
  proof (cases "cs \<noteq> [] \<and> over_budget budget cs")
    case True
    then have ne: "cs \<noteq> []" and over: "over_budget budget cs" by simp_all
    note drop = drop_last_category [OF ne less.prems]
    have "last cs \<notin> set (below ?o cs)" by (simp add: below_def)
    then have "length (below ?o cs) < length cs" using ne by (metis below_def length_filter_less last_in_set less_irrefl)
    from less.IH [OF this below_sorted [OF less.prems], of "add_once (ca_category (last cs)) trimmed"]
    obtain n trimmed' where IH: "applyTokenBudget (below ?o cs) budget (add_once (ca_category (last cs)) trimmed) = Some (below (min n ?o) cs, trimmed')"
      "below (min n ?o) cs = [] \<or> \<not> over_budget budget (below (min n ?o) cs)"
      "\<And>m. n \<le> m \<Longrightarrow> below (min m ?o) cs \<noteq> below (min n ?o) cs \<Longrightarrow> over_budget budget (below (min m ?o) cs)"
      "set trimmed' = insert (ca_category (last cs)) (set trimmed) \<union> ca_category ` (set (below ?o cs) - set (below (min n ?o) cs))"
      unfolding below_below by auto
    have step: "applyTokenBudget cs budget trimmed = applyTokenBudget (below ?o cs) budget (add_once (ca_category (last cs)) trimmed)"
      using ne over by (subst applyTokenBudget.simps) (simp add: over_budget_def drop(1))
    have larger: "over_budget budget (below m cs)" if "min n ?o \<le> m" "below m cs \<noteq> below (min n ?o) cs" for m
    proof (cases "?o < m")
      case True
      then show ?thesis using over drop(2) by simp
    next
      case False
      then have m: "min m ?o = m" by simp
      have "n \<le> m" using that False by (auto simp: min_def split: if_splits)
      with IH(3) [of m] that(2) show ?thesis unfolding m by blast
    qed
    have "ca_category ` (set cs - set (below (min n ?o) cs)) =
        insert (ca_category (last cs)) (ca_category ` (set (below ?o cs) - set (below (min n ?o) cs)))"
    proof -
      have "c \<in> set (below ?o cs) \<or> ca_category c = ca_category (last cs)" if "c \<in> set cs" for c
        using that drop(1) by (auto simp: set_eq_iff filter_eq_Cons_iff simp flip: drop(1))
      moreover have "last cs \<in> set cs - set (below (min n ?o) cs)" using ne by (simp add: below_def)
      moreover have "set (below ?o cs) \<subseteq> set cs" by (auto simp: below_def)
      ultimately show ?thesis by (auto simp: image_iff)
    qed
    then show ?thesis using IH larger step by (intro exI [of _ "min n ?o"] exI [of _ trimmed']) auto
  next
    case False
    have all: "below 10 cs = cs"
    proof -
      have "categoryOrder k < 10" for k by (cases k) simp_all
      then show ?thesis by (simp add: below_def)
    qed
    have "below m cs = cs" if "10 \<le> m" for m using that below_below [of m 10 cs] by (simp add: all)
    moreover have "applyTokenBudget cs budget trimmed = Some (cs, trimmed)"
      using False by (subst applyTokenBudget.simps) (auto simp: over_budget_def)
    ultimately show ?thesis using False all by (intro exI [of _ 10] exI [of _ trimmed]) auto
  qed
qed

section \<open>The entries\<close>

lemma truncate_fields [simp]:
  "ca_allowedNumericClaims (candidate.truncate e) = ca_allowedNumericClaims e" "ca_allowedRoles (candidate.truncate e) = ca_allowedRoles e"
  "ca_category (candidate.truncate e) = ca_category e" "ca_classification (candidate.truncate e) = ca_classification e"
  "ca_dimensions (candidate.truncate e) = ca_dimensions e" "ca_evidenceType (candidate.truncate e) = ca_evidenceType e"
  "ca_postIds (candidate.truncate e) = ca_postIds e" "ca_referenceId (candidate.truncate e) = ca_referenceId e"
  "ca_summaryText (candidate.truncate e) = ca_summaryText e"
  by (simp_all add: candidate.truncate_def)

lemma truncate_extend [simp]: "candidate.truncate (candidate.extend c x) = c"
  by (cases c) (simp add: candidate.truncate_def candidate.extend_def)

lemma extend_fields [simp]:
  "ca_category (candidate.extend c x) = ca_category c"
  "en_evidenceKey (candidate.extend c (entry.fields k r)) = k" "en_rank (candidate.extend c (entry.fields k r)) = r"
  by (simp_all add: candidate.extend_def entry.fields_def)

lemma entries_truncate [simp]: "map candidate.truncate (number_entries ranks cs) = cs"
  by (induction cs arbitrary: ranks) (simp_all add: Let_def)

lemma truncated_facts:
  "referenceKey (candidate.truncate e) = referenceKey e" "isPost (candidate.truncate e) = isPost e"
  "isStatistic (candidate.truncate e) = isStatistic e"
  by (simp_all add: referenceKey_def isPost_def isStatistic_def)

lemma entries_in_category: "in_category k (number_entries ranks cs) = in_category k cs"
  by (induction cs arbitrary: ranks) (simp_all add: Let_def)

lemma entries_fit: "fits (number_entries ranks cs) \<longleftrightarrow> fits cs"
proof -
  let ?es = "number_entries ranks cs"
  have via: "length (filter P cs) = length (filter (\<lambda>e. P (candidate.truncate e)) ?es)" for P
  proof -
    have "length (filter P (map candidate.truncate ?es)) = length (filter (\<lambda>e. P (candidate.truncate e)) ?es)"
      by (simp add: filter_map comp_def del: entries_truncate)
    then show ?thesis by (simp only: entries_truncate)
  qed
  have "map referenceKey cs = map referenceKey ?es"
    using map_map [of referenceKey candidate.truncate ?es] unfolding entries_truncate by (simp add: comp_def truncated_facts(1))
  moreover have "sorted_wrt P cs \<longleftrightarrow> sorted_wrt (\<lambda>a b. P (candidate.truncate a) (candidate.truncate b)) ?es" for P
    using sorted_wrt_map [of P candidate.truncate ?es] unfolding entries_truncate .
  ultimately show ?thesis unfolding fits_def entries_in_category by (simp add: via truncated_facts)
qed

text \<open>The key of an entry is that of its category and rank, and tells both.\<close>

lemma number_entries_Cons:
  obtains R where "number_entries ranks (c # cs) =
      candidate.extend c (entry.fields (evidence_key (ca_category c) (ranks (ca_category c))) (ranks (ca_category c))) # number_entries R cs"
    "\<And>k. R k = (if k = ca_category c then ranks k + 1 else ranks k)"
  by (rule that [of "ranks (ca_category c := ranks (ca_category c) + 1)"]) (simp_all add: Let_def)

lemma entries_ranks:
  "e \<in> set (number_entries ranks cs) \<Longrightarrow> en_evidenceKey e = evidence_key (ca_category e) (en_rank e) \<and>
     ranks (ca_category e) \<le> en_rank e \<and> en_rank e < ranks (ca_category e) + in_category (ca_category e) cs"
proof (induction cs arbitrary: ranks)
  case (Cons c cs)
  obtain R where R: "number_entries ranks (c # cs) =
      candidate.extend c (entry.fields (evidence_key (ca_category c) (ranks (ca_category c))) (ranks (ca_category c))) # number_entries R cs"
    "\<And>k. R k = (if k = ca_category c then ranks k + 1 else ranks k)" by (rule number_entries_Cons [of ranks c cs]) blast
  show ?case using Cons.prems Cons.IH [of R] R(2) [of "ca_category e"] unfolding R(1) by (auto split: if_splits)
qed simp

lemma entries_ranks_distinct: "distinct (map (\<lambda>e. (ca_category e, en_rank e)) (number_entries ranks cs))"
proof (induction cs arbitrary: ranks)
  case (Cons c cs)
  obtain R where R: "number_entries ranks (c # cs) =
      candidate.extend c (entry.fields (evidence_key (ca_category c) (ranks (ca_category c))) (ranks (ca_category c))) # number_entries R cs"
    "\<And>k. R k = (if k = ca_category c then ranks k + 1 else ranks k)" by (rule number_entries_Cons [of ranks c cs]) blast
  have "(ca_category e, en_rank e) \<noteq> (ca_category c, ranks (ca_category c))" if "e \<in> set (number_entries R cs)" for e
    using entries_ranks [OF that] R(2) [of "ca_category c"] by (auto split: if_splits)
  then have "(ca_category c, ranks (ca_category c)) \<notin> (\<lambda>e. (ca_category e, en_rank e)) ` set (number_entries R cs)" by (metis (no_types, lifting) imageE)
  then show ?case using Cons [of R] unfolding R(1) by simp
qed simp

lemma categoryPrefixes_inj: "categoryPrefixes k = categoryPrefixes l \<longleftrightarrow> k = l"
  by (cases k; cases l; simp)

lemma evidence_key_inj: "evidence_key k r = evidence_key l q \<longleftrightarrow> k = l \<and> r = q"
proof
  assume eq: "evidence_key k r = evidence_key l q"
  have u: "\<not> is_digit CHR ''_''" by (simp add: is_digit_def code_in_def)
  have "nat_digits r = nat_digits q"
    using takeWhile_digits [OF nat_digits_digits u, of "categoryPrefixes k" r] takeWhile_digits [OF nat_digits_digits u, of "categoryPrefixes l" q] eq
    by (metis append_Cons append_Nil evidence_key_def rev_rev_ident)
  moreover from this have "categoryPrefixes k = categoryPrefixes l" using eq by (simp add: evidence_key_def)
  ultimately show "k = l \<and> r = q" by (metis digits_value_nat categoryPrefixes_inj)
qed simp

lemma evidence_key_id:
  assumes "r < 100"
  shows "evidence_id (evidence_key k r)" "CHR 0x0A \<notin> set (evidence_key k r)"
proof -
  have digits: "list_all is_digit (nat_digits r)" by (rule nat_digits_digits)
  have "length (nat_digits r) \<le> 2" using length_nat_digits [of r 2] assms by simp
  moreover have "length (categoryPrefixes k) \<le> 11" "list_all (\<lambda>c. is_alnum c \<or> c \<in> set ''_-'') (categoryPrefixes k)"
    by (cases k; simp add: is_alnum_def is_lower_def code_in_def)+
  ultimately show "evidence_id (evidence_key k r)"
    using digits by (auto simp: evidence_id_def evidence_key_def list_all_iff is_alnum_def)
  have "\<not> is_digit CHR 0x0A" by (simp add: is_digit_def code_in_def)
  with digits show "CHR 0x0A \<notin> set (evidence_key k r)" by (cases k) (auto simp: evidence_key_def list_all_iff)
qed

section \<open>What a selection is\<close>

lemma selection_form:
  obtains n trimmed where "selectStrategyEvidence localeCompare cs budget = Some \<lparr>es_entries = number_entries (\<lambda>_. 0)
      (below n (ss_selected (select_candidates localeCompare cs))), es_trimmed = sort_key categoryOrder trimmed\<rparr>"
    "below n (ss_selected (select_candidates localeCompare cs)) = [] \<or>
      \<not> over_budget (coalesce budget strategyInputTokenBudget) (below n (ss_selected (select_candidates localeCompare cs)))"
    "\<And>m. n \<le> m \<Longrightarrow> below m (ss_selected (select_candidates localeCompare cs)) \<noteq> below n (ss_selected (select_candidates localeCompare cs)) \<Longrightarrow>
      over_budget (coalesce budget strategyInputTokenBudget) (below m (ss_selected (select_candidates localeCompare cs)))"
    "set trimmed = set (ss_trimmed (select_candidates localeCompare cs)) \<union> ca_category `
      (set (ss_selected (select_candidates localeCompare cs)) - set (below n (ss_selected (select_candidates localeCompare cs))))"
proof -
  let ?s = "select_candidates localeCompare cs"
  have "subseq (ss_selected ?s) (js_sort (compareEvidence localeCompare) cs)"
    using selection_facts by (simp add: select_candidates_def reported_def)
  then have "sorted (map (\<lambda>c. categoryOrder (ca_category c)) (ss_selected ?s))"
    using ordered_categories [of localeCompare cs] subseq_sorted_wrt unfolding sorted_map by blast
  from budget_loop [OF this, of "coalesce budget strategyInputTokenBudget" "ss_trimmed ?s"]
  obtain n trimmed where n: "applyTokenBudget (ss_selected ?s) (coalesce budget strategyInputTokenBudget) (ss_trimmed ?s) = Some (below n (ss_selected ?s), trimmed)"
    "below n (ss_selected ?s) = [] \<or> \<not> over_budget (coalesce budget strategyInputTokenBudget) (below n (ss_selected ?s))"
    "\<forall>m. n \<le> m \<and> below m (ss_selected ?s) \<noteq> below n (ss_selected ?s) \<longrightarrow> over_budget (coalesce budget strategyInputTokenBudget) (below m (ss_selected ?s))"
    "set trimmed = set (ss_trimmed ?s) \<union> ca_category ` (set (ss_selected ?s) - set (below n (ss_selected ?s)))" by blast
  show ?thesis by (rule that [of n trimmed]) (use n in \<open>simp_all add: selectStrategyEvidence_def Let_def\<close>)
qed

lemma fits_below: "fits cs \<Longrightarrow> fits (below n cs)"
proof -
  assume cs: "fits cs"
  have sub: "subseq (below n cs) cs" by (simp add: below_def)
  have "length (filter P (below n cs)) \<le> length (filter P cs)" for P
    using sub by (metis list_emb_length subseq_filter)
  moreover have "in_category k (below n cs) \<le> in_category k cs" for k by (rule in_category_subseq [OF sub])
  moreover have "distinct (map referenceKey cs) \<Longrightarrow> distinct (map referenceKey (below n cs))"
    by (simp add: below_def distinct_map_filter)
  ultimately show ?thesis
    using cs subseq_sorted_wrt [OF sub] unfolding fits_def by (meson le_trans)
qed

lemma in_category_mset: "mset cs = mset ds \<Longrightarrow> in_category k cs = in_category k ds"
  unfolding in_category_def by (metis mset_filter size_mset)

lemma in_category_below: "in_category k (below n cs) = (if categoryOrder k < n then in_category k cs else 0)"
  by (induction cs) (auto simp: below_def)

lemma in_category_pos: "0 < in_category k cs \<longleftrightarrow> k \<in> ca_category ` set cs"
  by (induction cs) auto

lemma selection_sound:
  assumes "selectStrategyEvidence localeCompare cs budget = Some s"
  shows "fits (es_entries s)" "distinct (map en_evidenceKey (es_entries s))"
    "set (map candidate.truncate (es_entries s)) \<subseteq> set cs"
    "k \<in> set (es_trimmed s) \<longleftrightarrow> in_category k (es_entries s) < in_category k cs"
    "e \<in> set (es_entries s) \<Longrightarrow> en_evidenceKey e = evidence_key (ca_category e) (en_rank e) \<and> en_rank e < strategyEvidenceCaps (ca_category e)"
proof -
  let ?t = "select_candidates localeCompare cs" and ?xs = "js_sort (compareEvidence localeCompare) cs"
  obtain n trimmed where s: "s = \<lparr>es_entries = number_entries (\<lambda>_. 0) (below n (ss_selected ?t)), es_trimmed = sort_key categoryOrder trimmed\<rparr>"
    and trimmed: "set trimmed = set (ss_trimmed ?t) \<union> ca_category ` (set (ss_selected ?t) - set (below n (ss_selected ?t)))"
    using selection_form [of localeCompare cs budget] assms by (metis option.inject)
  have facts: "fits (ss_selected ?t)" "reported ?xs ?t"
    using selection_facts by (simp_all add: select_candidates_def)
  show fit: "fits (es_entries s)" using fits_below [OF facts(1)] by (simp add: s entries_fit)
  have keys: "en_evidenceKey e = evidence_key (ca_category e) (en_rank e)" "en_rank e < in_category (ca_category e) (es_entries s)"
    if "e \<in> set (es_entries s)" for e
    using entries_ranks [of e "\<lambda>_. 0"] that by (simp_all add: s entries_in_category)
  then show "e \<in> set (es_entries s) \<Longrightarrow> en_evidenceKey e = evidence_key (ca_category e) (en_rank e) \<and> en_rank e < strategyEvidenceCaps (ca_category e)"
    using fit by (meson fits_def less_le_trans)
  have "map en_evidenceKey (es_entries s) = map (\<lambda>(k, r). evidence_key k r) (map (\<lambda>e. (ca_category e, en_rank e)) (es_entries s))"
    using keys(1) by simp
  moreover have "distinct (map (\<lambda>e. (ca_category e, en_rank e)) (es_entries s))" by (simp add: s entries_ranks_distinct)
  moreover have "inj (\<lambda>(k, r). evidence_key k r)" by (auto simp: inj_def evidence_key_inj)
  ultimately show "distinct (map en_evidenceKey (es_entries s))" by (metis distinct_map inj_on_subset subset_UNIV)
  have "map candidate.truncate (es_entries s) = below n (ss_selected ?t)" by (simp add: s)
  moreover have "set (ss_selected ?t) \<subseteq> set ?xs" using facts(2) subseq_set unfolding reported_def by blast
  ultimately show "set (map candidate.truncate (es_entries s)) \<subseteq> set cs" by (auto simp: below_def)
  have le: "in_category k (ss_selected ?t) \<le> in_category k cs"
    using facts(2) in_category_subseq in_category_mset [of ?xs cs] unfolding reported_def by (metis js_sort_mset)
  have "k \<in> set (ss_trimmed ?t) \<longleftrightarrow> in_category k (ss_selected ?t) < in_category k cs"
    using facts(2) in_category_mset [of ?xs cs k] by (simp add: reported_def)
  moreover have "k \<in> ca_category ` (set (ss_selected ?t) - set (below n (ss_selected ?t))) \<longleftrightarrow>
      \<not> categoryOrder k < n \<and> 0 < in_category k (ss_selected ?t)"
    unfolding in_category_pos by (auto simp: below_def)
  ultimately show "k \<in> set (es_trimmed s) \<longleftrightarrow> in_category k (es_entries s) < in_category k cs"
    using le by (auto simp: s trimmed entries_in_category in_category_below)
qed

section \<open>The order of the rows does not matter\<close>

definition score_ok :: "candidate \<Rightarrow> bool" where
  "score_ok c \<longleftrightarrow> (case ca_rankScore c of None \<Rightarrow> True | Some v \<Rightarrow> js_wf v \<and> isFinite v)"

definition evidence_order :: "(string \<Rightarrow> rat) \<Rightarrow> candidate \<Rightarrow> nat \<times> nat \<times> rat \<times> rat" where
  "evidence_order rank c = (categoryOrder (ca_category c), (if ca_rankScore c = None then 1 else 0),
     - num_value (coalesce (ca_rankScore c) NegInf), rank (referenceKey c))"

lemma evidence_keyed:
  assumes "collation localeCompare rank"
  shows "keyed_comparator (compareEvidence localeCompare) (evidence_order rank) {c. score_ok c}"
proof
  fix x y assume "x \<in> {c. score_ok c}" "y \<in> {c. score_ok c}"
  then have scores: "ca_rankScore x = None \<or> (\<exists>a. ca_rankScore x = Some (Num a) \<and> representable a)"
    "ca_rankScore y = None \<or> (\<exists>b. ca_rankScore y = Some (Num b) \<and> representable b)"
    by (auto simp: score_ok_def split: option.splits elim: isFinite.elims)
  show "jgt (compareEvidence localeCompare x y) (jint 0) \<longleftrightarrow> evidence_order rank y < evidence_order rank x"
  proof (cases "categoryOrder (ca_category x) = categoryOrder (ca_category y)")
    case True
    then show ?thesis using scores assms jsub_sign(1)
      by (auto simp: compareEvidence_def compareCandidates_def evidence_order_def Let_def jeq_def collation_def num_value_def less_prod_def
        jsub_def jgt_def jint_def)
  next
    case False
    then show ?thesis by (auto simp: compareEvidence_def evidence_order_def jgt_def jint_def less_prod_def)
  qed
qed

section \<open>Properties of the selection\<close>

text \<open>
  C6: choosing evidence always ends, whatever the candidates and the budget.  What it returns is the
  selection cut to whole categories from the front: it fits the budget or is empty, and no longer run
  of whole categories would have fitted.
\<close>

theorem selection_returns:
  "\<exists>n trimmed. let selected = ss_selected (select_candidates localeCompare cs);
       limit = coalesce budget strategyInputTokenBudget;
       kept = filter (\<lambda>c. categoryOrder (ca_category c) < n) selected
     in selectStrategyEvidence localeCompare cs budget = Some \<lparr>es_entries = number_entries (\<lambda>_. 0) kept, es_trimmed = trimmed\<rparr> \<and>
        (kept = [] \<or> estimateStrategyPromptTokens (renderCandidates kept) \<le> limit) \<and>
        (\<forall>m \<ge> n. let longer = filter (\<lambda>c. categoryOrder (ca_category c) < m) selected in
           longer = kept \<or> limit < estimateStrategyPromptTokens (renderCandidates longer))"
proof -
  obtain n trimmed where n: "selectStrategyEvidence localeCompare cs budget = Some \<lparr>es_entries = number_entries (\<lambda>_. 0)
      (below n (ss_selected (select_candidates localeCompare cs))), es_trimmed = sort_key categoryOrder trimmed\<rparr>"
    "below n (ss_selected (select_candidates localeCompare cs)) = [] \<or>
      \<not> over_budget (coalesce budget strategyInputTokenBudget) (below n (ss_selected (select_candidates localeCompare cs)))"
    "\<And>m. n \<le> m \<Longrightarrow> below m (ss_selected (select_candidates localeCompare cs)) \<noteq> below n (ss_selected (select_candidates localeCompare cs)) \<Longrightarrow>
      over_budget (coalesce budget strategyInputTokenBudget) (below m (ss_selected (select_candidates localeCompare cs)))"
    using selection_form [of localeCompare cs budget] by metis
  show ?thesis
    using n unfolding below_def over_budget_def Let_def
    by (intro exI [of _ n] exI [of _ "sort_key categoryOrder trimmed"]) (simp only: not_less, blast)
qed

text \<open>
  C11: what a selection may hold.  The keys the model cites are distinct, no record is there twice, each
  category, the posts and the statistics keep the caps of the code, a post entry shares no post with an
  entry before it, every entry is one of the candidates, and a category is reported as trimmed exactly when
  some candidate of it is not there.  The caps are those of \<open>strategyEvidenceCaps\<close> and
  \<open>strategyManifestCaps\<close>: 20 best, 12 weakest, 30 recent and 20 comparator posts, 60 posts in all.  They
  are not those of \<open>docs/technical/strategy-generation.md\<close>, which still has 6, 4, 6 and 6, and 30 posts in
  all: the comment above the table explains why the post categories were raised, and still cites the document.
\<close>

theorem selection_bounds:
  assumes "selectStrategyEvidence localeCompare cs budget = Some s"
  shows "distinct (map en_evidenceKey (es_entries s)) \<and> distinct (map referenceKey (es_entries s)) \<and>
    (\<forall>k. length (filter (\<lambda>e. ca_category e = k) (es_entries s)) \<le> strategyEvidenceCaps k) \<and>
    length (filter isPost (es_entries s)) \<le> 60 \<and> length (filter isStatistic (es_entries s)) \<le> 20 \<and>
    sorted_wrt (\<lambda>d e. isPost e \<longrightarrow> set (ca_postIds d) \<inter> set (ca_postIds e) = {}) (es_entries s) \<and>
    set (map candidate.truncate (es_entries s)) \<subseteq> set cs \<and>
    (\<forall>k. k \<in> set (es_trimmed s) \<longleftrightarrow>
       length (filter (\<lambda>e. ca_category e = k) (es_entries s)) < length (filter (\<lambda>c. ca_category c = k) cs))"
  using selection_sound [OF assms] unfolding fits_def in_category_def posts_cap_def statistics_cap_def by blast

text \<open>
  C12: the order the rows arrived in does not matter.  Where the collation orders texts linearly, scores
  are finite, and a category holds one candidate for a record, two lists of the same
  candidates give the same entries under the same keys, and the same categories trimmed.
\<close>

theorem selection_deterministic:
  assumes "collation localeCompare rank" "mset cs = mset ds" "\<forall>c \<in> set cs. score_ok c"
    "\<forall>a \<in> set cs. \<forall>b \<in> set cs. ca_category a = ca_category b \<and> referenceKey a = referenceKey b \<longrightarrow> a = b"
  shows "selectStrategyEvidence localeCompare cs budget = selectStrategyEvidence localeCompare ds budget"
proof -
  have "keyed_comparator (compareEvidence localeCompare) (evidence_order rank) (set cs)"
    using assms(3) by (intro keyed_comparator_subset [OF evidence_keyed [OF assms(1)]]) blast
  moreover have "inj_on (evidence_order rank) (set cs)"
  proof (rule inj_onI)
    fix a b assume ab: "a \<in> set cs" "b \<in> set cs" and "evidence_order rank a = evidence_order rank b"
    then have "ca_category a = ca_category b" "rank (referenceKey a) = rank (referenceKey b)"
      by (simp_all add: evidence_order_def categoryOrder_inj)
    then show "a = b" using assms(1,4) ab by (meson collation_def injD)
  qed
  ultimately have "js_sort (compareEvidence localeCompare) cs = js_sort (compareEvidence localeCompare) ds"
    using assms(2) by (intro keyed_comparator.sort_perm) simp_all
  then show ?thesis by (simp add: selectStrategyEvidence_def select_candidates_def)
qed

text \<open>
  C13: the frozen evidence is a manifest the validator accepts.  When every candidate has a role, the
  entries of a selection never raise in the validator, and a key the model cites names the one
  entry that has it.
\<close>

theorem selection_is_manifest:
  assumes "selectStrategyEvidence localeCompare cs budget = Some s" "\<forall>c \<in> set cs. ca_allowedRoles c \<noteq> []"
  shows "createManifestMap [] (map toStrategyManifestEvidence (es_entries s)) = None \<and>
    (e \<in> set (es_entries s) \<longrightarrow>
      manifest_get (map toStrategyManifestEvidence (es_entries s)) (en_evidenceKey e) = Some (toStrategyManifestEvidence e))"
proof -
  note sound = selection_sound [OF assms(1)]
  have ids: "map sm_evidenceId (map toStrategyManifestEvidence (es_entries s)) = map en_evidenceKey (es_entries s)"
    by (simp add: toStrategyManifestEvidence_def)
  have "evidence_id (en_evidenceKey e) \<and> ca_allowedRoles e \<noteq> []" if e: "e \<in> set (es_entries s)" for e
  proof -
    have "strategyEvidenceCaps (ca_category e) < 100" by (cases "ca_category e") simp_all
    then have "evidence_id (en_evidenceKey e)" using sound(5) [OF e] evidence_key_id(1) by simp
    moreover have "candidate.truncate e \<in> set cs" using sound(3) e by auto
    then have "ca_allowedRoles (candidate.truncate e) \<noteq> []" using assms(2) by blast
    ultimately show ?thesis by simp
  qed
  then have "createManifestMap [] (map toStrategyManifestEvidence (es_entries s)) = None"
    unfolding createManifestMap_None ids using sound(2) by (auto simp: toStrategyManifestEvidence_def)
  moreover have "manifest_get (map toStrategyManifestEvidence (es_entries s)) (en_evidenceKey e) = Some (toStrategyManifestEvidence e)"
    if "e \<in> set (es_entries s)"
    using that sound(2) by (subst manifest_get_iff) (simp_all add: ids comp_def toStrategyManifestEvidence_def)
  ultimately show ?thesis by blast
qed

section \<open>The text\<close>

lemma split_join: "join newline (split_lines s) = s"
proof (induction s)
  case (Cons c s)
  have "split_lines s \<noteq> []" for s by (induction s) (auto split: list.splits)
  then show ?case using Cons by (cases "split_lines s"; cases "tl (split_lines s)") (auto simp: newline_def)
qed simp

lemma split_lines_plain: "CHR 0x0A \<notin> set s \<Longrightarrow> split_lines s = [s]"
  by (induction s) auto

lemma split_lines_free: "l \<in> set (split_lines s) \<Longrightarrow> CHR 0x0A \<notin> set l"
  by (induction s arbitrary: l) (auto split: list.splits if_splits)

lemma split_lines_append: "split_lines (s @ newline @ t) = split_lines s @ split_lines t"
proof (induction s)
  case (Cons c s)
  have "split_lines s \<noteq> []" for s by (induction s) (auto split: list.splits)
  then show ?case using Cons by (auto split: list.splits)
qed (simp add: newline_def)

lemma split_lines_join: "xs \<noteq> [] \<Longrightarrow> split_lines (join newline xs) = concat (map split_lines xs)"
  by (induction newline xs rule: join.induct) (simp_all add: split_lines_append)

lemma split_lines_indent: "split_lines (indentEvidence s) = map (\<lambda>l. ''    '' @ l) (split_lines s)"
proof -
  have "split_lines s \<noteq> []" by (induction s) (auto split: list.splits)
  moreover have "split_lines (''    '' @ l) = [''    '' @ l]" if "l \<in> set (split_lines s)" for l
    using split_lines_free [OF that] by (intro split_lines_plain) simp
  ultimately show ?thesis unfolding indentEvidence_def by (simp add: split_lines_join comp_def concat_map_singleton cong: map_cong)
qed

lemma join_set: "set (join sep xs) \<subseteq> set sep \<union> \<Union> (set ` set xs)"
  by (induction sep xs rule: join.induct) auto

lemma join_free: "CHR 0x0A \<notin> set sep \<Longrightarrow> (\<And>x. x \<in> set xs \<Longrightarrow> CHR 0x0A \<notin> set x) \<Longrightarrow> CHR 0x0A \<notin> set (join sep xs)"
  using join_set [of sep xs] by blast

lemma texts_free:
  "CHR 0x0A \<notin> set (role_text r)" "CHR 0x0A \<notin> set (class_text c)" "CHR 0x0A \<notin> set (dimension_text d)"
  "CHR 0x0A \<notin> set (evidence_type_text t)" "CHR 0x0A \<notin> set (metric_text m)" "CHR 0x0A \<notin> set (int_text n)"
proof -
  have "\<not> is_digit CHR 0x0A" by (simp add: is_digit_def code_in_def)
  then show "CHR 0x0A \<notin> set (int_text n)" using nat_digits_digits [of "nat \<bar>n\<bar>"] by (auto simp: int_text_def list_all_iff)
  show "CHR 0x0A \<notin> set (role_text r)" by (cases r) simp_all
  show "CHR 0x0A \<notin> set (class_text c)" by (cases c) simp_all
  show "CHR 0x0A \<notin> set (dimension_text d)" by (cases d) simp_all
  show "CHR 0x0A \<notin> set (evidence_type_text t)" by (cases t) simp_all
  show "CHR 0x0A \<notin> set (metric_text m)" by (cases m) simp_all
qed

lemma manifest_line_free: "CHR 0x0A \<notin> set (en_evidenceKey e) \<Longrightarrow> CHR 0x0A \<notin> set (manifest_line e)"
proof -
  assume key: "CHR 0x0A \<notin> set (en_evidenceKey e)"
  have "CHR 0x0A \<notin> set (join ''|'' (map role_text (ca_allowedRoles e)))" "CHR 0x0A \<notin> set (join ''|'' (map dimension_text (ca_dimensions e)))"
    by (intro join_free; auto simp: texts_free)+
  then show ?thesis unfolding manifest_line_def set_append Un_iff de_Morgan_disj
    by (intro conjI join_free) (use key in \<open>auto simp: texts_free split: option.splits if_splits\<close>)
qed

text \<open>The lines of a manifest.\<close>

definition plain_identity :: "manifest_identity \<Rightarrow> bool" where
  "plain_identity i \<longleftrightarrow> CHR 0x0A \<notin> set (coalesce (mi_instagramAccountId i) []) \<and> CHR 0x0A \<notin> set (mi_ageWindow i) \<and>
     CHR 0x0A \<notin> set (mi_publishedFrom i) \<and> CHR 0x0A \<notin> set (mi_publishedTo i)"

lemma manifest_lines:
  assumes "es \<noteq> []" "\<And>e. e \<in> set es \<Longrightarrow> CHR 0x0A \<notin> set (en_evidenceKey e)" "plain_identity i"
  shows "split_lines (renderStrategyManifest i es) = [manifest_head i, []] @ map manifest_line es @ [[], ''The evidence itself:''] @
    concat (map (\<lambda>e. note_head e # map (\<lambda>l. ''    '' @ l) (split_lines (ca_summaryText e))) es) @ [[], manifest_foot]"
proof -
  have blank: "split_lines (newline @ t) = [] # split_lines t" for t using split_lines_append [of "[]" t] by simp
  have head: "split_lines (manifest_head i) = [manifest_head i]"
    using assms(3) by (intro split_lines_plain) (cases "mi_instagramAccountId i"; simp add: manifest_head_def plain_identity_def texts_free)
  have lines: "split_lines (join newline (map manifest_line es)) = map manifest_line es"
    using assms(1,2) manifest_line_free
    by (simp add: split_lines_join comp_def split_lines_plain concat_map_singleton cong: map_cong)
  have "split_lines (note_head e) = [note_head e]" if "e \<in> set es" for e
    using assms(2) [OF that] by (intro split_lines_plain) (simp add: note_head_def)
  then have "split_lines (join newline (map (\<lambda>e. note_head e @ newline @ indentEvidence (ca_summaryText e)) es)) =
      concat (map (\<lambda>e. note_head e # map (\<lambda>l. ''    '' @ l) (split_lines (ca_summaryText e))) es)"
    using assms(1) by (simp add: split_lines_join comp_def split_lines_append split_lines_indent cong: map_cong)
  moreover have "split_lines ''The evidence itself:'' = [''The evidence itself:'']" "split_lines manifest_foot = [manifest_foot]"
    by (rule split_lines_plain, simp add: manifest_foot_def)+
  ultimately show ?thesis unfolding renderStrategyManifest_def by (simp add: split_lines_append blank head lines)
qed

text \<open>
  C14: evidence cannot pass for structure.  A caption, a transcript or a comment is untrusted, and
  whatever it says, the lines of the manifest that are not indented are those the program writes: the
  heading, one line for each entry, the heading of each note and the closing rule.  The indented ones are the
  evidence, line by line, and give each text back.
\<close>

theorem evidence_is_not_structure:
  assumes "selectStrategyEvidence localeCompare cs budget = Some s" "es_entries s \<noteq> []" "plain_identity i"
  shows "filter (\<lambda>l. take 4 l \<noteq> ''    '') (split_lines (renderStrategyManifest i (es_entries s))) =
      [manifest_head i, []] @ map manifest_line (es_entries s) @ [[], ''The evidence itself:''] @ map note_head (es_entries s) @ [[], manifest_foot] \<and>
    filter (\<lambda>l. take 4 l = ''    '') (split_lines (renderStrategyManifest i (es_entries s))) =
      concat (map (\<lambda>e. map (\<lambda>l. ''    '' @ l) (split_lines (ca_summaryText e))) (es_entries s)) \<and>
    join newline (split_lines text) = text"
proof -
  let ?es = "es_entries s"
  have key: "CHR 0x0A \<notin> set (en_evidenceKey e)" if "e \<in> set ?es" for e
  proof -
    have "strategyEvidenceCaps (ca_category e) < 100" by (cases "ca_category e") simp_all
    then show ?thesis using selection_sound(5) [OF assms(1) that] evidence_key_id(2) by simp
  qed
  have written: "take 4 (manifest_head i) \<noteq> ''    ''" "take 4 (manifest_line e) \<noteq> ''    ''" "take 4 (note_head e) \<noteq> ''    ''"
    "take 4 manifest_foot \<noteq> ''    ''" for e
    by (simp_all add: manifest_head_def manifest_line_def note_head_def manifest_foot_def)
  have evidence: "filter (\<lambda>l. take 4 l \<noteq> ''    '') (concat (map (\<lambda>e. note_head e # map (\<lambda>l. ''    '' @ l) (split_lines (ca_summaryText e))) es)) = map note_head es"
    "filter (\<lambda>l. take 4 l = ''    '') (concat (map (\<lambda>e. note_head e # map (\<lambda>l. ''    '' @ l) (split_lines (ca_summaryText e))) es)) =
      concat (map (\<lambda>e. map (\<lambda>l. ''    '' @ l) (split_lines (ca_summaryText e))) es)" for es :: "entry list"
    by (induction es) (simp_all add: written filter_map comp_def)
  have lines: "filter (\<lambda>l. take 4 l \<noteq> ''    '') (map manifest_line es) = map manifest_line es" "filter (\<lambda>l. take 4 l = ''    '') (map manifest_line es) = []" for es
    by (induction es) (simp_all add: written)
  have "split_lines (renderStrategyManifest i ?es) = [manifest_head i, []] @ map manifest_line ?es @ [[], ''The evidence itself:''] @
      concat (map (\<lambda>e. note_head e # map (\<lambda>l. ''    '' @ l) (split_lines (ca_summaryText e))) ?es) @ [[], manifest_foot]"
    by (rule manifest_lines [OF assms(2) _ assms(3)]) (rule key)
  then show ?thesis using evidence [of ?es] by (simp add: lines written split_join)
qed

section \<open>What the hash identifies\<close>

text \<open>Entries that agree in all that is hashed: lists up to their order.\<close>

definition same_evidence :: "entry \<Rightarrow> entry \<Rightarrow> bool" where
  "same_evidence d e \<longleftrightarrow> ca_category d = ca_category e \<and> en_rank d = en_rank e \<and> ca_evidenceType d = ca_evidenceType e \<and>
     en_evidenceKey d = en_evidenceKey e \<and> ca_referenceId d = ca_referenceId e \<and> ca_retrievalReason d = ca_retrievalReason e \<and>
     ca_classification d = ca_classification e \<and> ca_sampleSize d = ca_sampleSize e \<and> mset (ca_allowedRoles d) = mset (ca_allowedRoles e) \<and>
     mset (ca_dimensions d) = mset (ca_dimensions e) \<and> mset (ca_allowedNumericClaims d) = mset (ca_allowedNumericClaims e) \<and>
     ca_summaryText d = ca_summaryText e"

definition same_request :: "manifest_identity \<Rightarrow> manifest_identity \<Rightarrow> bool" where
  "same_request i j \<longleftrightarrow> mset (mi_pillarEmphasis i) = mset (mi_pillarEmphasis j) \<and> mset (mi_formatEmphasis i) = mset (mi_formatEmphasis j) \<and>
     i \<lparr>mi_pillarEmphasis := [], mi_formatEmphasis := []\<rparr> = j \<lparr>mi_pillarEmphasis := [], mi_formatEmphasis := []\<rparr>"

lemma category_text_inj: "category_text a = category_text b \<longleftrightarrow> a = b"
  by (cases a; cases b; simp)

lemma evidence_type_text_inj: "evidence_type_text a = evidence_type_text b \<longleftrightarrow> a = b"
  by (cases a; cases b; simp)

lemma class_text_inj: "inj class_text"
  unfolding inj_def
proof (intro allI)
  fix a b show "class_text a = class_text b \<longrightarrow> a = b" by (cases a; cases b; simp)
qed

lemma role_text_inj: "inj role_text"
  unfolding inj_def
proof (intro allI)
  fix a b show "role_text a = role_text b \<longrightarrow> a = b" by (cases a; cases b; simp)
qed

lemma dimension_text_inj: "inj dimension_text"
  unfolding inj_def
proof (intro allI)
  fix a b show "dimension_text a = dimension_text b \<longrightarrow> a = b" by (cases a; cases b; simp)
qed

lemma mode_text_inj: "mode_text a = mode_text b \<longleftrightarrow> a = b"
  by (cases a; cases b; simp)

lemma sorted_texts_eq: "sorted_texts xs = sorted_texts ys \<longleftrightarrow> mset xs = mset ys"
  by (simp add: sorted_texts_def sort_eq_mset)

lemma mset_texts: "inj f \<Longrightarrow> image_mset f A = image_mset f B \<longleftrightarrow> A = B"
  using multiset.inj_map [of f] by (auto dest: injD)

lemma map_eq_all2: "map f xs = map f ys \<longleftrightarrow> list_all2 (\<lambda>x y. f x = f y) xs ys"
  by (simp add: list.rel_eq [symmetric] list.rel_map)

text \<open>A hash function without collisions, with which a digest determines its text.\<close>

definition code_bytes :: hash where
  "code_bytes s = map of_char s"

lemma hex_pair_inj:
  assumes "a < 256" "b < 256" "hex_digit (a div 16) = hex_digit (b div 16)" "hex_digit (a mod 16) = hex_digit (b mod 16)"
  shows "a = b"
proof -
  have q: "a div 16 < 16" "b div 16 < 16"
    using less_mult_imp_div_less [of a 16 16] less_mult_imp_div_less [of b 16 16] assms(1,2) by simp_all
  have r: "a mod 16 < 16" "b mod 16 < 16" by simp_all
  have "a div 16 = b div 16" using arg_cong [OF assms(3), of hex_value] unfolding hex_value_digit [OF q(1)] hex_value_digit [OF q(2)] .
  moreover have "a mod 16 = b mod 16" using arg_cong [OF assms(4), of hex_value] unfolding hex_value_digit [OF r(1)] hex_value_digit [OF r(2)] .
  ultimately show ?thesis using div_mult_mod_eq [of a 16] div_mult_mod_eq [of b 16] by argo
qed

lemma code_bytes_inj: "digest_hex code_bytes s = digest_hex code_bytes t \<longleftrightarrow> s = t"
proof
  have code: "unat (of_char c :: 8 word) = of_char c" for c
    using of_nat_of_char [of c, where 'a = "8 word"] unat_of_nat [of "of_char c", where 'a = 8] by simp
  assume "digest_hex code_bytes s = digest_hex code_bytes t"
  then show "s = t"
    unfolding digest_hex_def code_bytes_def hex_text_def
  proof (induction s arbitrary: t)
    case Nil
    then show ?case by (cases t) simp_all
  next
    case (Cons c s)
    then obtain d u where t: "t = d # u" by (cases t) simp_all
    have "of_char c < (256 :: nat)" "of_char d < (256 :: nat)" by simp_all
    then have "(of_char c :: nat) = of_char d" using Cons.prems by (intro hex_pair_inj) (simp_all add: t code)
    moreover have "s = u" using Cons by (simp add: t)
    ultimately show ?case by (simp add: t)
  qed
qed simp

lemma entry_json_eq: "entry_json code_bytes d = entry_json code_bytes e \<longleftrightarrow> same_evidence d e"
  unfolding entry_json_def same_evidence_def
  by (auto simp: category_text_inj evidence_type_text_inj sorted_texts_eq mset_texts role_text_inj dimension_text_inj code_bytes_inj
    option.inj_map [OF class_text_inj, THEN inj_eq] split: option.splits)

lemma entry_json_same: "same_evidence d e \<Longrightarrow> entry_json sha256 d = entry_json sha256 e"
  unfolding entry_json_def same_evidence_def by (simp add: sorted_texts_eq mset_texts role_text_inj dimension_text_inj)

lemma manifest_json_eq:
  "manifest_json sha256 i es = manifest_json sha256 j ds \<longleftrightarrow> same_request i j \<and> map (entry_json sha256) es = map (entry_json sha256) ds"
  by (cases i; cases j) (auto simp: manifest_json_def same_request_def sorted_texts_eq mode_text_inj metric_text_inj)

text \<open>
  C15: the hash of a manifest identifies the request and its evidence.  Under every hash function two
  manifests have one hash if and only if the requests agree in every version, the scope, the run, the mode, the metric,
  the period and the constraint, and the emphasis up to its order, and their entries agree one by one in
  everything that is hashed; and two signatures are one if and only if the hash and the ordinal are.
\<close>

theorem manifest_hash_identifies:
  "((\<forall>sha256. createStrategyManifestHash sha256 i es = createStrategyManifestHash sha256 j ds) \<longleftrightarrow>
     same_request i j \<and> list_all2 same_evidence es ds) \<and>
   ((\<forall>sha256. strategyGenerateKey (createStrategyRequestSignature sha256 h m) = strategyGenerateKey (createStrategyRequestSignature sha256 k n)) \<longleftrightarrow>
     h = k \<and> m = n)"
proof
  show "(\<forall>sha256. createStrategyManifestHash sha256 i es = createStrategyManifestHash sha256 j ds) \<longleftrightarrow> same_request i j \<and> list_all2 same_evidence es ds"
  proof
    assume "\<forall>sha256. createStrategyManifestHash sha256 i es = createStrategyManifestHash sha256 j ds"
    then have "createStrategyManifestHash code_bytes i es = createStrategyManifestHash code_bytes j ds" by blast
    then have "same_request i j" "map (entry_json code_bytes) es = map (entry_json code_bytes) ds"
      by (simp_all add: createStrategyManifestHash_def code_bytes_inj json_text_inj manifest_json_eq)
    then show "same_request i j \<and> list_all2 same_evidence es ds" by (simp add: map_eq_all2 entry_json_eq)
  next
    assume same: "same_request i j \<and> list_all2 same_evidence es ds"
    then have "map (entry_json sha256) es = map (entry_json sha256) ds" for sha256
      unfolding map_eq_all2 by (auto intro: list_all2_mono entry_json_same)
    with same have "manifest_json sha256 i es = manifest_json sha256 j ds" for sha256 by (simp add: manifest_json_eq)
    then show "\<forall>sha256. createStrategyManifestHash sha256 i es = createStrategyManifestHash sha256 j ds"
      by (simp add: createStrategyManifestHash_def)
  qed
  show "(\<forall>sha256. strategyGenerateKey (createStrategyRequestSignature sha256 h m) = strategyGenerateKey (createStrategyRequestSignature sha256 k n)) \<longleftrightarrow>
      h = k \<and> m = n"
    unfolding strategyGenerateKey_def createStrategyRequestSignature_def same_append_eq hash_separates json_text_inj by simp
qed

section \<open>A sample\<close>

definition sample_candidate :: "category \<Rightarrow> evidence_type \<Rightarrow> string list \<Rightarrow> int \<Rightarrow> string \<Rightarrow> candidate" where
  "sample_candidate k t posts score reference = \<lparr>ca_allowedNumericClaims = [], ca_allowedRoles = [ER_supporting], ca_category = k,
     ca_classification = None, ca_dimensions = [CD_hook], ca_evidenceType = t, ca_postIds = posts, ca_rankScore = Some (jint score),
     ca_referenceId = Some reference, ca_requiredInLimitations = False, ca_retrievalReason = ''r'', ca_sampleSize = None, ca_summaryText = ''- x''\<rparr>"

definition evidence_sample :: "candidate list" where
  "evidence_sample = [sample_candidate C_top_post ET_post [''q''] 2 ''b'', sample_candidate C_top_post ET_post [''p''] 3 ''a'',
     sample_candidate C_positive_statistic ET_feature_statistic [''p''] 1 ''s'']"

definition sample_selection :: evidence_selection where
  "sample_selection = \<lparr>es_entries =
       [candidate.extend (sample_candidate C_positive_statistic ET_feature_statistic [''p''] 1 ''s'') (entry.fields ''stat_pos_0'' 0),
        candidate.extend (sample_candidate C_top_post ET_post [''q''] 2 ''b'') (entry.fields ''post_top_0'' 0)],
     es_trimmed = [C_top_post]\<rparr>"

lemma sample_order: "js_sort (compareEvidence numbered_compare) evidence_sample = rev evidence_sample"
proof -
  have "jgt (jsub (jint 3) (jint 2)) (jint 0)" "\<not> jgt (jsub (jint 2) (jint 3)) (jint 0)"
    using jsub_sign(1) [of 3 2] jsub_sign(1) [of 2 3] representable_int [of 3] representable_int [of 2] by (simp_all add: jint_def)
  then show ?thesis
    by (simp add: js_sort_def evidence_sample_def compareEvidence_def compareCandidates_def sample_candidate_def jeq_def jint_def jgt_def)
qed

lemma sample_picked: "ss_selected (select_candidates numbered_compare evidence_sample) =
   [sample_candidate C_positive_statistic ET_feature_statistic [''p''] 1 ''s'', sample_candidate C_top_post ET_post [''q''] 2 ''b'']"
  "ss_trimmed (select_candidates numbered_compare evidence_sample) = [C_top_post]"
  unfolding select_candidates_def sample_order
  by (simp_all add: evidence_sample_def sample_candidate_def selection_start_def select_candidate_def referenceKey_def isPost_def isStatistic_def
    trim_category_def add_once_def statistics_cap_def posts_cap_def)

lemma sample_selected: "selectStrategyEvidence numbered_compare evidence_sample (Some 3) = Some sample_selection"
proof -
  have "estimateStrategyPromptTokens (renderCandidates (ss_selected (select_candidates numbered_compare evidence_sample))) \<le> 3"
    by (simp add: sample_picked estimateStrategyPromptTokens_def renderCandidates_def sample_candidate_def)
  then have "applyTokenBudget (ss_selected (select_candidates numbered_compare evidence_sample)) 3
      (ss_trimmed (select_candidates numbered_compare evidence_sample)) =
    Some (ss_selected (select_candidates numbered_compare evidence_sample), ss_trimmed (select_candidates numbered_compare evidence_sample))"
    by (subst applyTokenBudget.simps) simp
  moreover have "evidence_key C_positive_statistic 0 = ''stat_pos_0''" "evidence_key C_top_post 0 = ''post_top_0''"
    by code_simp+
  ultimately show ?thesis
    by (simp add: selectStrategyEvidence_def Let_def sample_picked sample_selection_def)
      (simp add: sample_candidate_def)
qed

definition sample_manifest_identity :: manifest_identity where
  "sample_manifest_identity = \<lparr>mi_ageWindow = ''mature'', mi_analysisSchemaVersion = ''a'', mi_analyticsRunId = ''r'', mi_analyticsVersion = ''v'',
     mi_cohortVersion = ''c'', mi_editorialConstraint = None, mi_formatEmphasis = [], mi_instagramAccountId = None, mi_mode = SM_exploratory,
     mi_pillarEmphasis = [], mi_primaryMetric = share_rate_reach, mi_publishedFrom = ''f'', mi_publishedTo = ''t'', mi_statisticsVersion = ''s''\<rparr>"

theorem selection_returns_witness: "selectStrategyEvidence numbered_compare evidence_sample (Some 1) \<noteq> None"
  using selection_returns [of numbered_compare evidence_sample "Some 1"] unfolding Let_def by (metis option.discI)

theorem selection_bounds_witness:
  "distinct (map en_evidenceKey (es_entries sample_selection)) \<and> length (filter isPost (es_entries sample_selection)) \<le> 60"
  using selection_bounds [OF sample_selected] by simp

theorem selection_deterministic_witness:
  "selectStrategyEvidence numbered_compare (rev evidence_sample) (Some 3) = Some sample_selection"
proof -
  have "\<forall>c \<in> set evidence_sample. score_ok c"
    by (simp add: evidence_sample_def sample_candidate_def score_ok_def jint_def representable_int [of 1, simplified]
      representable_int [of 2, simplified] representable_int [of 3, simplified])
  moreover have "\<forall>a \<in> set evidence_sample. \<forall>b \<in> set evidence_sample. ca_category a = ca_category b \<and> referenceKey a = referenceKey b \<longrightarrow> a = b"
    by (simp add: evidence_sample_def sample_candidate_def referenceKey_def)
  ultimately show ?thesis
    using selection_deterministic [OF numbered_collation, of evidence_sample "rev evidence_sample" "Some 3"] sample_selected by simp
qed

theorem selection_is_manifest_witness:
  "createManifestMap [] (map toStrategyManifestEvidence (es_entries sample_selection)) = None"
proof -
  have "\<forall>c \<in> set evidence_sample. ca_allowedRoles c \<noteq> []" by (simp add: evidence_sample_def sample_candidate_def)
  then show ?thesis using selection_is_manifest [OF sample_selected] by simp
qed

theorem evidence_is_not_structure_witness:
  "map manifest_line (es_entries sample_selection) @ [[], ''The evidence itself:''] =
     take 4 (drop 2 (filter (\<lambda>l. take 4 l \<noteq> ''    '') (split_lines (renderStrategyManifest sample_manifest_identity (es_entries sample_selection))))) \<and>
   join newline (split_lines (ca_summaryText (hd (es_entries sample_selection)))) = ''- x''"
proof -
  have ne: "es_entries sample_selection \<noteq> []" "length (es_entries sample_selection) = 2" "ca_summaryText (hd (es_entries sample_selection)) = ''- x''"
    by (simp_all add: sample_selection_def sample_candidate_def candidate.extend_def)
  have "plain_identity sample_manifest_identity" by (simp add: plain_identity_def sample_manifest_identity_def)
  from evidence_is_not_structure [OF sample_selected ne(1) this] show ?thesis by (simp only: ne(2,3)) (simp add: ne(2))
qed

end
