(* ===== verification/Analytics_Statistics.thy ===== *)
theory Analytics_Statistics
  imports Analytics_Cohorts JS_Text "HOL-Library.Word"
begin

text \<open>
  \<open>packages/domain/src/analytics-statistics.ts\<close>: the effect of a feature value, its bootstrap
  interval, its sensitivity to single posts, and the class of evidence a comparison earns.

  The generator works on 32-bit words, as the bitwise operators of the language do.  The hash
  function is a parameter.  Numbers of posts, dates and weeks are integers.
\<close>

unbundle bit_operations_syntax

section \<open>Classes and thresholds\<close>

datatype confidence_class =
    insufficient_evidence | single_post_outlier | weak_directional_signal | moderate_association
  | statistically_supported_association

datatype classification_reason =
    below_minimum_samples | effect_below_threshold | few_publication_dates | interval_ignores_clustering
  | interval_includes_no_difference | meets_moderate_thresholds | meets_supported_thresholds
  | missingness_too_high | multiple_testing_rejected | one_source_dominates_sample
  | sensitivity_changes_materiality | single_eligible_post | top_post_dominates_total

record sample_threshold =
  th_comparison :: int
  th_group :: int
  th_total :: int
  th_publicationWeeks :: int

text \<open>A threshold a class does not name is 0 here.\<close>

definition moderate_samples :: sample_threshold where
  "moderate_samples = \<lparr>th_comparison = 12, th_group = 8, th_total = 20, th_publicationWeeks = 0\<rparr>"

definition supported_samples :: sample_threshold where
  "supported_samples = \<lparr>th_comparison = 24, th_group = 12, th_total = 0, th_publicationWeeks = 6\<rparr>"

definition weak_samples :: sample_threshold where
  "weak_samples = \<lparr>th_comparison = 5, th_group = 3, th_total = 0, th_publicationWeeks = 0\<rparr>"

text \<open>Decimal literals are rounded to the nearest number.\<close>

definition practicalEffectThreshold :: js_num where
  "practicalEffectThreshold = fl (1/10)"

definition minimumPublicationDates :: int where
  "minimumPublicationDates = 3"

definition maximumMissingRatio :: js_num where
  "maximumMissingRatio = fl (4/10)"

definition falseDiscoveryRate :: js_num where
  "falseDiscoveryRate = fl (1/10)"

definition bootstrapResamples :: nat where
  "bootstrapResamples = 2000"

section \<open>Duration bands\<close>

datatype duration_band = under_15s | b15_29s | b30_44s | b45_59s | b60_89s | b90s_plus

definition durationBands :: "(duration_band \<times> js_num \<times> js_num) list" where
  "durationBands = [(under_15s, jint 0, jint 15), (b15_29s, jint 15, jint 30), (b30_44s, jint 30, jint 45),
     (b45_59s, jint 45, jint 60), (b60_89s, jint 60, jint 90), (b90s_plus, jint 90, PosInf)]"

definition durationBandFor :: "js_num \<Rightarrow> duration_band option" where
  "durationBandFor seconds =
     (if \<not> isFinite seconds \<or> jlt seconds (jint 0) then None
      else map_option fst (find (\<lambda>(key, minimumSeconds, maximumSeconds).
             jge seconds minimumSeconds \<and> jlt seconds maximumSeconds) durationBands))"

section \<open>The generator and the bootstrap\<close>

text \<open>One call of the generator: the new state and the number drawn.\<close>

definition generator_next :: "32 word \<Rightarrow> 32 word \<times> js_num" where
  "generator_next s =
     (let state = s + 0x6d2b79f5;
          v = (state XOR drop_bit 15 state) * (state OR 1);
          value = v XOR (v + (v XOR drop_bit 7 v) * (v OR 61))
      in (state, jdiv (jint (uint (value XOR drop_bit 14 value))) (jint 4294967296)))"

text \<open>The default order of \<open>sort\<close> is that of the texts.\<close>

definition seed_text :: "js_num list \<Rightarrow> js_num list \<Rightarrow> string \<Rightarrow> string" where
  "seed_text comparison grp key =
     json_array [json_string key, json_array (map json_number (sort_key number_text grp)),
       json_array (map json_number (sort_key number_text comparison))]"

definition readUInt32BE :: "8 word list \<Rightarrow> 32 word" where
  "readUInt32BE digest = (case digest of
     a # b # c # d # _ \<Rightarrow> push_bit 24 (ucast a) OR push_bit 16 (ucast b) OR push_bit 8 (ucast c) OR ucast d
   | _ \<Rightarrow> 0)"

definition createBootstrapSeed :: "(string \<Rightarrow> 8 word list) \<Rightarrow> js_num list \<Rightarrow> js_num list \<Rightarrow> string \<Rightarrow> 32 word" where
  "createBootstrapSeed sha256 comparison grp key = readUInt32BE (sha256 (seed_text comparison grp key))"

record interval =
  iv_excludesNoDifference :: bool
  iv_lower :: js_num
  iv_resamples :: nat
  iv_seed :: "32 word"
  iv_upper :: js_num

definition percentileOf :: "js_num list \<Rightarrow> js_num \<Rightarrow> js_num" where
  "percentileOf xs fraction = interpolate xs (jmul (jint (int (length xs) - 1)) fraction)"

text \<open>\<open>n\<close> draws with replacement from \<open>xs\<close>.\<close>

fun resample :: "js_num list \<Rightarrow> nat \<Rightarrow> 32 word \<Rightarrow> 32 word \<times> js_num list" where
  "resample xs 0 s = (s, [])"
| "resample xs (Suc n) s =
     (let (s1, u) = generator_next s;
          v = num_at xs (jfloor (jmul u (jint (int (length xs)))));
          (s2, vs) = resample xs n s1
      in (s2, v # vs))"

definition median_or_zero :: "js_num list \<Rightarrow> js_num" where
  "median_or_zero xs = (case median xs of Some m \<Rightarrow> m | None \<Rightarrow> jint 0)"

fun resample_differences :: "js_num list \<Rightarrow> js_num list \<Rightarrow> nat \<Rightarrow> 32 word \<Rightarrow> js_num list" where
  "resample_differences grp comparison 0 s = []"
| "resample_differences grp comparison (Suc rounds) s =
     (let (s1, groupSample) = resample grp (length grp) s;
          (s2, comparisonSample) = resample comparison (length comparison) s1
      in jsub (median_or_zero groupSample) (median_or_zero comparisonSample) #
           resample_differences grp comparison rounds s2)"

definition bootstrapMedianDifference ::
    "js_num list \<Rightarrow> js_num \<Rightarrow> js_num list \<Rightarrow> 32 word \<Rightarrow> interval option" where
  "bootstrapMedianDifference comparisonValues confidence groupValues seed =
     (let grp = filter isFinite groupValues; comparison = filter isFinite comparisonValues in
      if grp = [] \<or> comparison = [] then None
      else
        let differences = js_sort jsub (resample_differences grp comparison bootstrapResamples seed);
            tail = jdiv (jsub (jint 1) confidence) (jint 2);
            lower = percentileOf differences tail; upper = percentileOf differences (jsub (jint 1) tail)
        in Some \<lparr>iv_excludesNoDifference = (jgt lower (jint 0) \<and> jgt upper (jint 0)) \<or>
                   (jlt lower (jint 0) \<and> jlt upper (jint 0)),
                 iv_lower = lower, iv_resamples = bootstrapResamples, iv_seed = seed, iv_upper = upper\<rparr>)"

section \<open>Sensitivity\<close>

record sensitivity_result =
  sr_minimumRelativeEffect :: "js_num option"
  sr_preservesDirection :: bool
  sr_removeBestWorstPreservesDirection :: "bool option"

definition relativeEffect :: "js_num \<Rightarrow> js_num \<Rightarrow> js_num option" where
  "relativeEffect groupMedian comparisonMedian =
     (if jeq comparisonMedian (jint 0) then None
      else Some (jdiv (jsub groupMedian comparisonMedian) (jabs comparisonMedian)))"

text \<open>\<open>group.filter((_, position) => position !== index)\<close>.\<close>

definition without_index :: "nat \<Rightarrow> 'a list \<Rightarrow> 'a list" where
  "without_index i xs = take i xs @ drop (Suc i) xs"

text \<open>One round of the loop: whether the direction is kept so far, and the least effect so far.\<close>

definition refit_step :: "js_num list \<Rightarrow> js_num \<Rightarrow> js_num \<Rightarrow> bool \<times> js_num option \<Rightarrow> nat \<Rightarrow> bool \<times> js_num option" where
  "refit_step grp comparisonMedian originalSign acc index = (case median (without_index index grp) of
     None \<Rightarrow> acc
   | Some refitMedian \<Rightarrow>
       (let preserves = (if \<not> jeq (jsign (jsub refitMedian comparisonMedian)) originalSign then False else fst acc) in
        case relativeEffect refitMedian comparisonMedian of
          None \<Rightarrow> (preserves, snd acc)
        | Some effect \<Rightarrow> (preserves, Some (case snd acc of
              None \<Rightarrow> jabs effect | Some least \<Rightarrow> jmin least (jabs effect)))))"

text \<open>\<open>slice(1, -1)\<close>.\<close>

definition drop_ends :: "'a list \<Rightarrow> 'a list" where
  "drop_ends xs = butlast (tl xs)"

definition evaluateSensitivity :: "js_num list \<Rightarrow> js_num list \<Rightarrow> sensitivity_result" where
  "evaluateSensitivity comparisonValues groupValues =
     (let grp = filter isFinite groupValues; comparison = filter isFinite comparisonValues in
      case (median comparison, median grp) of
        (Some comparisonMedian, Some groupMedian) \<Rightarrow>
          if length grp < 2
          then \<lparr>sr_minimumRelativeEffect = None, sr_preservesDirection = False,
                sr_removeBestWorstPreservesDirection = None\<rparr>
          else
            let originalSign = jsign (jsub groupMedian comparisonMedian);
                (preserves, least) = foldl (refit_step grp comparisonMedian originalSign) (True, None)
                  [0..<length grp];
                trimmed = (if length grp \<ge> 4
                  then Some (case median (drop_ends (js_sort jsub grp)) of
                      None \<Rightarrow> False
                    | Some trimmedMedian \<Rightarrow> jeq (jsign (jsub trimmedMedian comparisonMedian)) originalSign)
                  else None)
            in \<lparr>sr_minimumRelativeEffect = least, sr_preservesDirection = preserves,
                sr_removeBestWorstPreservesDirection = trimmed\<rparr>
      | _ \<Rightarrow> \<lparr>sr_minimumRelativeEffect = None, sr_preservesDirection = False,
               sr_removeBestWorstPreservesDirection = None\<rparr>)"

text \<open>\<open>Math.max\<close> of no arguments is the negative infinity.\<close>

definition topContributorShare :: "js_num list \<Rightarrow> js_num option" where
  "topContributorShare values =
     (let finite = filter (\<lambda>v. isFinite v \<and> jge v (jint 0)) values; total = foldl jadd (jint 0) finite in
      if finite = [] \<or> jle total (jint 0) then None else Some (jdiv (foldl jmax NegInf finite) total))"

section \<open>Multiple testing\<close>

definition bh_threshold :: "nat \<Rightarrow> js_num \<Rightarrow> nat \<Rightarrow> js_num" where
  "bh_threshold n fdr k = jmul (jdiv (jint (int k)) (jint (int n))) fdr"

text \<open>The ranks below \<open>largestSurviving + 1\<close>; none before a rank has met its threshold.\<close>

definition benjaminiHochberg :: "js_num list \<Rightarrow> js_num \<Rightarrow> bool list" where
  "benjaminiHochberg pValues fdr =
     (let indexed = js_sort (\<lambda>l r. jsub (snd l) (snd r)) (zip [0..<length pValues] pValues);
          surviving = foldl (\<lambda>m rank. if jle (snd (indexed ! rank)) (bh_threshold (length indexed) fdr (rank + 1))
            then Suc rank else m) 0 [0..<length indexed]
      in foldl (\<lambda>survives entry. survives[fst entry := True]) (replicate (length pValues) False)
           (take surviving indexed))"

section \<open>Classification\<close>

record feature_comparison =
  fc_comparison :: "js_num list"
  fc_distinctPublicationDates :: int
  fc_distinctPublicationWeeks :: int
  fc_dominatedByOneSource :: "bool option"
  fc_group :: "js_num list"
  fc_key :: string
  fc_missingRatio :: js_num
  fc_metricIsCount :: bool
  fc_observationsClusterBySource :: "bool option"
  fc_survivesMultipleTesting :: "bool option"

record feature_statistic =
  fs_classification :: confidence_class
  fs_comparisonCount :: int
  fs_comparisonSpread :: spread
  fs_differenceOfMedians :: "js_num option"
  fs_groupCount :: int
  fs_groupSpread :: spread
  fs_interval :: "interval option"
  fs_reason :: classification_reason
  fs_relativeEffect :: "js_num option"
  fs_sensitivity :: sensitivity_result
  fs_topContributorShare :: "js_num option"

text \<open>The decision of \<open>calculateFeatureStatistic\<close>, in the order of its checks.\<close>

definition classifyFeature :: "(string \<Rightarrow> 8 word list) \<Rightarrow> feature_comparison \<Rightarrow> js_num list \<Rightarrow> js_num list \<Rightarrow>
    js_num option \<Rightarrow> js_num option \<Rightarrow> sensitivity_result \<Rightarrow> confidence_class \<times> classification_reason \<times> interval option" where
  "classifyFeature sha256 input grp comparison effect share sensitivity =
     (let groupLength = int (length grp); comparisonLength = int (length comparison) in
      if groupLength = 1 then (single_post_outlier, single_eligible_post, None)
      else if groupLength < th_group weak_samples \<or> comparisonLength < th_comparison weak_samples
        then (insufficient_evidence, below_minimum_samples, None)
      else if fc_distinctPublicationDates input < minimumPublicationDates
        then (insufficient_evidence, few_publication_dates, None)
      else if jgt (fc_missingRatio input) maximumMissingRatio
        then (insufficient_evidence, missingness_too_high, None)
      else if (case share of Some s \<Rightarrow> jgt s (Num (1/2)) | None \<Rightarrow> False)
        then (single_post_outlier, top_post_dominates_total, None)
      else if \<not> sr_preservesDirection sensitivity
        then (single_post_outlier, sensitivity_changes_materiality, None)
      else if (case effect of Some e \<Rightarrow> jlt (jabs e) practicalEffectThreshold | None \<Rightarrow> True)
        then (weak_directional_signal, effect_below_threshold, None)
      else if fc_dominatedByOneSource input = Some True
        then (weak_directional_signal, one_source_dominates_sample, None)
      else
        let seed = createBootstrapSeed sha256 comparison grp (fc_key input);
            supportedInterval = bootstrapMedianDifference comparison (fl (95/100)) grp seed;
            meetsSupportedSamples = groupLength \<ge> th_group supported_samples \<and>
              comparisonLength \<ge> th_comparison supported_samples \<and>
              fc_distinctPublicationWeeks input \<ge> th_publicationWeeks supported_samples
        in if meetsSupportedSamples \<and> map_option iv_excludesNoDifference supportedInterval = Some True
           then
             if fc_observationsClusterBySource input = Some True
               then (moderate_association, interval_ignores_clustering, supportedInterval)
             else if fc_survivesMultipleTesting input = Some False
               then (moderate_association, multiple_testing_rejected, supportedInterval)
             else
               let keepsHalfEffect = (case sr_minimumRelativeEffect sensitivity of
                     Some m \<Rightarrow> jge m (jdiv practicalEffectThreshold (jint 2)) | None \<Rightarrow> False)
               in if keepsHalfEffect \<and> sr_removeBestWorstPreservesDirection sensitivity \<noteq> Some False
                  then (statistically_supported_association, meets_supported_thresholds, supportedInterval)
                  else (moderate_association, sensitivity_changes_materiality, supportedInterval)
           else
             let moderateInterval = bootstrapMedianDifference comparison (fl (8/10)) grp seed;
                 meetsModerateSamples = groupLength \<ge> th_group moderate_samples \<and>
                   comparisonLength \<ge> th_comparison moderate_samples \<and>
                   groupLength + comparisonLength \<ge> th_total moderate_samples
             in if meetsModerateSamples \<and> map_option iv_excludesNoDifference moderateInterval = Some True
                then (moderate_association, meets_moderate_thresholds, moderateInterval)
                else (weak_directional_signal,
                  (if map_option iv_excludesNoDifference moderateInterval = Some False
                   then interval_includes_no_difference else below_minimum_samples),
                  moderateInterval))"

definition calculateFeatureStatistic :: "(string \<Rightarrow> 8 word list) \<Rightarrow> feature_comparison \<Rightarrow> feature_statistic" where
  "calculateFeatureStatistic sha256 input =
     (let grp = filter isFinite (fc_group input); comparison = filter isFinite (fc_comparison input);
          groupSpread = summariseSpread grp; comparisonSpread = summariseSpread comparison;
          medians = (case (sp_median groupSpread, sp_median comparisonSpread) of
            (Some g, Some c) \<Rightarrow> Some (g, c) | _ \<Rightarrow> None);
          effect = Option.bind medians (\<lambda>(g, c). relativeEffect g c);
          share = (if fc_metricIsCount input then topContributorShare grp else None);
          sensitivity = evaluateSensitivity comparison grp;
          (classification, reason, interval) = classifyFeature sha256 input grp comparison effect share sensitivity
      in \<lparr>fs_classification = classification, fs_comparisonCount = int (length comparison),
          fs_comparisonSpread = comparisonSpread, fs_differenceOfMedians = map_option (\<lambda>(g, c). jsub g c) medians,
          fs_groupCount = int (length grp), fs_groupSpread = groupSpread, fs_interval = interval,
          fs_reason = reason, fs_relativeEffect = effect, fs_sensitivity = sensitivity,
          fs_topContributorShare = share\<rparr>)"

section \<open>The step-up procedure against its definition\<close>

text \<open>
  The procedure of Benjamini and Hochberg with no sorting and no ranks: a hypothesis survives when
  some hypothesis at least as large meets the threshold of its position, the number of values not
  above it.
\<close>

definition step_up :: "js_num list \<Rightarrow> js_num \<Rightarrow> js_num \<Rightarrow> bool" where
  "step_up ps fdr p \<longleftrightarrow> list_ex (\<lambda>q. jle p q \<and>
     jle q (bh_threshold (length ps) fdr (length (filter (\<lambda>x. jle x q) ps)))) ps"

lemma jle_Num [simp]: "jle (Num x) (Num y) \<longleftrightarrow> x \<le> y"
  by (auto simp: jle_def jeq_def)

lemma finite_jle: "v \<in> finite_nums \<Longrightarrow> w \<in> finite_nums \<Longrightarrow> jle v w \<longleftrightarrow> num_value v \<le> num_value w"
  by (auto simp: finite_nums_iff num_value_def)

lemma bh_threshold_mono:
  assumes "1 \<le> k" "k \<le> l" "l \<le> n" "0 \<le> r" "representable r"
  shows "\<exists>x y. bh_threshold n (Num r) k = Num x \<and> bh_threshold n (Num r) l = Num y \<and> x \<le> y"
proof -
  have zero: "representable 0" and one: "representable 1"
    using representable_int [of 0] representable_int [of 1] by simp_all
  define q where "q m = (of_nat m / of_nat n :: rat)" for m
  have q: "0 \<le> q m" "q m \<le> 1" if "m \<le> n" for m using that by (auto simp: q_def divide_le_eq_1)
  have t: "bh_threshold n (Num r) m = Num (round64 (round64 (q m) * r))" if "m \<le> n" for m
  proof -
    have "fl (q m) = Num (round64 (q m))" "0 \<le> round64 (q m)" "round64 (q m) \<le> 1"
      using fl_between [OF zero one q [OF that]] by simp_all
    moreover from this have "fl (round64 (q m) * r) = Num (round64 (round64 (q m) * r))"
      using assms(4) by (intro fl_between(1) [OF zero assms(5)]) (simp_all add: mult_right_le_one_le mult_left_le_one_le)
    ultimately show ?thesis using assms(1-3) by (simp add: bh_threshold_def jint_def q_def)
  qed
  have "q k \<le> q l" using assms(2) by (simp add: q_def divide_right_mono)
  then have "round64 (round64 (q k) * r) \<le> round64 (round64 (q l) * r)"
    by (intro round64_mono mult_right_mono assms(4))
  then show ?thesis using t assms(2,3) by simp
qed

lemma foldl_last_rank:
  defines "last_rank \<equiv> \<lambda>P n. foldl (\<lambda>m r. if P r then Suc r else m) 0 [0..<n]"
  shows "last_rank P n \<le> n \<and> (\<forall>r < n. P r \<longrightarrow> r < last_rank P n) \<and>
    (0 < last_rank P n \<longrightarrow> P (last_rank P n - 1))"
proof (induction n)
  case (Suc n)
  have step: "last_rank P (Suc n) = (if P n then Suc n else last_rank P n)" by (simp add: last_rank_def)
  show ?case using Suc.IH unfolding step by (auto simp: less_Suc_eq)
qed (simp add: last_rank_def)

lemma mark_nth:
  "i < length bs \<Longrightarrow> foldl (\<lambda>bs e. bs[fst e := True]) bs es ! i \<longleftrightarrow> bs ! i \<or> i \<in> fst ` set es"
proof (induction es arbitrary: bs)
  case (Cons e es)
  then show ?case by (cases "fst e = i") (auto simp: Cons.IH nth_list_update)
qed simp

lemma mark_length [simp]: "length (foldl (\<lambda>bs e. bs[fst e := True]) bs es) = length bs"
  by (induction es arbitrary: bs) simp_all

interpretation p_values: keyed_comparator "\<lambda>l r. jsub (snd l) (snd r)" "\<lambda>e :: nat \<times> js_num. num_value (snd e)"
    "{e. snd e \<in> finite_nums}"
  by unfold_locales (simp add: ascending_numbers.sign)

lemma step_up_ranks:
  fixes E :: "(nat \<times> js_num) list"
  assumes "set ps \<subseteq> finite_nums" "mset (map snd E) = mset ps" "sorted (map (num_value \<circ> snd) E)"
    and r: "0 \<le> r" "representable r" and rank: "rank < length E"
  defines "P \<equiv> \<lambda>k. jle (snd (E ! k)) (bh_threshold (length E) (Num r) (k + 1))"
  defines "s \<equiv> foldl (\<lambda>m k. if P k then Suc k else m) 0 [0..<length E]"
  shows "rank < s \<longleftrightarrow> step_up ps (Num r) (snd (E ! rank))"
proof -
  let ?V = "map (num_value \<circ> snd) E" and ?n = "length E"
  let ?t = "bh_threshold (length E) (Num r)" and ?c = "\<lambda>q. length (filter (\<lambda>x. jle x q) ps)"
  have n: "length ps = ?n" using arg_cong [OF assms(2), of size] by simp
  have setE: "set (map snd E) = set ps" using assms(2) by (metis set_mset_mset)
  then have E: "snd (E ! k) \<in> finite_nums" if "k < ?n" for k
    using that assms(1) nth_mem [of k E] by auto
  have c: "?c q = length (filter (\<lambda>y. y \<le> num_value q) ?V)" if "q \<in> finite_nums" for q
  proof -
    have "filter (\<lambda>x. jle x q) ps = filter (\<lambda>x. num_value x \<le> num_value q) ps"
      using assms(1) that by (intro filter_cong refl finite_jle) auto
    moreover have "size (filter_mset (\<lambda>x. num_value x \<le> num_value q) (mset ps)) =
        size (filter_mset (\<lambda>x. num_value x \<le> num_value q) (mset (map snd E)))" using assms(2) by simp
    ultimately show ?thesis
      by (simp only: mset_filter [symmetric] size_mset) (simp add: filter_map comp_def)
  qed
  have rank_le: "?V ! k \<le> x \<longleftrightarrow> k < length (filter (\<lambda>y. y \<le> x) ?V)" if "k < ?n" for k x
    by (rule sorted_rank [where P = "\<lambda>y. y \<le> x", OF _ assms(3)]) (use that in auto)
  have below: "jle (snd (E ! k)) q \<longleftrightarrow> k < ?c q" if "k < ?n" "q \<in> finite_nums" for k q
    using rank_le [OF that(1), of "num_value q"] that c [OF that(2)] finite_jle [OF E [OF that(1)] that(2)] by simp
  have s: "s \<le> ?n" "P k \<Longrightarrow> k < ?n \<Longrightarrow> k < s" "0 < s \<Longrightarrow> P (s - 1)" for k
    using foldl_last_rank [of P ?n] by (simp_all add: s_def)
  have cn: "?c q \<le> ?n" for q using n length_filter_le [of _ ps] by metis
  show ?thesis
  proof
    assume lt: "rank < s"
    let ?q = "snd (E ! (s - 1))"
    have s1: "s - 1 < ?n" using s(1) lt by simp
    have q: "?q \<in> set ps" using setE s1 nth_mem [of "s - 1" E] by auto
    have sc: "s - 1 < ?c ?q" using below [OF s1 E [OF s1]] finite_jle [OF E [OF s1] E [OF s1]] by simp
    then have "jle (snd (E ! rank)) ?q" using below [OF rank E [OF s1]] lt by simp
    moreover obtain x y where xy: "?t s = Num x" "?t (?c ?q) = Num y" "x \<le> y"
      using bh_threshold_mono [of s "?c ?q" ?n r] sc lt cn r by force
    have "jle ?q (?t s)" using s(3) lt by (simp add: P_def)
    with xy have "jle ?q (?t (?c ?q))" using E [OF s1] by (auto simp: finite_nums_iff)
    ultimately show "step_up ps (Num r) (snd (E ! rank))" using q n by (auto simp: step_up_def list_ex_iff)
  next
    assume "step_up ps (Num r) (snd (E ! rank))"
    then obtain q where q: "q \<in> set ps" "jle (snd (E ! rank)) q" "jle q (?t (?c q))"
      using n by (auto simp: step_up_def list_ex_iff)
    have qf: "q \<in> finite_nums" using q(1) assms(1) by blast
    have rc: "rank < ?c q" using below [OF rank qf] q(2) by simp
    then have c1: "?c q - 1 < ?n" using cn [of q] by simp
    have "jle (snd (E ! (?c q - 1))) q" using below [OF c1 qf] rc by simp
    moreover obtain y where "?t (?c q) = Num y"
      using bh_threshold_mono [of "?c q" "?c q" ?n r] rc cn r by force
    ultimately have "jle (snd (E ! (?c q - 1))) (?t (?c q))"
      using q(3) qf E [OF c1] by (auto simp: finite_nums_iff)
    moreover have "?c q - 1 + 1 = ?c q" using rc by linarith
    ultimately have "P (?c q - 1)" by (simp only: P_def)
    from s(2) [OF this c1] rc show "rank < s" by simp
  qed
qed

lemma benjaminiHochberg_step_up:
  assumes "set ps \<subseteq> finite_nums" "0 \<le> r" "representable r"
  shows "benjaminiHochberg ps (Num r) = map (step_up ps (Num r)) ps"
proof (rule nth_equalityI)
  let ?Z = "zip [0..<length ps] ps"
  define E where "E = js_sort (\<lambda>l r. jsub (snd l) (snd r)) ?Z"
  define s where "s = foldl (\<lambda>m k. if jle (snd (E ! k)) (bh_threshold (length E) (Num r) (k + 1)) then Suc k else m) 0
    [0..<length E]"
  have bh: "benjaminiHochberg ps (Num r) =
      foldl (\<lambda>bs e. bs[fst e := True]) (replicate (length ps) False) (take s E)"
    by (simp only: benjaminiHochberg_def Let_def E_def s_def)
  have "set ?Z \<subseteq> {e. snd e \<in> finite_nums}" using assms(1) by (auto dest: set_zip_rightD)
  then have sorted: "sorted (map (num_value \<circ> snd) E)"
    by (simp add: E_def p_values.sort_eq comp_def)
  have "mset (map snd E) = image_mset snd (mset ?Z)" by (simp add: E_def)
  also have "\<dots> = mset ps" by (metis length_upt map_snd_zip minus_nat.diff_0 mset_map)
  finally have perm: "mset (map snd E) = mset ps" .
  have setE: "set E = set ?Z" by (simp add: E_def)
  show "length (benjaminiHochberg ps (Num r)) = length (map (step_up ps (Num r)) ps)" by (simp add: bh)
  fix i assume "i < length (benjaminiHochberg ps (Num r))"
  then have i: "i < length ps" by (simp add: bh)
  then have "(i, ps ! i) \<in> set E" by (auto simp: setE set_zip intro!: exI [of _ i])
  then obtain k where k: "k < length E" "E ! k = (i, ps ! i)" by (auto simp: in_set_conv_nth)
  have dist: "distinct (map fst E)"
    using perm by (metis E_def distinct_upt js_sort_mset length_upt map_fst_zip minus_nat.diff_0 mset_eq_imp_distinct_iff mset_map)
  have "i \<in> fst ` set (take s E) \<longleftrightarrow> k < s"
  proof
    assume "i \<in> fst ` set (take s E)"
    then obtain j where j: "j < length E" "j < s" "fst (E ! j) = i" by (auto simp: in_set_conv_nth)
    then have "j = k" using k nth_eq_iff_index_eq [OF dist, of j k] by simp
    with j show "k < s" by simp
  next
    assume "k < s"
    then have "E ! k \<in> set (take s E)" using k(1) by (auto simp: in_set_conv_nth)
    with k(2) show "i \<in> fst ` set (take s E)" by force
  qed
  also have "k < s \<longleftrightarrow> step_up ps (Num r) (ps ! i)"
    using step_up_ranks [OF assms(1) perm sorted assms(2,3) k(1)] k(2) by (simp add: s_def)
  finally show "benjaminiHochberg ps (Num r) ! i = map (step_up ps (Num r)) ps ! i"
    using i by (simp add: bh mark_nth)
qed

section \<open>Draws stay within the sample\<close>

lemma round64_dyadic:
  assumes "0 \<le> m" "m < 2 ^ 53" "0 \<le> k" "k \<le> 1074"
  shows "representable (of_int m / 2 ^ k)"
proof (cases "m = 0")
  case True
  then show ?thesis using representable_int [of 0] by simp
next
  case False
  have inv: "(2 :: rat) powi (- int k) = 1 / 2 ^ k" by (simp add: power_int_minus divide_inverse)
  have "round_pos (of_int m / 2 ^ k) = of_int m / 2 ^ k"
    using round_pos_dyadic [of m "- int k"] assms False by (simp add: inv)
  moreover have "of_int m / 2 ^ k \<le> (of_int m :: rat)"
    using mult_left_mono [of 1 "2 ^ k" "of_int m :: rat"] assms(1) by (simp add: divide_le_eq)
  moreover have "(of_int m :: rat) < 2 ^ 1024"
    using representable_int [of m] assms by (simp add: representable_def)
  ultimately show ?thesis using assms False by (simp add: representable_def round64_def)
qed

lemma generator_range: "\<exists>m. snd (generator_next s) = Num (of_int m / 2 ^ 32) \<and> 0 \<le> m \<and> m < 2 ^ 32"
proof -
  have "\<exists>w :: 32 word. snd (generator_next s) = jdiv (jint (uint w)) (jint 4294967296)"
    by (auto simp: generator_next_def Let_def)
  then obtain w :: "32 word" where w: "snd (generator_next s) = jdiv (jint (uint w)) (jint 4294967296)" by blast
  have m: "0 \<le> uint w" "uint w < 2 ^ 32" using uint_lt2p [of w] by simp_all
  then have "representable (of_int (uint w) / 2 ^ 32)" by (intro round64_dyadic) simp_all
  from fl_representable [OF this] have "snd (generator_next s) = Num (of_int (uint w) / 2 ^ 32)"
    by (simp add: w jint_def)
  with m show ?thesis by blast
qed

lemma draw_in_range:
  assumes "0 < n" "n \<le> 2 ^ 21"
  shows "\<exists>i. jfloor (jmul (snd (generator_next s)) (jint n)) = jint i \<and> 0 \<le> i \<and> i < n"
proof -
  obtain m where m: "snd (generator_next s) = Num (of_int m / 2 ^ 32)" "0 \<le> m" "m < 2 ^ 32"
    using generator_range by blast
  have "m * n < 2 ^ 32 * n" using m(3) assms(1) by simp
  also have "\<dots> \<le> 2 ^ 53" using assms(2) by simp
  finally have mn: "m * n < 2 ^ 53" "0 \<le> m * n" using m(2) assms(1) by simp_all
  have "representable (of_int (m * n) / 2 ^ 32)" by (intro round64_dyadic mn) simp_all
  from fl_representable [OF this]
  have "jmul (snd (generator_next s)) (jint n) = Num (of_int (m * n) / 2 ^ 32)" by (simp add: m(1) jint_def)
  moreover have "\<lfloor>of_int (m * n) / (2 :: rat) ^ 32\<rfloor> = m * n div 2 ^ 32"
    using floor_divide_of_int_eq [of "m * n" "2 ^ 32", where 'a = rat] by simp
  moreover have "m * n div 2 ^ 32 < n"
    using \<open>m * n < 2 ^ 32 * n\<close> by (simp add: div_less_iff_less_mult mult.commute)
  ultimately show ?thesis using mn(2) by (simp add: jint_def pos_imp_zdiv_nonneg_iff)
qed

lemma resample_from:
  assumes "xs \<noteq> []" "length xs \<le> 2 ^ 21"
  shows "length (snd (resample xs n s)) = n \<and> set (snd (resample xs n s)) \<subseteq> set xs"
proof (induction n arbitrary: s)
  case (Suc n)
  obtain s1 u where g: "generator_next s = (s1, u)" by force
  obtain s2 vs where r: "resample xs n s1 = (s2, vs)" by force
  have "0 < int (length xs)" "int (length xs) \<le> 2 ^ 21" using assms by simp_all
  from draw_in_range [OF this, of s] obtain i where
    i: "jfloor (jmul u (jint (int (length xs)))) = jint i" "0 \<le> i" "i < int (length xs)"
    unfolding g by auto
  then have "num_at xs (jint i) \<in> set xs" by (simp add: num_at_def nat_less_iff)
  with Suc.IH [of s1] i(1) show ?case by (simp add: g r)
qed simp

section \<open>A group above its comparison\<close>

lemma zero_representable: "representable 0"
  using representable_int [of 0] by simp

lemma one_representable: "representable 1"
  using representable_int [of 1] by simp

text \<open>The median of non-negative numbers lies between any two representable bounds of them.\<close>

lemma median_bounds:
  assumes "xs \<noteq> []" "set xs \<subseteq> finite_nums" "length xs \<le> 2 ^ 21" "\<forall>v \<in> set xs. 0 \<le> num_value v"
    and "\<forall>v \<in> set xs. lo \<le> num_value v" "\<forall>v \<in> set xs. num_value v \<le> hi"
  shows "\<exists>m. median xs = Some (Num m) \<and> lo \<le> m \<and> m \<le> hi"
proof -
  have fin: "filter isFinite xs = xs" using assms(2) by (auto simp: filter_id_conv finite_nums_def)
  let ?s = "sort_key num_value xs"
  have "int (length xs) \<le> 2 ^ 53" using assms(3) by simp
  moreover have "list_all js_wf xs" using assms(2) by (auto simp: list_all_iff finite_nums_def)
  ultimately obtain m where m: "median xs = Some (Num m)" "num_value (?s ! ((length ?s - 1) div 2)) \<le> m"
    "m \<le> num_value (?s ! (length ?s div 2))"
    using median_central [of xs] assms(1,4) unfolding fin by blast
  have in_s: "?s ! i \<in> set xs" if "i < length xs" for i using that nth_mem [of i ?s] by simp
  have "(length ?s - 1) div 2 < length xs" "length ?s div 2 < length xs" using assms(1) by (cases xs; simp)+
  from in_s [OF this(1)] in_s [OF this(2)] m assms(5,6) show ?thesis by fastforce
qed

lemma median_or_zero_Some: "median xs = Some m \<Longrightarrow> median_or_zero xs = m"
  by (simp add: median_or_zero_def)

text \<open>Bounds \<open>lo\<close> of the group and \<open>hi\<close> of the comparison that separate them.\<close>

definition separated :: "js_num list \<Rightarrow> js_num list \<Rightarrow> rat \<Rightarrow> rat \<Rightarrow> bool" where
  "separated grp comparison lo hi \<longleftrightarrow> representable lo \<and> representable hi \<and> hi < lo \<and>
     (\<forall>v \<in> set grp. lo \<le> num_value v) \<and> (\<forall>v \<in> set comparison. 0 \<le> num_value v \<and> num_value v \<le> hi)"

definition sample_ok :: "js_num list \<Rightarrow> bool" where
  "sample_ok xs \<longleftrightarrow> xs \<noteq> [] \<and> set xs \<subseteq> finite_nums \<and> length xs \<le> 2 ^ 21"

lemma sample_max:
  assumes "sample_ok xs"
  obtains hi where "representable hi" "\<forall>v \<in> set xs. num_value v \<le> hi"
proof -
  have "Max (num_value ` set xs) \<in> num_value ` set xs" using assms by (simp add: sample_ok_def)
  then obtain v where v: "v \<in> set xs" "Max (num_value ` set xs) = num_value v" by blast
  then have "v \<in> finite_nums" using assms by (auto simp: sample_ok_def)
  then have "representable (Max (num_value ` set xs))" unfolding v(2) by (auto simp: finite_nums_iff num_value_def)
  then show ?thesis by (rule that) simp
qed

lemma drawn_ok:
  assumes "sample_ok xs"
  shows "sample_ok (snd (resample xs (length xs) s))" "set (snd (resample xs (length xs) s)) \<subseteq> set xs"
  using resample_from [of xs "length xs" s] assms by (auto simp: sample_ok_def)

lemma difference_positive:
  assumes g: "sample_ok gs" and c: "sample_ok cs" and sep: "separated gs cs lo hi"
  shows "jsub (median_or_zero gs) (median_or_zero cs) \<in> finite_nums \<and>
    0 < num_value (jsub (median_or_zero gs) (median_or_zero cs))"
proof -
  obtain top where top: "representable top" "\<forall>v \<in> set gs. num_value v \<le> top" using sample_max [OF g] .
  obtain v where "v \<in> set cs" using c by (cases cs) (auto simp: sample_ok_def)
  then have hi: "0 \<le> hi" using sep by (fastforce simp: separated_def)
  obtain m where m: "median gs = Some (Num m)" "lo \<le> m" "m \<le> top"
    using median_bounds [of gs lo top] g sep hi top(2) by (fastforce simp: sample_ok_def separated_def)
  obtain k where k: "median cs = Some (Num k)" "0 \<le> k" "k \<le> hi"
    using median_bounds [of cs 0 hi] c sep by (fastforce simp: sample_ok_def separated_def)
  have "lo - hi \<le> m - k" "0 \<le> m - k" "m - k \<le> top" using m k sep by (auto simp: separated_def)
  moreover have "0 < round64 (lo - hi)" using sep by (intro round64_diff_pos) (auto simp: separated_def)
  ultimately have "0 < round64 (m - k)" "fl (m - k) = Num (round64 (m - k))" "representable (round64 (m - k))"
    using round64_mono [of "lo - hi" "m - k"] fl_between(1) [OF zero_representable top(1)]
      representable_between [OF zero_representable top(1)] by auto
  then show ?thesis
    by (simp add: median_or_zero_Some [OF m(1)] median_or_zero_Some [OF k(1)] jsub_Num finite_nums_iff num_value_def)
qed

lemma differences_positive:
  assumes g: "sample_ok gs" and c: "sample_ok cs" and sep: "separated gs cs lo hi"
  shows "length (resample_differences gs cs n s) = n \<and>
    (\<forall>d \<in> set (resample_differences gs cs n s). d \<in> finite_nums \<and> 0 < num_value d)"
proof (induction n arbitrary: s)
  case (Suc n)
  obtain s1 gs' where g': "resample gs (length gs) s = (s1, gs')" by force
  obtain s2 cs' where c': "resample cs (length cs) s1 = (s2, cs')" by force
  have "sample_ok gs'" "set gs' \<subseteq> set gs" using drawn_ok [OF g, of s] by (simp_all add: g')
  moreover have "sample_ok cs'" "set cs' \<subseteq> set cs" using drawn_ok [OF c, of s1] by (simp_all add: c')
  moreover from calculation sep have "separated gs' cs' lo hi" by (auto simp: separated_def)
  ultimately have "jsub (median_or_zero gs') (median_or_zero cs') \<in> finite_nums \<and>
      0 < num_value (jsub (median_or_zero gs') (median_or_zero cs'))" by (intro difference_positive)
  with Suc.IH [of s2] show ?case by (simp add: g' c')
qed simp

text \<open>Interpolating between increasing positive numbers does not go below the smaller one.\<close>

lemma interpolate_positive:
  assumes "set xs \<subseteq> finite_nums" "\<forall>v \<in> set xs. 0 < num_value v" "sorted (map num_value xs)"
    "0 \<le> p" "p \<le> of_int (int (length xs) - 1)"
  shows "jgt (interpolate xs (Num p)) (jint 0)"
proof -
  have range: "0 \<le> \<lfloor>p\<rfloor>" "\<lfloor>p\<rfloor> \<le> \<lceil>p\<rceil>" using assms(4) by (simp_all add: floor_le_ceiling)
  have top: "\<lceil>p\<rceil> \<le> int (length xs) - 1" unfolding ceiling_le_iff by (rule assms(5))
  obtain i where i: "\<lfloor>p\<rfloor> = int i" using nonneg_int_cases [OF range(1)] .
  obtain j where j: "\<lceil>p\<rceil> = int j" using nonneg_int_cases [OF order_trans [OF range(1,2)]] .
  have ij: "\<lfloor>p\<rfloor> = int i" "\<lceil>p\<rceil> = int j" "i \<le> j" "j < length xs" using range top by (simp_all add: i j)
  then have "xs ! i \<in> set xs" "xs ! j \<in> set xs" by simp_all
  then obtain a b where ab: "xs ! i = Num a" "representable a" "xs ! j = Num b" "representable b"
    using assms(1) by (metis finite_nums_iff subset_iff)
  have "0 < num_value (xs ! i)" "num_value (xs ! i) \<le> num_value (xs ! j)"
    using assms(2) \<open>xs ! i \<in> set xs\<close> sorted_nth_mono [OF assms(3) ij(3)] ij by simp_all
  then have le: "0 < a" "a \<le> b" by (simp_all add: ab num_value_def)
  have at: "num_at xs (Num (of_int (int i))) = Num a" "num_at xs (Num (of_int (int j))) = Num b"
    using ij ab by (simp_all add: num_at_def)
  have d: "fl (b - a) = Num (round64 (b - a))" "0 \<le> round64 (b - a)" "round64 (b - a) \<le> b"
    using fl_between [OF zero_representable ab(4), of "b - a"] le by simp_all
  have "0 \<le> p - of_int \<lfloor>p\<rfloor>" "p - of_int \<lfloor>p\<rfloor> \<le> 1" by linarith+
  then have f: "fl (p - of_int (int i)) = Num (round64 (p - of_int (int i)))" "0 \<le> round64 (p - of_int (int i))"
    "round64 (p - of_int (int i)) \<le> 1"
    using fl_between [OF zero_representable one_representable, of "p - of_int \<lfloor>p\<rfloor>"] by (simp_all only: ij(1))
  define h where "h = round64 (b - a) * round64 (p - of_int (int i))"
  have "h \<le> round64 (b - a) * 1" unfolding h_def using d f by (intro mult_left_mono) simp_all
  then have h: "0 \<le> h" "h \<le> b" using d f by (simp_all add: h_def)
  then have fh: "fl h = Num (round64 h)" "0 \<le> round64 h" using fl_between [OF zero_representable ab(4) h] by simp_all
  have "a \<le> round64 (a + round64 h)" using fh(2) by (intro b64.rd_ge ab(2)) simp
  then have "jgt (fl (a + round64 h)) (jint 0)" using le(1) by (simp add: fl_sign)
  moreover have "jgt (Num a) (jint 0)" using le(1) by (simp add: jgt_def jint_def)
  moreover have "interpolate xs (Num p) = (if jeq (Num (of_int (int i))) (Num (of_int (int j))) then Num a
      else fl (a + round64 h))"
    using at d(1) f(1) fh(1) unfolding interpolate_def Let_def jfloor.simps jceil.simps ij(1,2)
    by (simp add: jsub_Num h_def)
  ultimately show ?thesis by simp
qed

lemma percentileOf_positive:
  assumes "set xs \<subseteq> finite_nums" "\<forall>v \<in> set xs. 0 < num_value v" "sorted (map num_value xs)"
    "length xs = 2000" "0 \<le> f" "f \<le> 1"
  shows "jgt (percentileOf xs (Num f)) (jint 0)"
proof -
  have top: "representable 1999" using representable_int [of 1999] by simp
  have "fl (1999 * f) = Num (round64 (1999 * f))" "0 \<le> round64 (1999 * f)" "round64 (1999 * f) \<le> 1999"
    using fl_between [OF zero_representable top, of "1999 * f"] assms(5,6) by simp_all
  then show ?thesis using interpolate_positive [OF assms(1-3), of "round64 (1999 * f)"] assms(4)
    by (simp add: percentileOf_def jint_def)
qed

lemma tail_range:
  assumes "0 \<le> c" "c \<le> 1"
  defines "tail \<equiv> jdiv (jsub (jint 1) (Num c)) (jint 2)"
  shows "\<exists>t. tail = Num t \<and> 0 \<le> t \<and> t \<le> 1" "\<exists>t. jsub (jint 1) tail = Num t \<and> 0 \<le> t \<and> t \<le> 1"
proof -
  have unit: "\<exists>t. fl x = Num t \<and> 0 \<le> t \<and> t \<le> 1" if "0 \<le> x" "x \<le> 1" for x
    using fl_between [OF zero_representable one_representable that] by blast
  obtain t where t: "fl (1 - c) = Num t" "0 \<le> t" "t \<le> 1" using unit [of "1 - c"] assms(1,2) by auto
  obtain u where u: "fl (t / 2) = Num u" "0 \<le> u" "u \<le> 1" using unit [of "t / 2"] t(2,3) by auto
  have tail: "tail = Num u" using t(1) u(1) by (simp add: tail_def jint_def jsub_Num)
  then show "\<exists>t. tail = Num t \<and> 0 \<le> t \<and> t \<le> 1" using u by simp
  show "\<exists>t. jsub (jint 1) tail = Num t \<and> 0 \<le> t \<and> t \<le> 1" using unit [of "1 - u"] u by (simp add: tail jint_def jsub_Num)
qed

lemma sample_finite: "sample_ok xs \<Longrightarrow> filter isFinite xs = xs"
  by (auto simp: sample_ok_def filter_id_conv finite_nums_def)

lemma separated_interval:
  assumes g: "sample_ok gs" and c: "sample_ok cs" and sep: "separated gs cs lo hi" and "0 \<le> k" "k \<le> 1"
  shows "\<exists>iv. bootstrapMedianDifference cs (Num k) gs seed = Some iv \<and> iv_excludesNoDifference iv"
proof -
  let ?D = "js_sort jsub (resample_differences gs cs bootstrapResamples seed)"
  have n: "length ?D = 2000" and D: "set ?D \<subseteq> finite_nums" "\<forall>v \<in> set ?D. 0 < num_value v"
    using differences_positive [OF g c sep, of bootstrapResamples seed] by (auto simp: bootstrapResamples_def)
  have sorted: "sorted (map num_value ?D)"
    using ascending_numbers.sort_eq [of "resample_differences gs cs bootstrapResamples seed"] D(1) by simp
  from tail_range [OF assms(4,5)] obtain t u where "jdiv (jsub (jint 1) (Num k)) (jint 2) = Num t" "0 \<le> t" "t \<le> 1"
    "jsub (jint 1) (jdiv (jsub (jint 1) (Num k)) (jint 2)) = Num u" "0 \<le> u" "u \<le> 1" by blast
  then show ?thesis
    using percentileOf_positive [OF D sorted n, of t] percentileOf_positive [OF D sorted n, of u] g c
    by (simp add: bootstrapMedianDifference_def Let_def sample_finite sample_ok_def)
qed

section \<open>Sensitivity as a statement about every refit\<close>

lemma median_None: "median xs = None \<longleftrightarrow> filter isFinite xs = []"
proof -
  have "length (ascending xs) = length (filter isFinite xs)" by (simp add: ascending_def)
  then have "ascending xs = [] \<longleftrightarrow> filter isFinite xs = []" by (metis length_0_conv)
  then show ?thesis by (auto simp: median_def percentile_def split: list.splits)
qed

definition leave_one_out :: "'a list \<Rightarrow> 'a list list" where
  "leave_one_out xs = map (\<lambda>i. without_index i xs) [0..<length xs]"

definition least_of :: "js_num list \<Rightarrow> js_num option" where
  "least_of vs = (case vs of [] \<Rightarrow> None | v # vs \<Rightarrow> Some (foldl jmin v vs))"

lemma least_of_snoc: "least_of (vs @ [v]) = Some (case least_of vs of None \<Rightarrow> v | Some l \<Rightarrow> jmin l v)"
  by (cases vs) (simp_all add: least_of_def)

lemma refits_fold:
  assumes "\<And>i. i \<in> set is \<Longrightarrow> median (without_index i grp) \<noteq> None"
  shows "foldl (refit_step grp cm sign0) (True, None) is =
    (list_all (\<lambda>i. jeq (jsign (jsub (the (median (without_index i grp))) cm)) sign0) is,
     if jeq cm (jint 0) then None
     else least_of (map (\<lambda>i. jabs (the (relativeEffect (the (median (without_index i grp))) cm))) is))"
  using assms
proof (induction "is" rule: rev_induct)
  case Nil
  show ?case by (simp add: least_of_def)
next
  case (snoc i "is")
  then obtain m where "median (without_index i grp) = Some m" by fastforce
  with snoc show ?case
    by (auto simp: refit_step_def relativeEffect_def least_of_snoc split: option.splits)
qed

lemma without_index_length: "i < length xs \<Longrightarrow> length (without_index i xs) = length xs - 1"
  by (simp add: without_index_def)

lemma set_without_index: "set (without_index i xs) \<subseteq> set xs"
  using set_take_subset [of i xs] set_drop_subset [of "Suc i" xs] by (auto simp: without_index_def)

lemma refit_exists:
  assumes "2 \<le> length grp" "list_all isFinite grp" "i < length grp"
  shows "median (without_index i grp) \<noteq> None"
proof -
  have "filter isFinite (without_index i grp) = without_index i grp"
    using set_without_index [of i grp] assms(2) by (auto simp: filter_id_conv list_all_iff)
  then have "length (filter isFinite (without_index i grp)) = length grp - 1"
    using without_index_length [OF assms(3)] by simp
  then have "length (filter isFinite (without_index i grp)) \<noteq> 0" using assms(1) by linarith
  then show ?thesis by (simp add: median_None)
qed

section \<open>Shares\<close>

lemma fl_nonneg:
  assumes "0 \<le> round64 w"
  shows "fl w = PosInf \<or> fl w = Num (round64 w) \<and> representable (round64 w)"
proof -
  define K :: rat where "K = 2 ^ 1024"
  have "0 < K" by (simp add: K_def)
  with assms show ?thesis
    unfolding fl_def representable_def K_def [symmetric] Let_def by (auto simp: round64_idem)
qed

lemma sum_dominates:
  assumes "set vs \<subseteq> {v \<in> finite_nums. 0 \<le> num_value v}" "t = PosInf \<or> (\<exists>x. t = Num x \<and> 0 \<le> x \<and> representable x)"
    "\<forall>v \<in> set us. jle v t"
  shows "let t' = foldl jadd t vs in (t' = PosInf \<or> (\<exists>x. t' = Num x \<and> 0 \<le> x \<and> representable x)) \<and>
    (\<forall>v \<in> set (us @ vs). jle v t')"
  using assms
proof (induction vs arbitrary: t us)
  case (Cons v vs)
  obtain y where y: "v = Num y" "0 \<le> y" "representable y"
    using Cons.prems(1) by (auto simp: finite_nums_iff num_value_def)
  have "(jadd t v = PosInf \<or> (\<exists>x. jadd t v = Num x \<and> 0 \<le> x \<and> representable x)) \<and> (\<forall>u \<in> set (us @ [v]). jle u (jadd t v))"
  proof (cases "t = PosInf")
    case True
    with Cons.prems(3) y show ?thesis by (auto simp: jle_def)
  next
    case False
    then obtain x where x: "t = Num x" "0 \<le> x" "representable x" using Cons.prems(2) by blast
    let ?z = "round64 (x + y)"
    have z: "x \<le> ?z" "y \<le> ?z" using x y by (auto intro!: b64.rd_ge)
    consider "fl (x + y) = PosInf" | "fl (x + y) = Num ?z" "representable ?z"
      using fl_nonneg [of "x + y"] z(1) x(2) by linarith
    then show ?thesis
    proof cases
      case 1
      have "jle u PosInf" if "jle u (Num x)" for u using that by (cases u) (auto simp: jle_def jeq_def)
      with 1 x y Cons.prems(3) show ?thesis by (auto simp: jle_def)
    next
      case 2
      have "jle u (Num ?z)" if "jle u (Num x)" for u using that z(1) by (cases u) (auto simp: jle_def jeq_def)
      with 2 x y z Cons.prems(3) show ?thesis by auto
    qed
  qed
  with Cons.IH [of "jadd t v" "us @ [v]"] Cons.prems(1) show ?case by simp
qed simp

lemma foldl_jmax:
  assumes "set vs \<subseteq> finite_nums" "m = NegInf \<or> m \<in> finite_nums" "vs \<noteq> []"
  shows "foldl jmax m vs \<in> insert m (set vs) \<inter> finite_nums"
  using assms
proof (induction vs arbitrary: m)
  case (Cons v vs)
  have v: "jmax m v \<in> {m, v}" "jmax m v \<in> finite_nums"
    using Cons.prems by (auto simp: jmax_def finite_nums_iff)
  show ?case
  proof (cases "vs = []")
    case True
    with v show ?thesis by auto
  next
    case False
    with Cons.IH [of "jmax m v"] Cons.prems(1) v show ?thesis by auto
  qed
qed simp

lemma share_bounded:
  assumes "list_all js_wf values" "topContributorShare values = Some s"
  shows "\<exists>y. s = Num y \<and> 0 \<le> y \<and> y \<le> 1"
proof -
  let ?f = "filter (\<lambda>v. isFinite v \<and> jge v (jint 0)) values"
  let ?t = "foldl jadd (jint 0) ?f" and ?m = "foldl jmax NegInf ?f"
  have ne: "?f \<noteq> []" "\<not> jle ?t (jint 0)" and s: "s = jdiv ?m ?t"
    using assms(2) by (auto simp: topContributorShare_def Let_def split: if_splits)
  have f: "set ?f \<subseteq> {v \<in> finite_nums. 0 \<le> num_value v}"
  proof
    fix v assume "v \<in> set ?f"
    then have "js_wf v" "isFinite v" "jge v (jint 0)" using assms(1) by (simp_all add: list_all_iff)
    then show "v \<in> {v \<in> finite_nums. 0 \<le> num_value v}"
      unfolding finite_nums_def num_value_def jge_def jint_def by (cases v) simp_all
  qed
  have zero: "jint 0 = PosInf \<or> (\<exists>x. jint 0 = Num x \<and> 0 \<le> x \<and> representable x)"
    using zero_representable by (simp add: jint_def)
  from sum_dominates [OF f zero, of "[]"] have
    t: "?t = PosInf \<or> (\<exists>x. ?t = Num x \<and> 0 \<le> x \<and> representable x)" and le: "\<forall>v \<in> set ?f. jle v ?t"
    by (simp_all add: Let_def)
  have sub: "set ?f \<subseteq> finite_nums" using f by blast
  have "NegInf \<notin> finite_nums" by (simp add: finite_nums_iff)
  with foldl_jmax [OF sub, of NegInf] ne(1) have m: "?m \<in> set ?f" by (metis IntD1 IntD2 insertE)
  then have "?m \<in> finite_nums" "0 \<le> num_value ?m" using f by blast+
  then obtain y where y: "?m = Num y" "0 \<le> y" by (auto simp: finite_nums_iff num_value_def)
  from t show ?thesis
  proof
    assume "?t = PosInf"
    then show ?thesis by (simp add: s y)
  next
    assume "\<exists>x. ?t = Num x \<and> 0 \<le> x \<and> representable x"
    then obtain x where x: "?t = Num x" by blast
    have "0 < x" using ne(2) unfolding x by (simp add: jint_def)
    moreover have "y \<le> x" using bspec [OF le m] unfolding x y by simp
    ultimately have "0 \<le> y / x" "y / x \<le> 1" using y(2) by simp_all
    from fl_between [OF zero_representable one_representable this] show ?thesis
      using \<open>0 < x\<close> unfolding s x y by auto
  qed
qed

section \<open>The seed\<close>

lemma map_sort_key: "map key (sort_key key xs) = sort (map key xs)"
  by (rule sym, rule properties_for_sort) simp_all

lemma seed_text_perm:
  assumes "mset gs = mset gs'" "mset cs = mset cs'" "list_all isFinite gs" "list_all isFinite cs"
  shows "seed_text cs gs key = seed_text cs' gs' key"
proof -
  have print: "map json_number (sort_key number_text xs) = sort (map number_text xs)" if "list_all isFinite xs" for xs
  proof -
    have "map json_number (sort_key number_text xs) = map number_text (sort_key number_text xs)"
      using that by (auto simp: json_number_def list_all_iff)
    then show ?thesis by (simp add: map_sort_key)
  qed
  have perm: "sort (map number_text xs) = sort (map number_text ys)" if "mset xs = mset ys" for xs ys
    using that by (intro properties_for_sort) simp_all
  have "list_all isFinite gs'" "list_all isFinite cs'" using assms by (metis list_all_iff set_mset_mset)+
  then show ?thesis using perm [OF assms(1)] perm [OF assms(2)] assms(3,4) by (simp add: seed_text_def print)
qed

section \<open>Classes of evidence\<close>

text \<open>What every class above a directional signal requires, whatever the sample sizes.\<close>

definition sound_comparison :: "feature_comparison \<Rightarrow> feature_statistic \<Rightarrow> bool" where
  "sound_comparison input st \<longleftrightarrow>
     3 \<le> fs_groupCount st \<and> 5 \<le> fs_comparisonCount st \<and> 3 \<le> fc_distinctPublicationDates input \<and>
     \<not> jgt (fc_missingRatio input) maximumMissingRatio \<and>
     (case fs_topContributorShare st of None \<Rightarrow> True | Some s \<Rightarrow> \<not> jgt s (Num (1/2))) \<and>
     sr_preservesDirection (fs_sensitivity st) \<and>
     (case fs_relativeEffect st of None \<Rightarrow> False | Some e \<Rightarrow> \<not> jlt (jabs e) practicalEffectThreshold) \<and>
     fc_dominatedByOneSource input \<noteq> Some True"

text \<open>Whether the bootstrap at a confidence level excludes that there is no difference.\<close>

definition interval_excludes :: "(string \<Rightarrow> 8 word list) \<Rightarrow> feature_comparison \<Rightarrow> js_num \<Rightarrow> bool" where
  "interval_excludes sha256 input confidence \<longleftrightarrow>
     (let grp = filter isFinite (fc_group input); comparison = filter isFinite (fc_comparison input) in
      map_option iv_excludesNoDifference (bootstrapMedianDifference comparison confidence grp
        (createBootstrapSeed sha256 comparison grp (fc_key input))) = Some True)"

text \<open>The chain of checks over the outcome of each.\<close>

definition check_chain :: "bool \<Rightarrow> bool \<Rightarrow> bool \<Rightarrow> bool \<Rightarrow> bool \<Rightarrow> bool \<Rightarrow> bool \<Rightarrow> bool \<Rightarrow> bool \<Rightarrow> bool \<Rightarrow> bool \<Rightarrow> bool \<Rightarrow>
    bool \<Rightarrow> confidence_class" where
  "check_chain one small few missing carried direction negligible dominated supported clustered rejected robust moderate =
     (if one then single_post_outlier else if small then insufficient_evidence
      else if few then insufficient_evidence else if missing then insufficient_evidence
      else if carried then single_post_outlier else if \<not> direction then single_post_outlier
      else if negligible then weak_directional_signal else if dominated then weak_directional_signal
      else if supported then (if clustered then moderate_association else if rejected then moderate_association
        else if robust then statistically_supported_association else moderate_association)
      else if moderate then moderate_association else weak_directional_signal)"

lemma check_chain_promoted:
  "check_chain one small few missing carried direction negligible dominated supported clustered rejected robust moderate
     \<in> {moderate_association, statistically_supported_association} \<longleftrightarrow>
   \<not> one \<and> \<not> small \<and> \<not> few \<and> \<not> missing \<and> \<not> carried \<and> direction \<and> \<not> negligible \<and> \<not> dominated \<and> (supported \<or> moderate)"
  by (simp add: check_chain_def)

lemma check_chain_supported:
  "check_chain one small few missing carried direction negligible dominated supported clustered rejected robust moderate
     = statistically_supported_association \<longleftrightarrow>
   \<not> one \<and> \<not> small \<and> \<not> few \<and> \<not> missing \<and> \<not> carried \<and> direction \<and> \<not> negligible \<and> \<not> dominated \<and>
   supported \<and> \<not> clustered \<and> \<not> rejected \<and> robust"
  by (simp add: check_chain_def)

text \<open>The effect of a comparison survives the removal of single posts with half of its threshold.\<close>

definition robust_effect :: "sensitivity_result \<Rightarrow> bool" where
  "robust_effect r \<longleftrightarrow> (case sr_minimumRelativeEffect r of
       Some m \<Rightarrow> jge m (jdiv practicalEffectThreshold (jint 2)) | None \<Rightarrow> False) \<and>
     sr_removeBestWorstPreservesDirection r \<noteq> Some False"

lemma statistic_fields:
  fixes sha256 :: "string \<Rightarrow> 8 word list"
  assumes "st = calculateFeatureStatistic sha256 input" "grp = filter isFinite (fc_group input)"
    "comparison = filter isFinite (fc_comparison input)"
  shows "fs_groupCount st = int (length grp)" "fs_comparisonCount st = int (length comparison)"
    "fs_sensitivity st = evaluateSensitivity comparison grp"
    "fs_classification st = fst (classifyFeature sha256 input grp comparison (fs_relativeEffect st)
       (fs_topContributorShare st) (fs_sensitivity st))"
  by (simp_all add: assms calculateFeatureStatistic_def Let_def case_prod_beta)

lemma classifyFeature_chain:
  "fst (classifyFeature sha256 input grp comparison effect share sensitivity) =
     check_chain (int (length grp) = 1) (int (length grp) < 3 \<or> int (length comparison) < 5)
       (fc_distinctPublicationDates input < 3) (jgt (fc_missingRatio input) maximumMissingRatio)
       (case share of Some s \<Rightarrow> jgt s (Num (1/2)) | None \<Rightarrow> False) (sr_preservesDirection sensitivity)
       (case effect of Some e \<Rightarrow> jlt (jabs e) practicalEffectThreshold | None \<Rightarrow> True)
       (fc_dominatedByOneSource input = Some True)
       ((int (length grp) \<ge> 12 \<and> int (length comparison) \<ge> 24 \<and> fc_distinctPublicationWeeks input \<ge> 6) \<and>
         map_option iv_excludesNoDifference (bootstrapMedianDifference comparison (fl (95/100)) grp
           (createBootstrapSeed sha256 comparison grp (fc_key input))) = Some True)
       (fc_observationsClusterBySource input = Some True) (fc_survivesMultipleTesting input = Some False)
       (robust_effect sensitivity)
       ((int (length grp) \<ge> 8 \<and> int (length comparison) \<ge> 12 \<and> int (length grp) + int (length comparison) \<ge> 20) \<and>
         map_option iv_excludesNoDifference (bootstrapMedianDifference comparison (fl (8/10)) grp
           (createBootstrapSeed sha256 comparison grp (fc_key input))) = Some True)"
  unfolding classifyFeature_def check_chain_def Let_def robust_effect_def if_distrib [of fst] fst_conv
    weak_samples_def moderate_samples_def supported_samples_def minimumPublicationDates_def
    sample_threshold.select_convs ..

lemma evidence_logic:
  fixes sha256 :: "string \<Rightarrow> 8 word list"
  defines "st \<equiv> \<lambda>input. calculateFeatureStatistic sha256 input"
  shows "fs_classification (st input) \<in> {moderate_association, statistically_supported_association} \<longleftrightarrow>
      sound_comparison input (st input) \<and>
      ((12 \<le> fs_groupCount (st input) \<and> 24 \<le> fs_comparisonCount (st input) \<and>
        6 \<le> fc_distinctPublicationWeeks input \<and> interval_excludes sha256 input (fl (95/100))) \<or>
       (8 \<le> fs_groupCount (st input) \<and> 12 \<le> fs_comparisonCount (st input) \<and>
        20 \<le> fs_groupCount (st input) + fs_comparisonCount (st input) \<and> interval_excludes sha256 input (fl (8/10))))"
    and "fs_classification (st input) = statistically_supported_association \<longleftrightarrow>
      sound_comparison input (st input) \<and> 12 \<le> fs_groupCount (st input) \<and> 24 \<le> fs_comparisonCount (st input) \<and>
      6 \<le> fc_distinctPublicationWeeks input \<and> interval_excludes sha256 input (fl (95/100)) \<and>
      fc_observationsClusterBySource input \<noteq> Some True \<and> fc_survivesMultipleTesting input \<noteq> Some False \<and>
      robust_effect (fs_sensitivity (st input))"
proof -
  let ?g = "filter isFinite (fc_group input)" and ?c = "filter isFinite (fc_comparison input)"
  note f = statistic_fields [OF refl refl refl, of sha256 input, folded st_def]
  show "fs_classification (st input) \<in> {moderate_association, statistically_supported_association} \<longleftrightarrow>
      sound_comparison input (st input) \<and>
      ((12 \<le> fs_groupCount (st input) \<and> 24 \<le> fs_comparisonCount (st input) \<and>
        6 \<le> fc_distinctPublicationWeeks input \<and> interval_excludes sha256 input (fl (95/100))) \<or>
       (8 \<le> fs_groupCount (st input) \<and> 12 \<le> fs_comparisonCount (st input) \<and>
        20 \<le> fs_groupCount (st input) + fs_comparisonCount (st input) \<and> interval_excludes sha256 input (fl (8/10))))"
    unfolding f(4) classifyFeature_chain check_chain_promoted sound_comparison_def interval_excludes_def Let_def f(1,2)
    by (auto split: option.splits)
  show "fs_classification (st input) = statistically_supported_association \<longleftrightarrow>
      sound_comparison input (st input) \<and> 12 \<le> fs_groupCount (st input) \<and> 24 \<le> fs_comparisonCount (st input) \<and>
      6 \<le> fc_distinctPublicationWeeks input \<and> interval_excludes sha256 input (fl (95/100)) \<and>
      fc_observationsClusterBySource input \<noteq> Some True \<and> fc_survivesMultipleTesting input \<noteq> Some False \<and>
      robust_effect (fs_sensitivity (st input))"
    unfolding f(4) classifyFeature_chain check_chain_supported sound_comparison_def interval_excludes_def Let_def f(1,2)
    by (auto split: option.splits)
qed

section \<open>Properties\<close>

text \<open>
  C38: the correction for multiple testing is the step-up procedure.  On finite p-values and a
  non-negative rate the routine, which sorts, finds the last rank under its threshold and marks
  every rank up to it, marks exactly the hypotheses that the definition without ranks keeps: those
  not above some value that meets the threshold of its position.  Ties are kept or dropped together,
  and the rounding of the thresholds does not matter.
\<close>

theorem benjamini_hochberg_is_step_up:
  assumes "list_all (\<lambda>p. js_wf p \<and> isFinite p) ps" "js_wf (Num r)" "0 \<le> r"
  shows "benjaminiHochberg ps (Num r) = map (step_up ps (Num r)) ps"
  by (rule benjaminiHochberg_step_up) (use assms in \<open>auto simp: list_all_iff finite_nums_def\<close>)

theorem benjamini_hochberg_is_step_up_witness:
  "benjaminiHochberg [jint 0, jint 1, jint 0] (jint 1) = map (step_up [jint 0, jint 1, jint 0] (jint 1)) [jint 0, jint 1, jint 0]"
  using benjamini_hochberg_is_step_up [of "[jint 0, jint 1, jint 0]" 1] zero_representable one_representable
  by (simp add: jint_def)

text \<open>
  What the code asks of each class of evidence.  A comparison is called an
  association if and only if it has three posts and five to compare with, three publication dates,
  at most two fifths missing, no post with more than half of the total, a direction that survives
  the removal of every single post, an effect of a tenth, no dominating source, and either the
  sample sizes and the 95 % interval of the supported class or those and the 80 % interval of the
  moderate one.  It is called supported if and only if it moreover has the supported sample sizes
  and interval, unclustered observations, no rejection by the correction for multiple testing and an
  effect that single posts do not carry.  Without the best and the worst post only the direction is looked
  at, where the document also asks for half of the effect.
\<close>

theorem evidence_classes_earned:
  "let st = calculateFeatureStatistic sha256 input; g = fs_groupCount st; c = fs_comparisonCount st;
       weeks = fc_distinctPublicationWeeks input in
   (fs_classification st \<in> {moderate_association, statistically_supported_association} \<longleftrightarrow>
     sound_comparison input st \<and>
     ((12 \<le> g \<and> 24 \<le> c \<and> 6 \<le> weeks \<and> interval_excludes sha256 input (fl (95/100))) \<or>
      (8 \<le> g \<and> 12 \<le> c \<and> 20 \<le> g + c \<and> interval_excludes sha256 input (fl (8/10))))) \<and>
   (fs_classification st = statistically_supported_association \<longleftrightarrow>
     sound_comparison input st \<and> 12 \<le> g \<and> 24 \<le> c \<and> 6 \<le> weeks \<and> interval_excludes sha256 input (fl (95/100)) \<and>
     fc_observationsClusterBySource input \<noteq> Some True \<and> fc_survivesMultipleTesting input \<noteq> Some False \<and>
     robust_effect (fs_sensitivity st))"
  unfolding Let_def using evidence_logic [of sha256 input] by blast

text \<open>
  The bootstrap never misses a clear difference, whatever its seed.  For samples of finite
  non-negative values of at most \<open>2 ^ 21\<close> posts each, when the values of the group lie above those of
  the comparison, the interval exists and excludes that there is no difference: the draws of the
  generator stay inside the samples, every resampled difference of medians is positive, and so are
  both ends of the interval, for every confidence of the unit interval.
\<close>

theorem bootstrap_separates:
  assumes "sample_ok grp" "sample_ok comparison" "separated grp comparison lo hi" "0 \<le> k" "k \<le> 1"
  shows "\<exists>iv. bootstrapMedianDifference comparison (Num k) grp seed = Some iv \<and> iv_excludesNoDifference iv \<and>
    iv_seed iv = seed"
proof -
  obtain iv where iv: "bootstrapMedianDifference comparison (Num k) grp seed = Some iv" "iv_excludesNoDifference iv"
    using separated_interval [OF assms] by blast
  moreover have "iv_seed iv = seed"
    using iv(1) by (auto simp: bootstrapMedianDifference_def Let_def split: if_splits)
  ultimately show ?thesis by blast
qed

lemma sample_groups:
  "sample_ok [jint 10, jint 11]" "sample_ok [jint 1, jint 2]" "separated [jint 10, jint 11] [jint 1, jint 2] 10 2"
  using representable_int [of 10] representable_int [of 11] representable_int [of 1] representable_int [of 2]
  by (simp_all add: sample_ok_def separated_def finite_nums_iff jint_def num_value_def)

theorem bootstrap_separates_witness:
  "\<exists>iv. bootstrapMedianDifference [jint 1, jint 2] (Num (1/2)) [jint 10, jint 11] 7 = Some iv \<and>
     iv_excludesNoDifference iv \<and> iv_seed iv = 7"
  by (rule bootstrap_separates [OF sample_groups]) simp_all

text \<open>
  The sensitivity of a comparison is a statement about every refit.  With two posts and
  something to compare with, the direction is preserved if and only if the median without each
  single post lies on the same side of the comparison median as the median of all; the least
  relative effect is the least over the same refits, absent only where the comparison median is
  zero; and from four posts on the trimmed median is held against the same direction.  With fewer
  posts nothing is claimed.
\<close>

theorem sensitivity_covers_every_refit:
  "let grp = filter isFinite gs; comparison = filter isFinite cs; r = evaluateSensitivity cs gs;
       cm = the (median comparison); direction = (\<lambda>xs. jsign (jsub (the (median xs)) cm)) in
   if comparison = [] \<or> length grp < 2
   then r = \<lparr>sr_minimumRelativeEffect = None, sr_preservesDirection = False, sr_removeBestWorstPreservesDirection = None\<rparr>
   else sr_preservesDirection r = list_all (\<lambda>xs. jeq (direction xs) (direction grp)) (leave_one_out grp) \<and>
     sr_minimumRelativeEffect r = (if jeq cm (jint 0) then None
       else least_of (map (\<lambda>xs. jabs (jdiv (jsub (the (median xs)) cm) (jabs cm))) (leave_one_out grp))) \<and>
     sr_removeBestWorstPreservesDirection r = (if 4 \<le> length grp
       then Some (jeq (direction (drop_ends (js_sort jsub grp))) (direction grp)) else None)"
proof -
  define grp where "grp = filter isFinite gs"
  define comparison where "comparison = filter isFinite cs"
  have fin: "filter isFinite grp = grp" "filter isFinite comparison = comparison"
    by (simp_all add: grp_def comparison_def)
  have meds: "median comparison = None \<longleftrightarrow> comparison = []" "median grp = None \<longleftrightarrow> grp = []"
    by (simp_all add: median_None fin)
  show ?thesis
  proof (cases "comparison = [] \<or> length grp < 2")
    case True
    then show ?thesis
      unfolding Let_def evaluateSensitivity_def grp_def [symmetric] comparison_def [symmetric]
      using meds by (auto split: option.splits)
  next
    case False
    then obtain cm gm where m: "median comparison = Some cm" "median grp = Some gm" using meds by fastforce
    have refits: "foldl (refit_step grp cm sign0) (True, None) [0..<length grp] =
      (list_all (\<lambda>i. jeq (jsign (jsub (the (median (without_index i grp))) cm)) sign0) [0..<length grp],
       if jeq cm (jint 0) then None
       else least_of (map (\<lambda>i. jabs (the (relativeEffect (the (median (without_index i grp))) cm))) [0..<length grp]))"
      for sign0
      by (rule refits_fold, rule refit_exists) (use False in \<open>auto simp: grp_def list_all_iff\<close>)
    have trimmed: "median (drop_ends (js_sort jsub grp)) \<noteq> None" if "4 \<le> length grp"
    proof -
      have "set (drop_ends (js_sort jsub grp)) \<subseteq> set grp"
        by (metis drop_ends_def js_sort_set in_set_butlastD list.set_sel(2) subsetI tl_Nil)
      then have "filter isFinite (drop_ends (js_sort jsub grp)) = drop_ends (js_sort jsub grp)"
        by (auto simp: filter_id_conv grp_def)
      moreover have "length (drop_ends (js_sort jsub grp)) \<noteq> 0" using that by (simp add: drop_ends_def)
      ultimately show ?thesis by (simp add: median_None)
    qed
    show ?thesis
      unfolding Let_def evaluateSensitivity_def grp_def [symmetric] comparison_def [symmetric] m
      using False trimmed
      by (auto simp: refits leave_one_out_def relativeEffect_def comp_def list.pred_map split: option.splits)
  qed
qed

text \<open>
  The share of the top contributor is a share: of any list of numbers it is absent or a number
  of the unit interval, whatever the rounding of the total and even where the total overflows.
\<close>

theorem top_share_bounded:
  assumes "list_all js_wf values" "topContributorShare values = Some s"
  shows "\<exists>y. s = Num y \<and> 0 \<le> y \<and> y \<le> 1"
  by (rule share_bounded [OF assms])

theorem top_share_bounded_witness:
  "\<exists>y. the (topContributorShare [jint 2]) = Num y \<and> 0 \<le> y \<and> y \<le> 1"
proof (rule top_share_bounded)
  show wf: "list_all js_wf [jint 2]" using representable_int [of 2] by (simp add: jint_def)
  have "jadd (jint 0) (jint 2) = jint 2" using jadd_int [of 0 2] by simp
  then show "topContributorShare [jint 2] = Some (the (topContributorShare [jint 2]))"
    by (simp add: topContributorShare_def Let_def) (simp add: jint_def)
qed

end
