(* ===== verification/Strategy_Evidence.thy ===== *)
theory Strategy_Evidence
  imports Strategy_Request Analytics_Runs Analytics_Statistics JS_Date
begin

text \<open>
  The candidates of a strategy request and the manifest it is frozen with
  (\<open>packages/db/src/strategy-evidence.ts\<close>): the statistics of the active run, the recent posts, the last
  strategies and the coverage of the data.  The body of a post's dossier is read by another module and is an
  argument, as a map from posts.  The order the database returns unordered rows in is that of the lists.
\<close>

section \<open>Rows\<close>

record statistic_row =
  sv_id :: string
  sv_metric :: derived_metric
  sv_featurePath :: string
  sv_featureValue :: string
  sv_confidence :: confidence_class
  sv_classificationReason :: string
  sv_groupCount :: int
  sv_comparisonCount :: int
  sv_members :: "string list"  \<comment> \<open>the posts of the group and of the comparison\<close>
  sv_relativeEffect :: "js_num option"
  sv_sensitivityHoldsDirection :: "bool option"
  sv_topContributorShare :: "js_num option"

record analysis_row =
  an_analyticsEligible :: bool
  an_contentFormat :: "string option"
  an_contentPillar :: "string option"
  an_hookCategory :: "string option"

record analysed_post =
  ap_id :: string
  ap_workspaceId :: string
  ap_instagramAccountId :: string
  ap_publishedAt :: time
  ap_currentAnalysis :: "analysis_row option"

datatype generation_state = G_PENDING | G_PROCESSING | G_SUCCEEDED | G_FAILED

datatype generation_stage = GS_REQUESTING | GS_REPAIRING | GS_PUBLISHING

text \<open>The columns of constants, and the figures of the provider's answer, are left out.\<close>

record strategy_generation =
  sg_id :: string
  sg_workspaceId :: string
  sg_instagramAccountId :: "string option"
  sg_backgroundJobId :: string
  sg_analyticsRunId :: string
  sg_state :: generation_state
  sg_stage :: generation_stage
  sg_mode :: strategy_mode
  sg_primaryMetric :: derived_metric
  sg_ageWindow :: age_window
  sg_publishedFrom :: time
  sg_publishedTo :: time
  sg_pillarEmphasis :: "string list"
  sg_formatEmphasis :: "string list"
  sg_editorialConstraint :: "string option"
  sg_analysedPostCount :: int
  sg_comparablePostCount :: int
  sg_publicationWeekCount :: int
  sg_evidenceCount :: int
  sg_postEvidenceCount :: int
  sg_statisticEvidenceCount :: int
  sg_estimatedInputTokens :: int
  sg_manifestHash :: string
  sg_requestSignature :: string
  sg_regenerationOrdinal :: int
  sg_regeneratedFromId :: "string option"
  sg_correlationId :: string
  sg_requestedByUserId :: "string option"
  sg_requestedAt :: time
  sg_frozenAt :: time
  sg_repairAttempted :: bool
  sg_result :: "strategy option"
  sg_recommendationFingerprints :: "string list"
  sg_generatedAt :: "time option"
  sg_completedAt :: "time option"
  sg_failureClass :: "failure_class option"
  sg_failureCode :: "string option"

text \<open>A frozen row; it is read back without its references.\<close>

record evidence_row =
  ev_workspaceId :: string
  ev_strategyGenerationId :: string
  ev_entry :: entry

record strategy_tables =
  gt_analytics :: analytics_tables
  gt_statistics :: "statistic_row list"
  gt_posts :: "analysed_post list"
  gt_generations :: "strategy_generation list"
  gt_evidence :: "evidence_row list"
  gt_currentStrategy :: "(string \<times> string) \<rightharpoonup> string"  \<comment> \<open>of an account of a workspace\<close>
  gt_users :: "(string \<times> string) list"

section \<open>Texts\<close>

text \<open>\<open>toFixed(1)\<close>: of two nearest the larger.\<close>

fun toFixed1 :: "js_num \<Rightarrow> string" where
  "toFixed1 (Num x) = (if \<bar>x\<bar> \<ge> 10 ^ 21 then number_text (Num x)
     else let n = nat \<lfloor>\<bar>x\<bar> * 10 + 1 / 2\<rfloor> in (if x < 0 then ''-'' else []) @ nat_digits (n div 10) @ ''.'' @ nat_digits (n mod 10))"
| "toFixed1 v = number_text v"

definition dimensionFor :: "string \<Rightarrow> claim_dimension" where
  "dimensionFor featurePath =
     (if featurePath = ''callToAction.type'' then CD_cta else if featurePath = ''content.contentFormat'' then CD_format
      else if featurePath = ''content.contentPillar'' then CD_content_pillar else if featurePath = ''content.durationBand'' then CD_duration
      else if featurePath = ''content.hook.category'' then CD_hook else if featurePath = ''content.presenterMode'' then CD_presenter_mode
      else CD_other)"

fun evidenceClasses :: "confidence_class \<Rightarrow> evidence_class" where
  "evidenceClasses insufficient_evidence = EC_insufficient_evidence"
| "evidenceClasses moderate_association = EC_moderate_association"
| "evidenceClasses single_post_outlier = EC_single_post_outlier"
| "evidenceClasses statistically_supported_association = EC_statistically_supported_association"
| "evidenceClasses weak_directional_signal = EC_weak_directional_signal"

definition date_part :: "time \<Rightarrow> string" where
  "date_part t = take 10 (toISOString t)"

section \<open>Candidates\<close>

definition undercuts :: "statistic_row \<Rightarrow> bool" where
  "undercuts r \<longleftrightarrow> sv_sensitivityHoldsDirection r = Some False \<or> sv_confidence r = single_post_outlier \<or>
     (\<exists>v. sv_topContributorShare r = Some v \<and> jgt v (Num (1 / 2)))"

lemma undercuts_code [code]:
  "undercuts r \<longleftrightarrow> sv_sensitivityHoldsDirection r = Some False \<or> sv_confidence r = single_post_outlier \<or>
     (case sv_topContributorShare r of None \<Rightarrow> False | Some v \<Rightarrow> jgt v (Num (1 / 2)))"
  by (simp add: undercuts_def split: option.split)

definition statistic_candidate :: "statistic_row \<Rightarrow> candidate" where
  "statistic_candidate r = (let effect = sv_relativeEffect r in
     \<lparr>ca_allowedNumericClaims = (case effect of None \<Rightarrow> [] | Some v \<Rightarrow> [toFixed1 (jmul (jabs v) (jint 100)) @ ''%'']),
      ca_allowedRoles = (if undercuts r then [ER_counterexample, ER_context] else [ER_supporting, ER_context]),
      ca_category = (if undercuts r then C_counterexample
        else case effect of None \<Rightarrow> C_positive_statistic | Some v \<Rightarrow> if jlt v (jint 0) then C_negative_statistic else C_positive_statistic),
      ca_classification = Some (evidenceClasses (sv_confidence r)),
      ca_dimensions = [dimensionFor (sv_featurePath r)],
      ca_evidenceType = ET_feature_statistic,
      ca_postIds = sv_members r,
      ca_rankScore = map_option jabs effect,
      ca_referenceId = Some (sv_id r),
      ca_requiredInLimitations = False,
      ca_retrievalReason = (if undercuts r then ''sensitivity_or_outlier'' else sv_classificationReason r),
      ca_sampleSize = Some (sv_groupCount r),
      ca_summaryText = sv_featurePath r @ ''='' @ sv_featureValue r @ '' on '' @ metric_text (sv_metric r) @ '': '' @
        (case effect of None \<Rightarrow> ''no comparable effect'' | Some v \<Rightarrow> toFixed1 (jmul v (jint 100)) @ ''% vs comparison'') @
        ''; group '' @ int_text (sv_groupCount r) @ '', comparison '' @ int_text (sv_comparisonCount r)\<rparr>)"

record evidence_request =
  rq_formatEmphasis :: "string list"
  rq_instagramAccountId :: "string option"
  rq_pillarEmphasis :: "string list"
  rq_primaryMetric :: derived_metric

definition emphasised :: "evidence_request \<Rightarrow> analysis_row \<Rightarrow> bool" where
  "emphasised request a \<longleftrightarrow>
     (case an_contentPillar a of None \<Rightarrow> False | Some p \<Rightarrow> p \<in> set (rq_pillarEmphasis request)) \<or>
     (case an_contentFormat a of None \<Rightarrow> False | Some f \<Rightarrow> f \<in> set (rq_formatEmphasis request))"

definition post_candidate :: "(string \<Rightarrow> string option) \<Rightarrow> evidence_request \<Rightarrow> nat \<Rightarrow> analysed_post \<Rightarrow> analysis_row \<Rightarrow> candidate" where
  "post_candidate dossiers request index p a =
     \<lparr>ca_allowedNumericClaims = [], ca_allowedRoles = [ER_context],
      ca_category = (if emphasised request a then C_comparator_post else C_recent_post),
      ca_classification = None, ca_dimensions = [CD_content_pillar], ca_evidenceType = ET_post, ca_postIds = [ap_id p],
      ca_rankScore = Some (jint (- int index)), ca_referenceId = Some (ap_id p), ca_requiredInLimitations = False,
      ca_retrievalReason = (if emphasised request a then ''requested_emphasis'' else ''most_recent''), ca_sampleSize = None,
      ca_summaryText = (case dossiers (ap_id p) of Some body \<Rightarrow> body
        | None \<Rightarrow> ''published '' @ date_part (ap_publishedAt p) @ ''; pillar '' @ coalesce (an_contentPillar a) ''unknown'' @
            ''; format '' @ coalesce (an_contentFormat a) ''unknown'' @ ''; hook '' @ coalesce (an_hookCategory a) ''unknown'')\<rparr>"

definition post_candidates :: "(string \<Rightarrow> string option) \<Rightarrow> evidence_request \<Rightarrow> analysed_post list \<Rightarrow> candidate list" where
  "post_candidates dossiers request posts = concat (map (\<lambda>(index, p). case ap_currentAnalysis p of None \<Rightarrow> []
       | Some a \<Rightarrow> [post_candidate dossiers request index p a]) (List.enumerate 0 (take posts_cap posts)))"

definition prior_candidate :: "nat \<Rightarrow> strategy_generation \<Rightarrow> candidate" where
  "prior_candidate index g =
     \<lparr>ca_allowedNumericClaims = [], ca_allowedRoles = [ER_context], ca_category = C_recent_strategy, ca_classification = None,
      ca_dimensions = [], ca_evidenceType = ET_recent_recommendation, ca_postIds = [], ca_rankScore = Some (jint (- int index)),
      ca_referenceId = Some (sg_id g), ca_requiredInLimitations = False, ca_retrievalReason = ''recent_strategy'', ca_sampleSize = None,
      ca_summaryText = ''a '' @ mode_text (sg_mode g) @ '' strategy was generated on '' @ date_part (sg_requestedAt g)\<rparr>"

definition coverage_candidate :: "derived_metric \<Rightarrow> age_window \<Rightarrow> nat \<Rightarrow> nat \<Rightarrow> candidate" where
  "coverage_candidate metric window comparable posts =
     \<lparr>ca_allowedNumericClaims = [nat_digits posts, nat_digits comparable], ca_allowedRoles = [ER_limitation], ca_category = C_data_quality,
      ca_classification = None, ca_dimensions = [], ca_evidenceType = ET_data_quality, ca_postIds = [], ca_rankScore = None,
      ca_referenceId = None, ca_requiredInLimitations = True, ca_retrievalReason = ''coverage_summary'', ca_sampleSize = Some (int posts),
      ca_summaryText = nat_digits comparable @ '' of '' @ nat_digits posts @ '' analysed posts had a comparable value for '' @
        metric_text metric @ '' in the '' @ age_window_text window @ '' observation window''\<rparr>"

text \<open>\<open>isoWeek\<close> and the key a post's week is counted by.\<close>

definition isoWeek :: "time \<Rightarrow> int" where
  "isoWeek t = (let utc = t div 86400000; d = (utc + 4) mod 7; day = (if d = 0 then 7 else d); thursday = utc + 4 - day;
      yearStart = days_from_civil (fst (civil thursday), 1, 1)
    in (thursday - yearStart + 1 + 6) div 7)"

definition publication_week :: "time \<Rightarrow> string" where
  "publication_week t = int_text (fst (civil (t div 86400000))) @ ''-'' @ int_text (isoWeek t)"

section \<open>Reading\<close>

record evidence_candidates =
  lc_ageWindow :: age_window
  lc_analyticsRunId :: string
  lc_candidates :: "candidate list"
  lc_analysedPostCount :: nat
  lc_comparablePostCount :: nat
  lc_publicationWeekCount :: nat
  lc_publishedFrom :: time
  lc_publishedTo :: time

definition active_run :: "strategy_tables \<Rightarrow> string \<Rightarrow> string option \<Rightarrow> analytics_run option" where
  "active_run t ws acc = find (\<lambda>r. ar_instagramAccountId r = acc \<and> ar_state r = R_ACTIVE \<and> ar_workspaceId r = ws) (an_runs (gt_analytics t))"

definition run_statistics :: "strategy_tables \<Rightarrow> string \<Rightarrow> string \<Rightarrow> derived_metric \<Rightarrow> statistic_row list" where
  "run_statistics t ws run metric = List.map_filter (\<lambda>rs. if rs_runId rs = run \<and> rs_workspaceId rs = ws
       then find (\<lambda>r. sv_id r = rs_statisticId rs \<and> sv_metric r = metric) (gt_statistics t) else None) (an_runStatistics (gt_analytics t))"

definition eligible_post :: "analysed_post \<Rightarrow> bool" where
  "eligible_post p = (case ap_currentAnalysis p of None \<Rightarrow> False | Some a \<Rightarrow> an_analyticsEligible a)"

definition window_posts :: "strategy_tables \<Rightarrow> string \<Rightarrow> string option \<Rightarrow> time \<Rightarrow> time \<Rightarrow> analysed_post list" where
  "window_posts t ws acc published_from published_to = take (posts_cap * 4) (rev (sort_key (\<lambda>p. (ap_publishedAt p, ap_id p))
     (filter (\<lambda>p. (acc = None \<or> acc = Some (ap_instagramAccountId p)) \<and> eligible_post p \<and> published_from \<le> ap_publishedAt p \<and>
        ap_publishedAt p \<le> published_to \<and> ap_workspaceId p = ws) (gt_posts t))))"

definition recent_generations :: "(strategy_generation \<Rightarrow> bool) \<Rightarrow> strategy_tables \<Rightarrow> string \<Rightarrow> string option \<Rightarrow> strategy_generation list" where
  "recent_generations P t ws acc = take 3 (rev (sort_key (\<lambda>g. (sg_requestedAt g, sg_id g))
     (filter (\<lambda>g. P g \<and> sg_instagramAccountId g = acc \<and> sg_state g = G_SUCCEEDED \<and> sg_workspaceId g = ws) (gt_generations t))))"

definition loadStrategyEvidenceCandidates ::
    "(string \<Rightarrow> string option) \<Rightarrow> strategy_tables \<Rightarrow> string \<Rightarrow> evidence_request \<Rightarrow> evidence_candidates option" where
  "loadStrategyEvidenceCandidates dossiers t ws request =
     (case active_run t ws (rq_instagramAccountId request) of
        None \<Rightarrow> None
      | Some run \<Rightarrow>
          let published = run_statistics t ws (ar_id run) (rq_primaryMetric request);
              posts = window_posts t ws (rq_instagramAccountId request) (ar_publishedFrom run) (ar_publishedTo run);
              priors = recent_generations (\<lambda>_. True) t ws (rq_instagramAccountId request);
              comparable = card (set (concat (map sv_members published)))
          in Some \<lparr>lc_ageWindow = ar_ageWindow run, lc_analyticsRunId = ar_id run,
               lc_candidates = map statistic_candidate published @ post_candidates dossiers request posts @
                 map (\<lambda>(k, g). prior_candidate k g) (List.enumerate 0 priors) @
                 [coverage_candidate (rq_primaryMetric request) (ar_ageWindow run) comparable (length posts)],
               lc_analysedPostCount = length posts, lc_comparablePostCount = comparable,
               lc_publicationWeekCount = card (set (map (publication_week \<circ> ap_publishedAt) posts)),
               lc_publishedFrom = ar_publishedFrom run, lc_publishedTo = ar_publishedTo run\<rparr>)"

section \<open>The manifest\<close>

record manifest_request =
  mq_editorialConstraint :: "string option"
  mq_formatEmphasis :: "string list"
  mq_instagramAccountId :: "string option"
  mq_mode :: strategy_mode
  mq_pillarEmphasis :: "string list"
  mq_primaryMetric :: derived_metric

record frozen_manifest =
  fm_entries :: "entry list"
  fm_estimatedInputTokens :: int
  fm_identity :: manifest_identity
  fm_manifestHash :: string
  fm_rendered :: string

definition manifest_identity_of :: "evidence_candidates \<Rightarrow> manifest_request \<Rightarrow> manifest_identity" where
  "manifest_identity_of loaded request = \<lparr>mi_ageWindow = age_window_text (lc_ageWindow loaded),
     mi_analysisSchemaVersion = ''post-creative-analysis-v1.1.0'', mi_analyticsRunId = lc_analyticsRunId loaded,
     mi_analyticsVersion = analyticsVersion, mi_cohortVersion = cohortSelectionVersion, mi_editorialConstraint = mq_editorialConstraint request,
     mi_formatEmphasis = mq_formatEmphasis request, mi_instagramAccountId = mq_instagramAccountId request, mi_mode = mq_mode request,
     mi_pillarEmphasis = mq_pillarEmphasis request, mi_primaryMetric = mq_primaryMetric request,
     mi_publishedFrom = toISOString (lc_publishedFrom loaded), mi_publishedTo = toISOString (lc_publishedTo loaded),
     mi_statisticsVersion = statisticsVersion\<rparr>"

definition buildStrategyManifest :: "(string \<Rightarrow> string \<Rightarrow> js_num) \<Rightarrow> hash \<Rightarrow> evidence_candidates \<Rightarrow> manifest_request \<Rightarrow> frozen_manifest option" where
  "buildStrategyManifest localeCompare sha256 loaded request =
     (case selectStrategyEvidence localeCompare (lc_candidates loaded) None of
        None \<Rightarrow> None
      | Some s \<Rightarrow> let i = manifest_identity_of loaded request; rendered = renderStrategyManifest i (es_entries s) in
          Some \<lparr>fm_entries = es_entries s, fm_estimatedInputTokens = estimateStrategyPromptTokens rendered, fm_identity = i,
            fm_manifestHash = createStrategyManifestHash sha256 i (es_entries s), fm_rendered = rendered\<rparr>)"

section \<open>What is loaded\<close>

lemma post_candidates_of: "c \<in> set (post_candidates dossiers request posts) \<Longrightarrow> \<exists>p \<in> set posts. ca_postIds c = [ap_id p] \<and>
    ca_category c \<in> {C_comparator_post, C_recent_post}"
proof -
  assume "c \<in> set (post_candidates dossiers request posts)"
  then obtain k p a where p: "(k, p) \<in> set (List.enumerate 0 (take posts_cap posts))" "c = post_candidate dossiers request k p a"
    by (auto simp: post_candidates_def split: option.splits)
  from p(1) have "p \<in> set (take posts_cap posts)" by (auto simp: enumerate_eq_zip dest: set_zip_rightD)
  then have "p \<in> set posts" by (rule in_set_takeD)
  then show ?thesis using p(2) by (intro bexI [of _ p]) (auto simp: post_candidate_def)
qed

lemma loaded_cases:
  assumes "loadStrategyEvidenceCandidates dossiers t ws request = Some l" "c \<in> set (lc_candidates l)"
  obtains (statistic) r where "c = statistic_candidate r"
    | (post) "c \<in> set (post_candidates dossiers request (window_posts t ws (rq_instagramAccountId request) (lc_publishedFrom l) (lc_publishedTo l)))"
    | (prior) k g where "c = prior_candidate k g" | (coverage) m w a b where "c = coverage_candidate m w a b"
proof -
  obtain run where run: "active_run t ws (rq_instagramAccountId request) = Some run"
    using assms(1) by (cases "active_run t ws (rq_instagramAccountId request)") (simp_all add: loadStrategyEvidenceCandidates_def)
  let ?posts = "window_posts t ws (rq_instagramAccountId request) (ar_publishedFrom run) (ar_publishedTo run)"
  have "lc_publishedFrom l = ar_publishedFrom run" "lc_publishedTo l = ar_publishedTo run"
    using assms(1) by (auto simp: loadStrategyEvidenceCandidates_def run Let_def)
  moreover have "c \<in> statistic_candidate ` set (run_statistics t ws (ar_id run) (rq_primaryMetric request)) \<or> c \<in> set (post_candidates dossiers request ?posts) \<or>
      c \<in> (\<lambda>(k, g). prior_candidate k g) ` set (List.enumerate 0 (recent_generations (\<lambda>_. True) t ws (rq_instagramAccountId request))) \<or>
      (\<exists>m w a b. c = coverage_candidate m w a b)"
    using assms by (auto simp: loadStrategyEvidenceCandidates_def run Let_def)
  ultimately show thesis using that by auto
qed

lemma post_candidate_type: "c \<in> set (post_candidates dossiers request posts) \<Longrightarrow> ca_evidenceType c = ET_post \<and> ca_allowedRoles c = [ER_context]"
  by (auto simp: post_candidates_def post_candidate_def split: option.splits)

lemma loaded_roles:
  assumes "loadStrategyEvidenceCandidates dossiers t ws request = Some l" "c \<in> set (lc_candidates l)"
  shows "ca_allowedRoles c \<noteq> []"
  using assms
proof (cases rule: loaded_cases)
  case post
  then show ?thesis using post_candidate_type by simp
qed (simp_all add: statistic_candidate_def Let_def prior_candidate_def coverage_candidate_def)

text \<open>What a candidate of the loader is, by its kind: statistics come before posts.\<close>

lemma loaded_kinds:
  assumes "loadStrategyEvidenceCandidates dossiers t ws request = Some l" "c \<in> set (lc_candidates l)"
  shows "isStatistic c \<Longrightarrow> categoryOrder (ca_category c) \<le> 2" "isPost c \<Longrightarrow> 5 \<le> categoryOrder (ca_category c) \<and>
      (\<exists>p \<in> set (window_posts t ws (rq_instagramAccountId request) (lc_publishedFrom l) (lc_publishedTo l)). ca_postIds c = [ap_id p])"
    "ca_evidenceType c \<noteq> ET_metric_snapshot"
proof -
  let ?posts = "window_posts t ws (rq_instagramAccountId request) (lc_publishedFrom l) (lc_publishedTo l)"
  have "(isStatistic c \<longrightarrow> categoryOrder (ca_category c) \<le> 2) \<and> (isPost c \<longrightarrow> 5 \<le> categoryOrder (ca_category c) \<and>
      (\<exists>p \<in> set ?posts. ca_postIds c = [ap_id p])) \<and> ca_evidenceType c \<noteq> ET_metric_snapshot"
    using assms
  proof (cases rule: loaded_cases)
    case statistic
    then show ?thesis by (simp add: statistic_candidate_def Let_def isStatistic_def isPost_def split: option.split)
  next
    case post
    obtain p where "p \<in> set ?posts" "ca_postIds c = [ap_id p]" "ca_category c \<in> {C_comparator_post, C_recent_post}"
      using post_candidates_of [OF post] by blast
    then show ?thesis using post_candidate_type [OF post] by (auto simp: isStatistic_def isPost_def)
  next
    case prior
    then show ?thesis by (simp add: prior_candidate_def isStatistic_def isPost_def)
  next
    case coverage
    then show ?thesis by (simp add: coverage_candidate_def isStatistic_def isPost_def)
  qed
  then show "isStatistic c \<Longrightarrow> categoryOrder (ca_category c) \<le> 2" "isPost c \<Longrightarrow> 5 \<le> categoryOrder (ca_category c) \<and>
      (\<exists>p \<in> set ?posts. ca_postIds c = [ap_id p])" "ca_evidenceType c \<noteq> ET_metric_snapshot" by simp_all
qed

text \<open>The entries of a selection are in the order of the categories.\<close>

lemma entries_sorted:
  assumes "selectStrategyEvidence localeCompare cs budget = Some s"
  shows "sorted (map (\<lambda>e. categoryOrder (ca_category e)) (es_entries s))"
proof -
  obtain n trimmed where s: "s = \<lparr>es_entries = number_entries (\<lambda>_. 0) (below n (ss_selected (select_candidates localeCompare cs))),
      es_trimmed = sort_key categoryOrder trimmed\<rparr>"
    using selection_form [of localeCompare cs budget] assms by (metis option.inject)
  have "subseq (ss_selected (select_candidates localeCompare cs)) (js_sort (compareEvidence localeCompare) cs)"
    using selection_facts by (simp add: select_candidates_def reported_def)
  then have "sorted (map (\<lambda>c. categoryOrder (ca_category c)) (ss_selected (select_candidates localeCompare cs)))"
    using ordered_categories [of localeCompare cs] subseq_sorted_wrt unfolding sorted_map by blast
  then have "sorted (map (\<lambda>c. categoryOrder (ca_category c)) (map candidate.truncate (es_entries s)))" by (simp add: s below_sorted)
  then show ?thesis by (simp add: comp_def)
qed

section \<open>A statistic and the posts it compared\<close>

lemma ceiling_needs_post: "within_ceiling items cls True True \<Longrightarrow> \<exists>i \<in> items. sm_type i \<in> set postEvidenceTypes"
  by (simp add: within_ceiling_def split: if_splits)

text \<open>
  C16: the posts a selected statistic compared are not evidence of their own.  When a statistic of the
  selection compared every analysed post of the period, the manifest has no post at all, and over such a
  manifest an evidence-led strategy can have no pattern, working or weak: each needs a post to cite.
\<close>

theorem compared_posts_are_no_evidence:
  assumes "loadStrategyEvidenceCandidates dossiers t ws request = Some l"
    "selectStrategyEvidence localeCompare (lc_candidates l) budget = Some s" "d \<in> set (es_entries s)" "isStatistic d"
    "ap_id ` set (window_posts t ws (rq_instagramAccountId request) (lc_publishedFrom l) (lc_publishedTo l)) \<subseteq> set (ca_postIds d)"
  shows "filter isPost (es_entries s) = [] \<and>
    (strategy_sound folded \<lparr>vc_mode = SM_evidence_led, vc_manifest = map toStrategyManifestEvidence (es_entries s), vc_recentFingerprints = recent\<rparr> x \<longrightarrow>
      st_workingPatterns x = [] \<and> st_weakPatterns x = [])"
proof -
  have from_loader: "candidate.truncate e \<in> set (lc_candidates l)" if "e \<in> set (es_entries s)" for e
    using selection_sound(3) [OF assms(2)] that by auto
  have no_post: "\<not> isPost e" if e: "e \<in> set (es_entries s)" for e
  proof
    assume "isPost e"
    then have p: "5 \<le> categoryOrder (ca_category e)" "set (ca_postIds e) \<inter> set (ca_postIds d) \<noteq> {}"
      using loaded_kinds(2) [OF assms(1) from_loader [OF e]] assms(5) by (auto simp: truncated_facts)
    have d: "categoryOrder (ca_category d) \<le> 2"
      using loaded_kinds(1) [OF assms(1) from_loader [OF assms(3)]] assms(4) by (simp add: truncated_facts)
    obtain i j where ij: "i < length (es_entries s)" "es_entries s ! i = d" "j < length (es_entries s)" "es_entries s ! j = e"
      using assms(3) e by (metis in_set_conv_nth)
    show False
    proof (cases "i < j")
      case True
      have "sorted_wrt (\<lambda>a b. isPost b \<longrightarrow> set (ca_postIds a) \<inter> set (ca_postIds b) = {}) (es_entries s)"
        using selection_sound(1) [OF assms(2)] by (simp add: fits_def)
      from sorted_wrt_nth_less [OF this True ij(3)] \<open>isPost e\<close> p(2) show False by (auto simp: ij)
    next
      case False
      then have "categoryOrder (ca_category e) \<le> categoryOrder (ca_category d)"
        using sorted_nth_mono [OF entries_sorted [OF assms(2)], of j i] ij by simp
      with p(1) d show False by simp
    qed
  qed
  have "sm_type i \<notin> set postEvidenceTypes" if i: "i \<in> set (map toStrategyManifestEvidence (es_entries s))" for i
  proof -
    obtain e where e: "e \<in> set (es_entries s)" "i = toStrategyManifestEvidence e" using i by auto
    then show ?thesis using no_post [OF e(1)] loaded_kinds(3) [OF assms(1) from_loader [OF e(1)]]
      by (simp add: toStrategyManifestEvidence_def postEvidenceTypes_def isPost_def)
  qed
  then have "\<not> within_ceiling (cited (map toStrategyManifestEvidence (es_entries s)) refs) cls True True" for refs cls
    using ceiling_needs_post [of "cited (map toStrategyManifestEvidence (es_entries s)) refs" cls] unfolding cited_def by fast
  then have "st_workingPatterns x = [] \<and> st_weakPatterns x = []"
    if "strategy_sound folded \<lparr>vc_mode = SM_evidence_led, vc_manifest = map toStrategyManifestEvidence (es_entries s), vc_recentFingerprints = recent\<rparr> x"
    using that unfolding strategy_sound_def pattern_sound_def Let_def
    by (cases "st_workingPatterns x"; cases "st_weakPatterns x") auto
  then show ?thesis using no_post by (simp add: filter_empty_conv)
qed

section \<open>Weeks of publication\<close>

text \<open>
  The first and the last Monday of 2024 are counted as one week of publication, and two days of
  one week in the turn of the year as two: the key has the calendar year beside the ISO week.
\<close>

lemma weeks_of_publication:
  "civil (1704067200000 div 86400000) = (2024, 1, 1)" "civil (1735516800000 div 86400000) = (2024, 12, 30)"
  "publication_week 1704067200000 = publication_week 1735516800000"
  "civil (1735603200000 div 86400000) = (2024, 12, 31)" "civil (1735689600000 div 86400000) = (2025, 1, 1)"
  "isoWeek 1735603200000 = isoWeek 1735689600000" "publication_week 1735603200000 \<noteq> publication_week 1735689600000"
proof -
  show days: "civil (1704067200000 div 86400000) = (2024, 1, 1)" "civil (1735516800000 div 86400000) = (2024, 12, 30)"
    "civil (1735603200000 div 86400000) = (2024, 12, 31)" "civil (1735689600000 div 86400000) = (2025, 1, 1)"
    by code_simp+
  have weeks: "isoWeek 1704067200000 = isoWeek 1735516800000" "isoWeek 1735603200000 = isoWeek 1735689600000" by code_simp+
  then show "isoWeek 1735603200000 = isoWeek 1735689600000" by simp
  show "publication_week 1704067200000 = publication_week 1735516800000"
    unfolding publication_week_def days weeks by simp
  have "digit_free (''-'' @ x)" for x by (simp add: digit_free_def is_digit_def code_in_def)
  then show "publication_week 1735603200000 \<noteq> publication_week 1735689600000"
    using int_text_unique [of 2024 "''-'' @ int_text w" 2025 "''-'' @ int_text w" for w] unfolding publication_week_def days weeks by auto
qed

section \<open>A sample\<close>

definition sample_statistic_row :: statistic_row where
  "sample_statistic_row = \<lparr>sv_id = ''s'', sv_metric = share_rate_reach, sv_featurePath = ''f'', sv_featureValue = ''v'',
     sv_confidence = weak_directional_signal, sv_classificationReason = ''r'', sv_groupCount = 1, sv_comparisonCount = 1, sv_members = [''p''],
     sv_relativeEffect = None, sv_sensitivityHoldsDirection = None, sv_topContributorShare = None\<rparr>"

definition sample_analysed_post :: analysed_post where
  "sample_analysed_post = \<lparr>ap_id = ''p'', ap_workspaceId = ''w'', ap_instagramAccountId = ''a'', ap_publishedAt = 0,
     ap_currentAnalysis = Some \<lparr>an_analyticsEligible = True, an_contentFormat = None, an_contentPillar = None, an_hookCategory = None\<rparr>\<rparr>"

definition sample_strategy_tables :: strategy_tables where
  "sample_strategy_tables = \<lparr>gt_analytics = \<lparr>an_accounts = [],
       an_runs = [\<lparr>ar_id = ''n'', ar_workspaceId = ''w'', ar_instagramAccountId = None, ar_state = R_ACTIVE, ar_ageWindow = W_mature,
         ar_publishedFrom = 0, ar_publishedTo = 0, ar_inputFingerprint = [], ar_statisticCount = 1, ar_analysisCount = 1, ar_startedAt = 0,
         ar_activatedAt = Some 0, ar_durationMs = Some 0, ar_failureCode = None\<rparr>],
       an_runStatistics = [\<lparr>rs_workspaceId = ''w'', rs_runId = ''n'', rs_statisticId = ''s''\<rparr>]\<rparr>,
     gt_statistics = [sample_statistic_row], gt_posts = [sample_analysed_post], gt_generations = [], gt_evidence = [],
     gt_currentStrategy = Map.empty, gt_users = []\<rparr>"

definition sample_evidence_request :: evidence_request where
  "sample_evidence_request = \<lparr>rq_formatEmphasis = [], rq_instagramAccountId = None, rq_pillarEmphasis = [], rq_primaryMetric = share_rate_reach\<rparr>"

lemma sample_window: "window_posts sample_strategy_tables ''w'' None 0 0 = [sample_analysed_post]"
  by (simp add: window_posts_def sample_strategy_tables_def sample_analysed_post_def eligible_post_def posts_cap_def)

lemma sample_loaded:
  obtains l where "loadStrategyEvidenceCandidates (\<lambda>_. Some ''d'') sample_strategy_tables ''w'' sample_evidence_request = Some l"
    "lc_candidates l = [statistic_candidate sample_statistic_row,
       post_candidate (\<lambda>_. Some ''d'') sample_evidence_request 0 sample_analysed_post (the (ap_currentAnalysis sample_analysed_post)),
       coverage_candidate share_rate_reach W_mature 1 1]" "lc_publishedFrom l = 0" "lc_publishedTo l = 0"
    "lc_analysedPostCount l = 1" "lc_comparablePostCount l = 1" "lc_analyticsRunId l = ''n''"
proof -
  have run: "active_run sample_strategy_tables ''w'' None = Some \<lparr>ar_id = ''n'', ar_workspaceId = ''w'', ar_instagramAccountId = None, ar_state = R_ACTIVE,
      ar_ageWindow = W_mature, ar_publishedFrom = 0, ar_publishedTo = 0, ar_inputFingerprint = [], ar_statisticCount = 1, ar_analysisCount = 1,
      ar_startedAt = 0, ar_activatedAt = Some 0, ar_durationMs = Some 0, ar_failureCode = None\<rparr>"
    by (simp add: active_run_def sample_strategy_tables_def)
  have statistics: "run_statistics sample_strategy_tables ''w'' ''n'' share_rate_reach = [sample_statistic_row]"
    by (simp add: run_statistics_def sample_strategy_tables_def sample_statistic_row_def List.map_filter_def)
  have priors: "recent_generations P sample_strategy_tables ''w'' None = []" for P
    by (simp add: recent_generations_def sample_strategy_tables_def)
  have posts: "post_candidates (\<lambda>_. Some ''d'') sample_evidence_request [sample_analysed_post] =
      [post_candidate (\<lambda>_. Some ''d'') sample_evidence_request 0 sample_analysed_post (the (ap_currentAnalysis sample_analysed_post))]"
    by (simp add: post_candidates_def posts_cap_def) (simp add: sample_analysed_post_def)
  have "rq_instagramAccountId sample_evidence_request = None" "rq_primaryMetric sample_evidence_request = share_rate_reach" "sv_members sample_statistic_row = [''p'']"
    by (simp_all add: sample_evidence_request_def sample_statistic_row_def)
  then show thesis using that by (simp add: loadStrategyEvidenceCandidates_def Let_def run statistics priors posts sample_window)
qed

lemma sample_statistic_selected:
  assumes "cs = [statistic_candidate sample_statistic_row,
       post_candidate (\<lambda>_. Some ''d'') sample_evidence_request 0 sample_analysed_post (the (ap_currentAnalysis sample_analysed_post)),
       coverage_candidate share_rate_reach W_mature 1 1]" "1000 \<le> coalesce budget strategyInputTokenBudget"
  obtains s where "selectStrategyEvidence localeCompare cs budget = Some s"
    "es_entries s = number_entries (\<lambda>_. 0) [statistic_candidate sample_statistic_row, coverage_candidate share_rate_reach W_mature 1 1]"
proof -
  let ?x = "statistic_candidate sample_statistic_row" and ?z = "coverage_candidate share_rate_reach W_mature 1 1"
  have order: "js_sort (compareEvidence localeCompare) cs = cs"
    by (simp add: assms(1) js_sort_def compareEvidence_def jgt_def jint_def statistic_candidate_def sample_statistic_row_def undercuts_def Let_def
      post_candidate_def coverage_candidate_def emphasised_def sample_evidence_request_def sample_analysed_post_def)
  have picked: "ss_selected (select_candidates localeCompare cs) = [?x, ?z]"
    unfolding select_candidates_def order unfolding assms
    by (simp add: selection_start_def select_candidate_def referenceKey_def isPost_def isStatistic_def trim_category_def add_once_def statistics_cap_def
      posts_cap_def statistic_candidate_def sample_statistic_row_def undercuts_def Let_def post_candidate_def coverage_candidate_def emphasised_def
      sample_evidence_request_def sample_analysed_post_def)
  have "length (renderCandidates [?x, ?z]) \<le> 600"
    by (simp add: renderCandidates_def statistic_candidate_def sample_statistic_row_def coverage_candidate_def Let_def int_text_def nat_digits.simps [of "Suc 0"])
  then have "\<not> coalesce budget strategyInputTokenBudget < estimateStrategyPromptTokens (renderCandidates [?x, ?z])"
    using assms(2) unfolding estimateStrategyPromptTokens_def by linarith
  then have "applyTokenBudget [?x, ?z] (coalesce budget strategyInputTokenBudget) trimmed = Some ([?x, ?z], trimmed)" for trimmed
    by (subst applyTokenBudget.simps) (simp only: simp_thms if_False)
  then have "selectStrategyEvidence localeCompare cs budget =
      Some \<lparr>es_entries = number_entries (\<lambda>_. 0) [?x, ?z], es_trimmed = sort_key categoryOrder (ss_trimmed (select_candidates localeCompare cs))\<rparr>"
    by (simp add: selectStrategyEvidence_def Let_def picked del: number_entries.simps)
  then show thesis by (rule that) (simp del: number_entries.simps)
qed

theorem compared_posts_are_no_evidence_witness:
  "\<exists>l s. loadStrategyEvidenceCandidates (\<lambda>_. Some ''d'') sample_strategy_tables ''w'' sample_evidence_request = Some l \<and>
     selectStrategyEvidence numbered_compare (lc_candidates l) (Some 1000) = Some s \<and> es_entries s \<noteq> [] \<and> filter isPost (es_entries s) = []"
proof -
  obtain l where l: "loadStrategyEvidenceCandidates (\<lambda>_. Some ''d'') sample_strategy_tables ''w'' sample_evidence_request = Some l"
    "lc_candidates l = [statistic_candidate sample_statistic_row,
       post_candidate (\<lambda>_. Some ''d'') sample_evidence_request 0 sample_analysed_post (the (ap_currentAnalysis sample_analysed_post)),
       coverage_candidate share_rate_reach W_mature 1 1]" "lc_publishedFrom l = 0" "lc_publishedTo l = 0"
    by (rule sample_loaded)
  obtain s where selected: "selectStrategyEvidence numbered_compare (lc_candidates l) (Some 1000) = Some s"
    "es_entries s = number_entries (\<lambda>_. 0) [statistic_candidate sample_statistic_row, coverage_candidate share_rate_reach W_mature 1 1]"
    by (rule sample_statistic_selected [OF l(2), of "Some 1000"]) simp
  then obtain d where s: "selectStrategyEvidence numbered_compare (lc_candidates l) (Some 1000) = Some s" "d \<in> set (es_entries s)" "isStatistic d" "ca_postIds d = [''p'']"
    using that [of "hd (es_entries s)"] by (simp add: Let_def isStatistic_def statistic_candidate_def sample_statistic_row_def candidate.extend_def)
  have "ap_id ` set (window_posts sample_strategy_tables ''w'' (rq_instagramAccountId sample_evidence_request) (lc_publishedFrom l) (lc_publishedTo l)) \<subseteq> set (ca_postIds d)"
    using s(4) l(3,4) sample_window by (simp add: sample_evidence_request_def sample_analysed_post_def)
  from compared_posts_are_no_evidence [OF l(1) s(1,2,3) this] l(1) s(1,2) show ?thesis by auto
qed

end
