(* ===== verification/Strategy_Generation.thy ===== *)
theory Strategy_Generation
  imports Strategy_Evidence Job_Outbox
begin

text \<open>
  Asking for a strategy, running the frozen request and publishing what it produced:
  \<open>packages/db/src/strategy-request-command.ts\<close>, \<open>packages/db/src/strategy-generation.ts\<close> and
  \<open>apps/worker/src/strategy/strategy-generate-handler.ts\<close>.

  The four reads of a request come before its transaction, and each may see a different state.  What a
  publication reads and writes is one step: it runs inside the transaction of its job, after the guarded update
  that holds the job's row.  Identifiers are given in the spelling the uuid columns return.  The
  handler is the stores it makes and what it ends with, for given answers of the provider; what the
  execution context records about the job is in \<open>Job_Runs\<close>.  The prompt text, the
  business profile and the schema as texts, the JSON parser, the schema
  library, the Unicode folding and the provider, whose errors appear as the job failures they become, are arguments.
\<close>

section \<open>Eligibility\<close>

definition resolveScope :: "strategy_tables \<Rightarrow> string \<Rightarrow> string option \<Rightarrow> (bool \<times> strategy_scope) option" where
  "resolveScope t ws acc = (case acc of
       None \<Rightarrow> Some (0 < count_many (\<lambda>a. ac_analyticsDirtySince a \<noteq> None \<and> ac_connectionStatus a = CS_ACTIVE \<and> ac_workspaceId a = ws)
           (an_accounts (gt_analytics t)), On_pooled)
     | Some i \<Rightarrow> (case find (\<lambda>a. ac_id a = i \<and> ac_workspaceId a = ws) (an_accounts (gt_analytics t)) of
         None \<Rightarrow> None
       | Some a \<Rightarrow> Some (ac_analyticsDirtySince a \<noteq> None, On_account (ac_id a))))"

definition countAnalysedPosts :: "strategy_tables \<Rightarrow> string \<Rightarrow> string option \<Rightarrow> nat" where
  "countAnalysedPosts t ws acc =
     count_many (\<lambda>p. eligible_post p \<and> ap_workspaceId p = ws \<and> (acc = None \<or> acc = Some (ap_instagramAccountId p))) (gt_posts t)"

record eligibility_request =
  er_acceptExploratory :: bool
  er_instagramAccountId :: "string option"
  er_primaryMetric :: derived_metric

definition readEligibility ::
    "(string \<Rightarrow> string option) \<Rightarrow> strategy_tables \<Rightarrow> string \<Rightarrow> eligibility_request \<Rightarrow> eligibility \<times> evidence_candidates option" where
  "readEligibility dossiers t ws i =
     (case resolveScope t ws (er_instagramAccountId i) of
        None \<Rightarrow> (evaluateStrategyEligibility \<lparr>el_acceptExploratory = er_acceptExploratory i, el_activeRunId = None, el_analysedPostCount = 0,
            el_analyticsDirty = False, el_comparablePostCount = 0, el_primaryMetric = metric_text (er_primaryMetric i),
            el_publicationWeekCount = 0, el_scope = None\<rparr>, None)
      | Some (dirty, scope) \<Rightarrow>
          let loaded = loadStrategyEvidenceCandidates dossiers t ws \<lparr>rq_formatEmphasis = [], rq_instagramAccountId = er_instagramAccountId i,
                rq_pillarEmphasis = [], rq_primaryMetric = er_primaryMetric i\<rparr>
          in (evaluateStrategyEligibility \<lparr>el_acceptExploratory = er_acceptExploratory i, el_activeRunId = map_option lc_analyticsRunId loaded,
              el_analysedPostCount = int (coalesce (map_option lc_analysedPostCount loaded) (countAnalysedPosts t ws (er_instagramAccountId i))),
              el_analyticsDirty = dirty, el_comparablePostCount = int (coalesce (map_option lc_comparablePostCount loaded) 0),
              el_primaryMetric = metric_text (er_primaryMetric i),
              el_publicationWeekCount = int (coalesce (map_option lc_publicationWeekCount loaded) 0), el_scope = Some scope\<rparr>, loaded))"

record request_preview =
  pv_ageWindow :: "age_window option"
  pv_analysedPostCount :: nat
  pv_comparablePostCount :: nat
  pv_mode :: "strategy_mode option"
  pv_publicationWeekCount :: nat
  pv_reason :: "refusal_reason option"
  pv_publishedFrom :: "string option"
  pv_publishedTo :: "string option"

definition previewStrategyRequest :: "(string \<Rightarrow> string option) \<Rightarrow> strategy_tables \<Rightarrow> string \<Rightarrow> eligibility_request \<Rightarrow> request_preview" where
  "previewStrategyRequest dossiers t ws i = (case readEligibility dossiers t ws i of (decision, loaded) \<Rightarrow>
     \<lparr>pv_ageWindow = map_option lc_ageWindow loaded, pv_analysedPostCount = coalesce (map_option lc_analysedPostCount loaded) 0,
      pv_comparablePostCount = coalesce (map_option lc_comparablePostCount loaded) 0,
      pv_mode = (case decision of Eligible m \<Rightarrow> Some m | Not_eligible m _ \<Rightarrow> m),
      pv_publicationWeekCount = coalesce (map_option lc_publicationWeekCount loaded) 0,
      pv_reason = (case decision of Eligible _ \<Rightarrow> None | Not_eligible _ r \<Rightarrow> Some r),
      pv_publishedFrom = map_option (toISOString \<circ> lc_publishedFrom) loaded, pv_publishedTo = map_option (toISOString \<circ> lc_publishedTo) loaded\<rparr>)"

section \<open>Asking\<close>

record generation_input =
  gi_acceptExploratory :: bool
  gi_correlationId :: string
  gi_editorialConstraint :: "string option"
  gi_formatEmphasis :: "string list"
  gi_instagramAccountId :: "string option"
  gi_pillarEmphasis :: "string list"
  gi_primaryMetric :: derived_metric
  gi_regeneratedFromId :: "string option"
  gi_requestedByUserId :: "string option"

definition nextRegenerationOrdinal :: "strategy_tables \<Rightarrow> string \<Rightarrow> string option \<Rightarrow> string \<Rightarrow> bool \<Rightarrow> int" where
  "nextRegenerationOrdinal t ws acc manifestHash regenerate =
     (let previous = filter (\<lambda>g. sg_instagramAccountId g = acc \<and> sg_manifestHash g = manifestHash \<and> sg_workspaceId g = ws) (gt_generations t) in
      if previous = [] then 0
      else let ordinal = Max (set (map sg_regenerationOrdinal previous)) in if regenerate then ordinal + 1 else ordinal)"

text \<open>What a request is once everything is read: refused, or ready to be frozen.\<close>

record prepared_request =
  pr_mode :: strategy_mode
  pr_loaded :: evidence_candidates
  pr_manifest :: frozen_manifest
  pr_ordinal :: int
  pr_signature :: string
  pr_existing :: "strategy_generation option"

datatype preparation = Declined refusal_reason | Prepared prepared_request

record strategy_env =
  se_lib :: uuid_lib
  se_localeCompare :: "string \<Rightarrow> string \<Rightarrow> js_num"
  se_sha256 :: hash
  se_folded :: "string \<Rightarrow> string"
  se_schema :: "js_num js_value \<Rightarrow> string list + strategy"
  se_parse :: "string \<Rightarrow> js_num js_value option"
  se_promptText :: string
  se_businessProfile :: string
  se_responseSchema :: string

definition signature_of :: "strategy_env \<Rightarrow> frozen_manifest \<Rightarrow> int \<Rightarrow> string" where
  "signature_of env m ordinal = createStrategyRequestSignature (se_sha256 env) (fm_manifestHash m) ordinal"

definition prepareStrategyRequest ::
    "strategy_env \<Rightarrow> (string \<Rightarrow> string option) \<Rightarrow> strategy_tables \<Rightarrow> strategy_tables \<Rightarrow> strategy_tables \<Rightarrow> strategy_tables \<Rightarrow> string \<Rightarrow>
     generation_input \<Rightarrow> preparation option" where
  "prepareStrategyRequest env dossiers seenEligible seenEvidence seenOrdinal seenExisting ws i =
     (case readEligibility dossiers seenEligible ws \<lparr>er_acceptExploratory = gi_acceptExploratory i, er_instagramAccountId = gi_instagramAccountId i,
         er_primaryMetric = gi_primaryMetric i\<rparr> of
        (Not_eligible _ reason, _) \<Rightarrow> Some (Declined reason)
      | (Eligible mode, None) \<Rightarrow> Some (Declined RR_no_active_calculation)
      | (Eligible mode, Some _) \<Rightarrow>
          (case loadStrategyEvidenceCandidates dossiers seenEvidence ws \<lparr>rq_formatEmphasis = gi_formatEmphasis i,
              rq_instagramAccountId = gi_instagramAccountId i, rq_pillarEmphasis = gi_pillarEmphasis i, rq_primaryMetric = gi_primaryMetric i\<rparr> of
             None \<Rightarrow> Some (Declined RR_no_active_calculation)
           | Some l \<Rightarrow>
               (case buildStrategyManifest (se_localeCompare env) (se_sha256 env) l \<lparr>mq_editorialConstraint = gi_editorialConstraint i,
                   mq_formatEmphasis = gi_formatEmphasis i, mq_instagramAccountId = gi_instagramAccountId i, mq_mode = mode,
                   mq_pillarEmphasis = gi_pillarEmphasis i, mq_primaryMetric = gi_primaryMetric i\<rparr> of
                  None \<Rightarrow> None  \<comment> \<open>the selection always returns\<close>
                | Some m \<Rightarrow>
                    let ordinal = nextRegenerationOrdinal seenOrdinal ws (gi_instagramAccountId i) (fm_manifestHash m) (gi_regeneratedFromId i \<noteq> None);
                        signature = signature_of env m ordinal
                    in Some (Prepared \<lparr>pr_mode = mode, pr_loaded = l, pr_manifest = m, pr_ordinal = ordinal, pr_signature = signature,
                         pr_existing = find (\<lambda>g. sg_requestSignature g = signature \<and> sg_workspaceId g = ws) (gt_generations seenExisting)\<rparr>))))"

record requested =
  rd_backgroundJobId :: string
  rd_created :: bool
  rd_manifestHash :: string
  rd_mode :: strategy_mode
  rd_strategyGenerationId :: string

definition strategy_job :: "string \<Rightarrow> generation_input \<Rightarrow> string \<Rightarrow> enqueue_input" where
  "strategy_job ws i signature = \<lparr>ei_correlationId = gi_correlationId i, ei_handlerVersion = jint 1,
     ei_idempotencyKey = strategyGenerateKey signature, ei_inputVersion = None, ei_maxAttempts = None, ei_priority = None,
     ei_queueName = ''strategy.generate'',
     ei_resourceId = (case gi_instagramAccountId i of None \<Rightarrow> Some ws | Some a \<Rightarrow> Some a),
     ei_resourceType = (case gi_instagramAccountId i of None \<Rightarrow> Some ''workspace'' | Some _ \<Rightarrow> Some ''instagram_account'')\<rparr>"

definition new_generation :: "string \<Rightarrow> generation_input \<Rightarrow> prepared_request \<Rightarrow> string \<Rightarrow> string \<Rightarrow> time \<Rightarrow> strategy_generation" where
  "new_generation ws i p jobId genId now =
     \<lparr>sg_id = genId, sg_workspaceId = ws, sg_instagramAccountId = gi_instagramAccountId i, sg_backgroundJobId = jobId,
      sg_analyticsRunId = lc_analyticsRunId (pr_loaded p), sg_state = G_PENDING, sg_stage = GS_REQUESTING, sg_mode = pr_mode p,
      sg_primaryMetric = gi_primaryMetric i, sg_ageWindow = lc_ageWindow (pr_loaded p), sg_publishedFrom = lc_publishedFrom (pr_loaded p),
      sg_publishedTo = lc_publishedTo (pr_loaded p), sg_pillarEmphasis = gi_pillarEmphasis i, sg_formatEmphasis = gi_formatEmphasis i,
      sg_editorialConstraint = gi_editorialConstraint i, sg_analysedPostCount = int (lc_analysedPostCount (pr_loaded p)),
      sg_comparablePostCount = int (lc_comparablePostCount (pr_loaded p)), sg_publicationWeekCount = int (lc_publicationWeekCount (pr_loaded p)),
      sg_evidenceCount = int (length (fm_entries (pr_manifest p))),
      sg_postEvidenceCount = int (length (filter (\<lambda>e. ca_evidenceType e = ET_post) (fm_entries (pr_manifest p)))),
      sg_statisticEvidenceCount = int (length (filter (\<lambda>e. ca_evidenceType e = ET_feature_statistic) (fm_entries (pr_manifest p)))),
      sg_estimatedInputTokens = fm_estimatedInputTokens (pr_manifest p), sg_manifestHash = fm_manifestHash (pr_manifest p),
      sg_requestSignature = pr_signature p, sg_regenerationOrdinal = pr_ordinal p,
      sg_regeneratedFromId = (case gi_regeneratedFromId i of Some r \<Rightarrow> if r = [] then None else Some r | None \<Rightarrow> None),
      sg_correlationId = gi_correlationId i,
      sg_requestedByUserId = (case gi_requestedByUserId i of Some u \<Rightarrow> if u = [] then None else Some u | None \<Rightarrow> None),
      sg_requestedAt = now, sg_frozenAt = now, sg_repairAttempted = False, sg_result = None, sg_recommendationFingerprints = [],
      sg_generatedAt = None, sg_completedAt = None, sg_failureClass = None, sg_failureCode = None\<rparr>"

text \<open>The rows a \<open>connect\<close> names.\<close>

definition dependencies_exist :: "strategy_tables \<Rightarrow> strategy_generation \<Rightarrow> bool" where
  "dependencies_exist t g \<longleftrightarrow>
     (case sg_instagramAccountId g of None \<Rightarrow> True | Some a \<Rightarrow> list_ex (\<lambda>r. ac_id r = a \<and> ac_workspaceId r = sg_workspaceId g) (an_accounts (gt_analytics t))) \<and>
     list_ex (\<lambda>r. ar_id r = sg_analyticsRunId g \<and> ar_workspaceId r = sg_workspaceId g) (an_runs (gt_analytics t)) \<and>
     (case sg_requestedByUserId g of None \<Rightarrow> True | Some u \<Rightarrow> (sg_workspaceId g, u) \<in> set (gt_users t)) \<and>
     (case sg_regeneratedFromId g of None \<Rightarrow> True | Some r \<Rightarrow> list_ex (\<lambda>h. sg_id h = r \<and> sg_workspaceId h = sg_workspaceId g) (gt_generations t))"

definition same_generation :: "strategy_generation \<Rightarrow> strategy_generation \<Rightarrow> bool" where
  "same_generation g h \<longleftrightarrow> sg_id g = sg_id h \<or> sg_workspaceId g = sg_workspaceId h \<and>
     (sg_backgroundJobId g = sg_backgroundJobId h \<or> sg_requestSignature g = sg_requestSignature h)"

text \<open>The score column keeps eight places; the digest of the summary is written and read by nothing.\<close>

fun decimal8 :: "js_num \<Rightarrow> js_num" where
  "decimal8 (Num x) = Num (sgn x * (of_int \<lfloor>\<bar>x\<bar> * 10 ^ 8 + 1 / 2\<rfloor> / 10 ^ 8))"
| "decimal8 v = v"

definition writeStrategyEvidence :: "string \<Rightarrow> string \<Rightarrow> entry list \<Rightarrow> evidence_row list" where
  "writeStrategyEvidence ws genId entries = map (\<lambda>e. \<lparr>ev_workspaceId = ws, ev_strategyGenerationId = genId,
     ev_entry = e\<lparr>ca_rankScore := map_option decimal8 (ca_rankScore e)\<rparr>\<rparr>) entries"

datatype freeze_error = Freeze_exn exn | Freeze_prisma string

definition freezeStrategy ::
    "strategy_env \<Rightarrow> strategy_tables database \<Rightarrow> string \<Rightarrow> generation_input \<Rightarrow> prepared_request \<Rightarrow> string \<Rightarrow> string \<Rightarrow> string \<Rightarrow> time \<Rightarrow>
     freeze_error + strategy_tables database \<times> requested" where
  "freezeStrategy env db ws i p jobId outboxId genId now =
     (case enqueueBackgroundJobInTransaction (se_lib env) db ws (strategy_job ws i (pr_signature p)) jobId outboxId now of
        Inl e \<Rightarrow> Inl (Freeze_exn e)
      | Inr (db1, enqueued) \<Rightarrow>
          let t = db_results db1; g = new_generation ws i p (er_jobId enqueued) genId now in
          if \<not> dependencies_exist t g then Inl (Freeze_prisma ''P2025'')
          else if list_ex (same_generation g) (gt_generations t) then Inl (Freeze_prisma ''P2002'')
          else Inr (db1\<lparr>db_results := t\<lparr>gt_generations := gt_generations t @ [g],
                  gt_evidence := gt_evidence t @ writeStrategyEvidence ws genId (fm_entries (pr_manifest p))\<rparr>\<rparr>,
                \<lparr>rd_backgroundJobId = er_jobId enqueued, rd_created = er_created enqueued, rd_manifestHash = fm_manifestHash (pr_manifest p),
                 rd_mode = pr_mode p, rd_strategyGenerationId = genId\<rparr>))"

definition toStrategyRequestError :: "string \<Rightarrow> exn" where
  "toStrategyRequestError code = Exn_operational
     (if code = ''P2021'' \<or> code = ''P2022'' then OperationalError ''STRATEGY_SCHEMA_BEHIND'' Dependency None (jint 503)
      else if code = ''P2025'' then OperationalError ''STRATEGY_REQUEST_DEPENDENCY_MISSING'' Conflict None (jint 409)
      else if code = ''P2024'' \<or> code = ''P2028'' then OperationalError ''STRATEGY_REQUEST_TIMED_OUT'' Dependency (Some True) (jint 503)
      else OperationalError ''STRATEGY_REQUEST_FAILED'' Dependency (Some True) (jint 503))"

definition answer_existing :: "prepared_request \<Rightarrow> strategy_generation \<Rightarrow> requested" where
  "answer_existing p g = \<lparr>rd_backgroundJobId = sg_backgroundJobId g, rd_created = False, rd_manifestHash = fm_manifestHash (pr_manifest p),
     rd_mode = pr_mode p, rd_strategyGenerationId = sg_id g\<rparr>"

text \<open>
  The rest of \<open>requestStrategyGeneration\<close>.  \<open>fault\<close> is the code of another failure of the transaction, if it has
  one: a connection, a column too short for its value, a referenced row that is gone.
\<close>

definition submitStrategyRequest ::
    "strategy_env \<Rightarrow> string option \<Rightarrow> strategy_tables database \<Rightarrow> string \<Rightarrow> generation_input \<Rightarrow> prepared_request \<Rightarrow> string \<Rightarrow> string \<Rightarrow> string \<Rightarrow> time \<Rightarrow>
     (exn + requested) \<times> strategy_tables database" where
  "submitStrategyRequest env fault db ws i p jobId outboxId genId now =
     (case pr_existing p of
        Some g \<Rightarrow> (Inr (answer_existing p g), db)
      | None \<Rightarrow>
          (case (case fault of Some code \<Rightarrow> Inl (Freeze_prisma code) | None \<Rightarrow> freezeStrategy env db ws i p jobId outboxId genId now) of
             Inr (db', r) \<Rightarrow> (Inr r, db')
           | Inl (Freeze_exn e) \<Rightarrow> (Inl e, db)
           | Inl (Freeze_prisma code) \<Rightarrow>
               (if code = ''P2002'' then
                  (case find (\<lambda>g. sg_requestSignature g = pr_signature p \<and> sg_workspaceId g = ws) (gt_generations (db_results db)) of
                     Some g \<Rightarrow> (Inr (answer_existing p g), db)
                   | None \<Rightarrow> (Inl (toStrategyRequestError code), db))
                else (Inl (toStrategyRequestError code), db))))"

section \<open>Reading a frozen request\<close>

record frozen_generation =
  fz_ageWindow :: age_window
  fz_editorialConstraint :: "string option"
  fz_entries :: "entry list"
  fz_id :: string
  fz_instagramAccountId :: "string option"
  fz_manifest :: "manifest_evidence list"
  fz_manifestHash :: string
  fz_mode :: strategy_mode
  fz_primaryMetric :: derived_metric
  fz_publishedFrom :: time
  fz_publishedTo :: time
  fz_recentFingerprints :: "string list"
  fz_repairAttempted :: bool
  fz_state :: generation_state

text \<open>The evidence in the order of the category column, whose values are declared in the order of the categories, and the rank.\<close>

definition read_row :: "evidence_row \<Rightarrow> entry" where
  "read_row r = (ev_entry r)\<lparr>ca_postIds := [], ca_referenceId := None\<rparr>"

definition frozen_entries :: "strategy_tables \<Rightarrow> strategy_generation \<Rightarrow> entry list" where
  "frozen_entries t g = map read_row
     (sort_key (\<lambda>r. (categoryOrder (ca_category (ev_entry r)), en_rank (ev_entry r)))
       (filter (\<lambda>r. ev_strategyGenerationId r = sg_id g \<and> ev_workspaceId r = sg_workspaceId g) (gt_evidence t)))"

definition frozen_evidence :: "strategy_tables \<Rightarrow> strategy_generation \<Rightarrow> manifest_evidence list" where
  "frozen_evidence t g = map toStrategyManifestEvidence (frozen_entries t g)"

definition findStrategyGenerationForJob :: "strategy_tables \<Rightarrow> string \<Rightarrow> string \<Rightarrow> frozen_generation option" where
  "findStrategyGenerationForJob t ws jobId =
     (case find (\<lambda>g. sg_backgroundJobId g = jobId \<and> sg_workspaceId g = ws) (gt_generations t) of
        None \<Rightarrow> None
      | Some g \<Rightarrow> Some \<lparr>fz_ageWindow = sg_ageWindow g, fz_editorialConstraint = sg_editorialConstraint g, fz_entries = frozen_entries t g,
          fz_id = sg_id g, fz_instagramAccountId = sg_instagramAccountId g, fz_manifest = frozen_evidence t g, fz_manifestHash = sg_manifestHash g,
          fz_mode = sg_mode g, fz_primaryMetric = sg_primaryMetric g, fz_publishedFrom = sg_publishedFrom g, fz_publishedTo = sg_publishedTo g,
          fz_recentFingerprints = take 30 (concat (map sg_recommendationFingerprints
            (recent_generations (\<lambda>h. sg_id h \<noteq> sg_id g) t ws (sg_instagramAccountId g)))),
          fz_repairAttempted = sg_repairAttempted g, fz_state = sg_state g\<rparr>)"

definition strategyResultExistsForJob :: "strategy_tables \<Rightarrow> string \<Rightarrow> string \<Rightarrow> bool" where
  "strategyResultExistsForJob t ws jobId =
     list_ex (\<lambda>g. sg_backgroundJobId g = jobId \<and> sg_result g \<noteq> None \<and> sg_workspaceId g = ws) (gt_generations t)"

section \<open>Recording, failing, publishing\<close>

definition recordStrategyStage :: "string \<Rightarrow> string \<Rightarrow> generation_stage \<Rightarrow> bool option \<Rightarrow> strategy_tables \<Rightarrow> strategy_tables" where
  "recordStrategyStage ws genId stage repairAttempted t = t\<lparr>gt_generations := update_many (\<lambda>g. sg_id g = genId \<and> sg_workspaceId g = ws)
     (\<lambda>g. g\<lparr>sg_repairAttempted := coalesce repairAttempted (sg_repairAttempted g), sg_stage := stage, sg_state := G_PROCESSING\<rparr>) (gt_generations t)\<rparr>"

definition failStrategyGeneration :: "string \<Rightarrow> string \<Rightarrow> failure_class \<Rightarrow> string \<Rightarrow> time \<Rightarrow> strategy_tables \<Rightarrow> strategy_tables" where
  "failStrategyGeneration ws genId cls code now t =
     t\<lparr>gt_generations := update_many (\<lambda>g. sg_id g = genId \<and> sg_result g = None \<and> sg_workspaceId g = ws)
       (\<lambda>g. g\<lparr>sg_completedAt := Some now, sg_failureClass := Some cls, sg_failureCode := Some code, sg_state := G_FAILED\<rparr>) (gt_generations t)\<rparr>"

record publish_input =
  pb_generatedAt :: time
  pb_instagramAccountId :: "string option"
  pb_recommendationFingerprints :: "string list"
  pb_result :: strategy
  pb_strategyGenerationId :: string

definition publishStrategyGeneration :: "string \<Rightarrow> publish_input \<Rightarrow> strategy_tables \<Rightarrow> bool \<times> strategy_tables" where
  "publishStrategyGeneration ws p t =
     (if list_ex (\<lambda>g. sg_id g = pb_strategyGenerationId p \<and> sg_result g \<noteq> None \<and> sg_workspaceId g = ws) (gt_generations t) then (False, t)
      else let generations = update_many (\<lambda>g. sg_id g = pb_strategyGenerationId p \<and> sg_workspaceId g = ws)
             (\<lambda>g. g\<lparr>sg_completedAt := Some (pb_generatedAt p), sg_failureClass := None, sg_failureCode := None,
                sg_generatedAt := Some (pb_generatedAt p), sg_recommendationFingerprints := pb_recommendationFingerprints p,
                sg_result := Some (pb_result p), sg_stage := GS_PUBLISHING, sg_state := G_SUCCEEDED\<rparr>) (gt_generations t);
             current = (case pb_instagramAccountId p of None \<Rightarrow> gt_currentStrategy t
               | Some a \<Rightarrow> if list_ex (\<lambda>r. ac_id r = a \<and> ac_workspaceId r = ws) (an_accounts (gt_analytics t))
                   then (gt_currentStrategy t)((ws, a) \<mapsto> pb_strategyGenerationId p) else gt_currentStrategy t)
           in (True, t\<lparr>gt_generations := generations, gt_currentStrategy := current\<rparr>))"

section \<open>The handler\<close>

datatype provider_answer = PA_text string | PA_failed job_failure | PA_raised exn

definition strategy_failure :: "failure_class \<Rightarrow> string \<Rightarrow> job_failure" where
  "strategy_failure cls code = \<lparr>jf_credentialRecoverable = None, jf_errorClass = cls, jf_errorCode = code, jf_providerRetryAfterMs = None\<rparr>"

text \<open>Only the scope of the identity is rendered.\<close>

definition prompt_identity :: "frozen_generation \<Rightarrow> manifest_identity" where
  "prompt_identity g = \<lparr>mi_ageWindow = age_window_text (fz_ageWindow g), mi_analysisSchemaVersion = [], mi_analyticsRunId = [], mi_analyticsVersion = [],
     mi_cohortVersion = [], mi_editorialConstraint = None, mi_formatEmphasis = [], mi_instagramAccountId = fz_instagramAccountId g,
     mi_mode = fz_mode g, mi_pillarEmphasis = [], mi_primaryMetric = fz_primaryMetric g, mi_publishedFrom = toISOString (fz_publishedFrom g),
     mi_publishedTo = toISOString (fz_publishedTo g), mi_statisticsVersion = []\<rparr>"

definition createStrategyInstruction :: "strategy_env \<Rightarrow> strategy_mode \<Rightarrow> string" where
  "createStrategyInstruction env mode = se_promptText env @ newline @ newline @ se_businessProfile env @ newline @ newline @
     ''This request is mode='' @ mode_text mode @
     ''. Apply that mode's rules exactly. Do not return the mode or the schema version; the caller records both.'' @ newline @ newline @
     ''Return only a single JSON object conforming to this JSON Schema. Emit every required property. Do not wrap the response in markdown or prose.'' @
     newline @ newline @ se_responseSchema env"

definition strategy_instruction :: "strategy_env \<Rightarrow> frozen_generation \<Rightarrow> string" where
  "strategy_instruction env g = createStrategyInstruction env (fz_mode g) @
     (case fz_editorialConstraint g of None \<Rightarrow> [] | Some c \<Rightarrow> newline @ newline @ ''Editorial constraint from the account owner: '' @ c) @
     newline @ newline @ renderStrategyManifest (prompt_identity g) (fz_entries g)"

definition strategy_context_of :: "frozen_generation \<Rightarrow> strategy_context" where
  "strategy_context_of g = \<lparr>vc_mode = fz_mode g, vc_manifest = fz_manifest g, vc_recentFingerprints = fz_recentFingerprints g\<rparr>"

text \<open>One ask: an exception, which may be the provider's, or what the validator says of the answer.\<close>

definition requestStrategy ::
    "strategy_env \<Rightarrow> (string \<Rightarrow> provider_answer) \<Rightarrow> frozen_generation \<Rightarrow> (bool \<times> exn) + (issue list + strategy)" where
  "requestStrategy env gemini g = (case gemini (strategy_instruction env g) of
       PA_failed f \<Rightarrow> Inl (True, Exn_handler f)
     | PA_raised e \<Rightarrow> Inl (False, e)
     | PA_text s \<Rightarrow>
         (case se_parse env s of
            None \<Rightarrow> Inl (False, Exn_handler (strategy_failure SEMANTIC_OUTPUT ''STRATEGY_RESPONSE_NOT_JSON''))
          | Some v \<Rightarrow>
              (case validateStrategyV1 (se_schema env) (se_folded env) (completeStrategyV1 v (fz_mode g)) (strategy_context_of g) of
                 Inl e \<Rightarrow> Inl (False, e)
               | Inr outcome \<Rightarrow> Inr outcome)))"

datatype strategy_store = Store_stage string generation_stage "bool option" | Store_fail string failure_class string

text \<open>The answers of the first ask and of the repair are those of \<open>gemini 0\<close> and \<open>gemini 1\<close>.\<close>

definition ask_and_repair :: "strategy_env \<Rightarrow> (nat \<Rightarrow> string \<Rightarrow> provider_answer) \<Rightarrow> frozen_generation \<Rightarrow>
    strategy_store list \<times> ((bool \<times> exn) + (issue list + strategy))" where
  "ask_and_repair env gemini g = (case requestStrategy env (gemini 0) g of
       Inr (Inl issues) \<Rightarrow> if \<not> fz_repairAttempted g
         then ([Store_stage (fz_id g) GS_REQUESTING None, Store_stage (fz_id g) GS_REPAIRING (Some True)], requestStrategy env (gemini 1) g)
         else ([Store_stage (fz_id g) GS_REQUESTING None], Inr (Inl issues))
     | r \<Rightarrow> ([Store_stage (fz_id g) GS_REQUESTING None], r))"

definition generate :: "strategy_env \<Rightarrow> (nat \<Rightarrow> string \<Rightarrow> provider_answer) \<Rightarrow> time \<Rightarrow> strategy_tables \<Rightarrow> string \<Rightarrow> string \<Rightarrow> string \<Rightarrow>
    strategy_store list \<times> (exn + publish_input)" where
  "generate env gemini now t ws jobId correlationId =
     (if parseCorrelationId (Some correlationId) = None then ([], Inl (Exn_handler (strategy_failure INVALID_INPUT ''STRATEGY_CORRELATION_INVALID'')))
      else case findStrategyGenerationForJob t ws jobId of
        None \<Rightarrow> ([], Inl (Exn_handler (strategy_failure INVALID_INPUT ''STRATEGY_GENERATION_MISSING'')))
      | Some g \<Rightarrow>
          if fz_entries g = [] then ([], Inl (Exn_handler (strategy_failure INVALID_INPUT ''STRATEGY_MANIFEST_EMPTY'')))
          else (case ask_and_repair env gemini g of
              (stores, Inl (provider, e)) \<Rightarrow>
                (stores @ (case e of Exn_handler f \<Rightarrow> if provider then [Store_fail (fz_id g) (jf_errorClass f) (jf_errorCode f)] else [] | _ \<Rightarrow> []), Inl e)
            | (stores, Inr (Inl issues)) \<Rightarrow>
                (stores @ [Store_fail (fz_id g) SEMANTIC_OUTPUT ''STRATEGY_RESPONSE_INVALID''],
                 Inl (Exn_handler (strategy_failure SEMANTIC_OUTPUT ''STRATEGY_RESPONSE_INVALID'')))
            | (stores, Inr (Inr x)) \<Rightarrow>
                (stores, Inr \<lparr>pb_generatedAt = now, pb_instagramAccountId = fz_instagramAccountId g,
                   pb_recommendationFingerprints = map (createStrategyRecommendationFingerprint (se_folded env)) (st_recommendations x),
                   pb_result = x, pb_strategyGenerationId = fz_id g\<rparr>)))"

fun apply_store :: "string \<Rightarrow> time \<Rightarrow> strategy_store \<Rightarrow> strategy_tables \<Rightarrow> strategy_tables" where
  "apply_store ws now (Store_stage genId stage repair) t = recordStrategyStage ws genId stage repair t"
| "apply_store ws now (Store_fail genId cls code) t = failStrategyGeneration ws genId cls code now t"

section \<open>What the handler publishes is what the contract allows\<close>

lemma requestStrategy_valid:
  assumes "requestStrategy env ask g = Inr (Inr x)"
  shows "strategy_sound (se_folded env) (strategy_context_of g) x"
proof -
  obtain v where "validateStrategyV1 (se_schema env) (se_folded env) (completeStrategyV1 v (fz_mode g)) (strategy_context_of g) = Inr (Inr x)"
    using assms by (auto simp: requestStrategy_def split: provider_answer.splits option.splits sum.splits)
  then show ?thesis
    by (rule accepted_sound)
qed

lemma ask_and_repair_valid: "ask_and_repair env gemini g = (st, Inr (Inr x)) \<Longrightarrow> strategy_sound (se_folded env) (strategy_context_of g) x"
  unfolding ask_and_repair_def
  by (cases "requestStrategy env (gemini 0) g" rule: sum.exhaust) (auto dest: requestStrategy_valid split: sum.splits if_splits)

lemma generate_publishes:
  assumes "generate env gemini now t ws jobId correlationId = (stores, Inr b)"
  obtains g where "findStrategyGenerationForJob t ws jobId = Some g" "strategy_sound (se_folded env) (strategy_context_of g) (pb_result b)"
    "pb_instagramAccountId b = fz_instagramAccountId g" "pb_strategyGenerationId b = fz_id g"
    "pb_recommendationFingerprints b = map (createStrategyRecommendationFingerprint (se_folded env)) (st_recommendations (pb_result b))"
proof -
  obtain g where g: "findStrategyGenerationForJob t ws jobId = Some g"
    using assms by (auto simp: generate_def split: if_splits option.splits)
  obtain st x where x: "ask_and_repair env gemini g = (st, Inr (Inr x))"
    and b: "b = \<lparr>pb_generatedAt = now, pb_instagramAccountId = fz_instagramAccountId g,
       pb_recommendationFingerprints = map (createStrategyRecommendationFingerprint (se_folded env)) (st_recommendations x),
       pb_result = x, pb_strategyGenerationId = fz_id g\<rparr>"
    using assms by (auto simp: generate_def g split: if_splits prod.splits sum.splits)
  show thesis using that [OF g] ask_and_repair_valid [OF x] by (simp add: b)
qed

section \<open>A preview and the request that follows it\<close>

lemma loader_runs: "loadStrategyEvidenceCandidates dossiers t ws request = None \<longleftrightarrow> active_run t ws (rq_instagramAccountId request) = None"
  by (simp add: loadStrategyEvidenceCandidates_def Let_def split: option.split)

lemma manifest_builds: "\<exists>m. buildStrategyManifest localeCompare sha256 l request = Some m"
proof -
  obtain s where "selectStrategyEvidence localeCompare (lc_candidates l) None = Some s" by (rule selection_form)
  then show ?thesis by (simp add: buildStrategyManifest_def Let_def)
qed

lemma eligible_needs_run: "evaluateStrategyEligibility input = Eligible mode \<Longrightarrow> el_activeRunId input \<noteq> None"
  by (auto simp: evaluateStrategyEligibility_def split: if_splits)

lemma eligible_loaded:
  assumes "readEligibility dossiers t ws i = (Eligible mode, loaded)"
  shows "loaded = loadStrategyEvidenceCandidates dossiers t ws \<lparr>rq_formatEmphasis = [], rq_instagramAccountId = er_instagramAccountId i,
      rq_pillarEmphasis = [], rq_primaryMetric = er_primaryMetric i\<rparr> \<and> loaded \<noteq> None"
  using assms by (auto simp: readEligibility_def Let_def evaluateStrategyEligibility_def split: option.splits prod.splits if_splits)

text \<open>
  A preview and the request made over the same tables agree.  The request is declined exactly when the
  preview has a reason, and for that reason; otherwise it is prepared, in the mode the preview showed,
  over the calculation the preview counted: none of its other exits can be taken.
\<close>

theorem preview_agrees:
  "(case pv_reason (previewStrategyRequest dossiers t ws \<lparr>er_acceptExploratory = gi_acceptExploratory i,
        er_instagramAccountId = gi_instagramAccountId i, er_primaryMetric = gi_primaryMetric i\<rparr>) of
      Some reason \<Rightarrow> prepareStrategyRequest env dossiers t t t t ws i = Some (Declined reason)
    | None \<Rightarrow> \<exists>p. prepareStrategyRequest env dossiers t t t t ws i = Some (Prepared p) \<and>
        pv_mode (previewStrategyRequest dossiers t ws \<lparr>er_acceptExploratory = gi_acceptExploratory i,
          er_instagramAccountId = gi_instagramAccountId i, er_primaryMetric = gi_primaryMetric i\<rparr>) = Some (pr_mode p) \<and>
        map_option ar_id (active_run t ws (gi_instagramAccountId i)) = Some (lc_analyticsRunId (pr_loaded p)))"
  (is "case pv_reason (previewStrategyRequest dossiers t ws ?i) of Some reason \<Rightarrow> _ | None \<Rightarrow> \<exists>p. ?is p \<and> _ p")
proof (cases "readEligibility dossiers t ws ?i")
  case (Pair decision loaded)
  show ?thesis
  proof (cases decision)
    case (Not_eligible mode reason)
    then show ?thesis using Pair by (simp add: previewStrategyRequest_def prepareStrategyRequest_def)
  next
    case (Eligible mode)
    note loaded = eligible_loaded [OF Pair [unfolded Eligible]]
    then have "active_run t ws (gi_instagramAccountId i) \<noteq> None" 
      by (cases "active_run t ws (gi_instagramAccountId i)") (auto simp: loadStrategyEvidenceCandidates_def)
    with loaded obtain l run where l: "loaded = Some l" and run: "active_run t ws (gi_instagramAccountId i) = Some run" by auto
    let ?request = "\<lparr>rq_formatEmphasis = gi_formatEmphasis i, rq_instagramAccountId = gi_instagramAccountId i,
        rq_pillarEmphasis = gi_pillarEmphasis i, rq_primaryMetric = gi_primaryMetric i\<rparr>"
    obtain l' where l': "loadStrategyEvidenceCandidates dossiers t ws ?request = Some l'" "lc_analyticsRunId l' = ar_id run"
      using run by (simp add: loadStrategyEvidenceCandidates_def Let_def)
    let ?mr = "\<lparr>mq_editorialConstraint = gi_editorialConstraint i, mq_formatEmphasis = gi_formatEmphasis i,
        mq_instagramAccountId = gi_instagramAccountId i, mq_mode = mode, mq_pillarEmphasis = gi_pillarEmphasis i, mq_primaryMetric = gi_primaryMetric i\<rparr>"
    obtain m where m: "buildStrategyManifest (se_localeCompare env) (se_sha256 env) l' ?mr = Some m" using manifest_builds by blast
    obtain p where p: "?is p" "pr_mode p = mode" "pr_loaded p = l'"
      using Pair Eligible l l'(1) m by (simp add: prepareStrategyRequest_def Let_def)
    then show ?thesis using Pair Eligible p l'(2) run by (auto simp: previewStrategyRequest_def)
  qed
qed

section \<open>What is frozen is what the run reads\<close>

definition read_back :: "entry \<Rightarrow> entry" where
  "read_back e = e\<lparr>ca_postIds := [], ca_rankScore := map_option decimal8 (ca_rankScore e), ca_referenceId := None\<rparr>"

lemma read_back_simps [simp]:
  "toStrategyManifestEvidence (read_back e) = toStrategyManifestEvidence e" "manifest_line (read_back e) = manifest_line e"
  "note_head (read_back e) = note_head e" "ca_summaryText (read_back e) = ca_summaryText e" "ca_category (read_back e) = ca_category e"
  "en_rank (read_back e) = en_rank e"
  by (simp_all add: read_back_def toStrategyManifestEvidence_def manifest_line_def note_head_def)

lemma render_read_back: "renderStrategyManifest i (map read_back entries) = renderStrategyManifest i entries"
  by (simp add: renderStrategyManifest_def comp_def)

lemma entries_numbered:
  "sorted (map (\<lambda>c. categoryOrder (ca_category c)) cs) \<Longrightarrow>
    sorted (map (\<lambda>e. (categoryOrder (ca_category e), en_rank e)) (number_entries ranks cs))"
proof (induction cs arbitrary: ranks)
  case (Cons c cs)
  obtain R where R: "number_entries ranks (c # cs) =
      candidate.extend c (entry.fields (evidence_key (ca_category c) (ranks (ca_category c))) (ranks (ca_category c))) # number_entries R cs"
    "\<And>k. R k = (if k = ca_category c then ranks k + 1 else ranks k)" by (rule number_entries_Cons [of ranks c cs]) blast
  have "(categoryOrder (ca_category c), ranks (ca_category c)) \<le> (categoryOrder (ca_category e), en_rank e)" if e: "e \<in> set (number_entries R cs)" for e
  proof -
    have "candidate.truncate e \<in> set cs" using e entries_truncate [of R cs] by (metis image_eqI list.set_map)
    then have "ca_category e \<in> ca_category ` set cs" using imageI [of "candidate.truncate e" "set cs" ca_category] by simp
    then have "categoryOrder (ca_category c) \<le> categoryOrder (ca_category e)" using Cons.prems by auto
    moreover have "ranks (ca_category c) \<le> en_rank e" if "ca_category e = ca_category c"
      using entries_ranks [OF e] R(2) [of "ca_category c"] that by simp
    ultimately show ?thesis using categoryOrder_inj by (auto simp: less_eq_prod_def order_less_le)
  qed
  then show ?case unfolding R(1) using Cons by simp
qed simp

lemma entry_selection_of: "es_entries \<lparr>es_entries = number_entries (\<lambda>_. 0) cs, es_trimmed = x\<rparr> = number_entries (\<lambda>_. 0) cs"
  by simp

lemma manifest_entries_numbered:
  assumes "buildStrategyManifest localeCompare sha256 l request = Some m"
  shows "sorted (map (\<lambda>e. (categoryOrder (ca_category e), en_rank e)) (fm_entries m))"
proof -
  obtain s where s: "selectStrategyEvidence localeCompare (lc_candidates l) None = Some s" "fm_entries m = es_entries s"
    using assms by (auto simp: buildStrategyManifest_def Let_def split: option.splits)
  obtain cs where cs: "es_entries s = number_entries (\<lambda>_. 0) cs"
    using s(1) selection_form [of localeCompare "lc_candidates l" None] by (metis entry_selection_of option.inject)
  have "sorted (map (\<lambda>e. categoryOrder (ca_category e)) (map candidate.truncate (es_entries s)))"
    using entries_sorted [OF s(1)] by (simp add: comp_def)
  then have "sorted (map (\<lambda>c. categoryOrder (ca_category c)) cs)" by (simp add: cs)
  then show ?thesis unfolding s(2) cs by (rule entries_numbered)
qed

definition owned :: "evidence_row list \<Rightarrow> strategy_generation list \<Rightarrow> bool" where
  "owned rows gens \<longleftrightarrow> (\<forall>r \<in> set rows. ev_strategyGenerationId r \<in> sg_id ` set gens)"

text \<open>The rows a transaction adds for one generation are its evidence and nobody else's.\<close>

lemma frozen_entries_added:
  assumes "owned (gt_evidence t) (gt_generations t)" "genId \<notin> sg_id ` set (gt_generations t)"
    "gt_evidence t' = gt_evidence t @ writeStrategyEvidence ws genId es"
  shows "sg_id h \<noteq> genId \<Longrightarrow> frozen_entries t' h = frozen_entries t h"
    "sg_id g = genId \<Longrightarrow> sg_workspaceId g = ws \<Longrightarrow> sorted (map (\<lambda>e. (categoryOrder (ca_category e), en_rank e)) es) \<Longrightarrow>
       frozen_entries t' g = map read_back es"
proof -
  show "frozen_entries t' h = frozen_entries t h" if "sg_id h \<noteq> genId"
    using that by (simp add: frozen_entries_def assms(3) writeStrategyEvidence_def filter_map comp_def)
  assume g: "sg_id g = genId" "sg_workspaceId g = ws" and sorted: "sorted (map (\<lambda>e. (categoryOrder (ca_category e), en_rank e)) es)"
  have "filter (\<lambda>r. ev_strategyGenerationId r = genId \<and> ev_workspaceId r = ws) (gt_evidence t) = []"
    using assms(1,2) by (force simp: owned_def filter_empty_conv)
  then have "filter (\<lambda>r. ev_strategyGenerationId r = sg_id g \<and> ev_workspaceId r = sg_workspaceId g) (gt_evidence t') = writeStrategyEvidence ws genId es"
    by (simp add: assms(3) g writeStrategyEvidence_def filter_map comp_def)
  moreover have "sort_key (\<lambda>r. (categoryOrder (ca_category (ev_entry r)), en_rank (ev_entry r))) (writeStrategyEvidence ws genId es) =
      writeStrategyEvidence ws genId es"
    using sorted by (intro sort_key_id_if_sorted) (simp add: writeStrategyEvidence_def comp_def)
  ultimately show "frozen_entries t' g = map read_back es"
    by (simp add: frozen_entries_def writeStrategyEvidence_def comp_def read_row_def read_back_def)
qed

lemma frozen_cases:
  assumes "freezeStrategy env db ws i p jobId outboxId genId now = Inr (db', rd)"
  obtains db1 enqueued where
    "enqueueBackgroundJobInTransaction (se_lib env) db ws (strategy_job ws i (pr_signature p)) jobId outboxId now = Inr (db1, enqueued)"
    "db_results db1 = db_results db" "rd_backgroundJobId rd = er_jobId enqueued" "rd_strategyGenerationId rd = genId"
    "\<not> list_ex (same_generation (new_generation ws i p (er_jobId enqueued) genId now)) (gt_generations (db_results db))"
    "gt_generations (db_results db') = gt_generations (db_results db) @ [new_generation ws i p (er_jobId enqueued) genId now]"
    "gt_evidence (db_results db') = gt_evidence (db_results db) @ writeStrategyEvidence ws genId (fm_entries (pr_manifest p))"
    "gt_currentStrategy (db_results db') = gt_currentStrategy (db_results db)"
proof -
  obtain db1 enqueued where e: "enqueueBackgroundJobInTransaction (se_lib env) db ws (strategy_job ws i (pr_signature p)) jobId outboxId now = Inr (db1, enqueued)"
    using assms by (auto simp: freezeStrategy_def split: sum.splits)
  have r: "db_results db1 = db_results db"
    using e by (auto simp: enqueueBackgroundJobInTransaction_def Let_def split: option.splits if_splits)
  show thesis by (rule that [OF e r]) (use assms e r in \<open>auto simp: freezeStrategy_def Let_def split: if_splits\<close>)
qed

lemma prepared_parts:
  assumes "prepareStrategyRequest env dossiers t1 t2 t3 t4 ws i = Some (Prepared p)"
  obtains "buildStrategyManifest (se_localeCompare env) (se_sha256 env) (pr_loaded p) \<lparr>mq_editorialConstraint = gi_editorialConstraint i,
      mq_formatEmphasis = gi_formatEmphasis i, mq_instagramAccountId = gi_instagramAccountId i, mq_mode = pr_mode p,
      mq_pillarEmphasis = gi_pillarEmphasis i, mq_primaryMetric = gi_primaryMetric i\<rparr> = Some (pr_manifest p)"
    "pr_signature p = signature_of env (pr_manifest p) (pr_ordinal p)"
    "pr_existing p = find (\<lambda>g. sg_requestSignature g = pr_signature p \<and> sg_workspaceId g = ws) (gt_generations t4)"
  using assms by (auto simp: prepareStrategyRequest_def Let_def split: option.splits prod.splits eligibility.splits)

lemma prompt_head:
  assumes "buildStrategyManifest localeCompare sha256 l q = Some m"
    "fz_ageWindow g = lc_ageWindow l" "fz_instagramAccountId g = mq_instagramAccountId q" "fz_primaryMetric g = mq_primaryMetric q"
    "fz_publishedFrom g = lc_publishedFrom l" "fz_publishedTo g = lc_publishedTo l" "fz_entries g = map read_back (fm_entries m)"
  shows "renderStrategyManifest (prompt_identity g) (fz_entries g) = fm_rendered m"
proof -
  have "fm_rendered m = renderStrategyManifest (manifest_identity_of l q) (fm_entries m)"
    using assms(1) by (auto simp: buildStrategyManifest_def Let_def split: option.splits)
  then show ?thesis
    unfolding assms(7) render_read_back by (simp add: renderStrategyManifest_def manifest_head_def prompt_identity_def manifest_identity_of_def assms(2-6))
qed

lemma find_appended: "(\<And>x. x \<in> set xs \<Longrightarrow> \<not> P x) \<Longrightarrow> P y \<Longrightarrow> find P (xs @ [y]) = Some y"
  by (induction xs) auto

lemma frozen_request_found:
  assumes "prepareStrategyRequest env dossiers t1 t2 t3 t4 ws i = Some (Prepared p)"
    "freezeStrategy env db ws i p jobId outboxId genId now = Inr (db', rd)"
    "owned (gt_evidence (db_results db)) (gt_generations (db_results db))"
  obtains g where "findStrategyGenerationForJob (db_results db') ws (rd_backgroundJobId rd) = Some g" "fz_id g = rd_strategyGenerationId rd"
    "fz_mode g = pr_mode p" "fz_manifestHash g = fm_manifestHash (pr_manifest p)"
    "fz_manifest g = map toStrategyManifestEvidence (fm_entries (pr_manifest p))" "fz_entries g = map read_back (fm_entries (pr_manifest p))"
    "renderStrategyManifest (prompt_identity g) (fz_entries g) = fm_rendered (pr_manifest p)"
    "fz_instagramAccountId g = gi_instagramAccountId i" "\<not> fz_repairAttempted g" "fz_editorialConstraint g = gi_editorialConstraint i"
proof (rule prepared_parts [OF assms(1)], rule frozen_cases [OF assms(2)])
  fix db1 enqueued
  let ?g = "new_generation ws i p (er_jobId enqueued) genId now" and ?t = "db_results db'"
  assume m: "buildStrategyManifest (se_localeCompare env) (se_sha256 env) (pr_loaded p) \<lparr>mq_editorialConstraint = gi_editorialConstraint i,
      mq_formatEmphasis = gi_formatEmphasis i, mq_instagramAccountId = gi_instagramAccountId i, mq_mode = pr_mode p,
      mq_pillarEmphasis = gi_pillarEmphasis i, mq_primaryMetric = gi_primaryMetric i\<rparr> = Some (pr_manifest p)"
    and rd: "rd_backgroundJobId rd = er_jobId enqueued" "rd_strategyGenerationId rd = genId"
    and fresh: "\<not> list_ex (same_generation ?g) (gt_generations (db_results db))"
    and gens: "gt_generations ?t = gt_generations (db_results db) @ [?g]"
    and rows: "gt_evidence ?t = gt_evidence (db_results db) @ writeStrategyEvidence ws genId (fm_entries (pr_manifest p))"
  have g: "sg_id ?g = genId" "sg_workspaceId ?g = ws" "sg_backgroundJobId ?g = er_jobId enqueued" by (simp_all add: new_generation_def)
  have new: "genId \<notin> sg_id ` set (gt_generations (db_results db))"
    using fresh by (auto simp: list_ex_iff same_generation_def g)
  have entries: "frozen_entries ?t ?g = map read_back (fm_entries (pr_manifest p))"
    by (rule frozen_entries_added(2) [OF assms(3) new rows g(1,2) manifest_entries_numbered [OF m]])
  have found: "find (\<lambda>g. sg_backgroundJobId g = rd_backgroundJobId rd \<and> sg_workspaceId g = ws) (gt_generations ?t) = Some ?g"
    unfolding gens rd by (rule find_appended) (use fresh in \<open>auto simp: list_ex_iff same_generation_def g\<close>)
  obtain f where f: "findStrategyGenerationForJob ?t ws (rd_backgroundJobId rd) = Some f" "fz_entries f = map read_back (fm_entries (pr_manifest p))"
    "fz_manifest f = map toStrategyManifestEvidence (fm_entries (pr_manifest p))" "fz_id f = genId" "fz_mode f = pr_mode p"
    "fz_manifestHash f = fm_manifestHash (pr_manifest p)" "fz_ageWindow f = lc_ageWindow (pr_loaded p)" "fz_instagramAccountId f = gi_instagramAccountId i"
    "fz_primaryMetric f = gi_primaryMetric i" "fz_publishedFrom f = lc_publishedFrom (pr_loaded p)" "fz_publishedTo f = lc_publishedTo (pr_loaded p)"
    "\<not> fz_repairAttempted f" "fz_editorialConstraint f = gi_editorialConstraint i"
    by (simp add: findStrategyGenerationForJob_def found entries frozen_evidence_def comp_def) (simp add: new_generation_def)
  show thesis by (rule that [OF f(1)]) (use prompt_head [OF m, of f] rd f(2-13) in simp_all)
qed

text \<open>
  What a request freezes is what its run argues from.  Once the transaction has committed, the job it
  enqueued finds a generation with the manifest of the request, in its mode and under its hash, and the
  text rendered for the model from the stored rows is the text the request was measured and hashed with.
\<close>

theorem frozen_manifest_read_back:
  assumes "prepareStrategyRequest env dossiers t1 t2 t3 t4 ws i = Some (Prepared p)"
    "freezeStrategy env db ws i p jobId outboxId genId now = Inr (db', rd)"
    "owned (gt_evidence (db_results db)) (gt_generations (db_results db))"
  shows "\<exists>g. findStrategyGenerationForJob (db_results db') ws (rd_backgroundJobId rd) = Some g \<and>
    fz_id g = rd_strategyGenerationId rd \<and> fz_mode g = pr_mode p \<and> fz_manifestHash g = fm_manifestHash (pr_manifest p) \<and>
    fz_manifest g = map toStrategyManifestEvidence (fm_entries (pr_manifest p)) \<and>
    renderStrategyManifest (prompt_identity g) (fz_entries g) = fm_rendered (pr_manifest p)"
proof -
  obtain g where "findStrategyGenerationForJob (db_results db') ws (rd_backgroundJobId rd) = Some g" "fz_id g = rd_strategyGenerationId rd"
    "fz_mode g = pr_mode p" "fz_manifestHash g = fm_manifestHash (pr_manifest p)"
    "fz_manifest g = map toStrategyManifestEvidence (fm_entries (pr_manifest p))"
    "renderStrategyManifest (prompt_identity g) (fz_entries g) = fm_rendered (pr_manifest p)"
    by (rule frozen_request_found [OF assms])
  then show ?thesis by blast
qed

section \<open>Samples\<close>

definition sample_shares :: "evidence_reference list" where
  "sample_shares = [\<lparr>rf_evidenceId = ''stat_pos_0'', rf_role = ER_supporting, rf_explanation = ''x''\<rparr>]"

definition exploratory_strategy :: strategy where
  "exploratory_strategy = \<lparr>st_mode = SM_exploratory, st_title = ''t'', st_periodSummary = ''Insufficient evidence'',
     st_workingPatterns = [], st_weakPatterns = [], st_testsNext = [],
     st_pillarPlan = [\<lparr>pa_pillar = ''studio_and_team'', pa_allocationPercent = 100, pa_rationale = ''r'', pa_evidence = sample_shares,
       pa_classification = EC_weak_directional_signal, pa_experimental = True\<rparr>],
     st_recommendations = [],
     st_limitations = [\<lparr>li_text = ''l'', li_evidence = [\<lparr>rf_evidenceId = ''quality_0'', rf_role = ER_limitation, rf_explanation = ''x''\<rparr>]\<rparr>]\<rparr>"

definition exploratory_evidence :: "manifest_evidence list" where
  "exploratory_evidence =
     [\<lparr>sm_evidenceId = ''stat_pos_0'', sm_type = ET_feature_statistic, sm_allowedRoles = [ER_supporting, ER_context],
        sm_classification = Some EC_weak_directional_signal, sm_dimensions = [dimensionFor (sv_featurePath sample_statistic_row)], sm_sampleSize = Some 1,
        sm_allowedNumericClaims = [], sm_requiredInLimitations = False\<rparr>,
      \<lparr>sm_evidenceId = ''quality_0'', sm_type = ET_data_quality, sm_allowedRoles = [ER_limitation], sm_classification = None, sm_dimensions = [],
        sm_sampleSize = Some 1, sm_allowedNumericClaims = [''1'', ''1''], sm_requiredInLimitations = True\<rparr>]"

definition strategy_sample_env :: strategy_env where
  "strategy_sample_env = \<lparr>se_lib = \<lparr>ul_validate = \<lambda>_. True, ul_version = \<lambda>_. 7\<rparr>, se_localeCompare = numbered_compare, se_sha256 = \<lambda>_. [], se_folded = \<lambda>s. s,
     se_schema = \<lambda>_. Inr exploratory_strategy, se_parse = \<lambda>_. Some js_value.JNull, se_promptText = [],
     se_businessProfile = [], se_responseSchema = []\<rparr>"

definition sample_input :: generation_input where
  "sample_input = \<lparr>gi_acceptExploratory = True, gi_correlationId = ''01990000-0000-7000-8000-000000000003'', gi_editorialConstraint = None,
     gi_formatEmphasis = [], gi_instagramAccountId = None, gi_pillarEmphasis = [], gi_primaryMetric = share_rate_reach, gi_regeneratedFromId = None,
     gi_requestedByUserId = None\<rparr>"

definition sample_db :: "strategy_tables database" where
  "sample_db = \<lparr>db_online = True, db_jobs = [], db_attempts = [], db_outbox = [], db_audit = [], db_users = [], db_analysisJobs = [],
     db_results = sample_strategy_tables\<rparr>"

lemma digit_chars: "char_of (48 :: nat) = CHR ''0''" "char_of (49 :: nat) = CHR ''1''"
  by code_simp+

lemma exploratory_entries: "map toStrategyManifestEvidence (number_entries (\<lambda>_. 0)
    [statistic_candidate sample_statistic_row, coverage_candidate share_rate_reach W_mature 1 1]) = exploratory_evidence"
  by (simp add: exploratory_evidence_def toStrategyManifestEvidence_def Let_def evidence_key_def statistic_candidate_def sample_statistic_row_def
    coverage_candidate_def undercuts_def candidate.extend_def entry.defs nat_digits.simps int_text_def digit_chars)

lemma sample_input_account: "gi_instagramAccountId sample_input = None"
  by (simp add: sample_input_def)

lemma exploratory_manifest: "createManifestMap [] exploratory_evidence = None"
  by code_simp

lemma exploratory_cites:
  "cites_ok exploratory_evidence sample_shares"
  "cites_ok exploratory_evidence [\<lparr>rf_evidenceId = ''quality_0'', rf_role = ER_limitation, rf_explanation = ''x''\<rparr>]"
  "hd exploratory_evidence \<in> cited exploratory_evidence sample_shares" "statistic (hd exploratory_evidence)"
  "sm_classification (hd exploratory_evidence) = Some EC_weak_directional_signal"
  by (simp_all add: cites_ok_def exploratory_evidence_def sample_shares_def cited_def statistic_def)

lemma exploratory_ceiling: "within_ceiling (cited exploratory_evidence sample_shares) EC_weak_directional_signal False False"
proof -
  have "EC_weak_directional_signal \<in> set empiricalClaimClasses" by (simp add: empiricalClaimClasses_def)
  then show ?thesis unfolding within_ceiling_def using exploratory_cites(3-5) by (metis option.sel order_refl)
qed

lemma exploratory_limited:
  "limitations_sound exploratory_evidence [\<lparr>li_text = ''l'', li_evidence = [\<lparr>rf_evidenceId = ''quality_0'', rf_role = ER_limitation, rf_explanation = ''x''\<rparr>]\<rparr>]"
  using exploratory_cites(2) by (simp add: limitations_sound_def) (simp add: exploratory_evidence_def)

lemma exploratory_sound_sample:
  "strategy_sound (\<lambda>s. s) \<lparr>vc_mode = SM_exploratory, vc_manifest = exploratory_evidence, vc_recentFingerprints = recent\<rparr> exploratory_strategy"
proof -
  have "leads_with_insufficiency ''Insufficient evidence''" by code_simp
  moreover have "exploratory_evidence \<noteq> []" by (simp add: exploratory_evidence_def)
  ultimately show ?thesis using exploratory_cites(1) exploratory_ceiling exploratory_limited
    by (simp add: strategy_sound_def exploratory_strategy_def allocation_sound_def exploratory_sound_def)
qed

lemma sample_prepared:
  obtains p where "prepareStrategyRequest strategy_sample_env (\<lambda>_. Some ''d'') sample_strategy_tables sample_strategy_tables sample_strategy_tables sample_strategy_tables ''w'' sample_input = Some (Prepared p)"
    "pr_mode p = SM_exploratory" "pr_existing p = None" "map toStrategyManifestEvidence (fm_entries (pr_manifest p)) = exploratory_evidence"
    "pr_signature p = []" "lc_analyticsRunId (pr_loaded p) = ''n''"
proof -
  obtain l where l: "loadStrategyEvidenceCandidates (\<lambda>_. Some ''d'') sample_strategy_tables ''w'' sample_evidence_request = Some l"
    "lc_candidates l = [statistic_candidate sample_statistic_row,
       post_candidate (\<lambda>_. Some ''d'') sample_evidence_request 0 sample_analysed_post (the (ap_currentAnalysis sample_analysed_post)),
       coverage_candidate share_rate_reach W_mature 1 1]" "lc_analysedPostCount l = 1" "lc_comparablePostCount l = 1" "lc_analyticsRunId l = ''n''"
    by (rule sample_loaded) blast
  obtain s where s: "selectStrategyEvidence numbered_compare (lc_candidates l) None = Some s"
    "es_entries s = number_entries (\<lambda>_. 0) [statistic_candidate sample_statistic_row, coverage_candidate share_rate_reach W_mature 1 1]"
    by (rule sample_statistic_selected [OF l(2), of None]) (simp add: strategyInputTokenBudget_def)
  have loaded: "loadStrategyEvidenceCandidates (\<lambda>_. Some ''d'') sample_strategy_tables ''w''
      \<lparr>rq_formatEmphasis = [], rq_instagramAccountId = None, rq_pillarEmphasis = [], rq_primaryMetric = share_rate_reach\<rparr> = Some l"
    using l(1) by (simp only: sample_evidence_request_def)
  have "resolveScope sample_strategy_tables ''w'' None = Some (False, On_pooled)"
    by (simp add: resolveScope_def sample_strategy_tables_def count_many_def)
  then have eligible: "readEligibility (\<lambda>_. Some ''d'') sample_strategy_tables ''w''
      \<lparr>er_acceptExploratory = True, er_instagramAccountId = None, er_primaryMetric = share_rate_reach\<rparr> = (Eligible SM_exploratory, Some l)"
    using l(3-5) by (simp add: readEligibility_def loaded Let_def evaluateStrategyEligibility_def derivedMetrics_def)
  let ?q = "\<lparr>mq_editorialConstraint = None, mq_formatEmphasis = [], mq_instagramAccountId = None, mq_mode = SM_exploratory, mq_pillarEmphasis = [],
      mq_primaryMetric = share_rate_reach\<rparr>"
  obtain m where m: "buildStrategyManifest numbered_compare (\<lambda>_. []) l ?q = Some m" "fm_entries m = es_entries s"
    by (simp add: buildStrategyManifest_def s(1) Let_def)
  have none: "gt_generations sample_strategy_tables = []" by (simp add: sample_strategy_tables_def)
  show thesis
    by (rule that [of "\<lparr>pr_mode = SM_exploratory, pr_loaded = l, pr_manifest = m, pr_ordinal = 0, pr_signature = [], pr_existing = None\<rparr>"])
      (simp_all add: prepareStrategyRequest_def sample_input_def strategy_sample_env_def eligible loaded m s(2) exploratory_entries nextRegenerationOrdinal_def none
        signature_of_def createStrategyRequestSignature_def digest_hex_def hex_text_def l(5) exploratory_entries [unfolded One_nat_def] del: number_entries.simps)
qed

lemma sample_frozen:
  assumes "prepareStrategyRequest strategy_sample_env (\<lambda>_. Some ''d'') sample_strategy_tables sample_strategy_tables sample_strategy_tables sample_strategy_tables ''w'' sample_input = Some (Prepared p)"
    "pr_signature p = []" "lc_analyticsRunId (pr_loaded p) = ''n''"
  obtains db rd where "freezeStrategy strategy_sample_env sample_db ''w'' sample_input p ''j'' ''o'' ''g'' 0 = Inr (db, rd)" "rd_backgroundJobId rd = ''j''"
    "rd_strategyGenerationId rd = ''g''" "rd_created rd"
proof -
  have "safe_key 254 ''strategy-generate-''" "uuid_pattern (gi_correlationId sample_input)" "parseCorrelationId (Some (gi_correlationId sample_input)) \<noteq> None"
    "trim ''strategy-generate-'' = ''strategy-generate-''" "isQueueName ''strategy.generate''" "trim ''workspace'' = ''workspace''" "safe_lower_name ''workspace''"
    by code_simp+
  moreover have "gi_instagramAccountId sample_input = None" "gi_requestedByUserId sample_input = None" "gi_regeneratedFromId sample_input = None"
    by (simp_all add: sample_input_def)
  ultimately show thesis
    using that assms(2,3)
    by (simp add: freezeStrategy_def enqueueBackgroundJobInTransaction_def validateEnqueue_def strategy_job_def strategyGenerateKey_def Let_def strategy_sample_env_def
      isUuidV7_def sample_db_def insert_job_def new_job_def same_job_key_def idempotency_conflict_def sample_strategy_tables_def dependencies_exist_def
      new_generation_def maxSafe_def jint_def jgt_def)
qed

theorem frozen_manifest_read_back_witness:
  "\<exists>p db rd g. freezeStrategy strategy_sample_env sample_db ''w'' sample_input p ''j'' ''o'' ''g'' 0 = Inr (db, rd) \<and>
     findStrategyGenerationForJob (db_results db) ''w'' ''j'' = Some g \<and> fz_manifest g = exploratory_evidence"
proof -
  obtain p where p: "prepareStrategyRequest strategy_sample_env (\<lambda>_. Some ''d'') sample_strategy_tables sample_strategy_tables sample_strategy_tables sample_strategy_tables ''w'' sample_input = Some (Prepared p)"
    "map toStrategyManifestEvidence (fm_entries (pr_manifest p)) = exploratory_evidence" "pr_signature p = []" "lc_analyticsRunId (pr_loaded p) = ''n''"
    by (rule sample_prepared)
  obtain db rd where f: "freezeStrategy strategy_sample_env sample_db ''w'' sample_input p ''j'' ''o'' ''g'' 0 = Inr (db, rd)" "rd_backgroundJobId rd = ''j''"
    "rd_strategyGenerationId rd = ''g''" "rd_created rd" by (rule sample_frozen [OF p(1,3,4)])
  have "owned (gt_evidence (db_results sample_db)) (gt_generations (db_results sample_db))" by (simp add: owned_def sample_db_def sample_strategy_tables_def)
  from frozen_manifest_read_back [OF p(1) f(1) this] show ?thesis using f(1,2) p(2) by auto
qed

end
