(* ===== verification/Strategy_System.thy ===== *)
theory Strategy_System
  imports Strategy_Generation
begin

text \<open>
  Strategy requests, runs and publications interleaved with each other and with everything else the
  application does.  A state is the database with what is under way: the states a reader may have seen, the
  stores and publications of the runs, and the answers requests were given.
\<close>

section \<open>What a store may change\<close>

text \<open>A generation as it was asked for, without what its run records.\<close>

definition as_asked :: "strategy_generation \<Rightarrow> strategy_generation" where
  "as_asked g = g\<lparr>sg_state := G_PENDING, sg_stage := GS_REQUESTING, sg_repairAttempted := False, sg_result := None, sg_recommendationFingerprints := [],
     sg_generatedAt := None, sg_completedAt := None, sg_failureClass := None, sg_failureCode := None\<rparr>"

definition keeps :: "strategy_generation \<Rightarrow> strategy_generation \<Rightarrow> bool" where
  "keeps h g \<longleftrightarrow> as_asked g = as_asked h \<and>
     (sg_result h \<noteq> None \<longrightarrow> sg_result g = sg_result h \<and> sg_recommendationFingerprints g = sg_recommendationFingerprints h)"

definition grows :: "strategy_tables \<Rightarrow> strategy_tables \<Rightarrow> bool" where
  "grows t t' \<longleftrightarrow> (\<forall>h \<in> set (gt_generations t). \<exists>g \<in> set (gt_generations t'). keeps h g \<and> frozen_entries t' g = frozen_entries t h)"

lemma as_asked_fields:
  assumes "as_asked g = as_asked h"
  shows "sg_id g = sg_id h" "sg_workspaceId g = sg_workspaceId h" "sg_instagramAccountId g = sg_instagramAccountId h"
    "sg_backgroundJobId g = sg_backgroundJobId h" "sg_mode g = sg_mode h" "sg_requestSignature g = sg_requestSignature h"
    "sg_manifestHash g = sg_manifestHash h" "sg_regenerationOrdinal g = sg_regenerationOrdinal h"
proof -
  show "sg_id g = sg_id h" using arg_cong [OF assms, of sg_id] by (simp add: as_asked_def)
  show "sg_workspaceId g = sg_workspaceId h" using arg_cong [OF assms, of sg_workspaceId] by (simp add: as_asked_def)
  show "sg_instagramAccountId g = sg_instagramAccountId h" using arg_cong [OF assms, of sg_instagramAccountId] by (simp add: as_asked_def)
  show "sg_backgroundJobId g = sg_backgroundJobId h" using arg_cong [OF assms, of sg_backgroundJobId] by (simp add: as_asked_def)
  show "sg_mode g = sg_mode h" using arg_cong [OF assms, of sg_mode] by (simp add: as_asked_def)
  show "sg_requestSignature g = sg_requestSignature h" using arg_cong [OF assms, of sg_requestSignature] by (simp add: as_asked_def)
  show "sg_manifestHash g = sg_manifestHash h" using arg_cong [OF assms, of sg_manifestHash] by (simp add: as_asked_def)
  show "sg_regenerationOrdinal g = sg_regenerationOrdinal h" using arg_cong [OF assms, of sg_regenerationOrdinal] by (simp add: as_asked_def)
qed

lemma keeps_asked: "keeps h g \<Longrightarrow> as_asked g = as_asked h"
  by (simp add: keeps_def)

lemma keeps_refl [simp]: "keeps g g"
  by (simp add: keeps_def)

lemma keeps_trans: "keeps a b \<Longrightarrow> keeps b c \<Longrightarrow> keeps a c"
  by (auto simp: keeps_def)

lemma grows_refl [simp]: "grows t t"
  unfolding grows_def using keeps_refl by blast

lemma grows_trans:
  assumes "grows a b" "grows b c"
  shows "grows a c"
  unfolding grows_def
proof
  fix h assume "h \<in> set (gt_generations a)"
  then obtain g where g: "g \<in> set (gt_generations b)" "keeps h g" "frozen_entries b g = frozen_entries a h" using assms(1) unfolding grows_def by blast
  obtain k where "k \<in> set (gt_generations c)" "keeps g k" "frozen_entries c k = frozen_entries b g" using g(1) assms(2) unfolding grows_def by blast
  then show "\<exists>g \<in> set (gt_generations c). keeps h g \<and> frozen_entries c g = frozen_entries a h" using g keeps_trans by metis
qed

lemma frozen_entries_same:
  assumes "gt_evidence t' = gt_evidence t" "as_asked g = as_asked h"
  shows "frozen_entries t' g = frozen_entries t h"
  unfolding frozen_entries_def assms(1) as_asked_fields(1,2) [OF assms(2)] ..

text \<open>A table of generations updated in place.\<close>

lemma grows_update:
  assumes "gt_generations t' = update_many P f (gt_generations t)" "gt_evidence t' = gt_evidence t"
    "\<And>g. g \<in> set (gt_generations t) \<Longrightarrow> P g \<Longrightarrow> keeps g (f g)"
  shows "grows t t'"
  unfolding grows_def
proof
  fix h assume h: "h \<in> set (gt_generations t)"
  let ?g = "if P h then f h else h"
  have k: "keeps h ?g" using assms(3) [OF h] by simp
  moreover have "?g \<in> set (gt_generations t')" using h by (auto simp: assms(1) update_many_def)
  ultimately show "\<exists>g \<in> set (gt_generations t'). keeps h g \<and> frozen_entries t' g = frozen_entries t h"
    using frozen_entries_same [OF assms(2) keeps_asked [OF k]] by blast
qed

section \<open>Tables in order\<close>

text \<open>The manifest a generation was frozen with.\<close>

definition frozen_with :: "strategy_env \<Rightarrow> strategy_tables \<Rightarrow> strategy_generation \<Rightarrow> frozen_manifest \<Rightarrow> bool" where
  "frozen_with env t g m \<longleftrightarrow> (\<exists>l q. buildStrategyManifest (se_localeCompare env) (se_sha256 env) l q = Some m) \<and>
     frozen_entries t g = map read_back (fm_entries m) \<and> sg_manifestHash g = fm_manifestHash m \<and>
     sg_requestSignature g = signature_of env m (sg_regenerationOrdinal g)"

definition strategy_tables_ok :: "strategy_env \<Rightarrow> strategy_tables \<Rightarrow> bool" where
  "strategy_tables_ok env t \<longleftrightarrow> distinct (map sg_id (gt_generations t)) \<and>
     distinct (map (\<lambda>g. (sg_workspaceId g, sg_requestSignature g)) (gt_generations t)) \<and>
     distinct (map (\<lambda>g. (sg_workspaceId g, sg_backgroundJobId g)) (gt_generations t)) \<and>
     owned (gt_evidence t) (gt_generations t) \<and> (\<forall>g \<in> set (gt_generations t). \<exists>m. frozen_with env t g m)"

lemma strategy_tables_ok_unique:
  assumes "strategy_tables_ok env t" "g \<in> set (gt_generations t)" "h \<in> set (gt_generations t)" "sg_id g = sg_id h"
  shows "g = h"
  using assms by (auto simp: strategy_tables_ok_def distinct_map dest: inj_onD)

lemma frozen_with_asked:
  assumes "as_asked g = as_asked h" "frozen_entries t' g = frozen_entries t h"
  shows "frozen_with env t' g m = frozen_with env t h m"
  unfolding frozen_with_def assms(2) as_asked_fields(6-8) [OF assms(1)] ..

lemma map_update_many:
  assumes "\<And>g. as_asked (f g) = as_asked g" "\<And>g h. as_asked g = as_asked h \<Longrightarrow> k g = k h"
  shows "map k (update_many P f gs) = map k gs"
proof -
  have "k (f g) = k g" for g by (rule assms(2) [OF assms(1)])
  then show ?thesis by (simp add: update_many_def)
qed

lemma strategy_tables_ok_update:
  assumes "strategy_tables_ok env t" "gt_generations t' = update_many P f (gt_generations t)" "gt_evidence t' = gt_evidence t" "\<And>g. as_asked (f g) = as_asked g"
  shows "strategy_tables_ok env t'"
proof -
  note same = map_update_many [of f, OF assms(4), of _ P "gt_generations t", folded assms(2)]
  have ids: "map sg_id (gt_generations t') = map sg_id (gt_generations t)" by (rule same) (rule as_asked_fields)
  have sigs: "map (\<lambda>g. (sg_workspaceId g, sg_requestSignature g)) (gt_generations t') = map (\<lambda>g. (sg_workspaceId g, sg_requestSignature g)) (gt_generations t)"
    by (rule same) (use as_asked_fields(2,6) in blast)
  have jobs: "map (\<lambda>g. (sg_workspaceId g, sg_backgroundJobId g)) (gt_generations t') = map (\<lambda>g. (sg_workspaceId g, sg_backgroundJobId g)) (gt_generations t)"
    by (rule same) (use as_asked_fields(2,4) in blast)
  have "\<exists>m. frozen_with env t' g m" if g: "g \<in> set (gt_generations t')" for g
  proof -
    from g obtain h where h: "h \<in> set (gt_generations t)" "as_asked g = as_asked h"
      using assms(4) by (auto simp: assms(2) update_many_def)
    then obtain m where "frozen_with env t h m" using assms(1) unfolding strategy_tables_ok_def by blast
    then show ?thesis using frozen_with_asked [OF h(2) frozen_entries_same [OF assms(3) h(2)]] by blast
  qed
  moreover have "sg_id ` set (gt_generations t') = sg_id ` set (gt_generations t)"
    using arg_cong [OF ids, of set] by simp
  ultimately show ?thesis
    using assms(1) unfolding strategy_tables_ok_def owned_def assms(3) ids sigs jobs by simp
qed

text \<open>A freeze adds one generation, with the manifest it was made from.\<close>

lemma strategy_tables_ok_freeze:
  assumes ok: "strategy_tables_ok env (db_results db)"
    and p: "prepareStrategyRequest env dossiers t1 t2 t3 t4 ws i = Some (Prepared p)"
    and frozen: "freezeStrategy env db ws i p jobId outboxId genId now = Inr (db', rd)"
  shows "strategy_tables_ok env (db_results db') \<and> grows (db_results db) (db_results db') \<and>
    gt_currentStrategy (db_results db') = gt_currentStrategy (db_results db) \<and>
    (\<exists>g. gt_generations (db_results db') = gt_generations (db_results db) @ [g] \<and> sg_result g = None \<and> sg_id g = rd_strategyGenerationId rd \<and>
      sg_workspaceId g = ws \<and> sg_requestSignature g = pr_signature p \<and> sg_backgroundJobId g = rd_backgroundJobId rd)"
proof (rule prepared_parts [OF p], rule frozen_cases [OF frozen])
  fix db1 enqueued
  let ?g = "new_generation ws i p (er_jobId enqueued) genId now" and ?t = "db_results db" and ?t' = "db_results db'"
  assume m: "buildStrategyManifest (se_localeCompare env) (se_sha256 env) (pr_loaded p) \<lparr>mq_editorialConstraint = gi_editorialConstraint i,
      mq_formatEmphasis = gi_formatEmphasis i, mq_instagramAccountId = gi_instagramAccountId i, mq_mode = pr_mode p,
      mq_pillarEmphasis = gi_pillarEmphasis i, mq_primaryMetric = gi_primaryMetric i\<rparr> = Some (pr_manifest p)"
    and signature: "pr_signature p = signature_of env (pr_manifest p) (pr_ordinal p)"
    and rd: "rd_backgroundJobId rd = er_jobId enqueued" "rd_strategyGenerationId rd = genId"
    and fresh: "\<not> list_ex (same_generation ?g) (gt_generations ?t)"
    and gens: "gt_generations ?t' = gt_generations ?t @ [?g]"
    and rows: "gt_evidence ?t' = gt_evidence ?t @ writeStrategyEvidence ws genId (fm_entries (pr_manifest p))"
    and current: "gt_currentStrategy ?t' = gt_currentStrategy ?t"
  have g: "sg_id ?g = genId" "sg_workspaceId ?g = ws" "sg_backgroundJobId ?g = er_jobId enqueued" "sg_requestSignature ?g = pr_signature p"
    "sg_manifestHash ?g = fm_manifestHash (pr_manifest p)" "sg_regenerationOrdinal ?g = pr_ordinal p" "sg_result ?g = None"
    by (simp_all add: new_generation_def)
  have owned: "owned (gt_evidence ?t) (gt_generations ?t)" using ok by (simp add: strategy_tables_ok_def)
  have new: "genId \<notin> sg_id ` set (gt_generations ?t)"
    "(ws, pr_signature p) \<notin> (\<lambda>g. (sg_workspaceId g, sg_requestSignature g)) ` set (gt_generations ?t)"
    "(ws, er_jobId enqueued) \<notin> (\<lambda>g. (sg_workspaceId g, sg_backgroundJobId g)) ` set (gt_generations ?t)"
    using fresh by (auto simp: list_ex_iff same_generation_def g)
  note entries = frozen_entries_added [OF owned new(1) rows]
  have old: "frozen_entries ?t' h = frozen_entries ?t h" if "h \<in> set (gt_generations ?t)" for h
    using entries(1) [of h] new(1) that by blast
  have "frozen_with env ?t' ?g (pr_manifest p)"
    unfolding frozen_with_def g(4-6) using m signature entries(2) [of ?g, OF g(1,2) manifest_entries_numbered [OF m]] by blast
  moreover have "\<exists>m. frozen_with env ?t' h m" if h: "h \<in> set (gt_generations ?t)" for h
  proof -
    obtain m where "frozen_with env ?t h m" using ok h unfolding strategy_tables_ok_def by blast
    then show ?thesis using frozen_with_asked [OF refl old [OF h]] by blast
  qed
  moreover have "owned (gt_evidence ?t') (gt_generations ?t')"
    using owned by (auto simp: owned_def rows gens g writeStrategyEvidence_def)
  ultimately have "strategy_tables_ok env ?t'"
    using ok new unfolding strategy_tables_ok_def by (auto simp: gens g)
  moreover have "grows ?t ?t'" unfolding grows_def using old gens by (metis Un_iff keeps_refl set_append)
  ultimately show ?thesis using current gens g rd by simp
qed

section \<open>The system\<close>

record strategy_sys =
  gs_db :: "strategy_tables database"
  gs_seen :: "strategy_tables set"
  gs_stores :: "(string \<times> strategy_store) set"
  gs_publications :: "(string \<times> publish_input) set"
  gs_answers :: "(string \<times> string \<times> requested) set"

text \<open>The database after a step, which readers may now see.\<close>

definition strategy_moved :: "strategy_tables database \<Rightarrow> strategy_sys \<Rightarrow> strategy_sys" where
  "strategy_moved db s = s\<lparr>gs_db := db, gs_seen := insert (db_results db) (gs_seen s)\<rparr>"

text \<open>
  A request reads four states and writes in a fifth; a run reads one state, and what it stores and
  publishes arrives later, in any order and any number of times, which is more than the leases of the job
  engine let through.  \<open>elsewhere\<close> is the rest of the application, which writes none of these three tables.
\<close>

inductive strategy_step :: "strategy_env \<Rightarrow> (string \<Rightarrow> string option) \<Rightarrow> strategy_sys \<Rightarrow> strategy_sys \<Rightarrow> bool" for env dossiers where
  ask: "t1 \<in> gs_seen s \<Longrightarrow> t2 \<in> gs_seen s \<Longrightarrow> t3 \<in> gs_seen s \<Longrightarrow> t4 \<in> gs_seen s \<Longrightarrow> prepareStrategyRequest env dossiers t1 t2 t3 t4 ws i = Some (Prepared p) \<Longrightarrow>
     submitStrategyRequest env fault (gs_db s) ws i p jobId outboxId genId now = (r, db') \<Longrightarrow>
     strategy_step env dossiers s ((strategy_moved db' s)\<lparr>gs_answers := gs_answers s \<union> (case r of Inl e \<Rightarrow> {} | Inr rd \<Rightarrow> {(ws, pr_signature p, rd)})\<rparr>)"
| run: "t \<in> gs_seen s \<Longrightarrow> generate env gemini now t ws jobId correlationId = (stores, r) \<Longrightarrow>
     strategy_step env dossiers s (s\<lparr>gs_stores := gs_stores s \<union> Pair ws ` set stores,
       gs_publications := gs_publications s \<union> (case r of Inl e \<Rightarrow> {} | Inr b \<Rightarrow> {(ws, b)})\<rparr>)"
| store: "(ws, st) \<in> gs_stores s \<Longrightarrow>
     strategy_step env dossiers s (strategy_moved ((gs_db s)\<lparr>db_results := apply_store ws now st (db_results (gs_db s))\<rparr>) s)"
| commit: "(ws, b) \<in> gs_publications s \<Longrightarrow>
     strategy_step env dossiers s (strategy_moved ((gs_db s)\<lparr>db_results := snd (publishStrategyGeneration ws b (db_results (gs_db s)))\<rparr>) s)"
| elsewhere: "gt_generations (db_results db') = gt_generations (db_results (gs_db s)) \<Longrightarrow> gt_evidence (db_results db') = gt_evidence (db_results (gs_db s)) \<Longrightarrow>
     gt_currentStrategy (db_results db') = gt_currentStrategy (db_results (gs_db s)) \<Longrightarrow> strategy_step env dossiers s (strategy_moved db' s)"

definition strategy_start :: "strategy_sys \<Rightarrow> bool" where
  "strategy_start s \<longleftrightarrow> gt_generations (db_results (gs_db s)) = [] \<and> gt_evidence (db_results (gs_db s)) = [] \<and>
     gt_currentStrategy (db_results (gs_db s)) = Map.empty \<and> gs_seen s = {db_results (gs_db s)} \<and> gs_stores s = {} \<and> gs_publications s = {} \<and>
     gs_answers s = {}"

inductive strategy_reachable :: "strategy_env \<Rightarrow> (string \<Rightarrow> string option) \<Rightarrow> strategy_sys \<Rightarrow> bool" for env dossiers where
  start: "strategy_start s \<Longrightarrow> strategy_reachable env dossiers s"
| step: "strategy_reachable env dossiers s \<Longrightarrow> strategy_step env dossiers s s' \<Longrightarrow> strategy_reachable env dossiers s'"

inductive strategy_later :: "strategy_env \<Rightarrow> (string \<Rightarrow> string option) \<Rightarrow> strategy_sys \<Rightarrow> strategy_sys \<Rightarrow> bool" for env dossiers where
  now: "strategy_later env dossiers s s"
| later: "strategy_later env dossiers s s' \<Longrightarrow> strategy_step env dossiers s' s'' \<Longrightarrow> strategy_later env dossiers s s''"

section \<open>The invariant\<close>

abbreviation "tables s \<equiv> db_results (gs_db s)"

text \<open>A run that read one of the states vouches for the strategy: it is sound over the request that run found.\<close>

definition vouched :: "strategy_env \<Rightarrow> strategy_tables set \<Rightarrow> string \<Rightarrow> string \<Rightarrow> string option \<Rightarrow> string list \<Rightarrow> strategy \<Rightarrow> bool" where
  "vouched env seen ws genId acc fingerprints x \<longleftrightarrow>
     fingerprints = map (createStrategyRecommendationFingerprint (se_folded env)) (st_recommendations x) \<and>
     (\<exists>t \<in> seen. \<exists>g \<in> set (gt_generations t). sg_id g = genId \<and> sg_workspaceId g = ws \<and> sg_instagramAccountId g = acc \<and>
       (\<exists>recent. strategy_sound (se_folded env) \<lparr>vc_mode = sg_mode g, vc_manifest = frozen_evidence t g, vc_recentFingerprints = recent\<rparr> x))"

definition results_ok :: "strategy_env \<Rightarrow> strategy_tables set \<Rightarrow> strategy_tables \<Rightarrow> bool" where
  "results_ok env seen t \<longleftrightarrow> (\<forall>g \<in> set (gt_generations t). \<forall>x. sg_result g = Some x \<longrightarrow>
     vouched env seen (sg_workspaceId g) (sg_id g) (sg_instagramAccountId g) (sg_recommendationFingerprints g) x)"

definition pointers_ok :: "strategy_tables \<Rightarrow> bool" where
  "pointers_ok t \<longleftrightarrow> (\<forall>ws a genId. gt_currentStrategy t (ws, a) = Some genId \<longrightarrow>
     (\<exists>g \<in> set (gt_generations t). sg_id g = genId \<and> sg_workspaceId g = ws \<and> sg_instagramAccountId g = Some a \<and> sg_result g \<noteq> None))"

definition answers_ok :: "strategy_sys \<Rightarrow> bool" where
  "answers_ok s \<longleftrightarrow> (\<forall>ws signature rd. (ws, signature, rd) \<in> gs_answers s \<longrightarrow> (\<exists>g \<in> set (gt_generations (tables s)). sg_workspaceId g = ws \<and>
     sg_requestSignature g = signature \<and> sg_id g = rd_strategyGenerationId rd \<and> sg_backgroundJobId g = rd_backgroundJobId rd))"

definition strategy_ok :: "strategy_env \<Rightarrow> strategy_sys \<Rightarrow> bool" where
  "strategy_ok env s \<longleftrightarrow> strategy_tables_ok env (tables s) \<and> (\<forall>t \<in> gs_seen s. grows t (tables s)) \<and>
     (\<forall>ws b. (ws, b) \<in> gs_publications s \<longrightarrow>
        vouched env (gs_seen s) ws (pb_strategyGenerationId b) (pb_instagramAccountId b) (pb_recommendationFingerprints b) (pb_result b)) \<and>
     results_ok env (gs_seen s) (tables s) \<and> pointers_ok (tables s) \<and> answers_ok s"

lemma vouched_mono: "vouched env seen ws genId acc fps x \<Longrightarrow> seen \<subseteq> seen' \<Longrightarrow> vouched env seen' ws genId acc fps x"
  unfolding vouched_def by blast

text \<open>A step that keeps the tables in order, with what it adds, keeps the rest.\<close>

lemma strategy_ok_moved:
  assumes ok: "strategy_ok env s" and "strategy_tables_ok env (db_results db)" and grown: "grows (tables s) (db_results db)"
    and "results_ok env (insert (db_results db) (gs_seen s)) (db_results db)" and "pointers_ok (db_results db)"
  shows "strategy_ok env (strategy_moved db s)"
proof -
  have answers: "\<forall>ws signature rd. (ws, signature, rd) \<in> gs_answers s \<longrightarrow> (\<exists>g \<in> set (gt_generations (tables s)). sg_workspaceId g = ws \<and>
      sg_requestSignature g = signature \<and> sg_id g = rd_strategyGenerationId rd \<and> sg_backgroundJobId g = rd_backgroundJobId rd)"
    using ok by (simp add: strategy_ok_def answers_ok_def)
  have "\<exists>g \<in> set (gt_generations (db_results db)). sg_workspaceId g = ws \<and> sg_requestSignature g = signature \<and>
      sg_id g = rd_strategyGenerationId rd \<and> sg_backgroundJobId g = rd_backgroundJobId rd" if a: "(ws, signature, rd) \<in> gs_answers s" for ws signature rd
  proof -
    obtain h where h: "h \<in> set (gt_generations (tables s))" "sg_workspaceId h = ws" "sg_requestSignature h = signature"
      "sg_id h = rd_strategyGenerationId rd" "sg_backgroundJobId h = rd_backgroundJobId rd"
      using answers [rule_format, OF a] by blast
    obtain g where g: "g \<in> set (gt_generations (db_results db))" "keeps h g" using grown h(1) unfolding grows_def by blast
    show ?thesis using h(2-5) unfolding as_asked_fields(1,2,4,6) [OF keeps_asked [OF g(2)], symmetric] using g(1) by blast
  qed
  then have "answers_ok (strategy_moved db s)" by (auto simp: answers_ok_def strategy_moved_def)
  moreover have "grows t (db_results db)" if "t \<in> gs_seen s" for t
    using ok that grows_trans [OF _ grown] unfolding strategy_ok_def by blast
  moreover have "vouched env (insert (db_results db) (gs_seen s)) ws (pb_strategyGenerationId b) (pb_instagramAccountId b)
      (pb_recommendationFingerprints b) (pb_result b)" if "(ws, b) \<in> gs_publications s" for ws b
    using ok that vouched_mono [OF _ subset_insertI] unfolding strategy_ok_def by blast
  ultimately show ?thesis
    using assms by (auto simp: strategy_ok_def strategy_moved_def)
qed

text \<open>Results and pointers are kept by whatever keeps the results of the generations and the pointers.\<close>

lemma results_ok_kept:
  assumes "results_ok env seen t" "grows t t'" "strategy_tables_ok env t'"
    "\<And>g x. g \<in> set (gt_generations t') \<Longrightarrow> sg_result g = Some x \<Longrightarrow> \<exists>h \<in> set (gt_generations t). keeps h g \<and> sg_result h \<noteq> None"
  shows "results_ok env (insert t' seen) t'"
  unfolding results_ok_def
proof (intro ballI allI impI)
  fix g x assume g: "g \<in> set (gt_generations t')" "sg_result g = Some x"
  then obtain h where h: "h \<in> set (gt_generations t)" "keeps h g" "sg_result h \<noteq> None" using assms(4) by blast
  then have "sg_result h = Some x" "sg_recommendationFingerprints g = sg_recommendationFingerprints h" using g(2) by (auto simp: keeps_def)
  then show "vouched env (insert t' seen) (sg_workspaceId g) (sg_id g) (sg_instagramAccountId g) (sg_recommendationFingerprints g) x"
    using assms(1) h(1) vouched_mono [OF _ subset_insertI] as_asked_fields(1-3) [OF keeps_asked [OF h(2)]] unfolding results_ok_def by metis
qed

lemma pointers_ok_kept:
  assumes "pointers_ok t" "grows t t'" "gt_currentStrategy t' = gt_currentStrategy t"
  shows "pointers_ok t'"
  unfolding pointers_ok_def
proof (intro allI impI)
  fix ws a genId assume "gt_currentStrategy t' (ws, a) = Some genId"
  then obtain h where h: "h \<in> set (gt_generations t)" "sg_id h = genId" "sg_workspaceId h = ws" "sg_instagramAccountId h = Some a" "sg_result h \<noteq> None"
    using assms(1,3) unfolding pointers_ok_def by metis
  then obtain g where g: "g \<in> set (gt_generations t')" "keeps h g" using assms(2) unfolding grows_def by blast
  have "sg_result g \<noteq> None" using g(2) h(5) by (auto simp: keeps_def)
  then show "\<exists>g \<in> set (gt_generations t'). sg_id g = genId \<and> sg_workspaceId g = ws \<and> sg_instagramAccountId g = Some a \<and> sg_result g \<noteq> None"
    using h(2-4) as_asked_fields(1-3) [OF keeps_asked [OF g(2)]] by (intro bexI [OF _ g(1)]) simp
qed

section \<open>The steps keep it\<close>

lemma store_effect:
  obtains P f where "gt_generations (apply_store ws now st t) = update_many P f (gt_generations t)" "gt_evidence (apply_store ws now st t) = gt_evidence t"
    "gt_currentStrategy (apply_store ws now st t) = gt_currentStrategy t" "\<And>g. as_asked (f g) = as_asked g"
    "\<And>g. sg_result (f g) = sg_result g" "\<And>g. sg_recommendationFingerprints (f g) = sg_recommendationFingerprints g"
proof (cases st)
  case (Store_stage genId stage repair)
  show thesis
    by (rule that [of "\<lambda>g. sg_id g = genId \<and> sg_workspaceId g = ws"
        "\<lambda>g. g\<lparr>sg_repairAttempted := coalesce repair (sg_repairAttempted g), sg_stage := stage, sg_state := G_PROCESSING\<rparr>"])
      (simp_all add: Store_stage recordStrategyStage_def as_asked_def)
next
  case (Store_fail genId cls code)
  show thesis
    by (rule that [of "\<lambda>g. sg_id g = genId \<and> sg_result g = None \<and> sg_workspaceId g = ws"
        "\<lambda>g. g\<lparr>sg_completedAt := Some now, sg_failureClass := Some cls, sg_failureCode := Some code, sg_state := G_FAILED\<rparr>"])
      (simp_all add: Store_fail failStrategyGeneration_def as_asked_def)
qed

lemma update_many_keeps:
  assumes "g \<in> set (update_many P f gs)"
  obtains h where "h \<in> set gs" "g = (if P h then f h else h)"
  using assms by (auto simp: update_many_def)

lemma strategy_ok_store:
  assumes ok: "strategy_ok env s"
  shows "strategy_ok env (strategy_moved ((gs_db s)\<lparr>db_results := apply_store ws now st (tables s)\<rparr>) s) \<and> grows (tables s) (apply_store ws now st (tables s))"
proof -
  let ?t = "apply_store ws now st (tables s)"
  obtain P f where e: "gt_generations ?t = update_many P f (gt_generations (tables s))" "gt_evidence ?t = gt_evidence (tables s)"
    "gt_currentStrategy ?t = gt_currentStrategy (tables s)" "\<And>g. as_asked (f g) = as_asked g"
    "\<And>g. sg_result (f g) = sg_result g" "\<And>g. sg_recommendationFingerprints (f g) = sg_recommendationFingerprints g"
    by (rule store_effect [of ws now st "tables s"]) blast
  have good: "strategy_tables_ok env (tables s)" "results_ok env (gs_seen s) (tables s)" "pointers_ok (tables s)" using ok by (simp_all add: strategy_ok_def)
  have keep: "keeps g (f g)" for g using e(4-6) by (simp add: keeps_def)
  have grown: "grows (tables s) ?t" by (rule grows_update [OF e(1,2)]) (rule keep)
  have tok: "strategy_tables_ok env ?t" by (rule strategy_tables_ok_update [OF good(1) e(1,2,4)])
  have "\<exists>h \<in> set (gt_generations (tables s)). keeps h g \<and> sg_result h \<noteq> None"
    if g: "g \<in> set (gt_generations ?t)" "sg_result g = Some x" for g x
  proof -
    obtain h where h: "h \<in> set (gt_generations (tables s))" "g = (if P h then f h else h)"
      using g(1) unfolding e(1) by (rule update_many_keeps)
    have "keeps h g" "sg_result h \<noteq> None" using h(2) g(2) keep [of h] e(5) [of h] by (auto split: if_splits)
    then show ?thesis using h(1) by blast
  qed
  then have "results_ok env (insert ?t (gs_seen s)) ?t" by (rule results_ok_kept [OF good(2) grown tok])
  then show ?thesis using tok grown pointers_ok_kept [OF good(3) grown e(3)] by (intro conjI strategy_ok_moved [OF ok]) simp_all
qed

text \<open>A publication reaches one generation, the one the run was for.\<close>

lemma strategy_ok_commit:
  assumes ok: "strategy_ok env s" and b: "(ws, b) \<in> gs_publications s"
  shows "strategy_ok env (strategy_moved ((gs_db s)\<lparr>db_results := snd (publishStrategyGeneration ws b (tables s))\<rparr>) s) \<and>
    grows (tables s) (snd (publishStrategyGeneration ws b (tables s)))"
proof (cases "list_ex (\<lambda>g. sg_id g = pb_strategyGenerationId b \<and> sg_result g \<noteq> None \<and> sg_workspaceId g = ws) (gt_generations (tables s))")
  case True
  then have same: "snd (publishStrategyGeneration ws b (tables s)) = tables s" by (simp add: publishStrategyGeneration_def)
  have "strategy_ok env (strategy_moved (gs_db s) s)"
    using ok vouched_mono [OF _ subset_insertI] by (intro strategy_ok_moved [OF ok]) (fastforce simp: strategy_ok_def results_ok_def)+
  then show ?thesis by (simp add: same)
next
  case False
  let ?t = "tables s" and ?t' = "snd (publishStrategyGeneration ws b (tables s))"
  let ?P = "\<lambda>g. sg_id g = pb_strategyGenerationId b \<and> sg_workspaceId g = ws"
  let ?f = "\<lambda>g. g\<lparr>sg_completedAt := Some (pb_generatedAt b), sg_failureClass := None, sg_failureCode := None,
      sg_generatedAt := Some (pb_generatedAt b), sg_recommendationFingerprints := pb_recommendationFingerprints b,
      sg_result := Some (pb_result b), sg_stage := GS_PUBLISHING, sg_state := G_SUCCEEDED\<rparr>"
  have e: "gt_generations ?t' = update_many ?P ?f (gt_generations ?t)" "gt_evidence ?t' = gt_evidence ?t"
    using False by (simp_all add: publishStrategyGeneration_def Let_def)
  have as_asked: "as_asked (?f g) = as_asked g" for g by (simp add: as_asked_def)
  have good: "strategy_tables_ok env ?t" "results_ok env (gs_seen s) ?t" "pointers_ok ?t" using ok by (simp_all add: strategy_ok_def)
  have unpublished: "sg_result g = None" if "g \<in> set (gt_generations ?t)" "?P g" for g using False that by (auto simp: list_ex_iff)
  have grown: "grows ?t ?t'"
    by (rule grows_update [OF e]) (use unpublished as_asked in \<open>simp add: keeps_def\<close>)
  have tok: "strategy_tables_ok env ?t'" by (rule strategy_tables_ok_update [OF good(1) e as_asked])
  have vouched: "vouched env (gs_seen s) ws (pb_strategyGenerationId b) (pb_instagramAccountId b) (pb_recommendationFingerprints b) (pb_result b)"
    using ok b by (auto simp: strategy_ok_def)
  \<comment> \<open>the generation the run read is a row of the table, for the account of the publication\<close>
  obtain t0 g0 where g0: "t0 \<in> gs_seen s" "g0 \<in> set (gt_generations t0)" "?P g0" "sg_instagramAccountId g0 = pb_instagramAccountId b"
    using vouched unfolding vouched_def by blast
  obtain g where g: "g \<in> set (gt_generations ?t)" "keeps g0 g" using ok g0(1,2) unfolding strategy_ok_def grows_def by blast
  have row: "?P g" "sg_instagramAccountId g = pb_instagramAccountId b" using g0(3,4) as_asked_fields(1-3) [OF keeps_asked [OF g(2)]] by simp_all
  have rows: "h = g" if "h \<in> set (gt_generations ?t)" "?P h" for h using strategy_tables_ok_unique [OF good(1) that(1) g(1)] that(2) row(1) by simp
  have published: "?f g \<in> set (gt_generations ?t')" using g(1) row(1) by (auto simp: e(1) update_many_def)
  have "results_ok env (insert ?t' (gs_seen s)) ?t'"
    unfolding results_ok_def
  proof (intro ballI allI impI)
    fix k x assume k: "k \<in> set (gt_generations ?t')" "sg_result k = Some x"
    obtain h where h: "h \<in> set (gt_generations ?t)" "k = (if ?P h then ?f h else h)" using k(1) unfolding e(1) by (rule update_many_keeps)
    show "vouched env (insert ?t' (gs_seen s)) (sg_workspaceId k) (sg_id k) (sg_instagramAccountId k) (sg_recommendationFingerprints k) x"
    proof (cases "?P h")
      case True
      then have "k = ?f g" using rows [OF h(1)] h(2) by simp
      then show ?thesis using k(2) row vouched_mono [OF vouched subset_insertI] by simp
    next
      case False
      then have "k = h" by (simp only: h(2) if_False)
      then show ?thesis using good(2) h(1) k(2) vouched_mono [OF _ subset_insertI] unfolding results_ok_def by blast
    qed
  qed
  moreover have "pointers_ok ?t'"
  proof (cases "gt_currentStrategy ?t' = gt_currentStrategy ?t")
    case True
    then show ?thesis by (rule pointers_ok_kept [OF good(3) grown])
  next
    case strategy_moved: False
    then obtain a where a: "pb_instagramAccountId b = Some a" "gt_currentStrategy ?t' = (gt_currentStrategy ?t)((ws, a) \<mapsto> pb_strategyGenerationId b)"
      using False by (auto simp: publishStrategyGeneration_def Let_def split: option.splits if_splits)
    have "pointers_ok (?t'\<lparr>gt_currentStrategy := gt_currentStrategy ?t\<rparr>)"
      using pointers_ok_kept [OF good(3), of "?t'\<lparr>gt_currentStrategy := gt_currentStrategy ?t\<rparr>"] grown by (simp add: grows_def frozen_entries_def)
    then have before: "\<exists>k \<in> set (gt_generations ?t'). sg_id k = genId \<and> sg_workspaceId k = w \<and> sg_instagramAccountId k = Some c \<and> sg_result k \<noteq> None"
      if "gt_currentStrategy ?t (w, c) = Some genId" for w c genId using that by (simp add: pointers_ok_def)
    have here: "\<exists>k \<in> set (gt_generations ?t'). sg_id k = pb_strategyGenerationId b \<and> sg_workspaceId k = ws \<and> sg_instagramAccountId k = Some a \<and> sg_result k \<noteq> None"
      by (rule bexI [OF _ published]) (simp add: row a(1))
    show ?thesis unfolding pointers_ok_def a(2)
    proof (intro allI impI)
      fix w c genId assume pointer: "((gt_currentStrategy ?t)((ws, a) \<mapsto> pb_strategyGenerationId b)) (w, c) = Some genId"
      show "\<exists>k \<in> set (gt_generations ?t'). sg_id k = genId \<and> sg_workspaceId k = w \<and> sg_instagramAccountId k = Some c \<and> sg_result k \<noteq> None"
      proof (cases "(w, c) = (ws, a)")
        case True
        then have "w = ws" "c = a" "genId = pb_strategyGenerationId b" using pointer by simp_all
        then show ?thesis using here by (simp only:)
      next
        case False
        then show ?thesis using pointer by (intro before) (auto split: if_splits)
      qed
    qed
  qed
  ultimately show ?thesis using tok grown by (intro conjI strategy_ok_moved [OF ok]) simp_all
qed

lemma prepared_existing:
  assumes "prepareStrategyRequest env dossiers t1 t2 t3 t4 ws i = Some (Prepared p)" "pr_existing p = Some g"
  shows "g \<in> set (gt_generations t4)" "sg_requestSignature g = pr_signature p" "sg_workspaceId g = ws"
proof -
  have "find (\<lambda>g. sg_requestSignature g = pr_signature p \<and> sg_workspaceId g = ws) (gt_generations t4) = Some g"
    using assms(2) prepared_parts [OF assms(1)] by metis
  then show "g \<in> set (gt_generations t4)" "sg_requestSignature g = pr_signature p" "sg_workspaceId g = ws"
    by (auto simp: find_Some_iff)
qed

text \<open>A submission leaves the tables alone, or freezes; what it answers is a row.\<close>

lemma submit_cases:
  assumes "submitStrategyRequest env fault db ws i p jobId outboxId genId now = (r, db')"
    "prepareStrategyRequest env dossiers t1 t2 t3 t4 ws i = Some (Prepared p)"
  obtains (frozen) rd where "r = Inr rd" "freezeStrategy env db ws i p jobId outboxId genId now = Inr (db', rd)"
    | (existing) g where "r = Inr (answer_existing p g)" "db' = db" "g \<in> set (gt_generations t4)" "sg_requestSignature g = pr_signature p" "sg_workspaceId g = ws"
    | (winner) g where "r = Inr (answer_existing p g)" "db' = db" "g \<in> set (gt_generations (db_results db))" "sg_requestSignature g = pr_signature p"
        "sg_workspaceId g = ws"
    | (refused) e where "r = Inl e" "db' = db"
proof (cases "pr_existing p")
  case (Some g)
  then show thesis using existing [of g] assms(1) prepared_existing [OF assms(2) Some] by (simp add: submitStrategyRequest_def)
next
  case None
  let ?frozen = "case fault of Some code \<Rightarrow> Inl (Freeze_prisma code) | None \<Rightarrow> freezeStrategy env db ws i p jobId outboxId genId now"
  let ?found = "find (\<lambda>g. sg_requestSignature g = pr_signature p \<and> sg_workspaceId g = ws) (gt_generations (db_results db))"
  show thesis
  proof (cases ?frozen)
    case (Inr x)
    then show thesis using frozen assms(1) None by (cases fault) (auto simp: submitStrategyRequest_def split: prod.splits)
  next
    case (Inl e)
    show thesis
    proof (cases e)
      case (Freeze_exn x)
      then show thesis using refused [of x] assms(1) None Inl by (simp add: submitStrategyRequest_def)
    next
      case (Freeze_prisma code)
      show thesis
      proof (cases "code = ''P2002'' \<and> ?found \<noteq> None")
        case True
        then obtain g where g: "?found = Some g" by auto
        then have "r = Inr (answer_existing p g)" "db' = db" using assms(1) None Inl Freeze_prisma True by (simp_all add: submitStrategyRequest_def)
        then show thesis using winner [of g] g by (auto simp: find_Some_iff)
      next
        case False
        then show thesis using refused [of "toStrategyRequestError code"] assms(1) None Inl Freeze_prisma
          by (auto simp: submitStrategyRequest_def split: option.splits if_splits)
      qed
    qed
  qed
qed

lemma answered:
  assumes "strategy_ok env s" "g \<in> set (gt_generations (tables s))" "sg_workspaceId g = ws" "sg_requestSignature g = signature"
    "sg_id g = rd_strategyGenerationId rd" "sg_backgroundJobId g = rd_backgroundJobId rd"
  shows "strategy_ok env (s\<lparr>gs_answers := gs_answers s \<union> {(ws, signature, rd)}\<rparr>)"
proof -
  have "answers_ok (s\<lparr>gs_answers := gs_answers s \<union> {(ws, signature, rd)}\<rparr>)"
    using assms unfolding strategy_ok_def answers_ok_def by auto
  then show ?thesis using assms(1) by (simp add: strategy_ok_def)
qed

lemma strategy_ok_same:
  assumes ok: "strategy_ok env s"
    and same: "gt_generations (db_results db) = gt_generations (tables s)" "gt_evidence (db_results db) = gt_evidence (tables s)"
      "gt_currentStrategy (db_results db) = gt_currentStrategy (tables s)"
  shows "strategy_ok env (strategy_moved db s) \<and> grows (tables s) (db_results db)"
proof -
  have good: "strategy_tables_ok env (tables s)" "results_ok env (gs_seen s) (tables s)" "pointers_ok (tables s)" using ok by (simp_all add: strategy_ok_def)
  have unchanged: "gt_generations (db_results db) = update_many (\<lambda>_. False) (\<lambda>g. g) (gt_generations (tables s))"
    by (simp add: same update_many_def)
  have tok: "strategy_tables_ok env (db_results db)" by (rule strategy_tables_ok_update [OF good(1) unchanged same(2) refl])
  have grown: "grows (tables s) (db_results db)" by (rule grows_update [OF unchanged same(2) keeps_refl])
  have "results_ok env (insert (db_results db) (gs_seen s)) (db_results db)"
    by (rule results_ok_kept [OF good(2) grown tok]) (use same(1) keeps_refl in fastforce)
  then show ?thesis using tok grown pointers_ok_kept [OF good(3) grown same(3)] by (intro conjI strategy_ok_moved [OF ok])
qed

lemma strategy_ok_freeze:
  assumes ok: "strategy_ok env s" and p: "prepareStrategyRequest env dossiers t1 t2 t3 t4 ws i = Some (Prepared p)"
    and frozen: "freezeStrategy env (gs_db s) ws i p jobId outboxId genId now = Inr (db', rd)"
  shows "strategy_ok env ((strategy_moved db' s)\<lparr>gs_answers := gs_answers s \<union> {(ws, pr_signature p, rd)}\<rparr>) \<and> grows (tables s) (db_results db')"
proof -
  have good: "strategy_tables_ok env (tables s)" "results_ok env (gs_seen s) (tables s)" "pointers_ok (tables s)" using ok by (simp_all add: strategy_ok_def)
  obtain g where tok: "strategy_tables_ok env (db_results db')" and grown: "grows (tables s) (db_results db')"
    and current: "gt_currentStrategy (db_results db') = gt_currentStrategy (tables s)"
    and g: "gt_generations (db_results db') = gt_generations (tables s) @ [g]" "sg_result g = None" "sg_id g = rd_strategyGenerationId rd"
      "sg_workspaceId g = ws" "sg_requestSignature g = pr_signature p" "sg_backgroundJobId g = rd_backgroundJobId rd"
    using strategy_tables_ok_freeze [OF good(1) p frozen] by blast
  have "results_ok env (insert (db_results db') (gs_seen s)) (db_results db')"
    by (rule results_ok_kept [OF good(2) grown tok]) (use g(1,2) keeps_refl in fastforce)
  then have "strategy_ok env (strategy_moved db' s)"
    using tok grown pointers_ok_kept [OF good(3) grown current] by (intro strategy_ok_moved [OF ok])
  moreover have "g \<in> set (gt_generations (tables (strategy_moved db' s)))" by (simp add: strategy_moved_def g(1))
  ultimately show ?thesis using answered [OF _ _ g(4,5,3,6), of env "strategy_moved db' s"] grown by (simp add: strategy_moved_def)
qed

lemma frozen_found:
  assumes "findStrategyGenerationForJob t ws jobId = Some f"
  obtains g where "g \<in> set (gt_generations t)" "sg_id g = fz_id f" "sg_workspaceId g = ws" "sg_instagramAccountId g = fz_instagramAccountId f"
    "strategy_context_of f = \<lparr>vc_mode = sg_mode g, vc_manifest = frozen_evidence t g, vc_recentFingerprints = fz_recentFingerprints f\<rparr>"
proof -
  obtain g where g: "find (\<lambda>g. sg_backgroundJobId g = jobId \<and> sg_workspaceId g = ws) (gt_generations t) = Some g"
    using assms by (auto simp: findStrategyGenerationForJob_def split: option.splits)
  then have "g \<in> set (gt_generations t)" "sg_workspaceId g = ws" by (auto simp: find_Some_iff)
  then show thesis using that [of g] assms by (auto simp: findStrategyGenerationForJob_def g strategy_context_of_def)
qed

lemma strategy_step_ok:
  assumes "strategy_step env dossiers s s'" "strategy_ok env s"
  shows "strategy_ok env s' \<and> grows (tables s) (tables s')"
  using assms
proof (cases rule: strategy_step.cases)
  case (ask t1 t2 t3 t4 ws i p fault jobId outboxId genId now r db')
  from ask(7) ask(6) show ?thesis
  proof (cases rule: submit_cases)
    case (frozen rd)
    then show ?thesis using strategy_ok_freeze [OF assms(2) ask(6), of jobId outboxId genId now db' rd] by (simp add: ask(1) strategy_moved_def)
  next
    case (existing g)
    have "grows t4 (tables s)" using assms(2) ask(5) by (simp add: strategy_ok_def)
    then obtain h where h: "h \<in> set (gt_generations (tables s))" "keeps g h" using existing(3) unfolding grows_def by blast
    note fields = as_asked_fields [OF keeps_asked [OF h(2)]]
    have m: "strategy_ok env (strategy_moved db' s)" "tables (strategy_moved db' s) = tables s"
      using strategy_ok_same [OF assms(2), of "gs_db s"] by (simp_all add: existing(2) strategy_moved_def)
    have "strategy_ok env ((strategy_moved db' s)\<lparr>gs_answers := gs_answers (strategy_moved db' s) \<union> {(ws, pr_signature p, answer_existing p g)}\<rparr>)"
      by (rule answered [OF m(1), of h]) (simp_all add: m(2) h(1) fields existing(4,5) answer_existing_def)
    then show ?thesis by (simp add: ask(1) existing(1,2) strategy_moved_def)
  next
    case (winner g)
    have m: "strategy_ok env (strategy_moved db' s)" "tables (strategy_moved db' s) = tables s"
      using strategy_ok_same [OF assms(2), of "gs_db s"] by (simp_all add: winner(2) strategy_moved_def)
    have "strategy_ok env ((strategy_moved db' s)\<lparr>gs_answers := gs_answers (strategy_moved db' s) \<union> {(ws, pr_signature p, answer_existing p g)}\<rparr>)"
      by (rule answered [OF m(1), of g]) (simp_all add: m(2) winner(3-5) answer_existing_def)
    then show ?thesis by (simp add: ask(1) winner(1,2) strategy_moved_def)
  next
    case (refused e)
    then show ?thesis using strategy_ok_same [OF assms(2), of db'] by (simp add: ask(1) strategy_moved_def)
  qed
next
  case (run t gemini now ws jobId correlationId stores r)
  have "vouched env (gs_seen s) ws (pb_strategyGenerationId b) (pb_instagramAccountId b) (pb_recommendationFingerprints b) (pb_result b)"
    if b: "r = Inr b" for b
  proof -
    obtain f where f: "findStrategyGenerationForJob t ws jobId = Some f" "strategy_sound (se_folded env) (strategy_context_of f) (pb_result b)"
      "pb_instagramAccountId b = fz_instagramAccountId f" "pb_strategyGenerationId b = fz_id f"
      "pb_recommendationFingerprints b = map (createStrategyRecommendationFingerprint (se_folded env)) (st_recommendations (pb_result b))"
      by (rule generate_publishes [OF run(3) [unfolded b]])
    obtain g where g: "g \<in> set (gt_generations t)" "sg_id g = fz_id f" "sg_workspaceId g = ws" "sg_instagramAccountId g = fz_instagramAccountId f"
      "strategy_context_of f = \<lparr>vc_mode = sg_mode g, vc_manifest = frozen_evidence t g, vc_recentFingerprints = fz_recentFingerprints f\<rparr>"
      by (rule frozen_found [OF f(1)])
    show ?thesis unfolding vouched_def using run(2) f(2-5) g by metis
  qed
  then show ?thesis
    using assms(2) unfolding run(1) strategy_ok_def answers_ok_def by (auto split: sum.splits)
next
  case (store ws st now)
  then show ?thesis using strategy_ok_store [OF assms(2), of ws now st] by (simp add: strategy_moved_def)
next
  case (commit ws b)
  then show ?thesis using strategy_ok_commit [OF assms(2), of ws b] by (simp add: strategy_moved_def)
next
  case (elsewhere db')
  then show ?thesis using strategy_ok_same [OF assms(2), of db'] by (simp add: strategy_moved_def)
qed

lemma strategy_start_ok: "strategy_start s \<Longrightarrow> strategy_ok env s"
  by (simp add: strategy_start_def strategy_ok_def strategy_tables_ok_def owned_def results_ok_def pointers_ok_def answers_ok_def)

lemma strategy_reachable_ok: "strategy_reachable env dossiers s \<Longrightarrow> strategy_ok env s"
  by (induction rule: strategy_reachable.induct) (use strategy_start_ok strategy_step_ok in blast)+

lemma strategy_later_grows: "strategy_later env dossiers s s' \<Longrightarrow> strategy_ok env s \<Longrightarrow> strategy_ok env s' \<and> grows (tables s) (tables s')"
  by (induction rule: strategy_later.induct) (use strategy_step_ok grows_trans grows_refl in blast)+

section \<open>What readers are shown\<close>


text \<open>
  A strategy that has been shown is never taken back.  Whatever happens after it was published, retries,
  late failures and other publications included, its result and the evidence it argues from stay, and the current
  strategy of an account is always a published one of that account.
\<close>

theorem published_strategies_stay:
  assumes "strategy_reachable env dossiers s" "strategy_later env dossiers s s'" "g \<in> set (gt_generations (db_results (gs_db s)))"
    "sg_result g = Some x"
  shows "(\<exists>g' \<in> set (gt_generations (db_results (gs_db s'))). sg_id g' = sg_id g \<and> sg_workspaceId g' = sg_workspaceId g \<and> sg_result g' = Some x \<and>
      frozen_evidence (db_results (gs_db s')) g' = frozen_evidence (db_results (gs_db s)) g) \<and>
    (gt_currentStrategy (db_results (gs_db s')) (ws, a) = Some genId \<longrightarrow>
      (\<exists>h \<in> set (gt_generations (db_results (gs_db s'))). sg_id h = genId \<and> sg_workspaceId h = ws \<and> sg_instagramAccountId h = Some a \<and>
        sg_result h \<noteq> None))"
proof -
  have later: "strategy_ok env s'" "grows (tables s) (tables s')"
    using strategy_later_grows [OF assms(2) strategy_reachable_ok [OF assms(1)]] by simp_all
  obtain k where k: "k \<in> set (gt_generations (tables s'))" "keeps g k" "frozen_entries (tables s') k = frozen_entries (tables s) g"
    using later(2) assms(3) unfolding grows_def by blast
  have "sg_result k = Some x" using k(2) assms(4) by (simp add: keeps_def)
  then show ?thesis
    using k(1,3) as_asked_fields(1,2) [OF keeps_asked [OF k(2)]] later(1) by (auto simp: strategy_ok_def pointers_ok_def frozen_evidence_def intro!: bexI [of _ k])
qed


section \<open>A run of the system\<close>

definition sample_run_end :: "strategy_generation \<Rightarrow> strategy_generation" where
  "sample_run_end g = g\<lparr>sg_completedAt := Some 0, sg_failureClass := None, sg_failureCode := None, sg_generatedAt := Some 0,
     sg_recommendationFingerprints := [], sg_result := Some exploratory_strategy, sg_stage := GS_PUBLISHING, sg_state := G_SUCCEEDED\<rparr>"

lemma sample_generate:
  assumes "findStrategyGenerationForJob t ''w'' ''j'' = Some f" "fz_id f = ''g''" "fz_mode f = SM_exploratory" "fz_manifest f = exploratory_evidence"
    "fz_entries f \<noteq> []" "fz_instagramAccountId f = None"
  shows "generate strategy_sample_env (\<lambda>_ _. PA_text []) 0 t ''w'' ''j'' (gi_correlationId sample_input) =
    ([Store_stage ''g'' GS_REQUESTING None], Inr \<lparr>pb_generatedAt = 0, pb_instagramAccountId = None, pb_recommendationFingerprints = [],
       pb_result = exploratory_strategy, pb_strategyGenerationId = ''g''\<rparr>)"
proof -
  have "createManifestMap [] (vc_manifest (strategy_context_of f)) = None" using exploratory_manifest by (simp add: strategy_context_of_def assms(4))
  from issues_decide [OF this] have "strategy_issues (\<lambda>s. s) (strategy_context_of f) exploratory_strategy = []"
    using exploratory_sound_sample by (simp add: strategy_context_of_def assms(3,4))
  then have "requestStrategy strategy_sample_env (\<lambda>_. PA_text []) f = Inr (Inr exploratory_strategy)"
    using exploratory_manifest by (simp add: requestStrategy_def strategy_sample_env_def validateStrategyV1_def strategy_context_of_def assms(4))
  then have "ask_and_repair strategy_sample_env (\<lambda>_ _. PA_text []) f = ([Store_stage ''g'' GS_REQUESTING None], Inr (Inr exploratory_strategy))"
    by (simp add: ask_and_repair_def assms(2))
  moreover have "parseCorrelationId (Some (gi_correlationId sample_input)) \<noteq> None" by code_simp
  moreover have "st_recommendations exploratory_strategy = []" by (simp add: exploratory_strategy_def)
  ultimately show ?thesis using assms by (simp add: generate_def)
qed

lemma sample_history:
  obtains s s' g rd rd' where
    "strategy_reachable strategy_sample_env (\<lambda>_. Some ''d'') s" "strategy_later strategy_sample_env (\<lambda>_. Some ''d'') s s'" "gt_generations (db_results (gs_db s)) = [g]"
    "sg_result g = Some exploratory_strategy" "frozen_evidence (db_results (gs_db s)) g = exploratory_evidence" "sg_mode g = SM_exploratory"
    "map sg_state (gt_generations (db_results (gs_db s'))) = [G_PROCESSING]"
    "gs_answers s = {(''w'', [], rd), (''w'', [], rd')}" "rd_created rd" "\<not> rd_created rd'" "rd_strategyGenerationId rd = ''g''"
proof -
  let ?D = "\<lambda>_ :: string. Some ''d''" and ?T = sample_strategy_tables
  obtain p where p: "prepareStrategyRequest strategy_sample_env ?D ?T ?T ?T ?T ''w'' sample_input = Some (Prepared p)" "pr_mode p = SM_exploratory"
    "pr_existing p = None" "map toStrategyManifestEvidence (fm_entries (pr_manifest p)) = exploratory_evidence" "pr_signature p = []"
    "lc_analyticsRunId (pr_loaded p) = ''n''" by (rule sample_prepared)
  obtain db rd where fr: "freezeStrategy strategy_sample_env sample_db ''w'' sample_input p ''j'' ''o'' ''g'' 0 = Inr (db, rd)" "rd_backgroundJobId rd = ''j''"
    "rd_strategyGenerationId rd = ''g''" "rd_created rd" by (rule sample_frozen [OF p(1,5,6)])
  let ?t = "db_results db"
  have start: "gt_generations (db_results sample_db) = []" "gt_evidence (db_results sample_db) = []" "gt_currentStrategy (db_results sample_db) = Map.empty"
    "db_results sample_db = ?T" by (simp_all add: sample_db_def sample_strategy_tables_def)
  have empty: "strategy_tables_ok strategy_sample_env (db_results sample_db)" by (simp add: strategy_tables_ok_def owned_def start(1,2))
  obtain g where g: "gt_generations ?t = [g]" "sg_id g = ''g''" "sg_workspaceId g = ''w''" "sg_requestSignature g = []" "sg_backgroundJobId g = ''j''"
    "sg_result g = None" using strategy_tables_ok_freeze [OF empty p(1) fr(1)] start(1) fr(2,3) p(5) by auto
  have owned: "owned (gt_evidence (db_results sample_db)) (gt_generations (db_results sample_db))" by (simp add: owned_def start(2))
  obtain f where f: "findStrategyGenerationForJob ?t ''w'' ''j'' = Some f" "fz_id f = ''g''" "fz_mode f = SM_exploratory" "fz_manifest f = exploratory_evidence"
    "fz_entries f = map read_back (fm_entries (pr_manifest p))" "fz_instagramAccountId f = None"
    using frozen_request_found [OF p(1) fr(1) owned] fr(2,3) p(2,4) by (metis sample_input_account)
  have entries: "fz_entries f \<noteq> []" using p(4) f(5) by (auto simp: exploratory_evidence_def)
  have stored: "frozen_evidence ?t g = exploratory_evidence" "sg_mode g = SM_exploratory"
  proof -
    obtain h where h: "h \<in> set (gt_generations ?t)"
      "strategy_context_of f = \<lparr>vc_mode = sg_mode h, vc_manifest = frozen_evidence ?t h, vc_recentFingerprints = fz_recentFingerprints f\<rparr>"
      by (rule frozen_found [OF f(1)]) blast
    have "h = g" using h(1) g(1) by simp
    then show "frozen_evidence ?t g = exploratory_evidence" "sg_mode g = SM_exploratory" using h(2) f(3,4) by (simp_all add: strategy_context_of_def)
  qed
  \<comment> \<open>the first request, and the one that lost the race\<close>
  let ?s0 = "\<lparr>gs_db = sample_db, gs_seen = {?T}, gs_stores = {}, gs_publications = {}, gs_answers = {}\<rparr>"
  let ?s1 = "\<lparr>gs_db = db, gs_seen = {?t, ?T}, gs_stores = {}, gs_publications = {}, gs_answers = {(''w'', [], rd)}\<rparr>"
  let ?s2 = "\<lparr>gs_db = db, gs_seen = {?t, ?T}, gs_stores = {}, gs_publications = {}, gs_answers = {(''w'', [], rd), (''w'', [], answer_existing p g)}\<rparr>"
  have s0: "strategy_reachable strategy_sample_env ?D ?s0" by (rule strategy_reachable.start) (simp add: strategy_start_def start(1-3) start(4) [symmetric])
  have "submitStrategyRequest strategy_sample_env None sample_db ''w'' sample_input p ''j'' ''o'' ''g'' 0 = (Inr rd, db)"
    by (simp add: submitStrategyRequest_def p(3) fr(1))
  from strategy_step.ask [OF _ _ _ _ p(1), of ?s0, simplified, OF this] have "strategy_step strategy_sample_env ?D ?s0 ?s1"
    by (simp add: strategy_moved_def p(5))
  with s0 have s1: "strategy_reachable strategy_sample_env ?D ?s1" by (rule strategy_reachable.step)
  have "submitStrategyRequest strategy_sample_env (Some ''P2002'') db ''w'' sample_input p ''k'' ''q'' ''h'' 0 = (Inr (answer_existing p g), db)"
    by (simp add: submitStrategyRequest_def p(3,5) g)
  from strategy_step.ask [OF _ _ _ _ p(1), of ?s1, simplified, OF this] have "strategy_step strategy_sample_env ?D ?s1 ?s2"
    by (simp add: strategy_moved_def p(5) insert_commute)
  with s1 have s2: "strategy_reachable strategy_sample_env ?D ?s2" by (rule strategy_reachable.step)
  \<comment> \<open>the run, its publication, and its first store arriving late\<close>
  let ?b = "\<lparr>pb_generatedAt = 0, pb_instagramAccountId = None, pb_recommendationFingerprints = [], pb_result = exploratory_strategy, pb_strategyGenerationId = ''g''\<rparr>"
  let ?st = "Store_stage ''g'' GS_REQUESTING None"
  let ?s3 = "?s2\<lparr>gs_stores := {(''w'', ?st)}, gs_publications := {(''w'', ?b)}\<rparr>"
  have "strategy_step strategy_sample_env ?D ?s2 ?s3"
    using strategy_step.run [OF _ sample_generate [OF f(1-4) entries f(6)], of ?s2] by simp
  with s2 have s3: "strategy_reachable strategy_sample_env ?D ?s3" by (rule strategy_reachable.step)
  let ?u = "?t\<lparr>gt_generations := [sample_run_end g]\<rparr>"
  have published: "publishStrategyGeneration ''w'' ?b ?t = (True, ?u)"
    by (simp add: publishStrategyGeneration_def g update_many_def sample_run_end_def)
  let ?s4 = "?s3\<lparr>gs_db := db\<lparr>db_results := ?u\<rparr>, gs_seen := {?u, ?t, ?T}\<rparr>"
  have "strategy_step strategy_sample_env ?D ?s3 ?s4"
    using strategy_step.commit [of "''w''" ?b ?s3] published by (simp add: strategy_moved_def)
  with s3 have s4: "strategy_reachable strategy_sample_env ?D ?s4" by (rule strategy_reachable.step)
  let ?s5 = "strategy_moved ((gs_db ?s4)\<lparr>db_results := apply_store ''w'' 0 ?st (db_results (gs_db ?s4))\<rparr>) ?s4"
  have "strategy_step strategy_sample_env ?D ?s4 ?s5" by (rule strategy_step.store) simp
  with strategy_later.now have later: "strategy_later strategy_sample_env ?D ?s4 ?s5" by (rule strategy_later.later)
  have kept: "frozen_evidence ?u (sample_run_end g) = exploratory_evidence"
    using stored(1) frozen_entries_same [of ?u ?t "sample_run_end g" g] by (simp add: frozen_evidence_def as_asked_def sample_run_end_def)
  show thesis
    by (rule that [of ?s4 ?s5 "sample_run_end g" rd "answer_existing p g", OF s4 later])
      (use fr(3,4) kept stored(2) g(2,3) in \<open>simp_all add: sample_run_end_def strategy_moved_def recordStrategyStage_def update_many_def answer_existing_def\<close>)
qed


theorem published_strategies_stay_witness:
  "\<exists>(s' :: strategy_sys) g'. map sg_state (gt_generations (db_results (gs_db s'))) = [G_PROCESSING] \<and> g' \<in> set (gt_generations (db_results (gs_db s'))) \<and>
     sg_result g' = Some exploratory_strategy \<and> frozen_evidence (db_results (gs_db s')) g' = exploratory_evidence"
proof -
  obtain s s' g rd rd' where s: "strategy_reachable strategy_sample_env (\<lambda>_. Some ''d'') s" "strategy_later strategy_sample_env (\<lambda>_. Some ''d'') s s'"
    "gt_generations (db_results (gs_db s)) = [g]" "sg_result g = Some exploratory_strategy" "frozen_evidence (db_results (gs_db s)) g = exploratory_evidence"
    "sg_mode g = SM_exploratory" "map sg_state (gt_generations (db_results (gs_db s'))) = [G_PROCESSING]"
    "gs_answers s = {(''w'', [], rd), (''w'', [], rd')}" "rd_created rd" "\<not> rd_created rd'" "rd_strategyGenerationId rd = ''g''"
    by (rule sample_history)
  have "g \<in> set (gt_generations (db_results (gs_db s)))" by (simp add: s(3))
  from published_strategies_stay [OF s(1,2) this s(4)] obtain g' where "g' \<in> set (gt_generations (db_results (gs_db s')))"
    "sg_result g' = Some exploratory_strategy" "frozen_evidence (db_results (gs_db s')) g' = exploratory_evidence" using s(5) by metis
  with s(7) show ?thesis by (intro exI [of _ s'] exI [of _ g'] conjI)
qed


end
