(* ===== verification/Spec2Isabelle.thy ===== *)
theory Spec2Isabelle
  imports Job_Requests Concurrency_Gate Queue_Transport Instagram_Sync Strategy_System
begin

text \<open>
  A verification of the content-intelligence platform: a web application and a worker that import an
  Instagram account, analyse its posts with a language model, and publish statistics and strategies.
  All work runs as background jobs stored in PostgreSQL and delivered through pg-boss.  The
  development covers the job engine, the queue that delivers to it, the Instagram connection with the
  imports that feed the tables, the calculation and publication of the statistics, and the strategies,
  from the request to the publication of the answer.  All paths are under \<open>src/\<close>.

  \<^bold>\<open>Shared theories.\<close>
  \<^item> \<open>Prelude\<close>: lists, options, texts and the table operations of the database layer
    (find-first, find-many, update-many with a condition), with their simplification rules.
  \<^item> \<open>JS_Number\<close>: the numbers of the language, binary64 with rounding to nearest even, infinities and
    NaN, over exact rationals.  \<open>JS_Sort\<close>: the stable sort with a comparator, and a locale for
    comparators that order by a key.  \<open>JS_Text\<close>: the decimal text of a number and the JSON text of
    strings, whole numbers and arrays, with the lemma that a JSON text determines its value.  \<open>JS_Date\<close>: the calendar
    of an instant and its ISO text, which determines it.

  \<^bold>\<open>The job engine.\<close>
  \<^item> \<open>Observability\<close>: error classes and correlation contexts (\<open>packages/observability/src\<close>).
  \<^item> \<open>Job_Lifecycle\<close>: states, transition table, queue catalogue, delivery envelope
    (\<open>packages/domain/src/job-lifecycle.ts\<close>, \<open>background-jobs.ts\<close>); \<open>Job_Retry\<close>: the retry decision
    (\<open>job-retry.ts\<close>), its delay computed in rounded arithmetic.
  \<^item> \<open>Job_Store\<close>: the tables of \<open>packages/db/prisma/schema.prisma\<close> the engine uses and what a
    transaction is; \<open>Job_Execution\<close>, \<open>Job_Outbox\<close>, \<open>Job_Operations\<close>, \<open>Job_Reconciliation\<close>: the
    files \<open>packages/db/src/job-execution.ts\<close>, \<open>background-jobs.ts\<close>, \<open>job-operations.ts\<close> and
    \<open>job-reconciliation.ts\<close>, one definition per operation with its early returns and exceptions as
    values.
  \<^item> \<open>Job_Invariant\<close>, \<open>Job_Writes\<close>, \<open>Job_Soundness\<close>, \<open>Job_Runs\<close>: the well-formedness of the tables
    and that every statement, every operation and every handler run keeps it.  \<open>Job_System\<close>: the step
    relation of the engine.  A step is one transaction of any operation with any arguments; what a
    transaction read before its first write may come from any earlier state, so that concurrent
    workers and stale reads are covered.  Identifiers are created fresh.
  \<^item> \<open>Job_Guarantees\<close>, \<open>Job_Recovery\<close>, \<open>Job_Requests\<close>: the theorems on every reachable state.  The
    tables stay consistent, one attempt is active per job, a lost lease is fenced off, results are
    committed once, budgets are kept, cancellation wins, enqueueing is idempotent, and every unfinished
    job is from some instant on due for dispatch or found by a repair.

  \<^item> \<open>Job_Sweep\<close>: a scheduler that enqueues a job for everything that is due, over any reading of what
    is due; its locale \<open>sweeper\<close> is interpreted by the analytics sweep and the four Instagram sweeps.

  \<^bold>\<open>The queue.\<close>
  \<^item> \<open>Concurrency_Gate\<close>: the provider gate (\<open>packages/queue/src/concurrency.ts\<close>) as a step relation,
    its promises being events named by request numbers: limits, no idle capacity.
  \<^item> \<open>Queue_Transport\<close>: the client over pg-boss, the handler registry, the worker runtime and the
    in-process queue (\<open>queue.ts\<close>, \<open>worker.ts\<close>).  pg-boss is a parameter, with its documented behaviour
    as hypotheses of the theorem on provisioning and a model of it in the witness.

  \<^bold>\<open>The Instagram connection.\<close>
  \<^item> \<open>Credential_Encryption\<close> (\<open>packages/db/src/credential-encryption.ts\<close>): the sealed envelope of a
    token byte by byte, over a cipher with its documented behaviour; a token opens only in its own row.
  \<^item> \<open>Content_Store\<close>: the tables of accounts, credentials, posts and sync runs.
  \<^item> \<open>Instagram_Credentials\<close> (\<open>packages/domain/src/instagram-token.ts\<close>, \<open>packages/db/src/instagram-token.ts\<close>,
    \<open>instagram-account.ts\<close>, the commit of a connection): the health of a token and the step relation of
    all writes on accounts and credentials, with its invariant and the race of two refreshes.
  \<^item> \<open>Instagram_Insights\<close> (\<open>instagram-insights.ts\<close> of both packages, the capture of
    \<open>apps/worker/src/instagram/snapshot-post-handler.ts\<close>): what is asked of the provider, how an answer
    is read, and the snapshot row, which gives its observations back.
  \<^item> \<open>Instagram_Scheduling\<close> (\<open>instagram-scheduling.ts\<close> of both packages, \<open>sync-scheduler.ts\<close>,
    \<open>token-maintenance-scheduler.ts\<close>): what is due, the keys that make a sweep idempotent, the sweeps.
  \<^item> \<open>Instagram_Sync\<close> (\<open>instagram-media.ts\<close> of both packages, \<open>sync-account-handler.ts\<close>): the import of
    media, with its runs and cursor.  A history of attempts, any of which may fail, be cancelled or be cut off, skips
    nothing: the page and the cursor that follows it are one commit.

  \<^bold>\<open>The statistics.\<close>
  \<^item> \<open>Analytics_Metrics\<close> (\<open>packages/domain/src/analytics-metrics.ts\<close>): the metrics derived from an
    observation, equal to a reference that adds integers and rounds the exact quotient once.
  \<^item> \<open>Analytics_Cohorts\<close> (\<open>analytics-cohorts.ts\<close>): age windows, the observation a comparison uses,
    medians and baselines.  \<open>Analytics_Statistics\<close> (\<open>analytics-statistics.ts\<close>): the generator on 32-bit
    words, the bootstrap, the sensitivity refits, the correction for multiple testing, equal to the
    step-up procedure, and the classification, characterised in both directions.
  \<^item> \<open>Analytics_Fingerprints\<close>: the fingerprints of cohorts and runs.  The hash is a parameter.
  \<^item> \<open>Analytics_Runs\<close> (\<open>packages/db/src/analytics-runs.ts\<close>, the scope and the commits of
    \<open>apps/worker/src/analytics/recalculate-handler.ts\<close>, the sweep of \<open>analytics-scheduler.ts\<close>): the
    runs, the debounce markers and the sweep, which enqueues through the job engine.  Publication is
    shown to refine the replacement of one complete set by another in what the readers see; the reads
    of an activation may be older than its writes, and the one case in which it meets the unique index is named.

  \<^bold>\<open>Strategies.\<close>
  \<^item> \<open>Strategy_Contract\<close> (\<open>packages/domain/src/strategy-contract.ts\<close>): the shape of an answer of the
    language model and the validator, which is shown to decide a declarative specification of the rules
    over the frozen evidence.
  \<^item> \<open>Strategy_Request\<close> (\<open>strategy-request.ts\<close>): eligibility, the selection of the evidence with its
    caps and its budget loop, the manifest, its hash and the text the model reads.  The selection ends, is
    bounded, does not depend on the order of the rows and is a manifest the validator accepts; an
    untrusted text cannot pass for a line of the program.  The caps are those of the code, which are larger
    than those \<open>docs/technical/strategy-generation.md\<close> gives.
  \<^item> \<open>Strategy_Evidence\<close> (\<open>packages/db/src/strategy-evidence.ts\<close>): the candidates read from the active run, the
    posts and the last strategies, and what follows for the evidence when a statistic has compared all posts.
  \<^item> \<open>Strategy_Generation\<close> (\<open>packages/db/src/strategy-request-command.ts\<close>, \<open>strategy-generation.ts\<close>,
    \<open>apps/worker/src/strategy/strategy-generate-handler.ts\<close>): the preview, the request, which enqueues through the job
    engine and freezes its evidence in one transaction, the handler with its one repair, and the publication.
  \<^item> \<open>Strategy_System\<close>: the step relation of requests, runs and publications, each reading any earlier
    state, and its invariant.  What is published is sound over the evidence frozen for it, and one
    question has one generation and one job.

  \<^bold>\<open>Bounds.\<close>  The loops of the program are recursions over lists and take no fuel.  The decimal text of
  a number, which only the seed of the bootstrap reads, searches its exponent within 400 steps and its
  digits within 17: the exponents of binary64 lie between -324 and 308, and 17 digits determine a
  number.  The theorem on the bootstrap is for samples of up to \<open>2 ^ 21\<close> values, below which the product
  of a draw and a length is exact; that on the median for up to \<open>2 ^ 53\<close>, below which indices are.  The page loop of an import
  counts down the 200 pages the source allows and ends with the failure the source raises there.
  The loop that cuts a selection to its budget is a partial function, so that not returning would be a value; it is
  proved to return.  The token estimate and the ISO week divide exactly: no text is as long as \<open>2 ^ 52\<close>.
  Keys made of a date are for years of four digits.

  \<^bold>\<open>Parameters.\<close>  pg-boss, the uuid validation of the platform, \<open>localeCompare\<close>, sha256, the
  authenticated cipher, the parser of dates beyond the interchange format and that of URLs, the answers of the
  provider, the schema library and the Unicode folding of texts, the JSON parser, the texts of the prompt, the dossiers of posts, the handlers and the results they commit, the inspection of results and the cleanup hooks, which may reject, are arguments of the definitions that use them.
  Clock readings and new identifiers are arguments too.

  Identifiers compare as texts, in the lower-case spelling the uuid columns return; only the resource and correlation
  identifiers of an enqueued job are taken in another, because the program compares one with its column.

  \<^bold>\<open>Not modelled.\<close>  Logging and telemetry, on which no result depends; the web application beyond the
  commit of a connection; the HTTP of the provider and storage clients; configuration.  Not modelled yet: the
  sealed state of the authorisation redirect and the order of calls of the token maintenance handler,
  the storage of comments and the copying of videos, the reading of the inputs of a recalculation and the rows it stores
  (\<open>packages/db/src/analytics-features.ts\<close>, \<open>feature-statistics.ts\<close>), the upload rules, the chat, the
  contract of analyses, and the reading of strategies for their screen.
\<close>

end
